(* ===== verification/Prelude.thy ===== *)
theory Prelude
  imports Complex_Main
begin

text \<open>
  Shared vocabulary of the development: JavaScript numbers, decimal printing, joined
  strings, and the sequential reading of \<open>async\<close> code as functions over an explicit
  world that may throw.  Nothing here is specific to one component.

  A JavaScript number is a finite value, an infinity or \<open>NaN\<close>.  Finite values are exact
  rationals: the rounding of IEEE doubles is not part of the model (a function of the code
  whose purpose is that rounding takes the rounding as a parameter).
\<close>

named_theorems io_simps \<open>unfolding of the sequential combinators\<close>
named_theorems num_simps \<open>evaluation of the JavaScript number tests\<close>

section \<open>JavaScript numbers\<close>

datatype jsnum = Fin rat | PosInf | NegInf | NaN

definition is_finite :: "jsnum \<Rightarrow> bool" where
  [num_simps]: "is_finite x = (case x of Fin _ \<Rightarrow> True | _ \<Rightarrow> False)"

definition is_int_rat :: "rat \<Rightarrow> bool" where
  "is_int_rat r \<longleftrightarrow> of_int \<lfloor>r\<rfloor> = r"

definition is_integer :: "jsnum \<Rightarrow> bool" where
  [num_simps]: "is_integer x = (case x of Fin r \<Rightarrow> is_int_rat r | _ \<Rightarrow> False)"

definition max_safe_integer :: int where
  "max_safe_integer = 2 ^ 53 - 1"

definition is_safe_integer :: "jsnum \<Rightarrow> bool" where
  [num_simps]: "is_safe_integer x =
     (case x of Fin r \<Rightarrow> is_int_rat r \<and> \<bar>\<lfloor>r\<rfloor>\<bar> \<le> max_safe_integer | _ \<Rightarrow> False)"

text \<open>Comparison of JavaScript numbers: every comparison with \<open>NaN\<close> is false.\<close>

fun num_less :: "jsnum \<Rightarrow> jsnum \<Rightarrow> bool" where
  "num_less NaN _ = False"
| "num_less _ NaN = False"
| "num_less (Fin a) (Fin b) = (a < b)"
| "num_less NegInf NegInf = False"
| "num_less NegInf _ = True"
| "num_less _ PosInf = True"
| "num_less _ _ = False"

definition num_leq :: "jsnum \<Rightarrow> jsnum \<Rightarrow> bool" where
  "num_leq a b = (num_less a b \<or> (a = b \<and> a \<noteq> NaN))"

lemma num_less_PosInf_Fin [simp]: "\<not> num_less PosInf (Fin a)"
  by simp

lemma num_less_Fin_NegInf [simp]: "\<not> num_less (Fin a) NegInf"
  by simp

lemma num_leq_Fin [simp]: "num_leq (Fin a) (Fin b) \<longleftrightarrow> a \<le> b"
  by (auto simp: num_leq_def)

lemma num_leq_NaN [simp]: "\<not> num_leq NaN b" "\<not> num_leq a NaN"
  by (cases a; simp add: num_leq_def)+

lemma is_int_rat_of_int [simp]: "is_int_rat (of_int n)"
  by (simp add: is_int_rat_def)

lemma is_int_rat_numeral [simp]:
  "is_int_rat 0" "is_int_rat 1" "is_int_rat (numeral n)" "is_int_rat (- numeral n)"
  by (simp_all add: is_int_rat_def floor_minus)

lemma is_int_rat_iff: "is_int_rat r \<longleftrightarrow> (\<exists>n. r = of_int n)"
  by (metis is_int_rat_def is_int_rat_of_int)

text \<open>Plain values: what a JSON document, a log payload or the details of an error hold.\<close>

datatype json =
    Null
  | Bool bool
  | Num jsnum
  | Str string
  | Arr "json list"
  | Obj "(string \<times> json) list"

definition jget :: "json \<Rightarrow> string \<Rightarrow> json option" where
  "jget v k = (case v of Obj kvs \<Rightarrow> map_of kvs k | _ \<Rightarrow> None)"

lemma jget_Obj_append:
  "jget (Obj (xs @ ys)) k = (case jget (Obj xs) k of None \<Rightarrow> jget (Obj ys) k | Some v \<Rightarrow> Some v)"
  by (simp add: jget_def map_add_def split: option.splits)

lemma jget_Obj_Nil [simp]: "jget (Obj []) k = None"
  by (simp add: jget_def)

lemma jget_Obj_Cons: "jget (Obj ((k, v) # xs)) k' = (if k' = k then Some v else jget (Obj xs) k')"
  by (simp add: jget_def)

section \<open>Decimal printing and joined strings\<close>

definition digit_char :: "nat \<Rightarrow> char" where
  "digit_char n = char_of (48 + n)"

fun show_nat :: "nat \<Rightarrow> string" where
  "show_nat n = (if n < 10 then [digit_char n] else show_nat (n div 10) @ [digit_char (n mod 10)])"

declare show_nat.simps [simp del]

definition show_int :: "int \<Rightarrow> string" where
  "show_int n = (if n < 0 then CHR ''-'' # show_nat (nat (- n)) else show_nat (nat n))"

definition is_digit :: "char \<Rightarrow> bool" where
  "is_digit c \<longleftrightarrow> 48 \<le> (of_char c :: nat) \<and> (of_char c :: nat) \<le> 57"

lemma of_char_digit: "n < 10 \<Longrightarrow> (of_char (digit_char n) :: nat) = 48 + n"
  by (simp add: digit_char_def)

lemma is_digit_digit_char [simp]: "n < 10 \<Longrightarrow> is_digit (digit_char n)"
  by (simp add: is_digit_def of_char_digit)

lemma digit_char_inj: "m < 10 \<Longrightarrow> n < 10 \<Longrightarrow> digit_char m = digit_char n \<longleftrightarrow> m = n"
  by (metis add_left_cancel of_char_digit)

lemma show_nat_nonempty [simp]: "show_nat n \<noteq> []"
  by (subst show_nat.simps) simp

lemma show_nat_digits: "c \<in> set (show_nat n) \<Longrightarrow> is_digit c"
proof (induction n rule: show_nat.induct)
  case (1 n)
  then show ?case
    by (cases "n < 10") (auto simp: show_nat.simps [of n])
qed

lemma show_nat_inject [simp]: "show_nat m = show_nat n \<longleftrightarrow> m = n"
proof (induction m arbitrary: n rule: show_nat.induct)
  case (1 m)
  have small: "length (show_nat k) = 1 \<longleftrightarrow> k < 10" for k
    by (subst show_nat.simps) simp
  show ?case
  proof
    assume eq: "show_nat m = show_nat n"
    then have iff: "m < 10 \<longleftrightarrow> n < 10" by (metis small)
    show "m = n"
    proof (cases "m < 10")
      case True
      with eq iff show ?thesis
        by (simp add: show_nat.simps [of m] show_nat.simps [of n] digit_char_inj)
    next
      case False
      with eq iff have "show_nat (m div 10) = show_nat (n div 10)" "m mod 10 = n mod 10"
        by (simp_all add: show_nat.simps [of m] show_nat.simps [of n] digit_char_inj)
      with "1.IH" [OF False] have "m div 10 = n div 10" by blast
      with \<open>m mod 10 = n mod 10\<close> show ?thesis by (metis mult_div_mod_eq)
    qed
  qed simp
qed

text \<open>\<open>xs.join(sep)\<close> for a one-character separator.\<close>

fun join :: "char \<Rightarrow> string list \<Rightarrow> string" where
  "join c [] = []"
| "join c [x] = x"
| "join c (x # y # zs) = x @ c # join c (y # zs)"

lemma join_Cons: "xs \<noteq> [] \<Longrightarrow> join c (x # xs) = x @ c # join c xs"
  by (cases xs) auto

lemma append_sep_inject:
  assumes "c \<notin> set x" and "c \<notin> set y" and "x @ c # u = y @ c # v"
  shows "x = y \<and> u = v"
  using assms
proof (induction x arbitrary: y)
  case Nil
  then show ?case by (cases y) auto
next
  case (Cons a x)
  then show ?case by (cases y) auto
qed

lemma sep_in_join: "2 \<le> length xs \<Longrightarrow> c \<in> set (join c xs)"
  by (induction c xs rule: join.induct) auto

text \<open>Joined segments that do not hold the separator can be read back.\<close>

lemma join_inject:
  assumes "xs \<noteq> []" and "ys \<noteq> []"
    and "\<forall>x \<in> set xs. c \<notin> set x" and "\<forall>y \<in> set ys. c \<notin> set y"
    and "join c xs = join c ys"
  shows "xs = ys"
  using assms
proof (induction xs arbitrary: ys)
  case Nil
  then show ?case by simp
next
  case (Cons x xs)
  then obtain y ys' where ys: "ys = y # ys'" by (cases ys) auto
  show ?case
  proof (cases "xs = [] \<or> ys' = []")
    case True
    have "xs = [] \<longleftrightarrow> ys' = []"
      using Cons.prems ys by (cases xs; cases ys') auto
    with True Cons.prems ys show ?thesis by simp
  next
    case False
    with Cons.prems ys have "x @ c # join c xs = y @ c # join c ys'"
      by (simp add: join_Cons)
    with Cons.prems ys have "x = y \<and> join c xs = join c ys'"
      by (intro append_sep_inject) auto
    with False Cons.prems ys Cons.IH [of ys'] show ?thesis by simp
  qed
qed

section \<open>Association lists\<close>

lemma map_of_filter_key: "map_of (filter (\<lambda>(k, v). P k) xs) k = (if P k then map_of xs k else None)"
  by (induction xs) auto

section \<open>Sequential effects\<close>

text \<open>
  An \<open>async\<close> function whose awaits follow each other is a function from the world before it
  to its outcome (a thrown value on the left, an answer on the right) and the world after it.
\<close>

type_synonym ('w, 'e, 'a) io = "'w \<Rightarrow> ('e + 'a) \<times> 'w"

definition io_return :: "'a \<Rightarrow> ('w, 'e, 'a) io" where
  [io_simps]: "io_return x = (\<lambda>w. (Inr x, w))"

definition io_throw :: "'e \<Rightarrow> ('w, 'e, 'a) io" where
  [io_simps]: "io_throw e = (\<lambda>w. (Inl e, w))"

definition io_bind :: "('w, 'e, 'a) io \<Rightarrow> ('a \<Rightarrow> ('w, 'e, 'b) io) \<Rightarrow> ('w, 'e, 'b) io" where
  [io_simps]: "io_bind m f = (\<lambda>w. case m w of (Inl e, w') \<Rightarrow> (Inl e, w') | (Inr x, w') \<Rightarrow> f x w')"

text \<open>\<open>try { m } catch (e) { h(e) }\<close>\<close>

definition io_catch :: "('w, 'e, 'a) io \<Rightarrow> ('e \<Rightarrow> ('w, 'e, 'a) io) \<Rightarrow> ('w, 'e, 'a) io" where
  [io_simps]: "io_catch m h = (\<lambda>w. case m w of (Inl e, w') \<Rightarrow> h e w' | (Inr x, w') \<Rightarrow> (Inr x, w'))"

text \<open>\<open>try { m } finally { f }\<close>: a throw of \<open>f\<close> replaces the outcome of \<open>m\<close>.\<close>

definition io_finally :: "('w, 'e, 'a) io \<Rightarrow> ('w, 'e, unit) io \<Rightarrow> ('w, 'e, 'a) io" where
  [io_simps]: "io_finally m f = (\<lambda>w. case m w of (r, w') \<Rightarrow>
     (case f w' of (Inl e, w'') \<Rightarrow> (Inl e, w'') | (Inr _, w'') \<Rightarrow> (r, w'')))"

lemma io_bind_return [simp]: "io_bind (io_return x) f = f x"
  by (simp add: io_simps)

lemma io_bind_throw [simp]: "io_bind (io_throw e) f = io_throw e"
  by (simp add: io_simps)

lemma io_catch_return [simp]: "io_catch (io_return x) h = io_return x"
  by (simp add: io_simps)

lemma io_catch_throw [simp]: "io_catch (io_throw e) h = h e"
  by (simp add: io_simps)

lemma io_bind_assoc: "io_bind (io_bind m f) g = io_bind m (\<lambda>x. io_bind (f x) g)"
  by (rule ext) (simp add: io_simps split: prod.splits sum.splits)

section \<open>Runs of a step function\<close>

text \<open>
  A component driven by events is a step function; its run folds the events in order.  The
  locale collects what every such component needs once: an invariant kept by each step
  holds after every run from a state that has it.
\<close>

locale event_machine =
  fixes step :: "'s \<Rightarrow> 'e \<Rightarrow> 's"
    and inv :: "'s \<Rightarrow> bool"
  assumes step_inv: "inv s \<Longrightarrow> inv (step s e)"
begin

lemma run_inv: "inv s \<Longrightarrow> inv (foldl step s es)"
  by (induction es arbitrary: s) (auto intro: step_inv)

lemma run_split_inv: "inv s \<Longrightarrow> inv (foldl step (foldl step s es) es')"
  by (intro run_inv)

end

end
