(* ===== verification/Domain_Errors.thy ===== *)
theory Domain_Errors
  imports Prelude
begin

text \<open>
  What the program throws (\<open>packages/core/src/domain/errors.ts\<close>, \<open>error-code.ts\<close>,
  \<open>provider.ts\<close>, \<open>enums.ts\<close>).  A thrown value is an \<open>Error\<close> with its class, its fields and
  its cause, or something that is no \<open>Error\<close> at all; \<open>instanceof\<close> is a test of the class.
\<close>

section \<open>Providers and enums\<close>

datatype provider =
    Youtube_data
  | Youtube_analytics
  | Gemini
  | Elevenlabs
  | Openai_tts
  | Google_tts
  | Cartesia
  | System

definition PROVIDERS :: "provider list" where
  "PROVIDERS =
     [Youtube_data, Youtube_analytics, Gemini, Elevenlabs, Openai_tts, Google_tts, Cartesia, System]"

fun provider_name :: "provider \<Rightarrow> string" where
  "provider_name Youtube_data = ''youtube_data''"
| "provider_name Youtube_analytics = ''youtube_analytics''"
| "provider_name Gemini = ''gemini''"
| "provider_name Elevenlabs = ''elevenlabs''"
| "provider_name Openai_tts = ''openai_tts''"
| "provider_name Google_tts = ''google_tts''"
| "provider_name Cartesia = ''cartesia''"
| "provider_name System = ''system''"

lemma PROVIDERS_complete [simp]: "p \<in> set PROVIDERS"
  by (cases p) (simp_all add: PROVIDERS_def)

lemma distinct_PROVIDERS [simp]: "distinct PROVIDERS"
  by (simp add: PROVIDERS_def)

lemma provider_name_inject [simp]: "provider_name p = provider_name q \<longleftrightarrow> p = q"
  by (cases p; cases q) simp_all

datatype snapshot_point = P1h | P3h | P6h | P12h | P24h | P48h | P7d | Adhoc

definition SNAPSHOT_POINTS :: "(snapshot_point \<times> string) list" where
  "SNAPSHOT_POINTS =
     [(P1h, ''1h''), (P3h, ''3h''), (P6h, ''6h''), (P12h, ''12h''), (P24h, ''24h''), (P48h, ''48h''),
      (P7d, ''7d''), (Adhoc, ''adhoc'')]"

definition snapshot_point_name :: "snapshot_point \<Rightarrow> string" where
  "snapshot_point_name p = (case map_of SNAPSHOT_POINTS p of Some s \<Rightarrow> s | None \<Rightarrow> [])"

lemma snapshot_point_name_inject [simp]:
  "snapshot_point_name p = snapshot_point_name q \<longleftrightarrow> p = q"
  by (cases p; cases q) (simp_all add: snapshot_point_name_def SNAPSHOT_POINTS_def)

datatype analysis_kind = Full | Hook_pass | Own_video

definition ANALYSIS_KINDS :: "(analysis_kind \<times> string) list" where
  "ANALYSIS_KINDS = [(Full, ''full''), (Hook_pass, ''hook_pass''), (Own_video, ''own_video'')]"

section \<open>Thrown values\<close>

datatype err_class =
    ErrorC
  | TypeErrorC
  | RangeErrorC
  | AggregateErrorC
  | AppErrorC
  | ValidationErrorC
  | NotFoundErrorC
  | BudgetExceededErrorC
  | ZodErrorC
  | UnrecoverableErrorC
  | CliErrorC
  | MigrationLockTimeoutErrorC
  | ProbeLimitErrorC
  | ProbeClosedErrorC
  | DeadlineErrorC
  | QueueSwitchesUnavailableErrorC
  | OtherErrorC string

text \<open>The field \<open>code\<close>: absent, a string, or a value of another type.\<close>

datatype code_field = NoCode | CodeString string | CodeOther json

type_synonym details = "json option"

text \<open>
  \<open>err_status\<close> is the \<open>httpStatus\<close> of an \<open>AppError\<close> and the \<open>statusCode\<close> of any other error.  What
  is thrown and is no \<open>Error\<close> is a primitive, or an object (\<open>Some\<close>) with or without a
  \<open>statusCode\<close>.
\<close>

datatype thrown =
    JsError
      (err_class: err_class)
      (err_name: string)
      (err_message: string)
      (err_code: code_field)
      (err_status: "json option")
      (err_details: details)
      (err_stack: "string option")
      (err_cause: "thrown option")
      (err_parts: "thrown list")
  | NonError (as_string: string) (other_code: code_field) (other_object: "json option option")

text \<open>The superclass an error class of the program extends.\<close>

definition superclass :: "err_class \<Rightarrow> err_class" where
  "superclass c =
     (if c \<in> {ValidationErrorC, NotFoundErrorC, BudgetExceededErrorC} then AppErrorC else ErrorC)"

definition instance_of :: "thrown \<Rightarrow> err_class \<Rightarrow> bool" where
  "instance_of e c =
     (case e of
        JsError k _ _ _ _ _ _ _ _ \<Rightarrow> k = c \<or> superclass k = c \<or> c = ErrorC
      | NonError _ _ _ \<Rightarrow> False)"

lemma instance_of_Error [simp]: "instance_of (JsError k n m co s d st ca p) ErrorC"
  by (simp add: instance_of_def)

lemma instance_of_NonError [simp]: "\<not> instance_of (NonError s c ob) k"
  by (simp add: instance_of_def)

text \<open>\<open>new Error(message)\<close> and \<open>new Error(message, { cause })\<close>.\<close>

definition plain_error :: "string \<Rightarrow> thrown" where
  "plain_error m = JsError ErrorC ''Error'' m NoCode None None None None []"

definition error_with_cause :: "string \<Rightarrow> thrown \<Rightarrow> thrown" where
  "error_with_cause m c = JsError ErrorC ''Error'' m NoCode None None None (Some c) []"

definition range_error :: "string \<Rightarrow> thrown" where
  "range_error m = JsError RangeErrorC ''RangeError'' m NoCode None None None None []"

definition type_error :: "string \<Rightarrow> thrown" where
  "type_error m = JsError TypeErrorC ''TypeError'' m NoCode None None None None []"

definition aggregate_error :: "thrown list \<Rightarrow> string \<Rightarrow> thrown" where
  "aggregate_error es m =
     JsError AggregateErrorC ''AggregateError'' m NoCode None None None None es"

text \<open>The fields of a log line: an error under \<open>err\<close>, or a plain value.\<close>

datatype log_value = LErr thrown | LVal json

type_synonym log_fields = "(string \<times> log_value) list"

datatype log_level = Debug | Info | Warn | ErrorLevel | FatalLevel

record log_line =
  ll_level :: log_level
  ll_fields :: log_fields
  ll_message :: string

section \<open>Domain errors\<close>

definition VALIDATION_ERROR_CODE :: string where
  "VALIDATION_ERROR_CODE = ''VALIDATION_ERROR''"

definition NOT_FOUND_ERROR_CODE :: string where
  "NOT_FOUND_ERROR_CODE = ''NOT_FOUND''"

definition BUDGET_EXCEEDED_ERROR_CODE :: string where
  "BUDGET_EXCEEDED_ERROR_CODE = ''BUDGET_EXCEEDED''"

text \<open>\<open>new.target.name\<close>: the name is that of the class that was constructed.\<close>

fun app_class_name :: "err_class \<Rightarrow> string" where
  "app_class_name AppErrorC = ''AppError''"
| "app_class_name ValidationErrorC = ''ValidationError''"
| "app_class_name NotFoundErrorC = ''NotFoundError''"
| "app_class_name BudgetExceededErrorC = ''BudgetExceededError''"
| "app_class_name _ = ''Error''"

definition app_error :: "err_class \<Rightarrow> string \<Rightarrow> string \<Rightarrow> jsnum \<Rightarrow> details \<Rightarrow> thrown" where
  "app_error cls code message httpStatus details =
     JsError cls (app_class_name cls) message (CodeString code) (Some (Num httpStatus)) details None None []"

definition validation_error :: "string \<Rightarrow> details \<Rightarrow> thrown" where
  "validation_error message details =
     app_error ValidationErrorC VALIDATION_ERROR_CODE message (Fin 400) details"

definition not_found_error :: "string \<Rightarrow> details \<Rightarrow> thrown" where
  "not_found_error message details =
     app_error NotFoundErrorC NOT_FOUND_ERROR_CODE message (Fin 404) details"

definition budget_exceeded_error :: "string \<Rightarrow> provider \<Rightarrow> jsnum \<Rightarrow> jsnum \<Rightarrow> thrown" where
  "budget_exceeded_error message prov spent cap =
     app_error BudgetExceededErrorC BUDGET_EXCEEDED_ERROR_CODE message (Fin 429)
       (Some (Obj [(''provider'', Str (provider_name prov)), (''spent'', Num spent), (''cap'', Num cap)]))"

text \<open>The \<open>code\<close> of an error when it is a string (\<open>error-code.ts\<close>).\<close>

definition errorCode :: "thrown \<Rightarrow> string option" where
  "errorCode e =
     (case (case e of JsError _ _ _ c _ _ _ _ _ \<Rightarrow> c | NonError _ c _ \<Rightarrow> c) of
        CodeString s \<Rightarrow> Some s
      | _ \<Rightarrow> None)"

lemmas error_defs = plain_error_def error_with_cause_def range_error_def type_error_def
  aggregate_error_def app_error_def validation_error_def not_found_error_def
  budget_exceeded_error_def

lemma instance_of_domain_errors [simp]:
  "instance_of (validation_error m d) ValidationErrorC"
  "instance_of (validation_error m d) AppErrorC"
  "instance_of (not_found_error m d) NotFoundErrorC"
  "instance_of (not_found_error m d) AppErrorC"
  "instance_of (budget_exceeded_error m p s c) BudgetExceededErrorC"
  "instance_of (budget_exceeded_error m p s c) AppErrorC"
  "\<not> instance_of (validation_error m d) BudgetExceededErrorC"
  "\<not> instance_of (not_found_error m d) BudgetExceededErrorC"
  "\<not> instance_of (plain_error m) BudgetExceededErrorC"
  by (simp_all add: error_defs instance_of_def superclass_def)

lemma err_message_domain [simp]:
  "err_message (validation_error m d) = m"
  "err_message (budget_exceeded_error m' p s c) = m'"
  "err_message (plain_error m'') = m''"
  by (simp_all add: error_defs)

lemma errorCode_domain [simp]:
  "errorCode (validation_error m d) = Some VALIDATION_ERROR_CODE"
  "errorCode (budget_exceeded_error m' p s c) = Some BUDGET_EXCEEDED_ERROR_CODE"
  "errorCode (plain_error m'') = None"
  by (simp_all add: error_defs errorCode_def)

end
