(* ===== verification/Job_Ids.thy ===== *)
theory Job_Ids
  imports Domain_Errors
begin

text \<open>
  Deterministic job ids (\<open>packages/core/src/domain/job-ids.ts\<close>): the builders, the guards on
  their segments and the last gate \<open>finalize\<close>.  The theorems are the ones the ids exist for:
  what a builder returns is an id BullMQ takes (no \<open>:\<close>, not digits alone) and two calls give
  one id exactly when they mean the same job.
\<close>

datatype job_id_part = StrPart string | NumPart jsnum

text \<open>A part equal as a segment: a string by its text, a safe integer by its digits.\<close>

definition segment :: "job_id_part \<Rightarrow> string \<Rightarrow> thrown + string" where
  "segment value position =
     (case value of
        NumPart x \<Rightarrow>
          (if \<not> is_safe_integer x \<or> num_less x (Fin 0)
           then Inl (validation_error (''jobId '' @ position @ '' is not a safe integer of zero or more'')
                  (Some (Obj [(''value'', Num x)])))
           else (case x of Fin r \<Rightarrow> Inr (show_nat (nat \<lfloor>r\<rfloor>)) | _ \<Rightarrow> Inr []))
      | StrPart s \<Rightarrow>
          (if s = []
           then Inl (validation_error (''jobId '' @ position @ '' is empty'') (Some (Obj [(''value'', Str s)])))
           else if CHR ''/'' \<in> set s \<or> CHR '':'' \<in> set s
           then Inl (validation_error (''jobId '' @ position @ '' may not contain \"/\" or \":\"'')
                  (Some (Obj [(''value'', Str s)])))
           else Inr s))"

text \<open>An id of digits alone (\<open>/^\d+$/\<close>) is refused.\<close>

definition all_digits :: "string \<Rightarrow> bool" where
  "all_digits s \<longleftrightarrow> s \<noteq> [] \<and> list_all is_digit s"

definition finalize :: "string \<Rightarrow> thrown + string" where
  "finalize jid =
     (if all_digits jid
      then Inl (validation_error (''jobId \"'' @ jid @ ''\" consists of digits only; BullMQ refuses such an id (\"Custom Id cannot be integers\") - give it a prefix'')
             (Some (Obj [(''id'', Str jid)])))
      else Inr jid)"

fun segments :: "nat \<Rightarrow> job_id_part list \<Rightarrow> thrown + string list" where
  "segments i [] = Inr []"
| "segments i (p # ps) =
     (case segment p (''part '' @ show_nat i) of
        Inl e \<Rightarrow> Inl e
      | Inr s \<Rightarrow> (case segments (Suc i) ps of Inl e \<Rightarrow> Inl e | Inr ss \<Rightarrow> Inr (s # ss)))"

definition jobId :: "string \<Rightarrow> job_id_part list \<Rightarrow> thrown + string" where
  "jobId pre parts =
     (case segment (StrPart pre) ''prefix'' of
        Inl e \<Rightarrow> Inl e
      | Inr head \<Rightarrow>
          (case segments 1 parts of
             Inl e \<Rightarrow> Inl e
           | Inr ss \<Rightarrow> finalize (join CHR ''/'' (head # ss))))"

text \<open>\<open>value.replaceAll(":", "@")\<close> on a finished id.\<close>

definition embedJobId :: "string \<Rightarrow> string \<Rightarrow> thrown + string" where
  "embedJobId value position =
     (if value = []
      then Inl (validation_error (''jobId '' @ position @ '' is empty'') (Some (Obj [(''value'', Str value)])))
      else Inr (map (\<lambda>c. if c = CHR '':'' then CHR ''@'' else c) value))"

text \<open>\<open>now.getTime()\<close> is the number of milliseconds, \<open>NaN\<close> for an invalid date.\<close>

definition intervalSlot :: "jsnum \<Rightarrow> jsnum \<Rightarrow> thrown + int" where
  "intervalSlot now intervalMin =
     (case intervalMin of
        Fin m \<Rightarrow>
          (if m \<le> 0
           then Inl (validation_error ''job interval must be a positive finite number of minutes''
                  (Some (Obj [(''intervalMin'', Num intervalMin)])))
           else (case now of
                   Fin t \<Rightarrow> Inr \<lfloor>t / (m * 60000)\<rfloor>
                 | _ \<Rightarrow> Inl (validation_error ''job slot needs a valid date''
                          (Some (Obj [(''now'', Str ''Invalid Date'')])))))
      | _ \<Rightarrow> Inl (validation_error ''job interval must be a positive finite number of minutes''
                  (Some (Obj [(''intervalMin'', Num intervalMin)]))))"

definition radarSync :: "string \<Rightarrow> jsnum \<Rightarrow> thrown + string" where
  "radarSync channelId slot = jobId ''radar.sync'' [StrPart channelId, NumPart slot]"

definition radarScore :: "string \<Rightarrow> snapshot_point \<Rightarrow> thrown + string" where
  "radarScore videoId point = jobId ''radar.score'' [StrPart videoId, StrPart (snapshot_point_name point)]"

definition systemSmoke :: "jsnum \<Rightarrow> thrown + string" where
  "systemSmoke requestedAtMs = jobId ''system.smoke'' [NumPart requestedAtMs]"

definition systemHeartbeat :: "jsnum \<Rightarrow> thrown + string" where
  "systemHeartbeat slot = jobId ''system.heartbeat'' [NumPart slot]"

definition dlqEntry :: "string \<Rightarrow> string \<Rightarrow> jsnum \<Rightarrow> thrown + string" where
  "dlqEntry queue originalId createdAtMs =
     (case jobId ''dlq'' [StrPart queue] of
        Inl e \<Rightarrow> Inl e
      | Inr head \<Rightarrow>
          (case embedJobId originalId ''original id'' of
             Inl e \<Rightarrow> Inl e
           | Inr body \<Rightarrow>
               (case segment (NumPart createdAtMs) ''created at'' of
                  Inl e \<Rightarrow> Inl e
                | Inr tail \<Rightarrow> finalize (join CHR ''/'' [head, body, tail]))))"

section \<open>Segments\<close>

text \<open>What \<open>segment\<close> accepts: the inputs for which the code does not throw.\<close>

definition valid_part :: "job_id_part \<Rightarrow> bool" where
  "valid_part p =
     (case p of
        NumPart x \<Rightarrow> (\<exists>n::nat. x = Fin (of_nat n) \<and> int n \<le> max_safe_integer)
      | StrPart s \<Rightarrow> s \<noteq> [] \<and> CHR ''/'' \<notin> set s \<and> CHR '':'' \<notin> set s)"

definition part_text :: "job_id_part \<Rightarrow> string" where
  "part_text p = (case p of StrPart s \<Rightarrow> s | NumPart x \<Rightarrow> (case x of Fin r \<Rightarrow> show_nat (nat \<lfloor>r\<rfloor>) | _ \<Rightarrow> []))"

lemma safe_nat_iff:
  "is_safe_integer x \<and> \<not> num_less x (Fin 0) \<longleftrightarrow> (\<exists>n::nat. x = Fin (of_nat n) \<and> int n \<le> max_safe_integer)"
proof (cases x)
  case (Fin r)
  show ?thesis
  proof
    assume a: "is_safe_integer x \<and> \<not> num_less x (Fin 0)"
    with Fin have r: "of_int \<lfloor>r\<rfloor> = r" "0 \<le> r" "\<bar>\<lfloor>r\<rfloor>\<bar> \<le> max_safe_integer"
      by (auto simp: num_simps is_int_rat_def)
    then have "r = of_nat (nat \<lfloor>r\<rfloor>)" by (metis of_int_of_nat_eq nat_0_le zero_le_floor)
    with Fin r show "\<exists>n::nat. x = Fin (of_nat n) \<and> int n \<le> max_safe_integer"
      by (intro exI [of _ "nat \<lfloor>r\<rfloor>"]) auto
  next
    assume "\<exists>n::nat. x = Fin (of_nat n) \<and> int n \<le> max_safe_integer"
    then show "is_safe_integer x \<and> \<not> num_less x (Fin 0)"
      by (auto simp: num_simps is_int_rat_def)
  qed
qed (auto simp: num_simps)

lemma segment_valid: "valid_part p \<Longrightarrow> segment p pos = Inr (part_text p)"
  using safe_nat_iff
  by (cases p) (auto simp: valid_part_def segment_def part_text_def split: jsnum.splits)

lemma segment_Inr: "segment p pos = Inr s \<longleftrightarrow> valid_part p \<and> s = part_text p"
proof
  assume seg: "segment p pos = Inr s"
  have "valid_part p"
  proof (cases p)
    case (NumPart x)
    with seg have "is_safe_integer x \<and> \<not> num_less x (Fin 0)"
      by (auto simp: segment_def split: if_splits)
    with NumPart show ?thesis by (simp add: valid_part_def safe_nat_iff)
  qed (use seg in \<open>auto simp: segment_def valid_part_def split: if_splits\<close>)
  with seg segment_valid [of p pos] show "valid_part p \<and> s = part_text p" by simp
qed (simp add: segment_valid)

lemma digit_not_sep: "is_digit c \<Longrightarrow> c \<noteq> CHR ''/'' \<and> c \<noteq> CHR '':''"
  by (auto simp: is_digit_def)

lemma show_nat_no_sep [simp]: "CHR ''/'' \<notin> set (show_nat n)" "CHR '':'' \<notin> set (show_nat n)"
  using show_nat_digits digit_not_sep by blast+

lemma part_text_clean:
  assumes "valid_part p"
  shows "part_text p \<noteq> []" and "CHR ''/'' \<notin> set (part_text p)" and "CHR '':'' \<notin> set (part_text p)"
  using assms by (auto simp: valid_part_def part_text_def split: job_id_part.splits)

lemma segments_Inr: "segments i ps = Inr ss \<longleftrightarrow> list_all valid_part ps \<and> ss = map part_text ps"
proof (induction ps arbitrary: i ss)
  case (Cons p ps)
  show ?case
  proof (cases "segment p (''part '' @ show_nat i)")
    case (Inl e)
    then have "\<not> valid_part p" using segment_valid by fastforce
    with Inl show ?thesis by simp
  next
    case (Inr s)
    then have v: "valid_part p" "s = part_text p" by (simp_all add: segment_Inr)
    have rec: "segments i (p # ps) = (case segments (Suc i) ps of Inl e \<Rightarrow> Inl e | Inr ss \<Rightarrow> Inr (s # ss))"
      using Inr by simp
    show ?thesis
      using v Cons.IH [of "Suc i"]
      by (simp add: rec del: segments.simps split: sum.splits) (metis sum.distinct(1) sum.sel(2))
  qed
qed auto

lemma segments_valid: "list_all valid_part ps \<Longrightarrow> segments i ps = Inr (map part_text ps)"
  by (simp add: segments_Inr)

lemma jobId_Inr:
  "jobId pre ps = Inr jid \<longleftrightarrow>
     valid_part (StrPart pre) \<and> list_all valid_part ps \<and>
     jid = join CHR ''/'' (pre # map part_text ps) \<and> \<not> all_digits jid"
proof (cases "valid_part (StrPart pre) \<and> list_all valid_part ps")
  case True
  then have "segment (StrPart pre) ''prefix'' = Inr pre" "segments 1 ps = Inr (map part_text ps)"
    by (simp_all add: segment_valid segments_valid part_text_def)
  with True show ?thesis by (auto simp: jobId_def finalize_def)
next
  case False
  then show ?thesis
    by (auto simp: jobId_def segment_Inr segments_Inr part_text_def split: sum.splits)
qed

lemma slash_not_all_digits: "CHR ''/'' \<in> set s \<Longrightarrow> \<not> all_digits s"
  using digit_not_sep by (fastforce simp: all_digits_def list_all_iff)

lemma jobId_with_parts:
  assumes "ps \<noteq> []"
  shows "jobId pre ps = Inr jid \<longleftrightarrow>
     valid_part (StrPart pre) \<and> list_all valid_part ps \<and> jid = join CHR ''/'' (pre # map part_text ps)"
  using assms sep_in_join [of "pre # map part_text ps" "CHR ''/''"] slash_not_all_digits
  by (cases ps) (auto simp: jobId_Inr)

lemma set_join: "c \<in> set (join s xs) \<Longrightarrow> c = s \<or> (\<exists>x \<in> set xs. c \<in> set x)"
  by (induction s xs rule: join.induct) auto

lemma jobId_no_colon: "jobId pre ps = Inr jid \<Longrightarrow> CHR '':'' \<notin> set jid"
  by (auto simp: jobId_Inr list_all_iff part_text_clean valid_part_def dest!: set_join)

section \<open>Properties\<close>

text \<open>
  Every id the general builder returns is one BullMQ accepts: it is not empty, holds no
  colon and is not digits alone; and the builder throws a \<open>ValidationError\<close> otherwise.
\<close>

theorem jobId_accepted_by_bullmq:
  "case jobId pre ps of
     Inr jid \<Rightarrow> jid \<noteq> [] \<and> CHR '':'' \<notin> set jid \<and> \<not> all_digits jid
   | Inl e \<Rightarrow> instance_of e ValidationErrorC"
proof (cases "jobId pre ps")
  case (Inl e)
  have "segments i ps = Inl e' \<Longrightarrow> instance_of e' ValidationErrorC" for i e'
    by (induction ps arbitrary: i)
       (auto simp: segment_def split: sum.splits job_id_part.splits if_splits jsnum.splits)
  with Inl show ?thesis
    by (auto simp: jobId_def segment_def finalize_def split: sum.splits if_splits)
next
  case (Inr jid)
  then show ?thesis
    using jobId_no_colon [OF Inr] by (cases ps) (auto simp: Inr jobId_Inr [THEN iffD1, OF Inr] valid_part_def dest: jobId_Inr [THEN iffD1])
qed

text \<open>
  An id names its job: two calls of the general builder that return the same id were given
  the same prefix and, position by position, parts that print the same.
\<close>

theorem jobId_injective:
  assumes "jobId pre ps = Inr jid" and "jobId pre' ps' = Inr jid"
  shows "pre = pre' \<and> map part_text ps = map part_text ps'"
proof -
  let ?xs = "pre # map part_text ps" and ?ys = "pre' # map part_text ps'"
  have "join CHR ''/'' ?xs = join CHR ''/'' ?ys" using assms by (simp add: jobId_Inr)
  moreover have "\<forall>x \<in> set ?xs. CHR ''/'' \<notin> set x" "\<forall>x \<in> set ?ys. CHR ''/'' \<notin> set x"
    using assms by (auto simp: jobId_Inr list_all_iff part_text_clean valid_part_def)
  ultimately have "?xs = ?ys" by (intro join_inject) auto
  then show ?thesis by simp
qed

theorem jobId_injective_witness:
  "jobId ''radar.sync'' [StrPart ''UC1'', NumPart (Fin 7)] = Inr ''radar.sync/UC1/7'' \<and>
   map part_text [StrPart ''UC1'', NumPart (Fin 7)] = map part_text [StrPart ''UC1'', StrPart ''7'']"
proof -
  have a: "jobId ''radar.sync'' [StrPart ''UC1'', NumPart (Fin 7)] = Inr ''radar.sync/UC1/7''"
    and b: "jobId ''radar.sync'' [StrPart ''UC1'', StrPart ''7''] = Inr ''radar.sync/UC1/7''"
    by code_simp+
  from jobId_injective [OF a b] a show ?thesis by blast
qed

end
