(* ===== verification/Budget_Core.thy ===== *)
theory Budget_Core
  imports Domain_Errors
begin

text \<open>
  The caps and where a spend stands against one (\<open>packages/core/src/domain/budget.ts\<close>,
  \<open>redis-keys.ts\<close>).  \<open>budgetState\<close> is pure; a scope carries everything needed to count what
  stands against its cap.
\<close>

section \<open>Where a period stands against its cap\<close>

definition WARN_NUMERATOR :: rat where
  "WARN_NUMERATOR = 4"

definition WARN_DENOMINATOR :: rat where
  "WARN_DENOMINATOR = 5"

definition BUDGET_WARN_RATIO :: rat where
  "BUDGET_WARN_RATIO = WARN_NUMERATOR / WARN_DENOMINATOR"

record budget_state =
  bs_ratio :: rat
  bs_exceeded :: bool
  bs_warn :: bool

definition budgetState :: "jsnum \<Rightarrow> jsnum \<Rightarrow> thrown + budget_state" where
  "budgetState spent cap =
     (if \<not> is_finite cap \<or> num_leq cap (Fin 0)
      then Inl (validation_error ''budget cap must be a positive finite number'' 
        (Some (Obj [(''spent'', Num spent), (''cap'', Num cap)])))
      else if \<not> is_finite spent \<or> num_less spent (Fin 0)
      then Inl (validation_error ''budget spend must be a non-negative finite number'' 
        (Some (Obj [(''spent'', Num spent), (''cap'', Num cap)])))
      else (case (spent, cap) of
              (Fin s, Fin c) \<Rightarrow>
                Inr \<lparr>bs_ratio = s / c, bs_exceeded = (c \<le> s),
                     bs_warn = (c * WARN_NUMERATOR \<le> s * WARN_DENOMINATOR)\<rparr>
            | _ \<Rightarrow> Inl (plain_error [])))"

section \<open>Scopes\<close>

datatype budget_measure = Units | Usd
datatype budget_period = Day | Month
datatype budget_scope_key = Youtube_data_units_day | Gemini_usd_day | Tts_usd_month

fun measure_name :: "budget_measure \<Rightarrow> string" where
  "measure_name Units = ''units''"
| "measure_name Usd = ''usd''"

fun period_name :: "budget_period \<Rightarrow> string" where
  "period_name Day = ''day''"
| "period_name Month = ''month''"

fun scope_key_name :: "budget_scope_key \<Rightarrow> string" where
  "scope_key_name Youtube_data_units_day = ''youtube_data_units_day''"
| "scope_key_name Gemini_usd_day = ''gemini_usd_day''"
| "scope_key_name Tts_usd_month = ''tts_usd_month''"

definition BUDGET_MEASURES :: "(budget_measure \<times> string) list" where
  "BUDGET_MEASURES = map (\<lambda>m. (m, measure_name m)) [Units, Usd]"

definition BUDGET_PERIODS :: "(budget_period \<times> string) list" where
  "BUDGET_PERIODS = map (\<lambda>p. (p, period_name p)) [Day, Month]"

definition BUDGET_SCOPE_KEYS :: "(budget_scope_key \<times> string) list" where
  "BUDGET_SCOPE_KEYS =
     map (\<lambda>k. (k, scope_key_name k)) [Youtube_data_units_day, Gemini_usd_day, Tts_usd_month]"

record budget_scope =
  sc_key :: budget_scope_key
  sc_measure :: budget_measure
  sc_period :: budget_period
  sc_providers :: "provider list"
  sc_timeZone :: string

definition PACIFIC :: string where
  "PACIFIC = ''America/Los_Angeles''"

definition UTC :: string where
  "UTC = ''UTC''"

definition YOUTUBE_DATA_UNITS_DAY :: budget_scope where
  "YOUTUBE_DATA_UNITS_DAY =
     \<lparr>sc_key = Youtube_data_units_day, sc_measure = Units, sc_period = Day,
      sc_providers = [Youtube_data], sc_timeZone = PACIFIC\<rparr>"

definition GEMINI_USD_DAY :: budget_scope where
  "GEMINI_USD_DAY =
     \<lparr>sc_key = Gemini_usd_day, sc_measure = Usd, sc_period = Day,
      sc_providers = [Gemini], sc_timeZone = UTC\<rparr>"

definition TTS_USD_MONTH :: budget_scope where
  "TTS_USD_MONTH =
     \<lparr>sc_key = Tts_usd_month, sc_measure = Usd, sc_period = Month,
      sc_providers = [Elevenlabs, Openai_tts, Google_tts, Cartesia], sc_timeZone = UTC\<rparr>"

fun BUDGET_SCOPE_BY_PROVIDER :: "provider \<Rightarrow> budget_scope option" where
  "BUDGET_SCOPE_BY_PROVIDER Youtube_data = Some YOUTUBE_DATA_UNITS_DAY"
| "BUDGET_SCOPE_BY_PROVIDER Youtube_analytics = None"
| "BUDGET_SCOPE_BY_PROVIDER Gemini = Some GEMINI_USD_DAY"
| "BUDGET_SCOPE_BY_PROVIDER Elevenlabs = Some TTS_USD_MONTH"
| "BUDGET_SCOPE_BY_PROVIDER Openai_tts = Some TTS_USD_MONTH"
| "BUDGET_SCOPE_BY_PROVIDER Google_tts = Some TTS_USD_MONTH"
| "BUDGET_SCOPE_BY_PROVIDER Cartesia = Some TTS_USD_MONTH"
| "BUDGET_SCOPE_BY_PROVIDER System = None"

definition budgetScopeFor :: "provider \<Rightarrow> budget_scope option" where
  "budgetScopeFor p = BUDGET_SCOPE_BY_PROVIDER p"

definition budgetCacheKey :: "budget_scope_key \<Rightarrow> string" where
  "budgetCacheKey k = ''budget:'' @ scope_key_name k"

definition BUDGET_CACHE_TTL_SEC :: nat where
  "BUDGET_CACHE_TTL_SEC = 60"

lemmas scope_defs = YOUTUBE_DATA_UNITS_DAY_def GEMINI_USD_DAY_def TTS_USD_MONTH_def

lemma budgetCacheKey_inject [simp]: "budgetCacheKey k = budgetCacheKey l \<longleftrightarrow> k = l"
  by (cases k; cases l) (simp_all add: budgetCacheKey_def)

section \<open>Lemmas\<close>

text \<open>The inputs the state is defined on, as rationals.\<close>

lemma budgetState_Fin:
  "budgetState (Fin s) (Fin c) =
     (if c \<le> 0 then Inl (validation_error ''budget cap must be a positive finite number'' 
        (Some (Obj [(''spent'', Num (Fin s)), (''cap'', Num (Fin c))])))
      else if s < 0 then Inl (validation_error ''budget spend must be a non-negative finite number'' 
        (Some (Obj [(''spent'', Num (Fin s)), (''cap'', Num (Fin c))])))
      else Inr \<lparr>bs_ratio = s / c, bs_exceeded = (c \<le> s), bs_warn = (c * 4 \<le> s * 5)\<rparr>)"
  by (simp add: budgetState_def num_simps WARN_NUMERATOR_def WARN_DENOMINATOR_def)

lemma budgetState_Inr_cases:
  assumes "budgetState spent cap = Inr st"
  obtains s c where "spent = Fin s" "cap = Fin c" "0 < c" "0 \<le> s"
    "st = \<lparr>bs_ratio = s / c, bs_exceeded = (c \<le> s), bs_warn = (c * 4 \<le> s * 5)\<rparr>"
proof -
  from assms obtain c where c: "cap = Fin c"
    by (cases cap) (auto simp: budgetState_def num_simps)
  with assms obtain s where s: "spent = Fin s"
    by (cases spent) (auto simp: budgetState_def num_simps split: if_splits)
  from assms that show thesis by (auto simp: c s budgetState_Fin split: if_splits)
qed

lemma budgetState_Inl:
  assumes "budgetState spent cap = Inl e"
  shows "instance_of e ValidationErrorC"
  using assms
  by (cases spent; cases cap) (auto simp: budgetState_def num_simps split: if_splits)

lemma scope_provider:
  "budgetScopeFor p = Some sc \<Longrightarrow> p \<in> set (sc_providers sc)"
  by (cases p) (auto simp: budgetScopeFor_def scope_defs)

lemma scope_providers_same:
  "budgetScopeFor p = Some sc \<Longrightarrow> q \<in> set (sc_providers sc) \<Longrightarrow> budgetScopeFor q = Some sc"
  by (cases p) (auto simp: budgetScopeFor_def scope_defs)

lemma scope_by_key:
  "budgetScopeFor p = Some sc \<Longrightarrow> budgetScopeFor q = Some sc' \<Longrightarrow> sc_key sc = sc_key sc' \<Longrightarrow> sc = sc'"
  by (cases p; cases q) (auto simp: budgetScopeFor_def scope_defs)

section \<open>Properties\<close>

text \<open>
  The two flags of a budget state, on every branch: a state exists exactly for a positive
  finite cap and a non-negative finite spend; then \<open>exceeded\<close> is the spend at or past the cap,
  \<open>warn\<close> the spend at or past four fifths of it, and a state that is exceeded still warns.
\<close>

theorem budgetState_correct:
  "case budgetState spent cap of
     Inl e \<Rightarrow> instance_of e ValidationErrorC \<and>
       (\<nexists>s c. spent = Fin s \<and> cap = Fin c \<and> 0 < c \<and> 0 \<le> s)
   | Inr st \<Rightarrow> (\<exists>s c. spent = Fin s \<and> cap = Fin c \<and> 0 < c \<and> 0 \<le> s \<and>
       bs_ratio st = s / c \<and>
       (bs_exceeded st \<longleftrightarrow> 1 \<le> bs_ratio st) \<and>
       (bs_warn st \<longleftrightarrow> BUDGET_WARN_RATIO \<le> bs_ratio st) \<and>
       (bs_exceeded st \<and> bs_warn st) = bs_exceeded st)"
proof (cases "budgetState spent cap")
  case (Inl e)
  then have "\<nexists>s c. spent = Fin s \<and> cap = Fin c \<and> 0 < c \<and> 0 \<le> s"
    by (auto simp: budgetState_Fin split: if_splits)
  with Inl show ?thesis by (simp add: budgetState_Inl)
next
  case (Inr st)
  then obtain s c where "spent = Fin s" "cap = Fin c" and pos: "0 < c" "0 \<le> s"
    and st: "st = \<lparr>bs_ratio = s / c, bs_exceeded = (c \<le> s), bs_warn = (c * 4 \<le> s * 5)\<rparr>"
    by (rule budgetState_Inr_cases)
  with Inr show ?thesis
    by (auto simp: BUDGET_WARN_RATIO_def WARN_NUMERATOR_def WARN_DENOMINATOR_def field_simps)
qed

text \<open>
  The caps partition the providers that have one: the scope of a provider sums that
  provider, every provider a scope sums spends against that very scope, and two different
  scopes share neither a provider nor the key of the cached total.
\<close>

theorem scopes_partition_providers:
  assumes p: "budgetScopeFor p = Some sc" and q: "budgetScopeFor q = Some sc'"
  shows "p \<in> set (sc_providers sc) \<and>
    (q \<in> set (sc_providers sc) \<longleftrightarrow> sc' = sc) \<and>
    (budgetCacheKey (sc_key sc) = budgetCacheKey (sc_key sc') \<longleftrightarrow> sc = sc')"
proof (intro conjI)
  show "p \<in> set (sc_providers sc)" by (rule scope_provider [OF p])
  show "q \<in> set (sc_providers sc) \<longleftrightarrow> sc' = sc"
    using scope_providers_same [OF p, of q] scope_provider [OF q] q by auto
  show "budgetCacheKey (sc_key sc) = budgetCacheKey (sc_key sc') \<longleftrightarrow> sc = sc'"
    using scope_by_key [OF p q] by auto
qed

theorem scopes_partition_providers_witness:
  "Cartesia \<in> set (sc_providers TTS_USD_MONTH) \<and> Gemini \<notin> set (sc_providers TTS_USD_MONTH) \<and>
   budgetCacheKey (sc_key TTS_USD_MONTH) \<noteq> budgetCacheKey (sc_key GEMINI_USD_DAY)"
proof -
  have a: "budgetScopeFor Cartesia = Some TTS_USD_MONTH" and b: "budgetScopeFor Gemini = Some GEMINI_USD_DAY"
    by (simp_all add: budgetScopeFor_def)
  have "GEMINI_USD_DAY \<noteq> TTS_USD_MONTH" by (simp add: scope_defs)
  with scopes_partition_providers [OF a b] show ?thesis by auto
qed

end
