(* ===== verification/Idea.thy ===== *)
theory Idea
  imports Prelude
begin

text \<open>
  The lifecycle of an idea (\<open>packages/core/src/domain/idea.ts\<close>): the table \<open>ALLOWED\<close> is the
  single source of truth, \<open>canTransition\<close> reads it, and the machine it describes is the
  step relation \<open>idea_step\<close>.
\<close>

datatype idea_status =
    New
  | Approved
  | Rejected
  | Later
  | In_research
  | Researched
  | Scripted
  | In_production
  | Ready_to_publish
  | Published

fun ALLOWED :: "idea_status \<Rightarrow> idea_status list" where
  "ALLOWED New = [Approved, Rejected, Later]"
| "ALLOWED Later = [Approved, Rejected]"
| "ALLOWED Approved = [In_research, Rejected]"
| "ALLOWED In_research = [Researched]"
| "ALLOWED Researched = [Scripted]"
| "ALLOWED Scripted = [In_production]"
| "ALLOWED In_production = [Ready_to_publish]"
| "ALLOWED Ready_to_publish = [Published]"
| "ALLOWED Rejected = []"
| "ALLOWED Published = []"

definition canTransition :: "idea_status \<Rightarrow> idea_status \<Rightarrow> bool" where
  "canTransition from to = List.member (ALLOWED from) to"

inductive idea_step :: "idea_status \<Rightarrow> idea_status \<Rightarrow> bool" where
  move: "canTransition s t \<Longrightarrow> idea_step s t"

inductive_cases idea_stepE: "idea_step s t"

inductive idea_path :: "idea_status \<Rightarrow> idea_status list \<Rightarrow> idea_status \<Rightarrow> bool" where
  stay: "idea_path s [] s"
| go: "idea_step s t \<Longrightarrow> idea_path t ss u \<Longrightarrow> idea_path s (t # ss) u"

inductive_simps idea_path_Nil [simp]: "idea_path s [] t"
inductive_simps idea_path_Cons: "idea_path s (t # ss) u"

text \<open>How far a status is from the end of its lifecycle.\<close>

fun remaining :: "idea_status \<Rightarrow> nat" where
  "remaining New = 8"
| "remaining Later = 7"
| "remaining Approved = 6"
| "remaining In_research = 5"
| "remaining Researched = 4"
| "remaining Scripted = 3"
| "remaining In_production = 2"
| "remaining Ready_to_publish = 1"
| "remaining Rejected = 0"
| "remaining Published = 0"

lemma idea_step_remaining: "idea_step s t \<Longrightarrow> remaining t < remaining s"
  by (cases s) (auto elim!: idea_stepE simp: canTransition_def)

lemma idea_path_remaining: "idea_path s ss t \<Longrightarrow> remaining t + length ss \<le> remaining s"
  by (induction rule: idea_path.induct) (auto dest: idea_step_remaining)

text \<open>The production line: from research on there is one way forward and no way out.\<close>

definition production_line :: "idea_status list" where
  "production_line = [In_research, Researched, Scripted, In_production, Ready_to_publish, Published]"

lemma idea_step_iff: "idea_step s t \<longleftrightarrow> t \<in> set (ALLOWED s)"
  by (simp add: idea_step.simps canTransition_def)

lemma path_end:
  "idea_path Published ss t \<longleftrightarrow> ss = [] \<and> t = Published"
  "idea_path Rejected ss t \<longleftrightarrow> ss = [] \<and> t = Rejected"
  by (cases ss; auto simp: idea_path_Cons idea_step_iff)+

lemma path_Ready: "idea_path Ready_to_publish ss Published \<longleftrightarrow> ss = [Published]"
  by (cases ss) (auto simp: idea_path_Cons idea_step_iff path_end)

lemma path_In_production: "idea_path In_production ss Published \<longleftrightarrow> ss = [Ready_to_publish, Published]"
  by (cases ss) (auto simp: idea_path_Cons idea_step_iff path_Ready)

lemma path_Scripted: "idea_path Scripted ss Published \<longleftrightarrow> ss = drop 3 production_line"
  by (cases ss) (auto simp: idea_path_Cons idea_step_iff path_In_production production_line_def)

lemma path_Researched: "idea_path Researched ss Published \<longleftrightarrow> ss = drop 2 production_line"
  by (cases ss) (auto simp: idea_path_Cons idea_step_iff path_Scripted production_line_def)

lemma path_In_research: "idea_path In_research ss Published \<longleftrightarrow> ss = drop 1 production_line"
  by (cases ss) (auto simp: idea_path_Cons idea_step_iff path_Researched production_line_def)

lemma path_Approved: "idea_path Approved ss Published \<longleftrightarrow> ss = production_line"
  by (cases ss) (auto simp: idea_path_Cons idea_step_iff path_In_research path_end production_line_def)

lemma path_Later: "idea_path Later ss Published \<longleftrightarrow> ss = Approved # production_line"
  by (cases ss) (auto simp: idea_path_Cons idea_step_iff path_Approved path_end)

section \<open>Properties\<close>

text \<open>
  An idea is published only along the production line: every run of allowed transitions
  from \<open>new\<close> to \<open>published\<close> goes through approval (directly or back from \<open>later\<close>), then
  through every production status in order, and nothing else.
\<close>

theorem published_only_through_approval:
  "idea_path New ss Published \<longleftrightarrow>
     ss = Approved # production_line \<or> ss = Later # Approved # production_line"
  by (cases ss) (auto simp: idea_path_Cons idea_step_iff path_Approved path_Later path_end)

text \<open>
  The lifecycle ends: every run of allowed transitions from a new idea has at most eight
  steps, and the statuses with no transition out are exactly \<open>rejected\<close> and \<open>published\<close>.
\<close>

theorem lifecycle_terminates:
  "(\<forall>ss t. \<not> (idea_path New ss t \<and> 8 < length ss)) \<and>
   ((\<nexists>t. canTransition s t) \<longleftrightarrow> s = Rejected \<or> s = Published)"
proof (intro conjI allI)
  fix ss t
  show "\<not> (idea_path New ss t \<and> 8 < length ss)"
    using idea_path_remaining [of New ss t] by auto
  show "(\<nexists>t. canTransition s t) \<longleftrightarrow> s = Rejected \<or> s = Published"
    by (cases s) (auto simp: canTransition_def)
qed

end
