(* ===== verification/Heartbeat.thy ===== *)
theory Heartbeat
  imports Domain_Errors
begin

text \<open>
  The judgement of the worker's liveness stamp (\<open>packages/core/src/domain/heartbeat.ts\<close>, with
  the key and the TTL of \<open>redis-keys.ts\<close>).  An instant is a number of milliseconds since the
  epoch, \<open>None\<close> for an invalid date.  \<open>toISOString\<close> is the standard library's, computed from the
  proleptic Gregorian calendar; \<open>Date.parse\<close> is a parameter: what it makes of a string that is
  no ISO instant is left to the engine, and the code is written so that it does not matter.
\<close>

section \<open>The standard library's ISO form\<close>

text \<open>Year, month and day of a day number counted from 1970-01-01.\<close>

definition civil_from_days :: "int \<Rightarrow> int \<times> int \<times> int" where
  "civil_from_days d =
     (let z = d + 719468;
          era = z div 146097;
          doe = z mod 146097;
          yoe = (doe - doe div 1460 + doe div 36524 - doe div 146096) div 365;
          doy = doe - (365 * yoe + yoe div 4 - yoe div 100);
          mp = (5 * doy + 2) div 153;
          day = doy - (153 * mp + 2) div 5 + 1;
          month = (if mp < 10 then mp + 3 else mp - 9)
      in (yoe + era * 400 + (if month \<le> 2 then 1 else 0), month, day))"

definition digits2 :: "int \<Rightarrow> string" where
  "digits2 n = [digit_char (nat (n div 10 mod 10)), digit_char (nat (n mod 10))]"

definition digits3 :: "int \<Rightarrow> string" where
  "digits3 n = digit_char (nat (n div 100 mod 10)) # digits2 n"

definition digits4 :: "int \<Rightarrow> string" where
  "digits4 n = digit_char (nat (n div 1000 mod 10)) # digits3 n"

definition digits6 :: "int \<Rightarrow> string" where
  "digits6 n = digit_char (nat (n div 100000 mod 10)) # digit_char (nat (n div 10000 mod 10)) # digits4 n"

definition toISOString :: "int \<Rightarrow> string" where
  "toISOString t =
     (let (y, m, d) = civil_from_days (t div 86400000);
          ms = t mod 86400000;
          year = (if 0 \<le> y \<and> y \<le> 9999 then digits4 y
                  else (if y < 0 then CHR ''-'' else CHR ''+'') # digits6 \<bar>y\<bar>)
      in year @ ''-'' @ digits2 m @ ''-'' @ digits2 d @ ''T'' @
         digits2 (ms div 3600000) @ '':'' @ digits2 (ms div 60000 mod 60) @ '':'' @
         digits2 (ms div 1000 mod 60) @ ''.'' @ digits3 (ms mod 1000) @ ''Z'')"

section \<open>The code\<close>

definition WORKER_HEARTBEAT_KEY :: string where
  "WORKER_HEARTBEAT_KEY = ''worker:heartbeat''"

definition WORKER_HEARTBEAT_TTL_SEC :: int where
  "WORKER_HEARTBEAT_TTL_SEC = 180"

record heartbeat_reading =
  heartbeatAt :: "string option"
  stale :: bool

text \<open>The pattern \<open>/^\d{4}-\d{2}-\d{2}T\d{2}:\d{2}:\d{2}\.\d{3}Z$/\<close>: \<open>0\<close> stands for a digit.\<close>

definition ISO_STAMP :: "string \<Rightarrow> bool" where
  "ISO_STAMP s = list_all2 (\<lambda>p c. if p = CHR ''0'' then is_digit c else c = p) ''0000-00-00T00:00:00.000Z'' s"

text \<open>\<open>Math.sign(x) * Math.ceil(Math.abs(x) / 1000)\<close>; \<open>NaN\<close> for an invalid clock.\<close>

definition offsetSecOf :: "int \<Rightarrow> int option \<Rightarrow> int option" where
  "offsetSecOf writtenAtMs now =
     (case now of
        None \<Rightarrow> None
      | Some t \<Rightarrow> (let offsetMs = t - writtenAtMs in Some (sgn offsetMs * ((\<bar>offsetMs\<bar> + 999) div 1000))))"

definition heartbeatOffsetSec :: "(string \<Rightarrow> int option) \<Rightarrow> string \<Rightarrow> int option \<Rightarrow> thrown + int" where
  "heartbeatOffsetSec date_parse stamp now =
     (case (case date_parse stamp of None \<Rightarrow> None | Some w \<Rightarrow> offsetSecOf w now) of
        None \<Rightarrow> Inl (range_error ''heartbeat offset of a stamp or a clock that is not an instant'')
      | Some offset \<Rightarrow> Inr offset)"

definition readHeartbeat ::
  "(string \<Rightarrow> int option) \<Rightarrow> string option \<Rightarrow> int option \<Rightarrow> heartbeat_reading" where
  "readHeartbeat date_parse stamp now =
     (case stamp of
        None \<Rightarrow> \<lparr>heartbeatAt = None, stale = True\<rparr>
      | Some s \<Rightarrow>
          (if \<not> ISO_STAMP s then \<lparr>heartbeatAt = None, stale = True\<rparr>
           else (case date_parse s of
                   None \<Rightarrow> \<lparr>heartbeatAt = None, stale = True\<rparr>
                 | Some writtenAt \<Rightarrow>
                     (if toISOString writtenAt \<noteq> s then \<lparr>heartbeatAt = None, stale = True\<rparr>
                      else \<lparr>heartbeatAt = Some s,
                            stale = (case offsetSecOf writtenAt now of
                                       None \<Rightarrow> False
                                     | Some o' \<Rightarrow> \<bar>o'\<bar> > WORKER_HEARTBEAT_TTL_SEC)\<rparr>))))"

section \<open>Lemmas\<close>

text \<open>Rounding away from zero keeps the comparison with a whole number of seconds.\<close>

lemma ceil_seconds: "ttl < (x + 999) div 1000 \<longleftrightarrow> ttl * 1000 < (x::int)"
proof -
  have "(x + 999) div 1000 * 1000 + (x + 999) mod 1000 = x + 999" by (rule div_mult_mod_eq)
  moreover have "0 \<le> (x + 999) mod 1000" "(x + 999) mod 1000 < 1000" by simp_all
  ultimately show ?thesis by linarith
qed

lemma offsetSecOf_bound:
  assumes "offsetSecOf w (Some t) = Some k"
  shows "ttl < \<bar>k\<bar> \<longleftrightarrow> ttl * 1000 < \<bar>t - w\<bar>"
proof -
  have k: "\<bar>k\<bar> = (\<bar>t - w\<bar> + 999) div 1000"
    using assms
    by (cases "t - w" "0::int" rule: linorder_cases) (auto simp: offsetSecOf_def Let_def abs_mult)
  show ?thesis unfolding k by (rule ceil_seconds)
qed

lemma heartbeat_accepted:
  "heartbeatAt (readHeartbeat dp stamp now) = Some s \<longleftrightarrow>
     stamp = Some s \<and> ISO_STAMP s \<and> (\<exists>w. dp s = Some w \<and> toISOString w = s)"
  by (auto simp: readHeartbeat_def split: option.splits)

section \<open>Properties\<close>

text \<open>
  An accepted stamp is the stamp itself and the ISO form of a real instant, whatever a
  lenient \<open>Date.parse\<close> makes of other strings; under a real clock it is stale exactly when the
  instant is more than the TTL away from the clock, behind it or ahead of it; and everything
  that is not accepted is stale.
\<close>

theorem readHeartbeat_verdict:
  "case heartbeatAt (readHeartbeat date_parse stamp (Some now)) of
     None \<Rightarrow> stale (readHeartbeat date_parse stamp (Some now))
   | Some s \<Rightarrow> stamp = Some s \<and>
       (\<exists>w. date_parse s = Some w \<and> toISOString w = s \<and>
         (stale (readHeartbeat date_parse stamp (Some now)) \<longleftrightarrow>
            WORKER_HEARTBEAT_TTL_SEC * 1000 < \<bar>now - w\<bar>))"
proof (cases "heartbeatAt (readHeartbeat date_parse stamp (Some now))")
  case None
  then show ?thesis
    by (auto simp: readHeartbeat_def split: option.splits if_splits)
next
  case (Some s)
  then obtain w where acc: "stamp = Some s" "ISO_STAMP s" "date_parse s = Some w" "toISOString w = s"
    by (auto simp: heartbeat_accepted)
  obtain k where k: "offsetSecOf w (Some now) = Some k" by (simp add: offsetSecOf_def Let_def)
  have "stale (readHeartbeat date_parse stamp (Some now)) \<longleftrightarrow> WORKER_HEARTBEAT_TTL_SEC < \<bar>k\<bar>"
    using acc k by (simp add: readHeartbeat_def)
  also have "\<dots> \<longleftrightarrow> WORKER_HEARTBEAT_TTL_SEC * 1000 < \<bar>now - w\<bar>"
    by (rule offsetSecOf_bound [OF k])
  finally show ?thesis using Some acc by auto
qed

text \<open>
  The number printed next to the verdict cannot disagree with it: the offset of an accepted
  stamp under a real clock is defined, and the reading is stale exactly when that offset is past
  the TTL.
\<close>

theorem offset_agrees_with_verdict:
  assumes "heartbeatAt (readHeartbeat date_parse stamp (Some now)) = Some s"
  shows "\<exists>k. heartbeatOffsetSec date_parse s (Some now) = Inr k \<and>
    (stale (readHeartbeat date_parse stamp (Some now)) \<longleftrightarrow> WORKER_HEARTBEAT_TTL_SEC < \<bar>k\<bar>)"
proof -
  from assms obtain w where acc: "stamp = Some s" "ISO_STAMP s" "date_parse s = Some w" "toISOString w = s"
    by (auto simp: heartbeat_accepted)
  obtain k where k: "offsetSecOf w (Some now) = Some k" by (simp add: offsetSecOf_def Let_def)
  then show ?thesis using acc by (auto simp: readHeartbeat_def heartbeatOffsetSec_def)
qed

theorem offset_agrees_with_verdict_witness:
  "\<exists>k. heartbeatOffsetSec (\<lambda>_. Some 1767225600000) ''2026-01-01T00:00:00.000Z'' (Some 1767225780400) = Inr k \<and>
    (stale (readHeartbeat (\<lambda>_. Some 1767225600000) (Some ''2026-01-01T00:00:00.000Z'') (Some 1767225780400))
     \<longleftrightarrow> WORKER_HEARTBEAT_TTL_SEC < \<bar>k\<bar>)"
proof -
  have "heartbeatAt (readHeartbeat (\<lambda>_. Some 1767225600000) (Some ''2026-01-01T00:00:00.000Z'')
      (Some 1767225780400)) = Some ''2026-01-01T00:00:00.000Z''"
    by code_simp
  from offset_agrees_with_verdict [OF this] show ?thesis .
qed

end
