(* ===== verification/Queue_Names.thy ===== *)
theory Queue_Names
  imports Prelude
begin

text \<open>
  The registry of queue names and the shape of the stored switches
  (\<open>packages/core/src/domain/queues.ts\<close>).  A name is a string, because names also come from
  storage; the live ones are those of \<open>QUEUE_NAMES\<close>.
\<close>

type_synonym queue_name = string

definition QUEUE_NAMES :: "queue_name list" where
  "QUEUE_NAMES = [
     ''radar.sync-channels'',
     ''radar.snapshot'',
     ''radar.score'',
     ''radar.cluster'',
     ''radar.baseline'',
     ''intel.analyze-video'',
     ''intel.hook-pass'',
     ''inbox.build'',
     ''inbox.later-return'',
     ''research.run'',
     ''script.generate'',
     ''production.package'',
     ''analytics.ingest'',
     ''analytics.materialize'',
     ''experiment.recompute'',
     ''experiment.features'',
     ''localize.script'',
     ''tts.generate'',
     ''tts.bakeoff'',
     ''publish.upload'',
     ''publish.sync-status'',
     ''publish.localizations'',
     ''publish.captions'',
     ''system.usage-rollup'',
     ''system.quota-guard'',
     ''system.quota-reset'',
     ''system.dlq'',
     ''system.heartbeat'',
     ''system.smoke'']"

definition isQueueName :: "string \<Rightarrow> bool" where
  "isQueueName name = List.member QUEUE_NAMES name"

definition QUEUE_SWITCHES_KEY :: string where
  "QUEUE_SWITCHES_KEY = ''queues.enabled''"

text \<open>The switches as stored: the keys of the object in their order, each with its flag.\<close>

type_synonym queue_switches = "(string \<times> bool) list"

lemma isQueueName_iff: "isQueueName n \<longleftrightarrow> n \<in> set QUEUE_NAMES"
  by (simp add: isQueueName_def)

lemma distinct_QUEUE_NAMES [simp]: "distinct QUEUE_NAMES"
  by (simp add: QUEUE_NAMES_def)

lemma QUEUE_NAMES_clean: "n \<in> set QUEUE_NAMES \<Longrightarrow> n \<noteq> [] \<and> CHR ''/'' \<notin> set n \<and> CHR '':'' \<notin> set n"
  by (auto simp: QUEUE_NAMES_def)

end
