(* ===== verification/Zod_Schemas.thy ===== *)
theory Zod_Schemas
  imports Budget_Core Queue_Names
begin

text \<open>
  Schemas as values.  The program declares its schemas with the constructors of the \<open>zod\<close>
  package; the package is not part of the repository, so a parse is a parameter of whatever
  calls one.  What is modelled here is the declarations: a schema is a term with the source's
  constructors, and \<open>accepts\<close> is the documented meaning of such a term - the specification a
  parser is assumed to meet (\<open>zod_contract\<close>).
\<close>

section \<open>Values and schema terms\<close>

datatype num_check = IsInt | NonNegative | Positive | IsFinite | AtLeast rat | AtMost rat

datatype zod =
    ZString nat
  | ZNumber "num_check list"
  | ZBoolean
  | ZEnum "string list"
  | ZLiteral json
  | ZUnknown
  | ZNullable zod
  | ZOptional zod
  | ZArray zod
  | ZRecord zod
  | ZObject bool "(string \<times> zod) list"
  | ZRefine zod "json \<Rightarrow> bool"
  | ZDiscriminated string "zod list"
  | ZUnion "zod list"

fun num_check_ok :: "num_check \<Rightarrow> jsnum \<Rightarrow> bool" where
  "num_check_ok IsInt x = is_integer x"
| "num_check_ok NonNegative x = num_leq (Fin 0) x"
| "num_check_ok Positive x = num_less (Fin 0) x"
| "num_check_ok IsFinite x = is_finite x"
| "num_check_ok (AtLeast r) x = num_leq (Fin r) x"
| "num_check_ok (AtMost r) x = num_leq x (Fin r)"

text \<open>Whether a key may be missing from the object.\<close>

fun may_be_missing :: "zod \<Rightarrow> bool" where
  "may_be_missing (ZOptional _) = True"
| "may_be_missing ZUnknown = True"
| "may_be_missing _ = False"

fun accepts :: "zod \<Rightarrow> json \<Rightarrow> bool" where
  "accepts (ZString n) v = (case v of Str s \<Rightarrow> n \<le> length s | _ \<Rightarrow> False)"
| "accepts (ZNumber cs) v = (case v of Num x \<Rightarrow> x \<noteq> NaN \<and> list_all (\<lambda>c. num_check_ok c x) cs | _ \<Rightarrow> False)"
| "accepts ZBoolean v = (case v of Bool _ \<Rightarrow> True | _ \<Rightarrow> False)"
| "accepts (ZEnum ss) v = (case v of Str s \<Rightarrow> s \<in> set ss | _ \<Rightarrow> False)"
| "accepts (ZLiteral l) v = (v = l)"
| "accepts ZUnknown v = True"
| "accepts (ZNullable s) v = (v = Null \<or> accepts s v)"
| "accepts (ZOptional s) v = accepts s v"
| "accepts (ZArray s) v = (case v of Arr vs \<Rightarrow> list_all (accepts s) vs | _ \<Rightarrow> False)"
| "accepts (ZRecord s) v = (case v of Obj kvs \<Rightarrow> list_all (\<lambda>(k, x). accepts s x) kvs | _ \<Rightarrow> False)"
| "accepts (ZObject strict fs) v =
     (case v of
        Obj kvs \<Rightarrow>
          list_all (\<lambda>(k, s). case map_of kvs k of None \<Rightarrow> may_be_missing s | Some x \<Rightarrow> accepts s x) fs \<and>
          (strict \<longrightarrow> list_all (\<lambda>(k, x). k \<in> fst ` set fs) kvs)
      | _ \<Rightarrow> False)"
| "accepts (ZRefine s p) v = (accepts s v \<and> p v)"
| "accepts (ZDiscriminated k ss) v = list_ex (\<lambda>s. accepts s v) ss"
| "accepts (ZUnion ss) v = list_ex (\<lambda>s. accepts s v) ss"

text \<open>The keys a schema of an object names.\<close>

fun schema_keys :: "zod \<Rightarrow> string list" where
  "schema_keys (ZObject _ fs) = map fst fs"
| "schema_keys (ZRefine s _) = schema_keys s"
| "schema_keys (ZDiscriminated _ ss) = concat (map schema_keys ss)"
| "schema_keys _ = []"

record issue =
  i_path :: "string list"
  i_code :: string

type_synonym zod_parse = "zod \<Rightarrow> json \<Rightarrow> issue list + json"

text \<open>
  What the callers rely on of a \<open>parse\<close>: it answers exactly the values the schema accepts, the
  answer is accepted again and holds the named keys as they were.  The key-wise part is stated for schemas whose
  fields hold no objects of their own (\<open>flat\<close>), where no key is dropped below the first level.
\<close>

fun holds_no_object :: "zod \<Rightarrow> bool" where
  "holds_no_object (ZObject _ _) = False"
| "holds_no_object (ZRecord _) = False"
| "holds_no_object (ZRefine _ _) = False"
| "holds_no_object (ZDiscriminated _ _) = False"
| "holds_no_object (ZUnion ss) = list_all holds_no_object ss"
| "holds_no_object (ZNullable s) = holds_no_object s"
| "holds_no_object (ZOptional s) = holds_no_object s"
| "holds_no_object (ZArray s) = holds_no_object s"
| "holds_no_object _ = True"

fun flat :: "zod \<Rightarrow> bool" where
  "flat (ZObject _ fs) = list_all (\<lambda>(k, s). holds_no_object s) fs"
| "flat (ZRefine s _) = flat s"
| "flat (ZDiscriminated _ ss) = list_all flat ss"
| "flat _ = False"

definition zod_contract :: "zod_parse \<Rightarrow> bool" where
  "zod_contract parse \<longleftrightarrow>
     (\<forall>s v. (\<exists>v'. parse s v = Inr v') \<longleftrightarrow> accepts s v) \<and>
     (\<forall>s v v'. parse s v = Inr v' \<longrightarrow> accepts s v') \<and>
     (\<forall>s v v'. parse s v = Inr v' \<longrightarrow> flat s \<longrightarrow> (\<forall>k \<in> set (schema_keys s). jget v' k = jget v k)) \<and>
     (\<forall>s v v'. parse (ZRecord s) v = Inr v' \<longrightarrow> holds_no_object s \<longrightarrow> v' = v)"

text \<open>A parser that meets the contract: it answers the value it was given.\<close>

definition plain_parse :: zod_parse where
  "plain_parse s v = (if accepts s v then Inr v else Inl [\<lparr>i_path = [], i_code = ''invalid''\<rparr>])"

lemma plain_parse_contract [simp]: "zod_contract plain_parse"
  by (auto simp: zod_contract_def plain_parse_def split: if_splits)

lemma contract_accepts: "zod_contract parse \<Longrightarrow> parse s v = Inr v' \<Longrightarrow> accepts s v"
  by (auto simp: zod_contract_def)

lemma contract_output: "zod_contract parse \<Longrightarrow> parse s v = Inr v' \<Longrightarrow> accepts s v'"
  by (auto simp: zod_contract_def)

lemma contract_total: "zod_contract parse \<Longrightarrow> accepts s v \<Longrightarrow> \<exists>v'. parse s v = Inr v'"
  by (auto simp: zod_contract_def)

lemma contract_keys:
  "zod_contract parse \<Longrightarrow> parse s v = Inr v' \<Longrightarrow> flat s \<Longrightarrow> k \<in> set (schema_keys s) \<Longrightarrow> jget v' k = jget v k"
  by (auto simp: zod_contract_def)

lemma contract_record:
  "zod_contract parse \<Longrightarrow> parse (ZRecord s) v = Inr v' \<Longrightarrow> holds_no_object s \<Longrightarrow> v' = v"
  by (auto simp: zod_contract_def)

lemma accepts_object_field:
  "accepts (ZObject st fs) v \<Longrightarrow> (k, s) \<in> set fs \<Longrightarrow>
     (case jget v k of None \<Rightarrow> may_be_missing s | Some x \<Rightarrow> accepts s x)"
  by (fastforce simp: jget_def list_all_iff split: json.splits option.splits)

lemma accepts_object_iff:
  "accepts (ZObject st fs) (Obj kvs) \<longleftrightarrow>
     (\<forall>(k, s) \<in> set fs. case map_of kvs k of None \<Rightarrow> may_be_missing s | Some x \<Rightarrow> accepts s x) \<and>
     (st \<longrightarrow> fst ` set kvs \<subseteq> fst ` set fs)"
  by (auto simp: list_all_iff; force)

section \<open>Schemas of the domain (\<open>packages/core\<close>)\<close>

definition ProviderSchema :: zod where
  "ProviderSchema = ZEnum (map provider_name PROVIDERS)"

text \<open>\<open>ProviderSchema.extract\<close> of a list of providers.\<close>

definition provider_extract :: "provider list \<Rightarrow> zod" where
  "provider_extract ps = ZEnum (map provider_name ps)"

definition SnapshotPointSchema :: zod where
  "SnapshotPointSchema = ZEnum (map snd SNAPSHOT_POINTS)"

definition AnalysisKindSchema :: zod where
  "AnalysisKindSchema = ZEnum (map snd ANALYSIS_KINDS)"

definition IdeaScoresSchema :: zod where
  "IdeaScoresSchema = ZObject False
     [(''velocity'', ZNumber []),
      (''acceleration'', ZNumber []),
      (''clusterScore'', ZNumber []),
      (''opportunity'', ZNumber [])]"

definition BudgetCacheValueSchema :: zod where
  "BudgetCacheValueSchema = ZObject True
     [(''spent'', ZNumber [NonNegative, IsFinite]),
      (''warn'', ZBoolean)]"

definition QueueSwitchesSchema :: zod where
  "QueueSwitchesSchema = ZRecord ZBoolean"

definition entryFields :: "(string \<times> zod) list" where
  "entryFields =
     [(''operation'', ZString 1),
      (''units'', ZOptional (ZNumber [IsInt, NonNegative])),
      (''tokensIn'', ZOptional (ZNumber [IsInt, NonNegative])),
      (''tokensOut'', ZOptional (ZNumber [IsInt, NonNegative])),
      (''costUsd'', ZOptional (ZNumber [NonNegative, IsFinite])),
      (''jobId'', ZOptional (ZString 1))]"

text \<open>\<open>{ ...entryFields, key: schema }\<close>: a later key takes the place of an earlier one.\<close>

definition spread_over :: "(string \<times> zod) list \<Rightarrow> (string \<times> zod) list \<Rightarrow> (string \<times> zod) list" where
  "spread_over base new = filter (\<lambda>(k, s). k \<notin> fst ` set new) base @ new"

definition quotaEntry :: zod where
  "quotaEntry = ZObject True (spread_over entryFields
     [(''provider'', provider_extract [Youtube_data, Youtube_analytics]),
      (''units'', ZNumber [IsInt, NonNegative])])"

definition paidEntry :: zod where
  "paidEntry = ZObject True (spread_over entryFields
     [(''provider'', provider_extract [Gemini, Elevenlabs, Openai_tts, Google_tts, Cartesia]),
      (''costUsd'', ZNumber [NonNegative, IsFinite])])"

definition systemEntry :: zod where
  "systemEntry = ZObject True (spread_over entryFields [(''provider'', ZLiteral (Str ''system''))])"

definition ApiUsageEntrySchema :: zod where
  "ApiUsageEntrySchema = ZDiscriminated ''provider'' [quotaEntry, paidEntry, systemEntry]"

section \<open>Content DNA (\<open>packages/core/src/schemas/content-dna.ts\<close>)\<close>

definition TimelineEntrySchema :: zod where
  "TimelineEntrySchema = ZObject False
     [(''startSec'', ZNumber [NonNegative]),
      (''endSec'', ZNumber [NonNegative]),
      (''visual'', ZString 0),
      (''narration'', ZOptional (ZString 0)),
      (''overlayText'', ZOptional (ZString 0))]"

definition HookTypeSchema :: zod where
  "HookTypeSchema = ZEnum
     [''question'', ''shocking_fact'', ''result_first'', ''bold_claim'', ''story_open'',
      ''visual_shock'', ''challenge'', ''other'']"

definition ContentDnaSchema :: zod where
  "ContentDnaSchema = ZObject False
     [(''dnaSchemaVersion'', ZLiteral (Num (Fin 1))),
      (''topic'', ZString 0),
      (''subtopic'', ZString 0),
      (''storySummary'', ZString 0),
      (''semanticTranscript'', ZString 0),
      (''timeline'', ZArray TimelineEntrySchema),
      (''hookType'', HookTypeSchema),
      (''hookTextPattern'', ZString 0),
      (''openingVisualType'', ZString 0),
      (''firstVisualObject'', ZString 0),
      (''first1sAnalysis'', ZString 0),
      (''first2sAnalysis'', ZString 0),
      (''first3sAnalysis'', ZString 0),
      (''first5sAnalysis'', ZString 0),
      (''contextDelaySec'', ZNumber [NonNegative]),
      (''openLoopType'', ZString 0),
      (''revealTimestampSec'', ZNumber [NonNegative]),
      (''revealPct'', ZNumber [AtLeast 0, AtMost 100]),
      (''storyStructure'', ZString 0),
      (''emotionalDriver'', ZString 0),
      (''speechPace'', ZString 0),
      (''sentenceStyle'', ZString 0),
      (''visualChangeDensity'', ZString 0),
      (''textOverlayUsage'', ZString 0),
      (''facePresence'', ZBoolean),
      (''endingType'', ZString 0),
      (''ctaType'', ZNullable (ZString 0)),
      (''whyItMayWork'', ZArray (ZString 0)),
      (''transferablePatterns'', ZArray (ZString 0)),
      (''riskyToCopyElements'', ZArray (ZString 0))]"

lemmas usage_schema_defs = ApiUsageEntrySchema_def quotaEntry_def paidEntry_def systemEntry_def
  spread_over_def entryFields_def provider_extract_def

lemma flat_schemas [simp]:
  "flat ApiUsageEntrySchema" "flat BudgetCacheValueSchema"
  by (simp_all add: usage_schema_defs BudgetCacheValueSchema_def)

end
