(* ===== verification/Js_Text.thy ===== *)
theory Js_Text
  imports Prelude
begin

text \<open>
  What the program uses of the standard library's text functions: \<open>Number(string)\<close>, the
  prefix tests, and the printing of numbers with a fixed number of decimals.
\<close>

section \<open>Reading numbers\<close>

definition is_space :: "char \<Rightarrow> bool" where
  "is_space c \<longleftrightarrow> (of_char c :: nat) \<in> {9, 10, 11, 12, 13, 32, 160}"

definition trim :: "string \<Rightarrow> string" where
  "trim s = rev (dropWhile is_space (rev (dropWhile is_space s)))"

definition digit_val :: "char \<Rightarrow> nat" where
  "digit_val c = of_char c - 48"

definition nat_of_digits :: "string \<Rightarrow> nat" where
  "nat_of_digits ds = foldl (\<lambda>n c. n * 10 + digit_val c) 0 ds"

text \<open>The exponent part of a decimal literal: \<open>e\<close>, an optional sign, digits.\<close>

definition exponent_part :: "string \<Rightarrow> int option" where
  "exponent_part r =
     (case r of
        [] \<Rightarrow> Some 0
      | c # r' \<Rightarrow>
          (if c = CHR ''e'' \<or> c = CHR ''E''
           then (let neg = (r' \<noteq> [] \<and> hd r' = CHR ''-'');
                     ds = (if r' \<noteq> [] \<and> (hd r' = CHR ''-'' \<or> hd r' = CHR ''+'') then tl r' else r')
                 in if ds \<noteq> [] \<and> list_all is_digit ds
                    then Some ((if neg then - 1 else 1) * int (nat_of_digits ds)) else None)
           else None))"

definition unsigned_decimal :: "string \<Rightarrow> rat option" where
  "unsigned_decimal s =
     (let ip = takeWhile is_digit s;
          r1 = dropWhile is_digit s;
          dot = (r1 \<noteq> [] \<and> hd r1 = CHR ''.'');
          fp = (if dot then takeWhile is_digit (tl r1) else []);
          r2 = (if dot then dropWhile is_digit (tl r1) else r1)
      in if ip = [] \<and> fp = [] then None
         else map_option
           (\<lambda>e. of_nat (nat_of_digits (ip @ fp)) / 10 ^ length fp * (if 0 \<le> e then 10 ^ nat e else 1 / 10 ^ nat (- e)))
           (exponent_part r2))"

definition radix_digit :: "nat \<Rightarrow> char \<Rightarrow> nat option" where
  "radix_digit b c =
     (let n = (of_char c :: nat);
          v = (if 48 \<le> n \<and> n \<le> 57 then n - 48
               else if 97 \<le> n \<and> n \<le> 122 then n - 87
               else if 65 \<le> n \<and> n \<le> 90 then n - 55 else b)
      in if v < b then Some v else None)"

fun radix_number :: "nat \<Rightarrow> nat \<Rightarrow> string \<Rightarrow> nat option" where
  "radix_number b acc [] = Some acc"
| "radix_number b acc (c # cs) =
     (case radix_digit b c of None \<Rightarrow> None | Some d \<Rightarrow> radix_number b (acc * b + d) cs)"

definition prefixed_number :: "string \<Rightarrow> nat option" where
  "prefixed_number s =
     (case s of
        z # r # ds \<Rightarrow>
          (if z = CHR ''0'' \<and> ds \<noteq> []
           then (if r = CHR ''x'' \<or> r = CHR ''X'' then radix_number 16 0 ds
                 else if r = CHR ''o'' \<or> r = CHR ''O'' then radix_number 8 0 ds
                 else if r = CHR ''b'' \<or> r = CHR ''B'' then radix_number 2 0 ds else None)
           else None)
      | _ \<Rightarrow> None)"

definition js_number :: "string \<Rightarrow> jsnum" where
  "js_number text =
     (let s = trim text;
          neg = (s \<noteq> [] \<and> hd s = CHR ''-'');
          u = (if s \<noteq> [] \<and> (hd s = CHR ''-'' \<or> hd s = CHR ''+'') then tl s else s)
      in if s = [] then Fin 0
         else (case prefixed_number s of
                 Some n \<Rightarrow> Fin (of_nat n)
               | None \<Rightarrow>
                   (if u = ''Infinity'' then (if neg then NegInf else PosInf)
                    else (case unsigned_decimal u of
                            None \<Rightarrow> NaN
                          | Some r \<Rightarrow> Fin (if neg then - r else r)))))"

section \<open>Text\<close>

text \<open>
  \<open>String(x)\<close> of a number with a finite decimal expansion of at most twenty fractional digits and no
  exponent: the numbers the program prints are configured ones.
\<close>

fun fraction_digits :: "nat \<Rightarrow> rat \<Rightarrow> string" where
  "fraction_digits 0 r = []"
| "fraction_digits (Suc n) r =
     (if r = 0 then [] else digit_char (nat \<lfloor>r * 10\<rfloor>) # fraction_digits n (r * 10 - of_int \<lfloor>r * 10\<rfloor>))"

definition show_num :: "jsnum \<Rightarrow> string" where
  "show_num x =
     (case x of
        NaN \<Rightarrow> ''NaN''
      | PosInf \<Rightarrow> ''Infinity''
      | NegInf \<Rightarrow> ''-Infinity''
      | Fin r \<Rightarrow>
          (if is_int_rat r then show_int \<lfloor>r\<rfloor>
           else (if r < 0 then [CHR ''-''] else []) @ show_int \<lfloor>\<bar>r\<bar>\<rfloor> @ CHR ''.'' #
                fraction_digits 20 (\<bar>r\<bar> - of_int \<lfloor>\<bar>r\<bar>\<rfloor>)))"

fun join_str :: "string \<Rightarrow> string list \<Rightarrow> string" where
  "join_str sep [] = []"
| "join_str sep [x] = x"
| "join_str sep (x # y # zs) = x @ sep @ join_str sep (y # zs)"

definition starts_with :: "string \<Rightarrow> string \<Rightarrow> bool" where
  "starts_with p s = (take (length p) s = p)"

text \<open>\<open>s.split(c)\<close> on one character.\<close>

fun split_on :: "char \<Rightarrow> string \<Rightarrow> string list" where
  "split_on c [] = [[]]"
| "split_on c (x # xs) =
     (if x = c then [] # split_on c xs
      else (case split_on c xs of [] \<Rightarrow> [[x]] | y # ys \<Rightarrow> (x # y) # ys))"

text \<open>ASCII lower case.\<close>

definition lower_char :: "char \<Rightarrow> char" where
  "lower_char c = (let n = (of_char c :: nat) in if 65 \<le> n \<and> n \<le> 90 then char_of (n + 32) else c)"

definition lower :: "string \<Rightarrow> string" where
  "lower s = map lower_char s"

lemma split_on_nonempty [simp]: "split_on c s \<noteq> []"
  by (cases s) (auto split: list.splits)

lemma join_split_on: "join c (split_on c s) = s"
proof (induction s)
  case (Cons x xs)
  show ?case
  proof (cases "x = c")
    case True
    with Cons show ?thesis by (simp add: join_Cons)
  next
    case False
    obtain y ys where y: "split_on c xs = y # ys" by (cases "split_on c xs") auto
    with False Cons show ?thesis by (cases ys) auto
  qed
qed simp

lemma split_on_no_sep: "p \<in> set (split_on c s) \<Longrightarrow> c \<notin> set p"
  by (induction s arbitrary: p) (auto split: if_splits list.splits)

lemma split_on_join:
  assumes "xs \<noteq> []" and "\<forall>x \<in> set xs. c \<notin> set x"
  shows "split_on c (join c xs) = xs"
  by (rule join_inject [of _ _ c]) (use assms split_on_no_sep join_split_on in auto)

section \<open>Fixed decimals\<close>

text \<open>\<open>k / 10^d\<close> written with \<open>d\<close> decimals, for \<open>d > 0\<close>.\<close>

definition pad_left :: "nat \<Rightarrow> string \<Rightarrow> string" where
  "pad_left n s = replicate (n - length s) CHR ''0'' @ s"

definition show_fixed :: "nat \<Rightarrow> nat \<Rightarrow> string" where
  "show_fixed d k = show_nat (k div 10 ^ d) @ ''.'' @ pad_left d (show_nat (k mod 10 ^ d))"

text \<open>The number a decimal text stands for.\<close>

definition decimal_value :: "string \<Rightarrow> rat option" where
  "decimal_value s = (case js_number s of Fin r \<Rightarrow> Some r | _ \<Rightarrow> None)"

lemma nat_of_digits_append:
  "nat_of_digits (xs @ [c]) = nat_of_digits xs * 10 + digit_val c"
  by (simp add: nat_of_digits_def)

lemma digit_val_digit_char [simp]: "n < 10 \<Longrightarrow> digit_val (digit_char n) = n"
  by (simp add: digit_val_def of_char_digit)

lemma nat_of_digits_show_nat [simp]: "nat_of_digits (show_nat n) = n"
proof (induction n rule: show_nat.induct)
  case (1 n)
  show ?case
  proof (cases "n < 10")
    case True
    then show ?thesis by (simp add: show_nat.simps [of n] nat_of_digits_def)
  next
    case False
    with 1 show ?thesis by (simp add: show_nat.simps [of n] nat_of_digits_append)
  qed
qed

lemma foldl_digits:
  "foldl (\<lambda>n c. n * 10 + digit_val c) a ys = a * 10 ^ length ys + nat_of_digits ys"
proof (induction ys rule: rev_induct)
  case (snoc y ys)
  then show ?case by (simp add: nat_of_digits_def algebra_simps)
qed (simp add: nat_of_digits_def)

lemma nat_of_digits_app:
  "nat_of_digits (xs @ ys) = nat_of_digits xs * 10 ^ length ys + nat_of_digits ys"
  using foldl_digits [of "nat_of_digits xs" ys] by (simp add: nat_of_digits_def)

lemma nat_of_digits_zeros: "nat_of_digits (replicate n CHR ''0'') = 0"
proof (induction n)
  case (Suc n)
  have "replicate (Suc n) CHR ''0'' = replicate n CHR ''0'' @ [CHR ''0'']"
    by (simp add: replicate_append_same)
  with Suc show ?case by (simp add: nat_of_digits_append digit_val_def)
qed (simp add: nat_of_digits_def)

lemma length_show_nat: "n < 10 ^ d \<Longrightarrow> 0 < d \<Longrightarrow> length (show_nat n) \<le> d"
proof (induction n arbitrary: d rule: show_nat.induct)
  case (1 n)
  show ?case
  proof (cases "n < 10")
    case True
    with "1.prems" show ?thesis by (simp add: show_nat.simps [of n])
  next
    case False
    have d: "1 < d"
    proof (rule ccontr)
      assume "\<not> 1 < d"
      with "1.prems"(2) have "d = 1" by simp
      with "1.prems"(1) False show False by simp
    qed
    then obtain d' where d': "d = Suc d'" "0 < d'" by (cases d) auto
    with "1.prems" have "n div 10 < 10 ^ d'"
      by (simp add: less_mult_imp_div_less mult.commute)
    from "1.IH" [OF False this d'(2)] d' False show ?thesis
      by (simp add: show_nat.simps [of n])
  qed
qed

lemma pad_left_digits: "list_all is_digit (pad_left d (show_nat n))"
  using show_nat_digits by (auto simp: pad_left_def list_all_iff is_digit_def)

lemma length_pad_left: "n < 10 ^ d \<Longrightarrow> 0 < d \<Longrightarrow> length (pad_left d (show_nat n)) = d"
  using length_show_nat by (simp add: pad_left_def)

lemma nat_of_digits_pad_left: "nat_of_digits (pad_left d (show_nat n)) = n"
  by (simp add: pad_left_def nat_of_digits_app nat_of_digits_zeros)

lemma trim_digits:
  assumes "s \<noteq> []" and "\<not> is_space (hd s)" and "\<not> is_space (last s)"
  shows "trim s = s"
proof -
  have a: "dropWhile is_space s = s" using assms by (cases s) auto
  have "dropWhile is_space (rev s) = rev s" using assms by (cases "rev s") (auto simp: last_rev hd_rev)
  with a show ?thesis by (simp add: trim_def)
qed

lemma prefixed_number_digits: "is_digit y \<or> y = CHR ''.'' \<Longrightarrow> prefixed_number (x # y # ys) = None"
proof -
  assume "is_digit y \<or> y = CHR ''.''"
  then have "y \<notin> {CHR ''x'', CHR ''X'', CHR ''o'', CHR ''O'', CHR ''b'', CHR ''B''}"
    by (auto simp: is_digit_def)
  then show ?thesis by (simp add: prefixed_number_def)
qed

lemma digit_not_space: "is_digit c \<Longrightarrow> \<not> is_space c"
  by (auto simp: is_digit_def is_space_def)

text \<open>Reading back a number printed with fixed decimals.\<close>

lemma decimal_value_show_fixed:
  assumes "0 < d"
  shows "decimal_value (show_fixed d k) = Some (of_nat k / 10 ^ d)"
proof -
  let ?ip = "show_nat (k div 10 ^ d)" and ?fp = "pad_left d (show_nat (k mod 10 ^ d))"
  let ?s = "?ip @ CHR ''.'' # ?fp"
  have s: "show_fixed d k = ?s" by (simp add: show_fixed_def)
  have ip: "list_all is_digit ?ip" using show_nat_digits by (auto simp: list_all_iff)
  have fp: "list_all is_digit ?fp" by (rule pad_left_digits)
  have lfp: "length ?fp = d" using assms by (simp add: length_pad_left)
  then have fpne: "?fp \<noteq> []" using assms by auto
  have hd: "is_digit (hd ?s)" using ip by (cases ?ip) (auto simp: list_all_iff)
  have last: "is_digit (last ?s)" using fp fpne by (auto simp: list_all_iff)
  have trim: "trim ?s = ?s" using hd last digit_not_space by (intro trim_digits) auto
  have hd_sign: "hd ?s \<noteq> CHR ''-''" "hd ?s \<noteq> CHR ''+''" using hd by (auto simp: is_digit_def)
  have dot: "\<not> is_digit CHR ''.''" by (simp add: is_digit_def)
  have tw: "takeWhile is_digit ?s = ?ip" "dropWhile is_digit ?s = CHR ''.'' # ?fp"
    using ip dot by (auto simp: list_all_iff takeWhile_append2 dropWhile_append2)
  have tw2: "takeWhile is_digit ?fp = ?fp" "dropWhile is_digit ?fp = []"
    using fp by (auto simp: list_all_iff takeWhile_eq_all_conv dropWhile_eq_Nil_conv)
  have pre: "prefixed_number ?s = None"
  proof (cases ?ip)
    case (Cons a as)
    show ?thesis
    proof (cases as)
      case Nil
      with Cons show ?thesis by (simp add: prefixed_number_digits)
    next
      case (Cons b bs)
      with ip \<open>?ip = a # as\<close> have "is_digit b" by simp
      with Cons \<open>?ip = a # as\<close> show ?thesis by (simp add: prefixed_number_digits)
    qed
  qed simp
  have inf: "?s \<noteq> ''Infinity''"
  proof
    assume "?s = ''Infinity''"
    then have "is_digit CHR ''I''" using hd by (metis list.sel(1))
    then show False by (simp add: is_digit_def)
  qed
  have val: "nat_of_digits (?ip @ ?fp) = k"
    by (simp only: nat_of_digits_app lfp nat_of_digits_show_nat nat_of_digits_pad_left div_mult_mod_eq)
  have "unsigned_decimal ?s = Some (of_nat k / 10 ^ d)"
    unfolding unsigned_decimal_def Let_def tw
    using lfp val by (simp add: tw2 exponent_part_def)
  then show ?thesis
    using trim hd_sign pre inf by (simp add: s decimal_value_def js_number_def Let_def)
qed

end
