(* ===== verification/Usage_Log.thy ===== *)
theory Usage_Log
  imports Zod_Schemas Js_Text
begin

text \<open>
  Access to \<open>api_usage_log\<close> (\<open>packages/db/src/repos/api-usage-log.ts\<close>): the row an insert
  writes, and the totals of several windows in one statement.  The statement is a value; what
  the database answers to it is a parameter (\<open>db_select\<close>), and the contract of that answer is the
  locale \<open>usage_store\<close>.
\<close>

section \<open>The row of an insert\<close>

definition optional_column :: "json \<Rightarrow> string \<Rightarrow> (string \<times> json) list" where
  "optional_column entry k = (case jget entry k of None \<Rightarrow> [] | Some v \<Rightarrow> [(k, v)])"

definition required_column :: "json \<Rightarrow> string \<Rightarrow> (string \<times> json) list" where
  "required_column entry k = [(k, case jget entry k of None \<Rightarrow> Null | Some v \<Rightarrow> v)]"

text \<open>The columns named one by one; a field the entry leaves out is left out of the row.\<close>

definition usage_row :: "json \<Rightarrow> json" where
  "usage_row entry = Obj (
     required_column entry ''provider'' @
     required_column entry ''operation'' @
     optional_column entry ''units'' @
     optional_column entry ''tokensIn'' @
     optional_column entry ''tokensOut'' @
     optional_column entry ''costUsd'' @
     optional_column entry ''jobId'')"

definition usage_insert :: "(json \<Rightarrow> ('w, thrown, unit) io) \<Rightarrow> json \<Rightarrow> ('w, thrown, unit) io" where
  "usage_insert db_insert entry = db_insert (usage_row entry)"

section \<open>Windows and totals\<close>

record usage_aggregate =
  ag_providers :: "provider list"
  ag_measure :: budget_measure
  ag_period :: budget_period
  ag_timeZone :: "string option"

definition DEFAULT_TIME_ZONE :: string where
  "DEFAULT_TIME_ZONE = ''UTC''"

fun MEASURE_COLUMN :: "budget_measure \<Rightarrow> string" where
  "MEASURE_COLUMN Units = ''units''"
| "MEASURE_COLUMN Usd = ''cost_usd''"

text \<open>The moment a window ends: the clock of the statement, or an explicit one.\<close>

datatype instant = Statement_timestamp | At int

text \<open>
  The bounds of a window, as the expressions the statement carries: the start is
  \<open>date_trunc(unit, instant AT TIME ZONE zone) AT TIME ZONE zone\<close>, the end the instant itself.
\<close>

record period_window =
  pw_unit :: budget_period
  pw_zone :: string
  pw_instant :: instant

definition periodWindow :: "budget_period \<Rightarrow> string option \<Rightarrow> int option \<Rightarrow> period_window" where
  "periodWindow unit zone now =
     \<lparr>pw_unit = unit,
      pw_zone = (case zone of None \<Rightarrow> DEFAULT_TIME_ZONE | Some z \<Rightarrow> z),
      pw_instant = (case now of None \<Rightarrow> Statement_timestamp | Some t \<Rightarrow> At t)\<rparr>"

text \<open>One scalar subquery: \<open>select sum(column) ... where provider in (...) and created_at between\<close>.\<close>

record sum_query =
  q_column :: string
  q_providers :: "provider list"
  q_window :: period_window

type_synonym 'w db_select = "(string \<times> sum_query) list \<Rightarrow> ('w, thrown, json list) io"

definition toTotal :: "json option \<Rightarrow> string \<Rightarrow> thrown + jsnum" where
  "toTotal value column =
     (case value of
        Some Null \<Rightarrow> Inr (Fin 0)
      | Some (Num x) \<Rightarrow> Inr x
      | Some (Str s) \<Rightarrow>
          (if is_finite (js_number s) then Inr (js_number s)
           else Inl (plain_error (''api_usage_log.'' @ column @ '': unexpected sum \"'' @ s @ ''\"'')))
      | None \<Rightarrow> Inl (plain_error (''api_usage_log.'' @ column @ '': aggregate row has no total field''))
      | Some (Bool _) \<Rightarrow> Inl (plain_error (''api_usage_log.'' @ column @ '': unexpected sum of type boolean''))
      | Some _ \<Rightarrow> Inl (plain_error (''api_usage_log.'' @ column @ '': unexpected sum of type object'')))"

definition total_name :: "nat \<Rightarrow> string" where
  "total_name i = ''total'' @ show_nat i"

definition sum_part :: "int option \<Rightarrow> usage_aggregate \<Rightarrow> sum_query" where
  "sum_part now a =
     \<lparr>q_column = MEASURE_COLUMN (ag_measure a),
      q_providers = ag_providers a,
      q_window = periodWindow (ag_period a) (ag_timeZone a) now\<rparr>"

definition named_parts :: "sum_query list \<Rightarrow> (string \<times> sum_query) list" where
  "named_parts parts = map (\<lambda>(i, q). (total_name i, q)) (enumerate 0 parts)"

fun read_totals :: "json \<Rightarrow> nat \<Rightarrow> sum_query list \<Rightarrow> thrown + jsnum list" where
  "read_totals row i [] = Inr []"
| "read_totals row i (q # qs) =
     (case toTotal (jget row (total_name i)) (q_column q) of
        Inl e \<Rightarrow> Inl e
      | Inr t \<Rightarrow> (case read_totals row (Suc i) qs of Inl e \<Rightarrow> Inl e | Inr ts \<Rightarrow> Inr (t # ts)))"

definition empty_aggregate_error :: "usage_aggregate \<Rightarrow> thrown" where
  "empty_aggregate_error a =
     validation_error ''usage aggregate needs at least one provider to sum''
       (Some (Obj [(''measure'', Str (measure_name (ag_measure a))),
                   (''period'', Str (period_name (ag_period a)))]))"

definition sumUsages ::
  "'w db_select \<Rightarrow> usage_aggregate list \<Rightarrow> int option \<Rightarrow> ('w, thrown, jsnum list) io" where
  "sumUsages db_select aggregates now =
     (if aggregates = [] then io_return []
      else (case find (\<lambda>a. ag_providers a = []) aggregates of
        Some a \<Rightarrow> io_throw (empty_aggregate_error a)
      | None \<Rightarrow>
        (let parts = map (sum_part now) aggregates
         in io_bind (db_select (named_parts parts)) (\<lambda>rows.
              case rows of
                [] \<Rightarrow> io_throw (plain_error (''api_usage_log.'' @ join_str '', '' (map q_column parts) @
                        '': aggregate returned no row''))
              | row # _ \<Rightarrow> (\<lambda>w. (read_totals row 0 parts, w))))))"

text \<open>
  One total; the zone is the one of the options, never the aggregate's.  The destructuring of an
  empty answer gives \<open>undefined\<close>, which the type of the source rules out: \<open>sumUsages\<close> answers as
  many totals as it was asked for.
\<close>

definition sumUsage ::
  "'w db_select \<Rightarrow> usage_aggregate \<Rightarrow> string option \<Rightarrow> int option \<Rightarrow> ('w, thrown, jsnum) io" where
  "sumUsage db_select aggregate timeZone now =
     io_bind (sumUsages db_select [aggregate\<lparr>ag_timeZone := timeZone\<rparr>] now)
       (\<lambda>totals. case totals of t # _ \<Rightarrow> io_return t | [] \<Rightarrow> io_return NaN)"

section \<open>Lemmas\<close>

lemma jget_optional [simp]: "jget (Obj (optional_column e k)) k' = (if k' = k then jget e k else None)"
  by (auto simp: optional_column_def jget_def split: option.splits)

lemma jget_required [simp]:
  "jget (Obj (required_column e k)) k' =
     (if k' = k then Some (case jget e k of None \<Rightarrow> Null | Some v \<Rightarrow> v) else None)"
  by (auto simp: required_column_def jget_def split: option.splits)

definition usage_columns :: "string list" where
  "usage_columns =
     [''provider'', ''operation'', ''units'', ''tokensIn'', ''tokensOut'', ''costUsd'', ''jobId'']"

lemma jget_usage_row_other: "k \<notin> set usage_columns \<Longrightarrow> jget (usage_row e) k = None"
  by (simp add: usage_columns_def usage_row_def jget_Obj_append)

lemma jget_usage_row_optional:
  "k \<in> {''units'', ''tokensIn'', ''tokensOut'', ''costUsd'', ''jobId''} \<Longrightarrow> jget (usage_row e) k = jget e k"
  by (auto simp: usage_row_def jget_Obj_append split: option.splits)

lemma total_name_inject [simp]: "total_name i = total_name j \<longleftrightarrow> i = j"
  by (simp add: total_name_def)

lemma enumerate_map: "enumerate i (map f xs) = map (\<lambda>(n, x). (n, f x)) (enumerate i xs)"
  by (induction xs arbitrary: i) simp_all

lemma map_of_named:
  "i \<le> j \<Longrightarrow> j < i + length xs \<Longrightarrow>
     map_of (map (\<lambda>(n, x). (total_name n, f x)) (enumerate i xs)) (total_name j) = Some (f (xs ! (j - i)))"
proof (induction xs arbitrary: i)
  case (Cons x xs)
  show ?case
  proof (cases "j = i")
    case False
    with Cons.prems have "map_of (map (\<lambda>(n, x). (total_name n, f x)) (enumerate (Suc i) xs)) (total_name j)
        = Some (f (xs ! (j - Suc i)))"
      by (intro Cons.IH) auto
    with False Cons.prems show ?thesis by (simp add: Suc_diff_le nth_Cons')
  qed simp
qed simp

lemma read_totals_total:
  assumes "\<And>j. j < length qs \<Longrightarrow> toTotal (jget row (total_name (i + j))) (q_column (qs ! j)) = Inr (g (qs ! j))"
  shows "read_totals row i qs = Inr (map g qs)"
  using assms
proof (induction qs arbitrary: i)
  case (Cons q qs)
  have "toTotal (jget row (total_name i)) (q_column q) = Inr (g q)"
    using Cons.prems [of 0] by simp
  moreover have "read_totals row (Suc i) qs = Inr (map g qs)"
  proof (rule Cons.IH)
    fix j assume "j < length qs"
    then show "toTotal (jget row (total_name (Suc i + j))) (q_column (qs ! j)) = Inr (g (qs ! j))"
      using Cons.prems [of "Suc j"] by simp
  qed
  ultimately show ?case by simp
qed simp

section \<open>The contract of the database\<close>

text \<open>
  A row of the table, as far as a total reads it: who was called, what the two measures were
  (\<open>NULL\<close> when left out) and when.
\<close>

record usage_record =
  ur_provider :: provider
  ur_units :: "rat option"
  ur_cost :: "rat option"
  ur_created :: int

definition column_of :: "string \<Rightarrow> usage_record \<Rightarrow> rat option" where
  "column_of c r = (if c = ''units'' then ur_units r else if c = ''cost_usd'' then ur_cost r else None)"

definition window_end :: "int \<Rightarrow> period_window \<Rightarrow> int" where
  "window_end clock win = (case pw_instant win of Statement_timestamp \<Rightarrow> clock | At t \<Rightarrow> t)"

text \<open>
  The rows a subquery reads: \<open>trunc\<close> is \<open>date_trunc\<close> in a zone, \<open>clock\<close> the time of the statement.
\<close>

definition in_window ::
  "(budget_period \<Rightarrow> string \<Rightarrow> int \<Rightarrow> int) \<Rightarrow> int \<Rightarrow> sum_query \<Rightarrow> usage_record \<Rightarrow> bool" where
  "in_window trunc clock q r \<longleftrightarrow>
     ur_provider r \<in> set (q_providers q) \<and>
     trunc (pw_unit (q_window q)) (pw_zone (q_window q)) (window_end clock (q_window q)) \<le> ur_created r \<and>
     ur_created r \<le> window_end clock (q_window q)"

definition column_values ::
  "(budget_period \<Rightarrow> string \<Rightarrow> int \<Rightarrow> int) \<Rightarrow> int \<Rightarrow> usage_record list \<Rightarrow> sum_query \<Rightarrow> rat list" where
  "column_values trunc clock table q =
     List.map_filter (\<lambda>r. if in_window trunc clock q r then column_of (q_column q) r else None) table"

definition spent_in ::
  "(budget_period \<Rightarrow> string \<Rightarrow> int \<Rightarrow> int) \<Rightarrow> int \<Rightarrow> usage_record list \<Rightarrow> sum_query \<Rightarrow> rat" where
  "spent_in trunc clock table q = sum_list (column_values trunc clock table q)"

locale usage_store =
  fixes select :: "'w db_select"
    and table :: "'w \<Rightarrow> usage_record list"
    and clock :: "'w \<Rightarrow> int"
    and trunc :: "budget_period \<Rightarrow> string \<Rightarrow> int \<Rightarrow> int"
    and render :: "rat list \<Rightarrow> json"
  assumes select_answers:
    "select qs w = (Inr [Obj (map (\<lambda>(n, q). (n, render (column_values trunc (clock w) (table w) q))) qs)], w)"
    and render_total: "toTotal (Some (render xs)) c = Inr (Fin (sum_list xs))"
begin

lemma sumUsages_answers:
  assumes "find (\<lambda>a. ag_providers a = []) aggs = None"
  shows "sumUsages select aggs now w =
    (Inr (map (\<lambda>a. Fin (spent_in trunc (clock w) (table w) (sum_part now a))) aggs), w)"
proof (cases aggs)
  case Nil
  then show ?thesis by (simp add: sumUsages_def io_simps)
next
  case (Cons a as)
  let ?parts = "map (sum_part now) aggs"
  let ?val = "\<lambda>q. column_values trunc (clock w) (table w) q"
  let ?row = "Obj (map (\<lambda>(n, q). (n, render (?val q))) (named_parts ?parts))"
  have "map (\<lambda>(n, q). (n, render (?val q))) (named_parts ?parts) =
      map (\<lambda>(n, q). (total_name n, render (?val q))) (enumerate 0 ?parts)"
    by (simp add: named_parts_def case_prod_unfold)
  then have field: "jget ?row (total_name j) = Some (render (?val (?parts ! j)))" if "j < length ?parts" for j
    using map_of_named [of 0 j ?parts "\<lambda>q. render (?val q)"] that by (simp add: jget_def)
  have "read_totals ?row 0 ?parts = Inr (map (\<lambda>q. Fin (sum_list (?val q))) ?parts)"
    by (rule read_totals_total) (simp add: field render_total)
  then show ?thesis
    using Cons assms by (simp add: sumUsages_def Let_def io_simps select_answers spent_in_def comp_def)
qed

lemma sumUsage_answers:
  assumes "ag_providers a \<noteq> []"
  shows "sumUsage select a zone now w =
    (Inr (Fin (spent_in trunc (clock w) (table w) (sum_part now (a\<lparr>ag_timeZone := zone\<rparr>)))), w)"
  using assms by (simp add: sumUsage_def io_simps sumUsages_answers)

end

text \<open>
  A store the contract holds of: the table and the clock are the world, a sum over no rows is
  \<open>NULL\<close>, and a day or a month is cut off the clock in whole periods of milliseconds.
\<close>

record usage_world =
  uw_table :: "usage_record list"
  uw_clock :: int

definition mem_trunc :: "budget_period \<Rightarrow> string \<Rightarrow> int \<Rightarrow> int" where
  "mem_trunc p zone t =
     (case p of Day \<Rightarrow> t div 86400000 * 86400000 | Month \<Rightarrow> t div 2592000000 * 2592000000)"

definition mem_render :: "rat list \<Rightarrow> json" where
  "mem_render xs = (if xs = [] then Null else Num (Fin (sum_list xs)))"

definition mem_select :: "usage_world db_select" where
  "mem_select qs w =
     (Inr [Obj (map (\<lambda>(n, q). (n, mem_render (column_values mem_trunc (uw_clock w) (uw_table w) q))) qs)], w)"

interpretation mem: usage_store mem_select uw_table uw_clock mem_trunc mem_render
  by unfold_locales (auto simp: mem_select_def mem_render_def toTotal_def)

section \<open>Properties\<close>

text \<open>
  An insert writes the named columns and nothing else: whatever an object wider than the
  entry carries - an \<open>id\<close>, a \<open>createdAt\<close> - is not in the row, each optional column is in the row
  exactly as the entry has it, and a column the entry leaves out is left out of the row.
\<close>

theorem insert_row_columns:
  "jget (usage_row entry) k =
     (if k \<in> {''units'', ''tokensIn'', ''tokensOut'', ''costUsd'', ''jobId''} then jget entry k
      else if k \<in> {''provider'', ''operation''}
      then Some (case jget entry k of None \<Rightarrow> Null | Some v \<Rightarrow> v)
      else None)"
proof -
  consider "k \<in> {''units'', ''tokensIn'', ''tokensOut'', ''costUsd'', ''jobId''}"
    | "k \<in> {''provider'', ''operation''}" | "k \<notin> set usage_columns"
    by (auto simp: usage_columns_def)
  then show ?thesis
  proof cases
    case 1
    then show ?thesis by (simp add: jget_usage_row_optional)
  next
    case 2
    then show ?thesis by (auto simp: usage_row_def jget_Obj_append split: option.splits)
  next
    case 3
    then show ?thesis by (simp add: jget_usage_row_other) (auto simp: usage_columns_def)
  qed
qed

text \<open>
  Over a database that answers a sum with the sum, several totals in one statement are the
  totals asked, in the order asked: each is the sum of its own column over its own providers
  between the start of its own period, in its own zone, and the moment asked; nothing is
  written, and an aggregate over no providers is refused before the database is asked.
\<close>

theorem sumUsages_totals:
  assumes "usage_store select table clock trunc render"
  shows "sumUsages select aggs now w =
    (case find (\<lambda>a. ag_providers a = []) aggs of
       Some a \<Rightarrow> (Inl (empty_aggregate_error a), w)
     | None \<Rightarrow> (Inr (map (\<lambda>a. Fin (spent_in trunc (clock w) (table w) (sum_part now a))) aggs), w))"
proof (cases "find (\<lambda>a. ag_providers a = []) aggs")
  case None
  then show ?thesis using usage_store.sumUsages_answers [OF assms None] by simp
next
  case (Some a)
  then show ?thesis by (cases aggs) (simp_all add: sumUsages_def io_simps)
qed

definition sample_usage :: "usage_record list" where
  "sample_usage =
     [\<lparr>ur_provider = Gemini, ur_units = None, ur_cost = Some (3/2), ur_created = 86400005\<rparr>,
      \<lparr>ur_provider = Gemini, ur_units = None, ur_cost = Some 7, ur_created = 86399999\<rparr>,
      \<lparr>ur_provider = Youtube_data, ur_units = Some 100, ur_cost = None, ur_created = 86400001\<rparr>]"

definition sample_aggregates :: "usage_aggregate list" where
  "sample_aggregates =
     [\<lparr>ag_providers = [Gemini], ag_measure = Usd, ag_period = Day, ag_timeZone = Some ''UTC''\<rparr>,
      \<lparr>ag_providers = [Youtube_data], ag_measure = Units, ag_period = Day, ag_timeZone = Some ''UTC''\<rparr>]"

theorem sumUsages_totals_witness:
  "sumUsages mem_select sample_aggregates None \<lparr>uw_table = sample_usage, uw_clock = 86400010\<rparr> =
     (Inr [Fin (3/2), Fin 100], \<lparr>uw_table = sample_usage, uw_clock = 86400010\<rparr>)"
  unfolding sumUsages_totals [OF mem.usage_store_axioms]
  by (simp add: sample_aggregates_def sample_usage_def spent_in_def column_values_def map_filter_simps
      in_window_def sum_part_def periodWindow_def window_end_def mem_trunc_def column_of_def)

end
