(* ===== verification/Usage_Logger.thy ===== *)
theory Usage_Logger
  imports Usage_Log
begin

text \<open>
  The usage logger (\<open>packages/db/src/usage-logger.ts\<close>): a validated entry becomes a row, its price
  a decimal text rounded up to the five places of the column.  The price goes through double
  arithmetic whose noise the code rounds away, so the rounding of doubles is a parameter
  (\<open>fl\<close>), assumed to be the usual one: relative error at most one part in \<open>2^52\<close>.
\<close>

section \<open>The price as the column takes it\<close>

definition COST_SCALE :: rat where
  "COST_SCALE = 100000"

definition COST_DECIMALS :: nat where
  "COST_DECIMALS = 5"

definition COST_PRECISION :: nat where
  "COST_PRECISION = 12"

text \<open>The power of ten a positive number starts at: the largest \<open>10^e \<le> x\<close>.\<close>

fun ilog10 :: "nat \<Rightarrow> nat" where
  "ilog10 n = (if n < 10 then 0 else Suc (ilog10 (n div 10)))"

declare ilog10.simps [simp del]

text \<open>How many times a number below one is scaled by ten to reach one; 330 covers every double.\<close>

fun scale_up :: "nat \<Rightarrow> rat \<Rightarrow> nat" where
  "scale_up 0 x = 0"
| "scale_up (Suc f) x = (if 1 \<le> x then 0 else Suc (scale_up f (10 * x)))"

definition decade :: "rat \<Rightarrow> rat" where
  "decade x = (if 1 \<le> x then 10 ^ ilog10 (nat \<lfloor>x\<rfloor>) else 1 / 10 ^ scale_up 330 x)"

text \<open>\<open>Number(x.toPrecision(p))\<close> before the last rounding to a double, for \<open>x \<ge> 0\<close>.\<close>

definition to_precision :: "nat \<Rightarrow> rat \<Rightarrow> rat" where
  "to_precision p x =
     (if x = 0 then 0
      else (let u = decade x / 10 ^ (p - 1) in of_int \<lfloor>x / u + 1 / 2\<rfloor> * u))"

text \<open>\<open>x.toFixed(5)\<close> for \<open>x \<ge> 0\<close>: the nearest number of units, the larger one on a tie.\<close>

definition to_fixed :: "nat \<Rightarrow> rat \<Rightarrow> string" where
  "to_fixed d x = show_fixed d (nat \<lfloor>x * 10 ^ d + 1 / 2\<rfloor>)"

definition toCostUsdColumn :: "(rat \<Rightarrow> rat) \<Rightarrow> rat option \<Rightarrow> string option" where
  "toCostUsdColumn fl costUsd =
     (case costUsd of
        None \<Rightarrow> None
      | Some cost \<Rightarrow>
          (let scaled = fl (to_precision COST_PRECISION (fl (cost * COST_SCALE)))
           in Some (to_fixed COST_DECIMALS (fl (of_int \<lceil>scaled\<rceil> / COST_SCALE)))))"

section \<open>The row\<close>

definition num_field :: "json option \<Rightarrow> rat option" where
  "num_field v = (case v of Some (Num (Fin r)) \<Rightarrow> Some r | _ \<Rightarrow> None)"

definition or_null :: "json option \<Rightarrow> json" where
  "or_null v = (case v of None \<Rightarrow> Null | Some x \<Rightarrow> x)"

definition toUsageRow ::
  "zod_parse \<Rightarrow> (rat \<Rightarrow> rat) \<Rightarrow> json \<Rightarrow> string option \<Rightarrow> thrown + json" where
  "toUsageRow parse fl entry jobId =
     (case parse ApiUsageEntrySchema entry of
        Inl issues \<Rightarrow>
          Inl (validation_error (''api usage entry rejected by its schema ('' @
            show_nat (length issues) @ '' issue(s))'')
            (Some (Obj [(''issues'', Arr (map (\<lambda>i. Obj [(''path'', Str (join CHR ''.'' (i_path i))),
               (''code'', Str (i_code i))]) issues))])))
      | Inr usage \<Rightarrow>
          Inr (Obj
            [(''provider'', or_null (jget usage ''provider'')),
             (''operation'', or_null (jget usage ''operation'')),
             (''units'', or_null (jget usage ''units'')),
             (''tokensIn'', or_null (jget usage ''tokensIn'')),
             (''tokensOut'', or_null (jget usage ''tokensOut'')),
             (''costUsd'', (case toCostUsdColumn fl (num_field (jget usage ''costUsd'')) of
                              None \<Rightarrow> Null | Some s \<Rightarrow> Str s)),
             (''jobId'', (case jget usage ''jobId'' of
                            Some j \<Rightarrow> j
                          | None \<Rightarrow> (case jobId of Some j \<Rightarrow> Str j | None \<Rightarrow> Null)))]))"

definition createUsageLogger ::
  "zod_parse \<Rightarrow> (rat \<Rightarrow> rat) \<Rightarrow> (json \<Rightarrow> ('w, thrown, unit) io) \<Rightarrow> string option \<Rightarrow> json \<Rightarrow>
   ('w, thrown, unit) io" where
  "createUsageLogger parse fl db_insert jobId entry =
     (case toUsageRow parse fl entry jobId of
        Inl e \<Rightarrow> io_throw e
      | Inr row \<Rightarrow> usage_insert db_insert row)"

section \<open>Lemmas on the rounding\<close>

text \<open>What is assumed of the rounding of doubles on the numbers the code rounds.\<close>

definition double_rounding :: "(rat \<Rightarrow> rat) \<Rightarrow> bool" where
  "double_rounding fl \<longleftrightarrow> (\<forall>x \<ge> 0. \<bar>fl x - x\<bar> \<le> x / 2 ^ 52)"

lemma ilog10_bounds: "0 < n \<Longrightarrow> 10 ^ ilog10 n \<le> n \<and> n < 10 ^ Suc (ilog10 n)"
proof (induction n rule: ilog10.induct)
  case (1 n)
  show ?case
  proof (cases "n < 10")
    case True
    with "1.prems" show ?thesis by (simp add: ilog10.simps [of n])
  next
    case False
    then have "10 ^ ilog10 (n div 10) \<le> n div 10" "n div 10 < 10 ^ Suc (ilog10 (n div 10))"
      using "1.IH" by auto
    then have "10 ^ Suc (ilog10 (n div 10)) \<le> n" "n < 10 ^ Suc (Suc (ilog10 (n div 10)))"
      by (simp_all add: less_eq_div_iff_mult_less_eq div_less_iff_less_mult mult.commute)
    with False show ?thesis by (simp add: ilog10.simps [of n])
  qed
qed

text \<open>A unit of the decade is never above the number, so half a unit in the last place is a small part of it.\<close>

lemma scale_up_bound: "0 < x \<Longrightarrow> x < 1 \<Longrightarrow> 1 \<le> x * 10 ^ f \<Longrightarrow> 1 \<le> x * 10 ^ scale_up f x"
proof (induction f arbitrary: x)
  case (Suc f)
  show ?case
  proof (cases "1 \<le> 10 * x")
    case True
    with Suc.prems show ?thesis by (cases f) (auto simp: mult.commute)
  next
    case False
    with Suc.prems have "1 \<le> 10 * x * 10 ^ scale_up f (10 * x)"
      by (intro Suc.IH) (auto simp: ac_simps)
    with Suc.prems show ?thesis by (simp add: ac_simps)
  qed
qed simp

lemma decade_le: "1 / 10 ^ 330 \<le> x \<Longrightarrow> 0 < decade x \<and> decade x \<le> x"
proof (cases "1 \<le> x")
  case True
  let ?n = "nat \<lfloor>x\<rfloor>"
  have "0 < ?n" using True by (simp add: le_floor_iff)
  then have "10 ^ ilog10 ?n \<le> ?n" using ilog10_bounds by blast
  then have "of_nat (10 ^ ilog10 ?n) \<le> (of_nat ?n :: rat)" by (simp only: of_nat_le_iff)
  also have "of_nat ?n \<le> x" using True by simp
  finally show ?thesis using True by (simp add: decade_def)
next
  case False
  assume x: "1 / 10 ^ 330 \<le> x"
  then have pos: "0 < x" by (rule less_le_trans [rotated]) simp
  have "1 \<le> x * 10 ^ 330" using x by (simp add: divide_le_eq)
  with False pos have "1 \<le> x * 10 ^ scale_up 330 x" by (intro scale_up_bound) auto
  then show ?thesis using False by (simp add: decade_def divide_le_eq)
qed

lemma round_half: "\<bar>of_int \<lfloor>y + 1 / 2\<rfloor> - y\<bar> \<le> (1 / 2 :: rat)"
proof -
  have "of_int \<lfloor>y + 1 / 2\<rfloor> \<le> y + 1 / 2" "y + 1 / 2 < of_int \<lfloor>y + 1 / 2\<rfloor> + 1"
    by linarith+
  then show ?thesis by linarith
qed

lemma to_precision_error:
  assumes "x = 0 \<or> 1 / 10 ^ 330 \<le> x"
  shows "\<bar>to_precision 12 x - x\<bar> \<le> x / 10 ^ 11 / 2"
proof (cases "x = 0")
  case False
  define u where "u = decade x / 10 ^ 11"
  have u: "0 < u" "u \<le> x / 10 ^ 11"
    using decade_le [of x] assms False by (auto simp: u_def divide_right_mono)
  have "\<bar>of_int \<lfloor>x / u + 1 / 2\<rfloor> - x / u\<bar> * u \<le> 1 / 2 * u"
    using round_half [of "x / u"] u by (intro mult_right_mono) auto
  moreover have "\<bar>of_int \<lfloor>x / u + 1 / 2\<rfloor> - x / u\<bar> * u = \<bar>of_int \<lfloor>x / u + 1 / 2\<rfloor> * u - x\<bar>"
    using u by (simp add: abs_mult_pos left_diff_distrib)
  ultimately have "\<bar>of_int \<lfloor>x / u + 1 / 2\<rfloor> * u - x\<bar> \<le> u / 2" by simp
  also have "\<dots> \<le> x / 10 ^ 11 / 2" using u by simp
  finally show ?thesis using False by (simp add: to_precision_def Let_def u_def)
qed (simp add: to_precision_def)

lemma power_numerals:
  "(2::rat) ^ 52 = 4503599627370496" "(10::rat) ^ 11 = 100000000000" "(10::rat) ^ 5 = 100000"
  by simp_all

lemma fl_bounds:
  assumes "double_rounding fl" and "0 \<le> x"
  shows "x - x / 4503599627370496 \<le> fl x \<and> fl x \<le> x + x / 4503599627370496"
proof -
  have "\<bar>fl x - x\<bar> \<le> x / 4503599627370496"
    using assms unfolding double_rounding_def power_numerals by blast
  then show ?thesis by linarith
qed

lemma fl_nonneg: "double_rounding fl \<Longrightarrow> 0 \<le> x \<Longrightarrow> x / 2 \<le> fl x \<and> 0 \<le> fl x"
  using fl_bounds [of fl x] by linarith

text \<open>The three roundings before the ceiling together are off by less than \<open>10^-11\<close> of the number.\<close>

lemma scaled_error:
  assumes fl: "double_rounding fl" and x: "x = 0 \<or> 1 / 10 ^ 300 \<le> x"
  defines "s \<equiv> fl (to_precision 12 (fl x))"
  shows "0 \<le> s \<and> \<bar>s - x\<bar> \<le> x / 10 ^ 11"
proof -
  let ?a = "fl x" and ?p = "to_precision 12 (fl x)"
  have x0: "0 \<le> x" using x by (auto intro: order_trans [rotated])
  have a: "x - x / 4503599627370496 \<le> ?a" "?a \<le> x + x / 4503599627370496" "0 \<le> ?a" "x / 2 \<le> ?a"
    using fl_bounds [OF fl x0] fl_nonneg [OF fl x0] by blast+
  have "?a = 0 \<or> 1 / 10 ^ 330 \<le> ?a"
  proof (cases "x = 0")
    case True
    with a show ?thesis by linarith
  next
    case False
    with x have "1 / 10 ^ 330 \<le> x / 2" by simp
    with a show ?thesis by linarith
  qed
  then have p: "\<bar>?p - ?a\<bar> \<le> ?a / 100000000000 / 2"
    using to_precision_error unfolding power_numerals by blast
  then have p0: "0 \<le> ?p" using a(3) by linarith
  have s: "?p - ?p / 4503599627370496 \<le> s" "s \<le> ?p + ?p / 4503599627370496" "0 \<le> s"
    unfolding s_def using fl_bounds [OF fl p0] fl_nonneg [OF fl p0] by blast+
  have "\<bar>s - x\<bar> \<le> x / 100000000000" using a p s x0 by linarith
  with s(3) show ?thesis unfolding power_numerals by blast
qed

text \<open>Printing a number of units, divided with rounding, prints that number of units.\<close>

lemma to_fixed_units:
  assumes fl: "double_rounding fl" and n: "n < 2 ^ 51"
  shows "to_fixed 5 (fl (of_nat n / 100000)) = show_fixed 5 n"
proof -
  let ?q = "of_nat n / 100000 :: rat"
  have "?q - ?q / 4503599627370496 \<le> fl ?q \<and> fl ?q \<le> ?q + ?q / 4503599627370496"
    by (rule fl_bounds [OF fl]) simp
  moreover have "(of_nat n :: rat) < of_nat 2251799813685248"
    using n by (simp only: of_nat_less_iff) simp
  then have "(of_nat n :: rat) < 2251799813685248" by simp
  ultimately have "of_nat n \<le> fl ?q * 100000 + 1 / 2" "fl ?q * 100000 + 1 / 2 < of_nat n + 1"
    by linarith+
  then have "\<lfloor>fl ?q * 10 ^ 5 + 1 / 2\<rfloor> = int n"
    unfolding power_numerals by (intro floor_unique) simp_all
  then show ?thesis by (simp add: to_fixed_def)
qed

section \<open>Properties\<close>

text \<open>
  The price of a call is recorded rounded up: for every price the column can hold, the
  recorded decimal is never below the price by more than one part in \<open>10^11\<close> (the noise the
  twelve digits absorb), above it by less than one unit of the last place beside that noise,
  and a free call is recorded as zero.
\<close>

theorem cost_column_bounds:
  assumes fl: "double_rounding fl"
    and c: "c = 0 \<or> 1 / 10 ^ 300 \<le> c" "c < 100000"
  shows "\<exists>text v. toCostUsdColumn fl (Some c) = Some text \<and> decimal_value text = Some v \<and>
    c - c / 10 ^ 11 \<le> v \<and> v < c + c / 10 ^ 11 + 1 / 10 ^ 5 \<and> (c = 0 \<longrightarrow> v = 0)"
proof -
  define s where "s = fl (to_precision 12 (fl (c * 100000)))"
  have c0: "0 \<le> c" using c(1) by (auto intro: order_trans [rotated])
  have "c * 100000 = 0 \<or> 1 / 10 ^ 300 \<le> c * 100000" using c(1) by (auto intro: order_trans)
  from scaled_error [OF fl this] have s: "0 \<le> s" "\<bar>s - c * 100000\<bar> \<le> c * 100000 / 100000000000"
    unfolding s_def power_numerals by blast+
  define n where "n = nat \<lceil>s\<rceil>"
  have "0 \<le> \<lceil>s\<rceil>" using s(1) by simp
  then have ceil: "of_int \<lceil>s\<rceil> = (of_nat n :: rat)" by (simp add: n_def)
  have n: "s \<le> of_nat n" "of_nat n < s + 1"
    using ceil ceiling_correct [of s] by linarith+
  have "(of_nat n :: rat) < 2251799813685248" using n s c(2) by linarith
  then have "(of_nat n :: rat) < of_nat 2251799813685248" by simp
  then have n51: "n < 2 ^ 51" by (simp only: of_nat_less_iff) simp
  have col: "toCostUsdColumn fl (Some c) = Some (show_fixed 5 n)"
    using to_fixed_units [OF fl n51] ceil
    by (simp add: toCostUsdColumn_def Let_def COST_SCALE_def COST_PRECISION_def COST_DECIMALS_def s_def)
  have val: "decimal_value (show_fixed 5 n) = Some (of_nat n / 10 ^ 5)"
    by (rule decimal_value_show_fixed) simp
  have "c - c / 10 ^ 11 \<le> of_nat n / 10 ^ 5" "of_nat n / 10 ^ 5 < c + c / 10 ^ 11 + 1 / 10 ^ 5"
    unfolding power_numerals using n s by linarith+
  moreover have "c = 0 \<longrightarrow> of_nat n / 10 ^ 5 = (0::rat)"
  proof
    assume "c = 0"
    with s have "s = 0" by simp
    then show "of_nat n / 10 ^ 5 = (0::rat)" by (simp add: n_def)
  qed
  ultimately show ?thesis using col val by blast
qed

theorem cost_column_bounds_witness:
  "double_rounding (\<lambda>x. x) \<and>
   (\<exists>text v. toCostUsdColumn (\<lambda>x. x) (Some (4 / 1000000)) = Some text \<and> decimal_value text = Some v \<and>
     4 / 1000000 - 4 / 1000000 / 10 ^ 11 \<le> v \<and> v < 4 / 1000000 + 4 / 1000000 / 10 ^ 11 + 1 / 10 ^ 5 \<and>
     ((4 / 1000000 :: rat) = 0 \<longrightarrow> v = 0))"
proof (intro conjI)
  show fl: "double_rounding (\<lambda>x. x)" by (simp add: double_rounding_def)
  show "\<exists>text v. toCostUsdColumn (\<lambda>x. x) (Some (4 / 1000000)) = Some text \<and> decimal_value text = Some v \<and>
     4 / 1000000 - 4 / 1000000 / 10 ^ 11 \<le> v \<and> v < 4 / 1000000 + 4 / 1000000 / 10 ^ 11 + 1 / 10 ^ 5 \<and>
     ((4 / 1000000 :: rat) = 0 \<longrightarrow> v = 0)"
    by (rule cost_column_bounds [OF fl]) simp_all
qed

section \<open>Rows that a cap can sum\<close>

lemma integer_field:
  "accepts (ZNumber [IsInt, NonNegative]) v \<Longrightarrow> \<exists>n::nat. v = Num (Fin (of_nat n))"
proof -
  assume a: "accepts (ZNumber [IsInt, NonNegative]) v"
  then obtain r where v: "v = Num (Fin r)" and r: "is_int_rat r" "0 \<le> r"
    by (auto simp: num_simps split: json.splits jsnum.splits)
  then obtain n where "r = of_int n" by (auto simp: is_int_rat_iff)
  with r have "r = of_nat (nat n)" by simp
  with v show ?thesis by blast
qed

lemma price_field:
  "accepts (ZNumber [NonNegative, IsFinite]) v \<Longrightarrow> \<exists>r. v = Num (Fin r)"
  by (auto simp: num_simps split: json.splits jsnum.splits)

lemma provider_extract_accepts:
  "accepts (provider_extract ps) x \<Longrightarrow> \<exists>p \<in> set ps. x = Str (provider_name p)"
  by (auto simp: provider_extract_def split: json.splits)

text \<open>The three shapes an accepted entry has, by its provider.\<close>

lemma entry_shapes:
  assumes "accepts ApiUsageEntrySchema entry"
  obtains (quota) p n where "p \<in> {Youtube_data, Youtube_analytics}"
      "jget entry ''provider'' = Some (Str (provider_name p))" "jget entry ''units'' = Some (Num (Fin (of_nat (n::nat))))"
  | (paid) p c where "p \<in> {Gemini, Elevenlabs, Openai_tts, Google_tts, Cartesia}"
      "jget entry ''provider'' = Some (Str (provider_name p))" "jget entry ''costUsd'' = Some (Num (Fin c))"
  | (own) "jget entry ''provider'' = Some (Str (provider_name System))"
proof -
  have field: "(\<exists>x. jget entry k = Some x \<and> accepts s x)"
    if "accepts (ZObject True (spread_over entryFields new)) entry" "(k, s) \<in> set new" "\<not> may_be_missing s" for new k s
    using accepts_object_field [OF that(1), of k s] that(2,3)
    by (auto simp: spread_over_def split: option.splits)
  from assms consider "accepts quotaEntry entry" | "accepts paidEntry entry" | "accepts systemEntry entry"
    by (auto simp: ApiUsageEntrySchema_def)
  then show thesis
  proof cases
    case 1
    note a = 1 [unfolded quotaEntry_def]
    obtain x where x: "jget entry ''provider'' = Some x" "accepts (provider_extract [Youtube_data, Youtube_analytics]) x"
      using field [OF a, of "''provider''"] by (auto simp: provider_extract_def)
    obtain y where y: "jget entry ''units'' = Some y" "accepts (ZNumber [IsInt, NonNegative]) y"
      using field [OF a, of "''units''" "ZNumber [IsInt, NonNegative]"] by auto
    from x obtain p where "p \<in> {Youtube_data, Youtube_analytics}" "x = Str (provider_name p)"
      using provider_extract_accepts [OF x(2)] by (auto simp del: provider_name.simps)
    with x y integer_field [OF y(2)] quota show thesis by blast
  next
    case 2
    note a = 2 [unfolded paidEntry_def]
    obtain x where x: "jget entry ''provider'' = Some x"
        "accepts (provider_extract [Gemini, Elevenlabs, Openai_tts, Google_tts, Cartesia]) x"
      using field [OF a, of "''provider''"] by (auto simp: provider_extract_def)
    obtain y where y: "jget entry ''costUsd'' = Some y" "accepts (ZNumber [NonNegative, IsFinite]) y"
      using field [OF a, of "''costUsd''" "ZNumber [NonNegative, IsFinite]"] by auto
    from x obtain p where "p \<in> {Gemini, Elevenlabs, Openai_tts, Google_tts, Cartesia}" "x = Str (provider_name p)"
      using provider_extract_accepts [OF x(2)] by (auto simp del: provider_name.simps)
    with x y price_field [OF y(2)] paid show thesis by blast
  next
    case 3
    note a = 3 [unfolded systemEntry_def]
    have "jget entry ''provider'' = Some (Str ''system'')"
      using field [OF a, of "''provider''" "ZLiteral (Str ''system'')"] by auto
    with own show thesis by simp
  qed
qed

lemma toUsageRow_keys:
  assumes "zod_contract parse" and "toUsageRow parse fl entry jobId = Inr row"
  shows "accepts ApiUsageEntrySchema entry"
    and "jget row ''provider'' = Some (or_null (jget entry ''provider''))"
    and "jget row ''units'' = Some (or_null (jget entry ''units''))"
    and "jget row ''costUsd'' = Some (case toCostUsdColumn fl (num_field (jget entry ''costUsd'')) of
            None \<Rightarrow> Null | Some s \<Rightarrow> Str s)"
    and "jget row ''jobId'' = Some (case jget entry ''jobId'' of Some j \<Rightarrow> j
            | None \<Rightarrow> (case jobId of Some j \<Rightarrow> Str j | None \<Rightarrow> Null))"
proof -
  from assms(2) obtain u where u: "parse ApiUsageEntrySchema entry = Inr u"
    by (cases "parse ApiUsageEntrySchema entry") (auto simp: toUsageRow_def)
  have keys: "{''provider'', ''units'', ''costUsd'', ''jobId''} \<subseteq> set (schema_keys ApiUsageEntrySchema)"
    by (simp add: usage_schema_defs)
  have same: "jget u k = jget entry k" if "k \<in> {''provider'', ''units'', ''costUsd'', ''jobId''}" for k
    using contract_keys [OF assms(1) u] keys that by auto
  show "accepts ApiUsageEntrySchema entry" by (rule contract_accepts [OF assms(1) u])
  note [simp] = same [of "''provider''", simplified] same [of "''units''", simplified]
    same [of "''costUsd''", simplified] same [of "''jobId''", simplified]
  show "jget row ''provider'' = Some (or_null (jget entry ''provider''))"
    and "jget row ''units'' = Some (or_null (jget entry ''units''))"
    and "jget row ''costUsd'' = Some (case toCostUsdColumn fl (num_field (jget entry ''costUsd'')) of
            None \<Rightarrow> Null | Some s \<Rightarrow> Str s)"
    and "jget row ''jobId'' = Some (case jget entry ''jobId'' of Some j \<Rightarrow> j
            | None \<Rightarrow> (case jobId of Some j \<Rightarrow> Str j | None \<Rightarrow> Null))"
    using assms(2) by (auto simp: toUsageRow_def u jget_Obj_Cons)
qed

text \<open>
  No spend escapes the caps: a row that is written at all names a provider and carries the
  measure its cap counts - a whole number of units for YouTube, a price for every paid vendor -
  and belongs to the job of the entry, or to the job of the logger when the entry names none.
\<close>

theorem usage_row_measured:
  assumes "zod_contract parse" and "toUsageRow parse fl entry jobId = Inr row"
  shows "(\<exists>p. jget row ''provider'' = Some (Str (provider_name p)) \<and>
      (case budgetScopeFor p of
         None \<Rightarrow> p = System \<or> (\<exists>n::nat. jget row ''units'' = Some (Num (Fin (of_nat n))))
       | Some sc \<Rightarrow> (case sc_measure sc of
             Units \<Rightarrow> \<exists>n::nat. jget row ''units'' = Some (Num (Fin (of_nat n)))
           | Usd \<Rightarrow> \<exists>s. jget row ''costUsd'' = Some (Str s)))) \<and>
    jget row ''jobId'' = Some (case jget entry ''jobId'' of Some j \<Rightarrow> j
      | None \<Rightarrow> (case jobId of Some j \<Rightarrow> Str j | None \<Rightarrow> Null))"
proof (intro conjI)
  note keys = toUsageRow_keys [OF assms]
  show "jget row ''jobId'' = Some (case jget entry ''jobId'' of Some j \<Rightarrow> j
      | None \<Rightarrow> (case jobId of Some j \<Rightarrow> Str j | None \<Rightarrow> Null))" by (rule keys)
  from keys(1) show "\<exists>p. jget row ''provider'' = Some (Str (provider_name p)) \<and>
      (case budgetScopeFor p of
         None \<Rightarrow> p = System \<or> (\<exists>n::nat. jget row ''units'' = Some (Num (Fin (of_nat n))))
       | Some sc \<Rightarrow> (case sc_measure sc of
             Units \<Rightarrow> \<exists>n::nat. jget row ''units'' = Some (Num (Fin (of_nat n)))
           | Usd \<Rightarrow> \<exists>s. jget row ''costUsd'' = Some (Str s)))"
  proof (cases rule: entry_shapes)
    case (quota p n)
    then show ?thesis using keys(2,3)
      by (intro exI [of _ p]) (auto simp: or_null_def budgetScopeFor_def scope_defs)
  next
    case (paid p c)
    then have "jget row ''costUsd'' = Some (Str (the (toCostUsdColumn fl (Some c))))"
      using keys(4) by (simp add: num_field_def toCostUsdColumn_def Let_def)
    with paid keys(2) show ?thesis
      by (intro exI [of _ p]) (auto simp: or_null_def budgetScopeFor_def scope_defs)
  next
    case own
    then show ?thesis using keys(2)
      by (intro exI [of _ System]) (auto simp: or_null_def budgetScopeFor_def)
  qed
qed

definition sample_entry :: json where
  "sample_entry = Obj [(''provider'', Str ''youtube_data''), (''operation'', Str ''videos.list''),
     (''units'', Num (Fin 1))]"

theorem usage_row_measured_witness:
  "\<exists>row. toUsageRow plain_parse (\<lambda>x. x) sample_entry (Some ''job-7'') = Inr row \<and>
     jget row ''jobId'' = Some (Str ''job-7'')"
proof -
  have "accepts ApiUsageEntrySchema sample_entry"
    by (simp add: usage_schema_defs sample_entry_def num_simps)
  then obtain row where row: "toUsageRow plain_parse (\<lambda>x. x) sample_entry (Some ''job-7'') = Inr row"
    by (simp add: toUsageRow_def plain_parse_def)
  from usage_row_measured [OF plain_parse_contract row] row show ?thesis
    by (simp add: sample_entry_def jget_def)
qed

end
