(* ===== verification/Deadline.thy ===== *)
theory Deadline
  imports Domain_Errors
begin

text \<open>
  A promise under a deadline (\<open>packages/runtime/src/deadline.ts\<close>) and one call shared by its
  callers (\<open>apps/api/src/lib/single-flight.ts\<close>), as machines over the events that reach them.
  Which of two events comes first is what their order in the list says: the model makes no
  assumption about the event loop beyond that one of them is handled before the other.
\<close>

section \<open>The race\<close>

definition deadline_error :: "nat \<Rightarrow> thrown" where
  "deadline_error timeoutMs =
     JsError DeadlineErrorC ''DeadlineError'' (''deadline of '' @ show_nat timeoutMs @ ''ms expired'')
       NoCode None None None None []"

datatype 'a race_event = WorkSettled "thrown + 'a" | TimerFired

record 'a race_state =
  race_outcome :: "(thrown + 'a) option"
  race_timer :: bool

text \<open>The timer is armed before the work is started.\<close>

definition race_start :: "'a race_state" where
  "race_start = \<lparr>race_outcome = None, race_timer = True\<rparr>"

text \<open>
  \<open>await Promise.race([work(), expiry])\<close> with \<open>clearTimeout\<close> in \<open>finally\<close>: the first event
  decides; a cleared timer does not fire, and what settles later is not looked at.
\<close>

definition race_step :: "(thrown + 'a) \<Rightarrow> 'a race_state \<Rightarrow> 'a race_event \<Rightarrow> 'a race_state" where
  "race_step expire s e =
     (case race_outcome s of
        Some _ \<Rightarrow> s
      | None \<Rightarrow>
          (case e of
             WorkSettled r \<Rightarrow> \<lparr>race_outcome = Some r, race_timer = False\<rparr>
           | TimerFired \<Rightarrow>
               (if race_timer s then \<lparr>race_outcome = Some expire, race_timer = False\<rparr> else s)))"

definition race_run :: "(thrown + 'a) \<Rightarrow> 'a race_event list \<Rightarrow> 'a race_state" where
  "race_run expire es = foldl (race_step expire) race_start es"

definition withDeadline :: "nat \<Rightarrow> thrown option \<Rightarrow> 'a race_event list \<Rightarrow> (thrown + 'a) option" where
  "withDeadline timeoutMs error es =
     race_outcome (race_run
       (Inl (case error of None \<Rightarrow> deadline_error timeoutMs | Some e \<Rightarrow> e)) es)"

definition settleWithin :: "'a \<Rightarrow> 'a race_event list \<Rightarrow> (thrown + 'a) option" where
  "settleWithin fallback es = race_outcome (race_run (Inr fallback) es)"

text \<open>
  The same primitive around one step of sequential code: the work either settles in time, or
  (\<open>None\<close>) the timer fires first and the work's own outcome is never looked at.
\<close>

type_synonym ('w, 'a) timed = "'w \<Rightarrow> (thrown + 'a) option \<times> 'w"

definition timed_events :: "(thrown + 'a) option \<Rightarrow> 'a race_event list" where
  "timed_events r = (case r of None \<Rightarrow> [TimerFired] | Some r \<Rightarrow> [WorkSettled r, TimerFired])"

definition deadline_io :: "nat \<Rightarrow> thrown option \<Rightarrow> ('w, 'a) timed \<Rightarrow> ('w, thrown, 'a) io" where
  "deadline_io timeoutMs error run = (\<lambda>w. case run w of (r, w') \<Rightarrow>
     (case withDeadline timeoutMs error (timed_events r) of
        Some out \<Rightarrow> (out, w')
      | None \<Rightarrow> (Inl (deadline_error timeoutMs), w')))"

interpretation race: event_machine "race_step expire"
    "\<lambda>s. race_outcome s = None \<longleftrightarrow> race_timer s" for expire
  by unfold_locales (auto simp: race_step_def split: option.splits race_event.splits)

lemma race_decided: "race_outcome s = Some r \<Longrightarrow> foldl (race_step expire) s es = s"
  by (induction es) (simp_all add: race_step_def)

lemma race_run_Nil [simp]: "race_run expire [] = race_start"
  by (simp add: race_run_def)

lemma race_run_Cons:
  "race_run expire (e # es) =
     \<lparr>race_outcome = Some (case e of WorkSettled r \<Rightarrow> r | TimerFired \<Rightarrow> expire), race_timer = False\<rparr>"
  by (cases e) (simp_all add: race_run_def race_step_def race_start_def race_decided)

lemma deadline_io_eq:
  "deadline_io ms error run w = (case run w of
     (Some r, w') \<Rightarrow> (r, w')
   | (None, w') \<Rightarrow> (Inl (case error of None \<Rightarrow> deadline_error ms | Some e \<Rightarrow> e), w'))"
  by (simp add: deadline_io_def withDeadline_def timed_events_def race_run_Cons split: prod.splits option.splits)

section \<open>One call in flight\<close>

datatype flight_event = FlightCall | FlightSettled

text \<open>
  \<open>current\<close> is the call in flight, by its number; \<open>sf_started\<close> counts the calls of \<open>run\<close>, and
  \<open>sf_given\<close> lists which call each caller was given, the last caller first.
\<close>

record flight_state =
  sf_current :: "nat option"
  sf_started :: nat
  sf_settled :: nat
  sf_given :: "nat list"

definition flight_start :: flight_state where
  "flight_start = \<lparr>sf_current = None, sf_started = 0, sf_settled = 0, sf_given = []\<rparr>"

definition singleFlight :: "flight_state \<Rightarrow> flight_event \<Rightarrow> flight_state" where
  "singleFlight s e =
     (case e of
        FlightCall \<Rightarrow>
          (case sf_current s of
             Some c \<Rightarrow> s\<lparr>sf_given := c # sf_given s\<rparr>
           | None \<Rightarrow> s\<lparr>sf_current := Some (sf_started s), sf_started := Suc (sf_started s),
                       sf_given := sf_started s # sf_given s\<rparr>)
      | FlightSettled \<Rightarrow>
          (case sf_current s of
             Some _ \<Rightarrow> s\<lparr>sf_current := None, sf_settled := Suc (sf_settled s)\<rparr>
           | None \<Rightarrow> s))"

definition one_in_flight :: "flight_state \<Rightarrow> bool" where
  "one_in_flight s \<longleftrightarrow>
     (case sf_current s of
        None \<Rightarrow> sf_started s = sf_settled s
      | Some c \<Rightarrow> sf_started s = Suc (sf_settled s) \<and> c = sf_settled s) \<and>
     (\<forall>c \<in> set (sf_given s). c < sf_started s) \<and> sorted (rev (sf_given s))"

interpretation flight: event_machine singleFlight one_in_flight
proof unfold_locales
  fix s e assume inv: "one_in_flight s"
  have above: "\<forall>c \<in> set (sf_given s). c < sf_started s" using inv by (simp add: one_in_flight_def)
  then show "one_in_flight (singleFlight s e)"
    using inv
    by (cases e; cases "sf_current s")
      (auto simp: singleFlight_def one_in_flight_def sorted_append less_imp_le less_Suc_eq)
qed

section \<open>Properties\<close>

text \<open>
  A call under a deadline settles with the first thing that happens and with nothing else:
  with the outcome of the work if it comes first, with the error of the deadline - the caller's
  own, or \<open>DeadlineError\<close> - if the timer does; what comes after changes nothing, the timer is off
  exactly when the race is decided, and \<open>settleWithin\<close> answers its fallback where \<open>withDeadline\<close>
  rejects.
\<close>

theorem deadline_first_event_decides:
  "withDeadline ms error (e # es) =
     Some (case e of WorkSettled r \<Rightarrow> r
           | TimerFired \<Rightarrow> Inl (case error of None \<Rightarrow> deadline_error ms | Some err \<Rightarrow> err)) \<and>
   settleWithin fb (e' # es') = Some (case e' of WorkSettled r \<Rightarrow> r | TimerFired \<Rightarrow> Inr fb) \<and>
   (race_outcome (race_run x es'') = None \<longleftrightarrow> race_timer (race_run x es''))"
proof (intro conjI)
  show "race_outcome (race_run x es'') = None \<longleftrightarrow> race_timer (race_run x es'')"
    unfolding race_run_def by (rule race.run_inv) (simp add: race_start_def)
qed (simp_all add: withDeadline_def settleWithin_def race_run_Cons)

text \<open>
  Whatever order calls and settlements come in, there is at most one call in flight; every
  caller is given a call that was started, callers are given calls in the order they ask, and
  a caller who asks while a call is in flight is given that very call.
\<close>

theorem single_flight_at_most_one:
  "let s = foldl singleFlight flight_start es in
     sf_settled s \<le> sf_started s \<and> sf_started s \<le> Suc (sf_settled s) \<and>
     list_all (\<lambda>c. c < sf_started s) (sf_given s) \<and> sorted (rev (sf_given s)) \<and>
     hd (sf_given (singleFlight s FlightCall)) =
       (case sf_current s of Some c \<Rightarrow> c | None \<Rightarrow> sf_started s)"
proof -
  define s where "s = foldl singleFlight flight_start es"
  have "one_in_flight s"
    unfolding s_def by (rule flight.run_inv) (simp add: one_in_flight_def flight_start_def)
  then show ?thesis
    unfolding s_def [symmetric]
    by (auto simp: one_in_flight_def list_all_iff singleFlight_def Let_def split: option.splits)
qed

end
