(* ===== verification/Contracts.thy ===== *)
theory Contracts
  imports Zod_Schemas Heartbeat
begin

text \<open>
  The wire contract of the api (\<open>packages/contracts/src\<close>): error codes, the health answers and
  the schemas of \<open>/system/status\<close>.
\<close>

section \<open>Error codes (\<open>errors.ts\<close>)\<close>

definition INTERNAL_ERROR_CODE :: string where
  "INTERNAL_ERROR_CODE = ''INTERNAL_ERROR''"

definition CLIENT_ERROR_CODE :: string where
  "CLIENT_ERROR_CODE = ''CLIENT_ERROR''"

definition CLIENT_ERROR_CODES :: "(nat \<times> string) list" where
  "CLIENT_ERROR_CODES =
     [(400, ''BAD_REQUEST''),
      (401, ''UNAUTHORIZED''),
      (403, ''FORBIDDEN''),
      (404, NOT_FOUND_ERROR_CODE),
      (405, ''METHOD_NOT_ALLOWED''),
      (406, ''NOT_ACCEPTABLE''),
      (408, ''REQUEST_TIMEOUT''),
      (409, ''CONFLICT''),
      (413, ''PAYLOAD_TOO_LARGE''),
      (414, ''URI_TOO_LONG''),
      (415, ''UNSUPPORTED_MEDIA_TYPE''),
      (429, ''TOO_MANY_REQUESTS''),
      (431, ''REQUEST_HEADER_FIELDS_TOO_LARGE'')]"

definition REQUEST_ID_HEADER :: string where
  "REQUEST_ID_HEADER = ''x-request-id''"

definition ErrorDetailItemSchema :: zod where
  "ErrorDetailItemSchema = ZObject False [(''path'', ZString 0), (''message'', ZString 0)]"

definition ErrorBodySchema :: zod where
  "ErrorBodySchema = ZObject False
     [(''error'', ZObject False
        [(''code'', ZString 0),
         (''message'', ZString 0),
         (''requestId'', ZString 1),
         (''details'', ZOptional ZUnknown)])]"

section \<open>Health (\<open>health.ts\<close>)\<close>

definition HealthResponseSchema :: zod where
  "HealthResponseSchema = ZObject False [(''status'', ZEnum [''ok'', ''degraded''])]"

definition HEALTH_STATUS_CODES :: "(string \<times> nat) list" where
  "HEALTH_STATUS_CODES = [(''ok'', 200), (''degraded'', 503)]"

definition HEALTH_ANSWER_STATUSES :: "nat list" where
  "HEALTH_ANSWER_STATUSES = map snd HEALTH_STATUS_CODES"

section \<open>System status (\<open>system.ts\<close>)\<close>

definition ProbeStatusSchema :: zod where
  "ProbeStatusSchema = ZEnum [''up'', ''down'']"

definition HealthReportSchema :: zod where
  "HealthReportSchema = ZObject False [(''db'', ProbeStatusSchema), (''redis'', ProbeStatusSchema)]"

datatype probe_failure = Timeout | Unreachable | Refused | Not_migrated | Error

fun probe_failure_name :: "probe_failure \<Rightarrow> string" where
  "probe_failure_name Timeout = ''timeout''"
| "probe_failure_name Unreachable = ''unreachable''"
| "probe_failure_name Refused = ''refused''"
| "probe_failure_name Not_migrated = ''not_migrated''"
| "probe_failure_name Error = ''error''"

definition ProbeFailureCodeSchema :: zod where
  "ProbeFailureCodeSchema = ZEnum (map probe_failure_name [Timeout, Unreachable, Refused, Not_migrated, Error])"

text \<open>The refinement: up means no reason, down means one.\<close>

definition up_means_no_reason :: "json \<Rightarrow> bool" where
  "up_means_no_reason check =
     (\<not> (jget check ''status'' = Some (Str ''up'') \<and> jget check ''reason'' \<noteq> Some Null) \<and>
      \<not> (jget check ''status'' = Some (Str ''down'') \<and> jget check ''reason'' = Some Null))"

definition DependencyCheckSchema :: zod where
  "DependencyCheckSchema = ZRefine
     (ZObject True [(''status'', ProbeStatusSchema), (''reason'', ZNullable ProbeFailureCodeSchema)])
     up_means_no_reason"

definition SystemChecksSchema :: zod where
  "SystemChecksSchema = ZObject True [(''db'', DependencyCheckSchema), (''redis'', DependencyCheckSchema)]"

definition QueueStatusSchema :: zod where
  "QueueStatusSchema = ZObject True
     [(''name'', ZEnum QUEUE_NAMES),
      (''waiting'', ZNumber [IsInt, NonNegative]),
      (''active'', ZNumber [IsInt, NonNegative]),
      (''failed'', ZNumber [IsInt, NonNegative]),
      (''delayed'', ZNumber [IsInt, NonNegative]),
      (''paused'', ZBoolean)]"

definition DlqStatusSchema :: zod where
  "DlqStatusSchema = ZObject True [(''size'', ZNumber [IsInt, NonNegative])]"

definition WorkerStatusSchema :: zod where
  "WorkerStatusSchema = ZObject True [(''heartbeatAt'', ZNullable (ZString 0)), (''stale'', ZBoolean)]"

definition BudgetStatusSchema :: zod where
  "BudgetStatusSchema = ZObject True
     [(''key'', ZEnum (map snd BUDGET_SCOPE_KEYS)),
      (''measure'', ZEnum (map snd BUDGET_MEASURES)),
      (''period'', ZEnum (map snd BUDGET_PERIODS)),
      (''timeZone'', ZString 1),
      (''spent'', ZNumber [NonNegative]),
      (''cap'', ZNumber [Positive]),
      (''ratio'', ZNumber [NonNegative]),
      (''warn'', ZBoolean),
      (''exceeded'', ZBoolean)]"

definition BuildInfoSchema :: zod where
  "BuildInfoSchema = ZObject False
     [(''version'', ZNullable (ZString 0)), (''commit'', ZNullable (ZString 0))]"

definition SystemStatusResponseSchema :: zod where
  "SystemStatusResponseSchema = ZObject True
     [(''build'', BuildInfoSchema),
      (''uptimeSec'', ZNumber [IsInt, NonNegative]),
      (''checks'', SystemChecksSchema),
      (''queues'', ZNullable (ZArray QueueStatusSchema)),
      (''dlq'', ZNullable DlqStatusSchema),
      (''worker'', ZNullable WorkerStatusSchema),
      (''budget'', ZNullable (ZArray BudgetStatusSchema))]"

lemma probe_failure_name_inject [simp]: "probe_failure_name a = probe_failure_name b \<longleftrightarrow> a = b"
  by (cases a; cases b) simp_all

lemma client_error_code_known: "(s, c) \<in> set CLIENT_ERROR_CODES \<Longrightarrow> 400 \<le> s \<and> s < 500 \<and> c \<noteq> []"
  by (auto simp: CLIENT_ERROR_CODES_def NOT_FOUND_ERROR_CODE_def)

text \<open>A reading of the heartbeat as the wire carries it.\<close>

definition worker_status :: "heartbeat_reading \<Rightarrow> json" where
  "worker_status r = Obj
     [(''heartbeatAt'', case heartbeatAt r of None \<Rightarrow> Null | Some s \<Rightarrow> Str s),
      (''stale'', Bool (stale r))]"

lemma worker_status_accepted [simp]: "accepts WorkerStatusSchema (worker_status r)"
  by (simp add: WorkerStatusSchema_def worker_status_def split: option.splits)

end
