(* ===== verification/Budget_Guard.thy ===== *)
theory Budget_Guard
  imports Usage_Log Contracts Deadline
begin

text \<open>
  The budget fuse (\<open>packages/db/src/budget.ts\<close>), the cache adapter of the worker
  (\<open>apps/worker/src/lib/budget.ts\<close>) and the spend section of the api (\<open>apps/api/src/lib/budget.ts\<close>).
  The database is the \<open>db_select\<close> of \<open>Usage_Log\<close>; the cache, the clock and the log are ports.
\<close>

section \<open>Caps and checks\<close>

record budget_limits =
  youtubeUnitsDailySoftCap :: jsnum
  geminiDailyBudgetUsd :: jsnum
  ttsMonthlyBudgetUsd :: jsnum

definition capFor :: "budget_limits \<Rightarrow> budget_scope \<Rightarrow> jsnum" where
  "capFor limits scope =
     (case sc_key scope of
        Youtube_data_units_day \<Rightarrow> youtubeUnitsDailySoftCap limits
      | Gemini_usd_day \<Rightarrow> geminiDailyBudgetUsd limits
      | Tts_usd_month \<Rightarrow> ttsMonthlyBudgetUsd limits)"

record budget_check =
  ck_scope :: budget_scope
  ck_spent :: jsnum
  ck_cap :: jsnum
  ck_state :: budget_state

definition checkOf :: "budget_scope \<Rightarrow> jsnum \<Rightarrow> jsnum \<Rightarrow> thrown + budget_check" where
  "checkOf scope spent cap =
     (case budgetState spent cap of
        Inl e \<Rightarrow> Inl e
      | Inr st \<Rightarrow> Inr \<lparr>ck_scope = scope, ck_spent = spent, ck_cap = cap, ck_state = st\<rparr>)"

text \<open>A scope as an aggregate: its providers, measure and period, and the zone of the cap.\<close>

definition scope_aggregate :: "budget_scope \<Rightarrow> usage_aggregate" where
  "scope_aggregate sc =
     \<lparr>ag_providers = sc_providers sc, ag_measure = sc_measure sc, ag_period = sc_period sc,
      ag_timeZone = Some (sc_timeZone sc)\<rparr>"

text \<open>The checks of several providers out of one statement, \<open>null\<close> where there is no cap.\<close>

fun checks_of ::
  "budget_limits \<Rightarrow> budget_scope option list \<Rightarrow> jsnum list \<Rightarrow> thrown + budget_check option list" where
  "checks_of limits [] totals = Inr []"
| "checks_of limits (None # scopes) totals =
     (case checks_of limits scopes totals of Inl e \<Rightarrow> Inl e | Inr cs \<Rightarrow> Inr (None # cs))"
| "checks_of limits (Some scope # scopes) [] =
     Inl (plain_error (scope_key_name (sc_key scope) @ '': no total counted for the cap''))"
| "checks_of limits (Some scope # scopes) (spent # totals) =
     (case checkOf scope spent (capFor limits scope) of
        Inl e \<Rightarrow> Inl e
      | Inr c \<Rightarrow>
          (case checks_of limits scopes totals of Inl e \<Rightarrow> Inl e | Inr cs \<Rightarrow> Inr (Some c # cs)))"

definition countBudgetChecks ::
  "'w db_select \<Rightarrow> budget_limits \<Rightarrow> provider list \<Rightarrow> int option \<Rightarrow>
   ('w, thrown, budget_check option list) io" where
  "countBudgetChecks db limits providers now =
     (let scopes = map budgetScopeFor providers;
          counted = List.map_filter id scopes
      in io_bind (sumUsages db (map scope_aggregate counted) now)
           (\<lambda>totals w. (checks_of limits scopes totals, w)))"

section \<open>The guard\<close>

record 'w budget_cache =
  bc_get :: "string \<Rightarrow> ('w, thrown, string option) io"
  bc_set :: "string \<Rightarrow> string \<Rightarrow> nat \<Rightarrow> ('w, thrown, unit) io"

record 'w guard_options =
  go_db :: "'w db_select"
  go_limits :: budget_limits
  go_cache :: "'w budget_cache option"
  go_now :: "('w \<Rightarrow> int) option"
  go_warn :: "log_fields \<Rightarrow> string \<Rightarrow> 'w \<Rightarrow> 'w"
  go_json_parse :: "string \<Rightarrow> json option"
  go_json_text :: "json \<Rightarrow> string"
  go_zod :: zod_parse

definition readCachedSpend :: "'w guard_options \<Rightarrow> string \<Rightarrow> (jsnum \<times> bool) option" where
  "readCachedSpend g raw =
     (case go_json_parse g raw of
        None \<Rightarrow> None
      | Some value \<Rightarrow>
          (case go_zod g BudgetCacheValueSchema value of
             Inl _ \<Rightarrow> None
           | Inr data \<Rightarrow>
               Some (case jget data ''spent'' of Some (Num x) \<Rightarrow> x | _ \<Rightarrow> NaN,
                     jget data ''warn'' = Some (Bool True))))"

definition scope_field :: "budget_scope \<Rightarrow> string \<times> log_value" where
  "scope_field scope = (''scope'', LVal (Str (scope_key_name (sc_key scope))))"

definition cachedSpend ::
  "'w guard_options \<Rightarrow> budget_scope \<Rightarrow> jsnum \<Rightarrow> ('w, thrown, budget_check option) io" where
  "cachedSpend g scope cap w =
     (case go_cache g of
        None \<Rightarrow> (Inr None, w)
      | Some cache \<Rightarrow>
          (case bc_get cache (budgetCacheKey (sc_key scope)) w of
             (Inl err, w1) \<Rightarrow>
               (Inr None, go_warn g [(''err'', LErr err), scope_field scope] ''budget cache read failed'' w1)
           | (Inr None, w1) \<Rightarrow> (Inr None, w1)
           | (Inr (Some raw), w1) \<Rightarrow>
               (case readCachedSpend g raw of
                  None \<Rightarrow>
                    (Inr None, go_warn g [scope_field scope] ''budget cache value is not readable'' w1)
                | Some (spent, warn) \<Rightarrow>
                    (if warn then (Inr None, w1)
                     else case checkOf scope spent cap of
                            Inl e \<Rightarrow> (Inl e, w1)
                          | Inr check \<Rightarrow>
                              (Inr (if bs_warn (ck_state check) then None else Some check), w1)))))"

definition countSpend ::
  "'w guard_options \<Rightarrow> budget_scope \<Rightarrow> jsnum \<Rightarrow> ('w, thrown, budget_check) io" where
  "countSpend g scope cap w =
     (case sumUsage (go_db g) (scope_aggregate scope) (Some (sc_timeZone scope))
             (map_option (\<lambda>now. now w) (go_now g)) w of
        (Inl e, w1) \<Rightarrow> (Inl e, w1)
      | (Inr spent, w1) \<Rightarrow>
          (case checkOf scope spent cap of
             Inl e \<Rightarrow> (Inl e, w1)
           | Inr check \<Rightarrow>
               (Inr check,
                case go_cache g of
                  None \<Rightarrow> w1
                | Some cache \<Rightarrow>
                    (case bc_set cache (budgetCacheKey (sc_key scope))
                            (go_json_text g (Obj [(''spent'', Num spent), (''warn'', Bool (bs_warn (ck_state check)))]))
                            BUDGET_CACHE_TTL_SEC w1 of
                       (Inr _, w2) \<Rightarrow> w2
                     | (Inl err, w2) \<Rightarrow>
                         go_warn g [(''err'', LErr err), scope_field scope] ''budget cache write failed'' w2))))"

definition countOrCached ::
  "'w guard_options \<Rightarrow> budget_scope \<Rightarrow> jsnum \<Rightarrow> ('w, thrown, budget_check) io" where
  "countOrCached g scope cap =
     io_bind (cachedSpend g scope cap)
       (\<lambda>c. case c of Some check \<Rightarrow> io_return check | None \<Rightarrow> countSpend g scope cap)"

definition guard_check :: "'w guard_options \<Rightarrow> provider \<Rightarrow> ('w, thrown, budget_check option) io" where
  "guard_check g p =
     (case budgetScopeFor p of
        None \<Rightarrow> io_return None
      | Some scope \<Rightarrow> io_bind (countOrCached g scope (capFor (go_limits g) scope)) (\<lambda>c. io_return (Some c)))"

definition guard_assert :: "'w guard_options \<Rightarrow> provider \<Rightarrow> ('w, thrown, budget_check) io" where
  "guard_assert g p =
     (case budgetScopeFor p of
        None \<Rightarrow> io_throw (validation_error ''provider has no budget cap to assert''
                  (Some (Obj [(''provider'', Str (provider_name p))])))
      | Some scope \<Rightarrow>
          io_bind (countOrCached g scope (capFor (go_limits g) scope)) (\<lambda>check.
            if bs_exceeded (ck_state check)
            then io_throw (budget_exceeded_error
                   (scope_key_name (sc_key scope) @ '': cap reached, refusing the call'')
                   p (ck_spent check) (ck_cap check))
            else io_return check))"

section \<open>The cache of the worker\<close>

definition BUDGET_CACHE_TIMEOUT_MS :: nat where
  "BUDGET_CACHE_TIMEOUT_MS = 500"

definition budget_cache_timeout_error :: "string \<Rightarrow> nat \<Rightarrow> thrown" where
  "budget_cache_timeout_error command timeoutMs =
     JsError (OtherErrorC ''BudgetCacheTimeoutError'') ''BudgetCacheTimeoutError''
       (''budget cache '' @ command @ '' did not answer in '' @ show_nat timeoutMs @ ''ms'')
       NoCode None None None None []"

definition withTimeout :: "string \<Rightarrow> nat \<Rightarrow> ('w, 'a) timed \<Rightarrow> ('w, thrown, 'a) io" where
  "withTimeout command timeoutMs run =
     deadline_io timeoutMs (Some (budget_cache_timeout_error command timeoutMs)) run"

text \<open>The two commands of the client the adapter uses; each answers, fails, or does neither in time.\<close>

record 'w redis_commands =
  rc_get :: "string \<Rightarrow> ('w, string option) timed"
  rc_setex :: "string \<Rightarrow> string \<Rightarrow> nat \<Rightarrow> ('w, unit) timed"

definition createRedisBudgetCache :: "'w redis_commands \<Rightarrow> nat option \<Rightarrow> 'w budget_cache" where
  "createRedisBudgetCache redis timeout =
     (let timeoutMs = (case timeout of None \<Rightarrow> BUDGET_CACHE_TIMEOUT_MS | Some t \<Rightarrow> t)
      in \<lparr>bc_get = (\<lambda>key. withTimeout ''get'' timeoutMs (rc_get redis key)),
          bc_set = (\<lambda>key value ttl. withTimeout ''set'' timeoutMs (rc_setex redis key value ttl))\<rparr>)"

definition createWorkerBudgetGuard ::
  "'w db_select \<Rightarrow> 'w redis_commands \<Rightarrow> budget_limits \<Rightarrow> (log_fields \<Rightarrow> string \<Rightarrow> 'w \<Rightarrow> 'w) \<Rightarrow>
   (string \<Rightarrow> json option) \<Rightarrow> (json \<Rightarrow> string) \<Rightarrow> zod_parse \<Rightarrow> 'w guard_options" where
  "createWorkerBudgetGuard db redis limits warn parse text zod =
     \<lparr>go_db = db, go_limits = limits, go_cache = Some (createRedisBudgetCache redis None),
      go_now = None, go_warn = warn, go_json_parse = parse, go_json_text = text, go_zod = zod\<rparr>"

section \<open>The spend section of the api\<close>

definition CAP_REPRESENTATIVES :: "provider list" where
  "CAP_REPRESENTATIVES = [Youtube_data, Gemini, Elevenlabs]"

definition budget_status :: "budget_check \<Rightarrow> json" where
  "budget_status c = Obj
     [(''key'', Str (scope_key_name (sc_key (ck_scope c)))),
      (''measure'', Str (measure_name (sc_measure (ck_scope c)))),
      (''period'', Str (period_name (sc_period (ck_scope c)))),
      (''timeZone'', Str (sc_timeZone (ck_scope c))),
      (''spent'', Num (ck_spent c)),
      (''cap'', Num (ck_cap c)),
      (''ratio'', Num (Fin (bs_ratio (ck_state c)))),
      (''warn'', Bool (bs_warn (ck_state c))),
      (''exceeded'', Bool (bs_exceeded (ck_state c)))]"

definition readCaps :: "'w db_select \<Rightarrow> budget_limits \<Rightarrow> ('w, thrown, json list) io" where
  "readCaps db limits =
     io_bind (countBudgetChecks db limits CAP_REPRESENTATIVES None)
       (\<lambda>checks. io_return (List.map_filter (map_option budget_status) checks))"

section \<open>Lemmas\<close>

lemma checkOf_Inr:
  "checkOf scope spent cap = Inr c \<Longrightarrow>
     ck_scope c = scope \<and> ck_spent c = spent \<and> ck_cap c = cap \<and> budgetState spent cap = Inr (ck_state c)"
  by (auto simp: checkOf_def split: sum.splits)

lemma checkOf_not_exceeded:
  assumes "checkOf scope spent cap = Inr c" and "\<not> bs_exceeded (ck_state c)"
  shows "\<exists>s k. spent = Fin s \<and> cap = Fin k \<and> 0 \<le> s \<and> s < k"
proof -
  from checkOf_Inr [OF assms(1)] have "budgetState spent cap = Inr (ck_state c)" by blast
  then show ?thesis by (rule budgetState_Inr_cases) (use assms(2) in auto)
qed

lemma checkOf_exceeded_warns:
  assumes "checkOf scope spent cap = Inr c" and "bs_exceeded (ck_state c)"
  shows "bs_warn (ck_state c)"
proof -
  from checkOf_Inr [OF assms(1)] have "budgetState spent cap = Inr (ck_state c)" by blast
  then show ?thesis by (rule budgetState_Inr_cases) (use assms(2) in auto)
qed

lemma checkOf_total: "0 < k \<Longrightarrow> 0 \<le> s \<Longrightarrow> \<exists>c. checkOf scope (Fin s) (Fin k) = Inr c"
  by (simp add: checkOf_def budgetState_Fin)

lemma cachedSpend_Some:
  "cachedSpend g scope cap w = (Inr (Some c), w') \<Longrightarrow>
     (\<exists>spent. checkOf scope spent cap = Inr c) \<and> \<not> bs_warn (ck_state c)"
  by (auto simp: cachedSpend_def split: option.splits prod.splits sum.splits if_splits)

lemma countSpend_Inr:
  "countSpend g scope cap w = (Inr c, w') \<Longrightarrow> \<exists>spent. checkOf scope spent cap = Inr c"
  by (auto simp: countSpend_def split: prod.splits sum.splits)

lemma countOrCached_Inr:
  "countOrCached g scope cap w = (Inr c, w') \<Longrightarrow> \<exists>spent. checkOf scope spent cap = Inr c"
  by (auto simp: countOrCached_def io_simps split: prod.splits sum.splits option.splits
      dest!: cachedSpend_Some countSpend_Inr)

lemma budget_status_accepted:
  assumes "checkOf scope spent cap = Inr c" and "sc_timeZone scope \<noteq> []"
  shows "accepts BudgetStatusSchema (budget_status c)"
proof -
  note c = checkOf_Inr [OF assms(1)]
  from c obtain s k where "spent = Fin s" "cap = Fin k" "0 < k" "0 \<le> s"
    "ck_state c = \<lparr>bs_ratio = s / k, bs_exceeded = (k \<le> s), bs_warn = (k * 4 \<le> s * 5)\<rparr>"
    by (metis budgetState_Inr_cases)
  with c assms(2) show ?thesis
    by (cases "sc_key scope"; cases "sc_measure scope"; cases "sc_period scope")
      (simp_all add: BudgetStatusSchema_def budget_status_def BUDGET_SCOPE_KEYS_def BUDGET_MEASURES_def
        BUDGET_PERIODS_def Suc_le_eq)
qed

lemma checks_of_capped:
  assumes "checks_of limits (map Some scopes) totals = Inr checks"
    and "\<forall>sc \<in> set scopes. sc_timeZone sc \<noteq> []"
  shows "\<exists>cs. checks = map Some cs \<and> map ck_scope cs = scopes \<and>
    list_all (accepts BudgetStatusSchema) (map budget_status cs)"
  using assms
proof (induction scopes arbitrary: totals checks)
  case (Cons sc scopes)
  then obtain spent ts c rest where "totals = spent # ts"
    and c: "checkOf sc spent (capFor limits sc) = Inr c"
    and rest: "checks_of limits (map Some scopes) ts = Inr rest" and checks: "checks = Some c # rest"
    by (cases totals) (auto split: sum.splits)
  from Cons.IH [OF rest] Cons.prems(2) obtain cs where "rest = map Some cs" "map ck_scope cs = scopes"
    "list_all (accepts BudgetStatusSchema) (map budget_status cs)" by auto
  with checks checkOf_Inr [OF c] budget_status_accepted [OF c] Cons.prems(2) show ?case
    by (intro exI [of _ "c # cs"]) simp
qed simp

section \<open>The guard over a database and a cache that may fail\<close>

text \<open>
  What the guard is run over: a spend table that is summed as asked, a schema package that
  keeps its contract, and cache commands and a log that leave the spend table alone.  The cache
  may answer anything, fail, or not answer in time; time may pass meanwhile.
\<close>

locale guarded_store = usage_store select table clock trunc render
  for select :: "'w db_select" and table :: "'w \<Rightarrow> usage_record list" and clock :: "'w \<Rightarrow> int"
    and trunc :: "budget_period \<Rightarrow> string \<Rightarrow> int \<Rightarrow> int" and render :: "rat list \<Rightarrow> json" +
  fixes redis :: "'w redis_commands"
    and warn :: "log_fields \<Rightarrow> string \<Rightarrow> 'w \<Rightarrow> 'w"
    and zod :: zod_parse
  assumes get_keeps: "table (snd (rc_get redis k w)) = table w \<and> clock w \<le> clock (snd (rc_get redis k w))"
    and warn_keeps: "table (warn fs m w) = table w \<and> clock w \<le> clock (warn fs m w)"
    and zod_keeps: "zod_contract zod"
begin

definition worker_guard where
  "worker_guard limits parse text = createWorkerBudgetGuard select redis limits warn parse text zod"

lemma worker_fields:
  "go_db (worker_guard limits parse text) = select"
  "go_limits (worker_guard limits parse text) = limits"
  "go_now (worker_guard limits parse text) = None"
  "go_warn (worker_guard limits parse text) = warn"
  "go_zod (worker_guard limits parse text) = zod"
  by (simp_all add: worker_guard_def createWorkerBudgetGuard_def)

lemma worker_cache:
  "go_cache (worker_guard limits parse text) = Some (createRedisBudgetCache redis None)"
  by (simp add: worker_guard_def createWorkerBudgetGuard_def)

lemma cache_get_keeps:
  "bc_get (createRedisBudgetCache redis t) k w = (r, w') \<Longrightarrow> table w' = table w \<and> clock w \<le> clock w'"
  using get_keeps [of k w]
  by (auto simp: createRedisBudgetCache_def withTimeout_def deadline_io_eq Let_def
      split: prod.splits option.splits)

lemma readCachedSpend_Some:
  assumes "readCachedSpend (worker_guard limits parse text) raw = Some (spent, wn)"
  shows "\<exists>s. spent = Fin s \<and> 0 \<le> s"
proof -
  let ?g = "worker_guard limits parse text"
  from assms obtain v d where parsed: "zod BudgetCacheValueSchema v = Inr d"
    and spent: "spent = (case jget d ''spent'' of Some (Num x) \<Rightarrow> x | _ \<Rightarrow> NaN)"
    by (auto simp: readCachedSpend_def worker_fields split: option.splits sum.splits)
  have "jget d ''spent'' = jget v ''spent''"
    by (rule contract_keys [OF zod_keeps parsed]) (simp_all add: BudgetCacheValueSchema_def)
  moreover have "accepts BudgetCacheValueSchema v" by (rule contract_accepts [OF zod_keeps parsed])
  then have "case jget v ''spent'' of None \<Rightarrow> False | Some x \<Rightarrow> accepts (ZNumber [NonNegative, IsFinite]) x"
    unfolding BudgetCacheValueSchema_def
    by (drule_tac accepts_object_field [where k = "''spent''"]) (auto split: option.splits)
  ultimately show ?thesis
    using spent by (auto simp: num_simps split: option.splits json.splits jsnum.splits)
qed

lemma cachedSpend_world:
  assumes "cachedSpend (worker_guard limits parse text) scope cap w = (r, w')"
  shows "table w' = table w \<and> clock w \<le> clock w'"
proof -
  let ?g = "worker_guard limits parse text" and ?k = "budgetCacheKey (sc_key scope)"
  let ?cache = "createRedisBudgetCache redis None"
  obtain r1 w1 where get: "bc_get ?cache ?k w = (r1, w1)" by fastforce
  have "w' = w1 \<or> (\<exists>fs m. w' = warn fs m w1)"
    using assms by (auto simp: cachedSpend_def worker_cache worker_fields get
        split: sum.splits option.splits prod.splits if_splits)
  with cache_get_keeps [OF get] warn_keeps show ?thesis by (metis order_trans)
qed

lemma cachedSpend_no_error:
  assumes "0 < k"
  shows "fst (cachedSpend (worker_guard limits parse text) scope (Fin k) w) \<noteq> Inl e"
proof -
  let ?g = "worker_guard limits parse text"
  have "checkOf scope spent (Fin k) \<noteq> Inl e" if "readCachedSpend ?g raw = Some (spent, wn)" for raw spent wn
  proof -
    from readCachedSpend_Some [OF that] obtain s where "spent = Fin s" "0 \<le> s" by blast
    with checkOf_total [OF assms, of s scope] show ?thesis by auto
  qed
  then show ?thesis
    by (auto simp: cachedSpend_def worker_cache split: option.splits sum.splits prod.splits if_splits)
qed

lemma countSpend_worker:
  assumes "sc_providers scope \<noteq> []"
  shows "fst (countSpend (worker_guard limits parse text) scope cap w) =
    checkOf scope (Fin (spent_in trunc (clock w) (table w) (sum_part None (scope_aggregate scope)))) cap"
  using assms
  by (simp add: countSpend_def worker_fields sumUsage_answers scope_aggregate_def split: sum.splits)

lemma countOrCached_worker:
  assumes "sc_providers scope \<noteq> []" and "fst (countOrCached (worker_guard limits parse text) scope cap w) = Inr c"
    and "bs_warn (ck_state c)"
  shows "\<exists>t \<ge> clock w. ck_spent c = Fin (spent_in trunc t (table w) (sum_part None (scope_aggregate scope)))"
proof -
  let ?g = "worker_guard limits parse text"
  obtain r1 w1 where cached: "cachedSpend ?g scope cap w = (r1, w1)" by fastforce
  from assms(2) cached consider (hit) "r1 = Inr (Some c)" | (miss) "r1 = Inr None" "fst (countSpend ?g scope cap w1) = Inr c"
    by (auto simp: countOrCached_def io_simps split: sum.splits option.splits)
  then show ?thesis
  proof cases
    case hit
    with cached cachedSpend_Some [of ?g scope cap w c w1] assms(3) show ?thesis by simp
  next
    case miss
    with countSpend_worker [OF assms(1)] have
      "checkOf scope (Fin (spent_in trunc (clock w1) (table w1) (sum_part None (scope_aggregate scope)))) cap = Inr c"
      by simp
    with cachedSpend_world [OF cached] checkOf_Inr show ?thesis by metis
  qed
qed

end

text \<open>
  A process to run the guard in: the spend table, the keys of a Redis that answers, refuses or
  is silent, and the lines logged.
\<close>

datatype redis_mode = RedisAnswers | RedisRefuses | RedisSilent

record guard_world =
  gw_usage :: usage_world
  gw_keys :: "string \<Rightarrow> string option"
  gw_mode :: redis_mode
  gw_log :: "string list"

definition gw_select :: "guard_world db_select" where
  "gw_select qs w = (fst (mem_select qs (gw_usage w)), w)"

definition gw_redis :: "guard_world redis_commands" where
  "gw_redis =
     \<lparr>rc_get = (\<lambda>k w.
        (case gw_mode w of
           RedisAnswers \<Rightarrow> Some (Inr (gw_keys w k))
         | RedisRefuses \<Rightarrow> Some (Inl (plain_error ''connection refused''))
         | RedisSilent \<Rightarrow> None, w)),
      rc_setex = (\<lambda>k v ttl w.
        (case gw_mode w of
           RedisAnswers \<Rightarrow> (Some (Inr ()), w\<lparr>gw_keys := (gw_keys w)(k \<mapsto> v)\<rparr>)
         | RedisRefuses \<Rightarrow> (Some (Inl (plain_error ''connection refused'')), w)
         | RedisSilent \<Rightarrow> (None, w)))\<rparr>"

definition gw_warn :: "log_fields \<Rightarrow> string \<Rightarrow> guard_world \<Rightarrow> guard_world" where
  "gw_warn fs m w = w\<lparr>gw_log := gw_log w @ [m]\<rparr>"

interpretation gw: guarded_store gw_select "\<lambda>w. uw_table (gw_usage w)" "\<lambda>w. uw_clock (gw_usage w)"
    mem_trunc mem_render gw_redis gw_warn plain_parse
  by unfold_locales
    (auto simp: gw_select_def mem.select_answers mem.render_total gw_redis_def gw_warn_def)

section \<open>Properties\<close>

text \<open>
  C38: a call that is let through is below its cap, whatever the database and the cache answer:
  the check \<open>assert\<close> returns is about the cap of that provider, with the number configured for
  it, and the spend in it is a finite number strictly below that cap; a provider without a cap
  is never let through.
\<close>

theorem assert_below_cap:
  "case guard_assert g p w of
     (Inr c, w') \<Rightarrow> (\<exists>s k. budgetScopeFor p = Some (ck_scope c) \<and> ck_cap c = capFor (go_limits g) (ck_scope c) \<and>
        ck_spent c = Fin s \<and> ck_cap c = Fin k \<and> 0 \<le> s \<and> s < k)
   | (Inl e, w') \<Rightarrow> True"
proof (cases "guard_assert g p w")
  case (Pair r w')
  show ?thesis
  proof (cases r)
    case (Inr c)
    with Pair obtain scope where scope: "budgetScopeFor p = Some scope"
      and counted: "countOrCached g scope (capFor (go_limits g) scope) w = (Inr c, w')"
      and below: "\<not> bs_exceeded (ck_state c)"
      by (auto simp: guard_assert_def io_simps split: option.splits prod.splits sum.splits if_splits)
    from countOrCached_Inr [OF counted] obtain spent
      where check: "checkOf scope spent (capFor (go_limits g) scope) = Inr c" by blast
    from checkOf_Inr [OF check] checkOf_not_exceeded [OF check below] scope show ?thesis
      by (auto simp: Pair Inr)
  qed (simp add: Pair)
qed

text \<open>
  The guard of the worker over a cache that may answer anything, refuse or be silent: with
  a positive cap, asking where it stands always answers; an answer that warns carries the total
  of the database, counted no earlier than the question; and a call is refused only when that
  total has really reached the cap.
\<close>

theorem worker_guard_current:
  fixes parse :: "string \<Rightarrow> json option" and to_text :: "json \<Rightarrow> string" and w :: 'w
  assumes store: "guarded_store select table clock trunc render redis warn zod"
    and scope: "budgetScopeFor p = Some scope"
    and cap: "capFor limits scope = Fin k" "0 < k"
    and spent: "\<And>t. 0 \<le> spent_in trunc t (table w) (sum_part None (scope_aggregate scope))"
  defines "g \<equiv> createWorkerBudgetGuard select redis limits warn parse to_text zod"
    and "summed \<equiv> (\<lambda>t. spent_in trunc t (table w) (sum_part None (scope_aggregate scope)))"
  shows "(case fst (guard_check g p w) of
            Inr (Some c) \<Rightarrow> bs_warn (ck_state c) \<longrightarrow> (\<exists>t \<ge> clock w. ck_spent c = Fin (summed t))
          | _ \<Rightarrow> False) \<and>
         (case fst (guard_assert g p w) of
            Inr c \<Rightarrow> True
          | Inl e \<Rightarrow> instance_of e BudgetExceededErrorC \<and> (\<exists>t \<ge> clock w. k \<le> summed t))"
proof -
  note g_eq = guarded_store.worker_guard_def [OF store, of limits parse to_text, folded g_def]
  have prov: "sc_providers scope \<noteq> []" using scope_provider [OF scope] by auto
  have "fst (countOrCached g scope (Fin k) w) \<noteq> Inl e" for e
  proof
    assume err: "fst (countOrCached g scope (Fin k) w) = Inl e"
    obtain r1 w1 where cached: "cachedSpend g scope (Fin k) w = (r1, w1)" by fastforce
    have tab: "table w1 = table w"
      using guarded_store.cachedSpend_world [OF store cached [folded g_eq]] by simp
    have "r1 \<noteq> Inl e'" for e'
      using guarded_store.cachedSpend_no_error [OF store cap(2), of limits parse to_text scope w e'] cached g_eq by auto
    with err cached have "fst (countSpend g scope (Fin k) w1) = Inl e"
      by (auto simp: countOrCached_def io_simps split: sum.splits option.splits)
    with guarded_store.countSpend_worker [OF store prov, of limits parse to_text "Fin k" w1] g_eq tab
      checkOf_total [OF cap(2) spent [of "clock w1"], of scope]
    show False by auto
  qed
  then obtain c where c: "fst (countOrCached g scope (Fin k) w) = Inr c" by (cases "fst (countOrCached g scope (Fin k) w)") auto
  have current: "\<exists>t \<ge> clock w. ck_spent c = Fin (summed t)" if "bs_warn (ck_state c)"
    using guarded_store.countOrCached_worker [OF store prov, of limits parse to_text "Fin k" w c] c that g_eq
    by (simp add: summed_def)
  obtain sp where check: "checkOf scope sp (Fin k) = Inr c"
    using c countOrCached_Inr [of g scope "Fin k" w c] by (metis prod.collapse)
  have reached: "\<exists>t \<ge> clock w. k \<le> summed t" if ex: "bs_exceeded (ck_state c)"
  proof -
    obtain t where t: "t \<ge> clock w" "ck_spent c = Fin (summed t)"
      using current checkOf_exceeded_warns [OF check ex] by blast
    with checkOf_Inr [OF check] have "budgetState (Fin (summed t)) (Fin k) = Inr (ck_state c)" by simp
    then have "k \<le> summed t" using ex by (rule_tac budgetState_Inr_cases) auto
    with t show ?thesis by blast
  qed
  have limits: "go_limits g = limits" by (simp add: g_def createWorkerBudgetGuard_def)
  from c current reached show ?thesis
    by (auto simp: guard_check_def guard_assert_def scope cap limits io_simps split: prod.splits)
qed

text \<open>
  The spend section of the page holds one row per cap, in the order of the caps, and every
  row conforms to the schema the response is serialized against - whatever totals the database
  answers; totals or caps that make no state reject the read instead of reaching the page.
\<close>

lemma readCaps_conforms:
  "case fst (readCaps db limits w) of
     Inr rows \<Rightarrow> list_all (accepts BudgetStatusSchema) rows \<and>
       map (\<lambda>r. jget r ''key'') rows = map (\<lambda>k. Some (Str (scope_key_name k))) (map fst BUDGET_SCOPE_KEYS)
   | Inl e \<Rightarrow> True"
proof (cases "fst (readCaps db limits w)")
  case (Inr rows)
  let ?scopes = "[YOUTUBE_DATA_UNITS_DAY, GEMINI_USD_DAY, TTS_USD_MONTH]"
  have scopes: "map budgetScopeFor CAP_REPRESENTATIVES = map Some ?scopes"
    by (simp add: CAP_REPRESENTATIVES_def budgetScopeFor_def)
  from Inr obtain totals checks where checks: "checks_of limits (map Some ?scopes) totals = Inr checks"
    and rows: "rows = List.map_filter (map_option budget_status) checks"
    by (auto simp: readCaps_def countBudgetChecks_def Let_def io_simps scopes split: sum.splits prod.splits)
  have "\<forall>sc \<in> set ?scopes. sc_timeZone sc \<noteq> []" by (simp add: scope_defs PACIFIC_def UTC_def)
  from checks_of_capped [OF checks this] obtain cs where cs: "checks = map Some cs \<and>
    map ck_scope cs = ?scopes \<and> list_all (accepts BudgetStatusSchema) (map budget_status cs)" by (rule exE)
  have "map (\<lambda>r. jget r ''key'') (map budget_status cs) =
      map (\<lambda>c. Some (Str (scope_key_name (sc_key c)))) (map ck_scope cs)"
    by (simp add: budget_status_def jget_def)
  with cs rows Inr show ?thesis
    by (simp add: map_filter_def comp_def BUDGET_SCOPE_KEYS_def scope_defs)
qed simp

lemma readCaps_rows: "fst (readCaps db limits w) = Inr rows \<Longrightarrow> list_all (accepts BudgetStatusSchema) rows"
  using readCaps_conforms [of db limits w] by simp

definition sample_world :: guard_world where
  "sample_world =
     \<lparr>gw_usage = \<lparr>uw_table = [\<lparr>ur_provider = Gemini, ur_units = None, ur_cost = Some 9, ur_created = 5\<rparr>], uw_clock = 9\<rparr>,
      gw_keys = (\<lambda>_. None), gw_mode = RedisSilent, gw_log = []\<rparr>"

definition sample_limits :: budget_limits where
  "sample_limits =
     \<lparr>youtubeUnitsDailySoftCap = Fin 9000, geminiDailyBudgetUsd = Fin 9, ttsMonthlyBudgetUsd = Fin 30\<rparr>"

theorem worker_guard_current_witness:
  "case fst (guard_assert (createWorkerBudgetGuard gw_select gw_redis sample_limits gw_warn
      (\<lambda>_. None) (\<lambda>_. []) plain_parse) Gemini sample_world) of
     Inr c \<Rightarrow> True
   | Inl e \<Rightarrow> instance_of e BudgetExceededErrorC \<and>
       (\<exists>t \<ge> 9. 9 \<le> spent_in mem_trunc t (uw_table (gw_usage sample_world))
          (sum_part None (scope_aggregate GEMINI_USD_DAY)))"
proof -
  have scope: "budgetScopeFor Gemini = Some GEMINI_USD_DAY" by (simp add: budgetScopeFor_def)
  have cap: "capFor sample_limits GEMINI_USD_DAY = Fin 9"
    by (simp add: capFor_def GEMINI_USD_DAY_def sample_limits_def)
  have pos: "0 \<le> spent_in mem_trunc t (uw_table (gw_usage sample_world)) (sum_part None (scope_aggregate GEMINI_USD_DAY))" for t
    by (simp add: sample_world_def spent_in_def column_values_def map_filter_simps column_of_def)
  have clock: "uw_clock (gw_usage sample_world) = 9" by (simp add: sample_world_def)
  show ?thesis
    using conjunct2 [OF worker_guard_current [OF gw.guarded_store_axioms scope cap _ pos, of "\<lambda>_. None" "\<lambda>_. []"]]
    unfolding clock by simp
qed

end
