(* ===== verification/Connection_Failure.thy ===== *)
theory Connection_Failure
  imports Domain_Errors Js_Text
begin

text \<open>
  Which errors are written by whom: the classifier of connection failures
  (\<open>packages/runtime/src/connection-failure.ts\<close>) and the two rules built on it
  (\<open>client-errors.ts\<close>): what a \<open>Queue\<close> on the shared client leaves to the client, and the line
  per outage of a \<open>Worker\<close>.
\<close>

section \<open>The classifier\<close>

definition SOCKET_FAILURE_CODES :: "string list" where
  "SOCKET_FAILURE_CODES =
     [''ECONNREFUSED'', ''ENOTFOUND'', ''EAI_AGAIN'', ''ETIMEDOUT'', ''EPIPE'', ''ECONNRESET'',
      ''EHOSTUNREACH'', ''ENETUNREACH'']"

definition REDIS_COMMAND_TIMEOUT_MESSAGE :: string where
  "REDIS_COMMAND_TIMEOUT_MESSAGE = ''Command timed out''"

definition REDIS_DOWN_MESSAGES :: "string list" where
  "REDIS_DOWN_MESSAGES =
     [''Connection is closed.'',
      ''Stream isn'' @ [CHR 39] @ ''t writeable and enableOfflineQueue options is false'']"

definition UNREACHABLE_ERROR_NAMES :: "string list" where
  "UNREACHABLE_ERROR_NAMES = [''MaxRetriesPerRequestError'']"

datatype connection_failure = FailUnreachable | FailTimeout

definition connectionFailure :: "thrown \<Rightarrow> connection_failure option" where
  "connectionFailure err =
     (if (case errorCode err of Some c \<Rightarrow> List.member SOCKET_FAILURE_CODES c | None \<Rightarrow> False)
      then Some FailUnreachable
      else
        (case err of
           NonError _ _ _ \<Rightarrow> None
         | JsError _ name message _ _ _ _ _ _ \<Rightarrow>
             (if message = REDIS_COMMAND_TIMEOUT_MESSAGE then Some FailTimeout
              else if List.member REDIS_DOWN_MESSAGES message \<or> List.member UNREACHABLE_ERROR_NAMES name
              then Some FailUnreachable
              else None)))"

definition REDIS_AUTH_REFUSAL_CODES :: "string list" where
  "REDIS_AUTH_REFUSAL_CODES = [''WRONGPASS'', ''NOAUTH'']"

text \<open>The first word of the message, split at the first space.\<close>

definition authFailure :: "thrown \<Rightarrow> bool" where
  "authFailure err =
     (case err of
        NonError _ _ _ \<Rightarrow> False
      | JsError _ name message _ _ _ _ _ _ \<Rightarrow>
          name = ''ReplyError'' \<and> List.member REDIS_AUTH_REFUSAL_CODES (hd (split_on CHR '' '' message)))"

section \<open>Errors of the shared client\<close>

text \<open>
  An error as a listener hears it: which object it is (a primitive is none) and its content.  The
  \<open>WeakSet\<close> of the code holds objects by identity.
\<close>

record heard =
  h_object :: "nat option"
  h_error :: thrown

record client_errors =
  ce_fromClient :: "nat list"
  ce_listening :: bool

definition markClientErrors :: client_errors where
  "markClientErrors = \<lparr>ce_fromClient = [], ce_listening = True\<rparr>"

definition ce_mark :: "heard \<Rightarrow> client_errors \<Rightarrow> client_errors" where
  "ce_mark err c =
     (if ce_listening c
      then (case h_object err of
              Some r \<Rightarrow> c\<lparr>ce_fromClient := r # ce_fromClient c\<rparr>
            | None \<Rightarrow> c)
      else c)"

definition ce_has :: "client_errors \<Rightarrow> heard \<Rightarrow> bool" where
  "ce_has c err = (case h_object err of Some r \<Rightarrow> List.member (ce_fromClient c) r | None \<Rightarrow> False)"

definition writtenByClient :: "client_errors \<Rightarrow> heard \<Rightarrow> bool" where
  "writtenByClient c err =
     (ce_has c err \<or> connectionFailure (h_error err) \<noteq> None \<or> authFailure (h_error err))"

definition ce_dispose :: "client_errors \<Rightarrow> client_errors" where
  "ce_dispose c = c\<lparr>ce_listening := False\<rparr>"

section \<open>The rule of a worker\<close>

definition CONNECTION_FAILURE_LOG_WINDOW_MS :: rat where
  "CONNECTION_FAILURE_LOG_WINDOW_MS = 60000"

text \<open>The state is \<open>connectionFailureWrittenAt\<close>; \<open>now\<close> is the monotonic clock of the call.\<close>

definition shouldWrite ::
  "(heard \<Rightarrow> bool) \<Rightarrow> rat option \<Rightarrow> rat option \<Rightarrow> heard \<Rightarrow> rat \<Rightarrow> bool \<times> rat option" where
  "shouldWrite has window writtenAt err now =
     (let windowMs = (case window of None \<Rightarrow> CONNECTION_FAILURE_LOG_WINDOW_MS | Some w \<Rightarrow> w)
      in if has err \<or> authFailure (h_error err) then (False, writtenAt)
         else if connectionFailure (h_error err) = None then (True, writtenAt)
         else (case writtenAt of
                 Some t \<Rightarrow> (if now - t < windowMs then (False, writtenAt) else (True, Some now))
               | None \<Rightarrow> (True, Some now)))"

definition policy_onReady :: "rat option \<Rightarrow> rat option" where
  "policy_onReady writtenAt = None"

datatype policy_event = Heard heard rat | Ready

text \<open>The listener of one worker over what it hears: the state and the lines, the last first.\<close>

record policy_state =
  ps_writtenAt :: "rat option"
  ps_lines :: "(heard \<times> rat) list"

definition workerErrorPolicy ::
  "(heard \<Rightarrow> bool) \<Rightarrow> rat option \<Rightarrow> policy_state \<Rightarrow> policy_event \<Rightarrow> policy_state" where
  "workerErrorPolicy has window s e =
     (case e of
        Ready \<Rightarrow> s\<lparr>ps_writtenAt := policy_onReady (ps_writtenAt s)\<rparr>
      | Heard err now \<Rightarrow>
          (case shouldWrite has window (ps_writtenAt s) err now of
             (True, t) \<Rightarrow> s\<lparr>ps_writtenAt := t, ps_lines := (err, now) # ps_lines s\<rparr>
           | (False, t) \<Rightarrow> s\<lparr>ps_writtenAt := t\<rparr>))"

definition policy_start :: policy_state where
  "policy_start = \<lparr>ps_writtenAt = None, ps_lines = []\<rparr>"

definition is_outage :: "(heard \<Rightarrow> bool) \<Rightarrow> heard \<Rightarrow> bool" where
  "is_outage has err \<longleftrightarrow>
     \<not> has err \<and> \<not> authFailure (h_error err) \<and> connectionFailure (h_error err) \<noteq> None"

definition is_defect :: "(heard \<Rightarrow> bool) \<Rightarrow> heard \<Rightarrow> bool" where
  "is_defect has err \<longleftrightarrow>
     \<not> has err \<and> \<not> authFailure (h_error err) \<and> connectionFailure (h_error err) = None"

lemma authFailure_not_primitive [simp]: "\<not> authFailure (NonError s c ob)"
  by (simp add: authFailure_def)

text \<open>What is written is an outage or a defect, and a defect always is.\<close>

interpretation policy: event_machine "workerErrorPolicy has window"
    "\<lambda>s. (\<forall>(e, t) \<in> set (ps_lines s). is_outage has e \<or> is_defect has e)" for has window
  by unfold_locales
    (auto simp: workerErrorPolicy_def shouldWrite_def is_outage_def is_defect_def Let_def
      split: policy_event.splits prod.splits bool.splits if_splits option.splits)

text \<open>While no \<open>ready\<close> comes, the time of the last line of an outage only moves on.\<close>

lemma policy_writtenAt:
  assumes "ps_writtenAt s = Some t1" and "t0 \<le> t1"
    and "list_all (\<lambda>e. \<exists>err t. e = Heard err t \<and> t0 \<le> t) es"
  shows "\<exists>t2 \<ge> t0. ps_writtenAt (foldl (workerErrorPolicy has window) s es) = Some t2"
  using assms
proof (induction es arbitrary: s t1)
  case (Cons e es)
  then obtain err t where e: "e = Heard err t" "t0 \<le> t" by auto
  have "\<exists>t' \<ge> t0. ps_writtenAt (workerErrorPolicy has window s e) = Some t'"
    using Cons.prems(1,2) e
    by (auto simp: workerErrorPolicy_def shouldWrite_def Let_def split: prod.splits bool.splits if_splits)
  with Cons.IH Cons.prems(3) show ?case by auto
qed auto

text \<open>Whether hearing this error at this moment adds a line.\<close>

definition worker_writes :: "(heard \<Rightarrow> bool) \<Rightarrow> rat \<Rightarrow> policy_state \<Rightarrow> heard \<Rightarrow> rat \<Rightarrow> bool" where
  "worker_writes has window s err t \<longleftrightarrow>
     ps_lines (workerErrorPolicy has (Some window) s (Heard err t)) = (err, t) # ps_lines s"

lemma worker_writes_iff:
  "worker_writes has window s err t \<longleftrightarrow> fst (shouldWrite has (Some window) (ps_writtenAt s) err t)"
  by (auto simp: worker_writes_def workerErrorPolicy_def split: prod.splits bool.splits)

section \<open>Properties\<close>

text \<open>
  The lines of a worker: a defect of it is always written; an error of the shared client
  or a refusal of the credentials never is; and once an outage was written, no further outage
  is written inside the window while the worker has not said \<open>ready\<close> - whatever else it hears.
\<close>

theorem worker_lines:
  "(is_defect has err \<longrightarrow> worker_writes has window s err t) \<and>
    (has err \<or> authFailure (h_error err) \<longrightarrow> \<not> worker_writes has window s err t) \<and>
    (is_outage has err \<and> is_outage has err' \<and> worker_writes has window s err t \<and>
     list_all (\<lambda>e. \<exists>err t''. e = Heard err t'' \<and> t \<le> t'') es \<and> t' - t < window \<longrightarrow>
     \<not> worker_writes has window (foldl (workerErrorPolicy has (Some window)) (workerErrorPolicy has (Some window) s (Heard err t)) es) err' t')"
proof (intro conjI impI)
  assume "is_defect has err"
  then show "worker_writes has window s err t"
    by (simp add: worker_writes_iff workerErrorPolicy_def shouldWrite_def is_defect_def)
next
  assume "has err \<or> authFailure (h_error err)"
  then show "\<not> worker_writes has window s err t" by (simp add: worker_writes_iff workerErrorPolicy_def shouldWrite_def)
next
  let ?s = "workerErrorPolicy has (Some window) s (Heard err t)"
  assume a: "is_outage has err \<and> is_outage has err' \<and> worker_writes has window s err t \<and>
     list_all (\<lambda>e. \<exists>err t''. e = Heard err t'' \<and> t \<le> t'') es \<and> t' - t < window"
  then have "ps_writtenAt ?s = Some t"
    by (auto simp: worker_writes_iff workerErrorPolicy_def shouldWrite_def is_outage_def Let_def
        split: option.splits if_splits)
  with a policy_writtenAt [of ?s t t es has "Some window"] obtain t1 where "t1 \<ge> t"
    "ps_writtenAt (foldl (workerErrorPolicy has (Some window)) ?s es) = Some t1" by blast
  with a show "\<not> worker_writes has window (foldl (workerErrorPolicy has (Some window)) ?s es) err' t'"
    by (auto simp: worker_writes_iff workerErrorPolicy_def shouldWrite_def is_outage_def Let_def split: if_splits)
qed

definition refused_socket :: heard where
  "refused_socket = \<lparr>h_object = Some 1, h_error = JsError ErrorC ''Error'' ''connect'' (CodeString ''ECONNREFUSED'')
      None None None None []\<rparr>"

theorem worker_lines_witness:
  "worker_writes (\<lambda>_. False) 60 policy_start refused_socket 0 \<and>
   \<not> worker_writes (\<lambda>_. False) 60
      (foldl (workerErrorPolicy (\<lambda>_. False) (Some 60))
         (workerErrorPolicy (\<lambda>_. False) (Some 60) policy_start (Heard refused_socket 0))
         [Heard refused_socket 10]) refused_socket 59"
proof -
  have out: "is_outage (\<lambda>_. False) refused_socket"
    by (simp add: is_outage_def refused_socket_def connectionFailure_def authFailure_def errorCode_def
        SOCKET_FAILURE_CODES_def)
  have first: "worker_writes (\<lambda>_. False) 60 policy_start refused_socket 0"
    using out by (simp add: worker_writes_iff shouldWrite_def policy_start_def is_outage_def)
  show ?thesis
    using worker_lines [of "\<lambda>_. False" refused_socket 60 policy_start 0 refused_socket "[Heard refused_socket 10]" 59]
      out first by simp
qed

end
