(* ===== verification/Redis_Clients.thy ===== *)
theory Redis_Clients
  imports Connection_Failure
begin

text \<open>
  The three connection policies, the report of an outage at a level that fades, and the close of
  a client (\<open>packages/runtime/src/redis.ts\<close>).  A client of ioredis is a parameter: its options are
  the value the code builds, its commands the operations of \<open>closable_redis\<close>.
\<close>

section \<open>Connection policies\<close>

definition QUEUE_MAX_RECONNECT_DELAY_MS :: nat where "QUEUE_MAX_RECONNECT_DELAY_MS = 5000"
definition QUEUE_CONNECT_TIMEOUT_MS :: nat where "QUEUE_CONNECT_TIMEOUT_MS = 5000"
definition REQUEST_MAX_RECONNECT_DELAY_MS :: nat where "REQUEST_MAX_RECONNECT_DELAY_MS = 2000"
definition REQUEST_CONNECT_TIMEOUT_MS :: nat where "REQUEST_CONNECT_TIMEOUT_MS = 1000"
definition WARN_UNTIL_OCCURRENCE :: nat where "WARN_UNTIL_OCCURRENCE = 5"

text \<open>
  The options of a client; \<open>None\<close> is \<open>null\<close> for the retry limit, and an option left to the default
  of ioredis is not set.  A retry strategy answers the delay before an attempt, or none at all.
\<close>

record redis_options =
  ro_url :: string
  ro_connectTimeout :: nat
  ro_maxRetriesPerRequest :: "nat option"
  ro_enableOfflineQueue :: "bool option"
  ro_commandTimeout :: "nat option"
  ro_retryStrategy :: "nat \<Rightarrow> nat option"
  ro_reportsHealth :: bool

definition createQueueRedis :: "string \<Rightarrow> bool \<Rightarrow> redis_options" where
  "createQueueRedis url has_log =
     \<lparr>ro_url = url, ro_connectTimeout = QUEUE_CONNECT_TIMEOUT_MS, ro_maxRetriesPerRequest = None,
      ro_enableOfflineQueue = Some True, ro_commandTimeout = None,
      ro_retryStrategy = (\<lambda>attempt. Some (min (attempt * 200) QUEUE_MAX_RECONNECT_DELAY_MS)),
      ro_reportsHealth = has_log\<rparr>"

definition createRequestRedis :: "string \<Rightarrow> nat \<Rightarrow> bool \<Rightarrow> redis_options" where
  "createRequestRedis url commandTimeoutMs has_log =
     \<lparr>ro_url = url, ro_connectTimeout = REQUEST_CONNECT_TIMEOUT_MS, ro_maxRetriesPerRequest = Some 1,
      ro_enableOfflineQueue = Some False, ro_commandTimeout = Some commandTimeoutMs,
      ro_retryStrategy = (\<lambda>attempt. Some (min (attempt * 200) REQUEST_MAX_RECONNECT_DELAY_MS)),
      ro_reportsHealth = has_log\<rparr>"

definition createProbeRedis :: "string \<Rightarrow> nat \<Rightarrow> redis_options" where
  "createProbeRedis url connectTimeoutMs =
     \<lparr>ro_url = url, ro_connectTimeout = connectTimeoutMs, ro_maxRetriesPerRequest = Some 1,
      ro_enableOfflineQueue = None, ro_commandTimeout = None, ro_retryStrategy = (\<lambda>attempt. None),
      ro_reportsHealth = False\<rparr>"

section \<open>Health\<close>

definition redisErrorLevel :: "nat \<Rightarrow> log_level" where
  "redisErrorLevel occurrence =
     (if occurrence \<le> 1 then ErrorLevel
      else if occurrence \<le> WARN_UNTIL_OCCURRENCE then Warn else Debug)"

record redis_health =
  rh_occurrence :: nat
  rh_log :: "log_line list"

datatype client_event = ClientError thrown | ClientReady

definition reporter_report :: "thrown \<Rightarrow> redis_health \<Rightarrow> redis_health" where
  "reporter_report err s =
     (let occurrence = rh_occurrence s + 1
      in s\<lparr>rh_occurrence := occurrence,
           rh_log := rh_log s @
             [\<lparr>ll_level = redisErrorLevel occurrence,
               ll_fields = [(''err'', LErr err), (''occurrence'', LVal (Num (Fin (of_nat occurrence))))],
               ll_message = ''redis client error''\<rparr>]\<rparr>)"

definition reporter_reset :: "redis_health \<Rightarrow> redis_health" where
  "reporter_reset s = s\<lparr>rh_occurrence := 0\<rparr>"

definition createRedisHealthListeners :: "redis_health \<Rightarrow> client_event \<Rightarrow> redis_health" where
  "createRedisHealthListeners s e =
     (case e of
        ClientError err \<Rightarrow> reporter_report err s
      | ClientReady \<Rightarrow>
          (reporter_reset s)\<lparr>rh_log := rh_log s @
             [\<lparr>ll_level = Info, ll_fields = [], ll_message = ''redis connection ready''\<rparr>]\<rparr>)"

text \<open>Without a logger the listener only keeps the failure from ending the process.\<close>

definition withListeners :: "bool \<Rightarrow> redis_health \<Rightarrow> client_event \<Rightarrow> redis_health" where
  "withListeners has_log s e = (if has_log then createRedisHealthListeners s e else s)"

definition health_start :: redis_health where
  "health_start = \<lparr>rh_occurrence = 0, rh_log = []\<rparr>"

section \<open>Closing a client\<close>

record 'w closable_redis =
  cr_status :: "'w \<Rightarrow> string"
  cr_quit :: "('w, thrown, unit) io"
  cr_disconnect :: "'w \<Rightarrow> 'w"

datatype redis_close_outcome = Quit | Disconnected "thrown option"

definition closeRedis :: "'w closable_redis \<Rightarrow> ('w, thrown, redis_close_outcome) io" where
  "closeRedis client w =
     (if cr_status client w \<noteq> ''ready'' then (Inr (Disconnected None), cr_disconnect client w)
      else (case cr_quit client w of
              (Inr _, w') \<Rightarrow> (Inr Quit, w')
            | (Inl err, w') \<Rightarrow> (Inr (Disconnected (Some err)), cr_disconnect client w')))"

section \<open>Lemmas\<close>

lemma closeRedis_no_error: "\<exists>out w'. closeRedis client w = (Inr out, w')"
  by (auto simp: closeRedis_def split: prod.splits sum.splits)

text \<open>How many failures the client reported since it was last ready.\<close>

fun since_ready :: "client_event list \<Rightarrow> nat" where
  "since_ready es = length (takeWhile (\<lambda>e. e \<noteq> ClientReady) (rev es))"

declare since_ready.simps [simp del]

lemma since_ready_simps [simp]:
  "since_ready [] = 0"
  "since_ready (es @ [ClientReady]) = 0"
  "since_ready (es @ [ClientError e]) = Suc (since_ready es)"
  by (simp_all add: since_ready.simps)

lemma occurrence_counts:
  "rh_occurrence (foldl createRedisHealthListeners health_start es) = since_ready es"
  by (induction es rule: rev_induct)
    (auto simp: health_start_def createRedisHealthListeners_def reporter_report_def reporter_reset_def Let_def
      split: client_event.splits)

lemma log_start [simp]: "rh_log health_start = []"
  by (simp add: health_start_def)

lemma log_last:
  "rh_log (foldl createRedisHealthListeners health_start (es @ [e])) =
     rh_log (foldl createRedisHealthListeners health_start es) @
     (case e of
        ClientError err \<Rightarrow>
          [\<lparr>ll_level = redisErrorLevel (Suc (since_ready es)),
            ll_fields = [(''err'', LErr err), (''occurrence'', LVal (Num (Fin (of_nat (Suc (since_ready es))))))],
            ll_message = ''redis client error''\<rparr>]
      | ClientReady \<Rightarrow> [\<lparr>ll_level = Info, ll_fields = [], ll_message = ''redis connection ready''\<rparr>])"
  by (auto simp: createRedisHealthListeners_def reporter_report_def reporter_reset_def Let_def
      occurrence_counts split: client_event.splits)

section \<open>Properties\<close>

text \<open>
  One outage is one \<open>error\<close> line, then four \<open>warn\<close> lines, then \<open>debug\<close>: whatever came
  before, the line of a failure is at the level of its number since the client was last ready,
  every failure has its line, and the client coming back is reported once and makes the next
  failure an \<open>error\<close> again.
\<close>

theorem outage_levels_fade:
  "let lines = rh_log (foldl createRedisHealthListeners health_start (es @ [e])) in
     length lines = Suc (length es) \<and>
     (case e of
        ClientError err \<Rightarrow>
          ll_level (last lines) =
            (if since_ready es = 0 then ErrorLevel else if since_ready es \<le> 4 then Warn else Debug) \<and>
          ll_fields (last lines) =
            [(''err'', LErr err), (''occurrence'', LVal (Num (Fin (of_nat (Suc (since_ready es))))))]
      | ClientReady \<Rightarrow> ll_level (last lines) = Info \<and>
          ll_level (last (rh_log (foldl createRedisHealthListeners health_start (es @ [e, ClientError err'])))) = ErrorLevel)"
proof -
  have len: "length (rh_log (foldl createRedisHealthListeners health_start xs)) = length xs" for xs
    by (induction xs rule: rev_induct)
      (simp_all add: log_last del: foldl_append split: client_event.splits)
  have two: "es @ [e, ClientError err'] = (es @ [e]) @ [ClientError err']" by simp
  show ?thesis
    unfolding two log_last Let_def
    by (cases e) (simp_all add: len redisErrorLevel_def WARN_UNTIL_OCCURRENCE_def)
qed

end
