(* ===== verification/Shutdown.thy ===== *)
theory Shutdown
  imports Redis_Clients "HOL-Library.Multiset"
begin

text \<open>
  The stop of a process (\<open>packages/runtime/src/shutdown.ts\<close>, \<open>redis-stage.ts\<close>): a machine over the
  events that reach it - requests for the stop, the window timer, closes that settle, the
  deadline, and the flush of the log.  Events come in any order; an event that cannot happen in a
  state (a close that was not begun, a timer that is not armed) changes nothing.
\<close>

section \<open>Stages and plans\<close>

text \<open>
  What a close settles with: \<open>NOT_OPENED\<close>, a \<open>CloseWarning\<close>, any other value, or a rejection.
\<close>

datatype close_answer =
    NOT_OPENED
  | CloseWarning string "thrown option"
  | ClosedOther
  | CloseRejected thrown

datatype shutdown_step = Stage string | Parallel "string list list"

definition isParallel :: "shutdown_step \<Rightarrow> bool" where
  "isParallel s = (case s of Parallel _ \<Rightarrow> True | Stage _ \<Rightarrow> False)"

text \<open>A step as the sequences that run side by side; one stage is one sequence of one stage.\<close>

definition sequences :: "shutdown_step \<Rightarrow> string list list" where
  "sequences s = (case s of Parallel ss \<Rightarrow> ss | Stage n \<Rightarrow> [[n]])"

datatype repeated_sigint =
    LogOnly
  | ForceExit (ri_hint: string) (ri_forced: string) (ri_failed_hint: string) (ri_failed_forced: string)

record shutdown_options =
  so_plan :: "shutdown_step list"
  so_startedMessage :: string
  so_repeatedSigint :: repeated_sigint
  so_timeoutMs :: nat

text \<open>\<open>stageOf\<close>: the target is read when the stop runs; no target is \<open>NOT_OPENED\<close>.\<close>

definition stageOf ::
  "('w \<Rightarrow> 'a option) \<Rightarrow> ('a \<Rightarrow> ('w, thrown, close_answer) io) \<Rightarrow> ('w, thrown, close_answer) io" where
  "stageOf target close w =
     (case target w of None \<Rightarrow> (Inr NOT_OPENED, w) | Some opened \<Rightarrow> close opened w)"

definition redisStage :: "('w \<Rightarrow> 'w closable_redis option) \<Rightarrow> ('w, thrown, close_answer) io" where
  "redisStage client = stageOf client (\<lambda>opened. io_bind (closeRedis opened) (\<lambda>outcome.
     io_return (case outcome of
        Quit \<Rightarrow> ClosedOther
      | Disconnected None \<Rightarrow> CloseWarning ''closed by disconnect'' None
      | Disconnected (Some err) \<Rightarrow> CloseWarning ''closed by disconnect'' (Some err))))"

section \<open>The handler\<close>

datatype verdict = Pending | PlanDone | TimedOut

text \<open>
  The variables of the closure, where the plan stands, and what the handler did: \<open>sd_current\<close> are
  the sequences of the step being closed, \<open>sd_rest\<close> the steps after it; \<open>sd_flushing\<close> is the code
  an exit waits to leave with, \<open>sd_exits\<close> the calls of \<open>exit\<close>.
\<close>

record shutdown =
  sd_started :: bool
  sd_exited :: bool
  sd_failed :: bool
  sd_startedBySignal :: bool
  sd_repeatArmed :: bool
  sd_window :: bool
  sd_hinted :: bool
  sd_signal :: string
  sd_current :: "string list list"
  sd_rest :: "shutdown_step list"
  sd_verdict :: verdict
  sd_flushing :: "nat option"
  sd_exits :: "nat list"
  sd_closed :: "string list"
  sd_log :: "log_line list"

definition shutdown_start :: shutdown where
  "shutdown_start =
     \<lparr>sd_started = False, sd_exited = False, sd_failed = False, sd_startedBySignal = False,
      sd_repeatArmed = False, sd_window = False, sd_hinted = False, sd_signal = [],
      sd_current = [], sd_rest = [], sd_verdict = Pending, sd_flushing = None, sd_exits = [],
      sd_closed = [], sd_log = []\<rparr>"

definition line :: "log_level \<Rightarrow> (string \<times> log_value) list \<Rightarrow> string \<Rightarrow> shutdown \<Rightarrow> shutdown" where
  "line level fs message s =
     s\<lparr>sd_log := sd_log s @ [\<lparr>ll_level = level, ll_fields = fs, ll_message = message\<rparr>]\<rparr>"

definition signal_field :: "string \<Rightarrow> string \<times> log_value" where
  "signal_field signal = (''signal'', LVal (Str signal))"

definition failed_field :: "bool \<Rightarrow> string \<times> log_value" where
  "failed_field b = (''failed'', LVal (Bool b))"

text \<open>\<open>exitOnce\<close>: the first verdict is the one the process leaves with, once the log is flushed.\<close>

definition exitOnce :: "nat \<Rightarrow> shutdown \<Rightarrow> shutdown" where
  "exitOnce code s =
     (if sd_exited s then s else s\<lparr>sd_exited := True, sd_flushing := Some code\<rparr>)"

definition armRepeatWindow :: "shutdown \<Rightarrow> shutdown" where
  "armRepeatWindow s = s\<lparr>sd_repeatArmed := False, sd_window := True\<rparr>"

text \<open>The next step that has a stage to close; a step of empty sequences is over at once.\<close>

fun next_step :: "string list list \<Rightarrow> shutdown_step list \<Rightarrow> string list list \<times> shutdown_step list" where
  "next_step cur [] = (filter (\<lambda>q. q \<noteq> []) cur, [])"
| "next_step cur (st # rest) =
     (case filter (\<lambda>q. q \<noteq> []) cur of
        [] \<Rightarrow> next_step (sequences st) rest
      | qs \<Rightarrow> (qs, st # rest))"

text \<open>The end of the plan, when it comes before the deadline: the verdict of the stop.\<close>

definition plan_over :: "shutdown \<Rightarrow> shutdown" where
  "plan_over s =
     (if sd_current s = [] \<and> sd_rest s = [] \<and> sd_verdict s = Pending then
        (let s1 = s\<lparr>sd_verdict := PlanDone\<rparr>
         in if sd_exited s1 then s1
            else exitOnce (if sd_failed s1 then 1 else 0)
                   (line Info [signal_field (sd_signal s1), failed_field (sd_failed s1)] ''shutdown complete'' s1))
      else s)"

definition advance :: "shutdown \<Rightarrow> shutdown" where
  "advance s =
     (let (cur, rest) = next_step (sd_current s) (sd_rest s)
      in plan_over (s\<lparr>sd_current := cur, sd_rest := rest\<rparr>))"

text \<open>A request for the stop: \<open>handler(signal, { failed })\<close>.\<close>

definition request_stop :: "shutdown_options \<Rightarrow> string \<Rightarrow> bool \<Rightarrow> shutdown \<Rightarrow> shutdown" where
  "request_stop opts signal failed s0 =
     (let s = (if failed then s0\<lparr>sd_failed := True\<rparr> else s0)
      in if sd_started s then
           (case so_repeatedSigint opts of
              ForceExit hint forced failedHint failedForced \<Rightarrow>
                (if signal = ''SIGINT'' then
                   (if \<not> sd_startedBySignal s \<and> \<not> sd_hinted s then
                      line Info [signal_field signal, failed_field (sd_failed s)] failedHint
                        (armRepeatWindow (s\<lparr>sd_hinted := True\<rparr>))
                    else if \<not> sd_repeatArmed s then
                      line Debug [signal_field signal] ''repeated SIGINT within the window, same keypress'' s
                    else
                      exitOnce (if sd_failed s then 1 else 130)
                        (line ErrorLevel [signal_field signal, failed_field (sd_failed s)]
                           (if sd_startedBySignal s then forced else failedForced) s))
                 else line Info [signal_field signal, failed_field (sd_failed s)] ''shutdown already in progress'' s)
            | LogOnly \<Rightarrow>
                line Info [signal_field signal, failed_field (sd_failed s)] ''shutdown already in progress'' s)
         else
           (let s1 = s\<lparr>sd_started := True, sd_signal := signal,
                       sd_startedBySignal := (signal = ''SIGINT'' \<or> signal = ''SIGTERM'')\<rparr>;
                s2 = (if so_repeatedSigint opts \<noteq> LogOnly then armRepeatWindow s1 else s1);
                s3 = line Info
                  (case so_repeatedSigint opts of
                     ForceExit hint _ _ _ \<Rightarrow>
                       (if signal = ''SIGINT'' then [signal_field signal, (''hint'', LVal (Str hint))]
                        else [signal_field signal])
                   | LogOnly \<Rightarrow> [signal_field signal])
                  (so_startedMessage opts) s2
            in advance (s3\<lparr>sd_current := [], sd_rest := so_plan opts\<rparr>)))"

text \<open>\<open>close\<close>: the line of one target; a rejection makes the stop a failed one.\<close>

definition close_line :: "string \<Rightarrow> close_answer \<Rightarrow> shutdown \<Rightarrow> shutdown" where
  "close_line name answer s =
     (let target = [signal_field (sd_signal s), (''target'', LVal (Str name))]
      in case answer of
           NOT_OPENED \<Rightarrow> line Info target ''not opened, nothing to close'' s
         | CloseWarning warning err \<Rightarrow>
             line Warn (target @ (case err of None \<Rightarrow> [] | Some e \<Rightarrow> [(''err'', LErr e)])) warning s
         | ClosedOther \<Rightarrow> line Info target ''closed'' s
         | CloseRejected err \<Rightarrow>
             line ErrorLevel (target @ [(''err'', LErr err)]) ''close failed'' (s\<lparr>sd_failed := True\<rparr>))"

text \<open>The close at the head of the \<open>i\<close>-th sequence of the current step settles.\<close>

definition stage_settles :: "nat \<Rightarrow> close_answer \<Rightarrow> shutdown \<Rightarrow> shutdown" where
  "stage_settles i answer s =
     (if i < length (sd_current s) then
        (case sd_current s ! i of
           [] \<Rightarrow> s
         | name # q \<Rightarrow>
             advance ((close_line name answer s)\<lparr>sd_current := (sd_current s)[i := q],
                        sd_closed := sd_closed s @ [name]\<rparr>))
      else s)"

definition deadline_fires :: "shutdown_options \<Rightarrow> shutdown \<Rightarrow> shutdown" where
  "deadline_fires opts s =
     (if sd_started s \<and> sd_verdict s = Pending then
        (let s1 = s\<lparr>sd_verdict := TimedOut\<rparr>
         in if sd_exited s1 then s1
            else exitOnce 1
              (line ErrorLevel [signal_field (sd_signal s1), (''timeoutMs'', LVal (Num (Fin (of_nat (so_timeoutMs opts)))))]
                 ''shutdown timed out, exiting'' s1))
      else s)"

definition flush_ends :: "shutdown \<Rightarrow> shutdown" where
  "flush_ends s =
     (case sd_flushing s of
        None \<Rightarrow> s
      | Some code \<Rightarrow> s\<lparr>sd_flushing := None, sd_exits := sd_exits s @ [code]\<rparr>)"

datatype shutdown_event =
    Request string bool
  | WindowPassed
  | Settles nat close_answer
  | DeadlineFires
  | FlushEnds

definition createShutdownHandler :: "shutdown_options \<Rightarrow> shutdown \<Rightarrow> shutdown_event \<Rightarrow> shutdown" where
  "createShutdownHandler opts s e =
     (case e of
        Request signal failed \<Rightarrow> request_stop opts signal failed s
      | WindowPassed \<Rightarrow> (if sd_window s then s\<lparr>sd_window := False, sd_repeatArmed := True\<rparr> else s)
      | Settles i answer \<Rightarrow> stage_settles i answer s
      | DeadlineFires \<Rightarrow> deadline_fires opts s
      | FlushEnds \<Rightarrow> flush_ends s)"

section \<open>Where the plan stands\<close>

definition stages_of :: "shutdown_step \<Rightarrow> string list" where
  "stages_of st = concat (sequences st)"

definition closes_step :: "shutdown_step \<Rightarrow> string list \<Rightarrow> bool" where
  "closes_step st c \<longleftrightarrow> mset c = mset (stages_of st)"

text \<open>
  The closes so far are those of the steps done, each step complete before the next began, and
  then some of the step being shut.
\<close>

definition at_plan :: "shutdown_step list \<Rightarrow> string list list \<Rightarrow> shutdown_step list \<Rightarrow> string list \<Rightarrow> bool" where
  "at_plan plan cur rest shut \<longleftrightarrow>
     (\<exists>dn cs. list_all2 closes_step dn cs \<and>
        (plan = dn @ rest \<and> concat cur = [] \<and> shut = concat cs \<or>
         (\<exists>st part. plan = dn @ st # rest \<and> shut = concat cs @ part \<and>
            mset part + mset (concat cur) = mset (stages_of st))))"

lemma concat_filter_nonempty [simp]: "concat (filter (\<lambda>q. q \<noteq> []) qs) = concat qs"
  by (induction qs) auto

lemma concat_no_stage: "filter (\<lambda>q. q \<noteq> []) qs = [] \<Longrightarrow> concat qs = []"
  by (metis concat.simps(1) concat_filter_nonempty)

lemma at_plan_filter: "at_plan plan (filter (\<lambda>q. q \<noteq> []) cur) rest shut = at_plan plan cur rest shut"
  by (simp add: at_plan_def)

lemma at_plan_done:
  assumes "at_plan plan cur rest shut" and "concat cur = []"
  shows "\<exists>dn cs. list_all2 closes_step dn cs \<and> plan = dn @ rest \<and> shut = concat cs"
proof -
  from assms(1) obtain dn cs where dn: "list_all2 closes_step dn cs"
    and "plan = dn @ rest \<and> shut = concat cs \<or>
      (\<exists>st part. plan = dn @ st # rest \<and> shut = concat cs @ part \<and> mset part = mset (stages_of st))"
    using assms(2) by (auto simp: at_plan_def)
  then show ?thesis
  proof (elim disjE exE conjE)
    fix st part
    assume "plan = dn @ st # rest" "shut = concat cs @ part" "mset part = mset (stages_of st)"
    with dn have "list_all2 closes_step (dn @ [st]) (cs @ [part]) \<and> plan = (dn @ [st]) @ rest \<and> shut = concat (cs @ [part])"
      by (simp add: list_all2_appendI closes_step_def)
    then show ?thesis by blast
  qed (use dn in blast)
qed

lemma at_plan_next:
  "at_plan plan cur rest shut \<Longrightarrow> next_step cur rest = (cur', rest') \<Longrightarrow> at_plan plan cur' rest' shut"
proof (induction cur rest rule: next_step.induct)
  case (1 cur)
  then show ?case by (auto simp: at_plan_filter)
next
  case (2 cur st rest)
  show ?case
  proof (cases "filter (\<lambda>q. q \<noteq> []) cur")
    case Nil
    then obtain dn cs where "list_all2 closes_step dn cs" "plan = dn @ st # rest" "shut = concat cs"
      using at_plan_done [OF "2.prems"(1) concat_no_stage] by blast
    then have "at_plan plan (sequences st) rest shut"
      unfolding at_plan_def by (intro exI [of _ dn] exI [of _ cs]) (simp add: stages_of_def)
    with "2.IH" "2.prems"(2) Nil show ?thesis by simp
  next
    case (Cons q qs)
    with "2.prems" have "cur' = filter (\<lambda>q. q \<noteq> []) cur" "rest' = st # rest" by auto
    with "2.prems"(1) show ?thesis by (simp add: at_plan_filter)
  qed
qed

lemma next_step_clean:
  "next_step cur rest = (cur', rest') \<Longrightarrow> [] \<notin> set cur' \<and> (cur' = [] \<longrightarrow> rest' = [])"
  by (induction cur rest rule: next_step.induct) (auto split: list.splits)

lemma mset_concat_update:
  "i < length cur \<Longrightarrow> cur ! i = n # q \<Longrightarrow> mset (concat cur) = add_mset n (mset (concat (cur[i := q])))"
  by (induction cur arbitrary: i) (auto split: nat.splits)

lemma at_plan_settle:
  assumes "at_plan plan cur rest shut" and "i < length cur" and "cur ! i = n # q"
  shows "at_plan plan (cur[i := q]) rest (shut @ [n])"
proof -
  have m: "mset (concat cur) = add_mset n (mset (concat (cur[i := q])))"
    by (rule mset_concat_update [OF assms(2,3)])
  then have "concat cur \<noteq> []" by (metis empty_not_add_mset mset_zero_iff)
  with assms(1) obtain dn cs st part where "list_all2 closes_step dn cs" "plan = dn @ st # rest"
    "shut = concat cs @ part" "mset part + mset (concat cur) = mset (stages_of st)"
    by (auto simp: at_plan_def)
  with m show ?thesis
    unfolding at_plan_def by (intro exI [of _ dn] exI [of _ cs]) auto
qed

section \<open>The invariant of the handler\<close>

definition forced_messages :: "shutdown_options \<Rightarrow> string set" where
  "forced_messages opts =
     (case so_repeatedSigint opts of LogOnly \<Rightarrow> {} | ForceExit _ forced _ failedForced \<Rightarrow> {forced, failedForced})"

text \<open>No line of a failure: every \<open>error\<close> line is one of a forced exit.\<close>

definition no_failure_line :: "shutdown_options \<Rightarrow> shutdown \<Rightarrow> bool" where
  "no_failure_line opts s \<longleftrightarrow>
     (\<forall>l \<in> set (sd_log s). ll_level l = ErrorLevel \<longrightarrow> ll_message l \<in> forced_messages opts)"

definition exit_inv :: "shutdown \<Rightarrow> bool" where
  "exit_inv s \<longleftrightarrow>
     length (sd_exits s) + (if sd_flushing s = None then 0 else 1) = (if sd_exited s then 1 else 0) \<and>
     (sd_verdict s \<noteq> Pending \<longrightarrow> sd_exited s)"

definition plan_inv :: "shutdown_options \<Rightarrow> shutdown \<Rightarrow> bool" where
  "plan_inv opts s \<longleftrightarrow>
     (if sd_started s
      then at_plan (so_plan opts) (sd_current s) (sd_rest s) (sd_closed s) \<and>
        (sd_current s = [] \<longrightarrow> sd_rest s = [] \<and> sd_verdict s \<noteq> Pending) \<and>
        (sd_verdict s = PlanDone \<longrightarrow> sd_current s = [])
      else sd_current s = [] \<and> sd_closed s = [] \<and> sd_log s = [] \<and> \<not> sd_exited s \<and> sd_verdict s = Pending)"

definition verdict_inv :: "shutdown_options \<Rightarrow> shutdown \<Rightarrow> bool" where
  "verdict_inv opts s \<longleftrightarrow>
     (\<not> sd_failed s \<and> sd_verdict s \<noteq> TimedOut \<longrightarrow> no_failure_line opts s) \<and>
     (sd_flushing s = Some 0 \<or> 0 \<in> set (sd_exits s) \<longrightarrow> sd_verdict s = PlanDone \<and> no_failure_line opts s)"

definition stop_inv :: "shutdown_options \<Rightarrow> shutdown \<Rightarrow> bool" where
  "stop_inv opts s \<longleftrightarrow> exit_inv s \<and> plan_inv opts s \<and> verdict_inv opts s"

lemmas stop_inv_defs = stop_inv_def exit_inv_def plan_inv_def verdict_inv_def

lemma line_simps [simp]:
  "sd_started (line l f m s) = sd_started s" "sd_exited (line l f m s) = sd_exited s"
  "sd_failed (line l f m s) = sd_failed s" "sd_current (line l f m s) = sd_current s"
  "sd_rest (line l f m s) = sd_rest s" "sd_verdict (line l f m s) = sd_verdict s"
  "sd_flushing (line l f m s) = sd_flushing s" "sd_exits (line l f m s) = sd_exits s"
  "sd_closed (line l f m s) = sd_closed s" "sd_signal (line l f m s) = sd_signal s"
  "sd_log (line l f m s) = sd_log s @ [\<lparr>ll_level = l, ll_fields = f, ll_message = m\<rparr>]"
  by (simp_all add: line_def)

lemma no_failure_line_line [simp]:
  "no_failure_line opts (line l f m s) \<longleftrightarrow>
     no_failure_line opts s \<and> (l = ErrorLevel \<longrightarrow> m \<in> forced_messages opts)"
  by (auto simp: no_failure_line_def)

lemma no_failure_line_upd [simp]:
  "no_failure_line opts (s\<lparr>sd_flushing := a\<rparr>) = no_failure_line opts s"
  "no_failure_line opts (s\<lparr>sd_exited := b\<rparr>) = no_failure_line opts s"
  "no_failure_line opts (s\<lparr>sd_exits := c\<rparr>) = no_failure_line opts s"
  "no_failure_line opts (s\<lparr>sd_verdict := v\<rparr>) = no_failure_line opts s"
  "no_failure_line opts (s\<lparr>sd_current := d\<rparr>) = no_failure_line opts s"
  "no_failure_line opts (s\<lparr>sd_rest := e\<rparr>) = no_failure_line opts s"
  "no_failure_line opts (s\<lparr>sd_closed := f\<rparr>) = no_failure_line opts s"
  "no_failure_line opts (s\<lparr>sd_failed := g\<rparr>) = no_failure_line opts s"
  "no_failure_line opts (s\<lparr>sd_window := h\<rparr>) = no_failure_line opts s"
  "no_failure_line opts (s\<lparr>sd_repeatArmed := h\<rparr>) = no_failure_line opts s"
  "no_failure_line opts (s\<lparr>sd_hinted := h\<rparr>) = no_failure_line opts s"
  "no_failure_line opts (s\<lparr>sd_started := h\<rparr>) = no_failure_line opts s"
  "no_failure_line opts (s\<lparr>sd_signal := sg\<rparr>) = no_failure_line opts s"
  "no_failure_line opts (s\<lparr>sd_startedBySignal := h\<rparr>) = no_failure_line opts s"
  by (simp_all add: no_failure_line_def)

lemma plan_over_inv:
  assumes "exit_inv s" and "verdict_inv opts s" and "sd_started s"
    and "at_plan (so_plan opts) (sd_current s) (sd_rest s) (sd_closed s)"
    and "sd_current s = [] \<longrightarrow> sd_rest s = []" and "sd_verdict s = PlanDone \<longrightarrow> sd_current s = []"
  shows "stop_inv opts (plan_over s)"
  using assms
  by (auto simp: plan_over_def Let_def exitOnce_def stop_inv_defs)

lemma advance_inv:
  assumes "exit_inv s" and "verdict_inv opts s" and "sd_started s"
    and "at_plan (so_plan opts) (sd_current s) (sd_rest s) (sd_closed s)"
    and "sd_verdict s \<noteq> PlanDone"
  shows "stop_inv opts (advance s)"
proof -
  obtain cur rest where nxt: "next_step (sd_current s) (sd_rest s) = (cur, rest)" by fastforce
  show ?thesis
    unfolding advance_def nxt Let_def prod.case
    by (rule plan_over_inv)
      (use assms nxt next_step_clean [OF nxt] at_plan_next [OF assms(4) nxt] in
        \<open>simp_all add: exit_inv_def verdict_inv_def\<close>)
qed

lemma started_updates:
  assumes "stop_inv opts s"
  shows "stop_inv opts (s\<lparr>sd_failed := True\<rparr>)" "stop_inv opts (s\<lparr>sd_hinted := b\<rparr>)"
    "stop_inv opts (armRepeatWindow s)" "stop_inv opts (s\<lparr>sd_window := b, sd_repeatArmed := c\<rparr>)"
  using assms by (simp_all add: stop_inv_defs armRepeatWindow_def)

lemma line_inv:
  "stop_inv opts s \<Longrightarrow> sd_started s \<Longrightarrow> (l = ErrorLevel \<longrightarrow> m \<in> forced_messages opts) \<Longrightarrow>
     stop_inv opts (line l f m s)"
  by (auto simp: stop_inv_defs)

lemma exitOnce_inv: "stop_inv opts s \<Longrightarrow> sd_started s \<Longrightarrow> code \<noteq> 0 \<Longrightarrow> stop_inv opts (exitOnce code s)"
  by (auto simp: stop_inv_defs exitOnce_def)

lemma repeated_inv:
  assumes "stop_inv opts s" and "sd_started s"
  shows "stop_inv opts (request_stop opts signal failed s)"
proof -
  define t where "t = (if failed then s\<lparr>sd_failed := True\<rparr> else s)"
  have t: "stop_inv opts t" "sd_started t"
    using assms by (simp_all add: t_def started_updates)
  have arm: "sd_started (armRepeatWindow u) = sd_started u" for u by (simp add: armRepeatWindow_def)
  show ?thesis
  proof (cases "so_repeatedSigint opts")
    case LogOnly
    with t show ?thesis by (simp add: request_stop_def t_def [symmetric] Let_def line_inv)
  next
    case (ForceExit hint forced failedHint failedForced)
    have "forced \<in> forced_messages opts" "failedForced \<in> forced_messages opts"
      by (simp_all add: forced_messages_def ForceExit)
    with t ForceExit show ?thesis
      by (simp add: request_stop_def t_def [symmetric] Let_def line_inv exitOnce_inv started_updates arm)
  qed
qed

lemma request_inv:
  assumes "stop_inv opts s"
  shows "stop_inv opts (request_stop opts signal failed s)"
proof (cases "sd_started s")
  case True
  with assms show ?thesis by (rule repeated_inv)
next
  case False
  let ?s = "request_stop opts signal failed s"
  have "at_plan (so_plan opts) [] (so_plan opts) []"
    by (auto simp: at_plan_def intro!: exI [of _ "[]"])
  with False assms show ?thesis
    unfolding request_stop_def Let_def
    by (simp, intro advance_inv conjI impI)
      (auto simp: stop_inv_defs armRepeatWindow_def no_failure_line_def line_def)
qed

lemma settles_inv:
  assumes "stop_inv opts s"
  shows "stop_inv opts (stage_settles i answer s)"
proof (cases "i < length (sd_current s) \<and> sd_current s ! i \<noteq> []")
  case True
  then obtain n q where q: "sd_current s ! i = n # q" and i: "i < length (sd_current s)"
    by (cases "sd_current s ! i") auto
  from i assms have started: "sd_started s" and verdict: "sd_verdict s \<noteq> PlanDone"
    by (auto simp: stop_inv_defs split: if_splits)
  with assms have plan: "at_plan (so_plan opts) (sd_current s) (sd_rest s) (sd_closed s)"
    by (simp add: stop_inv_defs)
  show ?thesis
    unfolding stage_settles_def using i q
    by (simp, intro advance_inv)
      (use assms started verdict at_plan_settle [OF plan i q] in
        \<open>auto simp: close_line_def stop_inv_defs Let_def split: close_answer.splits if_splits\<close>)
next
  case False
  with assms show ?thesis by (auto simp: stage_settles_def split: list.splits)
qed

interpretation stop: event_machine "createShutdownHandler opts" "stop_inv opts" for opts
proof unfold_locales
  fix s e assume inv: "stop_inv opts s"
  show "stop_inv opts (createShutdownHandler opts s e)"
  proof (cases e)
    case DeadlineFires
    show ?thesis
    proof (cases "sd_started s \<and> sd_verdict s = Pending")
      case True
      with inv DeadlineFires show ?thesis
        by (auto simp: createShutdownHandler_def deadline_fires_def stop_inv_defs exitOnce_def Let_def)
    qed (use inv DeadlineFires in \<open>auto simp: createShutdownHandler_def deadline_fires_def\<close>)
  next
    case FlushEnds
    with inv show ?thesis
      by (auto simp: createShutdownHandler_def flush_ends_def stop_inv_defs split: option.splits if_splits)
  next
    case WindowPassed
    with inv show ?thesis by (simp add: createShutdownHandler_def started_updates)
  qed (use inv in \<open>simp_all add: createShutdownHandler_def request_inv settles_inv\<close>)
qed

lemma start_inv: "stop_inv opts shutdown_start"
  by (simp add: stop_inv_defs shutdown_start_def no_failure_line_def)

lemma list_all2_closes_mset:
  "list_all2 closes_step dn cs \<Longrightarrow> mset (concat cs) = mset (concat (map stages_of dn))"
  by (induction rule: list_all2_induct) (simp_all add: closes_step_def)

lemma at_plan_order:
  assumes "at_plan plan cur rest shut"
  shows "\<exists>cs part dn rest'. shut = concat cs @ part \<and> list_all2 closes_step dn cs \<and>
      plan = dn @ rest' \<and> (part \<noteq> [] \<longrightarrow> rest' \<noteq> [] \<and> mset part \<subseteq># mset (stages_of (hd rest')))"
proof -
  from assms obtain dn cs where dn: "list_all2 closes_step dn cs"
    and "plan = dn @ rest \<and> shut = concat cs \<or>
      (\<exists>st part. plan = dn @ st # rest \<and> shut = concat cs @ part \<and>
         mset part + mset (concat cur) = mset (stages_of st))"
    by (auto simp: at_plan_def)
  then show ?thesis
  proof (elim disjE exE conjE)
    assume "plan = dn @ rest" "shut = concat cs"
    with dn show ?thesis
      by (rule_tac exI [of _ cs], rule_tac exI [of _ "[]"], rule_tac exI [of _ dn], rule_tac exI [of _ rest]) simp
  next
    fix st part
    assume "plan = dn @ st # rest" "shut = concat cs @ part" "mset part + mset (concat cur) = mset (stages_of st)"
    with dn show ?thesis
      by (rule_tac exI [of _ cs], rule_tac exI [of _ part], rule_tac exI [of _ dn], rule_tac exI [of _ "st # rest"])
        (metis (no_types, lifting) append.assoc list.distinct(1) list.sel(1) mset_subset_eq_add_left)
  qed
qed

lemma exited_step: "sd_exited s \<Longrightarrow> sd_exited (createShutdownHandler opts s e)"
  by (cases e)
    (auto simp: createShutdownHandler_def request_stop_def stage_settles_def deadline_fires_def flush_ends_def
      exitOnce_def armRepeatWindow_def advance_def plan_over_def close_line_def Let_def
      split: option.splits list.splits prod.splits close_answer.splits repeated_sigint.splits)

lemma exited_stays: "sd_exited s \<Longrightarrow> sd_exited (foldl (createShutdownHandler opts) s es)"
  by (induction es arbitrary: s) (auto intro: exited_step)

section \<open>Properties\<close>


text \<open>
  C17: a stop that was begun ends: once the deadline fires and the log is flushed, the process
  has left - whatever happened before and in between.
\<close>

theorem shutdown_always_exits:
  assumes "sd_started (foldl (createShutdownHandler opts) shutdown_start es)"
  shows "length (sd_exits (foldl (createShutdownHandler opts) shutdown_start
            (es @ DeadlineFires # es' @ [FlushEnds]))) = 1"
proof -
  define s where "s = foldl (createShutdownHandler opts) shutdown_start (es @ [DeadlineFires])"
  have inv: "stop_inv opts (foldl (createShutdownHandler opts) shutdown_start xs)" for xs
    by (rule stop.run_inv) (rule start_inv)
  have "sd_exited s"
    using assms inv [of es]
    by (auto simp: s_def createShutdownHandler_def deadline_fires_def stop_inv_defs exitOnce_def Let_def)
  then have ex: "sd_exited (foldl (createShutdownHandler opts) s es')" by (rule exited_stays)
  define t where "t = foldl (createShutdownHandler opts) s es'"
  have "stop_inv opts t" using inv [of "es @ DeadlineFires # es'"] by (simp add: t_def s_def)
  with ex [folded t_def] have "length (sd_exits (createShutdownHandler opts t FlushEnds)) = 1"
    by (auto simp: createShutdownHandler_def flush_ends_def stop_inv_defs split: option.splits)
  then show ?thesis by (simp add: t_def s_def)
qed

definition sample_stop :: shutdown_options where
  "sample_stop =
     \<lparr>so_plan = [Parallel [[''workers''], [''server'']], Stage ''redis''],
      so_startedMessage = ''shutting down'', so_repeatedSigint = LogOnly, so_timeoutMs = 1000\<rparr>"

theorem shutdown_always_exits_witness:
  "length (sd_exits (foldl (createShutdownHandler sample_stop) shutdown_start
     ([Request ''SIGTERM'' False] @ DeadlineFires # [Settles 0 ClosedOther] @ [FlushEnds]))) = 1"
proof -
  have "sd_started (foldl (createShutdownHandler sample_stop) shutdown_start [Request ''SIGTERM'' False])"
    by (simp add: createShutdownHandler_def request_stop_def shutdown_start_def sample_stop_def advance_def
        plan_over_def sequences_def Let_def)
  then show ?thesis by (rule shutdown_always_exits)
qed


end
