(* ===== verification/Queue_Factory.thy ===== *)
theory Queue_Factory
  imports Connection_Failure Queue_Names Deadline
begin

text \<open>
  The queues a process opens (\<open>packages/runtime/src/queues.ts\<close>): a machine over what reaches the
  factory - a name asked for, the verdict on the \<open>init()\<close> of a queue, an error a queue emits, a
  read that starts or settles, the close and what it waits for.  A \<open>Queue\<close> of BullMQ is its number;
  which name it was built for is kept beside it.
\<close>

section \<open>State\<close>

definition CLOSE_DRAIN_MS :: nat where "CLOSE_DRAIN_MS = 2000"
definition INIT_VERDICT_MS :: nat where "INIT_VERDICT_MS = 50"

datatype init_verdict = VPending | VReady | VRefused heard

datatype close_phase =
    NotClosing
  | Draining
  | ClosingQueues
  | CloseSettled "thrown option"

record queue_factory =
  qf_cache :: "(queue_name \<times> nat) list"
  qf_names :: "(nat \<times> queue_name) list"
  qf_verdicts :: "nat \<Rightarrow> init_verdict"
  qf_refusalWritten :: "queue_name list"
  qf_inFlight :: "nat list"
  qf_closed :: bool
  qf_phase :: close_phase
  qf_clientErrors :: client_errors
  qf_forgotten :: "nat list"
  qf_forgottenGivenUp :: bool
  qf_closingQueues :: "(nat \<times> (thrown option) option) list"
  qf_timers :: "(queue_name \<times> nat \<times> heard) list"
  qf_next :: nat
  qf_log :: "log_line list"

definition createQueueFactory :: queue_factory where
  "createQueueFactory =
     \<lparr>qf_cache = [], qf_names = [], qf_verdicts = (\<lambda>_. VPending), qf_refusalWritten = [], qf_inFlight = [],
      qf_closed = False, qf_phase = NotClosing, qf_clientErrors = markClientErrors, qf_forgotten = [],
      qf_forgottenGivenUp = False, qf_closingQueues = [], qf_timers = [], qf_next = 0, qf_log = []\<rparr>"

section \<open>The close of one queue\<close>

text \<open>
  \<open>FactoryQueue.close\<close>: the scheduler first, when one was built, then the queue whichever way the
  scheduler went; each settles with a refusal or without.
\<close>

definition factory_queue_close :: "string \<Rightarrow> (thrown option) option \<Rightarrow> thrown option \<Rightarrow> thrown option" where
  "factory_queue_close name scheduler super =
     (let refusals = (case scheduler of Some (Some e) \<Rightarrow> [e] | _ \<Rightarrow> []) @
                     (case super of Some e \<Rightarrow> [e] | None \<Rightarrow> [])
      in if length refusals > 1
         then Some (aggregate_error refusals
                (''queue \"'' @ name @ ''\" and its job scheduler failed to close''))
         else if length refusals = 1 then Some (hd refusals)
         else None)"

text \<open>
  The scheduler of a queue: the library sets the field \<open>_jobScheduler\<close> once its client is there, the
  getter hands the scheduler out and closes one that comes after the close has begun, and the close
  begins with the one in the field.
\<close>

record factory_queue =
  fq_closeBegun :: bool
  fq_jobScheduler :: "nat option"
  fq_closedSchedulers :: "nat list"

datatype factory_queue_event = FieldSet nat | SchedulerGiven nat | QueueClose

definition new_factory_queue :: factory_queue where
  "new_factory_queue = \<lparr>fq_closeBegun = False, fq_jobScheduler = None, fq_closedSchedulers = []\<rparr>"

definition factory_queue_step :: "factory_queue \<Rightarrow> factory_queue_event \<Rightarrow> factory_queue" where
  "factory_queue_step q e =
     (case e of
        FieldSet n \<Rightarrow> q\<lparr>fq_jobScheduler := Some n\<rparr>
      | SchedulerGiven n \<Rightarrow>
          (if fq_closeBegun q then q\<lparr>fq_closedSchedulers := fq_closedSchedulers q @ [n]\<rparr> else q)
      | QueueClose \<Rightarrow>
          q\<lparr>fq_closeBegun := True,
            fq_closedSchedulers := fq_closedSchedulers q @ (case fq_jobScheduler q of None \<Rightarrow> [] | Some n \<Rightarrow> [n])\<rparr>)"

text \<open>The order the library keeps: a scheduler is in the field before it is given, and there is one.\<close>

definition field_before_given :: "nat \<Rightarrow> factory_queue_event list \<Rightarrow> bool" where
  "field_before_given n es \<longleftrightarrow>
     (\<forall>m. FieldSet m \<in> set es \<longrightarrow> m = n) \<and>
     (\<forall>pre m post. es = pre @ SchedulerGiven m # post \<longrightarrow> m = n \<and> FieldSet n \<in> set pre)"

lemma fq_closed_grow:
  "set (fq_closedSchedulers q) \<subseteq> set (fq_closedSchedulers (foldl factory_queue_step q es))"
proof (induction es arbitrary: q)
  case (Cons e es)
  have "set (fq_closedSchedulers q) \<subseteq> set (fq_closedSchedulers (factory_queue_step q e))"
    by (auto simp: factory_queue_step_def split: factory_queue_event.splits)
  also have "\<dots> \<subseteq> set (fq_closedSchedulers (foldl factory_queue_step (factory_queue_step q e) es))" by (rule Cons.IH)
  finally show ?case unfolding foldl_Cons .
qed simp

lemma fq_begun_stays: "fq_closeBegun q \<Longrightarrow> fq_closeBegun (foldl factory_queue_step q es)"
  by (induction es arbitrary: q) (auto simp: factory_queue_step_def split: factory_queue_event.splits)

lemma fq_field_step [simp]:
  "fq_jobScheduler (factory_queue_step q e) = (case e of FieldSet n \<Rightarrow> Some n | _ \<Rightarrow> fq_jobScheduler q)"
  by (simp add: factory_queue_step_def split: factory_queue_event.splits)

lemma fq_field:
  "(\<And>m. FieldSet m \<in> set es \<Longrightarrow> m = n) \<Longrightarrow>
     fq_jobScheduler (foldl factory_queue_step q es) = (if FieldSet n \<in> set es then Some n else fq_jobScheduler q)"
proof (induction es arbitrary: q)
  case (Cons e es)
  have "fq_jobScheduler (foldl factory_queue_step (factory_queue_step q e) es) =
      (if FieldSet n \<in> set es then Some n else fq_jobScheduler (factory_queue_step q e))"
    by (rule Cons.IH) (rule Cons.prems, simp)
  moreover have "k = n" if "e = FieldSet k" for k by (rule Cons.prems) (simp add: that)
  ultimately show ?case by (cases e) simp_all
qed simp

text \<open>Once the close has begun, a scheduler that was handed out is closed, whichever came first.\<close>

lemma given_schedulers_are_closed:
  assumes order: "field_before_given n es" and close: "QueueClose \<in> set es" and given: "SchedulerGiven m \<in> set es"
  shows "m \<in> set (fq_closedSchedulers (foldl factory_queue_step new_factory_queue es))"
proof -
  obtain pre post where es: "es = pre @ SchedulerGiven m # post" using given by (meson split_list)
  then have m: "m = n" and set_before: "FieldSet n \<in> set pre" using order unfolding field_before_given_def by blast+
  have only: "k = n" if "FieldSet k \<in> set es" for k using order that unfolding field_before_given_def by blast
  show ?thesis
  proof (cases "QueueClose \<in> set pre")
    case True
    then obtain a b where pre: "pre = a @ QueueClose # b" by (meson split_list)
    have "fq_closeBegun (foldl factory_queue_step new_factory_queue pre)"
      unfolding pre foldl_append foldl_Cons by (rule fq_begun_stays) (simp add: factory_queue_step_def)
    then have "m \<in> set (fq_closedSchedulers (foldl factory_queue_step new_factory_queue (pre @ [SchedulerGiven m])))"
      by (simp add: factory_queue_step_def)
    with fq_closed_grow [of "foldl factory_queue_step new_factory_queue (pre @ [SchedulerGiven m])" post] show ?thesis
      unfolding es by auto
  next
    case False
    with close es obtain a b where post: "post = a @ QueueClose # b" by (auto dest: split_list)
    have "FieldSet k \<in> set (pre @ SchedulerGiven m # a) \<Longrightarrow> k = n" for k by (rule only) (auto simp: es post)
    then have "fq_jobScheduler (foldl factory_queue_step new_factory_queue (pre @ SchedulerGiven m # a)) =
        (if FieldSet n \<in> set (pre @ SchedulerGiven m # a) then Some n else fq_jobScheduler new_factory_queue)"
      by (rule fq_field)
    then have "fq_jobScheduler (foldl factory_queue_step new_factory_queue (pre @ SchedulerGiven m # a)) = Some n"
      using set_before by simp
    then have "n \<in> set (fq_closedSchedulers (foldl factory_queue_step new_factory_queue (pre @ SchedulerGiven m # a @ [QueueClose])))"
      by (simp add: factory_queue_step_def)
    with fq_closed_grow [of "foldl factory_queue_step new_factory_queue (pre @ SchedulerGiven m # a @ [QueueClose])" b] show ?thesis
      unfolding es post m by auto
  qed
qed

section \<open>Getting a queue\<close>

definition factory_log :: "queue_name \<Rightarrow> heard \<Rightarrow> string \<Rightarrow> queue_factory \<Rightarrow> queue_factory" where
  "factory_log name err message f =
     f\<lparr>qf_log := qf_log f @ [\<lparr>ll_level = ErrorLevel,
        ll_fields = [(''queue'', LVal (Str name)), (''err'', LErr (h_error err))], ll_message = message\<rparr>]\<rparr>"

text \<open>The options a queue is opened with: a reader neither writes its metas nor waits for the client.\<close>

definition queue_options :: "bool \<Rightarrow> json \<Rightarrow> json" where
  "queue_options readOnly defaultJobOptions =
     Obj (if readOnly then [(''skipMetasUpdate'', Bool True), (''skipWaitingForReady'', Bool True)]
          else [(''defaultJobOptions'', defaultJobOptions)])"

definition factory_get :: "queue_name \<Rightarrow> queue_factory \<Rightarrow> (thrown + nat) \<times> queue_factory" where
  "factory_get name f =
     (if qf_closed f
      then (Inl (plain_error (''queue \"'' @ name @ ''\" requested after the queue factory was closed'')), f)
      else case map_of (qf_cache f) name of
             Some q \<Rightarrow> (Inr q, f)
           | None \<Rightarrow>
               (if \<not> isQueueName name
                then (Inl (plain_error (''unknown queue \"'' @ name @ ''\": not in QUEUE_NAMES'')), f)
                else
                  (let q = qf_next f
                   in (Inr q, f\<lparr>qf_next := Suc q,
                                qf_names := (q, name) # qf_names f,
                                qf_cache := qf_cache f @ [(name, q)],
                                qf_verdicts := (qf_verdicts f)(q := VPending)\<rparr>))))"

section \<open>Verdicts and errors\<close>

definition forget :: "queue_name \<Rightarrow> nat \<Rightarrow> queue_factory \<Rightarrow> queue_factory" where
  "forget name q f =
     (if map_of (qf_cache f) name \<noteq> Some q then f
      else f\<lparr>qf_cache := filter (\<lambda>(n, _). n \<noteq> name) (qf_cache f),
             qf_forgotten := qf_forgotten f @ [q]\<rparr>)"

definition init_ready :: "nat \<Rightarrow> queue_factory \<Rightarrow> queue_factory" where
  "init_ready q f = f\<lparr>qf_verdicts := (qf_verdicts f)(q := VReady)\<rparr>"

definition init_refused :: "bool \<Rightarrow> queue_name \<Rightarrow> nat \<Rightarrow> heard \<Rightarrow> queue_factory \<Rightarrow> queue_factory" where
  "init_refused readOnly name q reason f0 =
     (let f = f0\<lparr>qf_verdicts := (qf_verdicts f0)(q := VRefused reason)\<rparr>;
          f1 = (if \<not> readOnly \<and> \<not> qf_closed f \<and> map_of (qf_cache f) name = Some q \<and>
                   connectionFailure (h_error reason) = None \<and> \<not> authFailure (h_error reason) \<and>
                   \<not> List.member (qf_refusalWritten f) name
                then factory_log name reason ''queue init refused''
                       (f\<lparr>qf_refusalWritten := name # qf_refusalWritten f\<rparr>)
                else f)
      in forget name q f1)"

text \<open>\<open>awaitVerdict\<close>: the verdict is taken once, by the handler put there when the queue was built.\<close>

definition awaitVerdict :: "bool \<Rightarrow> nat \<Rightarrow> heard option \<Rightarrow> queue_factory \<Rightarrow> queue_factory" where
  "awaitVerdict readOnly q refusal f =
     (case map_of (qf_names f) q of
        None \<Rightarrow> f
      | Some name \<Rightarrow>
          (if qf_verdicts f q \<noteq> VPending then f
           else case refusal of
                  None \<Rightarrow> init_ready q f
                | Some reason \<Rightarrow> init_refused readOnly name q reason f))"

definition same_object :: "heard \<Rightarrow> heard \<Rightarrow> bool" where
  "same_object a b \<longleftrightarrow> h_object a \<noteq> None \<and> h_object a = h_object b"

definition writeQueueError :: "queue_name \<Rightarrow> nat \<Rightarrow> heard \<Rightarrow> queue_factory \<Rightarrow> queue_factory" where
  "writeQueueError name q err f =
     (if qf_closed f then f
      else (case qf_verdicts f q of
              VRefused reason \<Rightarrow> (if same_object reason err then f else factory_log name err ''queue error'' f)
            | _ \<Rightarrow> factory_log name err ''queue error'' f))"

text \<open>The \<open>error\<close> listener of a queue; a verdict still pending is read again after a moment.\<close>

definition queue_error :: "nat \<Rightarrow> heard \<Rightarrow> queue_factory \<Rightarrow> queue_factory" where
  "queue_error q err f =
     (case map_of (qf_names f) q of
        None \<Rightarrow> f
      | Some name \<Rightarrow>
          (if writtenByClient (qf_clientErrors f) err then f
           else if qf_verdicts f q \<noteq> VPending then writeQueueError name q err f
           else f\<lparr>qf_timers := qf_timers f @ [(name, q, err)]\<rparr>))"

definition verdict_timer :: "queue_factory \<Rightarrow> queue_factory" where
  "verdict_timer f =
     (case qf_timers f of
        [] \<Rightarrow> f
      | (name, q, err) # ts \<Rightarrow> writeQueueError name q err (f\<lparr>qf_timers := ts\<rparr>))"

section \<open>Reads and the close\<close>

definition factory_use :: "queue_name \<Rightarrow> nat \<Rightarrow> queue_factory \<Rightarrow> queue_factory" where
  "factory_use name read f =
     (case factory_get name f of
        (Inl e, f') \<Rightarrow> f'
      | (Inr q, f') \<Rightarrow> f'\<lparr>qf_inFlight := read # qf_inFlight f'\<rparr>)"

text \<open>What the close ends with, once the queues and the forgotten ones are waited for.\<close>

definition close_refusals :: "(nat \<times> (thrown option) option) list \<Rightarrow> thrown list" where
  "close_refusals qs = List.map_filter (\<lambda>(q, out). Option.bind out (\<lambda>r. r)) qs"

definition close_verdict :: "(nat \<times> (thrown option) option) list \<Rightarrow> thrown option" where
  "close_verdict qs =
     (let refusals = close_refusals qs
      in if refusals = [] then None
         else Some (aggregate_error refusals
                (show_nat (length refusals) @ '' of '' @ show_nat (length qs) @ '' queues failed to close'')))"

definition close_progress :: "queue_factory \<Rightarrow> queue_factory" where
  "close_progress f =
     (if qf_phase f = ClosingQueues \<and> list_all (\<lambda>(q, out). out \<noteq> None) (qf_closingQueues f) \<and>
         (qf_forgotten f = [] \<or> qf_forgottenGivenUp f)
      then f\<lparr>qf_phase := CloseSettled (close_verdict (qf_closingQueues f)),
             qf_clientErrors := ce_dispose (qf_clientErrors f)\<rparr>
      else f)"

definition start_closing :: "queue_factory \<Rightarrow> queue_factory" where
  "start_closing f =
     close_progress (f\<lparr>qf_phase := ClosingQueues,
       qf_closingQueues := map (\<lambda>(n, q). (q, None)) (qf_cache f), qf_cache := []\<rparr>)"

definition factory_close :: "queue_factory \<Rightarrow> queue_factory" where
  "factory_close f =
     (if qf_phase f \<noteq> NotClosing then f
      else if qf_inFlight f = [] then start_closing (f\<lparr>qf_closed := True\<rparr>)
      else f\<lparr>qf_closed := True, qf_phase := Draining\<rparr>)"

definition read_settles :: "nat \<Rightarrow> queue_factory \<Rightarrow> queue_factory" where
  "read_settles read f =
     (let f' = f\<lparr>qf_inFlight := filter (\<lambda>r. r \<noteq> read) (qf_inFlight f)\<rparr>
      in if qf_phase f' = Draining \<and> qf_inFlight f' = [] then start_closing f' else f')"

definition drain_timer :: "queue_factory \<Rightarrow> queue_factory" where
  "drain_timer f = (if qf_phase f = Draining then start_closing f else f)"

definition queue_closes :: "nat \<Rightarrow> thrown option \<Rightarrow> queue_factory \<Rightarrow> queue_factory" where
  "queue_closes q outcome f =
     close_progress (f\<lparr>qf_closingQueues :=
       map (\<lambda>(q', out). (q', if q' = q \<and> out = None then Some outcome else out)) (qf_closingQueues f)\<rparr>)"

definition forgotten_closes :: "nat \<Rightarrow> queue_factory \<Rightarrow> queue_factory" where
  "forgotten_closes q f = close_progress (f\<lparr>qf_forgotten := filter (\<lambda>q'. q' \<noteq> q) (qf_forgotten f)\<rparr>)"

definition forgotten_timer :: "queue_factory \<Rightarrow> queue_factory" where
  "forgotten_timer f =
     (if qf_phase f = ClosingQueues then close_progress (f\<lparr>qf_forgottenGivenUp := True\<rparr>) else f)"

datatype factory_event =
    Get queue_name
  | Verdict nat "heard option"
  | ClientEmits heard
  | QueueEmits nat heard
  | VerdictTimer
  | Use queue_name nat
  | ReadSettles nat
  | Close
  | DrainTimer
  | QueueCloses nat "thrown option"
  | ForgottenCloses nat
  | ForgottenTimer

definition factory_step :: "bool \<Rightarrow> queue_factory \<Rightarrow> factory_event \<Rightarrow> queue_factory" where
  "factory_step readOnly f e =
     (case e of
        Get name \<Rightarrow> snd (factory_get name f)
      | Verdict q refusal \<Rightarrow> awaitVerdict readOnly q refusal f
      | ClientEmits err \<Rightarrow> f\<lparr>qf_clientErrors := ce_mark err (qf_clientErrors f)\<rparr>
      | QueueEmits q err \<Rightarrow> queue_error q err f
      | VerdictTimer \<Rightarrow> verdict_timer f
      | Use name read \<Rightarrow> factory_use name read f
      | ReadSettles read \<Rightarrow> read_settles read f
      | Close \<Rightarrow> factory_close f
      | DrainTimer \<Rightarrow> drain_timer f
      | QueueCloses q outcome \<Rightarrow> queue_closes q outcome f
      | ForgottenCloses q \<Rightarrow> forgotten_closes q f
      | ForgottenTimer \<Rightarrow> forgotten_timer f)"

section \<open>The invariant\<close>

definition refusal_lines :: "queue_factory \<Rightarrow> queue_name list" where
  "refusal_lines f =
     List.map_filter (\<lambda>l. if ll_message l = ''queue init refused''
        then (case map_of (ll_fields l) ''queue'' of Some (LVal (Str n)) \<Rightarrow> Some n | _ \<Rightarrow> None) else None) (qf_log f)"

definition cache_inv :: "queue_factory \<Rightarrow> bool" where
  "cache_inv f \<longleftrightarrow>
     distinct (map fst (qf_cache f)) \<and>
     (\<forall>(n, q) \<in> set (qf_cache f). isQueueName n \<and> q < qf_next f \<and> map_of (qf_names f) q = Some n \<and>
        (\<forall>r. qf_verdicts f q \<noteq> VRefused r)) \<and>
     (\<forall>(q, n) \<in> set (qf_names f). q < qf_next f) \<and>
     (qf_phase f = ClosingQueues \<or> (\<exists>v. qf_phase f = CloseSettled v) \<longrightarrow> qf_cache f = []) \<and>
     (qf_phase f \<noteq> NotClosing \<longleftrightarrow> qf_closed f)"

definition lines_inv :: "bool \<Rightarrow> queue_factory \<Rightarrow> bool" where
  "lines_inv readOnly f \<longleftrightarrow>
     (if readOnly then refusal_lines f = [] \<and> qf_refusalWritten f = []
      else rev (refusal_lines f) = qf_refusalWritten f \<and> distinct (qf_refusalWritten f))"

definition settled_inv :: "queue_factory \<Rightarrow> bool" where
  "settled_inv f \<longleftrightarrow>
     (case qf_phase f of
        CloseSettled v \<Rightarrow>
          v = close_verdict (qf_closingQueues f) \<and> list_all (\<lambda>(q, out). out \<noteq> None) (qf_closingQueues f) \<and>
          (qf_forgotten f = [] \<or> qf_forgottenGivenUp f)
      | _ \<Rightarrow> True)"

definition factory_inv :: "bool \<Rightarrow> queue_factory \<Rightarrow> bool" where
  "factory_inv readOnly f \<longleftrightarrow> cache_inv f \<and> lines_inv readOnly f \<and> settled_inv f"

lemma map_of_cache:
  "distinct (map fst c) \<Longrightarrow> map_of (filter (\<lambda>(n, _). n \<noteq> name) c) n' = (if n' = name then None else map_of c n')"
  by (induction c) auto

lemma refusal_lines_log [simp]:
  "refusal_lines (factory_log name err m f) =
     refusal_lines f @ (if m = ''queue init refused'' then [name] else [])"
  by (simp add: refusal_lines_def factory_log_def map_filter_def)

lemma refusal_lines_upd [simp]:
  "refusal_lines (f\<lparr>qf_cache := a\<rparr>) = refusal_lines f"
  "refusal_lines (f\<lparr>qf_verdicts := b\<rparr>) = refusal_lines f"
  "refusal_lines (f\<lparr>qf_forgotten := c\<rparr>) = refusal_lines f"
  "refusal_lines (f\<lparr>qf_refusalWritten := d\<rparr>) = refusal_lines f"
  by (simp_all add: refusal_lines_def)

lemma factory_log_simps [simp]:
  "qf_cache (factory_log n e m f) = qf_cache f" "qf_names (factory_log n e m f) = qf_names f"
  "qf_verdicts (factory_log n e m f) = qf_verdicts f" "qf_next (factory_log n e m f) = qf_next f"
  "qf_phase (factory_log n e m f) = qf_phase f" "qf_closed (factory_log n e m f) = qf_closed f"
  "qf_refusalWritten (factory_log n e m f) = qf_refusalWritten f"
  "qf_forgotten (factory_log n e m f) = qf_forgotten f"
  "qf_forgottenGivenUp (factory_log n e m f) = qf_forgottenGivenUp f"
  "qf_closingQueues (factory_log n e m f) = qf_closingQueues f"
  by (simp_all add: factory_log_def)

text \<open>What the invariant reads of a state: two states that agree on it have it or not together.\<close>

lemma factory_inv_cong:
  assumes "qf_cache g = qf_cache f" "qf_names g = qf_names f" "qf_verdicts g = qf_verdicts f"
    "qf_next g = qf_next f" "qf_phase g = qf_phase f" "qf_closed g = qf_closed f"
    "qf_refusalWritten g = qf_refusalWritten f" "refusal_lines g = refusal_lines f"
    "qf_forgotten g = qf_forgotten f" "qf_forgottenGivenUp g = qf_forgottenGivenUp f"
    "qf_closingQueues g = qf_closingQueues f"
  shows "factory_inv ro g = factory_inv ro f"
  by (simp only: factory_inv_def cache_inv_def lines_inv_def settled_inv_def assms)

lemma get_inv:
  assumes "factory_inv ro f"
  shows "factory_inv ro (snd (factory_get name f))"
proof (cases "qf_closed f \<or> map_of (qf_cache f) name \<noteq> None \<or> \<not> isQueueName name")
  case True
  then show ?thesis using assms by (auto simp: factory_get_def split: option.splits)
next
  case False
  then have "name \<notin> fst ` set (qf_cache f)" by (simp add: map_of_eq_None_iff)
  moreover have "q \<noteq> qf_next f" if "(n, q) \<in> set (qf_cache f)" for n q
    using assms that by (auto simp: factory_inv_def cache_inv_def)
  ultimately show ?thesis
    using False assms
    by (auto simp: factory_get_def factory_inv_def cache_inv_def lines_inv_def settled_inv_def
        refusal_lines_def Let_def split: close_phase.splits)
qed

lemma writeQueueError_inv: "factory_inv ro f \<Longrightarrow> factory_inv ro (writeQueueError name q err f)"
  by (auto simp: writeQueueError_def factory_inv_cong [of "factory_log name err ''queue error'' f" f]
      split: init_verdict.splits)

lemma close_progress_inv:
  assumes "cache_inv f" and "lines_inv ro f" and "settled_inv f"
  shows "factory_inv ro (close_progress f)"
  using assms
  by (auto simp: close_progress_def factory_inv_def cache_inv_def lines_inv_def settled_inv_def refusal_lines_def)

lemma start_closing_inv:
  assumes "factory_inv ro f" and "qf_closed f"
  shows "factory_inv ro (start_closing f)"
  unfolding start_closing_def
  by (rule close_progress_inv)
    (use assms in \<open>auto simp: factory_inv_def cache_inv_def lines_inv_def settled_inv_def refusal_lines_def\<close>)

lemma refused_fields:
  "qf_cache (init_refused ro name q reason f) =
     (if map_of (qf_cache f) name = Some q then filter (\<lambda>(n, _). n \<noteq> name) (qf_cache f) else qf_cache f)"
  "qf_verdicts (init_refused ro name q reason f) = (qf_verdicts f)(q := VRefused reason)"
  "qf_names (init_refused ro name q reason f) = qf_names f"
  "qf_next (init_refused ro name q reason f) = qf_next f"
  "qf_phase (init_refused ro name q reason f) = qf_phase f"
  "qf_closed (init_refused ro name q reason f) = qf_closed f"
  "qf_closingQueues (init_refused ro name q reason f) = qf_closingQueues f"
  "qf_forgottenGivenUp (init_refused ro name q reason f) = qf_forgottenGivenUp f"
  "qf_forgotten (init_refused ro name q reason f) =
     (if map_of (qf_cache f) name = Some q then qf_forgotten f @ [q] else qf_forgotten f)"
  by (simp_all add: init_refused_def forget_def Let_def)

lemma refused_lines:
  "qf_refusalWritten (init_refused ro name q reason f) = qf_refusalWritten f \<and>
     refusal_lines (init_refused ro name q reason f) = refusal_lines f \<or>
   \<not> ro \<and> name \<notin> set (qf_refusalWritten f) \<and>
     qf_refusalWritten (init_refused ro name q reason f) = name # qf_refusalWritten f \<and>
     refusal_lines (init_refused ro name q reason f) = refusal_lines f @ [name]"
  by (simp add: init_refused_def forget_def Let_def)

lemma cache_entry:
  "cache_inv f \<Longrightarrow> (n, q) \<in> set (qf_cache f) \<Longrightarrow>
     isQueueName n \<and> q < qf_next f \<and> map_of (qf_names f) q = Some n \<and> (\<forall>r. qf_verdicts f q \<noteq> VRefused r)"
  by (auto simp: cache_inv_def)

lemma refused_inv:
  assumes inv: "factory_inv ro f" and q: "map_of (qf_names f) q = Some name"
  shows "factory_inv ro (init_refused ro name q reason f)"
proof -
  let ?f = "init_refused ro name q reason f"
  have cache: "cache_inv f" and lines: "lines_inv ro f" and settled: "settled_inv f"
    using inv by (simp_all add: factory_inv_def)
  have own: "n = name \<and> map_of (qf_cache f) name = Some q" if "(n, q) \<in> set (qf_cache f)" for n
    using cache q that by (auto simp: cache_inv_def)
  have sub: "set (qf_cache ?f) \<subseteq> set (qf_cache f)" by (auto simp: refused_fields)
  have gone: "(n, q) \<notin> set (qf_cache ?f)" for n
    using own [of n] by (auto simp: refused_fields)
  have "distinct (map fst (qf_cache f))" using cache by (simp add: cache_inv_def)
  then have "distinct (map fst (qf_cache ?f))"
    unfolding refused_fields by (auto intro: distinct_map_filter)
  moreover have "isQueueName n \<and> q' < qf_next ?f \<and> map_of (qf_names ?f) q' = Some n \<and>
      (\<forall>r. qf_verdicts ?f q' \<noteq> VRefused r)" if "(n, q') \<in> set (qf_cache ?f)" for n q'
  proof -
    have "(n, q') \<in> set (qf_cache f)" and "q' \<noteq> q" using that sub gone by auto
    with cache_entry [OF cache] show ?thesis by (simp add: refused_fields)
  qed
  moreover have "qf_cache f = [] \<longrightarrow> qf_cache ?f = []" by (simp add: refused_fields)
  ultimately have "cache_inv ?f"
    using cache unfolding cache_inv_def refused_fields(3-6) by blast
  moreover have "lines_inv ro ?f"
    using lines refused_lines [of ro name q reason f] by (auto simp: lines_inv_def)
  moreover have "settled_inv ?f"
    using settled cache
    by (cases "qf_phase f") (auto simp: settled_inv_def refused_fields cache_inv_def)
  ultimately show ?thesis by (simp add: factory_inv_def)
qed

lemma step_inv:
  assumes inv: "factory_inv ro f"
  shows "factory_inv ro (factory_step ro f e)"
proof (cases e)
  case (Get name)
  with get_inv [OF inv] show ?thesis by (simp add: factory_step_def)
next
  case (Verdict q refusal)
  have "factory_inv ro (init_ready q f)"
    using inv by (auto simp: init_ready_def factory_inv_def cache_inv_def lines_inv_def settled_inv_def
        split: close_phase.splits)
  with Verdict inv show ?thesis
    by (auto simp: factory_step_def awaitVerdict_def refused_inv split: option.splits)
next
  case (ClientEmits err)
  with inv show ?thesis
    by (simp add: factory_step_def factory_inv_cong [of "f\<lparr>qf_clientErrors := c\<rparr>" f for c] refusal_lines_def)
next
  case (QueueEmits q err)
  have "factory_inv ro (f\<lparr>qf_timers := ts\<rparr>)" for ts
    using inv by (simp add: factory_inv_cong [of "f\<lparr>qf_timers := c\<rparr>" f for c] refusal_lines_def)
  with QueueEmits inv show ?thesis
    by (auto simp: factory_step_def queue_error_def writeQueueError_inv split: option.splits)
next
  case VerdictTimer
  have "factory_inv ro (f\<lparr>qf_timers := ts\<rparr>)" for ts
    using inv by (simp add: factory_inv_cong [of "f\<lparr>qf_timers := c\<rparr>" f for c] refusal_lines_def)
  with VerdictTimer inv show ?thesis
    by (auto simp: factory_step_def verdict_timer_def writeQueueError_inv split: list.splits)
next
  case (Use name read)
  have "factory_inv ro (f'\<lparr>qf_inFlight := xs\<rparr>)" if "factory_inv ro f'" for f' xs
    using that by (simp add: factory_inv_cong [of "f'\<lparr>qf_inFlight := c\<rparr>" f' for c] refusal_lines_def)
  with Use get_inv [OF inv, of name] show ?thesis
    by (auto simp: factory_step_def factory_use_def split: prod.splits sum.splits)
next
  case (ReadSettles read)
  let ?f = "f\<lparr>qf_inFlight := filter (\<lambda>r. r \<noteq> read) (qf_inFlight f)\<rparr>"
  have f: "factory_inv ro ?f"
    using inv by (simp add: factory_inv_cong [of "f\<lparr>qf_inFlight := c\<rparr>" f for c] refusal_lines_def)
  then have "qf_phase ?f = Draining \<Longrightarrow> qf_closed ?f" by (auto simp: factory_inv_def cache_inv_def)
  with f ReadSettles show ?thesis
    by (auto simp: factory_step_def read_settles_def Let_def intro!: start_closing_inv)
next
  case Close
  have "factory_inv ro (f\<lparr>qf_closed := True, qf_phase := Draining\<rparr>)" if "qf_phase f = NotClosing"
    using inv that by (auto simp: factory_inv_def cache_inv_def lines_inv_def settled_inv_def refusal_lines_def)
  moreover have "factory_inv ro (start_closing (f\<lparr>qf_closed := True\<rparr>))" if "qf_phase f = NotClosing"
    unfolding start_closing_def
    by (rule close_progress_inv)
      (use inv that in \<open>auto simp: factory_inv_def cache_inv_def lines_inv_def settled_inv_def refusal_lines_def\<close>)
  ultimately show ?thesis using Close inv by (simp add: factory_step_def factory_close_def)
next
  case DrainTimer
  have "qf_phase f = Draining \<Longrightarrow> qf_closed f" using inv by (auto simp: factory_inv_def cache_inv_def)
  with DrainTimer inv show ?thesis
    by (simp add: factory_step_def drain_timer_def start_closing_inv)
next
  case (QueueCloses q outcome)
  let ?g = "\<lambda>(q', out). (q', if q' = q \<and> out = None then Some outcome else out)"
  have "map ?g qs = qs" if "list_all (\<lambda>(q, out). out \<noteq> None) qs" for qs
    using that by (induction qs) auto
  with inv show ?thesis
    unfolding QueueCloses factory_step_def factory_event.case queue_closes_def
    by (intro close_progress_inv)
      (auto simp: factory_inv_def cache_inv_def lines_inv_def settled_inv_def refusal_lines_def split: close_phase.splits)
next
  case (ForgottenCloses q)
  with inv show ?thesis
    unfolding ForgottenCloses factory_step_def factory_event.case forgotten_closes_def
    by (intro close_progress_inv)
      (auto simp: factory_inv_def cache_inv_def lines_inv_def settled_inv_def refusal_lines_def split: close_phase.splits)
next
  case ForgottenTimer
  have "factory_inv ro (close_progress (f\<lparr>qf_forgottenGivenUp := True\<rparr>))" if "qf_phase f = ClosingQueues"
    by (rule close_progress_inv)
      (use inv that in \<open>auto simp: factory_inv_def cache_inv_def lines_inv_def settled_inv_def refusal_lines_def\<close>)
  with ForgottenTimer inv show ?thesis by (simp add: factory_step_def forgotten_timer_def)
qed

interpretation factory: event_machine "factory_step ro" "factory_inv ro" for ro
  by unfold_locales (rule step_inv)

lemma create_inv: "factory_inv ro createQueueFactory"
  by (simp add: createQueueFactory_def factory_inv_def cache_inv_def lines_inv_def settled_inv_def refusal_lines_def
      map_filter_simps)

text \<open>A settled close stays as it is: no event reaches it.\<close>

lemma settled_step:
  assumes inv: "factory_inv ro f" and v: "qf_phase f = CloseSettled v"
  shows "qf_phase (factory_step ro f e) = CloseSettled v"
proof -
  have "close_progress g = g" if "qf_phase g = CloseSettled v" for g
    using that by (simp add: close_progress_def)
  then show ?thesis
    using v
    by (cases e)
      (auto simp: factory_step_def factory_get_def Let_def awaitVerdict_def init_ready_def refused_fields
        queue_error_def writeQueueError_def verdict_timer_def factory_use_def read_settles_def factory_close_def
        drain_timer_def queue_closes_def forgotten_closes_def forgotten_timer_def
        split: option.splits list.splits init_verdict.splits prod.splits sum.splits if_splits)
qed

lemma settled_run:
  assumes "factory_inv ro f" and "qf_phase f = CloseSettled v"
  shows "qf_phase (foldl (factory_step ro) f es) = CloseSettled v"
  using assms by (induction es arbitrary: f) (simp_all add: settled_step step_inv)

lemma close_refusals_Nil:
  "list_all (\<lambda>(q, out). out \<noteq> None) qs \<Longrightarrow> close_refusals qs = [] \<longleftrightarrow> list_all (\<lambda>(q, out). out = Some None) qs"
  by (induction qs) (auto simp: close_refusals_def map_filter_simps split: option.splits)

lemma verdict_parts:
  assumes "list_all (\<lambda>(q, out). out \<noteq> None) qs"
  shows "(close_verdict qs = None \<longleftrightarrow> list_all (\<lambda>(q, out). out = Some None) qs) \<and>
    (case close_verdict qs of Some e \<Rightarrow> err_parts e = close_refusals qs | None \<Rightarrow> True)"
  using close_refusals_Nil [OF assms]
  by (cases "close_refusals qs = []") (simp_all add: close_verdict_def Let_def aggregate_error_def)

section \<open>Properties\<close>


text \<open>
  A close has one verdict: once it is settled no later event - a second close among them -
  changes it, every queue that was open when it began has been waited for, and the verdict is a failure exactly when one of those
  refused to close.
\<close>

theorem factory_close_verdict:
  assumes "qf_phase (foldl (factory_step readOnly) createQueueFactory es) = CloseSettled v"
  shows "qf_phase (foldl (factory_step readOnly) createQueueFactory (es @ es')) = CloseSettled v \<and>
    (let f = foldl (factory_step readOnly) createQueueFactory es in
       qf_cache f = [] \<and>
       list_all (\<lambda>(q, out). out \<noteq> None) (qf_closingQueues f) \<and>
       (v = None \<longleftrightarrow> list_all (\<lambda>(q, out). out = Some None) (qf_closingQueues f)) \<and>
       (case v of Some e \<Rightarrow> err_parts e = close_refusals (qf_closingQueues f) | None \<Rightarrow> True))"
proof -
  define f where "f = foldl (factory_step readOnly) createQueueFactory es"
  have v: "qf_phase f = CloseSettled v" using assms by (simp add: f_def)
  have inv: "factory_inv readOnly f" unfolding f_def by (rule factory.run_inv) (rule create_inv)
  have "qf_cache f = []" using inv v by (simp add: factory_inv_def cache_inv_def)
  moreover have all: "list_all (\<lambda>(q, out). out \<noteq> None) (qf_closingQueues f)"
    and "v = close_verdict (qf_closingQueues f)"
    using inv v by (simp_all add: factory_inv_def settled_inv_def)
  moreover have "qf_phase (foldl (factory_step readOnly) f es') = CloseSettled v"
    by (rule settled_run [OF inv v])
  ultimately show ?thesis
    unfolding f_def [symmetric] foldl_append Let_def
    using verdict_parts [OF all] by (intro conjI) simp_all
qed

theorem factory_close_verdict_witness:
  "qf_phase (foldl (factory_step True) createQueueFactory
     ([Get ''system.dlq'', Close, QueueCloses 0 None] @ [Close, Get ''system.dlq''])) = CloseSettled None"
proof -
  have "isQueueName ''system.dlq''" by (simp add: isQueueName_iff QUEUE_NAMES_def)
  then have "qf_phase (foldl (factory_step True) createQueueFactory [Get ''system.dlq'', Close, QueueCloses 0 None]) =
      CloseSettled None"
    by (simp add: factory_step_def factory_get_def createQueueFactory_def factory_close_def start_closing_def
        close_progress_def queue_closes_def close_verdict_def close_refusals_def map_filter_simps Let_def)
  from factory_close_verdict [OF this] show ?thesis by blast
qed


end
