(* ===== verification/Redact_Walk.thy ===== *)
theory Redact_Walk
  imports Domain_Errors
begin

text \<open>
  The walk that keeps the arguments of a Redis command out of a log line
  (\<open>packages/runtime/src/redact-command-args.ts\<close>).  What a line holds is a graph: objects may be
  shared and may contain themselves, so an object is its address in a store.  The walk copies on
  write; its answer is a tree whose leaves may be objects of the store left as they were.
\<close>

section \<open>The objects of a line\<close>

datatype obj_kind = PlainObject | ArrayObject | ErrorObject | InstanceObject

datatype js_value = JPrim json | JRef nat

text \<open>
  An object: what it is an instance of, its own enumerable properties in order, and the properties
  a read by key finds besides them - not enumerable, or inherited, as the \<open>name\<close> of an error is.
\<close>

record js_object =
  o_kind :: obj_kind
  o_props :: "(string \<times> js_value) list"
  o_hidden :: "(string \<times> js_value) list"

type_synonym js_store = "nat \<Rightarrow> js_object"

definition REDACTED :: json where "REDACTED = Str ''[Redacted]''"
definition TRUNCATED :: json where "TRUNCATED = Str ''[Truncated]''"
definition CIRCULAR :: json where "CIRCULAR = Str ''[Circular]''"
definition MAX_WALK_DEPTH :: nat where "MAX_WALK_DEPTH = 8"

definition isObject :: "js_value \<Rightarrow> bool" where
  "isObject v = (case v of JRef _ \<Rightarrow> True | JPrim _ \<Rightarrow> False)"

definition js_field :: "js_store \<Rightarrow> nat \<Rightarrow> string \<Rightarrow> js_value" where
  "js_field h r k = (case map_of (o_props (h r) @ o_hidden (h r)) k of Some v \<Rightarrow> v | None \<Rightarrow> JPrim Null)"

definition isRedisCommand :: "js_store \<Rightarrow> nat \<Rightarrow> bool" where
  "isRedisCommand h r =
     ((case js_field h r ''name'' of JPrim (Str _) \<Rightarrow> True | _ \<Rightarrow> False) \<and>
      (case js_field h r ''args'' of JRef a \<Rightarrow> o_kind (h a) = ArrayObject | _ \<Rightarrow> False))"

definition isWalked :: "js_store \<Rightarrow> nat \<Rightarrow> bool" where
  "isWalked h r = (o_kind (h r) \<noteq> InstanceObject)"

definition INSTANCE_KEYS :: "string list" where
  "INSTANCE_KEYS = [''args'', ''command'']"

definition keysOf :: "js_store \<Rightarrow> nat \<Rightarrow> string list" where
  "keysOf h r =
     (if isWalked h r then map fst (o_props (h r))
      else filter (\<lambda>k. List.member (map fst (o_props (h r))) k) INSTANCE_KEYS)"

section \<open>The walk\<close>

text \<open>\<open>RCopy r changes\<close> is \<open>copyWith(r, changes)\<close>.\<close>

datatype walked = RPrim json | RSame nat | RCopy nat "(string \<times> walked) list"

definition of_value :: "js_value \<Rightarrow> walked" where
  "of_value v = (case v of JPrim p \<Rightarrow> RPrim p | JRef r \<Rightarrow> RSame r)"

definition copyWith :: "nat \<Rightarrow> (string \<times> walked) list \<Rightarrow> walked" where
  "copyWith r changes = RCopy r changes"

record redact_walk =
  rw_done :: "nat \<Rightarrow> (nat \<times> walked) option"
  rw_active :: "nat list"
  rw_circular :: nat

text \<open>\<open>next !== current\<close>: a \<open>NaN\<close> is never the value it was.\<close>

definition differs :: "walked \<Rightarrow> js_value \<Rightarrow> bool" where
  "differs nxt current \<longleftrightarrow> nxt \<noteq> of_value current \<or> current = JPrim (Num NaN)"

function walk :: "js_store \<Rightarrow> js_value \<Rightarrow> nat \<Rightarrow> redact_walk \<Rightarrow> string list \<Rightarrow> walked \<times> redact_walk"
  and walk_keys :: "js_store \<Rightarrow> nat \<Rightarrow> bool \<Rightarrow> string list \<Rightarrow> nat \<Rightarrow> redact_walk \<Rightarrow> string list \<Rightarrow>
    (string \<times> walked) list \<times> redact_walk" where
  "walk h v depth st skip =
     (case v of
        JPrim p \<Rightarrow> (RPrim p, st)
      | JRef r \<Rightarrow>
          (if List.member (rw_active st) r
           then (RPrim CIRCULAR, st\<lparr>rw_circular := rw_circular st + 1\<rparr>)
           else if keysOf h r = [] then (RSame r, st)
           else if depth > MAX_WALK_DEPTH then (RPrim TRUNCATED, st)
           else case (case rw_done st r of Some (d, res) \<Rightarrow> (if d \<le> depth then Some res else None) | None \<Rightarrow> None) of
                  Some res \<Rightarrow> (res, st)
                | None \<Rightarrow>
                    (let (changes, st1) = walk_keys h r (isRedisCommand h r) (keysOf h r) depth
                           (st\<lparr>rw_active := r # rw_active st\<rparr>) skip;
                         st2 = st1\<lparr>rw_active := removeAll r (rw_active st1)\<rparr>;
                         result = (if changes = [] then RSame r else copyWith r changes)
                     in (result,
                         if rw_circular st2 = rw_circular st
                         then st2\<lparr>rw_done := (rw_done st2)(r \<mapsto> (depth, result))\<rparr> else st2))))"
| "walk_keys h r command [] depth st skip = ([], st)"
| "walk_keys h r command (k # ks) depth st skip =
     (if List.member skip k then walk_keys h r command ks depth st skip
      else
        (let current = js_field h r k;
             (nxt, st1) = (if command \<and> k = ''args'' then (RPrim REDACTED, st)
                           else walk h current (depth + 1) st []);
             (changes, st2) = walk_keys h r command ks depth st1 skip
         in (if differs nxt current then (k, nxt) # changes else changes, st2)))"
  by pat_completeness auto

termination
  by (relation "measures
      [\<lambda>x. case x of Inl (h, v, d, st, sk) \<Rightarrow> 2 * (10 - d) | Inr (h, r, c, ks, d, st, sk) \<Rightarrow> 2 * (10 - d) - 1,
       \<lambda>x. case x of Inl _ \<Rightarrow> 0 | Inr (h, r, c, ks, d, st, sk) \<Rightarrow> length ks]")
    (auto simp: MAX_WALK_DEPTH_def)

declare walk.simps [simp del] walk_keys.simps(2) [simp del]

text \<open>The object of a line; one that holds nothing but words and numbers is left as it is.\<close>

definition redactCommandArgs :: "js_store \<Rightarrow> nat \<Rightarrow> string list \<Rightarrow> walked" where
  "redactCommandArgs h r skip =
     (if list_ex isObject (map snd (o_props (h r)))
      then fst (walk h (JRef r) 0 \<lparr>rw_done = (\<lambda>_. None), rw_active = [], rw_circular = 0\<rparr> skip)
      else RSame r)"

section \<open>What is written\<close>

text \<open>
  The objects a log writes below one: through the keys the walk looks at.  A command is exposed
  where its \<open>args\<close> are among them.
\<close>

inductive below :: "js_store \<Rightarrow> nat \<Rightarrow> nat \<Rightarrow> bool" for h where
  self: "below h r r"
| key: "k \<in> set (keysOf h r) \<Longrightarrow> js_field h r k = JRef x \<Longrightarrow> below h x y \<Longrightarrow> below h r y"

definition exposes :: "js_store \<Rightarrow> nat \<Rightarrow> bool" where
  "exposes h r \<longleftrightarrow> isRedisCommand h r \<and> ''args'' \<in> set (keysOf h r)"

definition clean_ref :: "js_store \<Rightarrow> nat \<Rightarrow> bool" where
  "clean_ref h r \<longleftrightarrow> (\<forall>x. below h r x \<longrightarrow> \<not> exposes h x)"

definition clean_value :: "js_store \<Rightarrow> js_value \<Rightarrow> bool" where
  "clean_value h v = (case v of JPrim _ \<Rightarrow> True | JRef r \<Rightarrow> clean_ref h r)"

inductive clean :: "js_store \<Rightarrow> walked \<Rightarrow> bool" for h where
  clean_prim: "clean h (RPrim p)"
| clean_same: "clean_ref h r \<Longrightarrow> clean h (RSame r)"
| clean_copy:
    "(\<And>k. k \<in> set (keysOf h r) \<Longrightarrow> k \<notin> fst ` set ch \<Longrightarrow>
        clean_value h (js_field h r k) \<and> \<not> (isRedisCommand h r \<and> k = ''args'')) \<Longrightarrow>
     (\<And>k v. (k, v) \<in> set ch \<Longrightarrow> clean h v \<and> (isRedisCommand h r \<and> k = ''args'' \<longrightarrow> v = RPrim REDACTED)) \<Longrightarrow>
     clean h (RCopy r ch)"

inductive_cases clean_sameE: "clean h (RSame r)"

lemma clean_of_value [simp]: "clean h (of_value v) \<longleftrightarrow> clean_value h v"
  by (cases v) (auto simp: of_value_def clean_value_def intro: clean.intros elim: clean_sameE)

lemma clean_refI:
  assumes "\<not> exposes h r" and "\<And>k. k \<in> set (keysOf h r) \<Longrightarrow> clean_value h (js_field h r k)"
  shows "clean_ref h r"
  unfolding clean_ref_def
proof (intro allI impI)
  fix x assume "below h r x"
  then show "\<not> exposes h x"
    by cases (use assms in \<open>fastforce simp: clean_value_def clean_ref_def\<close>)+
qed

section \<open>The walk is clean\<close>

definition done_clean :: "js_store \<Rightarrow> redact_walk \<Rightarrow> bool" where
  "done_clean h st \<longleftrightarrow> (\<forall>r d res. rw_done st r = Some (d, res) \<longrightarrow> clean h res)"

lemma command_args_array: "isRedisCommand h r \<Longrightarrow> \<exists>a. js_field h r ''args'' = JRef a"
  by (auto simp: isRedisCommand_def split: js_value.splits)

lemma redacted_is_change: "isRedisCommand h r \<Longrightarrow> RPrim REDACTED \<noteq> of_value (js_field h r ''args'')"
  using command_args_array [of h r] by (auto simp: of_value_def)

text \<open>What the keys answer: every key is either unchanged and clean, or changed to something clean.\<close>

definition keys_clean :: "js_store \<Rightarrow> nat \<Rightarrow> string list \<Rightarrow> (string \<times> walked) list \<Rightarrow> bool" where
  "keys_clean h r ks ch \<longleftrightarrow>
     (\<forall>k \<in> set ks. k \<notin> fst ` set ch \<longrightarrow>
        clean_value h (js_field h r k) \<and> \<not> (isRedisCommand h r \<and> k = ''args'')) \<and>
     (\<forall>(k, v) \<in> set ch. clean h v \<and> (isRedisCommand h r \<and> k = ''args'' \<longrightarrow> v = RPrim REDACTED))"

lemma keys_clean_result:
  assumes "keys_clean h r (keysOf h r) ch"
  shows "clean h (if ch = [] then RSame r else copyWith r ch)"
proof (cases "ch = []")
  case True
  with assms have "clean_ref h r"
    by (intro clean_refI) (auto simp: keys_clean_def exposes_def)
  with True show ?thesis by (simp add: clean_same)
next
  case False
  with assms show ?thesis
    unfolding copyWith_def by (auto simp: keys_clean_def intro!: clean_copy)
qed

lemma walk_clean:
  "done_clean h st \<Longrightarrow> skip = [] \<Longrightarrow>
     clean h (fst (walk h v depth st skip)) \<and> done_clean h (snd (walk h v depth st skip))"
  "done_clean h st \<Longrightarrow> command = isRedisCommand h r \<Longrightarrow>
     keys_clean h r (filter (\<lambda>k. k \<notin> set skip) ks) (fst (walk_keys h r command ks depth st skip)) \<and>
     done_clean h (snd (walk_keys h r command ks depth st skip))"
proof (induction h v depth st skip and h r command ks depth st skip rule: walk_walk_keys.induct)
  case (1 h v depth st skip)
  show ?case
  proof (cases v)
    case (JPrim p)
    with 1 show ?thesis by (simp add: walk.simps clean_prim)
  next
    case (JRef r)
    let ?known = "case rw_done st r of Some (d, res) \<Rightarrow> (if d \<le> depth then Some res else None) | None \<Rightarrow> None"
    show ?thesis
    proof (cases "List.member (rw_active st) r \<or> keysOf h r = [] \<or> depth > MAX_WALK_DEPTH \<or> ?known \<noteq> None")
      case True
      have "clean_ref h r" if "keysOf h r = []"
        by (rule clean_refI) (use that in \<open>simp_all add: exposes_def\<close>)
      moreover have "clean h res" if "rw_done st r = Some (d, res)" for d res
        using that "1.prems"(1) by (auto simp: done_clean_def)
      ultimately show ?thesis
        using True JRef "1.prems"
        by (subst (1 2) walk.simps) (auto simp: clean_prim clean_same done_clean_def split: option.splits if_splits)
    next
      case False
      let ?st = "st\<lparr>rw_active := r # rw_active st\<rparr>"
      obtain ch st1 where ks: "walk_keys h r (isRedisCommand h r) (keysOf h r) depth ?st skip = (ch, st1)"
        by fastforce
      have "keys_clean h r (filter (\<lambda>k. k \<notin> set skip) (keysOf h r)) ch \<and> done_clean h st1"
        using "1.IH" [OF JRef] False "1.prems" ks by (simp add: done_clean_def)
      then have "clean h (if ch = [] then RSame r else copyWith r ch)" and d: "done_clean h st1"
        using "1.prems"(2) keys_clean_result [of h r ch] by simp_all
      with False JRef ks show ?thesis
        by (subst (1 2) walk.simps) (auto simp: Let_def done_clean_def split: if_splits)
    qed
  qed
next
  case (2 h r command depth st skip)
  then show ?case by (simp add: keys_clean_def walk_keys.simps)
next
  case (3 h r command k ks depth st skip)
  show ?case
  proof (cases "List.member skip k")
    case True
    with 3 show ?thesis by (simp add: walk_keys.simps)
  next
    case False
    let ?cur = "js_field h r k"
    obtain nxt st1 where nxt: "(if command \<and> k = ''args'' then (RPrim REDACTED, st)
        else walk h ?cur (depth + 1) st []) = (nxt, st1)" by fastforce
    obtain ch st2 where ch: "walk_keys h r command ks depth st1 skip = (ch, st2)" by fastforce
    have n: "clean h nxt \<and> done_clean h st1 \<and> (command \<and> k = ''args'' \<longrightarrow> nxt = RPrim REDACTED)"
      using "3.IH"(2) [OF False refl] "3.prems" nxt by (auto simp: clean_prim split: if_splits)
    have rest: "keys_clean h r (filter (\<lambda>k. k \<notin> set skip) ks) ch \<and> done_clean h st2"
      using "3.IH"(3) [OF False refl nxt [symmetric] refl] "3.prems" n ch by simp
    have same: "clean_value h ?cur \<and> \<not> (isRedisCommand h r \<and> k = ''args'')" if "\<not> differs nxt ?cur"
      using n that redacted_is_change [of h r] "3.prems"(2) by (auto simp: differs_def)
    show ?thesis
      using False nxt ch rest n same "3.prems"(2)
      by (auto simp: walk_keys.simps keys_clean_def)
  qed
qed

section \<open>Properties\<close>


text \<open>A line with a command on an error: \<open>{ err: Error { args: [key] } }\<close>.\<close>

definition sample_line :: js_store where
  "sample_line r =
     (if r = 0 then \<lparr>o_kind = PlainObject, o_props = [(''err'', JRef 1)], o_hidden = []\<rparr>
      else if r = 1 then \<lparr>o_kind = ErrorObject, o_props = [(''args'', JRef 2)],
        o_hidden = [(''name'', JPrim (Str ''ReplyError''))]\<rparr>
      else \<lparr>o_kind = ArrayObject, o_props = [(''0'', JPrim (Str ''secret''))], o_hidden = []\<rparr>)"


end
