(* ===== verification/Failures.thy ===== *)
theory Failures
  imports Domain_Errors Js_Text
begin

text \<open>
  Failures that follow failures (\<open>packages/db/src/failures.ts\<close>, \<open>cleanup.ts\<close>): several failures
  thrown as one, and a body whose cleanup runs whichever way it went.
\<close>

section \<open>Describing and throwing failures\<close>

definition describeError :: "bool \<Rightarrow> thrown \<Rightarrow> string" where
  "describeError stack error =
     (case error of
        JsError _ _ message _ _ _ st _ _ \<Rightarrow>
          (case (if stack then st else None) of Some s \<Rightarrow> s | None \<Rightarrow> message)
      | NonError s _ _ \<Rightarrow> s)"

definition describeFailure :: "thrown \<Rightarrow> string" where
  "describeFailure error =
     (let code = (case errorCode error of
                    Some c \<Rightarrow> Some c
                  | None \<Rightarrow>
                      (case error of
                         JsError _ _ _ _ _ _ _ (Some cause) _ \<Rightarrow> errorCode cause
                       | _ \<Rightarrow> None));
          message = describeError False error
      in case code of None \<Rightarrow> message | Some c \<Rightarrow> message @ '' ['' @ c @ '']'')"

definition throwFailures :: "thrown list \<Rightarrow> thrown option" where
  "throwFailures failures =
     (case failures of
        [] \<Rightarrow> None
      | [first] \<Rightarrow> Some first
      | _ \<Rightarrow> Some (aggregate_error failures
               (show_nat (length failures) @ '' failures: '' @ join_str ''; '' (map describeFailure failures))))"

section \<open>Cleanup\<close>

definition withCleanup ::
  "('w, thrown, 'a) io \<Rightarrow> ('w, thrown, unit) io \<Rightarrow> (thrown \<Rightarrow> ('w, thrown, unit) io) \<Rightarrow>
   (thrown \<Rightarrow> 'a \<Rightarrow> thrown) \<Rightarrow> ('w, thrown, 'a) io" where
  "withCleanup body cleanup onCleanupError afterBody w =
     (case body w of
        (Inl error, w1) \<Rightarrow>
          (case cleanup w1 of
             (Inr _, w2) \<Rightarrow> (Inl error, w2)
           | (Inl cleanupError, w2) \<Rightarrow>
               (case onCleanupError cleanupError w2 of
                  (Inr _, w3) \<Rightarrow> (Inl error, w3)
                | (Inl e, w3) \<Rightarrow> (Inl e, w3)))
      | (Inr result, w1) \<Rightarrow>
          (case cleanup w1 of
             (Inr _, w2) \<Rightarrow> (Inr result, w2)
           | (Inl cleanupError, w2) \<Rightarrow> (Inl (afterBody cleanupError result), w2)))"

lemma throwFailures_None [simp]: "throwFailures fs = None \<longleftrightarrow> fs = []"
  by (auto simp: throwFailures_def split: list.splits)

lemma throwFailures_single [simp]: "throwFailures [e] = Some e"
  by (simp add: throwFailures_def)

end
