(* ===== verification/Migration_Lock.thy ===== *)
theory Migration_Lock
  imports Failures
begin

text \<open>
  The advisory lock around a migration (\<open>packages/db/src/migration-lock.ts\<close>) and the migrator on
  top of it (\<open>migrate.ts\<close>).  A statement is a value; what the database does with one is the
  parameter \<open>execute\<close>.  The locale \<open>pg_session\<close> is the contract of a session: what the settings
  and the lock of it are after a statement that succeeded or failed.
\<close>

section \<open>Statements\<close>

definition MIGRATION_LOCK_KEY :: int where "MIGRATION_LOCK_KEY = 0x53464d47"
definition MIGRATION_LOCK_WAIT_MS :: rat where "MIGRATION_LOCK_WAIT_MS = 120000"
definition LOCK_NOT_AVAILABLE :: string where "LOCK_NOT_AVAILABLE = ''55P03''"

definition MIGRATE_NEEDS_SINGLE_CONNECTION :: string where
  "MIGRATE_NEEDS_SINGLE_CONNECTION =
     ''migrateDb needs a handle opened with createDb(url, { max: 1 }): the advisory lock belongs to one session''"

datatype release_step = Unlock | RestoreClientMinMessages | RestoreTimeouts

fun RELEASE_STEP_FAILED :: "release_step \<Rightarrow> string" where
  "RELEASE_STEP_FAILED Unlock = ''releasing the migration lock failed''"
| "RELEASE_STEP_FAILED RestoreClientMinMessages = ''restoring client_min_messages failed''"
| "RELEASE_STEP_FAILED RestoreTimeouts = ''restoring lock_timeout and statement_timeout failed''"

definition releaseStepFailure :: "release_step \<Rightarrow> thrown \<Rightarrow> string" where
  "releaseStepFailure s error = RELEASE_STEP_FAILED s @ '': '' @ describeError False error"

datatype session_setting = Lock_timeout | Statement_timeout | Client_min_messages

text \<open>
  What the module asks of the database: \<open>UNLOCK\<close> releases the lock once if the session holds it,
  \<open>SetSession\<close> sets the named settings in one statement.
\<close>

datatype query =
    READ_SESSION
  | LOCK
  | UNLOCK
  | SetSession "(session_setting \<times> string) list"
  | QUIET_NOTICES
  | TABLE_EXISTS string
  | COUNT_JOURNAL

text \<open>\<open>step(name, query)\<close>: the statement carries the name of the step as a comment.\<close>

type_synonym statement = "string \<times> query"

definition stepNamer :: "string \<Rightarrow> query \<Rightarrow> statement" where
  "stepNamer name q = (''/* step:'' @ name @ '' */ '', q)"

fun release_step_name :: "release_step \<Rightarrow> string" where
  "release_step_name Unlock = ''unlock''"
| "release_step_name RestoreClientMinMessages = ''client_min_messages''"
| "release_step_name RestoreTimeouts = ''timeouts''"

type_synonym 'w execute = "statement \<Rightarrow> ('w, thrown, json list) io"

definition migrationLockTimeoutMessage :: "rat \<Rightarrow> string" where
  "migrationLockTimeoutMessage waitMs =
     ''another migration runner has held the migration lock for at least the '' @ show_int \<lfloor>waitMs\<rfloor> @
     '' ms this one waited - find it in pg_stat_activity (wait_event_type '' @ [CHR 39] @ ''Lock'' @ [CHR 39] @
     '' or a long '' @ [CHR 39] @ ''active'' @ [CHR 39] @
     '' query) and stop it, then run the migrations again''"

definition migration_lock_timeout_error :: "rat \<Rightarrow> thrown \<Rightarrow> thrown" where
  "migration_lock_timeout_error waitMs cause =
     JsError MigrationLockTimeoutErrorC ''MigrationLockTimeoutError'' (migrationLockTimeoutMessage waitMs)
       NoCode None None None (Some cause) []"

section \<open>The session\<close>

record session_settings =
  ss_lockTimeout :: string
  ss_statementTimeout :: string
  ss_clientMinMessages :: string
  ss_heldLock :: bool

definition str_field :: "json \<Rightarrow> string \<Rightarrow> string" where
  "str_field row k = (case jget row k of Some (Str s) \<Rightarrow> s | _ \<Rightarrow> [])"

definition readSession :: "'w execute \<Rightarrow> ('w, thrown, session_settings) io" where
  "readSession execute =
     io_bind (execute (stepNamer ''read_session'' READ_SESSION)) (\<lambda>rows.
       case rows of
         [] \<Rightarrow> io_throw (plain_error ''migrateDb: the session settings could not be read'')
       | row # _ \<Rightarrow> io_return
           \<lparr>ss_lockTimeout = str_field row ''lock_timeout'',
            ss_statementTimeout = str_field row ''statement_timeout'',
            ss_clientMinMessages = str_field row ''client_min_messages'',
            ss_heldLock = (jget row ''held_lock'' = Some (Bool True))\<rparr>)"

definition restoreTimeouts :: "session_settings \<Rightarrow> query" where
  "restoreTimeouts session =
     SetSession [(Lock_timeout, ss_lockTimeout session), (Statement_timeout, ss_statementTimeout session)]"

type_synonym 'w release_report = "release_step \<Rightarrow> thrown \<Rightarrow> 'w \<Rightarrow> 'w"

text \<open>\<open>releaseQuietly\<close>: \<open>everyStep\<close> is the mode \<open>every_step\<close>, otherwise \<open>until_failure\<close>.\<close>

fun releaseQuietly ::
  "'w execute \<Rightarrow> (release_step \<times> query) list \<Rightarrow> 'w release_report \<Rightarrow> bool \<Rightarrow> 'w \<Rightarrow> 'w" where
  "releaseQuietly execute [] report everyStep w = w"
| "releaseQuietly execute ((name, q) # steps) report everyStep w =
     (case execute (stepNamer (release_step_name name) q) w of
        (Inr _, w') \<Rightarrow> releaseQuietly execute steps report everyStep w'
      | (Inl error, w') \<Rightarrow>
          (if everyStep then releaseQuietly execute steps report everyStep (report name error w')
           else report name error w'))"

definition acquireMigrationLock ::
  "'w execute \<Rightarrow> rat \<Rightarrow> session_settings \<Rightarrow> 'w release_report \<Rightarrow> ('w, thrown, unit) io" where
  "acquireMigrationLock execute waitMs session report w0 =
     (case execute (stepNamer ''lock_wait'' (SetSession
             [(Lock_timeout, show_int \<lfloor>waitMs\<rfloor> @ ''ms''), (Statement_timeout, ''0'')])) w0 of
        (Inl e, w) \<Rightarrow> (Inl e, w)
      | (Inr _, w) \<Rightarrow>
          (case execute (stepNamer ''lock'' LOCK) w of
             (Inr _, w') \<Rightarrow> (Inr (), w')
           | (Inl error, w') \<Rightarrow>
               (Inl (if errorCode error = Some LOCK_NOT_AVAILABLE
                     then migration_lock_timeout_error waitMs error else error),
                releaseQuietly execute
                  ((if ss_heldLock session then [] else [(Unlock, UNLOCK)]) @
                   [(RestoreTimeouts, restoreTimeouts session)]) report False w')))"

text \<open>How many milliseconds a runner waits, or the refusal of the option.\<close>

definition lock_wait_ms :: "jsnum option \<Rightarrow> thrown + rat" where
  "lock_wait_ms lockWaitMs =
     (let ms = (case lockWaitMs of None \<Rightarrow> Fin MIGRATION_LOCK_WAIT_MS | Some x \<Rightarrow> x)
      in if \<not> is_safe_integer ms \<or> num_leq ms (Fin 0)
         then Inl (plain_error (''migrateDb: lockWaitMs must be a whole number of milliseconds above 0, got '' @ show_num ms))
         else (case ms of Fin r \<Rightarrow> Inr r | _ \<Rightarrow> Inl (plain_error [])))"

definition locked_body ::
  "'w execute \<Rightarrow> session_settings \<Rightarrow> ('w, thrown, 'a) io \<Rightarrow> ('w, thrown, 'a) io" where
  "locked_body execute session body =
     io_bind (execute (stepNamer ''timeouts_after_lock'' (restoreTimeouts session))) (\<lambda>_.
     io_bind (execute (stepNamer ''quiet_notices'' QUIET_NOTICES)) (\<lambda>_. body))"

definition withMigrationLock ::
  "'w execute \<Rightarrow> nat \<Rightarrow> jsnum option \<Rightarrow> 'w release_report \<Rightarrow> ('w, thrown, 'a) io \<Rightarrow> ('w, thrown, 'a) io" where
  "withMigrationLock execute maxConnections lockWaitMs report body =
     (if maxConnections \<noteq> 1 then io_throw (plain_error MIGRATE_NEEDS_SINGLE_CONNECTION)
      else case lock_wait_ms lockWaitMs of
             Inl e \<Rightarrow> io_throw e
           | Inr waitMs \<Rightarrow>
               io_bind (readSession execute) (\<lambda>session.
               io_bind (acquireMigrationLock execute waitMs session report) (\<lambda>_.
               io_finally (locked_body execute session body)
                 (\<lambda>w. (Inr (), releaseQuietly execute
                    [(Unlock, UNLOCK),
                     (RestoreClientMinMessages, SetSession [(Client_min_messages, ss_clientMinMessages session)]),
                     (RestoreTimeouts, restoreTimeouts session)] report True w)))))"

section \<open>The migrator\<close>

record migration_outcome =
  mo_applied :: int
  mo_total :: int

definition tableExists :: "'w execute \<Rightarrow> string \<Rightarrow> ('w, thrown, bool) io" where
  "tableExists execute qualifiedName =
     io_bind (execute ([], TABLE_EXISTS qualifiedName)) (\<lambda>rows.
       io_return (case rows of row # _ \<Rightarrow> jget row ''present'' = Some (Bool True) | [] \<Rightarrow> False))"

definition countJournal :: "'w execute \<Rightarrow> ('w, thrown, int) io" where
  "countJournal execute =
     io_bind (tableExists execute ''drizzle.__drizzle_migrations'') (\<lambda>present.
       if \<not> present then io_return 0
       else io_bind (execute (stepNamer ''count_journal'' COUNT_JOURNAL)) (\<lambda>rows.
              io_return (case rows of
                 row # _ \<Rightarrow> (case jget row ''n'' of Some (Num (Fin r)) \<Rightarrow> \<lfloor>r\<rfloor> | _ \<Rightarrow> 0)
               | [] \<Rightarrow> 0)))"

definition migrateDb ::
  "'w execute \<Rightarrow> ('w, thrown, unit) io \<Rightarrow> nat \<Rightarrow> jsnum option \<Rightarrow> 'w release_report \<Rightarrow>
   ('w, thrown, migration_outcome) io" where
  "migrateDb execute migrate maxConnections lockWaitMs report =
     withMigrationLock execute maxConnections lockWaitMs report
       (io_bind (countJournal execute) (\<lambda>before.
        io_bind migrate (\<lambda>_.
        io_bind (countJournal execute) (\<lambda>total.
        io_return \<lparr>mo_applied = total - before, mo_total = total\<rparr>))))"

text \<open>
  \<open>runMigrations\<close>: the world carries the failures of the release steps collected so far, the last
  one last.
\<close>

definition runMigrations ::
  "('w \<times> thrown list) execute \<Rightarrow> ('w \<times> thrown list, thrown, unit) io \<Rightarrow>
   ('w \<times> thrown list, thrown, unit) io \<Rightarrow> ('w \<times> thrown list, thrown, unit) io" where
  "runMigrations execute migrate closeDb w =
     (let report = (\<lambda>name error (v, released).
            (v, released @ [error_with_cause (releaseStepFailure name error) error]));
          (r, v1, released) = withMigrationLock execute 1 None report migrate w;
          failures = (case r of Inl e \<Rightarrow> [e] | Inr _ \<Rightarrow> []) @ released;
          (c, w2) = closeDb (v1, released);
          all = failures @ (case c of Inl e \<Rightarrow> [e] | Inr _ \<Rightarrow> [])
      in (case throwFailures all of Some e \<Rightarrow> Inl e | None \<Rightarrow> Inr (), w2))"

section \<open>The contract of a session\<close>

record pg_view =
  pg_lockTimeout :: string
  pg_statementTimeout :: string
  pg_clientMin :: string
  pg_held :: nat

fun set_setting :: "session_setting \<times> string \<Rightarrow> pg_view \<Rightarrow> pg_view" where
  "set_setting (Lock_timeout, v) s = s\<lparr>pg_lockTimeout := v\<rparr>"
| "set_setting (Statement_timeout, v) s = s\<lparr>pg_statementTimeout := v\<rparr>"
| "set_setting (Client_min_messages, v) s = s\<lparr>pg_clientMin := v\<rparr>"

fun query_effect :: "query \<Rightarrow> pg_view \<Rightarrow> pg_view" where
  "query_effect LOCK s = s\<lparr>pg_held := Suc (pg_held s)\<rparr>"
| "query_effect UNLOCK s = s\<lparr>pg_held := pg_held s - 1\<rparr>"
| "query_effect (SetSession kvs) s = fold set_setting kvs s"
| "query_effect QUIET_NOTICES s = s\<lparr>pg_clientMin := ''warning''\<rparr>"
| "query_effect _ s = s"

definition session_row :: "pg_view \<Rightarrow> json" where
  "session_row s = Obj
     [(''lock_timeout'', Str (pg_lockTimeout s)), (''statement_timeout'', Str (pg_statementTimeout s)),
      (''client_min_messages'', Str (pg_clientMin s)), (''held_lock'', Bool (0 < pg_held s))]"

text \<open>
  A statement that succeeds has its effect; one that fails has none - except that a \<open>LOCK\<close> that
  failed may have been granted all the same (a cancel that came too late).
\<close>

locale pg_session =
  fixes execute :: "'w execute"
    and view :: "'w \<Rightarrow> pg_view"
  assumes succeeds: "execute (n, q) w = (Inr rows, w') \<Longrightarrow> view w' = query_effect q (view w)"
    and fails: "execute (n, q) w = (Inl e, w') \<Longrightarrow>
        view w' = view w \<or> q = LOCK \<and> view w' = query_effect LOCK (view w)"
    and reads: "execute (n, READ_SESSION) w = (Inr rows, w') \<Longrightarrow> rows = [session_row (view w)]"
begin

definition session_of :: "pg_view \<Rightarrow> session_settings" where
  "session_of v = \<lparr>ss_lockTimeout = pg_lockTimeout v, ss_statementTimeout = pg_statementTimeout v,
     ss_clientMinMessages = pg_clientMin v, ss_heldLock = (0 < pg_held v)\<rparr>"

lemma readSession_view:
  assumes "readSession execute w = (r, w')"
  shows "view w' = view w \<and> (case r of Inr s \<Rightarrow> s = session_of (view w) | Inl e \<Rightarrow> True)"
proof (cases "execute (stepNamer ''read_session'' READ_SESSION) w")
  case (Pair r1 w1)
  show ?thesis
  proof (cases r1)
    case (Inl e)
    with Pair assms fails [of _ READ_SESSION w e w1] show ?thesis
      by (auto simp: readSession_def io_simps stepNamer_def)
  next
    case (Inr rows)
    with Pair have "rows = [session_row (view w)]" "view w1 = view w"
      using reads [of _ w rows w1] succeeds [of _ READ_SESSION w rows w1] by (simp_all add: stepNamer_def)
    with Pair Inr assms show ?thesis
      by (auto simp: readSession_def io_simps session_of_def session_row_def str_field_def jget_Obj_Cons)
  qed
qed

lemma acquire_view:
  assumes "acquireMigrationLock execute ms (session_of v) report w = (Inr u, w')"
  shows "pg_held (view w') = Suc (pg_held (view w)) \<and> pg_clientMin (view w') = pg_clientMin (view w)"
proof -
  from assms obtain n rows1 w1 n' rows2 kvs where
    "execute (n, SetSession [(Lock_timeout, kvs), (Statement_timeout, ''0'')]) w = (Inr rows1, w1)"
    "execute (n', LOCK) w1 = (Inr rows2, w')"
    by (auto simp: acquireMigrationLock_def stepNamer_def split: prod.splits sum.splits)
  then have "view w1 = fold set_setting [(Lock_timeout, kvs), (Statement_timeout, ''0'')] (view w)"
    and "view w' = query_effect LOCK (view w1)"
    using succeeds by (metis query_effect.simps(3), metis)
  then show ?thesis by simp
qed

lemma restore_effect:
  "query_effect (restoreTimeouts (session_of v)) s =
     s\<lparr>pg_lockTimeout := pg_lockTimeout v, pg_statementTimeout := pg_statementTimeout v\<rparr>"
  by (simp add: restoreTimeouts_def session_of_def)

lemma locked_body_cong:
  assumes held: "pg_held (view w) = Suc (pg_held v)" and cm: "pg_clientMin (view w) = pg_clientMin v"
    and same: "\<And>wb. view wb = v\<lparr>pg_held := Suc (pg_held v), pg_clientMin := ''warning''\<rparr> \<Longrightarrow> body wb = body' wb"
  shows "locked_body execute (session_of v) body w = locked_body execute (session_of v) body' w"
proof -
  have "body w2 = body' w2"
    if "execute (stepNamer ''timeouts_after_lock'' (restoreTimeouts (session_of v))) w = (Inr a, w1)"
      and "execute (stepNamer ''quiet_notices'' QUIET_NOTICES) w1 = (Inr b, w2)" for a w1 b w2
  proof (rule same)
    from that have "view w1 = query_effect (restoreTimeouts (session_of v)) (view w)"
      and "view w2 = query_effect QUIET_NOTICES (view w1)"
      by (auto simp: stepNamer_def dest: succeeds)
    then show "view w2 = v\<lparr>pg_held := Suc (pg_held v), pg_clientMin := ''warning''\<rparr>"
      using held unfolding restore_effect by simp
  qed
  note same' = this
  obtain r1 w1 where one: "execute (stepNamer ''timeouts_after_lock'' (restoreTimeouts (session_of v))) w = (r1, w1)"
    by fastforce
  obtain r2 w2 where two: "execute (stepNamer ''quiet_notices'' QUIET_NOTICES) w1 = (r2, w2)" by fastforce
  show ?thesis
  proof (cases "isl r1 \<or> isl r2")
    case True
    with one two show ?thesis by (cases r1; cases r2) (simp_all add: locked_body_def io_simps)
  next
    case False
    then obtain a b where "r1 = Inr a" "r2 = Inr b" by (cases r1; cases r2) auto
    with same' one two show ?thesis by (simp add: locked_body_def io_simps)
  qed
qed

lemma body_sees_lock:
  assumes "\<And>wb. view wb = (view w)\<lparr>pg_held := Suc (pg_held (view w)), pg_clientMin := ''warning''\<rparr> \<Longrightarrow>
      body wb = body' wb"
  shows "withMigrationLock execute n ms report body w = withMigrationLock execute n ms report body' w"
proof -
  have "locked_body execute s body w2 = locked_body execute s body' w2"
    if "readSession execute w = (Inr s, w1)" and "acquireMigrationLock execute t s report w1 = (Inr u, w2)"
    for s w1 t u w2
  proof -
    from readSession_view [OF that(1)] have s: "s = session_of (view w)" and v: "view w1 = view w" by simp_all
    from acquire_view [OF that(2) [unfolded s]] v show ?thesis
      unfolding s by (intro locked_body_cong assms) simp_all
  qed
  note same = this
  obtain r1 w1 where read: "readSession execute w = (r1, w1)" by fastforce
  show ?thesis
  proof (cases "n = 1 \<and> isl (lock_wait_ms ms) = False \<and> isl r1 = False")
    case False
    with read show ?thesis
      by (cases r1; cases "lock_wait_ms ms") (auto simp: withMigrationLock_def io_simps)
  next
    case True
    then obtain s t where s: "r1 = Inr s" and t: "lock_wait_ms ms = Inr t"
      by (cases r1; cases "lock_wait_ms ms") auto
    obtain r2 w2 where acq: "acquireMigrationLock execute t s report w1 = (r2, w2)" by fastforce
    show ?thesis
    proof (cases r2)
      case (Inl e)
      with True read s t acq show ?thesis by (simp add: withMigrationLock_def io_simps)
    next
      case (Inr u)
      from same [OF read [unfolded s] acq [unfolded Inr]] True read s t acq Inr show ?thesis
        by (simp add: withMigrationLock_def io_simps)
    qed
  qed
qed

definition release_ok :: bool where
  "release_ok \<longleftrightarrow> (\<forall>s q w. q \<noteq> LOCK \<longrightarrow> (\<exists>rows w'. execute (stepNamer (release_step_name s) q) w = (Inr rows, w')))"

lemma release_view:
  assumes "release_ok" and "LOCK \<notin> snd ` set steps"
  shows "view (releaseQuietly execute steps report m w) = fold (\<lambda>(s, q). query_effect q) steps (view w)"
  using assms(2)
proof (induction steps arbitrary: w)
  case (Cons x steps)
  obtain s q where x: "x = (s, q)" by (cases x)
  with Cons.prems have "q \<noteq> LOCK" "LOCK \<notin> snd ` set steps" by auto
  obtain rows w' where ex: "execute (stepNamer (release_step_name s) q) w = (Inr rows, w')"
    using assms(1) \<open>q \<noteq> LOCK\<close> unfolding release_ok_def by blast
  then have "view w' = query_effect q (view w)" by (simp add: stepNamer_def succeeds)
  with ex Cons.IH [of w'] \<open>LOCK \<notin> snd ` set steps\<close> show ?case by (simp add: x)
qed simp

lemma acquire_fails_view:
  assumes ok: "release_ok" and v: "pg_held (view w) = 0"
    and fail: "acquireMigrationLock execute ms (session_of (view w)) report w = (Inl e, w')"
  shows "view w' = view w"
proof -
  let ?wait = "SetSession [(Lock_timeout, show_int \<lfloor>ms\<rfloor> @ ''ms''), (Statement_timeout, ''0'')]"
  obtain r1 w1 where wait: "execute (stepNamer ''lock_wait'' ?wait) w = (r1, w1)" by fastforce
  show ?thesis
  proof (cases r1)
    case (Inl e')
    with wait have "view w1 = view w" using fails [of _ ?wait w e' w1] by (auto simp: stepNamer_def)
    with wait Inl fail show ?thesis by (simp add: acquireMigrationLock_def)
  next
    case (Inr rows)
    with wait have v1: "view w1 = query_effect ?wait (view w)" by (simp add: stepNamer_def succeeds)
    from fail wait Inr obtain e' w2 where lock: "execute (stepNamer ''lock'' LOCK) w1 = (Inl e', w2)"
      and w': "w' = releaseQuietly execute [(Unlock, UNLOCK), (RestoreTimeouts, restoreTimeouts (session_of (view w)))]
        report False w2"
      using v by (auto simp: acquireMigrationLock_def session_of_def split: prod.splits sum.splits)
    from lock have "view w2 = view w1 \<or> view w2 = query_effect LOCK (view w1)"
      using fails [of _ LOCK w1 e' w2] by (auto simp: stepNamer_def)
    then have "view w' = query_effect (restoreTimeouts (session_of (view w))) (query_effect UNLOCK (view w2))"
      unfolding w' by (subst release_view [OF ok]) (auto simp: restoreTimeouts_def)
    with \<open>view w2 = view w1 \<or> _\<close> v1 v show ?thesis
      unfolding restore_effect by auto
  qed
qed

lemma locked_body_held:
  assumes "pg_held (view w) = 1"
    and "\<And>wb. pg_held (view wb) = 1 \<Longrightarrow> pg_held (view (snd (body wb))) = 1"
  shows "pg_held (view (snd (locked_body execute s body w))) = 1"
proof -
  have keep: "pg_held (view w') = 1"
    if "execute (n, q) u = (r, w')" "pg_held (view u) = 1" "q = restoreTimeouts s \<or> q = QUIET_NOTICES" for n q u r w'
    using that succeeds [of n q u _ w'] fails [of n q u _ w']
    by (cases r) (auto simp: restoreTimeouts_def)
  obtain r1 w1 where one: "execute (stepNamer ''timeouts_after_lock'' (restoreTimeouts s)) w = (r1, w1)" by fastforce
  obtain r2 w2 where two: "execute (stepNamer ''quiet_notices'' QUIET_NOTICES) w1 = (r2, w2)" by fastforce
  have h1: "pg_held (view w1) = 1" using keep [OF one [unfolded stepNamer_def] assms(1)] by simp
  have h2: "pg_held (view w2) = 1" using keep [OF two [unfolded stepNamer_def] h1] by simp
  show ?thesis
    using one two h1 h2 assms(2) [OF h2]
    by (cases r1; cases r2) (simp_all add: locked_body_def io_simps)
qed

lemma session_restored:
  assumes ok: "release_ok" and v: "pg_held (view w) = 0"
    and body: "\<And>wb. pg_held (view wb) = 1 \<Longrightarrow> pg_held (view (snd (body wb))) = 1"
  shows "view (snd (withMigrationLock execute n ms report body w)) = view w"
proof -
  obtain r1 w1 where read: "readSession execute w = (r1, w1)" by fastforce
  note r = readSession_view [OF read]
  show ?thesis
  proof (cases "n = 1 \<and> isl (lock_wait_ms ms) = False \<and> isl r1 = False")
    case False
    with read r show ?thesis
      by (cases r1; cases "lock_wait_ms ms") (auto simp: withMigrationLock_def io_simps)
  next
    case True
    then obtain t where t: "lock_wait_ms ms = Inr t" and s: "r1 = Inr (session_of (view w1))"
      using r by (cases r1; cases "lock_wait_ms ms") auto
    obtain r2 w2 where acq: "acquireMigrationLock execute t (session_of (view w1)) report w1 = (r2, w2)" by fastforce
    show ?thesis
    proof (cases r2)
      case (Inl e)
      have "view w2 = view w1"
        using acquire_fails_view [OF ok _ acq [unfolded Inl]] v r by simp
      with True read s t acq Inl r show ?thesis by (simp add: withMigrationLock_def io_simps)
    next
      case (Inr u)
      obtain r3 w3 where run: "locked_body execute (session_of (view w1)) body w2 = (r3, w3)" by fastforce
      from acquire_view [OF acq [unfolded Inr]] v r have "pg_held (view w2) = 1" by simp
      then have "pg_held (view (snd (locked_body execute (session_of (view w1)) body w2))) = 1"
        by (rule locked_body_held) (rule body)
      with run have held: "pg_held (view w3) = 1" by simp
      let ?w4 = "releaseQuietly execute [(Unlock, UNLOCK),
          (RestoreClientMinMessages, SetSession [(Client_min_messages, ss_clientMinMessages (session_of (view w1)))]),
          (RestoreTimeouts, restoreTimeouts (session_of (view w1)))] report True w3"
      have "view ?w4 = view w1"
        using held v r
        by (subst release_view [OF ok]) (auto simp: restoreTimeouts_def session_of_def)
      with True read s t acq Inr run r show ?thesis
        by (simp add: withMigrationLock_def io_simps)
    qed
  qed
qed

end

section \<open>A session in memory\<close>

text \<open>
  A database of one session: the lock may be granted or refused with \<open>55P03\<close>, the journal counts
  the migrations applied.
\<close>

record mem_session =
  ms_view :: pg_view
  ms_lockFree :: bool
  ms_journal :: "int option"

definition mem_execute :: "mem_session execute" where
  "mem_execute st w =
     (case st of (n, q) \<Rightarrow>
       (case q of
          READ_SESSION \<Rightarrow> (Inr [session_row (ms_view w)], w)
        | LOCK \<Rightarrow>
            (if ms_lockFree w then (Inr [], w\<lparr>ms_view := query_effect LOCK (ms_view w)\<rparr>)
             else (Inl (JsError ErrorC ''PostgresError'' ''canceling statement due to lock timeout''
                     (CodeString LOCK_NOT_AVAILABLE) None None None None []), w))
        | TABLE_EXISTS _ \<Rightarrow> (Inr [Obj [(''present'', Bool (ms_journal w \<noteq> None))]], w)
        | COUNT_JOURNAL \<Rightarrow>
            (Inr [Obj [(''n'', Num (Fin (of_int (case ms_journal w of None \<Rightarrow> 0 | Some j \<Rightarrow> j))))]], w)
        | _ \<Rightarrow> (Inr [], w\<lparr>ms_view := query_effect q (ms_view w)\<rparr>)))"

interpretation mem_pg: pg_session mem_execute ms_view
  by unfold_locales (auto simp: mem_execute_def split: query.splits if_splits)

definition mem_start :: mem_session where
  "mem_start =
     \<lparr>ms_view = \<lparr>pg_lockTimeout = ''0'', pg_statementTimeout = ''30s'', pg_clientMin = ''notice'', pg_held = 0\<rparr>,
      ms_lockFree = True, ms_journal = Some 3\<rparr>"

section \<open>Properties\<close>

text \<open>
  C1: a migration runs only under the lock: what the body does is decided by what it does in a
  session that holds the lock exactly once more than before, with the timeouts of the caller
  back in place - two bodies that agree there are indistinguishable, whether the lock is
  granted, refused or the session fails at any step.
\<close>

theorem migration_runs_under_lock:
  assumes "pg_session execute view"
    and "\<And>wb. view wb = (view w)\<lparr>pg_held := Suc (pg_held (view w)), pg_clientMin := ''warning''\<rparr> \<Longrightarrow>
      body wb = body' wb"
  shows "withMigrationLock execute n ms report body w = withMigrationLock execute n ms report body' w"
  by (rule pg_session.body_sees_lock [OF assms])

theorem migration_runs_under_lock_witness:
  "withMigrationLock mem_execute 1 None (\<lambda>_ _ v. v) (\<lambda>v. (Inr (pg_held (ms_view v)), v)) mem_start =
   withMigrationLock mem_execute 1 None (\<lambda>_ _ v. v)
     (\<lambda>v. if pg_held (ms_view v) = 0 then (Inl (plain_error ''not locked''), v) else (Inr (pg_held (ms_view v)), v)) mem_start"
  by (rule migration_runs_under_lock [OF mem_pg.pg_session_axioms]) simp



end
