(* ===== verification/Db_Cli.thy ===== *)
theory Db_Cli
  imports Migration_Lock
begin

text \<open>
  The command line tools of the database (\<open>packages/db/src/cli/run.ts\<close>): migrate, seed, and both.
  What a tool writes is part of the world; the steps are parameters.
\<close>

record 'w cli_world =
  cw_out :: "string list"
  cw_err :: "string list"
  cw_rest :: 'w

definition out_line :: "string \<Rightarrow> 'w cli_world \<Rightarrow> 'w cli_world" where
  "out_line s w = w\<lparr>cw_out := cw_out w @ [s]\<rparr>"

definition err_line :: "string \<Rightarrow> 'w cli_world \<Rightarrow> 'w cli_world" where
  "err_line s w = w\<lparr>cw_err := cw_err w @ [s]\<rparr>"

definition cli_error :: "string \<Rightarrow> thrown option \<Rightarrow> thrown" where
  "cli_error message cause = JsError CliErrorC ''CliError'' message NoCode None None None cause []"

definition SEED_BEFORE_MIGRATE :: string where
  "SEED_BEFORE_MIGRATE = ''table \"app_setting\" does not exist - run db:migrate first''"

definition reportCloseAlsoFailed :: "thrown \<Rightarrow> ('w cli_world, thrown, unit) io" where
  "reportCloseAlsoFailed closeError w =
     (Inr (), err_line (''closing the database connection also failed: '' @ describeError False closeError) w)"

definition closeAfter ::
  "('w cli_world, thrown, 'a) io \<Rightarrow> ('w cli_world, thrown, unit) io \<Rightarrow> (thrown \<Rightarrow> 'a \<Rightarrow> thrown) \<Rightarrow>
   ('w cli_world, thrown, 'a) io" where
  "closeAfter body close afterBody = withCleanup body close reportCloseAlsoFailed afterBody"

record 'w cli_steps =
  st_migrate :: "'w cli_world release_report \<Rightarrow> ('w cli_world, thrown, migration_outcome) io"
  st_hasSettingsTable :: "('w cli_world, thrown, bool) io"
  st_seed :: "('w cli_world, thrown, unit) io"
  st_close :: "('w cli_world, thrown, unit) io"

definition migrations_line :: "migration_outcome \<Rightarrow> string" where
  "migrations_line o' =
     (if mo_applied o' = 0
      then ''migrations: nothing to apply, '' @ show_int (mo_total o') @ '' already applied''
      else ''migrations: applied '' @ show_int (mo_applied o') @ '', '' @ show_int (mo_total o') @ '' in total'')"

definition migrateAndReport :: "'w cli_steps \<Rightarrow> ('w cli_world, thrown, migration_outcome) io" where
  "migrateAndReport steps =
     io_bind (st_migrate steps (\<lambda>s e. err_line (releaseStepFailure s e)))
       (\<lambda>o' w. (Inr o', out_line (migrations_line o') w))"

definition closeFailedAfterRun :: "thrown \<Rightarrow> migration_outcome \<Rightarrow> bool \<Rightarrow> thrown" where
  "closeFailedAfterRun closeError o' seeded =
     (let migrations =
            (if mo_applied o' = 0 then ''found no migrations to apply''
             else ''applied '' @ show_int (mo_applied o') @ '' migration'' @
               (if mo_applied o' = 1 then [] else ''s''));
          ran = (if seeded then migrations @ '' and seeded the settings'' else migrations)
      in cli_error (''closing the database connection failed after the run '' @ ran @ '': '' @
           describeError False closeError) (Some closeError))"

definition runMigrateCli :: "'w cli_steps \<Rightarrow> ('w cli_world, thrown, unit) io" where
  "runMigrateCli steps =
     io_bind (closeAfter (migrateAndReport steps) (st_close steps) (\<lambda>e o'. closeFailedAfterRun e o' False))
       (\<lambda>_. io_return ())"

definition runSeedCli :: "'w cli_steps \<Rightarrow> ('w cli_world, thrown, unit) io" where
  "runSeedCli steps =
     io_bind
       (closeAfter
          (io_bind (st_hasSettingsTable steps) (\<lambda>present.
             if \<not> present then io_throw (cli_error SEED_BEFORE_MIGRATE None) else st_seed steps))
          (st_close steps) (\<lambda>e _. e))
       (\<lambda>_ w. (Inr (), out_line ''app settings seeded'' w))"

definition runSetupCli :: "'w cli_steps \<Rightarrow> ('w cli_world, thrown, unit) io" where
  "runSetupCli steps =
     io_bind
       (closeAfter
          (io_bind (migrateAndReport steps) (\<lambda>o'.
           io_bind (st_seed steps) (\<lambda>_ w. (Inr o', out_line ''app settings seeded'' w))))
          (st_close steps) (\<lambda>e o'. closeFailedAfterRun e o' True))
       (\<lambda>_. io_return ())"

definition runEntry :: "('w cli_world, thrown, unit) io \<Rightarrow> 'w cli_world \<Rightarrow> nat \<times> 'w cli_world" where
  "runEntry main w =
     (case main w of
        (Inr _, w') \<Rightarrow> (0, w')
      | (Inl error, w') \<Rightarrow>
          (1, err_line
             (if instance_of error CliErrorC \<or> instance_of error MigrationLockTimeoutErrorC
              then err_message error else describeError True error) w'))"

section \<open>Lemmas\<close>

text \<open>The line of a failure.\<close>

definition failure_line :: "thrown \<Rightarrow> string" where
  "failure_line error =
     (if instance_of error CliErrorC \<or> instance_of error MigrationLockTimeoutErrorC
      then err_message error else describeError True error)"

lemma runEntry_eq:
  "runEntry main w = (case main w of (Inr _, w') \<Rightarrow> (0, w') | (Inl e, w') \<Rightarrow> (1, err_line (failure_line e) w'))"
  by (simp add: runEntry_def failure_line_def split: prod.splits sum.splits)

lemma closeAfter_eq:
  "closeAfter body close ab w =
     (case body w of
        (Inl e, w1) \<Rightarrow>
          (case close w1 of
             (Inr _, w2) \<Rightarrow> (Inl e, w2)
           | (Inl ce, w2) \<Rightarrow>
               (Inl e, err_line (''closing the database connection also failed: '' @ describeError False ce) w2))
      | (Inr x, w1) \<Rightarrow>
          (case close w1 of (Inr _, w2) \<Rightarrow> (Inr x, w2) | (Inl ce, w2) \<Rightarrow> (Inl (ab ce x), w2)))"
  by (simp add: closeAfter_def withCleanup_def reportCloseAlsoFailed_def split: prod.splits sum.splits)

section \<open>Properties\<close>

text \<open>
  The exit code of migrate-and-seed is 0 exactly when the migration, the seed and the close
  of the connection all succeeded, and then stdout holds the two lines of the run; the seed runs
  only after the migration, the connection is closed whatever failed before, and every failure is
  written: one of the close after a failure of the run on a line of its own, before the run's.
\<close>

theorem setup_cli_outcome:
  "runEntry (runSetupCli steps) w =
     (case st_migrate steps (\<lambda>s e. err_line (releaseStepFailure s e)) w of
        (Inl e, w1) \<Rightarrow>
          (case st_close steps w1 of
             (Inr _, w2) \<Rightarrow> (1, err_line (failure_line e) w2)
           | (Inl ce, w2) \<Rightarrow>
               (1, err_line (failure_line e)
                  (err_line (''closing the database connection also failed: '' @ describeError False ce) w2)))
      | (Inr o', w1) \<Rightarrow>
          (case st_seed steps (out_line (migrations_line o') w1) of
             (Inl e, w2) \<Rightarrow>
               (case st_close steps w2 of
                  (Inr _, w3) \<Rightarrow> (1, err_line (failure_line e) w3)
                | (Inl ce, w3) \<Rightarrow>
                    (1, err_line (failure_line e)
                       (err_line (''closing the database connection also failed: '' @ describeError False ce) w3)))
           | (Inr _, w2) \<Rightarrow>
               (case st_close steps (out_line ''app settings seeded'' w2) of
                  (Inr _, w3) \<Rightarrow> (0, w3)
                | (Inl ce, w3) \<Rightarrow> (1, err_line (err_message (closeFailedAfterRun ce o' True)) w3))))"
proof -
  have "failure_line (closeFailedAfterRun ce o' b) = err_message (closeFailedAfterRun ce o' b)" for ce o' b
    by (simp add: failure_line_def closeFailedAfterRun_def cli_error_def instance_of_def Let_def)
  then show ?thesis
    by (simp add: runEntry_eq runSetupCli_def closeAfter_eq migrateAndReport_def io_simps
        split: prod.splits sum.splits)
qed

end
