(* ===== verification/App_Setting.thy ===== *)
theory App_Setting
  imports Zod_Schemas
begin

text \<open>
  The settings of the application: access by key (\<open>packages/db/src/repos/app-setting.ts\<close>) and the
  seed of the defaults (\<open>seed.ts\<close>).  The repository runs over a database given by its two
  statements; the seed is two statements of its own, modelled by what they do to the table.
\<close>

section \<open>The repository\<close>

record 'w setting_db =
  sdb_select :: "string \<Rightarrow> ('w, thrown, json list) io"
  sdb_upsert :: "string \<Rightarrow> json \<Rightarrow> ('w, thrown, unit) io"

definition setting_get :: "'w setting_db \<Rightarrow> string \<Rightarrow> ('w, thrown, json option) io" where
  "setting_get db key =
     io_bind (sdb_select db key) (\<lambda>rows. io_return (case rows of row # _ \<Rightarrow> Some row | [] \<Rightarrow> None))"

text \<open>\<open>undefined\<close> is \<open>None\<close>: it is refused before the database is asked.\<close>

definition setting_set :: "'w setting_db \<Rightarrow> string \<Rightarrow> json option \<Rightarrow> ('w, thrown, unit) io" where
  "setting_set db key v =
     (case v of
        None \<Rightarrow> io_throw (type_error (''app_setting.'' @ key @
          '': value must not be undefined; the column is NOT NULL, so write the value you mean (an empty object, false) - null is rejected by the database''))
      | Some x \<Rightarrow> sdb_upsert db key x)"

text \<open>The contract of the two statements over one table.\<close>

locale setting_store =
  fixes db :: "'w setting_db"
    and table :: "'w \<Rightarrow> string \<Rightarrow> json option"
  assumes select_row: "sdb_select db k w = (Inr (case table w k of None \<Rightarrow> [] | Some v \<Rightarrow> [v]), w)"
    and upsert_row: "\<exists>w'. sdb_upsert db k v w = (Inr (), w') \<and> table w' = (table w)(k \<mapsto> v)"
begin

lemma get_value: "setting_get db k w = (Inr (table w k), w)"
  by (simp add: setting_get_def io_simps select_row split: option.splits)

lemma get_after_set:
  "\<exists>w'. setting_set db k (Some v) w = (Inr (), w') \<and>
     (\<forall>k'. fst (setting_get db k' w') = Inr (if k' = k then Some v else table w k'))"
  using upsert_row [of k v w] by (auto simp: setting_set_def get_value)

end

type_synonym settings = "string \<Rightarrow> (json \<times> int) option"

definition mem_settings :: "settings setting_db" where
  "mem_settings =
     \<lparr>sdb_select = (\<lambda>k w. (Inr (case w k of None \<Rightarrow> [] | Some (v, _) \<Rightarrow> [v]), w)),
      sdb_upsert = (\<lambda>k v w. (Inr (), w(k \<mapsto> (v, 0))))\<rparr>"

interpretation mem_store: setting_store mem_settings "\<lambda>w k. map_option fst (w k)"
proof unfold_locales
  show "\<exists>w'. sdb_upsert mem_settings k v w = (Inr (), w') \<and>
      (\<lambda>k. map_option fst (w' k)) = (\<lambda>k. map_option fst (w k))(k \<mapsto> v)" for k v w
    by (rule exI [of _ "w(k \<mapsto> (v, 0))"]) (auto simp: mem_settings_def)
qed (auto simp: mem_settings_def split: option.splits)

section \<open>The defaults\<close>

definition defaultQueueSwitches :: "(string \<times> json) list" where
  "defaultQueueSwitches = map (\<lambda>name. (name, Bool True)) QUEUE_NAMES"

definition DEFAULT_APP_SETTINGS :: "(string \<times> json) list" where
  "DEFAULT_APP_SETTINGS =
     [(''radar.weights'', Obj
         [(''velocity'', Num (Fin (1/2))), (''acceleration'', Num (Fin (3/10))),
          (''baselineRatio'', Num (Fin (2/10)))]),
      (QUEUE_SWITCHES_KEY, Obj defaultQueueSwitches)]"

section \<open>The seed\<close>

text \<open>\<open>a || b\<close> of two \<open>jsonb\<close> values: of objects, the keys of both, \<open>b\<close> first where both have one.\<close>

definition as_array :: "json \<Rightarrow> json list" where
  "as_array v = (case v of Arr vs \<Rightarrow> vs | _ \<Rightarrow> [v])"

definition merge_entries :: "(string \<times> json) list \<Rightarrow> (string \<times> json) list \<Rightarrow> (string \<times> json) list" where
  "merge_entries a b =
     map (\<lambda>(k, v). (k, case map_of b k of Some v' \<Rightarrow> v' | None \<Rightarrow> v)) a @
     filter (\<lambda>(k, v). k \<notin> fst ` set a) b"

definition jsonb_concat :: "json \<Rightarrow> json \<Rightarrow> json" where
  "jsonb_concat a b =
     (case (a, b) of
        (Obj xs, Obj ys) \<Rightarrow> Obj (merge_entries xs ys)
      | _ \<Rightarrow> Arr (as_array a @ as_array b))"

text \<open>\<open>IS DISTINCT FROM\<close>, negated: an object is its keys and values, in no order.\<close>

definition same_jsonb :: "json \<Rightarrow> json \<Rightarrow> bool" where
  "same_jsonb a b =
     (case (a, b) of (Obj xs, Obj ys) \<Rightarrow> set xs = set ys | _ \<Rightarrow> a = b)"

text \<open>\<open>insert ... on conflict do update set value = excluded.value || value where ... is distinct\<close>\<close>

definition upsert_default :: "int \<Rightarrow> string \<times> json \<Rightarrow> settings \<Rightarrow> settings" where
  "upsert_default now kv table =
     (case table (fst kv) of
        None \<Rightarrow> table(fst kv \<mapsto> (snd kv, now))
      | Some (v, u) \<Rightarrow>
          (if same_jsonb (jsonb_concat (snd kv) v) v then table
           else table(fst kv \<mapsto> (jsonb_concat (snd kv) v, now))))"

text \<open>The second statement: the names out of the registry are dropped; \<open>jsonb_each\<close> takes objects only.\<close>

definition pruneQueueSwitches :: "int \<Rightarrow> settings \<Rightarrow> thrown + settings" where
  "pruneQueueSwitches now table =
     (case table QUEUE_SWITCHES_KEY of
        None \<Rightarrow> Inr table
      | Some (Obj kvs, u) \<Rightarrow>
          (if list_ex (\<lambda>(k, v). \<not> isQueueName k) kvs
           then Inr (table(QUEUE_SWITCHES_KEY \<mapsto> (Obj (filter (\<lambda>(k, v). isQueueName k) kvs), now)))
           else Inr table)
      | Some (v, u) \<Rightarrow> Inl (plain_error ''cannot call jsonb_each on a non-object''))"

definition seedAppSettings :: "int \<Rightarrow> settings \<Rightarrow> thrown + settings" where
  "seedAppSettings now table = pruneQueueSwitches now (fold (upsert_default now) DEFAULT_APP_SETTINGS table)"

section \<open>Lemmas\<close>

lemma map_of_merge:
  "map_of (merge_entries a b) k =
     (case map_of b k of Some v \<Rightarrow> Some v | None \<Rightarrow> map_of a k)"
proof -
  have "map_of (map (\<lambda>(k, v). (k, case map_of b k of Some v' \<Rightarrow> v' | None \<Rightarrow> v)) a) k =
      map_option (\<lambda>v. case map_of b k of Some v' \<Rightarrow> v' | None \<Rightarrow> v) (map_of a k)"
    by (induction a) (auto split: option.splits)
  moreover have "map_of a k = None \<longleftrightarrow> k \<notin> fst ` set a" by (simp add: map_of_eq_None_iff)
  ultimately show ?thesis
    by (auto simp: merge_entries_def map_add_def map_of_filter_key split: option.splits)
qed

lemma default_switch: "map_of defaultQueueSwitches k = (if isQueueName k then Some (Bool True) else None)"
proof -
  have "map_of (map (\<lambda>name. (name, Bool True)) ns) k = (if k \<in> set ns then Some (Bool True) else None)" for ns
    by (induction ns) auto
  then show ?thesis by (simp add: defaultQueueSwitches_def isQueueName_iff)
qed

lemma map_of_same_set:
  assumes "distinct (map fst xs)" and "distinct (map fst ys)" and "set xs = set ys"
  shows "map_of xs = map_of ys"
  using assms map_of_inject_set by blast

lemma distinct_merge:
  "distinct (map fst a) \<Longrightarrow> distinct (map fst b) \<Longrightarrow> distinct (map fst (merge_entries a b))"
  by (fastforce simp: merge_entries_def comp_def case_prod_unfold distinct_map_filter image_iff)

lemma key_other: "''radar.weights'' \<noteq> QUEUE_SWITCHES_KEY"
  by (simp add: QUEUE_SWITCHES_KEY_def)

text \<open>The value of the switches after the first statement.\<close>

definition switches_after :: "settings \<Rightarrow> (string \<times> json) list \<Rightarrow> bool" where
  "switches_after table kvs \<longleftrightarrow> distinct (map fst kvs) \<and>
     map_of kvs = (case table QUEUE_SWITCHES_KEY of
        Some (Obj old, u) \<Rightarrow> (\<lambda>k. case map_of old k of Some v \<Rightarrow> Some v | None \<Rightarrow> map_of defaultQueueSwitches k)
      | _ \<Rightarrow> map_of defaultQueueSwitches)"

text \<open>The stored switches, when there are any, are an object; its keys are distinct, as in every \<open>jsonb\<close>.\<close>

definition switches_object :: "settings \<Rightarrow> bool" where
  "switches_object table \<longleftrightarrow>
     (case table QUEUE_SWITCHES_KEY of
        None \<Rightarrow> True
      | Some (Obj kvs, u) \<Rightarrow> distinct (map fst kvs)
      | Some _ \<Rightarrow> False)"

lemma distinct_defaults: "distinct (map fst defaultQueueSwitches)"
  by (simp add: defaultQueueSwitches_def comp_def)

lemma upserted_switches:
  assumes "switches_object table"
  shows "\<exists>kvs u. upsert_default now (QUEUE_SWITCHES_KEY, Obj defaultQueueSwitches) table QUEUE_SWITCHES_KEY =
      Some (Obj kvs, u) \<and> switches_after table kvs"
proof (cases "table QUEUE_SWITCHES_KEY")
  case None
  then show ?thesis by (simp add: upsert_default_def switches_after_def distinct_defaults)
next
  case (Some p)
  with assms obtain old u where p: "table QUEUE_SWITCHES_KEY = Some (Obj old, u)" and d: "distinct (map fst old)"
    by (cases p; cases "fst p") (auto simp: switches_object_def)
  let ?m = "merge_entries defaultQueueSwitches old"
  have m: "switches_after table ?m"
    using distinct_merge [OF distinct_defaults d] by (simp add: switches_after_def p map_of_merge fun_eq_iff)
  show ?thesis
  proof (cases "set ?m = set old")
    case True
    then have "map_of ?m = map_of old"
      using map_of_same_set [OF distinct_merge [OF distinct_defaults d] d] by blast
    with True m d p show ?thesis
      by (simp add: upsert_default_def jsonb_concat_def same_jsonb_def switches_after_def)
  next
    case False
    with m p show ?thesis by (simp add: upsert_default_def jsonb_concat_def same_jsonb_def)
  qed
qed

text \<open>Both statements together: the switches, and every other setting.\<close>

definition seeded_switches :: "settings \<Rightarrow> string \<Rightarrow> json option" where
  "seeded_switches table k =
     (if isQueueName k
      then (case table QUEUE_SWITCHES_KEY of
              Some (Obj old, u) \<Rightarrow> (case map_of old k of Some v \<Rightarrow> Some v | None \<Rightarrow> Some (Bool True))
            | _ \<Rightarrow> Some (Bool True))
      else None)"

lemma filter_known: "\<not> list_ex (\<lambda>(k, v). \<not> isQueueName k) kvs \<Longrightarrow> filter (\<lambda>(k, v). isQueueName k) kvs = kvs"
  by (induction kvs) auto

lemma pruned_switches:
  assumes "table QUEUE_SWITCHES_KEY = Some (Obj kvs, u)"
  shows "\<exists>u'. pruneQueueSwitches now table =
    Inr (table(QUEUE_SWITCHES_KEY \<mapsto> (Obj (filter (\<lambda>(k, v). isQueueName k) kvs), u')))"
proof (cases "list_ex (\<lambda>(k, v). \<not> isQueueName k) kvs")
  case True
  with assms show ?thesis by (auto simp: pruneQueueSwitches_def)
next
  case False
  then have "table(QUEUE_SWITCHES_KEY \<mapsto> (Obj (filter (\<lambda>(k, v). isQueueName k) kvs), u)) = table"
    using assms by (simp add: filter_known fun_upd_idem)
  moreover have "pruneQueueSwitches now table = Inr table"
    using False assms by (simp add: pruneQueueSwitches_def)
  ultimately show ?thesis by metis
qed

lemma seed_switches:
  assumes "switches_object table"
  shows "\<exists>table' kvs u. seedAppSettings now table = Inr table' \<and>
    table' QUEUE_SWITCHES_KEY = Some (Obj kvs, u) \<and> distinct (map fst kvs) \<and>
    map_of kvs = seeded_switches table \<and>
    (\<forall>k. k \<noteq> QUEUE_SWITCHES_KEY \<longrightarrow> k \<noteq> ''radar.weights'' \<longrightarrow> table' k = table k)"
proof -
  let ?t1 = "upsert_default now (''radar.weights'', snd (hd DEFAULT_APP_SETTINGS)) table"
  let ?t2 = "upsert_default now (QUEUE_SWITCHES_KEY, Obj defaultQueueSwitches) ?t1"
  have fold: "fold (upsert_default now) DEFAULT_APP_SETTINGS table = ?t2"
    by (simp add: DEFAULT_APP_SETTINGS_def)
  have t1: "?t1 k = table k" if "k \<noteq> ''radar.weights''" for k
    using that by (auto simp: upsert_default_def split: option.splits)
  have t2: "?t2 k = ?t1 k" if "k \<noteq> QUEUE_SWITCHES_KEY" for k
    using that by (auto simp: upsert_default_def split: option.splits)
  have same: "?t1 QUEUE_SWITCHES_KEY = table QUEUE_SWITCHES_KEY" by (rule t1) (simp add: key_other [symmetric])
  then have "switches_object ?t1" using assms by (simp add: switches_object_def)
  from upserted_switches [OF this] obtain kvs u where kvs: "?t2 QUEUE_SWITCHES_KEY = Some (Obj kvs, u)"
    and after: "switches_after ?t1 kvs" by blast
  obtain u' where prune: "pruneQueueSwitches now ?t2 =
      Inr (?t2(QUEUE_SWITCHES_KEY \<mapsto> (Obj (filter (\<lambda>(k, v). isQueueName k) kvs), u')))"
    using pruned_switches [of ?t2 kvs u now] kvs by blast
  have "map_of (filter (\<lambda>(k, v). isQueueName k) kvs) k = seeded_switches table k" for k
    using after unfolding switches_after_def same
    by (simp add: map_of_filter_key seeded_switches_def default_switch split: option.splits json.splits prod.splits)
  moreover have "distinct (map fst (filter (\<lambda>(k, v). isQueueName k) kvs))"
    using after by (simp add: switches_after_def distinct_map_filter)
  moreover have "seedAppSettings now table =
      Inr (?t2(QUEUE_SWITCHES_KEY \<mapsto> (Obj (filter (\<lambda>(k, v). isQueueName k) kvs), u')))"
    unfolding seedAppSettings_def fold by (rule prune)
  ultimately show ?thesis using t1 t2
    by (intro exI [of _ "?t2(QUEUE_SWITCHES_KEY \<mapsto> (Obj (filter (\<lambda>(k, v). isQueueName k) kvs), u'))"]
        exI [of _ "filter (\<lambda>(k, v). isQueueName k) kvs"] exI [of _ u']) (simp add: fun_eq_iff)
qed

section \<open>Properties\<close>

text \<open>
  A seed makes the switches whole and keeps what the operator set: afterwards there is
  exactly one switch for every queue of the registry and none for any other name, a flag that
  was stored for a queue is kept and a missing one is on; no setting but the two defaults is
  touched, and the worker's schema accepts the result when the stored flags were booleans.
\<close>

theorem seed_keeps_operator_switches:
  assumes "switches_object table"
  shows "case seedAppSettings now table of
     Inl e \<Rightarrow> False
   | Inr table' \<Rightarrow>
       (case table' QUEUE_SWITCHES_KEY of
          Some (Obj kvs, u) \<Rightarrow>
            distinct (map fst kvs) \<and> set (map fst kvs) = set QUEUE_NAMES \<and>
            (\<forall>k \<in> set QUEUE_NAMES. map_of kvs k =
               (case table QUEUE_SWITCHES_KEY of
                  Some (Obj old, u) \<Rightarrow> (case map_of old k of Some v \<Rightarrow> Some v | None \<Rightarrow> Some (Bool True))
                | _ \<Rightarrow> Some (Bool True))) \<and>
            (accepts QueueSwitchesSchema (case table QUEUE_SWITCHES_KEY of Some (v, u) \<Rightarrow> v | None \<Rightarrow> Obj []) \<longrightarrow>
             accepts QueueSwitchesSchema (Obj kvs))
        | _ \<Rightarrow> False) \<and>
       (\<forall>k. k \<noteq> QUEUE_SWITCHES_KEY \<and> k \<noteq> ''radar.weights'' \<longrightarrow> table' k = table k)"
proof -
  obtain table' kvs u where t': "seedAppSettings now table = Inr table'"
    and kvs: "table' QUEUE_SWITCHES_KEY = Some (Obj kvs, u)" "distinct (map fst kvs)"
    and m: "map_of kvs = seeded_switches table"
    and other: "\<forall>k. k \<noteq> QUEUE_SWITCHES_KEY \<longrightarrow> k \<noteq> ''radar.weights'' \<longrightarrow> table' k = table k"
    using seed_switches [OF assms, of now] by blast
  have known: "seeded_switches table k \<noteq> None \<longleftrightarrow> k \<in> set QUEUE_NAMES" for k
    by (auto simp: seeded_switches_def isQueueName_iff split: option.splits json.splits prod.splits)
  have "set (map fst kvs) = {k. map_of kvs k \<noteq> None}" by (auto simp: map_of_eq_None_iff)
  also have "\<dots> = set QUEUE_NAMES" unfolding m using known by blast
  finally have names: "set (map fst kvs) = set QUEUE_NAMES" .
  have bools: "accepts QueueSwitchesSchema (Obj kvs)"
    if ok: "accepts QueueSwitchesSchema (case table QUEUE_SWITCHES_KEY of Some (v, u) \<Rightarrow> v | None \<Rightarrow> Obj [])"
  proof -
    have "\<exists>b. v = Bool b" if "(k, v) \<in> set kvs" for k v
    proof -
      from that kvs(2) m have sw: "seeded_switches table k = Some v" by (metis map_of_is_SomeI)
      show ?thesis
      proof (cases "\<exists>old u. table QUEUE_SWITCHES_KEY = Some (Obj old, u)")
        case True
        then obtain old u where old: "table QUEUE_SWITCHES_KEY = Some (Obj old, u)" by blast
        with ok have "\<forall>(k, v) \<in> set old. \<exists>b. v = Bool b"
          by (auto simp: QueueSwitchesSchema_def list_all_iff split: json.splits)
        with sw old map_of_SomeD [of old k] show ?thesis
          by (fastforce simp: seeded_switches_def split: if_splits option.splits)
      next
        case False
        with sw show ?thesis
          by (auto simp: seeded_switches_def split: if_splits option.splits json.splits)
      qed
    qed
    then show ?thesis by (fastforce simp: QueueSwitchesSchema_def list_all_iff)
  qed
  have vals: "\<forall>k \<in> set QUEUE_NAMES. map_of kvs k = (case table QUEUE_SWITCHES_KEY of
      Some (Obj old, u) \<Rightarrow> (case map_of old k of Some v \<Rightarrow> Some v | None \<Rightarrow> Some (Bool True))
    | _ \<Rightarrow> Some (Bool True))"
    by (simp add: m seeded_switches_def isQueueName_iff)
  show ?thesis
    unfolding t' using kvs names vals bools other by simp
qed

theorem seed_keeps_operator_switches_witness:
  "case seedAppSettings 7 [QUEUE_SWITCHES_KEY \<mapsto> (Obj [(''radar.score'', Bool False), (''gone'', Bool True)], 3)] of
     Inr table' \<Rightarrow> (case table' QUEUE_SWITCHES_KEY of
        Some (Obj kvs, u) \<Rightarrow> map_of kvs ''radar.score'' = Some (Bool False) \<and>
          map_of kvs ''system.dlq'' = Some (Bool True)
      | _ \<Rightarrow> False)
   | Inl e \<Rightarrow> False"
proof -
  let ?t = "[QUEUE_SWITCHES_KEY \<mapsto> (Obj [(''radar.score'', Bool False), (''gone'', Bool True)], 3::int)]"
  have ok: "switches_object ?t" by (simp add: switches_object_def)
  have q: "''radar.score'' \<in> set QUEUE_NAMES" "''system.dlq'' \<in> set QUEUE_NAMES"
    by (simp_all add: QUEUE_NAMES_def)
  show ?thesis
    using seed_keeps_operator_switches [OF ok, of 7] q
    by (auto split: sum.splits option.splits json.splits)
qed

end
