(* ===== verification/Queue_Switches.thy ===== *)
theory Queue_Switches
  imports App_Setting
begin

text \<open>
  The pause state of the queues as the setting wants it (\<open>apps/worker/src/lib/queue-switches.ts\<close>):
  one pass over the registry, and the resync that runs a pass per tick without overlap.
\<close>

section \<open>Ports\<close>

definition QUEUE_SWITCH_SYNC_INTERVAL_MS :: nat where "QUEUE_SWITCH_SYNC_INTERVAL_MS = 60000"

definition switches_unavailable :: "string \<Rightarrow> thrown option \<Rightarrow> thrown" where
  "switches_unavailable message cause =
     JsError QueueSwitchesUnavailableErrorC ''QueueSwitchesUnavailableError'' message NoCode None None None cause []"

text \<open>
  The process a pass runs in: the names warned about (when the caller shares a set), the lines,
  and everything else.
\<close>

record 'w switch_world =
  sw_warned :: "string list option"
  sw_log :: "log_line list"
  sw_rest :: 'w

record 'w switch_deps =
  sd_db :: "'w switch_world setting_db"
  sd_getQueue :: "queue_name \<Rightarrow> ('w switch_world, thrown, unit) io"
  sd_isPaused :: "queue_name \<Rightarrow> ('w switch_world, thrown, bool) io"
  sd_pause :: "queue_name \<Rightarrow> ('w switch_world, thrown, unit) io"
  sd_resume :: "queue_name \<Rightarrow> ('w switch_world, thrown, unit) io"
  sd_zod :: zod_parse

definition switch_line :: "log_level \<Rightarrow> log_fields \<Rightarrow> string \<Rightarrow> 'w switch_world \<Rightarrow> 'w switch_world" where
  "switch_line level fs m w =
     w\<lparr>sw_log := sw_log w @ [\<lparr>ll_level = level, ll_fields = fs, ll_message = m\<rparr>]\<rparr>"

definition warnOnce :: "string \<Rightarrow> log_fields \<Rightarrow> string \<Rightarrow> 'w switch_world \<Rightarrow> 'w switch_world" where
  "warnOnce key fs m w =
     (case sw_warned w of
        Some ks \<Rightarrow> (if List.member ks key then w else switch_line Warn fs m (w\<lparr>sw_warned := Some (key # ks)\<rparr>))
      | None \<Rightarrow> switch_line Warn fs m w)"

section \<open>One pass\<close>

definition readQueueSwitches :: "'w switch_deps \<Rightarrow> ('w switch_world, thrown, (string \<times> json) list) io" where
  "readQueueSwitches deps =
     io_bind (setting_get (sd_db deps) QUEUE_SWITCHES_KEY) (\<lambda>raw.
       case raw of
         None \<Rightarrow> io_throw (switches_unavailable
           (''app_setting.\"'' @ QUEUE_SWITCHES_KEY @ ''\" is missing; run \"pnpm db:seed\" before starting the worker'') None)
       | Some v \<Rightarrow>
           (case sd_zod deps QueueSwitchesSchema v of
              Inl issues \<Rightarrow> io_throw (switches_unavailable
                (''app_setting.\"'' @ QUEUE_SWITCHES_KEY @ ''\" is not a map of queue name to boolean'')
                (Some (JsError ZodErrorC ''ZodError'' [] NoCode None None None None [])))
            | Inr (Obj kvs) \<Rightarrow> io_return kvs
            | Inr _ \<Rightarrow> io_return []))"

definition setting_field :: "string \<times> log_value" where
  "setting_field = (''setting'', LVal (Str QUEUE_SWITCHES_KEY))"

fun warn_unknown :: "(string \<times> json) list \<Rightarrow> 'w switch_world \<Rightarrow> 'w switch_world" where
  "warn_unknown [] w = w"
| "warn_unknown ((key, v) # kvs) w =
     warn_unknown kvs
       (if isQueueName key then w
        else warnOnce (''unknown:'' @ key) [(''key'', LVal (Str key)), setting_field]
               ''queue switch for a name that is not in the registry; ignored - run pnpm db:seed to drop it'' w)"

text \<open>The queues whose switch says something, each opened: its name and whether it is to run.\<close>

fun wanted_queues ::
  "'w switch_deps \<Rightarrow> (string \<times> json) list \<Rightarrow> queue_name list \<Rightarrow>
   ('w switch_world, thrown, (queue_name \<times> bool) list) io" where
  "wanted_queues deps switches [] = io_return []"
| "wanted_queues deps switches (name # names) =
     (case map_of switches name of
        None \<Rightarrow> (\<lambda>w. wanted_queues deps switches names
          (warnOnce (''missing:'' @ name) [(''queue'', LVal (Str name)), setting_field]
             ''no switch for this queue; leaving its state as it is - run pnpm db:seed'' w))
      | Some v \<Rightarrow>
          io_bind (sd_getQueue deps name) (\<lambda>_.
          io_bind (wanted_queues deps switches names) (\<lambda>rest.
          io_return ((name, v = Bool True) # rest))))"

text \<open>\<open>Promise.all\<close> of the reads: every queue is asked; one refusal refuses the pass.\<close>

fun read_states ::
  "'w switch_deps \<Rightarrow> (queue_name \<times> bool) list \<Rightarrow>
   ('w switch_world, thrown, (queue_name \<times> bool \<times> bool) list) io" where
  "read_states deps [] = io_return []"
| "read_states deps ((name, enabled) # rest) = (\<lambda>w.
     (case sd_isPaused deps name w of
        (r, w1) \<Rightarrow>
          (case read_states deps rest w1 of
             (rs, w2) \<Rightarrow>
               (case r of
                  Inl e \<Rightarrow> (Inl e, w2)
                | Inr paused \<Rightarrow>
                    (case rs of
                       Inl e \<Rightarrow> (Inl e, w2)
                     | Inr states \<Rightarrow> (Inr ((name, enabled, paused) # states), w2))))))"

record switch_result =
  sr_paused :: "queue_name list"
  sr_resumed :: "queue_name list"

fun apply_states ::
  "'w switch_deps \<Rightarrow> (queue_name \<times> bool \<times> bool) list \<Rightarrow> switch_result \<Rightarrow>
   ('w switch_world, thrown, switch_result) io" where
  "apply_states deps [] res = io_return res"
| "apply_states deps ((name, enabled, paused) # rest) res =
     (if enabled \<and> paused then
        io_bind (sd_resume deps name) (\<lambda>_ w.
          apply_states deps rest (res\<lparr>sr_resumed := sr_resumed res @ [name]\<rparr>)
            (switch_line Info [(''queue'', LVal (Str name))] ''queue resumed by its switch'' w))
      else if \<not> enabled \<and> \<not> paused then
        io_bind (sd_pause deps name) (\<lambda>_ w.
          apply_states deps rest (res\<lparr>sr_paused := sr_paused res @ [name]\<rparr>)
            (switch_line Info [(''queue'', LVal (Str name))] ''queue paused by its switch'' w))
      else apply_states deps rest res)"

definition applyQueueSwitches :: "'w switch_deps \<Rightarrow> ('w switch_world, thrown, switch_result) io" where
  "applyQueueSwitches deps =
     io_bind (readQueueSwitches deps) (\<lambda>switches w.
       io_bind (wanted_queues deps switches QUEUE_NAMES) (\<lambda>wanted.
       io_bind (read_states deps wanted) (\<lambda>states.
       apply_states deps states \<lparr>sr_paused = [], sr_resumed = []\<rparr>))
       (warn_unknown switches w))"

section \<open>The resync\<close>

datatype sync_event = Tick | PassSettles "thrown option" | StopSync

text \<open>\<open>sy_starts\<close> counts the passes begun; a stop resolves once the pass in flight has.\<close>

record sync_state =
  sy_inFlight :: bool
  sy_timer :: bool
  sy_stopping :: bool
  sy_starts :: nat
  sy_ends :: nat
  sy_log :: "log_line list"

definition startQueueSwitchSync :: "sync_state \<Rightarrow> sync_event \<Rightarrow> sync_state" where
  "startQueueSwitchSync s e =
     (case e of
        Tick \<Rightarrow>
          (if \<not> sy_timer s \<or> sy_inFlight s then s
           else s\<lparr>sy_inFlight := True, sy_starts := Suc (sy_starts s)\<rparr>)
      | PassSettles r \<Rightarrow>
          (if \<not> sy_inFlight s then s
           else s\<lparr>sy_inFlight := False, sy_ends := Suc (sy_ends s),
                  sy_log := sy_log s @
                    (case r of None \<Rightarrow> []
                     | Some err \<Rightarrow> [\<lparr>ll_level = ErrorLevel, ll_fields = [(''err'', LErr err), setting_field],
                         ll_message = ''could not re-read the queue switches; queue states left as they are''\<rparr>])\<rparr>)
      | StopSync \<Rightarrow> s\<lparr>sy_timer := False, sy_stopping := True\<rparr>)"

definition sync_start :: sync_state where
  "sync_start = \<lparr>sy_inFlight = False, sy_timer = True, sy_stopping = False, sy_starts = 0, sy_ends = 0, sy_log = []\<rparr>"

definition stop_resolved :: "sync_state \<Rightarrow> bool" where
  "stop_resolved s \<longleftrightarrow> sy_stopping s \<and> \<not> sy_inFlight s"

interpretation sync: event_machine startQueueSwitchSync
    "\<lambda>s. sy_starts s = sy_ends s + (if sy_inFlight s then 1 else 0) \<and> (sy_stopping s \<longrightarrow> \<not> sy_timer s)"
  by unfold_locales (auto simp: startQueueSwitchSync_def split: sync_event.splits option.splits)

lemma stopped_stays:
  "sy_stopping s \<Longrightarrow> \<not> sy_timer s \<Longrightarrow> stop_resolved s \<Longrightarrow>
     sy_starts (foldl startQueueSwitchSync s es) = sy_starts s"
  by (induction es arbitrary: s)
    (auto simp: startQueueSwitchSync_def stop_resolved_def split: sync_event.splits)

section \<open>Queues that answer\<close>

text \<open>
  The contract of the queues a pass talks to: they open, say whether they are paused, and pause
  and resume; nothing but the calls of a pass changes their state, and a line of the log does not.
\<close>

locale pausable_queues = setting_store "sd_db deps" table
  for deps :: "'w switch_deps" and table :: "'w switch_world \<Rightarrow> string \<Rightarrow> json option" +
  fixes paused :: "'w switch_world \<Rightarrow> queue_name \<Rightarrow> bool"
  assumes opens: "\<exists>w'. sd_getQueue deps n w = (Inr (), w') \<and> paused w' = paused w"
    and says: "sd_isPaused deps n w = (Inr (paused w n), w)"
    and pauses: "\<exists>w'. sd_pause deps n w = (Inr (), w') \<and> paused w' = (paused w)(n := True)"
    and resumes: "\<exists>w'. sd_resume deps n w = (Inr (), w') \<and> paused w' = (paused w)(n := False)"
    and rest_only: "paused (w\<lparr>sw_log := l\<rparr>) = paused w" "paused (w\<lparr>sw_warned := ks\<rparr>) = paused w"
    and zod: "zod_contract (sd_zod deps)"
begin

lemma line_keeps [simp]: "paused (switch_line lv fs m w) = paused w"
  by (simp add: switch_line_def rest_only)

lemma warn_keeps [simp]: "paused (warnOnce k fs m w) = paused w"
  by (simp add: warnOnce_def rest_only split: option.splits)

lemma warn_unknown_keeps [simp]: "paused (warn_unknown kvs w) = paused w"
  by (induction kvs w rule: warn_unknown.induct) simp_all

lemma wanted_ok:
  "\<exists>w'. wanted_queues deps sw names w =
      (Inr (List.map_filter (\<lambda>n. map_option (\<lambda>v. (n, v = Bool True)) (map_of sw n)) names), w') \<and>
    paused w' = paused w"
proof (induction names arbitrary: w)
  case Nil
  then show ?case by (simp add: io_simps map_filter_simps)
next
  case (Cons n names)
  show ?case
  proof (cases "map_of sw n")
    case None
    let ?w = "warnOnce (''missing:'' @ n) [(''queue'', LVal (Str n)), setting_field]
        ''no switch for this queue; leaving its state as it is - run pnpm db:seed'' w"
    obtain w' where "wanted_queues deps sw names ?w =
        (Inr (List.map_filter (\<lambda>n. map_option (\<lambda>v. (n, v = Bool True)) (map_of sw n)) names), w')"
      "paused w' = paused w" using Cons.IH [of ?w] by auto
    with None show ?thesis by (simp add: map_filter_simps)
  next
    case (Some v)
    obtain w1 where w1: "sd_getQueue deps n w = (Inr (), w1)" "paused w1 = paused w" using opens by blast
    obtain w' where "wanted_queues deps sw names w1 =
        (Inr (List.map_filter (\<lambda>n. map_option (\<lambda>v. (n, v = Bool True)) (map_of sw n)) names), w')"
      "paused w' = paused w" using Cons.IH [of w1] w1 by auto
    with Some w1 show ?thesis by (simp add: map_filter_simps io_simps)
  qed
qed

lemma states_ok: "read_states deps wanted w = (Inr (map (\<lambda>(n, e). (n, e, paused w n)) wanted), w)"
  by (induction wanted) (auto simp: says io_simps)

text \<open>What a pass leaves: every queue listed as its switch wants it.\<close>

lemma apply_ok:
  assumes "distinct (map fst sts)" and "\<forall>(n, e, p) \<in> set sts. paused w n = p"
  shows "\<exists>w'. apply_states deps sts res w =
      (Inr \<lparr>sr_paused = sr_paused res @ map fst (filter (\<lambda>(n, e, p). \<not> e \<and> \<not> p) sts),
            sr_resumed = sr_resumed res @ map fst (filter (\<lambda>(n, e, p). e \<and> p) sts)\<rparr>, w') \<and>
    (\<forall>n. paused w' n = (case map_of sts n of Some (e, p) \<Rightarrow> \<not> e | None \<Rightarrow> paused w n))"
  using assms
proof (induction sts arbitrary: res w)
  case Nil
  then show ?case by (simp add: io_simps)
next
  case (Cons x sts)
  obtain n e p where x: "x = (n, e, p)" by (cases x)
  have p: "paused w n = p" and fresh: "n \<notin> fst ` set sts" and d: "distinct (map fst sts)"
    using Cons.prems x by auto
  have none: "map_of sts n = None" using fresh by (simp add: map_of_eq_None_iff)
  have keep: "\<forall>(m, e', p') \<in> set sts. paused u m = p'" if "\<forall>m. m \<noteq> n \<longrightarrow> paused u m = paused w m" for u
    using Cons.prems(2) x that fresh by (fastforce simp: image_iff)
  have now: "(\<forall>na. paused u na = (case map_of (x # sts) na of Some (e, p) \<Rightarrow> \<not> e | None \<Rightarrow> paused w na))"
    if "\<forall>na. paused u na = (case map_of sts na of Some (e, p) \<Rightarrow> \<not> e | None \<Rightarrow> paused v na)"
      and "paused v = (paused w)(n := \<not> e)" for u v
    using that none x by (simp split: option.splits prod.splits)
  consider "e \<and> p" | "\<not> e \<and> \<not> p" | "e \<noteq> p" by blast
  then show ?case
  proof cases
    case 1
    obtain w1 where w1: "sd_resume deps n w = (Inr (), w1)" "paused w1 = (paused w)(n := False)"
      using resumes by blast
    let ?w2 = "switch_line Info [(''queue'', LVal (Str n))] ''queue resumed by its switch'' w1"
    have w2: "paused ?w2 = (paused w)(n := \<not> e)" using w1 1 by simp
    then have "\<forall>m. m \<noteq> n \<longrightarrow> paused ?w2 m = paused w m" by simp
    from Cons.IH [OF d keep [OF this], of "res\<lparr>sr_resumed := sr_resumed res @ [n]\<rparr>"] obtain w' where
      run: "apply_states deps sts (res\<lparr>sr_resumed := sr_resumed res @ [n]\<rparr>) ?w2 =
        (Inr \<lparr>sr_paused = sr_paused res @ map fst (filter (\<lambda>(n, e, p). \<not> e \<and> \<not> p) sts),
              sr_resumed = (sr_resumed res @ [n]) @ map fst (filter (\<lambda>(n, e, p). e \<and> p) sts)\<rparr>, w')"
      and st: "\<forall>na. paused w' na = (case map_of sts na of Some (e, p) \<Rightarrow> \<not> e | None \<Rightarrow> paused ?w2 na)"
      by auto
    from run w1(1) 1 x now [OF st w2] show ?thesis by (intro exI [of _ w']) (simp add: io_simps)
  next
    case 2
    obtain w1 where w1: "sd_pause deps n w = (Inr (), w1)" "paused w1 = (paused w)(n := True)"
      using pauses by blast
    let ?w2 = "switch_line Info [(''queue'', LVal (Str n))] ''queue paused by its switch'' w1"
    have w2: "paused ?w2 = (paused w)(n := \<not> e)" using w1 2 by simp
    then have "\<forall>m. m \<noteq> n \<longrightarrow> paused ?w2 m = paused w m" by simp
    from Cons.IH [OF d keep [OF this], of "res\<lparr>sr_paused := sr_paused res @ [n]\<rparr>"] obtain w' where
      run: "apply_states deps sts (res\<lparr>sr_paused := sr_paused res @ [n]\<rparr>) ?w2 =
        (Inr \<lparr>sr_paused = (sr_paused res @ [n]) @ map fst (filter (\<lambda>(n, e, p). \<not> e \<and> \<not> p) sts),
              sr_resumed = sr_resumed res @ map fst (filter (\<lambda>(n, e, p). e \<and> p) sts)\<rparr>, w')"
      and st: "\<forall>na. paused w' na = (case map_of sts na of Some (e, p) \<Rightarrow> \<not> e | None \<Rightarrow> paused ?w2 na)"
      by auto
    from run w1(1) 2 x now [OF st w2] show ?thesis by (intro exI [of _ w']) (simp add: io_simps)
  next
    case 3
    have "paused w n = (\<not> e)" using p 3 by auto
    then have w2: "paused w = (paused w)(n := \<not> e)" by (simp add: fun_upd_idem)
    have "\<forall>m. m \<noteq> n \<longrightarrow> paused w m = paused w m" by simp
    from Cons.IH [OF d keep [OF this], of res] obtain w' where
      run: "apply_states deps sts res w =
        (Inr \<lparr>sr_paused = sr_paused res @ map fst (filter (\<lambda>(n, e, p). \<not> e \<and> \<not> p) sts),
              sr_resumed = sr_resumed res @ map fst (filter (\<lambda>(n, e, p). e \<and> p) sts)\<rparr>, w')"
      and st: "\<forall>na. paused w' na = (case map_of sts na of Some (e, p) \<Rightarrow> \<not> e | None \<Rightarrow> paused w na)"
      by auto
    from run 3 x now [OF st w2] show ?thesis by (intro exI [of _ w']) auto
  qed
qed


lemma read_ok:
  assumes "table w QUEUE_SWITCHES_KEY = Some (Obj sw)" and "accepts QueueSwitchesSchema (Obj sw)"
  shows "readQueueSwitches deps w = (Inr sw, w)"
proof -
  obtain v where v: "sd_zod deps QueueSwitchesSchema (Obj sw) = Inr v"
    using contract_total [OF zod assms(2)] by blast
  have "holds_no_object ZBoolean" by simp
  then have "v = Obj sw" using contract_record [OF zod v [unfolded QueueSwitchesSchema_def]] by blast
  with v assms(1) show ?thesis by (simp add: readQueueSwitches_def io_simps get_value)
qed

lemma read_fails:
  assumes "case table w QUEUE_SWITCHES_KEY of None \<Rightarrow> True | Some v \<Rightarrow> \<not> accepts QueueSwitchesSchema v"
  shows "\<exists>m c. applyQueueSwitches deps w = (Inl (switches_unavailable m c), w)"
proof (cases "table w QUEUE_SWITCHES_KEY")
  case None
  then show ?thesis by (simp add: applyQueueSwitches_def readQueueSwitches_def io_simps get_value) blast
next
  case (Some v)
  then obtain issues where "sd_zod deps QueueSwitchesSchema v = Inl issues"
    using assms contract_accepts [OF zod] by (cases "sd_zod deps QueueSwitchesSchema v") auto
  with Some show ?thesis by (simp add: applyQueueSwitches_def readQueueSwitches_def io_simps get_value) blast
qed

lemma pass_ok:
  assumes "table w QUEUE_SWITCHES_KEY = Some (Obj sw)" and "accepts QueueSwitchesSchema (Obj sw)"
  shows "\<exists>w'. applyQueueSwitches deps w =
      (Inr \<lparr>sr_paused = filter (\<lambda>n. map_of sw n = Some (Bool False) \<and> \<not> paused w n) QUEUE_NAMES,
            sr_resumed = filter (\<lambda>n. map_of sw n = Some (Bool True) \<and> paused w n) QUEUE_NAMES\<rparr>, w') \<and>
    (\<forall>n. paused w' n =
       (if n \<in> set QUEUE_NAMES \<and> map_of sw n \<noteq> None then map_of sw n \<noteq> Some (Bool True) else paused w n))"
proof -
  let ?f = "\<lambda>n. map_option (\<lambda>v. (n, v = Bool True)) (map_of sw n)"
  let ?sts = "\<lambda>ns. map (\<lambda>(n, e). (n, e, paused w n)) (List.map_filter ?f ns)"
  have bools: "\<exists>b. v = Bool b" if "map_of sw n = Some v" for n v
  proof -
    have "accepts ZBoolean v" using assms(2) map_of_SomeD [OF that]
      by (auto simp: QueueSwitchesSchema_def list_all_iff)
    then show ?thesis by (cases v) auto
  qed
  obtain w1 where w1: "wanted_queues deps sw QUEUE_NAMES (warn_unknown sw w) =
      (Inr (List.map_filter ?f QUEUE_NAMES), w1)" "paused w1 = paused w"
    using wanted_ok [of sw QUEUE_NAMES "warn_unknown sw w"] by auto
  have fsts: "map fst (?sts ns) = filter (\<lambda>n. map_of sw n \<noteq> None) ns" for ns
    by (induction ns) (auto simp: map_filter_simps)
  have lists: "map fst (filter (\<lambda>(n, e, p). \<not> e \<and> \<not> p) (?sts ns)) =
        filter (\<lambda>n. map_of sw n = Some (Bool False) \<and> \<not> paused w n) ns \<and>
      map fst (filter (\<lambda>(n, e, p). e \<and> p) (?sts ns)) =
        filter (\<lambda>n. map_of sw n = Some (Bool True) \<and> paused w n) ns" for ns
  proof (induction ns)
    case Nil
    then show ?case by (simp add: map_filter_simps)
  next
    case (Cons a ns)
    then show ?case using bools [of a] by (cases "map_of sw a") (auto simp: map_filter_simps)
  qed
  have looks: "map_of (?sts ns) n = (if n \<in> set ns then map_option (\<lambda>v. (v = Bool True, paused w n)) (map_of sw n) else None)" for ns n
    by (induction ns) (auto simp: map_filter_simps split: option.splits)
  have d: "distinct (map fst (?sts QUEUE_NAMES))" unfolding fsts by simp
  have p: "\<forall>(n, e, p) \<in> set (?sts QUEUE_NAMES). paused w1 n = p" by (auto simp: w1(2))
  obtain w' where w': "apply_states deps (?sts QUEUE_NAMES) \<lparr>sr_paused = [], sr_resumed = []\<rparr> w1 =
      (Inr \<lparr>sr_paused = filter (\<lambda>n. map_of sw n = Some (Bool False) \<and> \<not> paused w n) QUEUE_NAMES,
            sr_resumed = filter (\<lambda>n. map_of sw n = Some (Bool True) \<and> paused w n) QUEUE_NAMES\<rparr>, w')"
    "\<forall>n. paused w' n = (case map_of (?sts QUEUE_NAMES) n of Some (e, p) \<Rightarrow> \<not> e | None \<Rightarrow> paused w1 n)"
    using apply_ok [OF d p, of "\<lparr>sr_paused = [], sr_resumed = []\<rparr>"] by (auto simp: lists)
  have "paused w' n =
       (if n \<in> set QUEUE_NAMES \<and> map_of sw n \<noteq> None then map_of sw n \<noteq> Some (Bool True) else paused w n)" for n
    using w'(2) [rule_format, of n] bools [of n] unfolding looks w1(2) by (auto split: option.splits)
  with w1 w'(1) show ?thesis
    by (intro exI [of _ w']) (simp add: applyQueueSwitches_def io_simps read_ok [OF assms] states_ok)
qed

end

section \<open>Queues in memory\<close>

text \<open>The queues and the settings as two tables: a world the contract holds of.\<close>

record memory_queues =
  mq_settings :: settings
  mq_paused :: "queue_name \<Rightarrow> bool"

definition mem_switch_deps :: "memory_queues switch_deps" where
  "mem_switch_deps =
     \<lparr>sd_db =
        \<lparr>sdb_select = (\<lambda>k w. (Inr (case mq_settings (sw_rest w) k of None \<Rightarrow> [] | Some (v, _) \<Rightarrow> [v]), w)),
         sdb_upsert = (\<lambda>k v w. (Inr (),
           w\<lparr>sw_rest := (sw_rest w)\<lparr>mq_settings := (mq_settings (sw_rest w))(k \<mapsto> (v, 0))\<rparr>\<rparr>))\<rparr>,
      sd_getQueue = (\<lambda>n w. (Inr (), w)),
      sd_isPaused = (\<lambda>n w. (Inr (mq_paused (sw_rest w) n), w)),
      sd_pause = (\<lambda>n w. (Inr (), w\<lparr>sw_rest := (sw_rest w)\<lparr>mq_paused := (mq_paused (sw_rest w))(n := True)\<rparr>\<rparr>)),
      sd_resume = (\<lambda>n w. (Inr (), w\<lparr>sw_rest := (sw_rest w)\<lparr>mq_paused := (mq_paused (sw_rest w))(n := False)\<rparr>\<rparr>)),
      sd_zod = plain_parse\<rparr>"

definition mem_switch_table :: "memory_queues switch_world \<Rightarrow> string \<Rightarrow> json option" where
  "mem_switch_table w k = map_option fst (mq_settings (sw_rest w) k)"

definition mem_switch_paused :: "memory_queues switch_world \<Rightarrow> queue_name \<Rightarrow> bool" where
  "mem_switch_paused w = mq_paused (sw_rest w)"

interpretation mem_queues: pausable_queues mem_switch_deps mem_switch_table mem_switch_paused
proof unfold_locales
  show "\<exists>w'. sdb_upsert (sd_db mem_switch_deps) k v w = (Inr (), w') \<and>
      mem_switch_table w' = (mem_switch_table w)(k \<mapsto> v)" for k v and w :: "memory_queues switch_world"
    by (auto simp: mem_switch_deps_def mem_switch_table_def)
qed (auto simp: mem_switch_deps_def mem_switch_table_def mem_switch_paused_def split: option.splits)

section \<open>Properties\<close>

text \<open>
  A pass over queues that answer makes them match the setting and touches nothing else.
  With a readable setting the pass succeeds, every queue of the registry that has a switch is
  afterwards paused exactly when its switch is off, every other queue is as it was, and the
  result names the queues whose state changed, in the registry's order.  With the row missing or
  unreadable it throws \<open>QueueSwitchesUnavailableError\<close> and the world is untouched.
\<close>

theorem switches_pass_matches_setting:
  assumes "pausable_queues deps table paused"
  shows "case table w QUEUE_SWITCHES_KEY of
      Some (Obj sw) \<Rightarrow>
        (if accepts QueueSwitchesSchema (Obj sw) then
           \<exists>w'. applyQueueSwitches deps w =
              (Inr \<lparr>sr_paused = filter (\<lambda>n. map_of sw n = Some (Bool False) \<and> \<not> paused w n) QUEUE_NAMES,
                    sr_resumed = filter (\<lambda>n. map_of sw n = Some (Bool True) \<and> paused w n) QUEUE_NAMES\<rparr>, w') \<and>
            (\<forall>n. paused w' n =
               (if n \<in> set QUEUE_NAMES \<and> map_of sw n \<noteq> None then map_of sw n \<noteq> Some (Bool True)
                else paused w n))
         else \<exists>m c. applyQueueSwitches deps w = (Inl (switches_unavailable m c), w))
    | _ \<Rightarrow> \<exists>m c. applyQueueSwitches deps w = (Inl (switches_unavailable m c), w)"
  using pausable_queues.pass_ok [OF assms, of w] pausable_queues.read_fails [OF assms, of w]
  by (auto simp: QueueSwitchesSchema_def split: option.splits json.splits)

theorem switches_pass_matches_setting_witness:
  "\<exists>w'. applyQueueSwitches mem_switch_deps
      \<lparr>sw_warned = None, sw_log = [], sw_rest =
        \<lparr>mq_settings = [QUEUE_SWITCHES_KEY \<mapsto> (Obj [(''radar.scan'', Bool False)], 0)], mq_paused = (\<lambda>n. False)\<rparr>\<rparr> =
     (Inr \<lparr>sr_paused = filter (\<lambda>n. n = ''radar.scan'') QUEUE_NAMES, sr_resumed = []\<rparr>, w')"
  using switches_pass_matches_setting [OF mem_queues.pausable_queues_axioms, of
      "\<lparr>sw_warned = None, sw_log = [], sw_rest =
        \<lparr>mq_settings = [QUEUE_SWITCHES_KEY \<mapsto> (Obj [(''radar.scan'', Bool False)], 0)], mq_paused = (\<lambda>n. False)\<rparr>\<rparr>"]
  by (auto simp: mem_switch_table_def mem_switch_paused_def QueueSwitchesSchema_def cong: filter_cong split: if_splits)

end
