(* ===== verification/Define_Job.thy ===== *)
theory Define_Job
  imports Usage_Logger Heartbeat Job_Ids
begin

text \<open>
  The jobs of the worker (\<open>apps/worker/src/lib/define-job.ts\<close>, \<open>lib/job-policy.ts\<close> and
  \<open>jobs/system-smoke.ts\<close>, \<open>jobs/system-heartbeat.ts\<close>): the retry policy and the concurrency of
  a queue, what \<open>enqueue\<close> and \<open>process\<close> of a definition do, and the two jobs the process runs.
  The queue library, the database and Redis are the calls a definition is given.
\<close>

section \<open>The policy of the queues\<close>

type_synonym job_options = "(string \<times> json) list"

definition num :: "rat \<Rightarrow> json" where
  "num r = Num (Fin r)"

definition DEFAULT_JOB_OPTIONS :: job_options where
  "DEFAULT_JOB_OPTIONS =
     [(''attempts'', num 5),
      (''backoff'', Obj [(''type'', Str ''exponential''), (''delay'', num 5000)]),
      (''removeOnComplete'', Obj [(''count'', num 1000)]),
      (''removeOnFail'', Obj [(''count'', num 1000)])]"

definition PAID_FANOUT_CAP :: nat where
  "PAID_FANOUT_CAP = 2"

definition CONCURRENCY_CAPS :: "(queue_name \<times> nat) list" where
  "CONCURRENCY_CAPS =
     [(''intel.analyze-video'', PAID_FANOUT_CAP),
      (''research.run'', PAID_FANOUT_CAP),
      (''script.generate'', PAID_FANOUT_CAP),
      (''tts.generate'', PAID_FANOUT_CAP),
      (''tts.bakeoff'', PAID_FANOUT_CAP)]"

definition queueConcurrency :: "queue_name \<Rightarrow> nat \<Rightarrow> nat" where
  "queueConcurrency queue workerConcurrency =
     (case map_of CONCURRENCY_CAPS queue of
        None \<Rightarrow> workerConcurrency
      | Some cap \<Rightarrow> min workerConcurrency cap)"

text \<open>\<open>{ ...base, ...over }\<close>: the keys of both, the value of \<open>over\<close> where both have one.\<close>

definition spread :: "(string \<times> 'a) list \<Rightarrow> (string \<times> 'a) list \<Rightarrow> (string \<times> 'a) list" where
  "spread base over =
     map (\<lambda>(k, v). (k, case map_of over k of Some v' \<Rightarrow> v' | None \<Rightarrow> v)) base @
     filter (\<lambda>(k, v). k \<notin> fst ` set base) over"

lemma map_of_spread: "map_of (spread base over) k = (case map_of over k of Some v \<Rightarrow> Some v | None \<Rightarrow> map_of base k)"
proof -
  have left: "map_of (map (\<lambda>(k, v). (k, case map_of over k of Some v' \<Rightarrow> v' | None \<Rightarrow> v)) base) k =
      map_option (\<lambda>v. case map_of over k of Some v' \<Rightarrow> v' | None \<Rightarrow> v) (map_of base k)"
    by (induction base) (auto split: option.splits)
  show ?thesis
  proof (cases "map_of base k")
    case None
    then have "k \<notin> fst ` set base" by (simp add: map_of_eq_None_iff)
    with None show ?thesis
      by (simp add: spread_def map_add_def left map_of_filter_key split: option.splits)
  next
    case (Some v)
    then have "k \<in> fst ` set base" by (metis map_of_eq_None_iff option.distinct(1))
    with Some show ?thesis
      by (simp add: spread_def map_add_def left map_of_filter_key split: option.splits)
  qed
qed

section \<open>A definition\<close>

record processable_job =
  pj_id :: "string option"
  pj_name :: string
  pj_data :: json
  pj_attemptsMade :: nat
  pj_timestamp :: jsnum

text \<open>The process a job runs in: what was logged, and everything else.\<close>

record 'w job_world =
  jw_log :: "log_line list"
  jw_rest :: 'w

type_synonym ('w, 'a) job_io = "('w job_world, thrown, 'a) io"

type_synonym 'w enqueue_target = "string \<Rightarrow> json \<Rightarrow> job_options \<Rightarrow> ('w, string option) job_io"

definition log_job :: "log_level \<Rightarrow> log_fields \<Rightarrow> string \<Rightarrow> 'w job_world \<Rightarrow> 'w job_world" where
  "log_job level fs message w =
     w\<lparr>jw_log := jw_log w @ [\<lparr>ll_level = level, ll_fields = fs, ll_message = message\<rparr>]\<rparr>"

text \<open>
  What a handler is given besides its payload.  The connections of the process are reached by the
  calls a handler is built from; \<open>jc_log\<close> holds the fields its logger writes on every line.
\<close>

record 'w job_context =
  jc_job :: processable_job
  jc_log :: log_fields
  jc_usage :: "json \<Rightarrow> ('w, unit) job_io"

text \<open>A parse refuses with a \<open>ZodError\<close> and its issues, or throws something else.\<close>

datatype parse_failure = ZodRefusal thrown "issue list" | ParseThrew thrown

definition parse_thrown :: "parse_failure \<Rightarrow> thrown" where
  "parse_thrown f = (case f of ZodRefusal e _ \<Rightarrow> e | ParseThrew e \<Rightarrow> e)"

record 'w job_spec =
  js_queue :: queue_name
  js_parse :: "json \<Rightarrow> parse_failure + json"
  js_jobIdFrom :: "json \<Rightarrow> ('w, string) job_io"
  js_handler :: "json \<Rightarrow> 'w job_context \<Rightarrow> ('w, unit) job_io"
  js_opts :: job_options

definition job_enqueue :: "'w job_spec \<Rightarrow> 'w enqueue_target \<Rightarrow> json \<Rightarrow> ('w, string) job_io" where
  "job_enqueue spec add payload =
     (case js_parse spec payload of
        Inl failure \<Rightarrow> io_throw (parse_thrown failure)
      | Inr data \<Rightarrow>
          io_bind (js_jobIdFrom spec data) (\<lambda>jid.
          io_bind (add (js_queue spec) data
                     (spread (spread DEFAULT_JOB_OPTIONS (js_opts spec)) [(''jobId'', Str jid)])) (\<lambda>_.
          io_return jid)))"

definition unrecoverable_error :: "string \<Rightarrow> thrown option \<Rightarrow> thrown" where
  "unrecoverable_error message cause =
     JsError UnrecoverableErrorC ''UnrecoverableError'' message NoCode None None None cause []"

definition str_or_null :: "string option \<Rightarrow> json" where
  "str_or_null v = (case v of None \<Rightarrow> Null | Some s \<Rightarrow> Str s)"

definition job_bindings :: "queue_name \<Rightarrow> processable_job \<Rightarrow> log_fields" where
  "job_bindings queue job =
     [(''queue'', LVal (Str queue)), (''jobId'', LVal (str_or_null (pj_id job))),
      (''attempt'', LVal (num (of_nat (pj_attemptsMade job + 1))))]"

text \<open>A field of the details of a refusal of the budget guard.\<close>

definition detail :: "string \<Rightarrow> thrown \<Rightarrow> json" where
  "detail k e = (case err_details e of Some d \<Rightarrow> or_null (jget d k) | None \<Rightarrow> Null)"

definition show_json :: "json \<Rightarrow> string" where
  "show_json v = (case v of Str s \<Rightarrow> s | _ \<Rightarrow> [])"

definition budget_refusal :: "thrown \<Rightarrow> thrown" where
  "budget_refusal err =
     unrecoverable_error
       ((case err_code err of CodeString c \<Rightarrow> c | _ \<Rightarrow> []) @ '': '' @ show_json (detail ''provider'' err) @ '' '' @
        err_message err)
       (Some err)"

definition job_process ::
  "'w job_spec \<Rightarrow> (string option \<Rightarrow> json \<Rightarrow> ('w, unit) job_io) \<Rightarrow> processable_job \<Rightarrow> ('w, unit) job_io" where
  "job_process spec createUsage job =
     (let bindings = job_bindings (js_queue spec) job
      in case js_parse spec (pj_data job) of
           Inl (ParseThrew err) \<Rightarrow> io_throw err
         | Inl (ZodRefusal err issues) \<Rightarrow> (\<lambda>w.
             io_throw (unrecoverable_error
               (js_queue spec @ '': payload does not match the schema ('' @ show_nat (length issues) @ '' issue(s))'') None)
             (log_job ErrorLevel
               (bindings @ [(''issues'', LVal (Arr (map (\<lambda>i.
                   Obj [(''path'', Str (join CHR ''.'' (i_path i))), (''code'', Str (i_code i))]) issues)))])
               ''job payload rejected by its schema'' w))
         | Inr payload \<Rightarrow>
             io_catch
               (js_handler spec payload
                 \<lparr>jc_job = job, jc_log = bindings, jc_usage = createUsage (pj_id job)\<rparr>)
               (\<lambda>err. if instance_of err BudgetExceededErrorC
                      then (\<lambda>w. io_throw (budget_refusal err)
                             (log_job ErrorLevel
                               (bindings @ [(''err'', LErr err), (''provider'', LVal (detail ''provider'' err)),
                                  (''spent'', LVal (detail ''spent'' err)), (''cap'', LVal (detail ''cap'' err))])
                               ''job refused by the budget guard'' w))
                      else io_throw err))"

section \<open>The jobs\<close>

text \<open>\<open>schema.parse\<close> of the library, for a schema term.\<close>

definition schema_parse :: "zod_parse \<Rightarrow> zod \<Rightarrow> json \<Rightarrow> parse_failure + json" where
  "schema_parse parse schema v =
     (case parse schema v of
        Inl issues \<Rightarrow> Inl (ZodRefusal (JsError ZodErrorC ''ZodError'' [] NoCode None None None None []) issues)
      | Inr data \<Rightarrow> Inr data)"

definition io_of :: "thrown + 'a \<Rightarrow> ('w, thrown, 'a) io" where
  [io_simps]: "io_of r = (\<lambda>w. (r, w))"

definition HEARTBEAT_INTERVAL_MIN :: rat where
  "HEARTBEAT_INTERVAL_MIN = 1"

definition HeartbeatPayloadSchema :: zod where
  "HeartbeatPayloadSchema = ZObject True []"

text \<open>The clock of the process is a reading of its world; \<open>redis_set\<close> is \<open>SET key value EX seconds\<close>.\<close>

definition createSystemHeartbeatJob ::
  "zod_parse \<Rightarrow> (string \<Rightarrow> string \<Rightarrow> int \<Rightarrow> ('w, unit) job_io) \<Rightarrow> ('w job_world \<Rightarrow> int) \<Rightarrow> 'w job_spec" where
  "createSystemHeartbeatJob parse redis_set now =
     \<lparr>js_queue = ''system.heartbeat'',
      js_parse = schema_parse parse HeartbeatPayloadSchema,
      js_jobIdFrom = (\<lambda>_ w.
        (case intervalSlot (Fin (of_int (now w))) (Fin HEARTBEAT_INTERVAL_MIN) of
           Inl e \<Rightarrow> (Inl e, w)
         | Inr slot \<Rightarrow> (systemHeartbeat (Fin (of_int slot)), w))),
      js_handler = (\<lambda>_ ctx w.
        (let stamp = toISOString (now w)
         in io_bind (redis_set WORKER_HEARTBEAT_KEY stamp WORKER_HEARTBEAT_TTL_SEC) (\<lambda>_ w'.
              (Inr (), log_job Debug (jc_log ctx @ [(''stamp'', LVal (Str stamp))]) ''heartbeat written'' w')) w)),
      js_opts = []\<rparr>"

definition clearHeartbeat :: "(string \<Rightarrow> ('w, unit) job_io) \<Rightarrow> ('w, unit) job_io" where
  "clearHeartbeat redis_del = redis_del WORKER_HEARTBEAT_KEY"

definition SmokePayloadSchema :: zod where
  "SmokePayloadSchema = ZObject True
     [(''requestedAtMs'', ZNumber [IsInt, AtLeast (- of_int max_safe_integer), AtMost (of_int max_safe_integer), Positive])]"

definition smoke_entry :: json where
  "smoke_entry = Obj [(''provider'', Str ''system''), (''operation'', Str ''smoke''), (''units'', num 0)]"

definition requested_at :: "json \<Rightarrow> jsnum" where
  "requested_at payload = (case jget payload ''requestedAtMs'' of Some (Num x) \<Rightarrow> x | _ \<Rightarrow> NaN)"

definition systemSmokeJob :: "zod_parse \<Rightarrow> 'w job_spec" where
  "systemSmokeJob parse =
     \<lparr>js_queue = ''system.smoke'',
      js_parse = schema_parse parse SmokePayloadSchema,
      js_jobIdFrom = (\<lambda>payload. io_of (systemSmoke (requested_at payload))),
      js_handler = (\<lambda>payload ctx.
        (case schema_parse parse ApiUsageEntrySchema smoke_entry of
           Inl failure \<Rightarrow> io_throw (parse_thrown failure)
         | Inr entry \<Rightarrow>
             io_bind (jc_usage ctx entry) (\<lambda>_ w.
               (Inr (), log_job Info (jc_log ctx @ [(''requestedAtMs'', LVal (or_null (jget payload ''requestedAtMs'')))])
                  ''smoke job wrote a usage row'' w)))),
      js_opts = []\<rparr>"

section \<open>Properties\<close>

text \<open>
  A job is added with its own identity and the shared policy: when the payload is accepted
  and its id can be built, \<open>enqueue\<close> adds exactly one job, to the queue of the definition, with the
  validated payload and with options in which the id is that id, whatever the overrides of the
  definition say, and every other option is the override or else the default; and it answers that
  id.  When the payload is refused nothing is added and nothing else happens.
\<close>

theorem enqueue_adds_one_job:
  "case js_parse spec payload of
     Inl failure \<Rightarrow> job_enqueue spec add payload w = (Inl (parse_thrown failure), w)
   | Inr data \<Rightarrow>
       (case js_jobIdFrom spec data w of
          (Inl e, w1) \<Rightarrow> job_enqueue spec add payload w = (Inl e, w1)
        | (Inr jid, w1) \<Rightarrow>
            (\<exists>opts. map_of opts ''jobId'' = Some (Str jid) \<and>
               map_of opts k = (if k = ''jobId'' then Some (Str jid)
                                else case map_of (js_opts spec) k of
                                  Some v \<Rightarrow> Some v | None \<Rightarrow> map_of DEFAULT_JOB_OPTIONS k) \<and>
               job_enqueue spec add payload w =
                 (case add (js_queue spec) data opts w1 of
                    (Inl e, w2) \<Rightarrow> (Inl e, w2) | (Inr added, w2) \<Rightarrow> (Inr jid, w2))))"
  by (auto simp: job_enqueue_def io_simps map_of_spread split: sum.splits prod.splits option.splits
      intro!: exI [of _ "spread (spread DEFAULT_JOB_OPTIONS (js_opts spec)) [(''jobId'', Str _)]"])

section \<open>The heartbeat\<close>

text \<open>The years of a clock between 1970 and 8307 print in four digits.\<close>

lemma civil_year_range:
  assumes "0 \<le> d" and "d < 2314815"
  shows "0 \<le> fst (civil_from_days d) \<and> fst (civil_from_days d) \<le> 9999"
proof -
  define z where "z = d + 719468"
  define doe where "doe = z mod 146097"
  define x where "x = doe - doe div 1460 + doe div 36524 - doe div 146096"
  define yoe where "yoe = x div 365"
  have era: "0 \<le> z div 146097" "z div 146097 \<le> 20"
  proof -
    show "0 \<le> z div 146097" using assms by (simp add: z_def pos_imp_zdiv_nonneg_iff)
    have "z < 21 * 146097" using assms by (simp add: z_def)
    then show "z div 146097 \<le> 20" by simp
  qed
  have doe: "0 \<le> doe" "doe < 146097" by (simp_all add: doe_def)
  have order: "doe div 146096 \<le> doe div 36524" "doe div 36524 \<le> doe div 1460" "doe div 1460 \<le> doe"
    using doe(1) zdiv_mono2 [of doe 36524 146096] zdiv_mono2 [of doe 1460 36524] zdiv_mono2 [of doe 1 1460] by simp_all
  have "0 \<le> x" "x \<le> 146096"
    unfolding x_def using order doe pos_imp_zdiv_nonneg_iff [of 146096 doe] by linarith+
  then have yoe: "0 \<le> yoe" "yoe \<le> 400"
    using zdiv_mono1 [of x 146096 365] by (simp_all add: yoe_def pos_imp_zdiv_nonneg_iff)
  have one: "a + (if P then 1 else 0) = a \<or> a + (if P then 1 else 0) = a + 1" for a :: int and P by simp
  have "fst (civil_from_days d) = yoe + z div 146097 * 400 \<or> fst (civil_from_days d) = yoe + z div 146097 * 400 + 1"
    unfolding civil_from_days_def Let_def fst_conv z_def [symmetric] doe_def [symmetric] x_def [symmetric]
      yoe_def [symmetric] by (rule one)
  with era yoe show ?thesis by auto
qed

lemma toISOString_is_stamp:
  assumes "0 \<le> t" and "t < 200000000000000"
  shows "ISO_STAMP (toISOString t)"
proof -
  have "0 \<le> t div 86400000" "t div 86400000 < 2314815" using assms by (simp_all add: pos_imp_zdiv_nonneg_iff)
  from civil_year_range [OF this] obtain y m d where
    "civil_from_days (t div 86400000) = (y, m, d)" "0 \<le> y" "y \<le> 9999"
    by (metis fst_conv prod.collapse)
  then show ?thesis
    by (simp add: toISOString_def Let_def ISO_STAMP_def digits4_def digits3_def digits2_def)
qed

lemma schema_parse_ok:
  assumes "zod_contract parse" and "accepts s v"
  obtains v' where "schema_parse parse s v = Inr v'" "parse s v = Inr v'" "accepts s v'"
  using contract_total [OF assms] contract_output [OF assms(1)] by (auto simp: schema_parse_def)

text \<open>
  A tick of the heartbeat job leaves the worker alive for exactly the time to live: with a
  clock of this era and a Redis that takes the write, the job ends well, what it writes under the
  heartbeat key is a stamp the reader accepts, and read at any later or earlier moment the worker
  counts as down exactly when that moment is more than the time to live away from the tick.
\<close>

theorem heartbeat_job_keeps_worker_alive:
  assumes zod: "zod_contract parse" and data: "pj_data job = Obj []"
    and clock: "0 \<le> now w" "now w < 200000000000000"
    and engine: "date_parse (toISOString (now w)) = Some (now w)"
    and redis: "redis_set WORKER_HEARTBEAT_KEY (toISOString (now w)) WORKER_HEARTBEAT_TTL_SEC w = (Inr (), w')"
  shows "fst (job_process (createSystemHeartbeatJob parse redis_set now) createUsage job w) = Inr () \<and>
    readHeartbeat date_parse (Some (toISOString (now w))) (Some later) =
      \<lparr>heartbeatAt = Some (toISOString (now w)), stale = WORKER_HEARTBEAT_TTL_SEC * 1000 < \<bar>later - now w\<bar>\<rparr>"
proof
  have "accepts HeartbeatPayloadSchema (pj_data job)" by (simp add: HeartbeatPayloadSchema_def data)
  then obtain v' where "schema_parse parse HeartbeatPayloadSchema (pj_data job) = Inr v'"
    by (metis schema_parse_ok [OF zod])
  then show "fst (job_process (createSystemHeartbeatJob parse redis_set now) createUsage job w) = Inr ()"
    by (simp add: job_process_def createSystemHeartbeatJob_def Let_def io_simps redis)
  obtain k where k: "offsetSecOf (now w) (Some later) = Some k" by (simp add: offsetSecOf_def Let_def)
  show "readHeartbeat date_parse (Some (toISOString (now w))) (Some later) =
      \<lparr>heartbeatAt = Some (toISOString (now w)), stale = WORKER_HEARTBEAT_TTL_SEC * 1000 < \<bar>later - now w\<bar>\<rparr>"
    using offsetSecOf_bound [OF k, of WORKER_HEARTBEAT_TTL_SEC] toISOString_is_stamp [OF clock]
    by (simp add: readHeartbeat_def engine k)
qed

definition sample_job :: processable_job where
  "sample_job = \<lparr>pj_id = Some ''system.heartbeat/0'', pj_name = ''system.heartbeat'', pj_data = Obj [],
     pj_attemptsMade = 0, pj_timestamp = Fin 0\<rparr>"

theorem heartbeat_job_keeps_worker_alive_witness:
  "fst (job_process (createSystemHeartbeatJob plain_parse (\<lambda>k v ttl w. (Inr (), w\<lparr>jw_rest := Some v\<rparr>)) (\<lambda>w. 0))
      (\<lambda>j e w. (Inr (), w)) sample_job \<lparr>jw_log = [], jw_rest = None\<rparr>) = Inr () \<and>
   readHeartbeat (\<lambda>s. Some 0) (Some (toISOString 0)) (Some 180001) =
     \<lparr>heartbeatAt = Some (toISOString 0), stale = WORKER_HEARTBEAT_TTL_SEC * 1000 < \<bar>180001 - 0\<bar>\<rparr>"
  by (rule heartbeat_job_keeps_worker_alive [where now = "\<lambda>w. 0"]) (simp_all add: sample_job_def)

section \<open>The smoke job\<close>

text \<open>
  A smoke run is one row of spend that belongs to its job and costs nothing: over a parser
  that meets its contract and a database that takes the row, an accepted payload ends in exactly
  one insert, of a row that names the system provider, the smoke operation, no units and the id of
  the job, and in one line of the log.
\<close>

theorem smoke_job_writes_its_row:
  assumes zod: "zod_contract parse" and data: "accepts SmokePayloadSchema (pj_data job)"
    and takes: "\<And>row. fst (insert_row row w) = Inr ()"
  shows "\<exists>row lines. job_process (systemSmokeJob parse) (createUsageLogger parse fl insert_row) job w =
      (Inr (), snd (insert_row row w)\<lparr>jw_log := jw_log (snd (insert_row row w)) @ [lines]\<rparr>) \<and>
    jget row ''provider'' = Some (Str ''system'') \<and> jget row ''operation'' = Some (Str ''smoke'') \<and>
    jget row ''units'' = Some (num 0) \<and> jget row ''costUsd'' = Some Null \<and>
    jget row ''jobId'' = Some (str_or_null (pj_id job))"
proof -
  obtain payload where p: "schema_parse parse SmokePayloadSchema (pj_data job) = Inr payload"
    by (rule schema_parse_ok [OF zod data])
  have "accepts ApiUsageEntrySchema smoke_entry"
    by (simp add: usage_schema_defs smoke_entry_def num_simps num_def)
  then obtain entry where e: "schema_parse parse ApiUsageEntrySchema smoke_entry = Inr entry"
      "parse ApiUsageEntrySchema smoke_entry = Inr entry" "accepts ApiUsageEntrySchema entry"
    by (rule schema_parse_ok [OF zod])
  have keys: "jget entry k = jget smoke_entry k" if "k \<in> set (schema_keys ApiUsageEntrySchema)" for k
    using contract_keys [OF zod e(2) _ that] by simp
  obtain usage where u: "parse ApiUsageEntrySchema entry = Inr usage" using contract_total [OF zod e(3)] by blast
  have fields: "jget usage k = jget smoke_entry k" if "k \<in> set (schema_keys ApiUsageEntrySchema)" for k
    using contract_keys [OF zod u _ that] keys [OF that] by simp
  have usage: "jget usage ''provider'' = Some (Str ''system'')" "jget usage ''operation'' = Some (Str ''smoke'')"
      "jget usage ''units'' = Some (num 0)" "jget usage ''tokensIn'' = None" "jget usage ''tokensOut'' = None"
      "jget usage ''costUsd'' = None" "jget usage ''jobId'' = None"
    by (simp_all add: fields usage_schema_defs smoke_entry_def jget_Obj_Cons)
  define row where "row = Obj [(''provider'', Str ''system''), (''operation'', Str ''smoke''), (''units'', num 0),
      (''tokensIn'', Null), (''tokensOut'', Null), (''costUsd'', Null), (''jobId'', str_or_null (pj_id job))]"
  have "toUsageRow parse fl entry (pj_id job) = Inr row"
    by (simp add: toUsageRow_def u usage or_null_def num_field_def toCostUsdColumn_def row_def str_or_null_def)
  moreover have row: "usage_row row = row"
    by (simp add: usage_row_def row_def required_column_def optional_column_def jget_Obj_Cons)
  ultimately have log: "createUsageLogger parse fl insert_row (pj_id job) entry = insert_row row"
    by (simp add: createUsageLogger_def usage_insert_def)
  obtain w' where w': "insert_row row w = (Inr (), w')" using takes [of row] by (metis prod.collapse)
  have "\<exists>line. job_process (systemSmokeJob parse) (createUsageLogger parse fl insert_row) job w =
      (Inr (), w'\<lparr>jw_log := jw_log w' @ [line]\<rparr>)"
    by (simp add: job_process_def systemSmokeJob_def Let_def io_simps p e(1) log w' log_job_def) blast
  then show ?thesis
    using w' by (intro exI [of _ row]) (simp add: row_def jget_Obj_Cons num_def)
qed

definition sample_smoke :: processable_job where
  "sample_smoke = sample_job\<lparr>pj_id := Some ''system.smoke/5'',
     pj_data := Obj [(''requestedAtMs'', num 5)]\<rparr>"

theorem smoke_job_writes_its_row_witness:
  "\<exists>row lines. job_process (systemSmokeJob plain_parse)
      (createUsageLogger plain_parse (\<lambda>x. x) (\<lambda>row w. (Inr (), w\<lparr>jw_rest := [row]\<rparr>)))
      sample_smoke \<lparr>jw_log = [], jw_rest = []\<rparr> =
      (Inr (), \<lparr>jw_log = [lines], jw_rest = [row]\<rparr>) \<and>
    jget row ''jobId'' = Some (Str ''system.smoke/5'')"
proof -
  have "accepts SmokePayloadSchema (pj_data sample_smoke)"
    by (simp add: SmokePayloadSchema_def sample_smoke_def num_def num_simps max_safe_integer_def)
  from smoke_job_writes_its_row [OF plain_parse_contract this,
      of "\<lambda>row w. (Inr (), w\<lparr>jw_rest := [row]\<rparr>)" "\<lparr>jw_log = [], jw_rest = []\<rparr>" "\<lambda>x. x"]
  show ?thesis by (auto simp: sample_smoke_def str_or_null_def)
qed

end
