(* ===== verification/Dlq.thy ===== *)
theory Dlq
  imports Define_Job
begin

text \<open>
  The dead letter queue (\<open>apps/worker/src/lib/dlq.ts\<close>): which failure of a job is its last one,
  the copy that is made then, the listener that never rejects, and the drain a stop waits on.
\<close>

section \<open>The copy\<close>

record failed_job = processable_job +
  fj_attempts :: "nat option"
  fj_failedReason :: "string option"
  fj_stacktrace :: "string list option"

record dlq_record =
  dr_queue :: queue_name
  dr_jobId :: "string option"
  dr_name :: string
  dr_data :: json
  dr_failedReason :: string
  dr_stacktrace :: "string list"
  dr_attemptsMade :: nat
  dr_failedAt :: string

definition isUnrecoverable :: "thrown \<Rightarrow> bool" where
  "isUnrecoverable err =
     (instance_of err UnrecoverableErrorC \<or>
      (instance_of err ErrorC \<and> err_name err = ''UnrecoverableError''))"

definition isFinalFailure :: "failed_job \<Rightarrow> thrown \<Rightarrow> bool" where
  "isFinalFailure job err =
     (if isUnrecoverable err then True
      else pj_attemptsMade job \<ge> (case fj_attempts job of Some n \<Rightarrow> n | None \<Rightarrow> 1))"

definition dlqTimestamp :: "jsnum \<Rightarrow> jsnum" where
  "dlqTimestamp ts = (if is_safe_integer ts \<and> num_leq (Fin 0) ts then ts else Fin 0)"

definition describe_thrown :: "thrown \<Rightarrow> string" where
  "describe_thrown err = (case err of JsError _ _ m _ _ _ _ _ _ \<Rightarrow> m | NonError s _ _ \<Rightarrow> s)"

definition toDlqRecord :: "queue_name \<Rightarrow> failed_job \<Rightarrow> thrown \<Rightarrow> int \<Rightarrow> dlq_record" where
  "toDlqRecord queue job err failedAt =
     \<lparr>dr_queue = queue,
      dr_jobId = pj_id job,
      dr_name = pj_name job,
      dr_data = pj_data job,
      dr_failedReason = (case fj_failedReason job of Some r \<Rightarrow> r | None \<Rightarrow> describe_thrown err),
      dr_stacktrace = (case fj_stacktrace job of Some st \<Rightarrow> st | None \<Rightarrow> []),
      dr_attemptsMade = pj_attemptsMade job,
      dr_failedAt = toISOString failedAt\<rparr>"

text \<open>The record as the data of the added job.\<close>

definition dlq_json :: "dlq_record \<Rightarrow> json" where
  "dlq_json r = Obj
     [(''queue'', Str (dr_queue r)), (''jobId'', str_or_null (dr_jobId r)), (''name'', Str (dr_name r)),
      (''data'', dr_data r), (''failedReason'', Str (dr_failedReason r)),
      (''stacktrace'', Arr (map Str (dr_stacktrace r))), (''attemptsMade'', num (of_nat (dr_attemptsMade r))),
      (''failedAt'', Str (dr_failedAt r))]"

section \<open>The listener\<close>

text \<open>\<open>do_dlq\<close> asks for the queue at every copy and may refuse; \<open>do_now\<close> reads the clock.\<close>

record 'w dlq_options =
  do_queue :: queue_name
  do_dlq :: "('w, 'w enqueue_target) job_io"
  do_now :: "'w job_world \<Rightarrow> int"

definition dlq_job_options :: "queue_name \<Rightarrow> failed_job \<Rightarrow> thrown + job_options" where
  "dlq_job_options queue job =
     (let base = [(''attempts'', num 1), (''removeOnFail'', Bool False)]
      in case pj_id job of
           None \<Rightarrow> Inr base
         | Some jid \<Rightarrow>
             (case dlqEntry queue jid (dlqTimestamp (pj_timestamp job)) of
                Inl e \<Rightarrow> Inl e
              | Inr dlqId \<Rightarrow> Inr (base @ [(''jobId'', Str dlqId)])))"

definition queue_field :: "'w dlq_options \<Rightarrow> string \<times> log_value" where
  "queue_field options = (''queue'', LVal (Str (do_queue options)))"

definition createFailedHandler ::
  "'w dlq_options \<Rightarrow> failed_job option \<Rightarrow> thrown \<Rightarrow> ('w, unit) job_io" where
  "createFailedHandler options job err =
     (case job of
        None \<Rightarrow> (\<lambda>w. (Inr (), log_job ErrorLevel [queue_field options, (''err'', LErr err)]
                     ''job failed and its record is gone; nothing to copy to the dlq'' w))
      | Some job \<Rightarrow>
          (if \<not> isFinalFailure job err then
             (\<lambda>w. (Inr (), log_job Warn
                [queue_field options, (''jobId'', LVal (str_or_null (pj_id job))),
                 (''attemptsMade'', LVal (num (of_nat (pj_attemptsMade job)))),
                 (''attempts'', LVal (num (of_nat (case fj_attempts job of Some n \<Rightarrow> n | None \<Rightarrow> 1)))),
                 (''err'', LErr err)]
                ''job failed, will retry'' w))
           else (\<lambda>w.
             (let record = toDlqRecord (do_queue options) job err (do_now options w)
              in io_catch
                   (io_bind (io_of (dlq_job_options (do_queue options) job)) (\<lambda>opts.
                    io_bind (do_dlq options) (\<lambda>add.
                    io_bind (add ''system.dlq'' (dlq_json record) opts) (\<lambda>_ w'.
                      (Inr (), log_job ErrorLevel
                         [queue_field options, (''jobId'', LVal (str_or_null (dr_jobId record))), (''err'', LErr err)]
                         ''job failed for good, copied to the dlq'' w')))))
                   (\<lambda>dlqErr w'. (Inr (), log_job ErrorLevel
                      [queue_field options, (''jobId'', LVal (str_or_null (dr_jobId record))), (''err'', LErr dlqErr)]
                      ''failed to copy a job to the dlq'' w')) w))))"

section \<open>The writer\<close>

text \<open>
  \<open>dw_inFlight\<close> are the copies under way; a drain in progress waits for a batch of them and asks
  again, and \<open>dw_drained\<close> counts the drains that have resolved.
\<close>

record dlq_writer =
  dw_next :: nat
  dw_inFlight :: "nat list"
  dw_drains :: "nat list list"
  dw_drained :: nat

datatype dlq_event = OnFailed | CopySettles nat | Drain

definition createDlqWriter :: dlq_writer where
  "createDlqWriter = \<lparr>dw_next = 0, dw_inFlight = [], dw_drains = [], dw_drained = 0\<rparr>"

text \<open>A drain whose batch is over looks at the set again: it resolves when nothing is left.\<close>

definition redrain :: "dlq_writer \<Rightarrow> dlq_writer" where
  "redrain s =
     (let waiting = filter (\<lambda>b. b \<noteq> []) (dw_drains s);
          over = length (dw_drains s) - length waiting
      in if dw_inFlight s = [] then s\<lparr>dw_drains := waiting, dw_drained := dw_drained s + over\<rparr>
         else s\<lparr>dw_drains := waiting @ replicate over (dw_inFlight s)\<rparr>)"

definition dlq_writer_step :: "dlq_writer \<Rightarrow> dlq_event \<Rightarrow> dlq_writer" where
  "dlq_writer_step s e =
     (case e of
        OnFailed \<Rightarrow> s\<lparr>dw_next := Suc (dw_next s), dw_inFlight := dw_inFlight s @ [dw_next s]\<rparr>
      | CopySettles c \<Rightarrow>
          redrain (s\<lparr>dw_inFlight := filter (\<lambda>x. x \<noteq> c) (dw_inFlight s),
                     dw_drains := map (filter (\<lambda>x. x \<noteq> c)) (dw_drains s)\<rparr>)
      | Drain \<Rightarrow> redrain (s\<lparr>dw_drains := dw_drains s @ [dw_inFlight s]\<rparr>))"

section \<open>Ids of the copies\<close>

lemma embedJobId_no_colon: "embedJobId v pos = Inr b \<Longrightarrow> b \<noteq> [] \<and> CHR '':'' \<notin> set b"
  by (auto simp: embedJobId_def split: if_splits)

text \<open>A joined id of a queue, a body that may hold slashes and a stamp is read from both ends.\<close>

lemma dlqEntry_Inr:
  "dlqEntry queue jid ts = Inr x \<longleftrightarrow>
     valid_part (StrPart queue) \<and> jid \<noteq> [] \<and> valid_part (NumPart ts) \<and>
     x = ''dlq/'' @ queue @ CHR ''/'' # map (\<lambda>c. if c = CHR '':'' then CHR ''@'' else c) jid @
         CHR ''/'' # part_text (NumPart ts)"
proof (cases "valid_part (StrPart queue)")
  case True
  have dlq: "valid_part (StrPart ''dlq'')" by (simp add: valid_part_def)
  have head: "jobId ''dlq'' [StrPart queue] = Inr (''dlq/'' @ queue)"
    using True dlq by (subst jobId_with_parts) (simp_all add: part_text_def)
  show ?thesis
  proof (cases "jid = [] \<or> \<not> valid_part (NumPart ts)")
    case True
    then show ?thesis
      by (auto simp: dlqEntry_def head embedJobId_def segment_Inr split: sum.splits if_splits)
  next
    case False
    then have "segment (NumPart ts) ''created at'' = Inr (part_text (NumPart ts))" by (simp add: segment_valid)
    with False True show ?thesis
      by (auto simp: dlqEntry_def head embedJobId_def finalize_def slash_not_all_digits)
  qed
next
  case False
  then have "jobId ''dlq'' [StrPart queue] \<noteq> Inr y" for y by (simp add: jobId_Inr)
  with False show ?thesis by (auto simp: dlqEntry_def split: sum.splits)
qed

lemma append_last_sep_inject:
  assumes "x @ c # u = y @ c # v" and "c \<notin> set u" and "c \<notin> set v"
  shows "x = y \<and> u = v"
proof -
  have "rev u @ c # rev x = rev v @ c # rev y" using assms(1) by (metis append_assoc append_Cons append_Nil rev.simps(2) rev_append)
  with append_sep_inject [of c "rev u" "rev v" "rev x" "rev y"] assms(2,3) show ?thesis by simp
qed

lemma dlqTimestamp_valid [simp]: "valid_part (NumPart (dlqTimestamp ts))"
proof -
  have "is_safe_integer (Fin 0)" by (simp add: is_safe_integer_def max_safe_integer_def)
  then have "is_safe_integer (dlqTimestamp ts) \<and> \<not> num_less (dlqTimestamp ts) (Fin 0)"
    by (cases ts) (auto simp: dlqTimestamp_def is_safe_integer_def)
  then show ?thesis by (simp add: valid_part_def safe_nat_iff)
qed

lemma dlq_options_total:
  assumes "queue \<in> set QUEUE_NAMES" and "pj_id job \<noteq> Some []"
  shows "\<exists>opts. dlq_job_options queue job = Inr opts \<and>
    map_of opts ''attempts'' = Some (num 1) \<and> map_of opts ''removeOnFail'' = Some (Bool False) \<and>
    (case pj_id job of None \<Rightarrow> map_of opts ''jobId'' = None
     | Some jid \<Rightarrow> (\<exists>x. dlqEntry queue jid (dlqTimestamp (pj_timestamp job)) = Inr x \<and> map_of opts ''jobId'' = Some (Str x)))"
proof (cases "pj_id job")
  case None
  then show ?thesis by (simp add: dlq_job_options_def Let_def)
next
  case (Some jid)
  have "valid_part (StrPart queue)" using QUEUE_NAMES_clean [OF assms(1)] by (simp add: valid_part_def)
  with Some assms(2) obtain x where "dlqEntry queue jid (dlqTimestamp (pj_timestamp job)) = Inr x"
    by (auto simp: dlqEntry_Inr)
  with Some show ?thesis by (simp add: dlq_job_options_def Let_def)
qed

section \<open>Properties\<close>

text \<open>
  Two copies share an id of the dead letter queue only when they are of one instance: of the
  same queue, of job ids that differ at most in a colon against an at sign, and of the same
  creation time as the id carries it.
\<close>

theorem dlq_id_names_the_instance:
  assumes "dlqEntry queue jid ts = Inr x" and "dlqEntry queue' jid' ts' = Inr x"
  shows "queue = queue' \<and> embedJobId jid pos = embedJobId jid' pos \<and>
    part_text (NumPart ts) = part_text (NumPart ts')"
proof -
  let ?e = "map (\<lambda>c. if c = CHR '':'' then CHR ''@'' else c)"
  let ?t = "part_text (NumPart ts)" and ?t' = "part_text (NumPart ts')"
  have v: "valid_part (StrPart queue)" "valid_part (StrPart queue')" "jid \<noteq> []" "jid' \<noteq> []"
    and n: "valid_part (NumPart ts)" "valid_part (NumPart ts')"
    and x: "queue @ CHR ''/'' # ?e jid @ CHR ''/'' # ?t = queue' @ CHR ''/'' # ?e jid' @ CHR ''/'' # ?t'"
    using assms by (simp_all add: dlqEntry_Inr)
  have "queue = queue' \<and> ?e jid @ CHR ''/'' # ?t = ?e jid' @ CHR ''/'' # ?t'"
    by (rule append_sep_inject [OF _ _ x]) (use v in \<open>simp_all add: valid_part_def\<close>)
  moreover from this have "?e jid = ?e jid' \<and> ?t = ?t'"
    by (intro append_last_sep_inject) (use n part_text_clean in blast)+
  ultimately show ?thesis using v by (simp add: embedJobId_def)
qed

theorem dlq_id_names_the_instance_witness:
  "dlqEntry ''radar.score'' ''radar.score/v/1h'' (Fin 7) = Inr ''dlq/radar.score/radar.score/v/1h/7'' \<and>
   embedJobId ''radar.score/v/1h'' [] = embedJobId ''radar.score/v/1h'' []"
proof -
  have a: "dlqEntry ''radar.score'' ''radar.score/v/1h'' (Fin 7) = Inr ''dlq/radar.score/radar.score/v/1h/7''"
    by code_simp
  from dlq_id_names_the_instance [OF a a] a show ?thesis by simp
qed

text \<open>
  The listener of failures never rejects, whatever the queue, the clock and the job are; a
  failure that is not the last one adds nothing, and the last failure of a job of the registry is
  copied: the record, under an id of its own when the job has one, with a single attempt and kept
  on failure - and when the copy cannot be made, what is left is its line.
\<close>

theorem failed_job_is_copied_once_final:
  assumes "do_queue options \<in> set QUEUE_NAMES" and "pj_id job \<noteq> Some []"
  shows "fst (createFailedHandler options any err w) = Inr () \<and>
    (if isFinalFailure job err then
       \<exists>opts line. map_of opts ''attempts'' = Some (num 1) \<and> map_of opts ''removeOnFail'' = Some (Bool False) \<and>
         (case pj_id job of None \<Rightarrow> map_of opts ''jobId'' = None
          | Some jid \<Rightarrow> (\<exists>x. dlqEntry (do_queue options) jid (dlqTimestamp (pj_timestamp job)) = Inr x \<and>
                           map_of opts ''jobId'' = Some (Str x))) \<and>
         snd (createFailedHandler options (Some job) err w) =
           (let w' = snd (io_bind (do_dlq options) (\<lambda>add. add ''system.dlq''
                  (dlq_json (toDlqRecord (do_queue options) job err (do_now options w))) opts) w)
            in w'\<lparr>jw_log := jw_log w' @ [line]\<rparr>)
     else \<exists>line. snd (createFailedHandler options (Some job) err w) = w\<lparr>jw_log := jw_log w @ [line]\<rparr>)"
proof
  show "fst (createFailedHandler options any err w) = Inr ()"
    by (cases any) (simp_all add: createFailedHandler_def io_simps Let_def split: sum.splits prod.splits)
  show "if isFinalFailure job err then
       \<exists>opts line. map_of opts ''attempts'' = Some (num 1) \<and> map_of opts ''removeOnFail'' = Some (Bool False) \<and>
         (case pj_id job of None \<Rightarrow> map_of opts ''jobId'' = None
          | Some jid \<Rightarrow> (\<exists>x. dlqEntry (do_queue options) jid (dlqTimestamp (pj_timestamp job)) = Inr x \<and>
                           map_of opts ''jobId'' = Some (Str x))) \<and>
         snd (createFailedHandler options (Some job) err w) =
           (let w' = snd (io_bind (do_dlq options) (\<lambda>add. add ''system.dlq''
                  (dlq_json (toDlqRecord (do_queue options) job err (do_now options w))) opts) w)
            in w'\<lparr>jw_log := jw_log w' @ [line]\<rparr>)
     else \<exists>line. snd (createFailedHandler options (Some job) err w) = w\<lparr>jw_log := jw_log w @ [line]\<rparr>"
  proof (cases "isFinalFailure job err")
    case True
    obtain opts where opts: "dlq_job_options (do_queue options) job = Inr opts"
      "map_of opts ''attempts'' = Some (num 1)" "map_of opts ''removeOnFail'' = Some (Bool False)"
      "case pj_id job of None \<Rightarrow> map_of opts ''jobId'' = None
       | Some jid \<Rightarrow> (\<exists>x. dlqEntry (do_queue options) jid (dlqTimestamp (pj_timestamp job)) = Inr x \<and>
                        map_of opts ''jobId'' = Some (Str x))"
      using dlq_options_total [OF assms] by blast
    have "\<exists>line. snd (createFailedHandler options (Some job) err w) =
           (let w' = snd (io_bind (do_dlq options) (\<lambda>add. add ''system.dlq''
                  (dlq_json (toDlqRecord (do_queue options) job err (do_now options w))) opts) w)
            in w'\<lparr>jw_log := jw_log w' @ [line]\<rparr>)"
      using True
      by (simp add: createFailedHandler_def io_simps Let_def opts(1) log_job_def split: sum.splits prod.splits) blast
    with True opts(2-4) show ?thesis by auto
  next
    case False
    then show ?thesis by (simp add: createFailedHandler_def log_job_def) blast
  qed
qed

definition sample_dlq :: "job_options list dlq_options" where
  "sample_dlq =
     \<lparr>do_queue = ''system.smoke'',
      do_dlq = io_return (\<lambda>name data opts w. (Inr None, w\<lparr>jw_rest := opts # jw_rest w\<rparr>)),
      do_now = (\<lambda>w. 0)\<rparr>"

definition sample_failed :: failed_job where
  "sample_failed = \<lparr>pj_id = Some ''system.smoke/5'', pj_name = ''system.smoke'', pj_data = Null,
     pj_attemptsMade = 5, pj_timestamp = Fin 9, fj_attempts = Some 5, fj_failedReason = None, fj_stacktrace = None\<rparr>"

theorem failed_job_is_copied_once_final_witness:
  "\<exists>opts. jw_rest (snd (createFailedHandler sample_dlq (Some sample_failed) (plain_error ''boom'')
      \<lparr>jw_log = [], jw_rest = []\<rparr>)) = [opts] \<and>
    map_of opts ''jobId'' = Some (Str ''dlq/system.smoke/system.smoke/5/9'')"
proof -
  have q: "do_queue sample_dlq \<in> set QUEUE_NAMES" by (simp add: sample_dlq_def QUEUE_NAMES_def)
  have j: "pj_id sample_failed \<noteq> Some []" by (simp add: sample_failed_def)
  have fin: "isFinalFailure sample_failed (plain_error ''boom'')" by (simp add: isFinalFailure_def sample_failed_def)
  have dlqId: "dlqEntry ''system.smoke'' ''system.smoke/5'' (dlqTimestamp (Fin 9)) =
      Inr ''dlq/system.smoke/system.smoke/5/9''" by code_simp
  from failed_job_is_copied_once_final [OF q j, of None "plain_error ''boom''" "\<lparr>jw_log = [], jw_rest = []\<rparr>"] fin
  show ?thesis
    by (auto simp: sample_dlq_def sample_failed_def dlqId io_simps Let_def)
qed

text \<open>
  What cannot get better is not retried: a job whose payload its schema refuses, or that the
  budget guard refuses, fails for good at its first attempt, whatever attempts it has left - the
  budget refusal with the guard's error as its cause - and any other failure of a handler is
  passed on as it is, final only when the attempts are spent.
\<close>

theorem hopeless_jobs_fail_for_good:
  "case js_parse spec (pj_data job) of
     Inl (ZodRefusal z issues) \<Rightarrow>
       (case fst (job_process spec createUsage job w) of Inl e \<Rightarrow> isFinalFailure failed e | Inr _ \<Rightarrow> False)
   | Inl (ParseThrew e) \<Rightarrow> job_process spec createUsage job w = (Inl e, w)
   | Inr payload \<Rightarrow>
       (case js_handler spec payload
           \<lparr>jc_job = job, jc_log = job_bindings (js_queue spec) job, jc_usage = createUsage (pj_id job)\<rparr> w of
          (Inr _, w') \<Rightarrow> job_process spec createUsage job w = (Inr (), w')
        | (Inl err, w') \<Rightarrow>
            if instance_of err BudgetExceededErrorC then
              (case fst (job_process spec createUsage job w) of
                 Inl e \<Rightarrow> isFinalFailure failed e \<and> err_cause e = Some err
               | Inr _ \<Rightarrow> False)
            else job_process spec createUsage job w = (Inl err, w') \<and>
              (isFinalFailure failed err =
                 (isUnrecoverable err \<or> (case fj_attempts failed of Some n \<Rightarrow> n | None \<Rightarrow> 1) \<le> pj_attemptsMade failed)))"
  by (auto simp: job_process_def Let_def io_simps budget_refusal_def unrecoverable_error_def isFinalFailure_def
      isUnrecoverable_def instance_of_def split: sum.splits parse_failure.splits prod.splits)

section \<open>The drain\<close>

definition drain_inv :: "dlq_writer \<Rightarrow> bool" where
  "drain_inv s \<longleftrightarrow> (\<forall>b \<in> set (dw_drains s). b \<noteq> [] \<and> set b \<subseteq> set (dw_inFlight s))"

lemma redrain_fields [simp]:
  "dw_inFlight (redrain s) = dw_inFlight s" "dw_next (redrain s) = dw_next s"
  by (simp_all add: redrain_def Let_def)

lemma redrain_inv:
  assumes "\<forall>b \<in> set (dw_drains s). set b \<subseteq> set (dw_inFlight s)"
  shows "drain_inv (redrain s)"
  using assms by (auto simp: redrain_def Let_def drain_inv_def)

lemma redrain_count: "dw_drained (redrain s) + length (dw_drains (redrain s)) = dw_drained s + length (dw_drains s)"
proof -
  obtain d where "length (dw_drains s) = length (filter (\<lambda>b. b \<noteq> []) (dw_drains s)) + d"
    using le_Suc_ex [OF length_filter_le] by blast
  then show ?thesis by (simp add: redrain_def Let_def)
qed

lemma redrain_resolves: "dw_drained s < dw_drained (redrain t) \<Longrightarrow> dw_drained t = dw_drained s \<Longrightarrow> dw_inFlight t = []"
  by (auto simp: redrain_def Let_def split: if_splits)

interpretation writer: event_machine dlq_writer_step drain_inv
proof unfold_locales
  show "drain_inv (dlq_writer_step s e)" if "drain_inv s" for s e
  proof (cases e)
    case OnFailed
    with that show ?thesis by (auto simp: dlq_writer_step_def drain_inv_def)
  next
    case (CopySettles c)
    show ?thesis
      unfolding CopySettles dlq_writer_step_def dlq_event.case
      by (rule redrain_inv) (use that in \<open>fastforce simp: drain_inv_def\<close>)
  next
    case Drain
    show ?thesis
      unfolding Drain dlq_writer_step_def dlq_event.case
      by (rule redrain_inv) (use that in \<open>auto simp: drain_inv_def\<close>)
  qed
qed

definition drains_asked :: "dlq_event list \<Rightarrow> nat" where
  "drains_asked es = length (filter (\<lambda>e. e = Drain) es)"

lemma drains_counted:
  "dw_drained (foldl dlq_writer_step s es) + length (dw_drains (foldl dlq_writer_step s es)) =
     dw_drained s + length (dw_drains s) + drains_asked es"
proof (induction es arbitrary: s)
  case (Cons e es)
  have "dw_drained (dlq_writer_step s e) + length (dw_drains (dlq_writer_step s e)) =
      dw_drained s + length (dw_drains s) + drains_asked [e]"
    by (cases e) (simp_all add: dlq_writer_step_def redrain_count drains_asked_def)
  with Cons.IH [of "dlq_writer_step s e"] show ?case by (simp add: drains_asked_def)
qed (simp add: drains_asked_def)

text \<open>
  C40: a stop that drains loses no copy: whatever failures, settlements and drains come before it,
  an event that resolves a drain leaves no copy in flight - those started while the drain was
  waiting included - and once nothing is in flight every drain asked for has resolved.
\<close>

theorem drain_waits_for_every_copy:
  "let s = foldl dlq_writer_step createDlqWriter es; s' = dlq_writer_step s e in
     (dw_drained s < dw_drained s' \<longrightarrow> dw_inFlight s' = []) \<and>
     (dw_inFlight s' = [] \<longrightarrow> dw_drained s' = drains_asked (es @ [e]))"
proof -
  define s where "s = foldl dlq_writer_step createDlqWriter es"
  define s' where "s' = dlq_writer_step s e"
  have s': "s' = foldl dlq_writer_step createDlqWriter (es @ [e])" by (simp add: s'_def s_def)
  have "drain_inv s'" unfolding s' by (rule writer.run_inv) (simp add: drain_inv_def createDlqWriter_def)
  then have "dw_inFlight s' = [] \<Longrightarrow> dw_drains s' = []"
    unfolding drain_inv_def by (metis list.set_intros(1) list.set(1) neq_Nil_conv set_empty subset_empty)
  moreover have "dw_drained s' + length (dw_drains s') = drains_asked (es @ [e])"
    using drains_counted [of createDlqWriter "es @ [e]"] unfolding s' by (simp add: createDlqWriter_def)
  moreover have "dw_drained s < dw_drained s' \<Longrightarrow> dw_inFlight s' = []"
    unfolding s'_def by (cases e) (use redrain_resolves in \<open>force simp: dlq_writer_step_def\<close>)+
  ultimately show ?thesis unfolding s_def [symmetric] s'_def [symmetric] Let_def
    by (metis add.right_neutral list.size(3))
qed

theorem drain_waits_for_every_copy_witness:
  "dw_drained (foldl dlq_writer_step createDlqWriter [OnFailed, Drain, OnFailed, CopySettles 0, CopySettles 1]) = 1"
  using drain_waits_for_every_copy [of "[OnFailed, Drain, OnFailed, CopySettles 0]" "CopySettles 1"]
  by (simp add: dlq_writer_step_def redrain_def createDlqWriter_def drains_asked_def)

end
