(* ===== verification/Schedules.thy ===== *)
theory Schedules
  imports Define_Job
begin

text \<open>
  The repeatable jobs and their sync (\<open>apps/worker/src/schedules.ts\<close>): what is declared, the
  paginated reading of a queue's schedulers, and the pass that makes Redis agree with the
  declaration.  The calls of the queue library are parameters; the locale \<open>scheduler_store\<close> is what
  they are relied on for.
\<close>

section \<open>The declaration\<close>

record schedule_declaration =
  sc_queue :: queue_name
  sc_id :: string
  sc_pattern :: string

definition SCHEDULES :: "schedule_declaration list" where
  "SCHEDULES =
     [\<lparr>sc_queue = ''system.heartbeat'', sc_id = ''system.heartbeat'',
       sc_pattern = ''*/'' @ show_nat (nat \<lfloor>HEARTBEAT_INTERVAL_MIN\<rfloor>) @ '' * * * *''\<rparr>]"

record 'w schedulable_queues =
  sq_getQueue :: "queue_name \<Rightarrow> ('w, unit) job_io"
  sq_upsert :: "queue_name \<Rightarrow> string \<Rightarrow> string \<Rightarrow> string \<times> json \<Rightarrow> ('w, unit) job_io"
  sq_page :: "queue_name \<Rightarrow> nat \<Rightarrow> nat \<Rightarrow> ('w, string list) job_io"
  sq_remove :: "queue_name \<Rightarrow> string \<Rightarrow> ('w, bool) job_io"

definition PAGE_SIZE :: nat where
  "PAGE_SIZE = 100"

text \<open>The loop over the pages; \<open>None\<close> when \<open>fuel\<close> pages were full and the end has not come.\<close>

fun listSchedulerIds ::
  "nat \<Rightarrow> 'w schedulable_queues \<Rightarrow> queue_name \<Rightarrow> nat \<Rightarrow> string list \<Rightarrow> ('w, string list option) job_io" where
  "listSchedulerIds 0 q name start ids = io_return None"
| "listSchedulerIds (Suc fuel) q name start ids =
     io_bind (sq_page q name start (start + PAGE_SIZE - 1)) (\<lambda>page.
       if length page < PAGE_SIZE then io_return (Some (ids @ page))
       else listSchedulerIds fuel q name (start + PAGE_SIZE) (ids @ page))"

section \<open>The sync\<close>

definition declared_ids :: "schedule_declaration list \<Rightarrow> queue_name \<Rightarrow> string list" where
  "declared_ids schedules name = map sc_id (filter (\<lambda>s. sc_queue s = name) schedules)"

fun upsert_declared :: "'w schedulable_queues \<Rightarrow> schedule_declaration list \<Rightarrow> ('w, unit) job_io" where
  "upsert_declared q [] = io_return ()"
| "upsert_declared q (s # ss) =
     io_bind (sq_getQueue q (sc_queue s)) (\<lambda>_.
     io_bind (sq_upsert q (sc_queue s) (sc_id s) (sc_pattern s) (sc_queue s, Obj [])) (\<lambda>_.
     upsert_declared q ss))"

definition scheduler_name :: "queue_name \<Rightarrow> string \<Rightarrow> string" where
  "scheduler_name queue sid = queue @ ''/'' @ sid"

fun remove_strays ::
  "'w schedulable_queues \<Rightarrow> queue_name \<Rightarrow> string list \<Rightarrow> string list \<Rightarrow> string list \<Rightarrow> ('w, string list) job_io" where
  "remove_strays q name known [] removed = io_return removed"
| "remove_strays q name known (sid # ids) removed =
     (if List.member known sid then remove_strays q name known ids removed
      else io_bind (sq_remove q name sid) (\<lambda>_ w.
        remove_strays q name known ids (removed @ [scheduler_name name sid])
          (log_job Warn [(''queue'', LVal (Str name)), (''schedulerId'', LVal (Str sid))]
             ''removed a job scheduler that is no longer declared'' w)))"

fun sweep_queues ::
  "nat \<Rightarrow> 'w schedulable_queues \<Rightarrow> schedule_declaration list \<Rightarrow> queue_name list \<Rightarrow> string list \<Rightarrow>
   ('w, string list option) job_io" where
  "sweep_queues fuel q schedules [] removed = io_return (Some removed)"
| "sweep_queues fuel q schedules (name # names) removed =
     io_bind (sq_getQueue q name) (\<lambda>_.
     io_bind (listSchedulerIds fuel q name 0 []) (\<lambda>listed.
       case listed of
         None \<Rightarrow> io_return None
       | Some ids \<Rightarrow>
           io_bind (remove_strays q name (declared_ids schedules name) ids removed) (\<lambda>removed'.
           sweep_queues fuel q schedules names removed')))"

record sync_result =
  sy_declared :: "string list"
  sy_removed :: "string list"

definition syncSchedules ::
  "nat \<Rightarrow> 'w schedulable_queues \<Rightarrow> schedule_declaration list \<Rightarrow> ('w, sync_result option) job_io" where
  "syncSchedules fuel q schedules =
     io_bind (upsert_declared q schedules) (\<lambda>_.
     io_bind (sweep_queues fuel q schedules QUEUE_NAMES []) (\<lambda>swept.
       case swept of
         None \<Rightarrow> io_return None
       | Some removed \<Rightarrow> (\<lambda>w.
           (let declared = map (\<lambda>s. scheduler_name (sc_queue s) (sc_id s)) schedules
            in (Inr (Some \<lparr>sy_declared = declared, sy_removed = removed\<rparr>),
                log_job Info [(''declared'', LVal (Arr (map Str declared))), (''removed'', LVal (Arr (map Str removed)))]
                  ''job schedulers synchronised'' w)))))"

section \<open>Redis with schedulers\<close>

text \<open>
  \<open>sched w name\<close> are the schedulers of a queue with their patterns, \<open>keys w name\<close> their ids in the
  order a reading pages through; a line of the log changes neither.
\<close>

locale scheduler_store =
  fixes q :: "'w schedulable_queues"
    and sched :: "'w job_world \<Rightarrow> queue_name \<Rightarrow> string \<rightharpoonup> string"
    and keys :: "'w job_world \<Rightarrow> queue_name \<Rightarrow> string list"
  assumes opens: "sq_getQueue q n w = (Inr (), w)"
    and keys_dom: "distinct (keys w n) \<and> set (keys w n) = dom (sched w n)"
    and page: "sq_page q n a b w = (Inr (take (Suc b - a) (drop a (keys w n))), w)"
    and upsert: "\<exists>w'. sq_upsert q n i p t w = (Inr (), w') \<and> sched w' = (sched w)(n := (sched w n)(i \<mapsto> p))"
    and remove: "\<exists>b w'. sq_remove q n i w = (Inr b, w') \<and> sched w' = (sched w)(n := (sched w n)(i := None))"
    and log: "sched (w\<lparr>jw_log := l\<rparr>) = sched w"
begin

lemma line_keeps [simp]: "sched (log_job lv fs m w) = sched w"
  by (simp add: log_job_def log)

lemma listing:
  "length (keys w n) < start + fuel * PAGE_SIZE \<Longrightarrow> ids = take start (keys w n) \<Longrightarrow>
     listSchedulerIds fuel q n start ids w =
       (if fuel = 0 then (Inr None, w) else (Inr (Some (keys w n)), w))"
proof (induction fuel arbitrary: start ids)
  case 0
  then show ?case by (simp add: io_simps)
next
  case (Suc fuel)
  let ?page = "take PAGE_SIZE (drop start (keys w n))"
  have all: "ids @ ?page = take (start + PAGE_SIZE) (keys w n)" by (simp add: Suc.prems take_add)
  have pg: "sq_page q n start (start + PAGE_SIZE - 1) w = (Inr ?page, w)"
    by (simp add: page PAGE_SIZE_def)
  show ?case
  proof (cases "length ?page < PAGE_SIZE")
    case True
    then have "length (keys w n) \<le> start + PAGE_SIZE" by (simp add: PAGE_SIZE_def split: if_splits)
    with True all pg show ?thesis by (simp add: io_simps)
  next
    case False
    have l: "length (keys w n) < start + PAGE_SIZE + fuel * PAGE_SIZE" using Suc.prems(1) by simp
    have "fuel \<noteq> 0" using False l by (auto simp: PAGE_SIZE_def)
    with False pg Suc.IH [OF l all] show ?thesis by (simp add: io_simps)
  qed
qed

lemma upserts:
  "\<exists>w'. upsert_declared q ss w = (Inr (), w') \<and>
     (\<forall>n i. sched w' n i =
        (case map_of (map (\<lambda>s. ((sc_queue s, sc_id s), sc_pattern s)) (rev ss)) (n, i) of
           Some p \<Rightarrow> Some p | None \<Rightarrow> sched w n i))"
proof (induction ss arbitrary: w)
  case Nil
  then show ?case by (simp add: io_simps)
next
  case (Cons s ss)
  obtain w1 where w1: "sq_upsert q (sc_queue s) (sc_id s) (sc_pattern s) (sc_queue s, Obj []) w = (Inr (), w1)"
    "sched w1 = (sched w)(sc_queue s := (sched w (sc_queue s))(sc_id s \<mapsto> sc_pattern s))"
    using upsert by blast
  obtain w' where w': "upsert_declared q ss w1 = (Inr (), w')"
    "\<forall>n i. sched w' n i =
        (case map_of (map (\<lambda>s. ((sc_queue s, sc_id s), sc_pattern s)) (rev ss)) (n, i) of
           Some p \<Rightarrow> Some p | None \<Rightarrow> sched w1 n i)" using Cons.IH by blast
  have "upsert_declared q (s # ss) w = (Inr (), w')" using w1 w' by (simp add: io_simps opens)
  moreover have "sched w' n i =
        (case map_of (map (\<lambda>s. ((sc_queue s, sc_id s), sc_pattern s)) (rev (s # ss))) (n, i) of
           Some p \<Rightarrow> Some p | None \<Rightarrow> sched w n i)" for n i
    using w'(2) w1(2) by (simp add: map_add_def split: option.splits)
  ultimately show ?case by blast
qed

lemma strays:
  "\<exists>w'. remove_strays q name known ids removed w =
      (Inr (removed @ map (scheduler_name name) (filter (\<lambda>i. i \<notin> set known) ids)), w') \<and>
    (\<forall>n i. sched w' n i = (if n = name \<and> i \<in> set ids \<and> i \<notin> set known then None else sched w n i))"
proof (induction ids arbitrary: removed w)
  case Nil
  then show ?case by (simp add: io_simps)
next
  case (Cons sid ids)
  show ?case
  proof (cases "sid \<in> set known")
    case True
    with Cons.IH [of removed w] show ?thesis by auto
  next
    case False
    obtain b w1 where w1: "sq_remove q name sid w = (Inr b, w1)"
      "sched w1 = (sched w)(name := (sched w name)(sid := None))" using remove by blast
    let ?w2 = "log_job Warn [(''queue'', LVal (Str name)), (''schedulerId'', LVal (Str sid))]
             ''removed a job scheduler that is no longer declared'' w1"
    obtain w' where w': "remove_strays q name known ids (removed @ [scheduler_name name sid]) ?w2 =
      (Inr ((removed @ [scheduler_name name sid]) @ map (scheduler_name name) (filter (\<lambda>i. i \<notin> set known) ids)), w')"
      "\<forall>n i. sched w' n i = (if n = name \<and> i \<in> set ids \<and> i \<notin> set known then None else sched ?w2 n i)"
      using Cons.IH [of "removed @ [scheduler_name name sid]" ?w2] by blast
    have "remove_strays q name known (sid # ids) removed w =
      (Inr (removed @ map (scheduler_name name) (filter (\<lambda>i. i \<notin> set known) (sid # ids))), w')"
      using False w1 w'(1) by (simp add: io_simps)
    moreover have "sched w' n i = (if n = name \<and> i \<in> set (sid # ids) \<and> i \<notin> set known then None else sched w n i)" for n i
      using w'(2) w1(2) False by auto
    ultimately show ?thesis by blast
  qed
qed

lemma sweep:
  assumes "distinct names" and "\<forall>n \<in> set names. card (dom (sched w n)) < fuel * PAGE_SIZE"
  shows "\<exists>w' removed'. sweep_queues fuel q schedules names removed w = (Inr (Some (removed @ removed')), w') \<and>
    set removed' = {scheduler_name n i | n i. n \<in> set names \<and> i \<in> dom (sched w n) \<and> i \<notin> set (declared_ids schedules n)} \<and>
    (\<forall>n i. sched w' n i =
       (if n \<in> set names \<and> i \<notin> set (declared_ids schedules n) then None else sched w n i))"
  using assms
proof (induction names arbitrary: removed w)
  case Nil
  then show ?case by (simp add: io_simps)
next
  case (Cons name names)
  let ?known = "declared_ids schedules name"
  have fuel: "fuel \<noteq> 0" using Cons.prems(2) by (cases fuel) auto
  have "length (keys w name) = card (dom (sched w name))"
    using keys_dom [of w name] distinct_card by fastforce
  then have len: "length (keys w name) < 0 + fuel * PAGE_SIZE" using Cons.prems(2) by simp
  have list: "listSchedulerIds fuel q name 0 [] w = (Inr (Some (keys w name)), w)"
    using listing [OF len, of "[]"] fuel by simp
  obtain w1 where w1: "remove_strays q name ?known (keys w name) removed w =
      (Inr (removed @ map (scheduler_name name) (filter (\<lambda>i. i \<notin> set ?known) (keys w name))), w1)"
    "\<forall>n i. sched w1 n i = (if n = name \<and> i \<in> set (keys w name) \<and> i \<notin> set ?known then None else sched w n i)"
    using strays by blast
  let ?r1 = "map (scheduler_name name) (filter (\<lambda>i. i \<notin> set ?known) (keys w name))"
  have same: "sched w1 n = sched w n" if "n \<noteq> name" for n using w1(2) that by auto
  have "\<forall>n \<in> set names. card (dom (sched w1 n)) < fuel * PAGE_SIZE"
    using Cons.prems same by (metis distinct.simps(2) list.set_intros(2))
  then obtain w' r' where w': "sweep_queues fuel q schedules names (removed @ ?r1) w1 = (Inr (Some ((removed @ ?r1) @ r')), w')"
    "set r' = {scheduler_name n i | n i. n \<in> set names \<and> i \<in> dom (sched w1 n) \<and> i \<notin> set (declared_ids schedules n)}"
    "\<forall>n i. sched w' n i =
       (if n \<in> set names \<and> i \<notin> set (declared_ids schedules n) then None else sched w1 n i)"
    using Cons.IH [of w1 "removed @ ?r1"] Cons.prems(1) by auto
  have run: "sweep_queues fuel q schedules (name # names) removed w = (Inr (Some (removed @ (?r1 @ r'))), w')"
    using list w1(1) w'(1) by (simp add: io_simps opens)
  have r1: "set ?r1 = {scheduler_name name i | i. i \<in> dom (sched w name) \<and> i \<notin> set ?known}"
    using keys_dom [of w name] by auto
  have "n \<noteq> name" if "n \<in> set names" for n using that Cons.prems(1) by auto
  then have r': "set r' = {scheduler_name n i | n i. n \<in> set names \<and> i \<in> dom (sched w n) \<and> i \<notin> set (declared_ids schedules n)}"
    unfolding w'(2) using same by (intro Collect_cong ex_cong1) auto
  have "set (?r1 @ r') = {scheduler_name n i | n i. n \<in> set (name # names) \<and> i \<in> dom (sched w n) \<and>
      i \<notin> set (declared_ids schedules n)}"
    unfolding set_append r1 r' list.set insert_iff by blast
  moreover have "sched w' n i =
       (if n \<in> set (name # names) \<and> i \<notin> set (declared_ids schedules n) then None else sched w n i)" for n i
    using w'(3) w1(2) keys_dom [of w name] by (auto simp: domIff)
  ultimately show ?case using run by blast
qed

lemma dom_update_card: "card (dom (m(i \<mapsto> p))) \<le> Suc (card (dom m))"
  by (cases "finite (dom m)") (auto simp: card_insert_if)

lemma finite_sched: "finite (dom (sched w n))"
  using keys_dom [of w n] by (metis List.finite_set)

lemma upserts_card:
  assumes "upsert_declared q ss w = (Inr (), w')"
  shows "card (dom (sched w' n)) \<le> card (dom (sched w n)) + length ss"
  using assms
proof (induction ss arbitrary: w)
  case Nil
  then show ?case by (simp add: io_simps)
next
  case (Cons s ss)
  obtain w1 where w1: "sq_upsert q (sc_queue s) (sc_id s) (sc_pattern s) (sc_queue s, Obj []) w = (Inr (), w1)"
    "sched w1 = (sched w)(sc_queue s := (sched w (sc_queue s))(sc_id s \<mapsto> sc_pattern s))"
    using upsert by blast
  have "upsert_declared q ss w1 = (Inr (), w')" using Cons.prems w1(1) by (simp add: io_simps opens)
  from Cons.IH [OF this] w1(2) dom_update_card [of "sched w (sc_queue s)" "sc_id s" "sc_pattern s"]
  show ?case by (auto split: if_splits)
qed

lemma sync_ok:
  assumes "\<forall>s \<in> set schedules. sc_queue s \<in> set QUEUE_NAMES"
    and "\<forall>n \<in> set QUEUE_NAMES. card (dom (sched w n)) + length schedules < fuel * PAGE_SIZE"
  shows "\<exists>w' removed. syncSchedules fuel q schedules w =
      (Inr (Some \<lparr>sy_declared = map (\<lambda>s. scheduler_name (sc_queue s) (sc_id s)) schedules, sy_removed = removed\<rparr>), w') \<and>
    set removed = {scheduler_name n i | n i. n \<in> set QUEUE_NAMES \<and> i \<in> dom (sched w n) \<and> i \<notin> set (declared_ids schedules n)} \<and>
    (\<forall>n. sched w' n =
       (if n \<in> set QUEUE_NAMES
        then (\<lambda>i. map_of (map (\<lambda>s. ((sc_queue s, sc_id s), sc_pattern s)) (rev schedules)) (n, i))
        else sched w n))"
proof -
  let ?decl = "map_of (map (\<lambda>s. ((sc_queue s, sc_id s), sc_pattern s)) (rev schedules))"
  have decl: "?decl (n, i) = None \<longleftrightarrow> i \<notin> set (declared_ids schedules n)" for n i
    by (auto simp: map_of_eq_None_iff declared_ids_def image_iff)
  obtain w1 where w1: "upsert_declared q schedules w = (Inr (), w1)"
    "\<forall>n i. sched w1 n i = (case ?decl (n, i) of Some p \<Rightarrow> Some p | None \<Rightarrow> sched w n i)"
    using upserts by blast
  have "\<forall>n \<in> set QUEUE_NAMES. card (dom (sched w1 n)) < fuel * PAGE_SIZE"
    using assms(2) upserts_card [OF w1(1)] by (meson le_less_trans)
  from sweep [OF distinct_QUEUE_NAMES this, of schedules "[]"] obtain w2 removed where
    w2: "sweep_queues fuel q schedules QUEUE_NAMES [] w1 = (Inr (Some removed), w2)"
    "set removed = {scheduler_name n i | n i. n \<in> set QUEUE_NAMES \<and> i \<in> dom (sched w1 n) \<and>
       i \<notin> set (declared_ids schedules n)}"
    "\<forall>n i. sched w2 n i =
       (if n \<in> set QUEUE_NAMES \<and> i \<notin> set (declared_ids schedules n) then None else sched w1 n i)" by auto
  have "i \<in> dom (sched w1 n) \<longleftrightarrow> i \<in> dom (sched w n)" if "i \<notin> set (declared_ids schedules n)" for n i
    using that w1(2) decl [of n i] by (auto simp: domIff)
  then have removed: "set removed = {scheduler_name n i | n i. n \<in> set QUEUE_NAMES \<and> i \<in> dom (sched w n) \<and>
       i \<notin> set (declared_ids schedules n)}" unfolding w2(2) by (intro Collect_cong ex_cong1) blast
  have outside: "?decl (n, i) = None" if "n \<notin> set QUEUE_NAMES" for n i
    using that assms(1) unfolding decl by (auto simp: declared_ids_def)
  have "sched w2 n i = (if n \<in> set QUEUE_NAMES then ?decl (n, i) else sched w n i)" for n i
    using w2(3) w1(2) decl [of n i] outside [of n i] by (auto split: option.splits)
  then have final: "sched w2 n = (if n \<in> set QUEUE_NAMES then (\<lambda>i. ?decl (n, i)) else sched w n)" for n
    by (auto simp: fun_eq_iff)
  show ?thesis
    using w1(1) w2(1) removed final by (auto simp: syncSchedules_def io_simps Let_def)
qed

end

section \<open>Schedulers in memory\<close>

type_synonym memory_schedulers = "queue_name \<Rightarrow> (string \<times> string) list"

definition mem_schedulers :: "memory_schedulers schedulable_queues" where
  "mem_schedulers =
     \<lparr>sq_getQueue = (\<lambda>n w. (Inr (), w)),
      sq_upsert = (\<lambda>n i p t w. (Inr (), w\<lparr>jw_rest := (jw_rest w)(n := (i, p) # jw_rest w n)\<rparr>)),
      sq_page = (\<lambda>n a b w. (Inr (take (Suc b - a) (drop a (remdups (map fst (jw_rest w n))))), w)),
      sq_remove = (\<lambda>n i w. (Inr True, w\<lparr>jw_rest := (jw_rest w)(n := filter (\<lambda>e. fst e \<noteq> i) (jw_rest w n))\<rparr>))\<rparr>"

definition mem_sched :: "memory_schedulers job_world \<Rightarrow> queue_name \<Rightarrow> string \<rightharpoonup> string" where
  "mem_sched w n = map_of (jw_rest w n)"

lemma map_of_drop_key: "map_of (filter (\<lambda>e. fst e \<noteq> i) xs) = (map_of xs)(i := None)"
  using map_of_filter_key [of "\<lambda>k. k \<noteq> i" xs] by (auto simp: case_prod_beta' fun_eq_iff)

interpretation mem_schedule: scheduler_store mem_schedulers mem_sched "\<lambda>w n. remdups (map fst (jw_rest w n))"
proof unfold_locales
  show "\<exists>w'. sq_upsert mem_schedulers n i p t w = (Inr (), w') \<and>
      mem_sched w' = (mem_sched w)(n := (mem_sched w n)(i \<mapsto> p))" for n i p t and w :: "memory_schedulers job_world"
    by (auto simp: mem_schedulers_def mem_sched_def fun_eq_iff)
  show "\<exists>b w'. sq_remove mem_schedulers n i w = (Inr b, w') \<and>
      mem_sched w' = (mem_sched w)(n := (mem_sched w n)(i := None))" for n i and w :: "memory_schedulers job_world"
    by (auto simp: mem_schedulers_def mem_sched_def fun_eq_iff map_of_drop_key)
qed (auto simp: mem_schedulers_def mem_sched_def dom_map_of_conv_image_fst fun_eq_iff)

section \<open>Properties\<close>

text \<open>
  After a sync Redis holds what is declared and nothing else: over a store of schedulers, and
  with pages enough for what it holds, the sync ends, every queue of the registry has exactly its
  declared schedulers with their declared patterns, queues outside the registry are as they were,
  and the result names exactly the schedulers that were there and are not declared.
\<close>

theorem sync_makes_schedulers_declared:
  assumes "scheduler_store q sched keys"
    and "\<forall>s \<in> set schedules. sc_queue s \<in> set QUEUE_NAMES"
    and "\<forall>n \<in> set QUEUE_NAMES. card (dom (sched w n)) + length schedules < fuel * PAGE_SIZE"
  shows "\<exists>w' removed. syncSchedules fuel q schedules w =
      (Inr (Some \<lparr>sy_declared = map (\<lambda>s. scheduler_name (sc_queue s) (sc_id s)) schedules, sy_removed = removed\<rparr>), w') \<and>
    set removed = {scheduler_name n i | n i. n \<in> set QUEUE_NAMES \<and> i \<in> dom (sched w n) \<and> i \<notin> set (declared_ids schedules n)} \<and>
    (\<forall>n. sched w' n =
       (if n \<in> set QUEUE_NAMES
        then (\<lambda>i. map_of (map (\<lambda>s. ((sc_queue s, sc_id s), sc_pattern s)) (rev schedules)) (n, i))
        else sched w n))"
  by (rule scheduler_store.sync_ok [OF assms])

theorem sync_makes_schedulers_declared_witness:
  "\<exists>w' removed. syncSchedules 1 mem_schedulers SCHEDULES
      \<lparr>jw_log = [], jw_rest = (\<lambda>n. if n = ''system.smoke'' then [(''old'', ''* * * * *'')] else [])\<rparr> =
      (Inr (Some \<lparr>sy_declared = [''system.heartbeat/system.heartbeat''], sy_removed = removed\<rparr>), w') \<and>
    mem_sched w' ''system.smoke'' = Map.empty"
proof -
  let ?w = "\<lparr>jw_log = [], jw_rest = (\<lambda>n. if n = ''system.smoke'' then [(''old'', ''* * * * *'')] else [])\<rparr>"
  have a: "\<forall>s \<in> set SCHEDULES. sc_queue s \<in> set QUEUE_NAMES" by (simp add: SCHEDULES_def QUEUE_NAMES_def)
  have b: "\<forall>n \<in> set QUEUE_NAMES. card (dom (mem_sched ?w n)) + length SCHEDULES < 1 * PAGE_SIZE"
    by (simp add: mem_sched_def PAGE_SIZE_def SCHEDULES_def)
  have "''system.smoke'' \<in> set QUEUE_NAMES" by (simp add: QUEUE_NAMES_def)
  then show ?thesis
    using sync_makes_schedulers_declared [OF mem_schedule.scheduler_store_axioms a b]
    by (auto simp: SCHEDULES_def scheduler_name_def)
qed

end
