(* ===== verification/Worker_Runtime.thy ===== *)
theory Worker_Runtime
  imports Schedules
begin

text \<open>
  The worker process as one start and one stop (\<open>apps/worker/src/runtime.ts\<close>): the order of the
  start, what a start that throws halfway takes back, and the two stages of the stop with their
  refusals.  What the steps do is in the theories of the switches, the schedules, the dead letter
  queue and the queue factory; here a step is a call of one of them, \<open>perform\<close>, that may throw.
\<close>

section \<open>State\<close>

datatype runtime_call =
    ApplySwitches
  | ClearHeartbeat
  | StartSync
  | SyncSchedules
  | StartWorker queue_name
  | StopSync
  | CloseWorker queue_name
  | DrainWriter queue_name
  | CloseQueues

text \<open>
  The variables of the closure - the workers in the order of the map, whether the resync was
  started, the two flags of the stop - with the calls made so far, each with what it threw, and the
  log.
\<close>

record 'w runtime =
  rt_workers :: "queue_name list"
  rt_syncing :: bool
  rt_workersClosed :: bool
  rt_queuesClosed :: bool
  rt_calls :: "(runtime_call \<times> thrown option) list"
  rt_log :: "log_line list"
  rt_rest :: 'w

type_synonym 'w parts = "runtime_call \<Rightarrow> 'w \<Rightarrow> thrown option \<times> 'w"

type_synonym ('w, 'a) runtime_io = "('w runtime, thrown, 'a) io"

definition perform :: "'w parts \<Rightarrow> runtime_call \<Rightarrow> ('w, unit) runtime_io" where
  "perform parts c s =
     (let (r, w) = parts c (rt_rest s)
      in ((case r of None \<Rightarrow> Inr () | Some e \<Rightarrow> Inl e), s\<lparr>rt_calls := rt_calls s @ [(c, r)], rt_rest := w\<rparr>))"

definition runtime_line :: "log_level \<Rightarrow> log_fields \<Rightarrow> string \<Rightarrow> 'w runtime \<Rightarrow> 'w runtime" where
  "runtime_line level fs message s =
     s\<lparr>rt_log := rt_log s @ [\<lparr>ll_level = level, ll_fields = fs, ll_message = message\<rparr>]\<rparr>"

definition runtime_start :: "'w \<Rightarrow> 'w runtime" where
  "runtime_start w =
     \<lparr>rt_workers = [], rt_syncing = False, rt_workersClosed = False, rt_queuesClosed = False,
      rt_calls = [], rt_log = [], rt_rest = w\<rparr>"

section \<open>The stop\<close>

text \<open>The refusals of one stop: nothing for none, one as it came, several in one error.\<close>

definition throwRefusals :: "thrown list \<Rightarrow> (nat \<Rightarrow> string) \<Rightarrow> ('w, unit) runtime_io" where
  "throwRefusals refusals message =
     (if length refusals = 1 then io_throw (hd refusals)
      else if length refusals > 1 then io_throw (aggregate_error refusals (message (length refusals)))
      else io_return ())"

text \<open>\<open>Promise.allSettled\<close> of the closes: every worker is closed; the refusals in their order.\<close>

fun close_each :: "'w parts \<Rightarrow> queue_name list \<Rightarrow> 'w runtime \<Rightarrow> thrown list \<times> 'w runtime" where
  "close_each parts [] s = ([], s)"
| "close_each parts (name # names) s =
     (case perform parts (CloseWorker name) s of
        (r, s1) \<Rightarrow>
          (case close_each parts names s1 of
             (refusals, s2) \<Rightarrow> ((case r of Inl e \<Rightarrow> e # refusals | Inr _ \<Rightarrow> refusals), s2)))"

text \<open>The drains never reject.\<close>

fun drain_each :: "'w parts \<Rightarrow> queue_name list \<Rightarrow> 'w runtime \<Rightarrow> 'w runtime" where
  "drain_each parts [] s = s"
| "drain_each parts (name # names) s = drain_each parts names (snd (perform parts (DrainWriter name) s))"

definition stop_sync :: "'w parts \<Rightarrow> 'w runtime \<Rightarrow> 'w runtime" where
  "stop_sync parts s = (if rt_syncing s then snd (perform parts StopSync s) else s)"

definition closeWorkers :: "'w parts \<Rightarrow> ('w, unit) runtime_io" where
  "closeWorkers parts s =
     (if rt_workersClosed s then (Inr (), s)
      else
        (let s1 = stop_sync parts (s\<lparr>rt_workersClosed := True\<rparr>);
             (refusals, s2) = close_each parts (rt_workers s1) s1;
             s3 = drain_each parts (rt_workers s2) s2
         in throwRefusals refusals
              (\<lambda>count. show_nat count @ '' of '' @ show_nat (length (rt_workers s1)) @ '' workers failed to close'') s3))"

definition closeQueues :: "'w parts \<Rightarrow> ('w, unit) runtime_io" where
  "closeQueues parts s =
     (if rt_queuesClosed s then (Inr (), s)
      else perform parts CloseQueues (s\<lparr>rt_queuesClosed := True\<rparr>))"

definition runtime_close :: "'w parts \<Rightarrow> ('w, unit) runtime_io" where
  "runtime_close parts s =
     (let (r1, s1) = closeWorkers parts s;
          (r2, s2) = closeQueues parts s1;
          refusals = (case r1 of Inl e \<Rightarrow> [e] | Inr _ \<Rightarrow> []) @ (case r2 of Inl e \<Rightarrow> [e] | Inr _ \<Rightarrow> [])
      in throwRefusals refusals (\<lambda>_. ''the workers and the queues both failed to close'') s2)"

section \<open>The start\<close>

fun start_workers :: "'w parts \<Rightarrow> nat \<Rightarrow> (queue_name \<Rightarrow> bool) \<Rightarrow> queue_name list \<Rightarrow> ('w, unit) runtime_io" where
  "start_workers parts workerConcurrency handled [] = io_return ()"
| "start_workers parts workerConcurrency handled (name # names) =
     (if \<not> handled name then start_workers parts workerConcurrency handled names
      else io_bind (perform parts (StartWorker name)) (\<lambda>_ s.
        start_workers parts workerConcurrency handled names
          (runtime_line Info
             [(''queue'', LVal (Str name)),
              (''concurrency'', LVal (num (of_nat (queueConcurrency name workerConcurrency))))]
             ''worker started'' (s\<lparr>rt_workers := rt_workers s @ [name]\<rparr>))))"

definition startEverything :: "'w parts \<Rightarrow> nat \<Rightarrow> (queue_name \<Rightarrow> bool) \<Rightarrow> ('w, unit) runtime_io" where
  "startEverything parts workerConcurrency handled =
     io_bind (perform parts ApplySwitches) (\<lambda>_.
     io_bind (perform parts ClearHeartbeat) (\<lambda>_.
     io_bind (io_bind (perform parts StartSync) (\<lambda>_ s. (Inr (), s\<lparr>rt_syncing := True\<rparr>))) (\<lambda>_.
     io_bind (perform parts SyncSchedules) (\<lambda>_.
     io_bind (start_workers parts workerConcurrency handled QUEUE_NAMES) (\<lambda>_ s.
       (Inr (), runtime_line Info
          [(''registered'', LVal (num (of_nat (length QUEUE_NAMES)))),
           (''handled'', LVal (num (of_nat (length (rt_workers s))))),
           (''queues'', LVal (Arr (map Str (rt_workers s))))]
          ''worker runtime started'' s))))))"

definition log_close_failure :: "('w, unit) runtime_io \<Rightarrow> 'w runtime \<Rightarrow> 'w runtime" where
  "log_close_failure m s =
     (case m s of
        (Inr _, s') \<Rightarrow> s'
      | (Inl e, s') \<Rightarrow> runtime_line ErrorLevel [(''err'', LErr e)] ''close failed while unwinding a start'' s')"

definition startWorkerRuntime :: "'w parts \<Rightarrow> nat \<Rightarrow> (queue_name \<Rightarrow> bool) \<Rightarrow> ('w, unit) runtime_io" where
  "startWorkerRuntime parts workerConcurrency handled =
     io_catch (startEverything parts workerConcurrency handled) (\<lambda>err s.
       (Inl err,
        log_close_failure (closeQueues parts)
          (log_close_failure (closeWorkers parts)
            (runtime_line ErrorLevel [(''err'', LErr err)] ''worker runtime failed to start, closing it back'' s))))"

section \<open>What the steps change\<close>

lemma perform_upd [simp]:
  "rt_workers (snd (perform parts c s)) = rt_workers s"
  "rt_syncing (snd (perform parts c s)) = rt_syncing s"
  "rt_workersClosed (snd (perform parts c s)) = rt_workersClosed s"
  "rt_queuesClosed (snd (perform parts c s)) = rt_queuesClosed s"
  by (simp_all add: perform_def Let_def split: prod.splits)

text \<open>A call is the last of the trace, with what it threw.\<close>

lemma perform_calls:
  "rt_calls (snd (perform parts c s)) =
     rt_calls s @ [(c, case fst (perform parts c s) of Inl e \<Rightarrow> Some e | Inr _ \<Rightarrow> None)]"
  by (auto simp: perform_def Let_def split: prod.splits option.splits)

lemma runtime_line_upd [simp]:
  "rt_workers (runtime_line l f m s) = rt_workers s"
  "rt_syncing (runtime_line l f m s) = rt_syncing s"
  "rt_workersClosed (runtime_line l f m s) = rt_workersClosed s"
  "rt_queuesClosed (runtime_line l f m s) = rt_queuesClosed s"
  "rt_calls (runtime_line l f m s) = rt_calls s"
  by (simp_all add: runtime_line_def)

lemma throwRefusals_world [simp]: "snd (throwRefusals rs msg s) = s"
  by (simp add: throwRefusals_def io_simps)

lemma throwRefusals_result:
  "fst (throwRefusals rs msg s) =
     (case rs of [] \<Rightarrow> Inr () | [e] \<Rightarrow> Inl e | _ \<Rightarrow> Inl (aggregate_error rs (msg (length rs))))"
  by (simp add: throwRefusals_def io_simps split: list.splits)

text \<open>A pass over the workers: its calls in their order, and the errors among them.\<close>

definition thrown_of_calls :: "(runtime_call \<times> thrown option) list \<Rightarrow> thrown list" where
  "thrown_of_calls cs = List.map_filter snd cs"

lemma thrown_of_calls_simps [simp]:
  "thrown_of_calls [] = []"
  "thrown_of_calls ((c, None) # cs) = thrown_of_calls cs"
  "thrown_of_calls ((c, Some e) # cs) = e # thrown_of_calls cs"
  "thrown_of_calls (cs @ ds) = thrown_of_calls cs @ thrown_of_calls ds"
  by (simp_all add: thrown_of_calls_def map_filter_simps map_filter_def)

lemma close_each_ok:
  "\<exists>cs. rt_calls (snd (close_each parts ns s)) = rt_calls s @ cs \<and> map fst cs = map CloseWorker ns \<and>
     fst (close_each parts ns s) = thrown_of_calls cs \<and>
     rt_workers (snd (close_each parts ns s)) = rt_workers s \<and>
     rt_syncing (snd (close_each parts ns s)) = rt_syncing s \<and>
     rt_workersClosed (snd (close_each parts ns s)) = rt_workersClosed s \<and>
     rt_queuesClosed (snd (close_each parts ns s)) = rt_queuesClosed s"
proof (induction ns arbitrary: s)
  case Nil
  then show ?case by simp
next
  case (Cons n ns)
  obtain r s1 where r: "perform parts (CloseWorker n) s = (r, s1)" by fastforce
  obtain rs s2 where rs: "close_each parts ns s1 = (rs, s2)" by fastforce
  obtain cs where cs: "rt_calls s2 = rt_calls s1 @ cs" "map fst cs = map CloseWorker ns" "rs = thrown_of_calls cs"
    "rt_workers s2 = rt_workers s1" "rt_syncing s2 = rt_syncing s1"
    "rt_workersClosed s2 = rt_workersClosed s1" "rt_queuesClosed s2 = rt_queuesClosed s1"
    using Cons.IH [of s1] rs by auto
  show ?case
    using r rs cs perform_calls [of parts "CloseWorker n" s] perform_upd [of parts "CloseWorker n" s]
    by (intro exI [of _ "(CloseWorker n, case r of Inl e \<Rightarrow> Some e | Inr _ \<Rightarrow> None) # cs"])
      (simp split: sum.splits)
qed

lemma drain_each_ok:
  "\<exists>cs. rt_calls (drain_each parts ns s) = rt_calls s @ cs \<and> map fst cs = map DrainWriter ns \<and>
     rt_workers (drain_each parts ns s) = rt_workers s \<and> rt_syncing (drain_each parts ns s) = rt_syncing s \<and>
     rt_workersClosed (drain_each parts ns s) = rt_workersClosed s \<and>
     rt_queuesClosed (drain_each parts ns s) = rt_queuesClosed s"
proof (induction ns arbitrary: s)
  case Nil
  then show ?case by simp
next
  case (Cons n ns)
  let ?s1 = "snd (perform parts (DrainWriter n) s)"
  obtain cs where cs: "rt_calls (drain_each parts ns ?s1) = rt_calls ?s1 @ cs" "map fst cs = map DrainWriter ns"
    "rt_workers (drain_each parts ns ?s1) = rt_workers s" "rt_syncing (drain_each parts ns ?s1) = rt_syncing s"
    "rt_workersClosed (drain_each parts ns ?s1) = rt_workersClosed s"
    "rt_queuesClosed (drain_each parts ns ?s1) = rt_queuesClosed s"
    using Cons.IH [of ?s1] by auto
  show ?case
    using cs
    by (intro exI [of _ "(DrainWriter n, case fst (perform parts (DrainWriter n) s) of Inl e \<Rightarrow> Some e | Inr _ \<Rightarrow> None) # cs"])
      (simp add: perform_calls)
qed

text \<open>The first stage of the stop, on a runtime that was not stopped before.\<close>

lemma closeWorkers_ok:
  assumes "\<not> rt_workersClosed s"
  shows "\<exists>stop cs ds. rt_calls (snd (closeWorkers parts s)) = rt_calls s @ stop @ cs @ ds \<and>
     map fst stop = (if rt_syncing s then [StopSync] else []) \<and>
     map fst cs = map CloseWorker (rt_workers s) \<and> map fst ds = map DrainWriter (rt_workers s) \<and>
     (fst (closeWorkers parts s) = Inr () \<longleftrightarrow> thrown_of_calls cs = []) \<and>
     (\<forall>e. thrown_of_calls cs = [e] \<longrightarrow> fst (closeWorkers parts s) = Inl e) \<and>
     rt_workers (snd (closeWorkers parts s)) = rt_workers s \<and>
     rt_workersClosed (snd (closeWorkers parts s)) \<and>
     rt_queuesClosed (snd (closeWorkers parts s)) = rt_queuesClosed s"
proof -
  define s1 where "s1 = stop_sync parts (s\<lparr>rt_workersClosed := True\<rparr>)"
  obtain stop where s1: "rt_calls s1 = rt_calls s @ stop" "map fst stop = (if rt_syncing s then [StopSync] else [])"
    "rt_workers s1 = rt_workers s" "rt_workersClosed s1" "rt_queuesClosed s1 = rt_queuesClosed s"
    by (cases "rt_syncing s") (auto simp: s1_def stop_sync_def perform_calls)
  obtain rs s2 where s2: "close_each parts (rt_workers s1) s1 = (rs, s2)" by fastforce
  obtain cs where cs: "rt_calls s2 = rt_calls s1 @ cs" "map fst cs = map CloseWorker (rt_workers s1)"
    "rs = thrown_of_calls cs" "rt_workers s2 = rt_workers s1" "rt_workersClosed s2 = rt_workersClosed s1"
    "rt_queuesClosed s2 = rt_queuesClosed s1"
    using close_each_ok [of parts "rt_workers s1" s1] s2 by auto
  define s3 where "s3 = drain_each parts (rt_workers s2) s2"
  obtain ds where ds: "rt_calls s3 = rt_calls s2 @ ds" "map fst ds = map DrainWriter (rt_workers s2)"
    "rt_workers s3 = rt_workers s2" "rt_workersClosed s3 = rt_workersClosed s2"
    "rt_queuesClosed s3 = rt_queuesClosed s2"
    using drain_each_ok [of parts "rt_workers s2" s2] by (auto simp: s3_def)
  have run: "closeWorkers parts s = throwRefusals rs
      (\<lambda>count. show_nat count @ '' of '' @ show_nat (length (rt_workers s1)) @ '' workers failed to close'') s3"
    using assms s2 by (simp add: closeWorkers_def s1_def s3_def Let_def)
  show ?thesis
    using s1 cs ds unfolding run
    by (intro exI [of _ stop] exI [of _ cs] exI [of _ ds]) (auto simp: throwRefusals_result split: list.splits)
qed

lemma closeQueues_ok:
  assumes "\<not> rt_queuesClosed s"
  shows "rt_calls (snd (closeQueues parts s)) =
      rt_calls s @ [(CloseQueues, case fst (closeQueues parts s) of Inl e \<Rightarrow> Some e | Inr _ \<Rightarrow> None)] \<and>
    rt_workersClosed (snd (closeQueues parts s)) = rt_workersClosed s \<and> rt_queuesClosed (snd (closeQueues parts s)) \<and>
    rt_workers (snd (closeQueues parts s)) = rt_workers s"
  using assms by (simp add: closeQueues_def perform_calls)

text \<open>The workers of a start: all of them, or those before the one that threw.\<close>

lemma start_workers_ok:
  "case start_workers parts n handled ns s of
     (Inr _, s') \<Rightarrow>
       rt_calls s' = rt_calls s @ map (\<lambda>w. (StartWorker w, None)) (filter handled ns) \<and>
       rt_workers s' = rt_workers s @ filter handled ns \<and>
       (rt_syncing s', rt_workersClosed s', rt_queuesClosed s') = (rt_syncing s, rt_workersClosed s, rt_queuesClosed s)
   | (Inl e, s') \<Rightarrow>
       (\<exists>pre w post. filter handled ns = pre @ w # post \<and>
          rt_calls s' = rt_calls s @ map (\<lambda>w. (StartWorker w, None)) pre @ [(StartWorker w, Some e)] \<and>
          rt_workers s' = rt_workers s @ pre \<and>
          (rt_syncing s', rt_workersClosed s', rt_queuesClosed s') = (rt_syncing s, rt_workersClosed s, rt_queuesClosed s))"
proof (induction ns arbitrary: s)
  case Nil
  then show ?case by (simp add: io_simps)
next
  case (Cons w ns)
  show ?case
  proof (cases "handled w")
    case False
    then have "filter handled (w # ns) = filter handled ns"
      "start_workers parts n handled (w # ns) s = start_workers parts n handled ns s" by simp_all
    with Cons.IH [of s] show ?thesis by (simp only:)
  next
    case True
    obtain r s1 where p: "perform parts (StartWorker w) s = (r, s1)" by fastforce
    have s1: "rt_calls s1 = rt_calls s @ [(StartWorker w, case r of Inl e \<Rightarrow> Some e | Inr _ \<Rightarrow> None)]"
      "rt_workers s1 = rt_workers s" "rt_syncing s1 = rt_syncing s"
      "rt_workersClosed s1 = rt_workersClosed s" "rt_queuesClosed s1 = rt_queuesClosed s"
      using perform_calls [of parts "StartWorker w" s] perform_upd [of parts "StartWorker w" s] p by simp_all
    show ?thesis
    proof (cases r)
      case (Inl e)
      with True p s1 show ?thesis
        by (simp add: io_simps)
    next
      case (Inr u)
      let ?s2 = "runtime_line Info
             [(''queue'', LVal (Str w)), (''concurrency'', LVal (num (of_nat (queueConcurrency w n))))]
             ''worker started'' (s1\<lparr>rt_workers := rt_workers s1 @ [w]\<rparr>)"
      have run: "start_workers parts n handled (w # ns) s = start_workers parts n handled ns ?s2"
        using True p Inr by (simp add: io_simps)
      obtain r' s' where r': "start_workers parts n handled ns ?s2 = (r', s')" by fastforce
      show ?thesis
      proof (cases r')
        case (Inr _)
        with Cons.IH [of ?s2] r' s1 \<open>r = Inr u\<close> True show ?thesis unfolding run by simp
      next
        case (Inl e)
        then obtain pre x post where ih: "filter handled ns = pre @ x # post"
          "rt_calls s' = rt_calls ?s2 @ map (\<lambda>w. (StartWorker w, None)) pre @ [(StartWorker x, Some e)]"
          "rt_workers s' = rt_workers ?s2 @ pre"
          "(rt_syncing s', rt_workersClosed s', rt_queuesClosed s') = (rt_syncing ?s2, rt_workersClosed ?s2, rt_queuesClosed ?s2)"
          using Cons.IH [of ?s2] r' by auto
        with s1 \<open>r = Inr u\<close> True have "filter handled (w # ns) = (w # pre) @ x # post"
          "rt_calls s' = rt_calls s @ map (\<lambda>w. (StartWorker w, None)) (w # pre) @ [(StartWorker x, Some e)]"
          "rt_workers s' = rt_workers s @ (w # pre)"
          "(rt_syncing s', rt_workersClosed s', rt_queuesClosed s') = (rt_syncing s, rt_workersClosed s, rt_queuesClosed s)"
          by simp_all
        with r' Inl show ?thesis unfolding run by (simp only: prod.case sum.case) blast
      qed
    qed
  qed
qed

definition start_plan :: "(queue_name \<Rightarrow> bool) \<Rightarrow> runtime_call list" where
  "start_plan handled =
     [ApplySwitches, ClearHeartbeat, StartSync, SyncSchedules] @ map StartWorker (filter handled QUEUE_NAMES)"

text \<open>Where a start stands when it ends: after the whole plan, or at the call that threw.\<close>

definition started :: "(queue_name \<Rightarrow> bool) \<Rightarrow> nat \<Rightarrow> 'w runtime \<Rightarrow> bool" where
  "started handled k s \<longleftrightarrow>
     rt_workers s = take (k - 4) (filter handled QUEUE_NAMES) \<and> (rt_syncing s \<longleftrightarrow> 3 \<le> k) \<and>
     \<not> rt_workersClosed s \<and> \<not> rt_queuesClosed s"

lemma start_step:
  assumes "perform parts c s = (r, s1)"
  shows "rt_calls s1 = rt_calls s @ [(c, case r of Inl e \<Rightarrow> Some e | Inr _ \<Rightarrow> None)] \<and>
    rt_workers s1 = rt_workers s \<and> rt_syncing s1 = rt_syncing s \<and>
    rt_workersClosed s1 = rt_workersClosed s \<and> rt_queuesClosed s1 = rt_queuesClosed s"
  using perform_calls [of parts c s] perform_upd [of parts c s] assms by simp

lemma startEverything_ok:
  "case startEverything parts n handled (runtime_start w) of
     (Inr _, s) \<Rightarrow> rt_calls s = map (\<lambda>c. (c, None)) (start_plan handled) \<and>
       started handled (length (start_plan handled)) s
   | (Inl e, s) \<Rightarrow> (\<exists>k < length (start_plan handled).
       rt_calls s = map (\<lambda>c. (c, None)) (take k (start_plan handled)) @ [(start_plan handled ! k, Some e)] \<and>
       started handled k s)"
proof -
  let ?p = "start_plan handled"
  have len: "4 \<le> length ?p" by (simp add: start_plan_def)
  obtain r0 s0 where p0: "perform parts ApplySwitches (runtime_start w) = (r0, s0)" by fastforce
  obtain r1 s1 where p1: "perform parts ClearHeartbeat s0 = (r1, s1)" by fastforce
  obtain r2 s2 where p2: "perform parts StartSync s1 = (r2, s2)" by fastforce
  obtain r3 s3 where p3: "perform parts SyncSchedules (s2\<lparr>rt_syncing := True\<rparr>) = (r3, s3)" by fastforce
  note facts = start_step [OF p0] start_step [OF p1] start_step [OF p2] start_step [OF p3]
  show ?thesis
  proof (cases "r0 = Inr () \<and> r1 = Inr () \<and> r2 = Inr () \<and> r3 = Inr ()")
    case False
    then consider e where "r0 = Inl e" | e where "r0 = Inr ()" "r1 = Inl e"
      | e where "r0 = Inr ()" "r1 = Inr ()" "r2 = Inl e"
      | e where "r0 = Inr ()" "r1 = Inr ()" "r2 = Inr ()" "r3 = Inl e"
      by (metis (full_types) old.unit.exhaust sum.exhaust_sel)
    then show ?thesis
    proof cases
      case 1
      with p0 facts len show ?thesis
        by (simp add: startEverything_def io_simps)
          (intro exI [of _ 0], auto simp: start_plan_def started_def runtime_start_def)
    next
      case 2
      with p0 p1 facts len show ?thesis
        by (simp add: startEverything_def io_simps)
          (intro exI [of _ 1], auto simp: start_plan_def started_def runtime_start_def)
    next
      case 3
      with p0 p1 p2 facts len show ?thesis
        by (simp add: startEverything_def io_simps)
          (intro exI [of _ 2], auto simp: start_plan_def started_def runtime_start_def numeral_2_eq_2)
    next
      case 4
      with p0 p1 p2 p3 facts len show ?thesis
        by (simp add: startEverything_def io_simps)
          (intro exI [of _ 3], auto simp: start_plan_def started_def runtime_start_def numeral_3_eq_3)
    qed
  next
    case True
    then have calls: "rt_calls s3 = [(ApplySwitches, None), (ClearHeartbeat, None), (StartSync, None), (SyncSchedules, None)]"
      and rest: "rt_workers s3 = []" "rt_syncing s3" "\<not> rt_workersClosed s3" "\<not> rt_queuesClosed s3"
      using facts by (auto simp: runtime_start_def)
    obtain r4 s4 where p4: "start_workers parts n handled QUEUE_NAMES s3 = (r4, s4)" by fastforce
    show ?thesis
    proof (cases r4)
      case (Inr _)
      with True p0 p1 p2 p3 p4 start_workers_ok [where parts = parts and n = n and handled = handled and ns = QUEUE_NAMES and s = s3] calls rest
      show ?thesis
        by (auto simp: startEverything_def io_simps start_plan_def started_def)
    next
      case (Inl e)
      then obtain pre x post where w: "filter handled QUEUE_NAMES = pre @ x # post"
          "rt_calls s4 = rt_calls s3 @ map (\<lambda>w. (StartWorker w, None)) pre @ [(StartWorker x, Some e)]"
          "rt_workers s4 = rt_workers s3 @ pre"
          "(rt_syncing s4, rt_workersClosed s4, rt_queuesClosed s4) = (rt_syncing s3, rt_workersClosed s3, rt_queuesClosed s3)"
        using start_workers_ok [where parts = parts and n = n and handled = handled and ns = QUEUE_NAMES and s = s3] p4 by auto
      define L where "L = [ApplySwitches, ClearHeartbeat, StartSync, SyncSchedules] @ map StartWorker pre"
      have plan: "?p = L @ StartWorker x # map StartWorker post" by (simp add: start_plan_def w(1) L_def)
      have L: "length L = 4 + length pre" by (simp add: L_def)
      have k: "take (4 + length pre) ?p = L" "?p ! (4 + length pre) = StartWorker x" "4 + length pre < length ?p"
        unfolding plan L [symmetric] by simp_all
      have "startEverything parts n handled (runtime_start w) = (Inl e, s4)"
        using True p0 p1 p2 p3 p4 Inl by (simp add: startEverything_def io_simps)
      moreover have "rt_calls s4 = map (\<lambda>c. (c, None)) (take (4 + length pre) ?p) @ [(?p ! (4 + length pre), Some e)]"
        unfolding k(1,2) using w(2) calls by (simp add: comp_def L_def)
      moreover have "started handled (4 + length pre) s4" using w rest by (simp add: started_def)
      ultimately show ?thesis using k(3) by auto
    qed
  qed
qed

section \<open>Properties\<close>

text \<open>
  C2: a start is all or nothing: either every step of the plan was taken, in its order - the
  switches before the stale heartbeat is cleared, before the resync, before the schedules, before
  any worker, the workers in the order of the registry - and nothing is closed; or the first step
  that throws is the last one taken, its error is the one the start ends with, and then exactly
  what was opened is closed again: the resync if it ran, every worker that was started and its
  copies, and the queues.
\<close>

theorem start_is_all_or_nothing:
  "case startWorkerRuntime parts n handled (runtime_start w) of
     (Inr _, s) \<Rightarrow> rt_calls s = map (\<lambda>c. (c, None)) (start_plan handled) \<and>
       rt_workers s = filter handled QUEUE_NAMES \<and> \<not> rt_workersClosed s \<and> \<not> rt_queuesClosed s
   | (Inl e, s) \<Rightarrow> (\<exists>k. k < length (start_plan handled) \<and>
       (\<exists>undo. rt_calls s =
          map (\<lambda>c. (c, None)) (take k (start_plan handled)) @ [(start_plan handled ! k, Some e)] @ undo \<and>
        map fst undo = (if 3 \<le> k then [StopSync] else []) @
          map CloseWorker (take (k - 4) (filter handled QUEUE_NAMES)) @
          map DrainWriter (take (k - 4) (filter handled QUEUE_NAMES)) @ [CloseQueues]) \<and>
       rt_workersClosed s \<and> rt_queuesClosed s)"
proof -
  obtain r s where st: "startEverything parts n handled (runtime_start w) = (r, s)" by fastforce
  show ?thesis
  proof (cases r)
    case (Inr u)
    with st startEverything_ok [where parts = parts and n = n and handled = handled and w = w] show ?thesis
      by (simp add: startWorkerRuntime_def io_simps started_def start_plan_def)
  next
    case (Inl e)
    let ?s1 = "runtime_line ErrorLevel [(''err'', LErr e)] ''worker runtime failed to start, closing it back'' s"
    from Inl st startEverything_ok [where parts = parts and n = n and handled = handled and w = w] obtain k where
      k: "k < length (start_plan handled)"
      "rt_calls s = map (\<lambda>c. (c, None)) (take k (start_plan handled)) @ [(start_plan handled ! k, Some e)]"
      "started handled k s" by auto
    have fresh: "\<not> rt_workersClosed ?s1" "\<not> rt_queuesClosed ?s1" using k(3) by (simp_all add: started_def)
    obtain stop cs ds where w: "rt_calls (snd (closeWorkers parts ?s1)) = rt_calls ?s1 @ stop @ cs @ ds"
        "map fst stop = (if rt_syncing ?s1 then [StopSync] else [])"
        "map fst cs = map CloseWorker (rt_workers ?s1)" "map fst ds = map DrainWriter (rt_workers ?s1)"
        "rt_workersClosed (snd (closeWorkers parts ?s1))"
        "rt_queuesClosed (snd (closeWorkers parts ?s1)) = rt_queuesClosed ?s1"
      using closeWorkers_ok [OF fresh(1), of parts] by blast
    have quiet: "rt_calls (log_close_failure m t) = rt_calls (snd (m t))"
      "rt_workersClosed (log_close_failure m t) = rt_workersClosed (snd (m t))"
      "rt_queuesClosed (log_close_failure m t) = rt_queuesClosed (snd (m t))" for m and t :: "'a runtime"
      by (simp_all add: log_close_failure_def split: prod.splits sum.splits)
    define s2 where "s2 = log_close_failure (closeWorkers parts) ?s1"
    define s3 where "s3 = log_close_failure (closeQueues parts) s2"
    have s2: "rt_calls s2 = rt_calls ?s1 @ stop @ cs @ ds" "rt_workersClosed s2" "\<not> rt_queuesClosed s2"
      unfolding s2_def quiet using w fresh(2) by simp_all
    obtain q where q: "rt_calls s3 = rt_calls s2 @ [(CloseQueues, q)]" "rt_workersClosed s3" "rt_queuesClosed s3"
      unfolding s3_def quiet using closeQueues_ok [OF s2(3), of parts] s2(2) by auto
    have "startWorkerRuntime parts n handled (runtime_start w) = (Inl e, s3)"
      using st Inl by (simp add: startWorkerRuntime_def io_simps s2_def s3_def)
    moreover have "map fst (stop @ cs @ ds @ [(CloseQueues, q)]) = (if 3 \<le> k then [StopSync] else []) @
          map CloseWorker (take (k - 4) (filter handled QUEUE_NAMES)) @
          map DrainWriter (take (k - 4) (filter handled QUEUE_NAMES)) @ [CloseQueues]"
      using w(2-4) k(3) by (simp add: started_def)
    moreover have "rt_calls s3 = map (\<lambda>c. (c, None)) (take k (start_plan handled)) @
        [(start_plan handled ! k, Some e)] @ (stop @ cs @ ds @ [(CloseQueues, q)])"
      using q(1) s2(1) k(2) by simp
    ultimately show ?thesis using k(1) q(2,3) by auto
  qed
qed

text \<open>
  C3: a stop closes everything whatever refuses, and hides no refusal: on a runtime that was not
  stopped before, the resync is stopped, every worker is asked to close and every copy is waited
  for before the queues are closed; the stop ends well exactly when no worker and no queue refused,
  a single refusal is the error it ends with, and a second stop calls nothing.
\<close>

theorem stop_closes_everything:
  assumes "\<not> rt_workersClosed s" and "\<not> rt_queuesClosed s"
  shows "\<exists>stop cs ds q. rt_calls (snd (runtime_close parts s)) = rt_calls s @ stop @ cs @ ds @ [(CloseQueues, q)] \<and>
    map fst stop = (if rt_syncing s then [StopSync] else []) \<and>
    map fst cs = map CloseWorker (rt_workers s) \<and> map fst ds = map DrainWriter (rt_workers s) \<and>
    (fst (runtime_close parts s) = Inr () \<longleftrightarrow> thrown_of_calls (cs @ [(CloseQueues, q)]) = []) \<and>
    (\<forall>e. thrown_of_calls (cs @ [(CloseQueues, q)]) = [e] \<longrightarrow> fst (runtime_close parts s) = Inl e) \<and>
    rt_calls (snd (runtime_close parts (snd (runtime_close parts s)))) = rt_calls (snd (runtime_close parts s))"
proof -
  obtain r1 s1 where r1: "closeWorkers parts s = (r1, s1)" by fastforce
  obtain r2 s2 where r2: "closeQueues parts s1 = (r2, s2)" by fastforce
  obtain stop cs ds where w: "rt_calls s1 = rt_calls s @ stop @ cs @ ds"
      "map fst stop = (if rt_syncing s then [StopSync] else [])"
      "map fst cs = map CloseWorker (rt_workers s)" "map fst ds = map DrainWriter (rt_workers s)"
      "r1 = Inr () \<longleftrightarrow> thrown_of_calls cs = []" "\<forall>e. thrown_of_calls cs = [e] \<longrightarrow> r1 = Inl e"
      "rt_workersClosed s1" "rt_queuesClosed s1 = rt_queuesClosed s"
    using closeWorkers_ok [OF assms(1), of parts] r1 by auto
  define q where "q = (case r2 of Inl e \<Rightarrow> Some e | Inr _ \<Rightarrow> None)"
  have q: "rt_calls s2 = rt_calls s1 @ [(CloseQueues, q)]" "rt_workersClosed s2" "rt_queuesClosed s2"
    using closeQueues_ok [of s1 parts] r2 w(7,8) assms(2) by (simp_all add: q_def)
  have world: "snd (runtime_close parts s) = s2" using r1 r2 by (simp add: runtime_close_def Let_def)
  have again: "rt_calls (snd (runtime_close parts s2)) = rt_calls s2"
    using q(2,3) by (simp add: runtime_close_def closeWorkers_def closeQueues_def Let_def)
  have result: "fst (runtime_close parts s) =
      fst (throwRefusals ((case r1 of Inl e \<Rightarrow> [e] | Inr _ \<Rightarrow> []) @ (case r2 of Inl e \<Rightarrow> [e] | Inr _ \<Rightarrow> []))
        (\<lambda>_. ''the workers and the queues both failed to close'') s2)"
    using r1 r2 by (simp add: runtime_close_def Let_def)
  have "fst (runtime_close parts s) = Inr () \<longleftrightarrow> r1 = Inr () \<and> r2 = Inr ()"
    unfolding result by (cases r1; cases r2) (simp_all add: throwRefusals_result)
  moreover have "q = None \<longleftrightarrow> r2 = Inr ()" by (cases r2) (simp_all add: q_def)
  moreover have "thrown_of_calls (cs @ [(CloseQueues, q)]) = [] \<longleftrightarrow> thrown_of_calls cs = [] \<and> q = None"
    by (cases q) simp_all
  ultimately have ok: "fst (runtime_close parts s) = Inr () \<longleftrightarrow> thrown_of_calls (cs @ [(CloseQueues, q)]) = []"
    using w(5) by blast
  have one: "fst (runtime_close parts s) = Inl e" if "thrown_of_calls (cs @ [(CloseQueues, q)]) = [e]" for e
  proof (cases r2)
    case (Inl x)
    with that have "thrown_of_calls cs = []" "x = e" by (simp_all add: q_def)
    with w(5) Inl show ?thesis unfolding result by (simp add: throwRefusals_result)
  next
    case (Inr _)
    with that have "thrown_of_calls cs = [e]" by (simp add: q_def)
    with w(6) Inr show ?thesis unfolding result by (simp add: throwRefusals_result)
  qed
  have "rt_calls s2 = rt_calls s @ stop @ cs @ ds @ [(CloseQueues, q)]" using q(1) w(1) by simp
  then show ?thesis unfolding world using w(2-4) ok one again world by blast
qed

definition quiet_parts :: "unit parts" where
  "quiet_parts c w = (None, w)"

theorem stop_closes_everything_witness:
  "fst (runtime_close quiet_parts ((runtime_start ())\<lparr>rt_workers := [''system.smoke''], rt_syncing := True\<rparr>)) = Inr ()"
proof -
  let ?s = "(runtime_start ())\<lparr>rt_workers := [''system.smoke''], rt_syncing := True\<rparr>"
  have fresh: "\<not> rt_workersClosed ?s" "\<not> rt_queuesClosed ?s" by (simp_all add: runtime_start_def)
  have never: "out = None" if "(c, out) \<in> set (rt_calls (snd (runtime_close quiet_parts ?s)))" for c out
    using that
    by (auto simp: runtime_close_def closeWorkers_def closeQueues_def stop_sync_def perform_def quiet_parts_def
        throwRefusals_def io_simps Let_def runtime_start_def)
  obtain stop cs ds q where c: "rt_calls (snd (runtime_close quiet_parts ?s)) = rt_calls ?s @ stop @ cs @ ds @ [(CloseQueues, q)]"
    "fst (runtime_close quiet_parts ?s) = Inr () \<longleftrightarrow> thrown_of_calls (cs @ [(CloseQueues, q)]) = []"
    using stop_closes_everything [OF fresh, of quiet_parts] by blast
  have "\<forall>(c, out) \<in> set (cs @ [(CloseQueues, q)]). out = None" using never c(1) by auto
  then have "thrown_of_calls (cs @ [(CloseQueues, q)]) = []"
    by (auto simp: thrown_of_calls_def map_filter_def filter_empty_conv)
  with c(2) show ?thesis by blast
qed

end
