(* ===== verification/Probe_Db.thy ===== *)
theory Probe_Db
  imports Js_Text Deadline
begin

text \<open>
  The bounded database handle of a probe (\<open>packages/db/src/probe.ts\<close>, \<open>client.ts\<close>) and the two
  handles of the api (\<open>apps/api/src/lib/probe-dbs.ts\<close>, \<open>dependency-timeout.ts\<close>): the options it is
  opened with, and the handle as a machine over what happens to it - calls, their work settling,
  their timers, the end of a destroyed client, the close.
\<close>

section \<open>Options\<close>

definition CONNECT_TIMEOUT_SEC :: rat where
  "CONNECT_TIMEOUT_SEC = 10"

definition DEPENDENCY_TIMEOUT_MS :: rat where
  "DEPENDENCY_TIMEOUT_MS = 2000"

definition PROBE_QUERY_LIMIT_MS :: rat where
  "PROBE_QUERY_LIMIT_MS = 2 * DEPENDENCY_TIMEOUT_MS"

definition DB_CLOSE_TIMEOUT_SEC :: rat where
  "DB_CLOSE_TIMEOUT_SEC = 3"

record client_options =
  co_max :: rat
  co_connect_timeout :: rat

definition clientOptions :: "rat option \<Rightarrow> rat option \<Rightarrow> client_options" where
  "clientOptions mx connectTimeoutSec =
     \<lparr>co_max = (case mx of Some m \<Rightarrow> m | None \<Rightarrow> 10),
      co_connect_timeout = (case connectTimeoutSec of Some s \<Rightarrow> s | None \<Rightarrow> CONNECT_TIMEOUT_SEC)\<rparr>"

text \<open>\<open>od_max_lifetime\<close> is \<open>Some None\<close> for \<open>max_lifetime: null\<close>.\<close>

record open_db_options = client_options +
  od_statement_timeout :: rat
  od_fetch_types :: bool
  od_max_lifetime :: "rat option option"

definition PROBE_DB_BOUNDS :: "jsnum \<times> jsnum" where
  "PROBE_DB_BOUNDS = (Fin PROBE_QUERY_LIMIT_MS, Fin DEPENDENCY_TIMEOUT_MS)"

definition assertBound :: "string \<Rightarrow> jsnum \<Rightarrow> thrown + unit" where
  "assertBound name value =
     (if \<not> (is_integer value \<and> num_less (Fin 0) value)
      then Inl (range_error (name @ '' ('' @ show_num value @ '') must be a positive whole number of ms''))
      else Inr ())"

text \<open>
  The standard library's \<open>URL\<close> is an object with the parameters of its query and a way back to the
  text; \<open>url_parse\<close> and \<open>url_href\<close> are those two.
\<close>

type_synonym url_params = "(string \<times> string) list"

definition withoutStatementTimeout ::
  "(string \<Rightarrow> thrown + ('u \<times> url_params)) \<Rightarrow> ('u \<times> url_params \<Rightarrow> string) \<Rightarrow> string \<Rightarrow> thrown + string" where
  "withoutStatementTimeout url_parse url_href url =
     (case url_parse url of
        Inl e \<Rightarrow> Inl e
      | Inr (u, params) \<Rightarrow>
          (let names = filter (\<lambda>name. lower name = ''statement_timeout'') (map fst params)
           in if names = [] then Inr url
              else Inr (url_href (u, filter (\<lambda>(k, v). \<not> List.member names k) params))))"

text \<open>What a probe handle opens every client with, or the refusal of its bounds.\<close>

definition probe_options ::
  "(string \<Rightarrow> thrown + ('u \<times> url_params)) \<Rightarrow> ('u \<times> url_params \<Rightarrow> string) \<Rightarrow> string \<Rightarrow> jsnum \<Rightarrow> jsnum \<Rightarrow> bool \<Rightarrow>
   thrown + (string \<times> open_db_options)" where
  "probe_options url_parse url_href url limitMs statementTimeoutMs keepConnection =
     (case assertBound ''limitMs'' limitMs of
        Inl e \<Rightarrow> Inl e
      | Inr _ \<Rightarrow>
          (case assertBound ''statementTimeoutMs'' statementTimeoutMs of
             Inl e \<Rightarrow> Inl e
           | Inr _ \<Rightarrow>
               (if \<not> num_less statementTimeoutMs limitMs
                then Inl (range_error (''statementTimeoutMs ('' @ show_num statementTimeoutMs @
                       '') must be below limitMs ('' @ show_num limitMs @ '')''))
                else (case withoutStatementTimeout url_parse url_href url of
                        Inl e \<Rightarrow> Inl e
                      | Inr target \<Rightarrow>
                          (let st = (case statementTimeoutMs of Fin r \<Rightarrow> r | _ \<Rightarrow> 0);
                               client = clientOptions (Some 1) (Some (st / 1000))
                           in Inr (target,
                                \<lparr>co_max = co_max client, co_connect_timeout = co_connect_timeout client,
                                 od_statement_timeout = st, od_fetch_types = False,
                                 od_max_lifetime = (if keepConnection then Some None else None)\<rparr>))))))"

section \<open>The handle\<close>

definition probe_limit_error :: "nat \<Rightarrow> thrown" where
  "probe_limit_error limitMs =
     JsError ProbeLimitErrorC ''ProbeLimitError'' (''probe query outlived its limit of '' @ show_nat limitMs @ '' ms'')
       (CodeString ''PROBE_LIMIT'') None None None None []"

definition probe_closed_error :: thrown where
  "probe_closed_error =
     JsError ProbeClosedErrorC ''ProbeClosedError'' ''probe database handle is closed''
       (CodeString ''PROBE_CLOSED'') None None None None []"

text \<open>How a call settled: with what its work answered or threw, or with a refusal.\<close>

datatype call_outcome = WorkAnswered | WorkThrew thrown | RefusedWith thrown

datatype probe_phase = ProbeOpen | ProbeClosing "thrown option option" | ProbeClosed "thrown option"

text \<open>
  Clients and calls are numbered in the order they are made.  \<open>pb_waiting\<close> holds the unsettled
  calls, each with the client its work is on, \<open>pb_timers\<close> those whose timer is armed;
  \<open>pb_destroying\<close> the destroyed clients whose end has not settled, \<open>pb_ended\<close> every client an end
  was begun of, \<open>pb_limits\<close> how often \<open>onLimit\<close> was told.
\<close>

record probe =
  pb_current :: nat
  pb_opened :: nat
  pb_phase :: probe_phase
  pb_destroying :: "nat list"
  pb_waiting :: "(nat \<times> nat) list"
  pb_timers :: "nat list"
  pb_settled :: "(nat \<times> call_outcome) list"
  pb_calls :: nat
  pb_ended :: "nat list"
  pb_limits :: nat

definition createProbeDb :: probe where
  "createProbeDb =
     \<lparr>pb_current = 0, pb_opened = 1, pb_phase = ProbeOpen, pb_destroying = [], pb_waiting = [], pb_timers = [],
      pb_settled = [], pb_calls = 0, pb_ended = [], pb_limits = 0\<rparr>"

definition probe_closed :: "probe \<Rightarrow> bool" where
  "probe_closed s = (pb_phase s \<noteq> ProbeOpen)"

text \<open>\<open>settle\<close>: the first outcome of a call counts; its timer is cleared.\<close>

definition settle_call :: "nat \<Rightarrow> call_outcome \<Rightarrow> probe \<Rightarrow> probe" where
  "settle_call c out s =
     (if List.member (map fst (pb_waiting s)) c
      then s\<lparr>pb_waiting := filter (\<lambda>(c', d). c' \<noteq> c) (pb_waiting s),
             pb_timers := filter (\<lambda>c'. c' \<noteq> c) (pb_timers s),
             pb_settled := pb_settled s @ [(c, out)]\<rparr>
      else s)"

definition refuse_calls :: "nat list \<Rightarrow> thrown \<Rightarrow> probe \<Rightarrow> probe" where
  "refuse_calls cs err s = foldl (\<lambda>s c. settle_call c (RefusedWith err) s) s cs"

definition destroy :: "nat \<Rightarrow> nat \<Rightarrow> probe \<Rightarrow> probe" where
  "destroy limitMs db s =
     (let s1 = refuse_calls (map fst (filter (\<lambda>(c, d). d = db) (pb_waiting s))) (probe_limit_error limitMs) s
      in if db \<noteq> pb_current s1 then s1
         else s1\<lparr>pb_current := pb_opened s1, pb_opened := Suc (pb_opened s1),
                 pb_destroying := pb_destroying s1 @ [db], pb_ended := pb_ended s1 @ [db],
                 pb_limits := Suc (pb_limits s1)\<rparr>)"

definition probe_run :: "probe \<Rightarrow> probe" where
  "probe_run s =
     (if probe_closed s
      then s\<lparr>pb_calls := Suc (pb_calls s), pb_settled := pb_settled s @ [(pb_calls s, RefusedWith probe_closed_error)]\<rparr>
      else s\<lparr>pb_calls := Suc (pb_calls s), pb_waiting := pb_waiting s @ [(pb_calls s, pb_current s)],
             pb_timers := pb_timers s @ [pb_calls s]\<rparr>)"

text \<open>The close answers once its own end and those of the destroyed clients have settled.\<close>

definition close_done :: "probe \<Rightarrow> probe" where
  "close_done s =
     (case pb_phase s of
        ProbeClosing (Some ended) \<Rightarrow>
          (if pb_destroying s = []
           then (refuse_calls (map fst (pb_waiting s)) probe_closed_error s)\<lparr>pb_phase := ProbeClosed ended\<rparr>
           else s)
      | _ \<Rightarrow> s)"

definition probe_close :: "probe \<Rightarrow> probe" where
  "probe_close s =
     (if probe_closed s then s
      else s\<lparr>pb_phase := ProbeClosing None, pb_timers := [], pb_ended := pb_ended s @ [pb_current s]\<rparr>)"

datatype probe_event =
    RunCall
  | WorkSettles nat "thrown option"
  | TimerFires nat
  | EndSettles nat
  | CloseCall
  | CurrentEnds "thrown option"

definition probe_step :: "nat \<Rightarrow> probe \<Rightarrow> probe_event \<Rightarrow> probe" where
  "probe_step limitMs s e =
     (case e of
        RunCall \<Rightarrow> probe_run s
      | WorkSettles c r \<Rightarrow> settle_call c (case r of None \<Rightarrow> WorkAnswered | Some err \<Rightarrow> WorkThrew err) s
      | TimerFires c \<Rightarrow>
          (if List.member (pb_timers s) c
           then (case map_of (pb_waiting s) c of Some db \<Rightarrow> destroy limitMs db s | None \<Rightarrow> s)
           else s)
      | EndSettles db \<Rightarrow> close_done (s\<lparr>pb_destroying := filter (\<lambda>d. d \<noteq> db) (pb_destroying s)\<rparr>)
      | CloseCall \<Rightarrow> probe_close s
      | CurrentEnds r \<Rightarrow>
          (if pb_phase s = ProbeClosing None then close_done (s\<lparr>pb_phase := ProbeClosing (Some r)\<rparr>) else s))"

section \<open>The handles of the api\<close>

text \<open>
  \<open>openProbeDbs\<close>: a budget handle that cannot be opened closes the health handle already open and
  fails the start; the line of a close that fails then comes later.
\<close>

datatype probe_handle = Health | Budget

fun probe_name :: "probe_handle \<Rightarrow> string" where
  "probe_name Health = ''health''"
| "probe_name Budget = ''budget''"

definition limit_line :: "probe_handle \<Rightarrow> jsnum \<Rightarrow> log_line" where
  "limit_line h limitMs =
     \<lparr>ll_level = Warn, ll_fields = [(''probe'', LVal (Str (probe_name h))), (''limitMs'', LVal (Num limitMs))],
      ll_message = ''database probe connection destroyed at its limit''\<rparr>"

definition openProbeDbs ::
  "(probe_handle \<Rightarrow> thrown + 'h) \<Rightarrow> ('h \<Rightarrow> thrown option) \<Rightarrow> (thrown + 'h \<times> 'h) \<times> log_line list" where
  "openProbeDbs open_handle close_handle =
     (case open_handle Health of
        Inl e \<Rightarrow> (Inl e, [])
      | Inr health \<Rightarrow>
          (case open_handle Budget of
             Inr budget \<Rightarrow> (Inr (health, budget), [])
           | Inl err \<Rightarrow>
               (Inl err,
                case close_handle health of
                  None \<Rightarrow> []
                | Some closeErr \<Rightarrow>
                    [\<lparr>ll_level = Warn, ll_fields = [(''probe'', LVal (Str ''health'')), (''err'', LErr closeErr)],
                      ll_message = ''database probe handle failed to close after the start failed''\<rparr>])))"

text \<open>The close of both: every outcome is waited for; the first failure is thrown, the others written.\<close>

fun closed_failures :: "thrown option \<Rightarrow> (probe_handle \<times> thrown option) list \<Rightarrow> thrown option \<times> log_line list" where
  "closed_failures first [] = (first, [])"
| "closed_failures first ((h, None) # rest) = closed_failures first rest"
| "closed_failures None ((h, Some e) # rest) = closed_failures (Some e) rest"
| "closed_failures (Some f) ((h, Some e) # rest) =
     (let (r, lines) = closed_failures (Some f) rest
      in (r, \<lparr>ll_level = Warn, ll_fields = [(''probe'', LVal (Str (probe_name h))), (''err'', LErr e)],
              ll_message = ''database probe handle failed to close''\<rparr> # lines))"

definition closeProbeDbs :: "(probe_handle \<Rightarrow> thrown option) \<Rightarrow> (thrown + unit) \<times> log_line list" where
  "closeProbeDbs outcome =
     (case closed_failures None (map (\<lambda>h. (h, outcome h)) [Health, Budget]) of
        (None, lines) \<Rightarrow> (Inr (), lines)
      | (Some e, lines) \<Rightarrow> (Inl e, lines))"

section \<open>What settles a call\<close>

lemma settle_call_upd [simp]:
  "pb_current (settle_call c out s) = pb_current s" "pb_opened (settle_call c out s) = pb_opened s"
  "pb_phase (settle_call c out s) = pb_phase s" "pb_destroying (settle_call c out s) = pb_destroying s"
  "pb_calls (settle_call c out s) = pb_calls s" "pb_ended (settle_call c out s) = pb_ended s"
  "pb_limits (settle_call c out s) = pb_limits s"
  by (simp_all add: settle_call_def)

lemma refuse_calls_fields:
  assumes "distinct cs" and "set cs \<subseteq> fst ` set (pb_waiting s)"
  shows "refuse_calls cs err s =
    s\<lparr>pb_waiting := filter (\<lambda>(c, d). c \<notin> set cs) (pb_waiting s),
      pb_timers := filter (\<lambda>c. c \<notin> set cs) (pb_timers s),
      pb_settled := pb_settled s @ map (\<lambda>c. (c, RefusedWith err)) cs\<rparr>"
  using assms
proof (induction cs arbitrary: s)
  case Nil
  have "filter (\<lambda>(c, d). True) (pb_waiting s) = pb_waiting s" by (rule filter_True) auto
  then show ?case by (simp add: refuse_calls_def)
next
  case (Cons c cs)
  let ?s1 = "settle_call c (RefusedWith err) s"
  have s1: "?s1 = s\<lparr>pb_waiting := filter (\<lambda>(c', d). c' \<noteq> c) (pb_waiting s),
      pb_timers := filter (\<lambda>c'. c' \<noteq> c) (pb_timers s), pb_settled := pb_settled s @ [(c, RefusedWith err)]\<rparr>"
    using Cons.prems(2) by (auto simp: settle_call_def)
  have "set cs \<subseteq> fst ` set (pb_waiting ?s1)" using Cons.prems unfolding s1 by (auto simp: image_iff) fastforce
  from Cons.IH [OF _ this] Cons.prems(1)
  have "refuse_calls cs err ?s1 = ?s1\<lparr>pb_waiting := filter (\<lambda>(c, d). c \<notin> set cs) (pb_waiting ?s1),
      pb_timers := filter (\<lambda>c. c \<notin> set cs) (pb_timers ?s1),
      pb_settled := pb_settled ?s1 @ map (\<lambda>c. (c, RefusedWith err)) cs\<rparr>" by simp
  moreover have "refuse_calls (c # cs) err s = refuse_calls cs err ?s1" by (simp add: refuse_calls_def)
  moreover have "filter (\<lambda>(c, d). c \<notin> set cs) (filter (\<lambda>(c', d). c' \<noteq> c) (pb_waiting s)) =
      filter (\<lambda>(c', d). c' \<notin> set (c # cs)) (pb_waiting s)"
    by (auto simp: filter_filter intro!: filter_cong)
  moreover have "filter (\<lambda>c. c \<notin> set cs) (filter (\<lambda>c'. c' \<noteq> c) (pb_timers s)) =
      filter (\<lambda>c'. c' \<notin> set (c # cs)) (pb_timers s)"
    by (auto simp: filter_filter intro!: filter_cong)
  ultimately show ?case by (simp add: s1)
qed

section \<open>The invariant\<close>

definition probe_inv :: "probe \<Rightarrow> bool" where
  "probe_inv s \<longleftrightarrow>
     distinct (map fst (pb_waiting s) @ map fst (pb_settled s)) \<and>
     fst ` set (pb_waiting s) \<union> fst ` set (pb_settled s) = {..<pb_calls s} \<and>
     (\<forall>(c, d) \<in> set (pb_waiting s). d = pb_current s) \<and>
     set (pb_timers s) = (if probe_closed s then {} else fst ` set (pb_waiting s)) \<and>
     pb_opened s = Suc (pb_current s) \<and> pb_limits s = pb_current s \<and>
     pb_ended s = [0..<if probe_closed s then Suc (pb_current s) else pb_current s] \<and>
     (case pb_phase s of ProbeClosed _ \<Rightarrow> pb_waiting s = [] | _ \<Rightarrow> True)"

lemma map_fst_keep: "map fst (filter (\<lambda>(c', d). c' \<noteq> c) ws) = filter (\<lambda>c'. c' \<noteq> c) (map fst ws)"
  by (induction ws) auto

lemma settle_call_inv:
  assumes "probe_inv s"
  shows "probe_inv (settle_call c out s)"
proof (cases "c \<in> fst ` set (pb_waiting s)")
  case False
  then have "settle_call c out s = s" by (auto simp: settle_call_def)
  with assms show ?thesis by simp
next
  case True
  let ?s = "settle_call c out s"
  have s: "pb_waiting ?s = filter (\<lambda>(c', d). c' \<noteq> c) (pb_waiting s)"
    "pb_timers ?s = filter (\<lambda>c'. c' \<noteq> c) (pb_timers s)" "pb_settled ?s = pb_settled s @ [(c, out)]"
    using True by (auto simp: settle_call_def)
  have fsts: "fst ` set (pb_waiting ?s) = fst ` set (pb_waiting s) - {c}" unfolding s by force
  have m: "map fst (pb_waiting ?s) = filter (\<lambda>c'. c' \<noteq> c) (map fst (pb_waiting s))"
    unfolding s by (rule map_fst_keep)
  have "distinct (map fst (pb_waiting ?s) @ map fst (pb_settled ?s))"
    using assms True unfolding m s(3) map_append distinct_append by (auto simp: probe_inv_def)
  moreover have "fst ` set (pb_waiting ?s) \<union> fst ` set (pb_settled ?s) = {..<pb_calls s}"
    using assms True unfolding fsts s(3) by (auto simp: probe_inv_def)
  moreover have "set (pb_timers ?s) = (if probe_closed s then {} else fst ` set (pb_waiting ?s))"
    using assms unfolding fsts s(2) by (auto simp: probe_inv_def)
  moreover have "probe_closed ?s = probe_closed s" by (simp add: probe_closed_def)
  moreover have "\<forall>(c, d) \<in> set (pb_waiting ?s). d = pb_current s" using assms unfolding s by (auto simp: probe_inv_def)
  moreover have "case pb_phase s of ProbeClosed _ \<Rightarrow> pb_waiting ?s = [] | _ \<Rightarrow> True"
    using assms unfolding s by (auto simp: probe_inv_def split: probe_phase.splits)
  ultimately show ?thesis using assms by (simp add: probe_inv_def)
qed

lemma refuse_calls_inv: "probe_inv s \<Longrightarrow> probe_inv (refuse_calls cs err s)"
  unfolding refuse_calls_def by (induction cs arbitrary: s) (simp_all add: settle_call_inv)

text \<open>On an open handle every pending call is on the current client.\<close>

lemma destroy_fields:
  assumes inv: "probe_inv s" and c: "map_of (pb_waiting s) c = Some db"
  shows "db = pb_current s \<and>
    destroy limitMs db s = s\<lparr>pb_waiting := [], pb_timers := [],
      pb_settled := pb_settled s @ map (\<lambda>(c, d). (c, RefusedWith (probe_limit_error limitMs))) (pb_waiting s),
      pb_current := Suc (pb_current s), pb_opened := Suc (Suc (pb_current s)),
      pb_destroying := pb_destroying s @ [pb_current s], pb_ended := pb_ended s @ [pb_current s],
      pb_limits := Suc (pb_limits s)\<rparr>"
proof
  show db: "db = pb_current s" using inv map_of_SomeD [OF c] by (auto simp: probe_inv_def)
  have all: "filter (\<lambda>(c, d). d = db) (pb_waiting s) = pb_waiting s"
    using inv db by (intro filter_True) (auto simp: probe_inv_def)
  have "distinct (map fst (pb_waiting s))" using inv by (simp add: probe_inv_def)
  moreover have "filter (\<lambda>(c, d). c \<notin> set (map fst (pb_waiting s))) (pb_waiting s) = []"
    by (rule filter_False) force
  moreover have "filter (\<lambda>c. c \<notin> set (map fst (pb_waiting s))) (pb_timers s) = []"
    using inv by (intro filter_False) (auto simp: probe_inv_def split: if_splits)
  ultimately have "refuse_calls (map fst (pb_waiting s)) err s =
      s\<lparr>pb_waiting := [], pb_timers := [], pb_settled := pb_settled s @ map (\<lambda>c. (c, RefusedWith err)) (map fst (pb_waiting s))\<rparr>" for err
    by (subst refuse_calls_fields) auto
  then show "destroy limitMs db s = s\<lparr>pb_waiting := [], pb_timers := [],
      pb_settled := pb_settled s @ map (\<lambda>(c, d). (c, RefusedWith (probe_limit_error limitMs))) (pb_waiting s),
      pb_current := Suc (pb_current s), pb_opened := Suc (Suc (pb_current s)),
      pb_destroying := pb_destroying s @ [pb_current s], pb_ended := pb_ended s @ [pb_current s],
      pb_limits := Suc (pb_limits s)\<rparr>"
    using inv by (simp add: destroy_def all Let_def db probe_inv_def case_prod_beta comp_def)
qed

lemma refused_fsts:
  "fst ` (\<lambda>(c, d). (c, out)) ` X = fst ` X"
  "map (fst \<circ> (\<lambda>(c, d). (c, out))) ws = map fst ws"
  for out :: call_outcome
  by (force, simp add: comp_def case_prod_beta)

lemma destroy_inv:
  assumes inv: "probe_inv s" and op: "\<not> probe_closed s" and c: "map_of (pb_waiting s) c = Some db"
  shows "probe_inv (destroy limitMs db s)"
proof -
  from op have ph: "pb_phase s = ProbeOpen" by (simp add: probe_closed_def)
  from inv have "distinct (map fst (pb_settled s) @ map fst (pb_waiting s))"
    by (auto simp: probe_inv_def)
  moreover from inv have "fst ` set (pb_settled s) \<union> fst ` set (pb_waiting s) = {..<pb_calls s}"
    unfolding probe_inv_def by blast
  ultimately show ?thesis
    using inv unfolding conjunct2 [OF destroy_fields [OF inv c, of limitMs]]
    by (simp add: probe_inv_def probe_closed_def ph refused_fsts image_Un)
qed

lemma close_done_inv: "probe_inv s \<Longrightarrow> probe_inv (close_done s)"
proof (cases "\<exists>ended. pb_phase s = ProbeClosing (Some ended) \<and> pb_destroying s = []")
  case True
  then obtain ended where p: "pb_phase s = ProbeClosing (Some ended)" "pb_destroying s = []" by blast
  assume inv: "probe_inv s"
  let ?s1 = "refuse_calls (map fst (pb_waiting s)) probe_closed_error s"
  have "distinct (map fst (pb_waiting s))" using inv by (simp add: probe_inv_def)
  then have "pb_waiting ?s1 = filter (\<lambda>(c, d). c \<notin> set (map fst (pb_waiting s))) (pb_waiting s)"
    and ph: "pb_phase ?s1 = ProbeClosing (Some ended)"
    using p by (simp_all add: refuse_calls_fields)
  moreover have "filter (\<lambda>(c, d). c \<notin> set (map fst (pb_waiting s))) (pb_waiting s) = []"
    by (rule filter_False) force
  ultimately have "pb_waiting ?s1 = []" by simp
  moreover have "probe_inv ?s1" using inv by (rule refuse_calls_inv)
  ultimately have "probe_inv (?s1\<lparr>pb_phase := ProbeClosed ended\<rparr>)"
    using ph by (simp add: probe_inv_def probe_closed_def)
  then show ?thesis using p by (simp add: close_done_def)
next
  case False
  assume "probe_inv s"
  with False show ?thesis by (auto simp: close_done_def split: probe_phase.splits option.splits)
qed

interpretation probe_machine: event_machine "probe_step limitMs" probe_inv for limitMs
proof unfold_locales
  show "probe_inv (probe_step limitMs s e)" if inv: "probe_inv s" for s e
  proof (cases e)
    case RunCall
    with inv show ?thesis
      by (auto simp: probe_step_def probe_run_def probe_inv_def probe_closed_def lessThan_Suc split: probe_phase.splits)
  next
    case (WorkSettles c r)
    with inv show ?thesis by (simp add: probe_step_def settle_call_inv)
  next
    case (TimerFires c)
    show ?thesis
    proof (cases "c \<in> set (pb_timers s)")
      case True
      with inv have open_: "\<not> probe_closed s" by (auto simp: probe_inv_def)
      with TimerFires True inv show ?thesis
        by (auto simp: probe_step_def intro: destroy_inv split: option.splits)
    qed (use TimerFires inv in \<open>simp add: probe_step_def\<close>)
  next
    case (EndSettles db)
    have "probe_inv (s\<lparr>pb_destroying := filter (\<lambda>d. d \<noteq> db) (pb_destroying s)\<rparr>)"
      using inv unfolding probe_inv_def probe_closed_def by (cases "pb_phase s") (simp_all, auto)
    with EndSettles show ?thesis by (simp add: probe_step_def close_done_inv)
  next
    case CloseCall
    with inv show ?thesis by (auto simp: probe_step_def probe_close_def probe_inv_def probe_closed_def)
  next
    case (CurrentEnds r)
    have "probe_inv (s\<lparr>pb_phase := ProbeClosing (Some r)\<rparr>)" if "pb_phase s = ProbeClosing None"
      using inv that by (simp add: probe_inv_def probe_closed_def)
    with CurrentEnds inv show ?thesis by (simp add: probe_step_def close_done_inv)
  qed
qed

section \<open>Properties\<close>

text \<open>
  C9: no call of a probe hangs and none is answered twice: over any run of a handle, the calls
  that have settled have one outcome each and every other one is pending; while the handle is open
  the timer of every pending call is armed and, firing, refuses it and all that wait with it,
  leaving a client no end was begun of; and once a close is done every call has settled and every
  client that was ever opened has been ended, each once.
\<close>

theorem probe_calls_all_end:
  "let s = foldl (probe_step limitMs) createProbeDb es in
     distinct (map fst (pb_settled s)) \<and>
     fst ` set (pb_settled s) = {..<pb_calls s} - fst ` set (pb_waiting s) \<and>
     (pb_phase s = ProbeOpen \<longrightarrow> c \<in> fst ` set (pb_waiting s) \<longrightarrow>
        (let s' = probe_step limitMs s (TimerFires c) in
           pb_waiting s' = [] \<and> (c, RefusedWith (probe_limit_error limitMs)) \<in> set (pb_settled s') \<and>
           pb_current s' \<notin> set (pb_ended s') \<and> pb_limits s' = Suc (pb_limits s))) \<and>
     (case pb_phase s of
        ProbeClosed _ \<Rightarrow> fst ` set (pb_settled s) = {..<pb_calls s} \<and> pb_ended s = [0..<pb_opened s]
      | _ \<Rightarrow> True)"
proof -
  define s where "s = foldl (probe_step limitMs) createProbeDb es"
  have inv: "probe_inv s"
    unfolding s_def by (rule probe_machine.run_inv) (simp add: probe_inv_def createProbeDb_def probe_closed_def)
  have "distinct (map fst (pb_settled s))" using inv by (simp add: probe_inv_def)
  moreover have set: "fst ` set (pb_settled s) = {..<pb_calls s} - fst ` set (pb_waiting s)"
    using inv by (auto simp: probe_inv_def)
  moreover have "let s' = probe_step limitMs s (TimerFires c) in
           pb_waiting s' = [] \<and> (c, RefusedWith (probe_limit_error limitMs)) \<in> set (pb_settled s') \<and>
           pb_current s' \<notin> set (pb_ended s') \<and> pb_limits s' = Suc (pb_limits s)"
    if "pb_phase s = ProbeOpen" "c \<in> fst ` set (pb_waiting s)"
  proof -
    from that inv have timer: "c \<in> set (pb_timers s)" by (simp add: probe_inv_def probe_closed_def)
    from that(2) obtain db where db: "map_of (pb_waiting s) c = Some db" by (metis map_of_eq_None_iff not_Some_eq)
    have "(c, RefusedWith err) \<in> (\<lambda>(c, d). (c, RefusedWith err)) ` set (pb_waiting s)" for err
      using map_of_SomeD [OF db] by force
    moreover have "probe_step limitMs s (TimerFires c) = destroy limitMs db s" using timer db by (simp add: probe_step_def)
    ultimately show ?thesis
      using inv unfolding conjunct2 [OF destroy_fields [OF inv db, of limitMs]]
      by (simp add: Let_def probe_inv_def)
  qed
  moreover have "case pb_phase s of
        ProbeClosed _ \<Rightarrow> fst ` set (pb_settled s) = {..<pb_calls s} \<and> pb_ended s = [0..<pb_opened s]
      | _ \<Rightarrow> True"
    using inv set by (auto simp: probe_inv_def probe_closed_def split: probe_phase.splits)
  ultimately show ?thesis unfolding s_def [symmetric] Let_def by simp
qed

theorem probe_calls_all_end_witness:
  "let s = foldl (probe_step 4000) createProbeDb [RunCall, RunCall] in
     (0, RefusedWith (probe_limit_error 4000)) \<in> set (pb_settled (probe_step 4000 s (TimerFires 0)))"
  using probe_calls_all_end [of 4000 "[RunCall, RunCall]" 0]
  by (simp add: probe_step_def probe_run_def createProbeDb_def probe_closed_def Let_def)

end
