(* ===== verification/Api_Errors.thy ===== *)
theory Api_Errors
  imports Contracts Js_Text
begin

text \<open>
  What a failed request is answered with (\<open>apps/api/src/lib/error-text.ts\<close>, \<open>error-response.ts\<close>,
  \<open>error-mapping.ts\<close>, \<open>mapped-error.ts\<close>, \<open>socket-errors.ts\<close>): the text that may leave, the details
  that may leave, and the mapping of whatever was thrown to a status, a code and a message.

  A character stands for a code point below 256; the two Unicode classes the code asks for are
  written out in that range.
\<close>

section \<open>Text (\<open>error-text.ts\<close>)\<close>

definition MAX_MESSAGE_LENGTH :: nat where
  "MAX_MESSAGE_LENGTH = 200"

definition MAX_CODE_LENGTH :: nat where
  "MAX_CODE_LENGTH = 64"

text \<open>\<open>[\p{C}\p{Z}]\<close>: the controls, the soft hyphen, the space and the no-break space.\<close>

definition UNPRINTABLE :: "char \<Rightarrow> bool" where
  "UNPRINTABLE c = (let n = (of_char c :: nat) in n \<le> 32 \<or> (127 \<le> n \<and> n \<le> 160) \<or> n = 173)"

definition PLAIN_SPACE :: char where
  "PLAIN_SPACE = CHR '' ''"

definition isPrintable :: "char \<Rightarrow> bool" where
  "isPrintable c = (c = PLAIN_SPACE \<or> \<not> UNPRINTABLE c)"

text \<open>\<open>s.replace(/\s+/g, " ")\<close>; the flag says that a run of spaces is being left out.\<close>

fun collapse_spaces :: "bool \<Rightarrow> string \<Rightarrow> string" where
  "collapse_spaces inRun [] = []"
| "collapse_spaces inRun (c # cs) =
     (if is_space c then (if inRun then collapse_spaces True cs else PLAIN_SPACE # collapse_spaces True cs)
      else c # collapse_spaces False cs)"

definition printableLine :: "string \<Rightarrow> string" where
  "printableLine t =
     (let printable = map (\<lambda>c. if isPrintable c then c else PLAIN_SPACE) t
      in trim (collapse_spaces False printable))"

definition safeMessage :: "json \<Rightarrow> string \<Rightarrow> string" where
  "safeMessage message fallback =
     (case message of
        Str m \<Rightarrow>
          (let collapsed = printableLine m
           in if length collapsed = 0 then fallback
              else if length collapsed > MAX_MESSAGE_LENGTH then take MAX_MESSAGE_LENGTH collapsed @ ''...''
              else collapsed)
      | _ \<Rightarrow> fallback)"

definition is_upper :: "char \<Rightarrow> bool" where
  "is_upper c = (let n = (of_char c :: nat) in 65 \<le> n \<and> n \<le> 90)"

definition CODE_SHAPE :: "string \<Rightarrow> bool" where
  "CODE_SHAPE s =
     (case s of [] \<Rightarrow> False | c # cs \<Rightarrow> is_upper c \<and> list_all (\<lambda>d. is_upper d \<or> is_digit d \<or> d = CHR ''_'') cs)"

definition safeCode :: "code_field \<Rightarrow> string \<Rightarrow> string" where
  "safeCode code fallback =
     (case code of
        CodeString c \<Rightarrow> (if length c > MAX_CODE_LENGTH \<or> \<not> CODE_SHAPE c then fallback else c)
      | _ \<Rightarrow> fallback)"

section \<open>Bodies and details (\<open>mapped-error.ts\<close>, \<open>error-response.ts\<close>)\<close>

definition CLIENT_ERROR_STATUS :: nat where
  "CLIENT_ERROR_STATUS = 400"

definition SERVER_ERROR_STATUS :: nat where
  "SERVER_ERROR_STATUS = 500"

record mapped_error =
  me_status :: nat
  me_code :: string
  me_message :: string
  me_details :: details

definition errorBodyOf :: "mapped_error \<Rightarrow> string \<Rightarrow> json" where
  "errorBodyOf mapped requestId =
     (case me_details mapped of
        None \<Rightarrow> Obj [(''error'', Obj
          [(''code'', Str (me_code mapped)), (''message'', Str (me_message mapped)), (''requestId'', Str requestId)])]
      | Some details \<Rightarrow> Obj [(''error'', Obj
          [(''code'', Str (me_code mapped)), (''message'', Str (me_message mapped)), (''requestId'', Str requestId),
           (''details'', details)])])"

definition IssueListSchema :: zod where
  "IssueListSchema = ZArray (ZObject False
     [(''path'', ZArray (ZUnion [ZString 0, ZNumber []])), (''message'', ZString 0)])"

definition path_segment :: "json \<Rightarrow> string" where
  "path_segment v = (case v of Str s \<Rightarrow> s | Num x \<Rightarrow> show_num x | _ \<Rightarrow> [])"

definition detail_item :: "json \<Rightarrow> json" where
  "detail_item issue = Obj
     [(''path'', Str (join CHR ''.'' (case jget issue ''path'' of Some (Arr ps) \<Rightarrow> map path_segment ps | _ \<Rightarrow> []))),
      (''message'', case jget issue ''message'' of Some m \<Rightarrow> m | None \<Rightarrow> Null)]"

text \<open>\<open>undefined\<close> is \<open>None\<close>, as an argument and as an answer.\<close>

definition toDetailItems :: "zod_parse \<Rightarrow> details \<Rightarrow> details" where
  "toDetailItems parse issues =
     (case issues of
        None \<Rightarrow> None
      | Some v \<Rightarrow>
          (case parse IssueListSchema v of
             Inl _ \<Rightarrow> None
           | Inr (Arr []) \<Rightarrow> None
           | Inr (Arr items) \<Rightarrow> Some (Arr (map detail_item items))
           | Inr _ \<Rightarrow> None))"

text \<open>The details of a \<open>BudgetExceededError\<close> are set by its constructor.\<close>

definition publicDetails :: "zod_parse \<Rightarrow> thrown \<Rightarrow> details" where
  "publicDetails parse err =
     (if instance_of err BudgetExceededErrorC
      then Some (Obj (List.map_filter
             (\<lambda>k. map_option (Pair k) (Option.bind (err_details err) (\<lambda>d. jget d k)))
             [''provider'', ''spent'', ''cap'']))
      else if instance_of err ValidationErrorC then toDetailItems parse (err_details err)
      else None)"

section \<open>The mapping (\<open>error-mapping.ts\<close>)\<close>

text \<open>The reason phrases of \<open>node:http\<close> from 400 on; the code reads no other.\<close>

definition STATUS_CODES :: "(nat \<times> string) list" where
  "STATUS_CODES =
     [(400, ''Bad Request''), (401, ''Unauthorized''), (402, ''Payment Required''), (403, ''Forbidden''),
      (404, ''Not Found''), (405, ''Method Not Allowed''), (406, ''Not Acceptable''),
      (407, ''Proxy Authentication Required''), (408, ''Request Timeout''), (409, ''Conflict''),
      (410, ''Gone''), (411, ''Length Required''), (412, ''Precondition Failed''),
      (413, ''Payload Too Large''), (414, ''URI Too Long''), (415, ''Unsupported Media Type''),
      (416, ''Range Not Satisfiable''), (417, ''Expectation Failed''), (418, ''I'' @ CHR 39 # ''m a Teapot''),
      (421, ''Misdirected Request''), (422, ''Unprocessable Entity''), (423, ''Locked''),
      (424, ''Failed Dependency''), (425, ''Too Early''), (426, ''Upgrade Required''),
      (428, ''Precondition Required''), (429, ''Too Many Requests''),
      (431, ''Request Header Fields Too Large''), (451, ''Unavailable For Legal Reasons''),
      (500, ''Internal Server Error''), (501, ''Not Implemented''), (502, ''Bad Gateway''),
      (503, ''Service Unavailable''), (504, ''Gateway Timeout''), (505, ''HTTP Version Not Supported''),
      (506, ''Variant Also Negotiates''), (507, ''Insufficient Storage''), (508, ''Loop Detected''),
      (509, ''Bandwidth Limit Exceeded''), (510, ''Not Extended''),
      (511, ''Network Authentication Required'')]"

definition MAX_ERROR_STATUS :: nat where
  "MAX_ERROR_STATUS = 599"

definition CLIENT_ERROR_MESSAGE :: string where
  "CLIENT_ERROR_MESSAGE = ''Request failed''"

definition INTERNAL_ERROR_MESSAGE :: string where
  "INTERNAL_ERROR_MESSAGE =
     (case map_of STATUS_CODES SERVER_ERROR_STATUS of Some m \<Rightarrow> m | None \<Rightarrow> INTERNAL_ERROR_CODE)"

definition service_closing_error :: thrown where
  "service_closing_error =
     JsError (OtherErrorC ''ServiceClosingError'') ''ServiceClosingError'' ''Service Unavailable''
       NoCode (Some (Num (Fin 503))) None None None []"

definition statusMessage :: "nat \<Rightarrow> string" where
  "statusMessage status =
     (case map_of STATUS_CODES status of
        Some m \<Rightarrow> m
      | None \<Rightarrow> (if status \<ge> SERVER_ERROR_STATUS then INTERNAL_ERROR_MESSAGE else CLIENT_ERROR_MESSAGE))"

text \<open>The status as a number that may be sent, or \<open>None\<close>.\<close>

definition isErrorStatus :: "json option \<Rightarrow> nat option" where
  "isErrorStatus status =
     (case status of
        Some (Num (Fin r)) \<Rightarrow>
          (if is_int_rat r \<and> of_nat CLIENT_ERROR_STATUS \<le> r \<and> r \<le> of_nat MAX_ERROR_STATUS
           then Some (nat \<lfloor>r\<rfloor>) else None)
      | _ \<Rightarrow> None)"

definition isClientStatus :: "json option \<Rightarrow> nat option" where
  "isClientStatus status =
     (case isErrorStatus status of
        Some n \<Rightarrow> (if n < SERVER_ERROR_STATUS then Some n else None)
      | None \<Rightarrow> None)"

definition client_code :: "nat \<Rightarrow> string" where
  "client_code status = (case map_of CLIENT_ERROR_CODES status of Some c \<Rightarrow> c | None \<Rightarrow> CLIENT_ERROR_CODE)"

definition clientError :: "nat \<Rightarrow> mapped_error" where
  "clientError status =
     \<lparr>me_status = status, me_code = client_code status, me_message = statusMessage status, me_details = None\<rparr>"

definition serverError :: "nat \<Rightarrow> mapped_error" where
  "serverError status =
     \<lparr>me_status = status, me_code = INTERNAL_ERROR_CODE, me_message = statusMessage status, me_details = None\<rparr>"

definition internalError :: mapped_error where
  "internalError = serverError SERVER_ERROR_STATUS"

definition codeFallback :: "nat \<Rightarrow> string" where
  "codeFallback status = (if status < SERVER_ERROR_STATUS then client_code status else INTERNAL_ERROR_CODE)"

text \<open>\<open>typeof err === "object" && err !== null\<close>, and the \<open>statusCode\<close> read off it.\<close>

definition is_object :: "thrown \<Rightarrow> bool" where
  "is_object err = (case err of JsError _ _ _ _ _ _ _ _ _ \<Rightarrow> True | NonError _ _ ob \<Rightarrow> ob \<noteq> None)"

definition readStatusCode :: "thrown \<Rightarrow> json option" where
  "readStatusCode err =
     (case err of
        JsError _ _ _ _ st _ _ _ _ \<Rightarrow> st
      | NonError _ _ ob \<Rightarrow> (case ob of Some st \<Rightarrow> st | None \<Rightarrow> None))"

text \<open>
  The two guards of the zod type provider are parameters: the issues a validation error of it
  carries, and whether a value is its serialization error.
\<close>

definition mapError ::
  "zod_parse \<Rightarrow> (thrown \<Rightarrow> json list option) \<Rightarrow> (thrown \<Rightarrow> bool) \<Rightarrow> thrown \<Rightarrow> mapped_error" where
  "mapError parse validationIssues isSerializationError err =
     (if \<not> is_object err then internalError
      else case validationIssues err of
        Some issues \<Rightarrow>
          \<lparr>me_status = CLIENT_ERROR_STATUS, me_code = VALIDATION_ERROR_CODE,
           me_message = ''Request validation failed'', me_details = toDetailItems parse (Some (Arr issues))\<rparr>
      | None \<Rightarrow>
          (if isSerializationError err then internalError
           else if instance_of err AppErrorC then
             (case isErrorStatus (err_status err) of
                None \<Rightarrow> internalError
              | Some status \<Rightarrow>
                  (if isClientStatus (err_status err) = None then
                     \<lparr>me_status = status, me_code = safeCode (err_code err) (codeFallback status),
                      me_message = statusMessage status, me_details = None\<rparr>
                   else
                     \<lparr>me_status = status, me_code = safeCode (err_code err) (codeFallback status),
                      me_message = safeMessage (Str (err_message err)) (statusMessage status),
                      me_details = publicDetails parse err\<rparr>))
           else
             (case isClientStatus (readStatusCode err) of
                Some status \<Rightarrow> clientError status
              | None \<Rightarrow>
                  (case isErrorStatus (readStatusCode err) of
                     Some status \<Rightarrow> serverError status
                   | None \<Rightarrow> internalError))))"

definition mapFrameworkError :: "json option \<Rightarrow> mapped_error" where
  "mapFrameworkError statusCode =
     (case isClientStatus statusCode of None \<Rightarrow> internalError | Some status \<Rightarrow> clientError status)"

section \<open>Requests refused on the socket (\<open>socket-errors.ts\<close>)\<close>

definition SOCKET_ERROR_STATUSES :: "(string \<times> nat) list" where
  "SOCKET_ERROR_STATUSES = [(''ERR_HTTP_REQUEST_TIMEOUT'', 408), (''HPE_HEADER_OVERFLOW'', 431)]"

definition mapSocketError :: "code_field \<Rightarrow> mapped_error" where
  "mapSocketError nodeCode =
     clientError
       (case (case nodeCode of CodeString c \<Rightarrow> map_of SOCKET_ERROR_STATUSES c | _ \<Rightarrow> None) of
          Some s \<Rightarrow> s
        | None \<Rightarrow> CLIENT_ERROR_STATUS)"

section \<open>What may leave\<close>

definition code_ok :: "string \<Rightarrow> bool" where
  "code_ok c \<longleftrightarrow> CODE_SHAPE c \<and> length c \<le> MAX_CODE_LENGTH"

definition line_ok :: "string \<Rightarrow> bool" where
  "line_ok m \<longleftrightarrow> m \<noteq> [] \<and> list_all isPrintable m \<and> length m \<le> MAX_MESSAGE_LENGTH + 3"

lemma status_phrases_ok: "list_all (\<lambda>(s, m). line_ok m) STATUS_CODES"
  by code_simp

lemma client_codes_ok: "list_all (\<lambda>(s, c). code_ok c) CLIENT_ERROR_CODES"
  by code_simp

lemma fixed_texts_ok:
  "code_ok INTERNAL_ERROR_CODE" "code_ok CLIENT_ERROR_CODE" "code_ok VALIDATION_ERROR_CODE"
  "line_ok CLIENT_ERROR_MESSAGE" "line_ok INTERNAL_ERROR_MESSAGE" "line_ok ''Request validation failed''"
  by code_simp+

lemma statusMessage_ok [simp]: "line_ok (statusMessage s)"
  using status_phrases_ok fixed_texts_ok
  by (auto simp: statusMessage_def list_all_iff split: option.splits dest!: map_of_SomeD)

lemma client_code_ok [simp]: "code_ok (client_code s)"
  using client_codes_ok fixed_texts_ok
  by (auto simp: client_code_def list_all_iff split: option.splits dest!: map_of_SomeD)

lemma codeFallback_ok [simp]: "code_ok (codeFallback s)"
  by (simp add: codeFallback_def fixed_texts_ok)

lemma safeCode_ok: "code_ok fb \<Longrightarrow> code_ok (safeCode c fb)"
  by (auto simp: safeCode_def code_ok_def split: code_field.splits)

lemma set_collapse_spaces: "set (collapse_spaces b s) \<subseteq> set s \<union> {PLAIN_SPACE}"
  by (induction b s rule: collapse_spaces.induct) auto

lemma set_trim: "set (trim s) \<subseteq> set s"
proof -
  have "set (trim s) \<subseteq> set (dropWhile is_space s)"
    unfolding trim_def set_rev using set_dropWhileD by fastforce
  also have "\<dots> \<subseteq> set s" using set_dropWhileD by fastforce
  finally show ?thesis .
qed

lemma printableLine_printable: "list_all isPrintable (printableLine s)"
proof -
  have "set (printableLine s) \<subseteq> (\<lambda>c. if isPrintable c then c else PLAIN_SPACE) ` set s \<union> {PLAIN_SPACE}"
    using set_trim set_collapse_spaces unfolding printableLine_def Let_def by fastforce
  then show ?thesis by (force simp: list_all_iff isPrintable_def)
qed

lemma safeMessage_ok:
  assumes "line_ok fb"
  shows "line_ok (safeMessage m fb)"
proof -
  have "list_all isPrintable (take n (printableLine s))" for n s
    using printableLine_printable [of s] by (auto simp: list_all_iff dest: in_set_takeD)
  moreover have "isPrintable CHR ''.''" by code_simp
  ultimately show ?thesis
    using assms printableLine_printable
    by (auto simp: safeMessage_def line_ok_def Let_def MAX_MESSAGE_LENGTH_def split: json.splits)
qed

lemma isErrorStatus_range: "isErrorStatus st = Some n \<Longrightarrow> 400 \<le> n \<and> n \<le> 599"
  by (auto simp: isErrorStatus_def CLIENT_ERROR_STATUS_def MAX_ERROR_STATUS_def le_nat_iff nat_le_iff
      split: option.splits json.splits jsnum.splits if_splits)

lemma isClientStatus_range: "isClientStatus st = Some n \<Longrightarrow> isErrorStatus st = Some n \<and> 400 \<le> n \<and> n < 500"
  using isErrorStatus_range by (auto simp: isClientStatus_def SERVER_ERROR_STATUS_def split: option.splits if_splits)

definition mapped_ok :: "mapped_error \<Rightarrow> bool" where
  "mapped_ok m \<longleftrightarrow> 400 \<le> me_status m \<and> me_status m \<le> 599 \<and> code_ok (me_code m) \<and> line_ok (me_message m)"

lemma clientError_ok: "400 \<le> s \<Longrightarrow> s \<le> 599 \<Longrightarrow> mapped_ok (clientError s)"
  by (simp add: mapped_ok_def clientError_def)

lemma serverError_ok: "400 \<le> s \<Longrightarrow> s \<le> 599 \<Longrightarrow> mapped_ok (serverError s)"
  by (simp add: mapped_ok_def serverError_def fixed_texts_ok)

lemma internalError_ok: "mapped_ok internalError"
  by (simp add: internalError_def serverError_ok SERVER_ERROR_STATUS_def)

lemma mapError_ok: "mapped_ok (mapError parse vi ser err)"
proof -
  have "mapped_ok \<lparr>me_status = CLIENT_ERROR_STATUS, me_code = VALIDATION_ERROR_CODE,
      me_message = ''Request validation failed'', me_details = d\<rparr>" for d
    by (simp add: mapped_ok_def CLIENT_ERROR_STATUS_def fixed_texts_ok)
  moreover have "mapped_ok \<lparr>me_status = s, me_code = safeCode c (codeFallback s), me_message = statusMessage s, me_details = d\<rparr>"
      "mapped_ok \<lparr>me_status = s, me_code = safeCode c (codeFallback s), me_message = safeMessage m (statusMessage s), me_details = d\<rparr>"
    if "isErrorStatus st = Some s" for st s c m d
    using isErrorStatus_range [OF that] by (simp_all add: mapped_ok_def safeCode_ok safeMessage_ok)
  moreover have "mapped_ok (clientError s)" if "isClientStatus st = Some s" for st s
    using isClientStatus_range [OF that] by (simp add: clientError_ok)
  moreover have "mapped_ok (serverError s)" if "isErrorStatus st = Some s" for st s
    using isErrorStatus_range [OF that] by (simp add: serverError_ok)
  ultimately show ?thesis
    unfolding mapError_def using internalError_ok by (simp split: option.splits)
qed

lemma errorBodyOf_accepted: "rid \<noteq> [] \<Longrightarrow> accepts ErrorBodySchema (errorBodyOf m rid)"
  by (cases rid) (auto simp: ErrorBodySchema_def errorBodyOf_def split: option.splits)

section \<open>Properties\<close>




end
