(* ===== verification/Request_Log.thy ===== *)
theory Request_Log
  imports Api_Errors
begin

text \<open>
  What is written about a request (\<open>apps/api/src/lib/request-log.ts\<close>): the error as the log may
  write it, and the log of one request as a machine over what the server tells of it - the
  failures its handlers map, the failures of the response itself, and its end.
\<close>

section \<open>The error as it may be written\<close>

definition OMITTED_DETAILS :: string where
  "OMITTED_DETAILS = ''[omitted]''"

definition MAX_LOGGED_CODE_LENGTH :: nat where
  "MAX_LOGGED_CODE_LENGTH = 256"

definition codeText :: "json \<Rightarrow> string" where
  "codeText code =
     (case code of
        Str s \<Rightarrow> s
      | Num x \<Rightarrow> show_num x
      | Bool b \<Rightarrow> (if b then ''true'' else ''false'')
      | _ \<Rightarrow> ''[object]'')"

text \<open>\<open>None\<close> for a code that is absent or makes no line.\<close>

definition loggableCode :: "code_field \<Rightarrow> string option" where
  "loggableCode code =
     (let bounded = (\<lambda>v. let l = printableLine (codeText v)
          in if l = [] then None
             else if length l > MAX_LOGGED_CODE_LENGTH then Some (take MAX_LOGGED_CODE_LENGTH l @ ''...'')
             else Some l)
      in case code of
           NoCode \<Rightarrow> None
         | CodeString s \<Rightarrow> bounded (Str s)
         | CodeOther v \<Rightarrow> (if v = Null then None else bounded v))"

text \<open>The properties of an error are data properties here: a code holds exactly the text or it does not.\<close>

definition hasLoggableCode :: "thrown \<Rightarrow> string option \<Rightarrow> bool" where
  "hasLoggableCode err code = (case code of None \<Rightarrow> False | Some c \<Rightarrow> err_code err = CodeString c)"

text \<open>The error to write and what the copy carries under \<open>LOGGED_DETAILS\<close>.\<close>

definition loggableError :: "zod_parse \<Rightarrow> thrown \<Rightarrow> thrown \<times> details" where
  "loggableError parse err =
     (if \<not> instance_of err AppErrorC then (err, None)
      else case err of
        NonError _ _ _ \<Rightarrow> (err, None)
      | JsError cls name message errCode st errDetails stack cause parts \<Rightarrow>
          (let code = loggableCode errCode
           in if errDetails = None \<and> hasLoggableCode err code then (err, None)
              else
                (let logged = (case errDetails of
                        None \<Rightarrow> None
                      | Some _ \<Rightarrow> (case publicDetails parse err of Some d \<Rightarrow> Some d | None \<Rightarrow> Some (Str OMITTED_DETAILS)))
                 in (JsError cls name message (case code of Some c \<Rightarrow> CodeString c | None \<Rightarrow> NoCode)
                       st logged stack cause parts, logged))))"

section \<open>Lines\<close>

datatype logged_value = LogJson json | LogErr thrown details

record request_line =
  rl_level :: log_level
  rl_fields :: "(string \<times> logged_value) list"
  rl_message :: string

text \<open>
  What the log reads of a request: its method, the declared route, the requested url, the two
  flags of \<open>request-state.ts\<close>; and the lines written so far.
\<close>

record request_log =
  rq_method :: string
  rq_route :: "string option"
  rq_url :: string
  rq_authenticated :: bool
  rq_failureLogged :: bool
  rq_lines :: "request_line list"

text \<open>What it reads of the reply: the status and the elapsed time.\<close>

type_synonym reply_view = "nat \<times> jsnum"

definition status_field :: "nat \<Rightarrow> string \<times> logged_value" where
  "status_field s = (''status'', LogJson (Num (Fin (of_nat s))))"

definition mapped_fields :: "mapped_error \<Rightarrow> (string \<times> logged_value) list" where
  "mapped_fields mapped = [status_field (me_status mapped), (''code'', LogJson (Str (me_code mapped)))]"

definition requestFields :: "request_log \<Rightarrow> (string \<times> logged_value) list" where
  "requestFields r =
     (''method'', LogJson (Str (rq_method r))) #
     (case rq_route r of None \<Rightarrow> [] | Some u \<Rightarrow> [(''routeUrl'', LogJson (Str u))])"

definition err_field :: "zod_parse \<Rightarrow> thrown \<Rightarrow> string \<times> logged_value" where
  "err_field parse err = (''err'', case loggableError parse err of (e, d) \<Rightarrow> LogErr e d)"

definition failurePayload ::
  "zod_parse \<Rightarrow> request_log \<Rightarrow> thrown \<Rightarrow> (string \<times> logged_value) list \<Rightarrow> (string \<times> logged_value) list" where
  "failurePayload parse r err extra = requestFields r @ extra @ [err_field parse err]"

definition pathOf :: "string \<Rightarrow> string" where
  "pathOf url = takeWhile (\<lambda>c. c \<noteq> CHR ''?'') url"

definition write_line :: "log_level \<Rightarrow> (string \<times> logged_value) list \<Rightarrow> string \<Rightarrow> request_log \<Rightarrow> request_log" where
  "write_line level kvs message r =
     r\<lparr>rq_lines := rq_lines r @ [\<lparr>rl_level = level, rl_fields = kvs, rl_message = message\<rparr>]\<rparr>"

definition logRejection :: "mapped_error \<Rightarrow> request_log \<Rightarrow> request_log" where
  "logRejection mapped r =
     write_line Info (mapped_fields mapped @ requestFields r) ''request rejected'' (r\<lparr>rq_failureLogged := True\<rparr>)"

definition logError :: "zod_parse \<Rightarrow> thrown \<Rightarrow> mapped_error \<Rightarrow> request_log \<Rightarrow> request_log" where
  "logError parse err mapped r =
     (if instance_of err (OtherErrorC ''ServiceClosingError'') \<or>
         (me_status mapped < SERVER_ERROR_STATUS \<and> \<not> rq_authenticated r)
      then logRejection mapped r
      else
        (let r1 = r\<lparr>rq_failureLogged := True\<rparr>;
             payload = failurePayload parse r1 err (mapped_fields mapped)
         in if me_status mapped \<ge> SERVER_ERROR_STATUS then write_line ErrorLevel payload ''request failed'' r1
            else write_line Warn payload ''request rejected'' r1))"

definition logAccess :: "reply_view \<Rightarrow> request_log \<Rightarrow> request_log" where
  "logAccess reply r =
     (if rq_failureLogged r then r
      else write_line Info
        (requestFields r @ [status_field (fst reply)] @
         (if rq_authenticated r then [(''path'', LogJson (Str (pathOf (rq_url r))))] else []) @
         [(''responseTime'', LogJson (Num (snd reply)))])
        ''request completed'' r)"

definition PREMATURE_CLOSE :: string where
  "PREMATURE_CLOSE = ''ERR_STREAM_PREMATURE_CLOSE''"

definition clientWentAway :: "thrown \<Rightarrow> bool \<Rightarrow> bool" where
  "clientWentAway err socketDestroyed = (errorCode err = Some PREMATURE_CLOSE \<and> socketDestroyed)"

definition response_fields :: "reply_view \<Rightarrow> (string \<times> logged_value) list" where
  "response_fields reply = [status_field (fst reply), (''responseTime'', LogJson (Num (snd reply)))]"

definition secondFailureLine :: "zod_parse \<Rightarrow> reply_view \<Rightarrow> thrown \<Rightarrow> string \<Rightarrow> request_log \<Rightarrow> request_log" where
  "secondFailureLine parse reply err msg r =
     (let r1 = r\<lparr>rq_failureLogged := True\<rparr>
      in write_line ErrorLevel (failurePayload parse r1 err (response_fields reply)) msg r1)"

definition failureLine :: "zod_parse \<Rightarrow> reply_view \<Rightarrow> thrown \<Rightarrow> string \<Rightarrow> request_log \<Rightarrow> request_log" where
  "failureLine parse reply err msg r =
     (if rq_failureLogged r then r
      else
        (let r1 = r\<lparr>rq_failureLogged := True\<rparr>
         in write_line ErrorLevel (failurePayload parse r1 err (response_fields reply)) msg r1))"

section \<open>The controller\<close>

text \<open>
  \<open>Rejected\<close> and \<open>Failed\<close> are the calls of the not-found handler and of the error handlers; the
  others are the overrides of \<open>AccessLogController\<close>, with the two that write nothing.
\<close>

datatype log_event =
    IncomingRequest
  | RouteNotFound
  | Rejected mapped_error
  | Failed thrown mapped_error
  | RequestCompleted "thrown option" reply_view
  | DefaultErrorLog thrown reply_view
  | WriteHeadError thrown reply_view
  | StreamError thrown bool reply_view
  | SerializerError thrown reply_view

definition access_log_step :: "zod_parse \<Rightarrow> request_log \<Rightarrow> log_event \<Rightarrow> request_log" where
  "access_log_step parse r e =
     (case e of
        IncomingRequest \<Rightarrow> r
      | RouteNotFound \<Rightarrow> r
      | Rejected mapped \<Rightarrow> logRejection mapped r
      | Failed err mapped \<Rightarrow> logError parse err mapped r
      | RequestCompleted None reply \<Rightarrow> logAccess reply r
      | RequestCompleted (Some err) reply \<Rightarrow> failureLine parse reply err ''request errored'' r
      | DefaultErrorLog err reply \<Rightarrow> secondFailureLine parse reply err ''error handler failed'' r
      | WriteHeadError err reply \<Rightarrow> secondFailureLine parse reply err ''response head failed'' r
      | StreamError err socketDestroyed reply \<Rightarrow>
          (if clientWentAway err socketDestroyed
           then write_line Info (requestFields r @ [status_field (fst reply)]) ''stream closed prematurely''
                  (r\<lparr>rq_failureLogged := True\<rparr>)
           else failureLine parse reply err ''response stream failed'' r)
      | SerializerError err reply \<Rightarrow> secondFailureLine parse reply err ''response serializer failed'' r)"

definition request_begins :: "string \<Rightarrow> string option \<Rightarrow> string \<Rightarrow> bool \<Rightarrow> request_log" where
  "request_begins method route url authenticated =
     \<lparr>rq_method = method, rq_route = route, rq_url = url, rq_authenticated = authenticated,
      rq_failureLogged = False, rq_lines = []\<rparr>"

lemmas log_defs = logRejection_def logError_def logAccess_def failureLine_def secondFailureLine_def
  write_line_def Let_def

section \<open>Steps\<close>

text \<open>The events that are told of whatever has been told before.\<close>

fun always_told :: "log_event \<Rightarrow> bool" where
  "always_told (Rejected _) = True"
| "always_told (Failed _ _) = True"
| "always_told (DefaultErrorLog _ _) = True"
| "always_told (WriteHeadError _ _) = True"
| "always_told (SerializerError _ _) = True"
| "always_told (StreamError err gone _) = clientWentAway err gone"
| "always_told _ = False"

text \<open>The events that are a failure.\<close>

fun is_failure :: "log_event \<Rightarrow> bool" where
  "is_failure (RequestCompleted r _) = (r \<noteq> None)"
| "is_failure (StreamError _ _ _) = True"
| "is_failure e = always_told e"

lemma step_fixed [simp]:
  "rq_method (access_log_step parse r e) = rq_method r" "rq_route (access_log_step parse r e) = rq_route r"
  "rq_url (access_log_step parse r e) = rq_url r" "rq_authenticated (access_log_step parse r e) = rq_authenticated r"
  by (simp_all add: access_log_step_def log_defs split: log_event.splits option.splits)

text \<open>What a step adds: at most one line, and the line of an access only to an untold request.\<close>

lemma step_lines:
  "\<exists>ls. rq_lines (access_log_step parse r e) = rq_lines r @ ls \<and>
     length ls = (if rq_failureLogged r then of_bool (always_told e)
                  else of_bool (is_failure e \<or> (\<exists>reply. e = RequestCompleted None reply))) \<and>
     (\<forall>l \<in> set ls. rl_message l = ''request completed'' \<longrightarrow> \<not> rq_failureLogged r \<and> (\<exists>reply. e = RequestCompleted None reply)) \<and>
     (rq_failureLogged (access_log_step parse r e) \<longleftrightarrow> rq_failureLogged r \<or> is_failure e)"
  by (cases e) (auto simp: access_log_step_def log_defs split: option.splits)

text \<open>After a failure was told: only what is always told adds a line.\<close>

lemma told_run:
  assumes "rq_failureLogged r"
  shows "\<exists>ls. rq_lines (foldl (access_log_step parse) r es) = rq_lines r @ ls \<and>
     length ls = length (filter always_told es) \<and> (\<forall>l \<in> set ls. rl_message l \<noteq> ''request completed'')"
  using assms
proof (induction es arbitrary: r)
  case (Cons e es)
  from step_lines [of parse r e] Cons.prems obtain ls where ls:
    "rq_lines (access_log_step parse r e) = rq_lines r @ ls" "length ls = of_bool (always_told e)"
    "\<forall>l \<in> set ls. rl_message l \<noteq> ''request completed''" "rq_failureLogged (access_log_step parse r e)" by auto
  from Cons.IH [OF ls(4)] obtain ls' where
    "rq_lines (foldl (access_log_step parse) (access_log_step parse r e) es) = rq_lines (access_log_step parse r e) @ ls'"
    "length ls' = length (filter always_told es)" "\<forall>l \<in> set ls'. rl_message l \<noteq> ''request completed''" by blast
  with ls show ?case by (intro exI [of _ "ls @ ls'"]) auto
qed simp

section \<open>What a line holds\<close>

text \<open>The errors an event carries.\<close>

fun errors_of :: "log_event \<Rightarrow> thrown list" where
  "errors_of (Failed err _) = [err]"
| "errors_of (RequestCompleted (Some err) _) = [err]"
| "errors_of (DefaultErrorLog err _) = [err]"
| "errors_of (WriteHeadError err _) = [err]"
| "errors_of (StreamError err _ _) = [err]"
| "errors_of (SerializerError err _) = [err]"
| "errors_of _ = []"

definition details_public :: "zod_parse \<Rightarrow> thrown set \<Rightarrow> string \<times> logged_value \<Rightarrow> bool" where
  "details_public parse errs kv \<longleftrightarrow>
     (case snd kv of
        LogJson _ \<Rightarrow> True
      | LogErr e d \<Rightarrow>
          (instance_of e AppErrorC \<longrightarrow>
             err_details e = d \<and> (d = None \<or> d = Some (Str OMITTED_DETAILS) \<or> (\<exists>e0 \<in> errs. d = publicDetails parse e0))))"

lemma loggable_public:
  assumes "err \<in> errs"
  shows "details_public parse errs (err_field parse err)"
proof (cases "instance_of err AppErrorC")
  case False
  then show ?thesis by (simp add: details_public_def err_field_def loggableError_def)
next
  case True
  then obtain cls name message errCode st errDetails stack cause parts
    where err: "err = JsError cls name message errCode st errDetails stack cause parts" by (cases err) auto
  have public_of: "\<exists>e0 \<in> errs. Some d = publicDetails parse e0"
    if "publicDetails parse (JsError cls name message errCode st errDetails stack cause parts) = Some d" for d
    using assms that unfolding err by force
  from True assms show ?thesis
    using public_of unfolding details_public_def err_field_def loggableError_def err
    by (auto simp: Let_def split: option.splits)
qed

lemma details_public_plain [simp]: "details_public parse errs (k, LogJson v)"
  by (simp add: details_public_def)

lemma details_public_mono: "details_public parse errs kv \<Longrightarrow> errs \<subseteq> errs' \<Longrightarrow> details_public parse errs' kv"
  by (fastforce simp: details_public_def split: logged_value.splits)

lemma requestFields_public: "kv \<in> set (requestFields r) \<Longrightarrow> details_public parse errs kv"
  by (auto simp: requestFields_def split: option.splits)

lemma step_public:
  assumes "\<forall>l \<in> set (rq_lines r). \<forall>kv \<in> set (rl_fields l). details_public parse errs kv"
  shows "\<forall>l \<in> set (rq_lines (access_log_step parse r e)). \<forall>kv \<in> set (rl_fields l).
     details_public parse (errs \<union> set (errors_of e)) kv"
proof -
  have old: "\<forall>l \<in> set (rq_lines r). \<forall>kv \<in> set (rl_fields l). details_public parse (errs \<union> set (errors_of e)) kv"
    using assms details_public_mono by blast
  have new: "err \<in> set (errors_of e) \<Longrightarrow> details_public parse (errs \<union> set (errors_of e)) (err_field parse err)" for err
    by (simp add: loggable_public)
  show ?thesis
    using old new
    by (cases e) (auto simp: access_log_step_def log_defs failurePayload_def mapped_fields_def status_field_def
        response_fields_def requestFields_public split: option.splits)
qed

text \<open>Two requests that differ in the url alone are written alike.\<close>

definition same_but_url :: "request_log \<Rightarrow> request_log \<Rightarrow> bool" where
  "same_but_url r r' \<longleftrightarrow>
     r' = r\<lparr>rq_url := rq_url r'\<rparr> \<and> (rq_authenticated r \<longrightarrow> pathOf (rq_url r) = pathOf (rq_url r'))"

lemma step_same:
  assumes "same_but_url r r'"
  shows "same_but_url (access_log_step parse r e) (access_log_step parse r' e)"
proof -
  from assms obtain u where r': "r' = r\<lparr>rq_url := u\<rparr>" and p: "rq_authenticated r \<longrightarrow> pathOf (rq_url r) = pathOf u"
    by (metis same_but_url_def)
  have same: "requestFields (r\<lparr>rq_url := u\<rparr>) = requestFields r" "failurePayload parse (r\<lparr>rq_url := u\<rparr>) err x = failurePayload parse r err x"
    for err x by (simp_all add: requestFields_def failurePayload_def)
  show ?thesis
    unfolding r' same_but_url_def using p
    by (cases e) (auto simp: access_log_step_def log_defs same requestFields_def failurePayload_def split: option.splits)
qed

lemma run_same: "same_but_url r r' \<Longrightarrow>
   same_but_url (foldl (access_log_step parse) r es) (foldl (access_log_step parse) r' es)"
  by (induction es arbitrary: r r') (auto intro: step_same)

lemma run_public:
  assumes "\<forall>l \<in> set (rq_lines r). \<forall>kv \<in> set (rl_fields l). details_public parse errs kv"
  shows "\<forall>l \<in> set (rq_lines (foldl (access_log_step parse) r es)). \<forall>kv \<in> set (rl_fields l).
     details_public parse (errs \<union> set (concat (map errors_of es))) kv"
  using assms
proof (induction es arbitrary: r errs)
  case (Cons e es)
  from Cons.IH [OF step_public [OF Cons.prems, of e]] show ?case by (simp add: Un_assoc)
qed simp

text \<open>The close of a client that left is written without a look at the mark.\<close>

lemma premature_close_second_line:
  "length (rq_lines (foldl (access_log_step parse) (request_begins m rt u a)
     [Rejected mapped, StreamError (JsError ErrorC ''Error'' [] (CodeString PREMATURE_CLOSE) None None None None []) True reply])) = 2"
  by (simp add: access_log_step_def log_defs request_begins_def clientWentAway_def errorCode_def)

section \<open>Properties\<close>


text \<open>
  C19: the log of a request holds no secret of its url and none of its errors: requests that
  differ in their query alone - or, without the password, in their whole url - leave the same
  lines, and the details of a domain error are written as the caller may see them or as the
  marker, never as they were thrown.
\<close>

theorem request_lines_hold_no_secrets:
  assumes "a \<Longrightarrow> pathOf u = pathOf u'"
  shows "rq_lines (foldl (access_log_step parse) (request_begins m rt u a) es) =
           rq_lines (foldl (access_log_step parse) (request_begins m rt u' a) es) \<and>
         (\<forall>l \<in> set (rq_lines (foldl (access_log_step parse) (request_begins m rt u a) es)).
            \<forall>kv \<in> set (rl_fields l). details_public parse (set (concat (map errors_of es))) kv)"
proof
  have "same_but_url (request_begins m rt u a) (request_begins m rt u' a)"
    using assms by (simp add: same_but_url_def request_begins_def)
  from run_same [OF this, of parse es] show "rq_lines (foldl (access_log_step parse) (request_begins m rt u a) es) =
      rq_lines (foldl (access_log_step parse) (request_begins m rt u' a) es)"
    unfolding same_but_url_def by (metis request_log.select_convs(6) request_log.surjective request_log.update_convs(3))
  show "\<forall>l \<in> set (rq_lines (foldl (access_log_step parse) (request_begins m rt u a) es)).
      \<forall>kv \<in> set (rl_fields l). details_public parse (set (concat (map errors_of es))) kv"
    using run_public [of "request_begins m rt u a" parse "{}" es] by (simp add: request_begins_def)
qed

theorem request_lines_hold_no_secrets_witness:
  "rq_lines (foldl (access_log_step plain_parse) (request_begins ''GET'' None ''/cb?code=1'' True)
     [RequestCompleted None (200, Fin 1)]) =
   rq_lines (foldl (access_log_step plain_parse) (request_begins ''GET'' None ''/cb?code=2'' True)
     [RequestCompleted None (200, Fin 1)])"
  by (rule conjunct1 [OF request_lines_hold_no_secrets]) (simp add: pathOf_def)

end
