(* ===== verification/Api_App.thy ===== *)
theory Api_App
  imports Request_Log
begin

text \<open>
  The application around the routes (\<open>apps/api/src/app.ts\<close>, \<open>plugins/error-handler.ts\<close>,
  \<open>plugins/auth.ts\<close>, \<open>plugins/closing.ts\<close>, \<open>lib/request-state.ts\<close>): the id of a request, the hooks
  in front of every route in the order they are registered, the handlers of failures, and the
  answer to a request that Node refused on the socket.
\<close>

section \<open>Request ids (\<open>app.ts\<close>)\<close>

definition is_word :: "char \<Rightarrow> bool" where
  "is_word c = (let n = (of_char c :: nat)
     in is_digit c \<or> is_upper c \<or> (97 \<le> n \<and> n \<le> 122) \<or> c = CHR ''_'')"

definition REQUEST_ID_PATTERN :: "string \<Rightarrow> bool" where
  "REQUEST_ID_PATTERN s =
     (1 \<le> length s \<and> length s \<le> 128 \<and> list_all (\<lambda>c. is_word c \<or> c = CHR ''.'' \<or> c = CHR '':'' \<or> c = CHR ''-'') s)"

definition suppliedRequestId :: "json option \<Rightarrow> string option" where
  "suppliedRequestId header =
     (case header of Some (Str s) \<Rightarrow> (if REQUEST_ID_PATTERN s then Some s else None) | _ \<Rightarrow> None)"

definition genReqId :: "string \<Rightarrow> json option \<Rightarrow> string" where
  "genReqId randomUUID header = (case suppliedRequestId header of Some s \<Rightarrow> s | None \<Rightarrow> randomUUID)"

section \<open>Secrets (\<open>auth.ts\<close>)\<close>

definition PUBLIC_ROUTES :: "string list" where
  "PUBLIC_ROUTES = [''/health'']"

definition REALM :: string where
  "REALM = ''shorts-factory''"

text \<open>The digest of \<open>node:crypto\<close> is a parameter; \<open>timingSafeEqual\<close> compares two of them.\<close>

definition secretsMatch :: "(string \<Rightarrow> 'd) \<Rightarrow> string \<Rightarrow> string \<Rightarrow> bool" where
  "secretsMatch sha256 candidate expected = (sha256 candidate = sha256 expected)"

definition validate_password :: "(string \<Rightarrow> 'd) \<Rightarrow> string \<Rightarrow> string \<Rightarrow> thrown option" where
  "validate_password sha256 expected password =
     (if secretsMatch sha256 password expected then None else Some (plain_error ''Invalid credentials''))"

text \<open>A request as the hooks read it: its id, its credentials, and what the log keeps of it.\<close>

record api_request =
  ar_id :: string
  ar_authorization :: "string option"
  ar_log :: request_log

text \<open>
  \<open>@fastify/basic-auth\<close> is a parameter: the check of the password it was given, and the request.
  It passes a request whose header carries a password the check accepts, and answers any other
  with an error of status 401; \<open>credentials\<close> is its reading of the header.
\<close>

type_synonym basic_auth = "(string \<Rightarrow> thrown option) \<Rightarrow> api_request \<Rightarrow> thrown option"

definition basic_auth_contract :: "(string \<Rightarrow> string option) \<Rightarrow> basic_auth \<Rightarrow> bool" where
  "basic_auth_contract credentials basicAuth \<longleftrightarrow>
     (\<forall>validate r. basicAuth validate r = None \<longleftrightarrow>
        (\<exists>p. Option.bind (ar_authorization r) credentials = Some p \<and> validate p = None)) \<and>
     (\<forall>validate r e. basicAuth validate r = Some e \<longrightarrow>
        is_object e \<and> readStatusCode e = Some (Num (Fin 401)) \<and>
        \<not> instance_of e AppErrorC \<and> \<not> instance_of e (OtherErrorC ''ServiceClosingError''))"

text \<open>The hook of \<open>registerAuth\<close>; it alone sets \<open>authenticated\<close>.\<close>

definition auth_hook ::
  "(string \<Rightarrow> 'd) \<Rightarrow> basic_auth \<Rightarrow> string \<Rightarrow> api_request \<Rightarrow> thrown option \<times> api_request" where
  "auth_hook sha256 basicAuth adminPassword r =
     (if (case rq_route (ar_log r) of Some u \<Rightarrow> List.member PUBLIC_ROUTES u | None \<Rightarrow> False)
      then (None, r)
      else
        (case basicAuth (validate_password sha256 adminPassword) r of
           None \<Rightarrow> (None, r\<lparr>ar_log := (ar_log r)\<lparr>rq_authenticated := True\<rparr>\<rparr>)
         | Some err \<Rightarrow> (Some err, r)))"

section \<open>Closing (\<open>closing.ts\<close>)\<close>

datatype closing_event = PreClose

definition closing_step :: "bool \<Rightarrow> closing_event \<Rightarrow> bool" where
  "closing_step closing e = (case e of PreClose \<Rightarrow> True)"

definition closing_hook :: "bool \<Rightarrow> api_request \<Rightarrow> thrown option \<times> api_request" where
  "closing_hook closing r = (if closing then (Some service_closing_error, r) else (None, r))"

section \<open>Failures (\<open>error-handler.ts\<close>)\<close>

record api_answer =
  aa_status :: nat
  aa_headers :: "(string \<times> string) list"
  aa_body :: json

definition NOT_FOUND_STATUS :: nat where
  "NOT_FOUND_STATUS = 404"

text \<open>\<open>onSend\<close> of \<open>assembleApp\<close>: the id of the request on every answer.\<close>

definition with_request_id :: "api_request \<Rightarrow> api_answer \<Rightarrow> api_answer" where
  "with_request_id r a = a\<lparr>aa_headers := (REQUEST_ID_HEADER, ar_id r) # filter (\<lambda>(k, v). k \<noteq> REQUEST_ID_HEADER) (aa_headers a)\<rparr>"

text \<open>What the handlers read of the type provider: its parser and its two guards.\<close>

record validators =
  va_parse :: zod_parse
  va_issues :: "thrown \<Rightarrow> json list option"
  va_serialization :: "thrown \<Rightarrow> bool"

definition failure_answer :: "mapped_error \<Rightarrow> api_request \<Rightarrow> api_answer" where
  "failure_answer mapped r = \<lparr>aa_status = me_status mapped, aa_headers = [], aa_body = errorBodyOf mapped (ar_id r)\<rparr>"

definition error_handler :: "validators \<Rightarrow> thrown \<Rightarrow> api_request \<Rightarrow> api_answer \<times> api_request" where
  "error_handler va err r =
     (let mapped = mapError (va_parse va) (va_issues va) (va_serialization va) err;
          r1 = r\<lparr>ar_log := logError (va_parse va) err mapped (ar_log r)\<rparr>
      in (failure_answer mapped r1, r1))"

definition not_found_handler :: "api_request \<Rightarrow> api_answer \<times> api_request" where
  "not_found_handler r =
     (let mapped = clientError NOT_FOUND_STATUS;
          r1 = r\<lparr>ar_log := logRejection mapped (ar_log r)\<rparr>
      in (failure_answer mapped r1, r1))"

text \<open>The router's own refusals: the hooks never run, so the header is set here.\<close>

definition frameworkErrorHandler ::
  "zod_parse \<Rightarrow> thrown \<Rightarrow> api_request \<Rightarrow> api_answer \<times> api_request" where
  "frameworkErrorHandler parse err r =
     (let mapped = mapFrameworkError (readStatusCode err);
          r1 = r\<lparr>ar_log := logError parse err mapped (ar_log r)\<rparr>
      in (with_request_id r1 (failure_answer mapped r1), r1))"

section \<open>The assembled application (\<open>app.ts\<close>)\<close>

text \<open>
  What \<open>assembleApp\<close> registers, in its order: the hooks in front of every route, the failure
  handlers and the hook on what is sent.  \<open>closing\<close> is the flag as the request finds it.
\<close>

type_synonym on_request = "api_request \<Rightarrow> thrown option \<times> api_request"

record app =
  ap_onRequest :: "on_request list"
  ap_onSend :: "api_request \<Rightarrow> api_answer \<Rightarrow> api_answer"
  ap_onError :: "thrown \<Rightarrow> api_request \<Rightarrow> api_answer \<times> api_request"
  ap_notFound :: "api_request \<Rightarrow> api_answer \<times> api_request"

definition assembleApp :: "(string \<Rightarrow> 'd) \<Rightarrow> basic_auth \<Rightarrow> validators \<Rightarrow> string \<Rightarrow> bool \<Rightarrow> app" where
  "assembleApp sha256 basicAuth va adminPassword closing =
     \<lparr>ap_onRequest = [closing_hook closing, auth_hook sha256 basicAuth adminPassword],
      ap_onSend = with_request_id,
      ap_onError = error_handler va,
      ap_notFound = not_found_handler\<rparr>"

text \<open>
  The server library is a parameter: what it makes of an application, a handler (\<open>None\<close> where no
  route matches) and a request.  It runs the hooks in the order they were registered; the first
  error goes to the error handler, and so does a throw of the handler; what they answer passes
  \<open>onSend\<close>.
\<close>

type_synonym route_handler = "api_request \<Rightarrow> (thrown + api_answer) \<times> api_request"
type_synonym server = "app \<Rightarrow> route_handler option \<Rightarrow> api_request \<Rightarrow> api_answer \<times> api_request"

fun run_onRequest :: "on_request list \<Rightarrow> on_request" where
  "run_onRequest [] r = (None, r)"
| "run_onRequest (h # hs) r = (case h r of (Some e, r') \<Rightarrow> (Some e, r') | (None, r') \<Rightarrow> run_onRequest hs r')"

definition lifecycle_contract :: "server \<Rightarrow> bool" where
  "lifecycle_contract serve \<longleftrightarrow>
     (\<forall>ap h r. serve ap h r =
        (let (a, r') =
           (case run_onRequest (ap_onRequest ap) r of
              (Some e, r1) \<Rightarrow> ap_onError ap e r1
            | (None, r1) \<Rightarrow>
                (case h of
                   None \<Rightarrow> ap_notFound ap r1
                 | Some handler \<Rightarrow>
                     (case handler r1 of
                        (Inl e, r2) \<Rightarrow> ap_onError ap e r2
                      | (Inr a, r2) \<Rightarrow> (a, r2))))
         in (ap_onSend ap r' a, r')))"

definition plain_server :: server where
  "plain_server ap h r =
     (let (a, r') =
        (case run_onRequest (ap_onRequest ap) r of
           (Some e, r1) \<Rightarrow> ap_onError ap e r1
         | (None, r1) \<Rightarrow>
             (case h of
                None \<Rightarrow> ap_notFound ap r1
              | Some handler \<Rightarrow>
                  (case handler r1 of
                     (Inl e, r2) \<Rightarrow> ap_onError ap e r2
                   | (Inr a, r2) \<Rightarrow> (a, r2))))
      in (ap_onSend ap r' a, r'))"

section \<open>Lemmas\<close>

lemma plain_server_contract: "lifecycle_contract plain_server"
  by (simp add: lifecycle_contract_def plain_server_def)

text \<open>
  The guards of the type provider know its own errors, which carry the statuses 400 and 500.
\<close>

definition guards_contract :: "validators \<Rightarrow> bool" where
  "guards_contract va \<longleftrightarrow>
     (\<forall>e. va_issues va e \<noteq> None \<longrightarrow> readStatusCode e = Some (Num (Fin 400))) \<and>
     (\<forall>e. va_serialization va e \<longrightarrow> readStatusCode e = Some (Num (Fin 500)))"

definition plain_validators :: validators where
  "plain_validators = \<lparr>va_parse = plain_parse, va_issues = (\<lambda>_. None), va_serialization = (\<lambda>_. False)\<rparr>"

lemma plain_validators_contract: "guards_contract plain_validators"
  by (simp add: guards_contract_def plain_validators_def)

lemma mapError_of_status:
  assumes "guards_contract va" and "is_object e" and "\<not> instance_of e AppErrorC"
    and "readStatusCode e = Some (Num (Fin (of_nat n)))" and "400 < n" and "n \<le> 599" and "n \<noteq> 500"
  shows "mapError (va_parse va) (va_issues va) (va_serialization va) e =
    (if n < 500 then clientError n else serverError n)"
proof -
  have "va_issues va e = None" "\<not> va_serialization va e" using assms by (auto simp: guards_contract_def)
  moreover have "isErrorStatus (Some (Num (Fin (of_nat n)))) = Some n"
    using assms(5,6) is_int_rat_of_int [of "int n"]
    by (simp add: isErrorStatus_def CLIENT_ERROR_STATUS_def MAX_ERROR_STATUS_def del: is_int_rat_of_int)
  ultimately show ?thesis
    using assms by (simp add: mapError_def isClientStatus_def SERVER_ERROR_STATUS_def)
qed

text \<open>A refusal before the route: the short line and the envelope, whatever the route would do.\<close>

definition refusal :: "mapped_error \<Rightarrow> api_request \<Rightarrow> api_answer \<times> api_request" where
  "refusal mapped r = (with_request_id r (failure_answer mapped r), r\<lparr>ar_log := logRejection mapped (ar_log r)\<rparr>)"

lemma answer_id [simp]:
  "failure_answer mapped (r\<lparr>ar_log := l\<rparr>) = failure_answer mapped r"
  "with_request_id (r\<lparr>ar_log := l\<rparr>) a = with_request_id r a"
  by (simp_all add: failure_answer_def with_request_id_def)

lemma closing_refused:
  assumes "guards_contract va"
  shows "error_handler va service_closing_error r =
    (failure_answer (serverError 503) r, r\<lparr>ar_log := logRejection (serverError 503) (ar_log r)\<rparr>)"
proof -
  have "mapError (va_parse va) (va_issues va) (va_serialization va) service_closing_error = serverError 503"
    using mapError_of_status [OF assms, of service_closing_error 503]
    by (simp add: service_closing_error_def is_object_def readStatusCode_def instance_of_def superclass_def)
  moreover have "instance_of service_closing_error (OtherErrorC ''ServiceClosingError'')"
    by (simp add: service_closing_error_def instance_of_def)
  ultimately show ?thesis by (simp add: error_handler_def Let_def logError_def)
qed

lemma unauthorized_refused:
  assumes "guards_contract va" and "basic_auth_contract credentials basicAuth" and "basicAuth validate r = Some e"
    and "\<not> rq_authenticated (ar_log r)"
  shows "error_handler va e r =
    (failure_answer (clientError 401) r, r\<lparr>ar_log := logRejection (clientError 401) (ar_log r)\<rparr>)"
proof -
  have e: "is_object e" "readStatusCode e = Some (Num (Fin 401))" "\<not> instance_of e AppErrorC"
    using assms(2,3) by (auto simp: basic_auth_contract_def)
  have "mapError (va_parse va) (va_issues va) (va_serialization va) e = clientError 401"
    using mapError_of_status [OF assms(1) e(1,3), of 401] e(2) by simp
  with assms(4) show ?thesis
    by (simp add: error_handler_def Let_def logError_def clientError_def SERVER_ERROR_STATUS_def)
qed

text \<open>What becomes of a request the hooks let through.\<close>

definition reached :: "validators \<Rightarrow> route_handler option \<Rightarrow> api_request \<Rightarrow> api_answer \<times> api_request" where
  "reached va h r =
     (let (a, r') =
        (case h of
           None \<Rightarrow> not_found_handler r
         | Some handler \<Rightarrow> (case handler r of (Inl e, r2) \<Rightarrow> error_handler va e r2 | (Inr a, r2) \<Rightarrow> (a, r2)))
      in (with_request_id r' a, r'))"

lemma assembled_server:
  "plain_server (assembleApp sha256 basicAuth va adminPassword closing) h r =
     (case run_onRequest [closing_hook closing, auth_hook sha256 basicAuth adminPassword] r of
        (Some e, r1) \<Rightarrow> (let (a, r') = error_handler va e r1 in (with_request_id r' a, r'))
      | (None, r1) \<Rightarrow> reached va h r1)"
  by (simp add: plain_server_def assembleApp_def reached_def Let_def split: prod.splits option.splits sum.splits)

section \<open>Properties\<close>

text \<open>
  C11: who reaches a route: while the service is closing every request is answered with a 503; of
  the rest, a request of a public route goes through, a request with the password goes through
  and is marked as authenticated, and every other is answered with a 401 that is the same
  whatever route it asked for and whatever the handler would have done - with the id of the
  request in body and header and a single short line in the log.
\<close>

theorem request_admission:
  assumes "lifecycle_contract serve" and "basic_auth_contract credentials basicAuth" and "guards_contract va"
    and "\<not> rq_authenticated (ar_log r)"
  shows "serve (assembleApp sha256 basicAuth va adminPassword closing) h r =
    (if closing then refusal (serverError 503) r
     else if rq_route (ar_log r) = Some ''/health'' then reached va h r
     else if (\<exists>p. Option.bind (ar_authorization r) credentials = Some p \<and> sha256 p = sha256 adminPassword)
     then reached va h (r\<lparr>ar_log := (ar_log r)\<lparr>rq_authenticated := True\<rparr>\<rparr>)
     else refusal (clientError 401) r)"
proof -
  let ?v = "validate_password sha256 adminPassword"
  have pub: "(case rq_route (ar_log r) of Some u \<Rightarrow> List.member PUBLIC_ROUTES u | None \<Rightarrow> False) \<longleftrightarrow>
      rq_route (ar_log r) = Some ''/health''"
    by (auto simp: PUBLIC_ROUTES_def split: option.splits)
  have pass: "basicAuth ?v r = None \<longleftrightarrow>
      (\<exists>p. Option.bind (ar_authorization r) credentials = Some p \<and> sha256 p = sha256 adminPassword)"
    using assms(2) by (auto simp: basic_auth_contract_def validate_password_def secretsMatch_def)
  have run: "serve (assembleApp sha256 basicAuth va adminPassword closing) h r =
      plain_server (assembleApp sha256 basicAuth va adminPassword closing) h r"
    using assms(1) plain_server_contract by (simp add: lifecycle_contract_def)
  show ?thesis
  proof (cases closing)
    case True
    then show ?thesis
      unfolding run assembled_server
      by (simp add: closing_hook_def closing_refused [OF assms(3)] refusal_def)
  next
    case False
    have hooks: "run_onRequest [closing_hook False, auth_hook sha256 basicAuth adminPassword] r =
        auth_hook sha256 basicAuth adminPassword r"
      by (simp add: closing_hook_def split: prod.splits option.splits)
    show ?thesis
    proof (cases "basicAuth ?v r")
      case None
      with False pass show ?thesis
        unfolding run assembled_server by (simp add: hooks auth_hook_def pub del: run_onRequest.simps)
    next
      case (Some e)
      with False pass show ?thesis
        unfolding run assembled_server
        by (auto simp: hooks auth_hook_def pub refusal_def simp del: run_onRequest.simps simp:
            unauthorized_refused [OF assms(3,2) Some assms(4)])
    qed
  qed
qed

definition plain_basic_auth :: basic_auth where
  "plain_basic_auth validate r =
     (let refused = Some (JsError ErrorC ''FastifyError'' ''Unauthorized'' (CodeString ''FST_BASIC_AUTH_MISSING_OR_BAD_AUTHORIZATION_HEADER'')
          (Some (Num (Fin 401))) None None None [])
      in case ar_authorization r of None \<Rightarrow> refused | Some p \<Rightarrow> (if validate p = None then None else refused))"

lemma plain_basic_auth_contract: "basic_auth_contract Some plain_basic_auth"
  by (auto simp: basic_auth_contract_def plain_basic_auth_def Let_def is_object_def readStatusCode_def
      instance_of_def superclass_def split: option.splits if_splits)

theorem request_admission_witness:
  "plain_server (assembleApp (\<lambda>s. s) plain_basic_auth plain_validators ''s3cret'' False)
     (Some (\<lambda>r. (Inr \<lparr>aa_status = 200, aa_headers = [], aa_body = Str ''status''\<rparr>, r)))
     \<lparr>ar_id = ''r-1'', ar_authorization = Some ''guess'', ar_log = request_begins ''GET'' (Some ''/system/status'') ''/system/status?x'' False\<rparr> =
   refusal (clientError 401)
     \<lparr>ar_id = ''r-1'', ar_authorization = Some ''guess'', ar_log = request_begins ''GET'' (Some ''/system/status'') ''/system/status?x'' False\<rparr>"
  by (subst request_admission [OF plain_server_contract plain_basic_auth_contract plain_validators_contract])
    (simp_all add: request_begins_def)

end
