(* ===== verification/Socket_Answer.thy ===== *)
theory Socket_Answer
  imports Api_App
begin

text \<open>
  The answer to a request that Node refused while parsing it (\<open>answerClientError\<close> of
  \<open>apps/api/src/plugins/error-handler.ts\<close>): which sockets are answered, and the response written
  by hand on the socket.
\<close>

section \<open>\<open>JSON.stringify\<close>\<close>

definition hex_digit :: "nat \<Rightarrow> char" where
  "hex_digit n = (if n < 10 then char_of (48 + n) else char_of (87 + n))"

definition json_char :: "char \<Rightarrow> string" where
  "json_char c =
     (let n = (of_char c :: nat)
      in if n = 34 then [CHR 92, CHR 34]
         else if n = 92 then [CHR 92, CHR 92]
         else if n = 8 then [CHR 92, CHR ''b'']
         else if n = 9 then [CHR 92, CHR ''t'']
         else if n = 10 then [CHR 92, CHR ''n'']
         else if n = 12 then [CHR 92, CHR ''f'']
         else if n = 13 then [CHR 92, CHR ''r'']
         else if n < 32 then [CHR 92, CHR ''u'', CHR ''0'', CHR ''0'', hex_digit (n div 16), hex_digit (n mod 16)]
         else [c])"

definition json_string :: "string \<Rightarrow> string" where
  "json_string s = CHR 34 # concat (map json_char s) @ [CHR 34]"

fun json_stringify :: "json \<Rightarrow> string" where
  "json_stringify Null = ''null''"
| "json_stringify (Bool b) = (if b then ''true'' else ''false'')"
| "json_stringify (Num x) = (if is_finite x then show_num x else ''null'')"
| "json_stringify (Str s) = json_string s"
| "json_stringify (Arr vs) = CHR ''['' # join CHR '','' (map json_stringify vs) @ [CHR '']'']"
| "json_stringify (Obj kvs) =
     CHR ''{'' # join CHR '','' (map (\<lambda>(k, v). json_string k @ CHR '':'' # json_stringify v) kvs) @ [CHR ''}'']"

text \<open>\<open>Buffer.byteLength\<close>: UTF-8.\<close>

definition byteLength :: "string \<Rightarrow> nat" where
  "byteLength s = sum_list (map (\<lambda>c. if (of_char c :: nat) < 128 then 1 else 2) s)"

section \<open>The response\<close>

definition HTTP_LINE_BREAK :: string where
  "HTTP_LINE_BREAK = [CHR 13, CHR 10]"

definition CONNECTION_RESET :: string where
  "CONNECTION_RESET = ''ECONNRESET''"

definition socket_response :: "mapped_error \<Rightarrow> string \<Rightarrow> string" where
  "socket_response mapped requestId =
     (let body = json_stringify (errorBodyOf mapped requestId)
      in join_str HTTP_LINE_BREAK
           [''HTTP/1.1 '' @ show_nat (me_status mapped) @ '' '' @ me_message mapped,
            ''Content-Type: application/json'',
            ''Content-Length: '' @ show_nat (byteLength body),
            REQUEST_ID_HEADER @ '': '' @ requestId,
            ''Connection: close'',
            [],
            body])"

section \<open>The handler\<close>

text \<open>
  A socket as the handler finds it; \<open>rs_headersSent\<close> is \<open>responseInFlight\<close>.  The \<open>WeakSet\<close> of the
  code is a list of sockets; \<open>so_ids\<close> counts the ids drawn from \<open>randomUUID\<close>.
\<close>

record refused_socket =
  rs_socket :: nat
  rs_destroyed :: bool
  rs_writable :: bool
  rs_headersSent :: bool

record socket_answers =
  so_answering :: "nat list"
  so_lines :: "request_line list"
  so_ended :: "(nat \<times> string) list"
  so_destroyed :: "(nat \<times> thrown option) list"
  so_ids :: nat

definition socket_line :: "(string \<times> logged_value) list \<Rightarrow> socket_answers \<Rightarrow> socket_answers" where
  "socket_line kvs s =
     s\<lparr>so_lines := so_lines s @ [\<lparr>rl_level = Info, rl_fields = kvs, rl_message = ''request rejected''\<rparr>]\<rparr>"

definition answerClientError ::
  "(nat \<Rightarrow> string) \<Rightarrow> thrown \<Rightarrow> refused_socket \<Rightarrow> socket_answers \<Rightarrow> socket_answers" where
  "answerClientError randomUUID err socket s =
     (if errorCode err = Some CONNECTION_RESET \<or> rs_destroyed socket \<or> List.member (so_answering s) (rs_socket socket)
      then s
      else
        (let mapped = mapSocketError (err_code err)
         in if \<not> rs_writable socket \<or> rs_headersSent socket then
              (let s1 = socket_line (mapped_fields mapped) s
               in s1\<lparr>so_destroyed := so_destroyed s1 @ [(rs_socket socket, Some err)]\<rparr>)
            else
              (let requestId = randomUUID (so_ids s);
                   s1 = socket_line (mapped_fields mapped @ [(''requestId'', LogJson (Str requestId))]) (s\<lparr>so_ids := Suc (so_ids s)\<rparr>)
               in s1\<lparr>so_answering := rs_socket socket # so_answering s1,
                     so_ended := so_ended s1 @ [(rs_socket socket, socket_response mapped requestId)]\<rparr>)))"

text \<open>The socket is destroyed once what was written is flushed.\<close>

definition answer_flushed :: "nat \<Rightarrow> socket_answers \<Rightarrow> socket_answers" where
  "answer_flushed sock s =
     (if List.member (so_answering s) sock then s\<lparr>so_destroyed := so_destroyed s @ [(sock, None)]\<rparr> else s)"

datatype socket_event = ClientError thrown refused_socket | Flushed nat

definition socket_step :: "(nat \<Rightarrow> string) \<Rightarrow> socket_answers \<Rightarrow> socket_event \<Rightarrow> socket_answers" where
  "socket_step randomUUID s e =
     (case e of
        ClientError err socket \<Rightarrow> answerClientError randomUUID err socket s
      | Flushed sock \<Rightarrow> answer_flushed sock s)"

definition no_sockets :: socket_answers where
  "no_sockets = \<lparr>so_answering = [], so_lines = [], so_ended = [], so_destroyed = [], so_ids = 0\<rparr>"

section \<open>Reading a response back\<close>

text \<open>A reader of HTTP messages: the lines up to the first blank one, and what follows it.\<close>

fun read_head :: "nat \<Rightarrow> string \<Rightarrow> (string list \<times> string) option" where
  "read_head 0 s = None"
| "read_head (Suc n) s =
     (let l = takeWhile (\<lambda>c. c \<noteq> CHR 13) s; rest = drop (length l) s
      in if take 2 rest \<noteq> HTTP_LINE_BREAK then None
         else if l = [] then Some ([], drop 2 rest)
         else map_option (\<lambda>(ls, body). (l # ls, body)) (read_head n (drop 2 rest)))"

definition read_response :: "string \<Rightarrow> (string list \<times> string) option" where
  "read_response s = read_head (length s) s"

lemma read_head_join:
  assumes "\<forall>l \<in> set ls. l \<noteq> [] \<and> CHR 13 \<notin> set l" and "length ls < n"
  shows "read_head n (concat (map (\<lambda>l. l @ HTTP_LINE_BREAK) ls) @ HTTP_LINE_BREAK @ body) = Some (ls, body)"
  using assms
proof (induction ls arbitrary: n)
  case Nil
  then show ?case by (cases n) (simp_all add: HTTP_LINE_BREAK_def)
next
  case (Cons l ls)
  then obtain m where n: "n = Suc m" by (cases n) auto
  have l: "takeWhile (\<lambda>c. c \<noteq> CHR 13) (l @ HTTP_LINE_BREAK @ t) = l" for t
    using Cons.prems(1) by (subst takeWhile_append2) (auto simp: HTTP_LINE_BREAK_def)
  let ?t = "concat (map (\<lambda>l. l @ HTTP_LINE_BREAK) ls) @ HTTP_LINE_BREAK @ body"
  have "read_head n (l @ HTTP_LINE_BREAK @ ?t) = map_option (\<lambda>(ls, b). (l # ls, b)) (read_head m ?t)"
    using Cons.prems(1) unfolding n read_head.simps l Let_def by (simp add: HTTP_LINE_BREAK_def)
  moreover have "read_head m ?t = Some (ls, body)" using Cons n by simp
  ultimately show ?case by simp
qed

lemma show_nat_no_break: "CHR 13 \<notin> set (show_nat n)"
  using show_nat_digits by (fastforce simp: is_digit_def)

lemma printable_no_break: "list_all isPrintable s \<Longrightarrow> CHR 13 \<notin> set s"
  by (fastforce simp: list_all_iff isPrintable_def PLAIN_SPACE_def UNPRINTABLE_def)

definition response_head :: "mapped_error \<Rightarrow> string \<Rightarrow> string list" where
  "response_head mapped requestId =
     [''HTTP/1.1 '' @ show_nat (me_status mapped) @ '' '' @ me_message mapped,
      ''Content-Type: application/json'',
      ''Content-Length: '' @ show_nat (byteLength (json_stringify (errorBodyOf mapped requestId))),
      ''x-request-id: '' @ requestId,
      ''Connection: close'']"

lemma response_reads_back:
  assumes "list_all isPrintable (me_message mapped)" and "CHR 13 \<notin> set requestId"
  shows "read_response (socket_response mapped requestId) =
    Some (response_head mapped requestId, json_stringify (errorBodyOf mapped requestId))"
proof -
  let ?ls = "response_head mapped requestId" and ?body = "json_stringify (errorBodyOf mapped requestId)"
  have resp: "socket_response mapped requestId = concat (map (\<lambda>l. l @ HTTP_LINE_BREAK) ?ls) @ HTTP_LINE_BREAK @ ?body"
    by (simp add: socket_response_def response_head_def Let_def REQUEST_ID_HEADER_def)
  have "\<forall>l \<in> set ?ls. l \<noteq> [] \<and> CHR 13 \<notin> set l"
    using assms printable_no_break show_nat_no_break by (simp add: response_head_def)
  moreover have "length ?ls < length (socket_response mapped requestId)"
    unfolding resp by (simp add: response_head_def)
  ultimately show ?thesis unfolding read_response_def resp using read_head_join by blast
qed

definition answered_text :: "(nat \<Rightarrow> string) \<Rightarrow> string \<Rightarrow> bool" where
  "answered_text randomUUID t \<longleftrightarrow> (\<exists>code k. t = socket_response (mapSocketError code) (randomUUID k))"

definition sockets_inv :: "(nat \<Rightarrow> string) \<Rightarrow> socket_answers \<Rightarrow> bool" where
  "sockets_inv randomUUID s \<longleftrightarrow>
     distinct (so_answering s) \<and> map fst (so_ended s) = rev (so_answering s) \<and>
     (\<forall>(sock, t) \<in> set (so_ended s). answered_text randomUUID t) \<and>
     (\<forall>(sock, e) \<in> set (so_destroyed s). e = None \<longrightarrow> sock \<in> set (so_answering s))"

interpretation sockets: event_machine "socket_step randomUUID" "sockets_inv randomUUID" for randomUUID
proof unfold_locales
  fix s e assume inv: "sockets_inv randomUUID s"
  have "answered_text randomUUID (socket_response (mapSocketError c) (randomUUID k))" for c k
    by (auto simp: answered_text_def)
  with inv show "sockets_inv randomUUID (socket_step randomUUID s e)"
    by (cases e)
      (auto simp: socket_step_def answerClientError_def answer_flushed_def socket_line_def sockets_inv_def Let_def)
qed

lemma mapSocketError_ok: "mapped_ok (mapSocketError c)" "me_status (mapSocketError c) < 500"
proof -
  have "\<exists>s \<in> {400, 408, 431}. mapSocketError c = clientError s"
    by (auto simp: mapSocketError_def SOCKET_ERROR_STATUSES_def CLIENT_ERROR_STATUS_def split: code_field.splits)
  then show "mapped_ok (mapSocketError c)" "me_status (mapSocketError c) < 500"
    using clientError_ok by (auto simp: clientError_def)
qed

section \<open>Properties\<close>

text \<open>
  A socket whose request was refused is answered at most once, however often its parser fails,
  and is destroyed without an error only after it was answered; and what is written on it is an
  HTTP response that reads back: a status line of the 4xx range, the headers, with the number of
  bytes of the body and the id that is also in the body, and exactly the envelope as its body.
\<close>

theorem refused_sockets_answered_once:
  assumes "\<And>k. CHR 13 \<notin> set (randomUUID k)"
  shows "let s = foldl (socket_step randomUUID) no_sockets es in
     distinct (map fst (so_ended s)) \<and>
     (\<forall>(sock, e) \<in> set (so_destroyed s). e = None \<longrightarrow> sock \<in> fst ` set (so_ended s)) \<and>
     (\<forall>(sock, t) \<in> set (so_ended s). \<exists>m k.
        400 \<le> me_status m \<and> me_status m < 500 \<and>
        read_response t = Some (response_head m (randomUUID k), json_stringify (errorBodyOf m (randomUUID k))))"
proof -
  define s where "s = foldl (socket_step randomUUID) no_sockets es"
  have inv: "sockets_inv randomUUID s"
    unfolding s_def by (rule sockets.run_inv) (simp add: sockets_inv_def no_sockets_def)
  have "\<exists>m k. 400 \<le> me_status m \<and> me_status m < 500 \<and>
      read_response t = Some (response_head m (randomUUID k), json_stringify (errorBodyOf m (randomUUID k)))"
    if "answered_text randomUUID t" for t
  proof -
    from that obtain c k where t: "t = socket_response (mapSocketError c) (randomUUID k)" by (auto simp: answered_text_def)
    have "list_all isPrintable (me_message (mapSocketError c))" "400 \<le> me_status (mapSocketError c)"
      using mapSocketError_ok(1) by (auto simp: mapped_ok_def line_ok_def)
    with mapSocketError_ok(2) response_reads_back [OF _ assms] show ?thesis unfolding t by blast
  qed
  moreover have "set (so_answering s) = fst ` set (so_ended s)" "distinct (map fst (so_ended s))"
    using inv by (auto simp: sockets_inv_def simp flip: set_map)
  ultimately show ?thesis using inv unfolding s_def [symmetric] by (auto simp: sockets_inv_def Let_def)
qed

theorem refused_sockets_answered_once_witness:
  "read_response (snd (hd (so_ended (foldl (socket_step (\<lambda>_. ''u'')) no_sockets
     [ClientError (plain_error ''overflow'') \<lparr>rs_socket = 3, rs_destroyed = False, rs_writable = True, rs_headersSent = False\<rparr>])))) =
   Some (response_head (clientError 400) ''u'', json_stringify (errorBodyOf (clientError 400) ''u'')) \<and>
   distinct (map fst (so_ended (foldl (socket_step (\<lambda>_. ''u'')) no_sockets
     [ClientError (plain_error ''overflow'') \<lparr>rs_socket = 3, rs_destroyed = False, rs_writable = True, rs_headersSent = False\<rparr>])))"
proof -
  have "distinct (map fst (so_ended (foldl (socket_step (\<lambda>_. ''u'')) no_sockets es)))" for es
    by (rule conjunct1 [OF refused_sockets_answered_once [of "\<lambda>_. ''u''" es, unfolded Let_def]]) simp
  then show ?thesis
    using response_reads_back [of "clientError 400" "''u''"] mapped_ok_def [of "clientError 400"] clientError_ok [of 400]
    by (simp add: socket_step_def answerClientError_def socket_line_def no_sockets_def errorCode_def plain_error_def
        mapSocketError_def CLIENT_ERROR_STATUS_def CONNECTION_RESET_def line_ok_def Let_def)
qed

end
