(* ===== verification/System_Status.thy ===== *)
theory System_Status
  imports Probe_Db Budget_Guard Connection_Failure Contracts Api_Errors
begin

text \<open>
  The two pages about the state of the service (\<open>apps/api/src/lib/system-status.ts\<close>, \<open>health.ts\<close>,
  \<open>heartbeat.ts\<close>, \<open>queue-stats.ts\<close> and the routes \<open>health\<close> and \<open>system\<close>): how a failed read is
  classified, one deadline per section, the state of each dependency read back off the sections,
  and the answers the two routes put together.
\<close>

section \<open>Classification of a failure\<close>

definition POSTGRES_UNREACHABLE_CODES :: "string list" where
  "POSTGRES_UNREACHABLE_CODES =
     [''CONNECT_TIMEOUT'', ''CONNECTION_CLOSED'', ''CONNECTION_DESTROYED'', ''CONNECTION_ENDED'']"

definition DRIVER_ERROR_NAMES :: "string list" where
  "DRIVER_ERROR_NAMES = [''ReplyError'']"

definition POSTGRES_UNREACHABLE_STATES :: "string list" where
  "POSTGRES_UNREACHABLE_STATES = [''57P01'', ''57P02'', ''57P03'']"

definition POSTGRES_UNREACHABLE_CLASSES :: "string list" where
  "POSTGRES_UNREACHABLE_CLASSES = [''08'']"

definition POSTGRES_REFUSED_STATES :: "string list" where
  "POSTGRES_REFUSED_STATES = [''57P04'', ''08P01'', ''3D000'']"

definition POSTGRES_REFUSED_CLASSES :: "string list" where
  "POSTGRES_REFUSED_CLASSES = [''28'']"

definition POSTGRES_NOT_MIGRATED_STATES :: "string list" where
  "POSTGRES_NOT_MIGRATED_STATES = [''42P01'', ''42703'']"

definition POSTGRES_TIMEOUT_STATES :: "string list" where
  "POSTGRES_TIMEOUT_STATES = [''57014'']"

definition POSTGRES_SERVER_STATE_STATES :: "string list" where
  "POSTGRES_SERVER_STATE_STATES = [''25006'', ''25P03'', ''25P04'']"

definition POSTGRES_DEFECT_CLASSES :: "string list" where
  "POSTGRES_DEFECT_CLASSES =
     [''42'', ''3F'', ''22'', ''23'', ''0A'', ''25'', ''26'', ''2B'', ''34'', ''2F'', ''39'', ''3B'', ''44'']"

definition postgresFailureCode :: "string option \<Rightarrow> probe_failure option" where
  "postgresFailureCode c =
     (case c of
        None \<Rightarrow> Some Error
      | Some code \<Rightarrow>
          (if List.member POSTGRES_NOT_MIGRATED_STATES code then Some Not_migrated
           else if List.member POSTGRES_REFUSED_STATES code then Some Refused
           else if List.member POSTGRES_UNREACHABLE_STATES code then Some Unreachable
           else if List.member POSTGRES_TIMEOUT_STATES code then Some Timeout
           else if List.member POSTGRES_SERVER_STATE_STATES code then Some Error
           else
             (let sqlClass = take 2 code
              in if List.member POSTGRES_REFUSED_CLASSES sqlClass then Some Refused
                 else if List.member POSTGRES_UNREACHABLE_CLASSES sqlClass then Some Unreachable
                 else if List.member POSTGRES_DEFECT_CLASSES sqlClass then None
                 else Some Error)))"

definition failure_of_connection :: "connection_failure \<Rightarrow> probe_failure" where
  "failure_of_connection c = (case c of FailUnreachable \<Rightarrow> Unreachable | FailTimeout \<Rightarrow> Timeout)"

definition dependencyFailureCode :: "thrown \<Rightarrow> probe_failure option" where
  "dependencyFailureCode err =
     (if instance_of err DeadlineErrorC then Some Timeout
      else if instance_of err ProbeLimitErrorC then Some Timeout
      else if instance_of err ProbeClosedErrorC then Some Error
      else case connectionFailure err of
        Some c \<Rightarrow> Some (failure_of_connection c)
      | None \<Rightarrow>
          (let code = errorCode err
           in if (case code of Some c \<Rightarrow> List.member POSTGRES_UNREACHABLE_CODES c | None \<Rightarrow> False)
              then Some Unreachable
              else if instance_of err ErrorC then
                (if err_name err = ''PostgresError'' then postgresFailureCode code
                 else if List.member DRIVER_ERROR_NAMES (err_name err) then Some Error
                 else None)
              else None))"

section \<open>Sections\<close>

datatype 'a collected = Collected (collected_value: 'a) | NotCollected probe_failure

text \<open>
  \<open>work\<close> is what a section settles with, \<open>None\<close> when the deadline comes first.  The answer is the
  section, or the throw of a defect; the line is that of a failed dependency.
\<close>

definition under_deadline :: "(thrown + 'a) option \<Rightarrow> thrown + 'a" where
  "under_deadline work = fst (deadline_io (nat \<lfloor>DEPENDENCY_TIMEOUT_MS\<rfloor>) None (\<lambda>u. (work, u)) ())"

definition collect :: "string \<Rightarrow> (thrown + 'a) option \<Rightarrow> (thrown + 'a collected) \<times> log_line list" where
  "collect name work =
     (case under_deadline work of
        Inr v \<Rightarrow> (Inr (Collected v), [])
      | Inl err \<Rightarrow>
          (case dependencyFailureCode err of
             None \<Rightarrow> (Inl err, [])
           | Some reason \<Rightarrow>
               (Inr (NotCollected reason),
                [\<lparr>ll_level = Warn,
                  ll_fields = [(''err'', LErr err), (''section'', LVal (Str name)),
                               (''reason'', LVal (Str (probe_failure_name reason)))],
                  ll_message = ''system status section failed''\<rparr>])))"

fun REASON_CERTAINTY :: "probe_failure \<Rightarrow> nat" where
  "REASON_CERTAINTY Not_migrated = 5"
| "REASON_CERTAINTY Refused = 4"
| "REASON_CERTAINTY Unreachable = 3"
| "REASON_CERTAINTY Error = 2"
| "REASON_CERTAINTY Timeout = 1"

fun worst_reason :: "probe_failure option \<Rightarrow> unit collected list \<Rightarrow> probe_failure option" where
  "worst_reason reason [] = reason"
| "worst_reason reason (Collected _ # rs) = worst_reason reason rs"
| "worst_reason reason (NotCollected r # rs) =
     worst_reason (case reason of
         None \<Rightarrow> Some r
       | Some q \<Rightarrow> (if REASON_CERTAINTY r > REASON_CERTAINTY q then Some r else Some q)) rs"

definition dependencyCheck :: "unit collected list \<Rightarrow> json" where
  "dependencyCheck results =
     (case worst_reason None results of
        None \<Rightarrow> Obj [(''status'', Str ''up''), (''reason'', Null)]
      | Some r \<Rightarrow> Obj [(''status'', Str ''down''), (''reason'', Str (probe_failure_name r))])"

section \<open>The worker probe (\<open>heartbeat.ts\<close>)\<close>

definition worker_read ::
  "(string \<Rightarrow> int option) \<Rightarrow> int option \<Rightarrow> (string \<Rightarrow> thrown + string option) \<Rightarrow> thrown + heartbeat_reading" where
  "worker_read date_parse now get =
     (case get WORKER_HEARTBEAT_KEY of
        Inl e \<Rightarrow> Inl e
      | Inr stamp \<Rightarrow> Inr (readHeartbeat date_parse stamp now))"

section \<open>Queue counters (\<open>queue-stats.ts\<close>)\<close>

definition DLQ_QUEUE :: queue_name where
  "DLQ_QUEUE = ''system.dlq''"

definition queue_counters_error :: "string \<Rightarrow> thrown" where
  "queue_counters_error message =
     JsError (OtherErrorC ''QueueCountersError'') ''QueueCountersError'' message NoCode None None None None []"

text \<open>What a queue answers to \<open>getJobCounts\<close> and \<open>isPaused\<close>.\<close>

type_synonym job_counts = "(string \<times> json) list"

definition count_of :: "job_counts \<Rightarrow> string \<Rightarrow> queue_name \<Rightarrow> thrown + jsnum" where
  "count_of counts key queue =
     (case map_of counts key of
        Some (Num n) \<Rightarrow> Inr n
      | _ \<Rightarrow> Inl (queue_counters_error
          (''queue '' @ queue @ '': bullmq returned no '' @ CHR 34 # key @ [CHR 34] @ '' counter'')))"

record queue_row =
  qr_name :: queue_name
  qr_waiting :: jsnum
  qr_active :: jsnum
  qr_failed :: jsnum
  qr_delayed :: jsnum
  qr_paused :: bool

definition num_plus :: "jsnum \<Rightarrow> jsnum \<Rightarrow> jsnum" where
  "num_plus a b =
     (case (a, b) of
        (Fin x, Fin y) \<Rightarrow> Fin (x + y)
      | (NaN, _) \<Rightarrow> NaN | (_, NaN) \<Rightarrow> NaN
      | (PosInf, NegInf) \<Rightarrow> NaN | (NegInf, PosInf) \<Rightarrow> NaN
      | (PosInf, _) \<Rightarrow> PosInf | (_, PosInf) \<Rightarrow> PosInf
      | _ \<Rightarrow> NegInf)"

definition queue_row_of :: "queue_name \<Rightarrow> job_counts \<Rightarrow> bool \<Rightarrow> thrown + queue_row" where
  "queue_row_of name counts paused =
     (case count_of counts ''wait'' name of Inl e \<Rightarrow> Inl e | Inr w \<Rightarrow>
     (case count_of counts ''paused'' name of Inl e \<Rightarrow> Inl e | Inr p \<Rightarrow>
     (case count_of counts ''active'' name of Inl e \<Rightarrow> Inl e | Inr a \<Rightarrow>
     (case count_of counts ''failed'' name of Inl e \<Rightarrow> Inl e | Inr f \<Rightarrow>
     (case count_of counts ''delayed'' name of Inl e \<Rightarrow> Inl e | Inr d \<Rightarrow>
        Inr \<lparr>qr_name = name, qr_waiting = num_plus w p, qr_active = a, qr_failed = f, qr_delayed = d,
             qr_paused = paused\<rparr>)))))"

text \<open>
  \<open>Promise.all\<close>: the first rejection in the order the calls settle decides; \<open>order\<close> lists the
  calls by their place, those it does not name settling last.
\<close>

definition promise_all :: "nat list \<Rightarrow> (thrown + 'a) list \<Rightarrow> thrown + 'a list" where
  "promise_all order rs =
     (case List.find (\<lambda>i. i < length rs \<and> isl (rs ! i)) (order @ [0..<length rs]) of
        Some i \<Rightarrow> Inl (projl (rs ! i))
      | None \<Rightarrow> Inr (map projr rs))"

record queues_snapshot =
  qs_queues :: "queue_row list"
  qs_dlq :: jsnum

definition read_queues ::
  "nat list \<Rightarrow> (queue_name \<Rightarrow> thrown + job_counts \<times> bool) \<Rightarrow> thrown + queues_snapshot" where
  "read_queues order use =
     (case promise_all order (map (\<lambda>name. case use name of
              Inl e \<Rightarrow> Inl e
            | Inr (counts, paused) \<Rightarrow> queue_row_of name counts paused) QUEUE_NAMES) of
        Inl e \<Rightarrow> Inl e
      | Inr rows \<Rightarrow>
          (case List.find (\<lambda>row. qr_name row = DLQ_QUEUE) rows of
             None \<Rightarrow> Inl (queue_counters_error (''queue '' @ DLQ_QUEUE @ '': missing from the counters of this pass''))
           | Some dlq \<Rightarrow> Inr \<lparr>qs_queues = rows, qs_dlq = qr_waiting dlq\<rparr>))"

text \<open>
  The sharing of one pass (\<open>singleFlight\<close>), which the first line of the close ends: from then on
  every request starts a pass of its own.
\<close>

record queue_stats =
  st_flight :: flight_state
  st_closed :: bool
  st_own :: nat

datatype stats_event = StatsCollect | StatsSettled | StatsClose

definition createQueueStats :: "queue_stats \<Rightarrow> stats_event \<Rightarrow> queue_stats" where
  "createQueueStats s e =
     (case e of
        StatsCollect \<Rightarrow>
          (if st_closed s then s\<lparr>st_own := Suc (st_own s)\<rparr> else s\<lparr>st_flight := singleFlight (st_flight s) FlightCall\<rparr>)
      | StatsSettled \<Rightarrow> s\<lparr>st_flight := singleFlight (st_flight s) FlightSettled\<rparr>
      | StatsClose \<Rightarrow> s\<lparr>st_closed := True\<rparr>)"

section \<open>Health (\<open>health.ts\<close>, the route)\<close>

datatype probe_status = Up | Down

definition health_probe :: "(thrown + 'a) option \<Rightarrow> probe_status" where
  "health_probe work = (case under_deadline work of Inr _ \<Rightarrow> Up | Inl _ \<Rightarrow> Down)"

definition createHealthProbes :: "(thrown + unit) option \<Rightarrow> (thrown + string) option \<Rightarrow> probe_status \<times> probe_status" where
  "createHealthProbes pingDatabase pingRedis = (health_probe pingDatabase, health_probe pingRedis)"

definition health_route :: "probe_status \<times> probe_status \<Rightarrow> nat \<times> json" where
  "health_route report =
     (let healthy = (fst report = Up \<and> snd report = Up);
          status = (if healthy then ''ok'' else ''degraded'')
      in (case map_of HEALTH_STATUS_CODES status of Some n \<Rightarrow> n | None \<Rightarrow> 200, Obj [(''status'', Str status)]))"

section \<open>The status page (the route \<open>system\<close>)\<close>

definition queue_row_json :: "queue_row \<Rightarrow> json" where
  "queue_row_json r = Obj
     [(''name'', Str (qr_name r)), (''waiting'', Num (qr_waiting r)), (''active'', Num (qr_active r)),
      (''failed'', Num (qr_failed r)), (''delayed'', Num (qr_delayed r)), (''paused'', Bool (qr_paused r))]"

definition nullable :: "('a \<Rightarrow> json) \<Rightarrow> 'a collected \<Rightarrow> json" where
  "nullable f c = (case c of Collected v \<Rightarrow> f v | NotCollected _ \<Rightarrow> Null)"

definition erase :: "'a collected \<Rightarrow> unit collected" where
  "erase c = map_collected (\<lambda>_. ()) c"

definition status_page ::
  "json \<Rightarrow> rat \<Rightarrow> queues_snapshot collected \<Rightarrow> heartbeat_reading collected \<Rightarrow> json list collected \<Rightarrow> json" where
  "status_page buildInfo uptime queues worker budget = Obj
     [(''build'', buildInfo),
      (''uptimeSec'', Num (Fin (of_int \<lfloor>uptime\<rfloor>))),
      (''checks'', Obj
         [(''redis'', dependencyCheck [erase queues, erase worker]), (''db'', dependencyCheck [erase budget])]),
      (''queues'', nullable (\<lambda>v. Arr (map queue_row_json (qs_queues v))) queues),
      (''dlq'', nullable (\<lambda>v. Obj [(''size'', Num (qs_dlq v))]) queues),
      (''worker'', nullable worker_status worker),
      (''budget'', nullable Arr budget)]"

definition system_route ::
  "nat list \<Rightarrow> json \<Rightarrow> rat \<Rightarrow> (thrown + queues_snapshot) option \<Rightarrow> (thrown + heartbeat_reading) option \<Rightarrow>
   (thrown + json list) option \<Rightarrow> thrown + json" where
  "system_route order buildInfo uptime queues worker budget =
     (let q = fst (collect ''queues'' queues);
          w = fst (collect ''worker'' worker);
          b = fst (collect ''budget'' budget)
      in case promise_all order [map_sum id erase q, map_sum id erase w, map_sum id erase b] of
           Inl e \<Rightarrow> Inl e
         | Inr _ \<Rightarrow> Inr (status_page buildInfo uptime (projr q) (projr w) (projr b)))"

section \<open>Lemmas\<close>

lemma under_deadline_eq:
  "under_deadline work = (case work of Some r \<Rightarrow> r | None \<Rightarrow> Inl (deadline_error 2000))"
  by (simp add: under_deadline_def deadline_io_eq DEPENDENCY_TIMEOUT_MS_def split: option.splits)

lemma collect_cases:
  "fst (collect name work) =
     (case under_deadline work of
        Inr v \<Rightarrow> Inr (Collected v)
      | Inl err \<Rightarrow> (case dependencyFailureCode err of None \<Rightarrow> Inl err | Some reason \<Rightarrow> Inr (NotCollected reason)))"
  by (simp add: collect_def split: sum.splits option.splits)

lemma find_some_index:
  "List.find P xs = Some x \<Longrightarrow> x \<in> set xs \<and> P x"
  "List.find P xs = None \<Longrightarrow> x \<in> set xs \<Longrightarrow> \<not> P x"
  by (auto simp: find_Some_iff find_None_iff)

lemma promise_all_Inl: "promise_all order rs = Inl e \<Longrightarrow> Inl e \<in> set rs"
proof -
  assume "promise_all order rs = Inl e"
  then obtain i where "i < length rs" "isl (rs ! i)" "e = projl (rs ! i)"
    by (auto simp: promise_all_def dest!: find_some_index(1) split: option.splits)
  then show ?thesis by (metis nth_mem sum.collapse(1))
qed

lemma promise_all_Inr: "promise_all order rs = Inr vs \<Longrightarrow> rs = map Inr vs"
proof -
  assume p: "promise_all order rs = Inr vs"
  then have "\<not> isl (rs ! i)" if "i < length rs" for i
    using that by (auto simp: promise_all_def dest: find_some_index(2) split: option.splits)
  moreover from p have "vs = map projr rs" by (auto simp: promise_all_def split: option.splits)
  ultimately show ?thesis by (intro nth_equalityI) (auto simp: sum.collapse(2))
qed

text \<open>The most definite reason is the one that is told; there is none when every section answered.\<close>

lemma worst_reason_bound:
  "case worst_reason q rs of
     None \<Rightarrow> q = None \<and> (\<forall>c \<in> set rs. c = Collected ())
   | Some r \<Rightarrow>
       (q = Some r \<or> NotCollected r \<in> set rs) \<and>
       (\<forall>r'. q = Some r' \<or> NotCollected r' \<in> set rs \<longrightarrow> REASON_CERTAINTY r' \<le> REASON_CERTAINTY r)"
proof (induction q rs rule: worst_reason.induct)
  case (3 reason r rs)
  let ?q = "case reason of None \<Rightarrow> Some r | Some q \<Rightarrow> if REASON_CERTAINTY r > REASON_CERTAINTY q then Some r else Some q"
  from 3 show ?case
    by (cases reason; cases "worst_reason ?q rs") (fastforce split: if_splits)+
qed (auto split: option.splits)

lemma dependencyCheck_up:
  "jget (dependencyCheck rs) ''status'' = Some (Str ''up'') \<longleftrightarrow> (\<forall>c \<in> set rs. c = Collected ())"
  using worst_reason_bound [of None rs] by (auto simp: dependencyCheck_def jget_def split: option.splits)

lemma dependencyCheck_accepted: "accepts DependencyCheckSchema (dependencyCheck rs)"
proof (cases "worst_reason None rs")
  case None
  then show ?thesis
    by (simp add: dependencyCheck_def DependencyCheckSchema_def ProbeStatusSchema_def up_means_no_reason_def jget_def)
next
  case (Some r)
  then show ?thesis
    by (cases r)
      (simp_all add: dependencyCheck_def DependencyCheckSchema_def ProbeStatusSchema_def ProbeFailureCodeSchema_def
        up_means_no_reason_def jget_def)
qed

definition answered :: "(thrown + 'a) option \<Rightarrow> bool" where
  "answered work = (case under_deadline work of Inr _ \<Rightarrow> True | Inl _ \<Rightarrow> False)"

lemma collect_answered:
  "fst (collect name work) = Inr c \<Longrightarrow> erase c = Collected () \<longleftrightarrow> answered work"
  by (auto simp: collect_cases answered_def erase_def split: sum.splits option.splits)

definition reason_of :: "(thrown + 'a) option \<Rightarrow> probe_failure option" where
  "reason_of work = (case under_deadline work of Inl e \<Rightarrow> dependencyFailureCode e | Inr _ \<Rightarrow> None)"

lemma collect_reason:
  "fst (collect name work) = Inr c \<Longrightarrow>
     erase c = (case reason_of work of None \<Rightarrow> Collected () | Some r \<Rightarrow> NotCollected r)"
  by (auto simp: collect_cases reason_of_def erase_def split: sum.splits option.splits)

lemma collect_null:
  "fst (collect name work) = Inr c \<Longrightarrow> (\<And>v. f v \<noteq> Null) \<Longrightarrow> nullable f c = Null \<longleftrightarrow> \<not> answered work"
  by (auto simp: collect_cases answered_def nullable_def split: sum.splits option.splits)

lemma collect_defect:
  "fst (collect name work) = Inl e \<Longrightarrow> dependencyFailureCode e = None \<and> under_deadline work = Inl e"
  by (auto simp: collect_cases split: sum.splits option.splits)

text \<open>The route: a page of the three sections, or the defect of one of them.\<close>

lemma system_route_cases:
  "case system_route order bi up q w b of
     Inl e \<Rightarrow> fst (collect ''queues'' q) = Inl e \<or> fst (collect ''worker'' w) = Inl e \<or> fst (collect ''budget'' b) = Inl e
   | Inr page \<Rightarrow>
       (\<exists>cq cw cb. fst (collect ''queues'' q) = Inr cq \<and> fst (collect ''worker'' w) = Inr cw \<and>
          fst (collect ''budget'' b) = Inr cb \<and> page = status_page bi up cq cw cb)"
proof -
  let ?rs = "[map_sum id erase (fst (collect ''queues'' q)), map_sum id erase (fst (collect ''worker'' w)),
    map_sum id erase (fst (collect ''budget'' b))]"
  show ?thesis
  proof (cases "promise_all order ?rs")
    case (Inl e)
    then have "system_route order bi up q w b = Inl e" by (simp add: system_route_def Let_def)
    with promise_all_Inl [OF Inl] show ?thesis by (auto simp: map_sum_def split: sum.splits)
  next
    case (Inr vs)
    then have s: "system_route order bi up q w b =
        Inr (status_page bi up (projr (fst (collect ''queues'' q))) (projr (fst (collect ''worker'' w)))
          (projr (fst (collect ''budget'' b))))" by (simp add: system_route_def Let_def)
    from promise_all_Inr [OF Inr] have "\<forall>x \<in> set ?rs. \<not> isl x" by auto
    then have "\<not> isl (fst (collect ''queues'' q))" "\<not> isl (fst (collect ''worker'' w))" "\<not> isl (fst (collect ''budget'' b))"
      by (auto simp: map_sum_def split: sum.splits)
    then show ?thesis unfolding s
      by (cases "fst (collect ''queues'' q)"; cases "fst (collect ''worker'' w)"; cases "fst (collect ''budget'' b)") simp_all
  qed
qed

text \<open>The public page: 200 exactly when both dependencies answered in time, in the shape of the contract.\<close>

lemma health_route_truthful:
  "fst (health_route (createHealthProbes db redis)) = (if answered db \<and> answered redis then 200 else 503)"
  "accepts HealthResponseSchema (snd (health_route report))"
  by (auto simp: health_route_def createHealthProbes_def health_probe_def answered_def HEALTH_STATUS_CODES_def
      HealthResponseSchema_def Let_def split: sum.splits)

section \<open>What the counters hold\<close>

definition whole :: "jsnum \<Rightarrow> bool" where
  "whole x \<longleftrightarrow> is_integer x \<and> num_leq (Fin 0) x"

lemma whole_of_nat: "whole (Fin (of_nat n))"
  using is_int_rat_of_int [of "int n"] by (simp add: whole_def is_integer_def del: is_int_rat_of_int)

lemma whole_plus:
  assumes "whole a" and "whole b"
  shows "whole (num_plus a b)"
proof -
  from assms obtain x y where xy: "a = Fin x" "b = Fin y" "is_int_rat x" "is_int_rat y" "0 \<le> x" "0 \<le> y"
    by (cases a; cases b) (auto simp: whole_def is_integer_def num_leq_def)
  then have "is_int_rat (x + y)" by (metis is_int_rat_iff of_int_add)
  with xy show ?thesis by (simp add: whole_def is_integer_def num_plus_def)
qed

definition row_ok :: "queue_row \<Rightarrow> bool" where
  "row_ok r \<longleftrightarrow> qr_name r \<in> set QUEUE_NAMES \<and> whole (qr_waiting r) \<and> whole (qr_active r) \<and>
     whole (qr_failed r) \<and> whole (qr_delayed r)"

definition counts_whole :: "job_counts \<Rightarrow> bool" where
  "counts_whole counts \<longleftrightarrow> (\<forall>(k, v) \<in> set counts. \<exists>n. v = Num (Fin (of_nat n)))"

lemma count_of_whole: "counts_whole counts \<Longrightarrow> count_of counts k q = Inr x \<Longrightarrow> whole x"
  by (auto simp: count_of_def counts_whole_def whole_of_nat split: option.splits json.splits dest!: map_of_SomeD)

lemma queue_row_ok:
  "counts_whole counts \<Longrightarrow> n \<in> set QUEUE_NAMES \<Longrightarrow> queue_row_of n counts paused = Inr r \<Longrightarrow> row_ok r \<and> qr_name r = n"
  by (auto simp: queue_row_of_def row_ok_def split: sum.splits intro!: whole_plus intro: count_of_whole)

lemma row_accepted: "row_ok r \<Longrightarrow> accepts QueueStatusSchema (queue_row_json r)"
  by (auto simp: QueueStatusSchema_def queue_row_json_def row_ok_def whole_def)

lemma read_queues_ok:
  assumes "\<And>n counts paused. use n = Inr (counts, paused) \<Longrightarrow> counts_whole counts"
    and "read_queues order use = Inr snap"
  shows "map qr_name (qs_queues snap) = QUEUE_NAMES \<and> (\<forall>r \<in> set (qs_queues snap). row_ok r) \<and> whole (qs_dlq snap)"
proof -
  let ?f = "\<lambda>n. case use n of Inl e \<Rightarrow> Inl e | Inr (counts, paused) \<Rightarrow> queue_row_of n counts paused"
  from assms(2) obtain rows dlq where p: "promise_all order (map ?f QUEUE_NAMES) = Inr rows"
    and dlq: "List.find (\<lambda>row. qr_name row = DLQ_QUEUE) rows = Some dlq"
    and snap: "qs_queues snap = rows" "qs_dlq snap = qr_waiting dlq"
    by (auto simp: read_queues_def split: sum.splits option.splits)
  from promise_all_Inr [OF p] have rows: "map ?f QUEUE_NAMES = map Inr rows" .
  then have len: "length rows = length QUEUE_NAMES" by (metis length_map)
  have each: "row_ok (rows ! i) \<and> qr_name (rows ! i) = QUEUE_NAMES ! i" if "i < length QUEUE_NAMES" for i
  proof -
    from rows that len have "?f (QUEUE_NAMES ! i) = Inr (rows ! i)" by (metis (no_types, lifting) nth_map)
    then obtain counts paused where use: "use (QUEUE_NAMES ! i) = Inr (counts, paused)"
      and row: "queue_row_of (QUEUE_NAMES ! i) counts paused = Inr (rows ! i)" by (auto split: sum.splits prod.splits)
    from queue_row_ok [OF assms(1) [OF use] _ row] that show ?thesis by simp
  qed
  have "\<forall>r \<in> set rows. row_ok r" using each len by (auto simp: in_set_conv_nth)
  moreover have "map qr_name rows = QUEUE_NAMES" using each len by (intro nth_equalityI) auto
  moreover have "dlq \<in> set rows" using find_some_index(1) [OF dlq] by blast
  ultimately show ?thesis unfolding snap by (auto simp: row_ok_def)
qed

section \<open>Properties\<close>

text \<open>
  C15: the status page does not lie: it is a page or the defect that caused the failure, never a
  failure of a dependency; on a page a section is null exactly when it was not read in time, a
  dependency is up exactly when every section over it was read, and the reason told for Redis is
  the most definite one of its sections.
\<close>

theorem status_page_honest:
  "case system_route order bi up q w b of
     Inl e \<Rightarrow> dependencyFailureCode e = None \<and>
       (under_deadline q = Inl e \<or> under_deadline w = Inl e \<or> under_deadline b = Inl e)
   | Inr page \<Rightarrow>
       (jget page ''queues'' = Some Null \<longleftrightarrow> \<not> answered q) \<and> (jget page ''dlq'' = Some Null \<longleftrightarrow> \<not> answered q) \<and>
       (jget page ''worker'' = Some Null \<longleftrightarrow> \<not> answered w) \<and> (jget page ''budget'' = Some Null \<longleftrightarrow> \<not> answered b) \<and>
       (Option.bind (Option.bind (jget page ''checks'') (\<lambda>c. jget c ''redis'')) (\<lambda>c. jget c ''status'') = Some (Str ''up'') \<longleftrightarrow>
          answered q \<and> answered w) \<and>
       (Option.bind (Option.bind (jget page ''checks'') (\<lambda>c. jget c ''db'')) (\<lambda>c. jget c ''status'') = Some (Str ''up'') \<longleftrightarrow>
          answered b) \<and>
       Option.bind (Option.bind (jget page ''checks'') (\<lambda>c. jget c ''redis'')) (\<lambda>c. jget c ''reason'') =
         Some (case (reason_of q, reason_of w) of
                 (None, None) \<Rightarrow> Null
               | (Some r, None) \<Rightarrow> Str (probe_failure_name r)
               | (None, Some r) \<Rightarrow> Str (probe_failure_name r)
               | (Some r, Some r') \<Rightarrow>
                   Str (probe_failure_name (if REASON_CERTAINTY r' > REASON_CERTAINTY r then r' else r)))"
proof (cases "system_route order bi up q w b")
  case (Inl e)
  with system_route_cases [where order = order and bi = bi and up = up and q = q and w = w and b = b] show ?thesis by (auto dest: collect_defect)
next
  case (Inr page)
  with system_route_cases [where order = order and bi = bi and up = up and q = q and w = w and b = b] obtain cq cw cb where
    c: "fst (collect ''queues'' q) = Inr cq" "fst (collect ''worker'' w) = Inr cw" "fst (collect ''budget'' b) = Inr cb"
    and page: "page = status_page bi up cq cw cb" by auto
  have up: "(erase cq = Collected () \<longleftrightarrow> answered q)" "(erase cw = Collected () \<longleftrightarrow> answered w)"
    "(erase cb = Collected () \<longleftrightarrow> answered b)"
    by (rule collect_answered, rule c)+
  have null: "nullable (\<lambda>v. Arr (map queue_row_json (qs_queues v))) cq = Null \<longleftrightarrow> \<not> answered q"
    "nullable (\<lambda>v. Obj [(''size'', Num (qs_dlq v))]) cq = Null \<longleftrightarrow> \<not> answered q"
    "nullable worker_status cw = Null \<longleftrightarrow> \<not> answered w" "nullable Arr cb = Null \<longleftrightarrow> \<not> answered b"
    by (rule collect_null, rule c, simp add: worker_status_def)+
  have fields: "jget page ''queues'' = Some (nullable (\<lambda>v. Arr (map queue_row_json (qs_queues v))) cq)"
    "jget page ''dlq'' = Some (nullable (\<lambda>v. Obj [(''size'', Num (qs_dlq v))]) cq)"
    "jget page ''worker'' = Some (nullable worker_status cw)" "jget page ''budget'' = Some (nullable Arr cb)"
    "Option.bind (jget page ''checks'') (\<lambda>c. jget c ''redis'') = Some (dependencyCheck [erase cq, erase cw])"
    "Option.bind (jget page ''checks'') (\<lambda>c. jget c ''db'') = Some (dependencyCheck [erase cb])"
    unfolding page status_page_def by (simp_all add: jget_Obj_Cons)
  have reason: "jget (dependencyCheck [erase cq, erase cw]) ''reason'' =
      Some (case (reason_of q, reason_of w) of
                 (None, None) \<Rightarrow> Null
               | (Some r, None) \<Rightarrow> Str (probe_failure_name r)
               | (None, Some r) \<Rightarrow> Str (probe_failure_name r)
               | (Some r, Some r') \<Rightarrow>
                   Str (probe_failure_name (if REASON_CERTAINTY r' > REASON_CERTAINTY r then r' else r)))"
    unfolding collect_reason [OF c(1)] collect_reason [OF c(2)]
    by (simp add: dependencyCheck_def jget_def split: option.splits)
  show ?thesis unfolding Inr sum.case fields bind.simps reason by (simp add: null up dependencyCheck_up)
qed

text \<open>
  Whatever the parts answer, the page meets the contract it is sent under: with a build info of
  the contract and counters that are whole numbers, what the queue counters, the heartbeat of the
  worker and the caps of the budget guard put on the page is accepted by the schema of the
  response.
\<close>

theorem status_page_conforms:
  assumes "accepts BuildInfoSchema bi" and "0 \<le> up"
    and "\<And>n counts paused. use n = Inr (counts, paused) \<Longrightarrow> counts_whole counts"
  shows "case system_route order bi up (if lateQ then None else Some (read_queues order' use))
        (if lateW then None else Some (worker_read date_parse now get))
        (if lateB then None else Some (fst (readCaps db limits wd))) of
     Inl e \<Rightarrow> dependencyFailureCode e = None
   | Inr page \<Rightarrow> accepts SystemStatusResponseSchema page"
proof -
  let ?q = "if lateQ then None else Some (read_queues order' use)"
  let ?w = "if lateW then None else Some (worker_read date_parse now get)"
  let ?b = "if lateB then None else Some (fst (readCaps db limits wd))"
  show ?thesis
  proof (cases "system_route order bi up ?q ?w ?b")
    case (Inl e)
    with system_route_cases [where order = order and bi = bi and up = up and q = ?q and w = ?w and b = ?b] show ?thesis by (auto dest: collect_defect)
  next
    case (Inr page)
    with system_route_cases [where order = order and bi = bi and up = up and q = ?q and w = ?w and b = ?b] obtain cq cw cb where
      c: "fst (collect ''queues'' ?q) = Inr cq" "fst (collect ''worker'' ?w) = Inr cw" "fst (collect ''budget'' ?b) = Inr cb"
      and page: "page = status_page bi up cq cw cb" by auto
    have read: "Inr (Collected v) = fst (collect nm work) \<Longrightarrow> work = Some (Inr v)" for v nm and work :: "(thrown + 'x) option"
      by (auto simp: collect_cases under_deadline_eq split: sum.splits option.splits)
    have q: "accepts (ZNullable (ZArray QueueStatusSchema)) (nullable (\<lambda>v. Arr (map queue_row_json (qs_queues v))) cq)"
      "accepts (ZNullable DlqStatusSchema) (nullable (\<lambda>v. Obj [(''size'', Num (qs_dlq v))]) cq)"
    proof -
      have snap: "row_ok r" "whole (qs_dlq v)" if "cq = Collected v" "r \<in> set (qs_queues v)" for v r
        using read [of v "''queues''" ?q] read_queues_ok [of use order' v, OF assms(3)] c(1) that
        by (auto split: if_splits)
      have dlq: "whole (qs_dlq v)" if "cq = Collected v" for v
        using read [of v "''queues''" ?q] read_queues_ok [of use order' v, OF assms(3)] c(1) that
        by (auto split: if_splits)
      show "accepts (ZNullable (ZArray QueueStatusSchema)) (nullable (\<lambda>v. Arr (map queue_row_json (qs_queues v))) cq)"
        using snap(1) row_accepted by (cases cq) (auto simp: nullable_def list_all_iff)
      show "accepts (ZNullable DlqStatusSchema) (nullable (\<lambda>v. Obj [(''size'', Num (qs_dlq v))]) cq)"
        using dlq by (cases cq) (auto simp: nullable_def DlqStatusSchema_def whole_def)
    qed
    have w: "accepts (ZNullable WorkerStatusSchema) (nullable worker_status cw)"
      by (cases cw) (simp_all add: nullable_def)
    have b: "accepts (ZNullable (ZArray BudgetStatusSchema)) (nullable Arr cb)"
      using read [of _ "''budget''" ?b] readCaps_rows [of db limits wd] c(3)
      by (cases cb) (auto simp: nullable_def split: if_splits)
    have up: "accepts (ZNumber [IsInt, NonNegative]) (Num (Fin (of_int \<lfloor>up\<rfloor>)))"
      using assms(2) by (simp add: is_integer_def)
    have checks: "accepts SystemChecksSchema (Obj [(''redis'', dependencyCheck rs), (''db'', dependencyCheck rs')])" for rs rs'
      by (simp add: SystemChecksSchema_def dependencyCheck_accepted)
    show ?thesis
      unfolding Inr sum.case page status_page_def SystemStatusResponseSchema_def
      using assms(1) q w b up checks by (simp del: accepts.simps(1-10,12-))
  qed
qed

definition sample_counts :: job_counts where
  "sample_counts = map (\<lambda>k. (k, Num (Fin 2))) [''wait'', ''paused'', ''active'', ''failed'', ''delayed'']"

theorem status_page_conforms_witness:
  "case system_route [] (Obj [(''version'', Null), (''commit'', Str ''abc'')]) 12
      (if False then None else Some (read_queues [] (\<lambda>_. Inr (sample_counts, False))))
      (if True then None else Some (worker_read (\<lambda>_. None) None (\<lambda>_. Inr None)))
      (if True then None else Some (fst (readCaps gw_select sample_limits sample_world))) of
     Inl e \<Rightarrow> False
   | Inr page \<Rightarrow> accepts SystemStatusResponseSchema page"
proof -
  have whole: "counts_whole sample_counts"
    unfolding counts_whole_def sample_counts_def by (auto intro: exI [of _ 2])
  have bi: "accepts BuildInfoSchema (Obj [(''version'', Null), (''commit'', Str ''abc'')])"
    by (simp add: BuildInfoSchema_def)
  have read: "\<not> isl (system_route [] (Obj [(''version'', Null), (''commit'', Str ''abc'')]) 12
      (if False then None else Some (read_queues [] (\<lambda>_. Inr (sample_counts, False))))
      (if True then None else Some (worker_read (\<lambda>_. None) None (\<lambda>_. Inr None)))
      (if True then None else Some (fst (readCaps gw_select sample_limits sample_world))))"
    by code_simp
  from status_page_conforms [OF bi, where up = 12 and order = "[]" and order' = "[]" and use = "\<lambda>_. Inr (sample_counts, False)"
      and lateQ = False and lateW = True and lateB = True and date_parse = "\<lambda>_. None" and now = None
      and get = "\<lambda>_. Inr None" and db = gw_select and limits = sample_limits and wd = sample_world] whole read
  show ?thesis by (cases "system_route [] (Obj [(''version'', Null), (''commit'', Str ''abc'')]) 12
      (if False then None else Some (read_queues [] (\<lambda>_. Inr (sample_counts, False))))
      (if True then None else Some (worker_read (\<lambda>_. None) None (\<lambda>_. Inr None)))
      (if True then None else Some (fst (readCaps gw_select sample_limits sample_world)))") auto
qed

end
