(* ===== verification/Define_Route.thy ===== *)
theory Define_Route
  imports System_Status Socket_Answer
begin

text \<open>
  The registration of routes (\<open>apps/api/src/lib/define-route.ts\<close>) and the two routes of the api:
  what a route may not say, the headers it may set, the responses it declares, and the one way
  a route gets onto the instance behind a registrar.
\<close>

section \<open>Responses\<close>

definition OK_STATUS :: nat where
  "OK_STATUS = 200"

text \<open>The keys of \<open>schema.response\<close>: an exact status or a class of them.\<close>

datatype response_key = Exact nat | Class4xx | Class5xx

type_synonym route_responses = "(response_key \<times> zod) list"

definition errorResponses :: route_responses where
  "errorResponses = [(Class4xx, ErrorBodySchema), (Class5xx, ErrorBodySchema)]"

definition withErrorEnvelope :: "zod \<Rightarrow> zod" where
  "withErrorEnvelope schema = ZUnion [schema, ErrorBodySchema]"

definition health_status :: "string \<Rightarrow> nat" where
  "health_status s = (case map_of HEALTH_STATUS_CODES s of Some n \<Rightarrow> n | None \<Rightarrow> 0)"

definition health_responses :: route_responses where
  "health_responses =
     errorResponses @
     [(Exact (health_status ''ok''), HealthResponseSchema),
      (Exact (health_status ''degraded''), withErrorEnvelope HealthResponseSchema)]"

definition system_responses :: route_responses where
  "system_responses = errorResponses @ [(Exact OK_STATUS, SystemStatusResponseSchema)]"

section \<open>What a route may not say\<close>

definition APP_OPTION :: string where
  "APP_OPTION = ''an option of the app, the error envelope rests on it''"

definition BODY_HOOK :: string where
  "BODY_HOOK = ''a hook that may rewrite the body, headers go in replyHeaders''"

definition REFUSED_OPTIONS :: "(string \<times> string) list" where
  "REFUSED_OPTIONS =
     [(''errorHandler'', APP_OPTION), (''serializerCompiler'', APP_OPTION), (''validatorCompiler'', APP_OPTION),
      (''schemaErrorFormatter'', APP_OPTION), (''attachValidation'', APP_OPTION),
      (''onSend'', BODY_HOOK), (''preSerialization'', BODY_HOOK)]"

definition REPLY_HEADERS :: "(string \<times> string list) list" where
  "REPLY_HEADERS = [(''cache-control'', [''no-store''])]"

text \<open>A value as it came in; \<open>None\<close> is \<open>undefined\<close>.\<close>

definition allowedHeader :: "string \<Rightarrow> json option \<Rightarrow> bool" where
  "allowedHeader name v =
     (case (map_of REPLY_HEADERS name, v) of
        (Some allowed, Some (Str s)) \<Rightarrow> List.member allowed s
      | _ \<Rightarrow> False)"

definition js_typeof :: "json option \<Rightarrow> string" where
  "js_typeof v =
     (case v of
        None \<Rightarrow> ''undefined''
      | Some (Bool _) \<Rightarrow> ''boolean''
      | Some (Num _) \<Rightarrow> ''number''
      | Some (Str _) \<Rightarrow> ''string''
      | _ \<Rightarrow> ''object'')"

section \<open>Registration\<close>

text \<open>
  A definition: its methods, its url, its responses, the headers of \<open>replyHeaders\<close>, and the other
  options by name.  A registrar and a config are objects, told apart by identity.
\<close>

record route_definition =
  rd_method :: "string list"
  rd_url :: string
  rd_responses :: route_responses
  rd_replyHeaders :: "(string \<times> json option) list"
  rd_options :: "string list"

record registered_route =
  rr_instance :: nat
  rr_method :: "string list"
  rr_url :: string
  rr_responses :: route_responses
  rr_headers :: "(string \<times> string) list"
  rr_options :: "string list"
  rr_config :: nat

text \<open>The two weak collections of the module and what the instances got.\<close>

record route_registry =
  rg_instances :: "(nat \<times> nat) list"
  rg_definedConfigs :: "nat list"
  rg_routes :: "registered_route list"
  rg_objects :: nat

definition isDefinedRoute :: "route_registry \<Rightarrow> nat option \<Rightarrow> bool" where
  "isDefinedRoute reg config = (case config of Some c \<Rightarrow> List.member (rg_definedConfigs reg) c | None \<Rightarrow> False)"

definition routeRegistrar :: "nat \<Rightarrow> route_registry \<Rightarrow> nat \<times> route_registry" where
  "routeRegistrar instance_id reg =
     (let registrar = rg_objects reg
      in (registrar, reg\<lparr>rg_instances := (registrar, instance_id) # rg_instances reg, rg_objects := Suc (rg_objects reg)\<rparr>))"

definition route_error :: "route_definition \<Rightarrow> string \<Rightarrow> thrown" where
  "route_error d message = plain_error (''route '' @ join CHR '','' (rd_method d) @ '' '' @ rd_url d @ '': '' @ message)"

definition refused_options :: "route_definition \<Rightarrow> string list" where
  "refused_options d =
     map (\<lambda>(key, reason). key @ '' ('' @ reason @ '')'') (filter (\<lambda>(key, reason). List.member (rd_options d) key) REFUSED_OPTIONS)"

definition foreign_headers :: "route_definition \<Rightarrow> string list" where
  "foreign_headers d =
     map (\<lambda>(name, v). name @ '': '' @ (case v of Some (Str s) \<Rightarrow> json_string s | _ \<Rightarrow> js_typeof v))
       (filter (\<lambda>(name, v). \<not> allowedHeader name v) (rd_replyHeaders d))"

definition string_headers :: "(string \<times> json option) list \<Rightarrow> (string \<times> string) list" where
  "string_headers given = List.map_filter (\<lambda>(name, v). case v of Some (Str s) \<Rightarrow> Some (name, s) | _ \<Rightarrow> None) given"

definition defineRoute :: "nat \<Rightarrow> route_definition \<Rightarrow> route_registry \<Rightarrow> (thrown + unit) \<times> route_registry" where
  "defineRoute registrar d reg =
     (case map_of (rg_instances reg) registrar of
        None \<Rightarrow> (Inl (route_error d
          ''not a registrar made by routeRegistrar - a route is registered on the context the app hands over''), reg)
      | Some inst \<Rightarrow>
          (if refused_options d \<noteq> []
           then (Inl (route_error d (''refused in a route - '' @ join_str ''; '' (refused_options d))), reg)
           else if foreign_headers d \<noteq> []
           then (Inl (route_error d (''reply headers a route does not set ('' @ join_str ''; '' (foreign_headers d) @
                  '') - only '' @ join_str ''; '' (map (\<lambda>(name, vs). name @ '': '' @ join_str '' | '' vs) REPLY_HEADERS))), reg)
           else
             (let config = rg_objects reg
              in (Inr (),
                  reg\<lparr>rg_objects := Suc (rg_objects reg),
                      rg_definedConfigs := config # rg_definedConfigs reg,
                      rg_routes := rg_routes reg @
                        [\<lparr>rr_instance = inst, rr_method = rd_method d, rr_url = rd_url d, rr_responses = rd_responses d,
                          rr_headers = string_headers (rd_replyHeaders d), rr_options = rd_options d,
                          rr_config = config\<rparr>]\<rparr>))))"

text \<open>\<open>onSend\<close> of a registered route: its headers, the body untouched.\<close>

definition route_on_send :: "registered_route \<Rightarrow> api_answer \<Rightarrow> api_answer" where
  "route_on_send rt a =
     a\<lparr>aa_headers := rr_headers rt @ filter (\<lambda>(k, v). k \<notin> fst ` set (rr_headers rt)) (aa_headers a)\<rparr>"

text \<open>The two routes.\<close>

definition health_definition :: route_definition where
  "health_definition =
     \<lparr>rd_method = [''GET''], rd_url = ''/health'', rd_responses = health_responses,
      rd_replyHeaders = [(''cache-control'', Some (Str ''no-store''))], rd_options = []\<rparr>"

definition system_definition :: route_definition where
  "system_definition =
     \<lparr>rd_method = [''GET''], rd_url = ''/system/status'', rd_responses = system_responses,
      rd_replyHeaders = [], rd_options = []\<rparr>"

definition registerRoutes :: "nat \<Rightarrow> route_registry \<Rightarrow> (thrown + unit) \<times> route_registry" where
  "registerRoutes registrar = io_bind (defineRoute registrar health_definition) (\<lambda>_. defineRoute registrar system_definition)"

section \<open>Lemmas\<close>

definition no_routes :: route_registry where
  "no_routes = \<lparr>rg_instances = [], rg_definedConfigs = [], rg_routes = [], rg_objects = 0\<rparr>"

datatype registry_event = MakeRegistrar nat | Define nat route_definition

definition registry_step :: "route_registry \<Rightarrow> registry_event \<Rightarrow> route_registry" where
  "registry_step reg e =
     (case e of
        MakeRegistrar i \<Rightarrow> snd (routeRegistrar i reg)
      | Define registrar d \<Rightarrow> snd (defineRoute registrar d reg))"

definition route_clean :: "registered_route \<Rightarrow> bool" where
  "route_clean rt \<longleftrightarrow>
     (\<forall>k \<in> set (rr_options rt). k \<notin> fst ` set REFUSED_OPTIONS) \<and>
     (\<forall>(name, v) \<in> set (rr_headers rt). \<exists>vs. map_of REPLY_HEADERS name = Some vs \<and> v \<in> set vs)"

definition registry_inv :: "route_registry \<Rightarrow> bool" where
  "registry_inv reg \<longleftrightarrow>
     (\<forall>rt \<in> set (rg_routes reg). route_clean rt) \<and>
     rg_definedConfigs reg = rev (map rr_config (rg_routes reg)) \<and> distinct (map rr_config (rg_routes reg)) \<and>
     (\<forall>rt \<in> set (rg_routes reg). rr_config rt < rg_objects reg \<and> rr_instance rt \<in> snd ` set (rg_instances reg)) \<and>
     (\<forall>(r, i) \<in> set (rg_instances reg). r < rg_objects reg)"

lemma refused_options_Nil: "refused_options d = [] \<Longrightarrow> k \<in> set (rd_options d) \<Longrightarrow> k \<notin> fst ` set REFUSED_OPTIONS"
  by (force simp: refused_options_def filter_empty_conv)

lemma foreign_headers_Nil:
  assumes "foreign_headers d = []" and "(name, v) \<in> set (string_headers (rd_replyHeaders d))"
  shows "\<exists>vs. map_of REPLY_HEADERS name = Some vs \<and> v \<in> set vs"
proof -
  from assms(2) have "(name, Some (Str v)) \<in> set (rd_replyHeaders d)"
    by (auto simp: string_headers_def map_filter_def split: option.splits json.splits)
  with assms(1) have "allowedHeader name (Some (Str v))" by (force simp: foreign_headers_def filter_empty_conv)
  then show ?thesis by (auto simp: allowedHeader_def split: option.splits)
qed

interpretation registry: event_machine registry_step registry_inv
proof unfold_locales
  fix reg e assume inv: "registry_inv reg"
  show "registry_inv (registry_step reg e)"
  proof (cases e)
    case (MakeRegistrar i)
    with inv show ?thesis
      by (fastforce simp: registry_step_def routeRegistrar_def registry_inv_def Let_def)
  next
    case (Define registrar d)
    show ?thesis
    proof (cases "map_of (rg_instances reg) registrar")
      case (Some inst)
      then have inst: "inst \<in> snd ` set (rg_instances reg)" by (force dest: map_of_SomeD)
      show ?thesis
      proof (cases "refused_options d = [] \<and> foreign_headers d = []")
        case True
        then have clean: "route_clean \<lparr>rr_instance = inst, rr_method = rd_method d, rr_url = rd_url d,
            rr_responses = rd_responses d, rr_headers = string_headers (rd_replyHeaders d), rr_options = rd_options d,
            rr_config = rg_objects reg\<rparr>"
          using refused_options_Nil foreign_headers_Nil by (auto simp: route_clean_def)
        from True Some Define inv inst clean show ?thesis
          by (auto simp: registry_step_def defineRoute_def registry_inv_def Let_def less_Suc_eq)
      qed (use Some Define inv in \<open>auto simp: registry_step_def defineRoute_def\<close>)
    qed (use Define inv in \<open>simp add: registry_step_def defineRoute_def\<close>)
  qed
qed

text \<open>
  The schema a status is serialized against: the one declared for it exactly, or that of its
  class - the rule of the server library.
\<close>

definition declared_for :: "route_responses \<Rightarrow> nat \<Rightarrow> zod option" where
  "declared_for rs status =
     (case map_of rs (Exact status) of
        Some s \<Rightarrow> Some s
      | None \<Rightarrow> (if 400 \<le> status \<and> status < 500 then map_of rs Class4xx
                 else if 500 \<le> status \<and> status < 600 then map_of rs Class5xx else None))"

section \<open>Properties\<close>

text \<open>
  Whatever modules register, in whatever order, a registered route has come through the
  helper: it carries none of the refused options, sets no header but those of the table with one of
  their values, sits on an instance a registrar was made for, and its config - and no other - is
  known as that of a defined route; a refused definition registers nothing.
\<close>

theorem registered_routes_are_defined:
  "let reg = foldl registry_step no_routes es in
     list_all route_clean (rg_routes reg) \<and>
     list_all (\<lambda>rt. isDefinedRoute reg (Some (rr_config rt)) \<and> rr_instance rt \<in> snd ` set (rg_instances reg)) (rg_routes reg) \<and>
     length (rg_definedConfigs reg) = length (rg_routes reg) \<and> distinct (rg_definedConfigs reg) \<and>
     (case defineRoute registrar d reg of
        (Inl e, reg') \<Rightarrow> reg' = reg
      | (Inr _, reg') \<Rightarrow> map rr_url (rg_routes reg') = map rr_url (rg_routes reg) @ [rd_url d])"
proof -
  define reg where "reg = foldl registry_step no_routes es"
  have inv: "registry_inv reg"
    unfolding reg_def by (rule registry.run_inv) (simp add: registry_inv_def no_routes_def)
  have "case defineRoute registrar d reg of (Inl e, reg') \<Rightarrow> reg' = reg
      | (Inr _, reg') \<Rightarrow> map rr_url (rg_routes reg') = map rr_url (rg_routes reg) @ [rd_url d]"
    by (simp add: defineRoute_def Let_def split: option.splits)
  with inv show ?thesis
    unfolding reg_def [symmetric] Let_def by (auto simp: registry_inv_def isDefinedRoute_def list_all_iff)
qed

text \<open>
  Every answer of the two routes fits the schema it is serialized against: whatever was thrown,
  the envelope of the failure is accepted by what the route declares for the status of the failure -
  also on the statuses a route answers with a body of its own - and so are the two health answers.
\<close>

theorem answers_fit_declared_schemas:
  "list_all (\<lambda>rs. case declared_for rs (me_status (mapError parse validationIssues isSerializationError err)) of
        Some s \<Rightarrow> accepts s (errorBodyOf (mapError parse validationIssues isSerializationError err) (c # requestId))
      | None \<Rightarrow> False) [health_responses, system_responses] \<and>
   (case declared_for health_responses (fst (health_route report)) of
      Some s \<Rightarrow> accepts s (snd (health_route report))
    | None \<Rightarrow> False)"
proof
  let ?m = "mapError parse validationIssues isSerializationError err"
  have range: "400 \<le> me_status ?m" "me_status ?m < 600" using mapError_ok [of parse validationIssues isSerializationError err]
    by (simp_all add: mapped_ok_def)
  have body: "accepts ErrorBodySchema (errorBodyOf ?m (c # requestId))" by (simp add: errorBodyOf_accepted)
  show "list_all (\<lambda>rs. case declared_for rs (me_status ?m) of
        Some s \<Rightarrow> accepts s (errorBodyOf ?m (c # requestId)) | None \<Rightarrow> False) [health_responses, system_responses]"
    using range body
    by (simp add: declared_for_def health_responses_def system_responses_def errorResponses_def withErrorEnvelope_def
        health_status_def HEALTH_STATUS_CODES_def OK_STATUS_def)
  show "case declared_for health_responses (fst (health_route report)) of
      Some s \<Rightarrow> accepts s (snd (health_route report)) | None \<Rightarrow> False"
    by (auto simp: declared_for_def health_responses_def errorResponses_def withErrorEnvelope_def health_status_def
        HEALTH_STATUS_CODES_def health_route_def HealthResponseSchema_def Let_def)
qed

end
