(* ===== verification/Error_Serializer.thy ===== *)
theory Error_Serializer
  imports Redact_Walk Js_Text
begin

text \<open>
  The \<open>err\<close> serializer of every logger and the options of a logger (\<open>packages/runtime/src/logger.ts\<close>):
  the whitelist of fields an error is written with, applied to the error, to the links of its
  \<open>cause\<close> and to the members of its \<open>errors\<close>, over a store in which errors may be shared or may
  contain themselves.
\<close>

section \<open>Fields\<close>

definition REDACTED_LOG_PATHS :: "string list" where
  "REDACTED_LOG_PATHS =
     [''req.headers.authorization'', ''req.headers.cookie'', ''res.headers['' @ CHR 39 # ''set-cookie'' @ CHR 39 # '']'',
      ''command.args'', ''err.command.args'', ''*.command.args'']"

definition OWN_RULE_KEYS :: "string list" where
  "OWN_RULE_KEYS = [''err'']"

definition MAX_ERROR_DEPTH :: nat where
  "MAX_ERROR_DEPTH = 8"

definition SCALAR_ERROR_FIELDS :: "string list" where
  "SCALAR_ERROR_FIELDS =
     [''code'', ''errno'', ''syscall'', ''address'', ''port'', ''httpStatus'', ''statusCode'']"

text \<open>
  What the serializer reads of an object besides its properties by name: the name of the function
  that built it (empty where there is none) and what it carries under \<open>LOGGED_DETAILS\<close>.
\<close>

record object_marks =
  om_constructor :: "nat \<Rightarrow> string"
  om_loggedDetails :: "nat \<Rightarrow> details"

definition isScalar :: "js_value \<Rightarrow> json option" where
  "isScalar v =
     (case v of
        JPrim (Str s) \<Rightarrow> Some (Str s)
      | JPrim (Num x) \<Rightarrow> Some (Num x)
      | JPrim (Bool b) \<Rightarrow> Some (Bool b)
      | _ \<Rightarrow> None)"

definition text_of :: "js_store \<Rightarrow> nat \<Rightarrow> string \<Rightarrow> string option" where
  "text_of h r k = (case js_field h r k of JPrim (Str s) \<Rightarrow> Some s | _ \<Rightarrow> None)"

definition typeOf :: "object_marks \<Rightarrow> js_store \<Rightarrow> nat \<Rightarrow> string option" where
  "typeOf om h r = (if om_constructor om r \<noteq> [] then Some (om_constructor om r) else text_of h r ''name'')"

section \<open>The chain of causes\<close>

text \<open>\<open>n\<close> is how many links may still be listed.\<close>

fun causes_loop :: "js_store \<Rightarrow> nat \<Rightarrow> nat list \<Rightarrow> js_value \<Rightarrow> nat list" where
  "causes_loop h 0 seen current = []"
| "causes_loop h (Suc n) seen current =
     (case current of
        JPrim _ \<Rightarrow> []
      | JRef c \<Rightarrow>
          (if text_of h c ''message'' \<noteq> None \<and> \<not> List.member seen c
           then c # causes_loop h n (c # seen) (js_field h c ''cause'')
           else []))"

definition causesOf :: "js_store \<Rightarrow> nat \<Rightarrow> nat list" where
  "causesOf h r = causes_loop h MAX_ERROR_DEPTH [r] (js_field h r ''cause'')"

definition or_empty :: "string option \<Rightarrow> string" where
  "or_empty s = (case s of Some t \<Rightarrow> t | None \<Rightarrow> [])"

definition withCauses :: "js_store \<Rightarrow> nat \<Rightarrow> nat list \<Rightarrow> (string \<times> string option) list" where
  "withCauses h r chain =
     [(''message'', map_option
         (\<lambda>m. join_str '': '' (m # map (\<lambda>c. or_empty (text_of h c ''message'')) chain)) (text_of h r ''message'')),
      (''stack'', map_option
         (\<lambda>s. join_str (CHR 10 # ''caused by: '') (s # map (\<lambda>c. or_empty (text_of h c ''stack'')) chain))
         (text_of h r ''stack''))]"

section \<open>The walk below an error\<close>

text \<open>A serialized error; \<open>LogDetails\<close> is what was written under \<open>LOGGED_DETAILS\<close>.\<close>

datatype logged =
    LogScalar json
  | LogDetails json
  | LogObject "(string \<times> logged) list"
  | LogArray "logged list"

definition scalar_fields :: "js_store \<Rightarrow> nat \<Rightarrow> (string \<times> logged) list" where
  "scalar_fields h r =
     List.map_filter (\<lambda>k. map_option (\<lambda>v. (k, LogScalar v)) (isScalar (js_field h r k))) SCALAR_ERROR_FIELDS"

definition command_field :: "js_store \<Rightarrow> nat \<Rightarrow> (string \<times> logged) list" where
  "command_field h r =
     (case js_field h r ''command'' of
        JRef c \<Rightarrow>
          (case js_field h c ''name'' of
             JPrim (Str n) \<Rightarrow> [(''command'', LogObject [(''name'', LogScalar (Str n))])]
           | _ \<Rightarrow> [])
      | JPrim _ \<Rightarrow> [])"

definition base_fields :: "(string \<times> string option) list \<Rightarrow> (string \<times> logged) list" where
  "base_fields base = List.map_filter (\<lambda>(k, v). map_option (\<lambda>s. (k, LogScalar (Str s))) v) base"

definition error_items :: "js_store \<Rightarrow> nat \<Rightarrow> js_value list option" where
  "error_items h r =
     (case js_field h r ''errors'' of
        JRef a \<Rightarrow> (if o_kind (h a) = ArrayObject then Some (map snd (o_props (h a))) else None)
      | JPrim _ \<Rightarrow> None)"

text \<open>The set \<open>seen\<close> of the code is threaded through the walk in its order.\<close>

function pickFields :: "object_marks \<Rightarrow> js_store \<Rightarrow> nat list \<Rightarrow> nat \<Rightarrow> (string \<times> string option) list \<Rightarrow> nat \<Rightarrow> nat list \<Rightarrow>
      (string \<times> logged) list \<times> nat list"
  and nestedValue :: "object_marks \<Rightarrow> js_store \<Rightarrow> nat list \<Rightarrow> js_value \<Rightarrow> nat \<Rightarrow> nat list \<Rightarrow> logged option \<times> nat list"
  and nestedItems :: "object_marks \<Rightarrow> js_store \<Rightarrow> nat list \<Rightarrow> js_value list \<Rightarrow> nat \<Rightarrow> nat list \<Rightarrow> logged list \<times> nat list" where
  "pickFields om h stacked r base depth seen =
     (let (cause, seen1) = nestedValue om h stacked (js_field h r ''cause'') (Suc depth) seen;
          (errors, seen2) =
            (case error_items h r of
               None \<Rightarrow> (None, seen1)
             | Some items \<Rightarrow> (let (ls, s) = nestedItems om h stacked items (Suc depth) seen1 in (Some ls, s)))
      in (base_fields base @ scalar_fields h r @
          (case om_loggedDetails om r of None \<Rightarrow> [] | Some d \<Rightarrow> [(''details'', LogDetails d)]) @
          command_field h r @
          (case cause of None \<Rightarrow> [] | Some c \<Rightarrow> [(''cause'', c)]) @
          (case errors of None \<Rightarrow> [] | Some ls \<Rightarrow> [(''errors'', LogArray ls)]),
          seen2))"
| "nestedValue om h stacked v depth seen =
     (case v of
        JPrim p \<Rightarrow> (map_option LogScalar (isScalar v), seen)
      | JRef c \<Rightarrow>
          (if depth > MAX_ERROR_DEPTH \<or> List.member seen c then (None, seen)
           else
             (let (fs, seen') = pickFields om h stacked c
                     ([(''type'', typeOf om h c), (''message'', text_of h c ''message'')] @
                      (if List.member stacked c then [] else [(''stack'', text_of h c ''stack'')]))
                     depth (c # seen)
              in (Some (LogObject fs), seen'))))"
| "nestedItems om h stacked [] depth seen = ([], seen)"
| "nestedItems om h stacked (v # vs) depth seen =
     (let (l, seen1) = nestedValue om h stacked v depth seen;
          (ls, seen2) = nestedItems om h stacked vs depth seen1
      in ((case l of None \<Rightarrow> ls | Some x \<Rightarrow> x # ls), seen2))"
  by pat_completeness auto

termination
  by (relation "measures
      [\<lambda>x. case x of
             Inl (om, h, st, r, b, d, se) \<Rightarrow> 2 * (10 - d) + 1
           | Inr (Inl (om, h, st, v, d, se)) \<Rightarrow> (if d > 8 then 0 else 2 * (11 - d))
           | Inr (Inr (om, h, st, vs, d, se)) \<Rightarrow> (if d > 8 then 0 else 2 * (11 - d)),
       \<lambda>x. case x of
             Inl _ \<Rightarrow> 0
           | Inr (Inl _) \<Rightarrow> 0
           | Inr (Inr (om, h, st, vs, d, se)) \<Rightarrow> Suc (length vs)]")
    (auto simp: MAX_ERROR_DEPTH_def)

declare pickFields.simps [simp del] nestedValue.simps [simp del] nestedItems.simps(2) [simp del]

text \<open>What is no object is written as it is.\<close>

definition serializeError :: "object_marks \<Rightarrow> js_store \<Rightarrow> js_value \<Rightarrow> logged" where
  "serializeError om h err =
     (case err of
        JPrim p \<Rightarrow> LogScalar p
      | JRef r \<Rightarrow>
          (let chain = causesOf h r
           in LogObject (fst (pickFields om h chain r ((''type'', typeOf om h r) # withCauses h r chain) 0 [r]))))"

section \<open>The options of a logger\<close>

definition formatLogObject :: "js_store \<Rightarrow> nat \<Rightarrow> walked" where
  "formatLogObject h r = redactCommandArgs h r OWN_RULE_KEYS"

record logger_options =
  lo_level :: string
  lo_redact :: "string list"
  lo_pretty :: bool

definition buildLoggerOptions :: "string \<Rightarrow> string \<Rightarrow> logger_options" where
  "buildLoggerOptions nodeEnv logLevel =
     \<lparr>lo_level = logLevel, lo_redact = REDACTED_LOG_PATHS, lo_pretty = (nodeEnv = ''development'')\<rparr>"

section \<open>What is written\<close>

definition READ_FIELDS :: "string list" where
  "READ_FIELDS = [''name'', ''message'', ''stack'', ''cause'', ''errors'', ''command''] @ SCALAR_ERROR_FIELDS"

text \<open>Stores that agree on the fields of the whitelist, and on the members of arrays.\<close>

definition agree :: "js_store \<Rightarrow> js_store \<Rightarrow> bool" where
  "agree h h' \<longleftrightarrow>
     (\<forall>r. o_kind (h r) = o_kind (h' r) \<and>
        (\<forall>k \<in> set READ_FIELDS. js_field h r k = js_field h' r k) \<and>
        (o_kind (h r) = ArrayObject \<longrightarrow> map snd (o_props (h r)) = map snd (o_props (h' r))))"

lemma map_filter_cong: "(\<And>k. k \<in> set ks \<Longrightarrow> f k = g k) \<Longrightarrow> List.map_filter f ks = List.map_filter g ks"
  by (induction ks) (auto simp: List.map_filter_simps split: option.splits)

lemma agree_fields:
  assumes "agree h h'"
  shows "js_field h r ''cause'' = js_field h' r ''cause''" "js_field h r ''errors'' = js_field h' r ''errors''"
    "js_field h r ''command'' = js_field h' r ''command''" "js_field h r ''name'' = js_field h' r ''name''"
    "text_of h r ''message'' = text_of h' r ''message''" "text_of h r ''stack'' = text_of h' r ''stack''"
    "typeOf om h r = typeOf om h' r" "command_field h r = command_field h' r" "scalar_fields h r = scalar_fields h' r"
    "error_items h r = error_items h' r"
proof -
  have f: "k \<in> set READ_FIELDS \<Longrightarrow> js_field h r k = js_field h' r k" for r k using assms by (simp add: agree_def)
  have n: "''name'' \<in> set READ_FIELDS" "''message'' \<in> set READ_FIELDS" "''stack'' \<in> set READ_FIELDS"
    "''cause'' \<in> set READ_FIELDS" "''errors'' \<in> set READ_FIELDS" "''command'' \<in> set READ_FIELDS"
    by (simp_all add: READ_FIELDS_def)
  show "js_field h r ''cause'' = js_field h' r ''cause''" "js_field h r ''errors'' = js_field h' r ''errors''"
    "js_field h r ''command'' = js_field h' r ''command''" "js_field h r ''name'' = js_field h' r ''name''"
    by (rule f, rule n)+
  show "text_of h r ''message'' = text_of h' r ''message''" "text_of h r ''stack'' = text_of h' r ''stack''"
    "typeOf om h r = typeOf om h' r"
    by (simp_all add: text_of_def typeOf_def f n)
  have name: "js_field h c ''name'' = js_field h' c ''name''" for c by (rule f, rule n)
  have cmd: "js_field h r ''command'' = js_field h' r ''command''" by (rule f, rule n)
  show "command_field h r = command_field h' r" unfolding command_field_def name cmd by (rule refl)
  show "scalar_fields h r = scalar_fields h' r"
    unfolding scalar_fields_def by (rule map_filter_cong) (simp add: f READ_FIELDS_def)
  have e: "js_field h r ''errors'' = js_field h' r ''errors''" by (rule f, rule n)
  have a: "o_kind (h a) = o_kind (h' a)" "o_kind (h a) = ArrayObject \<Longrightarrow> map snd (o_props (h a)) = map snd (o_props (h' a))" for a
    using assms by (auto simp: agree_def)
  show "error_items h r = error_items h' r"
    by (cases "js_field h' r ''errors''") (simp_all add: error_items_def e a)
qed

lemma walk_agrees:
  "agree h h' \<Longrightarrow> pickFields om h stacked r base depth seen = pickFields om h' stacked r base depth seen"
  "agree h h' \<Longrightarrow> nestedValue om h stacked v depth seen = nestedValue om h' stacked v depth seen"
  "agree h h' \<Longrightarrow> nestedItems om h stacked vs depth seen = nestedItems om h' stacked vs depth seen"
proof (induction om h stacked r base depth seen and om h stacked v depth seen and om h stacked vs depth seen
    rule: pickFields_nestedValue_nestedItems.induct)
  case (1 om h stacked r base depth seen)
  note f = agree_fields [OF "1.prems", where r = r]
  obtain cause seen1 where c: "nestedValue om h stacked (js_field h r ''cause'') (Suc depth) seen = (cause, seen1)" by fastforce
  have c': "nestedValue om h' stacked (js_field h' r ''cause'') (Suc depth) seen = (cause, seen1)"
    using "1.IH"(1) [OF "1.prems"] c by (simp add: f)
  have i: "nestedItems om h stacked items (Suc depth) seen1 = nestedItems om h' stacked items (Suc depth) seen1"
    if "error_items h r = Some items" for items
    using "1.IH"(2) [OF c [symmetric] refl that "1.prems"] .
  show ?case
    unfolding pickFields.simps [of om h] pickFields.simps [of om h'] c c' Let_def prod.case
    using i by (cases "error_items h r") (simp_all add: f typeOf_def)
next
  case (2 om h stacked v depth seen)
  show ?case
  proof (cases v)
    case (JRef c)
    with 2 show ?thesis
      by (simp add: nestedValue.simps [of om h] nestedValue.simps [of om h'] agree_fields [OF "2.prems", where r = c])
  qed (simp add: nestedValue.simps)
next
  case (4 om h stacked v vs depth seen)
  obtain l seen1 where l: "nestedValue om h stacked v depth seen = (l, seen1)" by fastforce
  with "4.IH"(1) [OF "4.prems"] have l': "nestedValue om h' stacked v depth seen = (l, seen1)" by simp
  from "4.IH"(2) [OF refl l [symmetric] "4.prems"] l l' show ?case
    by (simp add: nestedItems.simps(2))
qed simp

lemma causes_agree:
  assumes "agree h h'"
  shows "causes_loop h n seen v = causes_loop h' n seen v"
proof (induction n arbitrary: seen v)
  case (Suc n)
  then show ?case by (cases v) (simp_all add: agree_fields [OF assms])
qed simp

text \<open>The keys of what is written.\<close>

definition WRITTEN_KEYS :: "string list" where
  "WRITTEN_KEYS = [''type'', ''message'', ''stack'', ''details'', ''command'', ''name'', ''cause'', ''errors''] @ SCALAR_ERROR_FIELDS"

fun keys_ok :: "logged \<Rightarrow> bool" where
  "keys_ok (LogScalar _) = True"
| "keys_ok (LogDetails _) = True"
| "keys_ok (LogObject kvs) = list_all (\<lambda>(k, v). List.member WRITTEN_KEYS k \<and> keys_ok v) kvs"
| "keys_ok (LogArray vs) = list_all keys_ok vs"

definition fields_ok :: "(string \<times> logged) list \<Rightarrow> bool" where
  "fields_ok kvs \<longleftrightarrow> (\<forall>(k, v) \<in> set kvs. k \<in> set WRITTEN_KEYS \<and> keys_ok v)"

lemma fields_ok_append [simp]: "fields_ok (xs @ ys) \<longleftrightarrow> fields_ok xs \<and> fields_ok ys"
  by (auto simp: fields_ok_def)

lemma fields_ok_object: "keys_ok (LogObject kvs) \<longleftrightarrow> fields_ok kvs"
  by (auto simp: fields_ok_def list_all_iff)

lemma fields_ok_Cons [simp]: "fields_ok ((k, v) # kvs) \<longleftrightarrow> k \<in> set WRITTEN_KEYS \<and> keys_ok v \<and> fields_ok kvs"
  by (simp add: fields_ok_def)

lemma fields_ok_Nil [simp]: "fields_ok []"
  by (simp add: fields_ok_def)

lemma own_fields_ok [simp]:
  "fields_ok (scalar_fields h r)" "fields_ok (command_field h r)"
  by (auto simp: fields_ok_def scalar_fields_def command_field_def map_filter_def WRITTEN_KEYS_def
      split: js_value.splits json.splits)

lemma base_fields_ok: "(\<And>k v. (k, v) \<in> set base \<Longrightarrow> k \<in> set WRITTEN_KEYS) \<Longrightarrow> fields_ok (base_fields base)"
  by (auto simp: fields_ok_def base_fields_def map_filter_def)

lemma walk_keys_ok:
  "(\<And>k v. (k, v) \<in> set base \<Longrightarrow> k \<in> set WRITTEN_KEYS) \<Longrightarrow> fields_ok (fst (pickFields om h stacked r base depth seen))"
  "case fst (nestedValue om h stacked v depth seen) of None \<Rightarrow> True | Some l \<Rightarrow> keys_ok l"
  "list_all keys_ok (fst (nestedItems om h stacked vs depth seen))"
proof (induction om h stacked r base depth seen and om h stacked v depth seen and om h stacked vs depth seen
    rule: pickFields_nestedValue_nestedItems.induct)
  case (1 om h stacked r base depth seen)
  obtain cause seen1 where c: "nestedValue om h stacked (js_field h r ''cause'') (Suc depth) seen = (cause, seen1)" by fastforce
  have keys: "''cause'' \<in> set WRITTEN_KEYS" "''errors'' \<in> set WRITTEN_KEYS" "''details'' \<in> set WRITTEN_KEYS"
    by (simp_all add: WRITTEN_KEYS_def)
  have cause: "fields_ok (case cause of None \<Rightarrow> [] | Some c \<Rightarrow> [(''cause'', c)])"
    using "1.IH"(1) c by (simp add: keys split: option.splits)
  have items: "list_all keys_ok (fst (nestedItems om h stacked items (Suc depth) seen1))" if "error_items h r = Some items" for items
    using "1.IH"(2) [OF c [symmetric] refl that] .
  have details: "fields_ok (case om_loggedDetails om r of None \<Rightarrow> [] | Some d \<Rightarrow> [(''details'', LogDetails d)])"
    by (simp add: keys split: option.splits)
  show ?case
    using base_fields_ok [of base, OF "1.prems"] cause items details
    by (cases "error_items h r") (simp_all add: pickFields.simps [of om h] c Let_def case_prod_beta keys)
next
  case (2 om h stacked v depth seen)
  show ?case
  proof (cases v)
    case (JPrim p)
    then show ?thesis by (simp add: nestedValue.simps split: option.splits)
  next
    case (JRef c)
    show ?thesis
    proof (cases "depth > MAX_ERROR_DEPTH \<or> List.member seen c")
      case False
      define base where "base = [(''type'', typeOf om h c), (''message'', text_of h c ''message'')] @
          (if List.member stacked c then [] else [(''stack'', text_of h c ''stack'')])"
      have keys: "k \<in> set WRITTEN_KEYS" if "(k, w) \<in> set base" for k w
        using that by (auto simp: base_def WRITTEN_KEYS_def split: if_splits)
      from "2.IH" [OF JRef False, folded base_def] keys
      have ok: "fields_ok (fst (pickFields om h stacked c base depth (c # seen)))" by blast
      have "nestedValue om h stacked v depth seen =
          (Some (LogObject (fst (pickFields om h stacked c base depth (c # seen)))), snd (pickFields om h stacked c base depth (c # seen)))"
        unfolding nestedValue.simps [of om h] JRef js_value.case if_not_P [OF False] base_def by (simp add: case_prod_beta Let_def)
      with ok show ?thesis by (simp add: fields_ok_object del: keys_ok.simps(3))
    qed (simp add: nestedValue.simps JRef)
  qed
next
  case (4 om h stacked v vs depth seen)
  then show ?case
    by (cases "nestedValue om h stacked v depth seen") (auto simp: nestedItems.simps(2) case_prod_beta Let_def split: option.splits)
qed simp

section \<open>Properties\<close>


text \<open>Two errors of a refused \<open>auth\<close>: their commands hold different passwords, and each is its own cause.\<close>

definition auth_error :: "string \<Rightarrow> js_store" where
  "auth_error password = (\<lambda>r.
     if r = 0 then \<lparr>o_kind = ErrorObject,
                    o_props = [(''command'', JRef 1), (''code'', JPrim (Str ''WRONGPASS''))],
                    o_hidden = [(''message'', JPrim (Str ''auth refused'')), (''cause'', JRef 0)]\<rparr>
     else if r = 1 then \<lparr>o_kind = PlainObject, o_props = [(''name'', JPrim (Str ''auth'')), (''args'', JPrim (Str password))], o_hidden = []\<rparr>
     else \<lparr>o_kind = PlainObject, o_props = [], o_hidden = []\<rparr>)"


end
