(* ===== verification/Config.thy ===== *)
theory Config
  imports Budget_Guard Js_Text Api_App
begin

text \<open>
  The configuration (\<open>packages/config/src\<close>): what a value of the environment is, the file that fills
  the environment, the schema with its defaults and bounds, the rule across fields, the limits, and
  \<open>REDIS_URL\<close> read alone for the healthcheck.

  \<open>process.env\<close> is a partial map.  The parser of an env file (\<open>node:util\<close>), the reading of files and
  the test whether a text is a url are parameters.
\<close>

section \<open>Values (\<open>env-file.ts\<close>)\<close>

type_synonym env_like = "string \<rightharpoonup> string"

definition VITEST_MARKER :: string where
  "VITEST_MARKER = ''true''"

definition isEnvValueSet :: "string option \<Rightarrow> bool" where
  "isEnvValueSet v = (case v of None \<Rightarrow> False | Some s \<Rightarrow> trim s \<noteq> [])"

definition normalizeEnvValue :: "string option \<Rightarrow> string option" where
  "normalizeEnvValue v = (if isEnvValueSet v then map_option trim v else None)"

text \<open>A failed read: the error, and whether it carries the \<open>syscall\<close> of a system error.\<close>

record read_failure =
  rf_error :: thrown
  rf_syscall :: bool

definition isFileNotFound :: "thrown \<Rightarrow> bool" where
  "isFileNotFound e = (instance_of e ErrorC \<and> err_code e = CodeString ''ENOENT'')"

definition readEnvFile :: "(string \<Rightarrow> read_failure + string) \<Rightarrow> string \<Rightarrow> read_failure + string option" where
  "readEnvFile readFileSync path =
     (case readFileSync path of
        Inr t \<Rightarrow> Inr (Some t)
      | Inl f \<Rightarrow> (if isFileNotFound (rf_error f) then Inr None else Inl f))"

definition mergeEnvFile :: "(string \<times> string) list \<Rightarrow> env_like \<Rightarrow> env_like" where
  "mergeEnvFile entries target =
     fold (\<lambda>(key, v) t. if isEnvValueSet (Some v) \<and> \<not> isEnvValueSet (t key) then t(key \<mapsto> v) else t) entries target"

definition overrideEnvFile :: "(string \<times> string) list \<Rightarrow> string list \<Rightarrow> env_like \<Rightarrow> env_like" where
  "overrideEnvFile entries ks target = fold (\<lambda>(key, v) t. t(key \<mapsto> v)) entries (fold (\<lambda>key t. t(key := None)) ks target)"

definition bootstrapEnv ::
  "(string \<Rightarrow> (string \<times> string) list) \<Rightarrow> (string \<Rightarrow> read_failure + string) \<Rightarrow> string \<Rightarrow> env_like \<Rightarrow> read_failure + env_like" where
  "bootstrapEnv parseEnv readFileSync path target =
     (if target ''VITEST'' = Some VITEST_MARKER then Inr target
      else case readEnvFile readFileSync path of
             Inl f \<Rightarrow> Inl f
           | Inr None \<Rightarrow> Inr target
           | Inr (Some t) \<Rightarrow> Inr (mergeEnvFile (parseEnv t) target))"

section \<open>The schema (\<open>schema.ts\<close>)\<close>

definition MAX_PORT :: rat where "MAX_PORT = 65535"
definition MAX_WORKER_CONCURRENCY :: rat where "MAX_WORKER_CONCURRENCY = 10"
definition YOUTUBE_DAILY_QUOTA_UNITS :: rat where "YOUTUBE_DAILY_QUOTA_UNITS = 10000"

definition HEX_32_BYTES :: "string \<Rightarrow> bool" where
  "HEX_32_BYTES s = (length s = 64 \<and> list_all (\<lambda>c. radix_digit 16 c \<noteq> None) s)"

definition BUILD_LABEL :: "string \<Rightarrow> bool" where
  "BUILD_LABEL s = (1 \<le> length s \<and> length s \<le> 64 \<and>
     list_all (\<lambda>c. is_word c \<or> c = CHR ''.'' \<or> c = CHR ''+'' \<or> c = CHR '':'' \<or> c = CHR ''-'') s)"

definition isBuildLabel :: "string \<Rightarrow> bool" where
  "isBuildLabel v = BUILD_LABEL v"

definition BUILD_LABEL_NAMES :: "string list" where
  "BUILD_LABEL_NAMES = [''APP_VERSION'', ''GIT_COMMIT'']"

text \<open>\<open>path.resolve\<close> of two texts, the first of them absolute.\<close>

definition path_step :: "string \<Rightarrow> string list \<Rightarrow> string list" where
  "path_step seg acc =
     (if seg = [] \<or> seg = ''.'' then acc else if seg = ''..'' then butlast acc else acc @ [seg])"

definition path_resolve :: "string \<Rightarrow> string \<Rightarrow> string" where
  "path_resolve rootDir dir = CHR ''/'' # join CHR ''/'' (fold path_step (split_on CHR ''/'' (rootDir @ CHR ''/'' # dir)) [])"

definition toAbsoluteMediaDir :: "string \<Rightarrow> string \<Rightarrow> string" where
  "toAbsoluteMediaDir repoRoot dir = (if starts_with ''/'' dir then dir else path_resolve repoRoot dir)"

text \<open>The rules a field is declared with.\<close>

datatype env_rule =
    EnumOr "string list" string
  | RequiredUrl
  | UrlOr string
  | OptionalUrl
  | MediaDirOr string
  | MinLength nat
  | OptionalHex
  | BuildLabel
  | CountOr rat rat
  | AmountOr rat
  | OptionalText

datatype env_value = EnvText string | EnvNumber jsnum | EnvAbsent

definition EnvSchema :: "(string \<times> env_rule) list" where
  "EnvSchema =
     [(''NODE_ENV'', EnumOr [''development'', ''test'', ''production''] ''production''),
      (''DATABASE_URL'', RequiredUrl),
      (''REDIS_URL'', RequiredUrl),
      (''MEDIA_DIR'', MediaDirOr ''./data/media''),
      (''ADMIN_PASSWORD'', MinLength 8),
      (''TOKEN_ENCRYPTION_KEY'', OptionalHex),
      (''APP_VERSION'', BuildLabel),
      (''GIT_COMMIT'', BuildLabel),
      (''API_PORT'', CountOr MAX_PORT 3001),
      (''WEB_PORT'', CountOr MAX_PORT 3000),
      (''API_INTERNAL_URL'', UrlOr ''http://localhost:3001''),
      (''LOG_LEVEL'', EnumOr [''fatal'', ''error'', ''warn'', ''info'', ''debug'', ''trace''] ''info''),
      (''WORKER_CONCURRENCY'', CountOr MAX_WORKER_CONCURRENCY 5),
      (''GOOGLE_CLIENT_ID'', OptionalText),
      (''GOOGLE_CLIENT_SECRET'', OptionalText),
      (''GOOGLE_OAUTH_REDIRECT_URL'', OptionalUrl),
      (''YOUTUBE_API_KEY'', OptionalText),
      (''YT_UNITS_DAILY_SOFT_CAP'', CountOr YOUTUBE_DAILY_QUOTA_UNITS 8000),
      (''GEMINI_API_KEY'', OptionalText),
      (''GEMINI_DAILY_BUDGET_USD'', AmountOr 5),
      (''ELEVENLABS_API_KEY'', OptionalText),
      (''OPENAI_API_KEY'', OptionalText),
      (''CARTESIA_API_KEY'', OptionalText),
      (''TTS_MONTHLY_BUDGET_USD'', AmountOr 50)]"

text \<open>
  The schema library parses.  What a rule means is written out here: the value a field gets from a
  text, \<open>None\<close> where the library has an issue with it.  The two transforms are the code's.
\<close>

definition count_ok :: "rat \<Rightarrow> jsnum \<Rightarrow> bool" where
  "count_ok mx x = (is_integer x \<and> num_less (Fin 0) x \<and> num_leq x (Fin mx))"

definition coerced :: "(jsnum \<Rightarrow> bool) \<Rightarrow> string \<Rightarrow> env_value option" where
  "coerced ok s = (let x = js_number s in if x \<noteq> NaN \<and> ok x then Some (EnvNumber x) else None)"

definition checked :: "(string \<Rightarrow> bool) \<Rightarrow> string \<Rightarrow> env_value option" where
  "checked ok s = (if ok s then Some (EnvText s) else None)"

definition buildLabel :: "string option \<Rightarrow> env_value" where
  "buildLabel v = (case v of None \<Rightarrow> EnvAbsent | Some s \<Rightarrow> (if isBuildLabel s then EnvText s else EnvAbsent))"

fun field_meaning :: "(string \<Rightarrow> bool) \<Rightarrow> string \<Rightarrow> env_rule \<Rightarrow> string option \<Rightarrow> env_value option" where
  "field_meaning is_url rootDir (EnumOr vs d) v =
     (case v of None \<Rightarrow> Some (EnvText d) | Some s \<Rightarrow> checked (List.member vs) s)"
| "field_meaning is_url rootDir RequiredUrl v = (case v of None \<Rightarrow> None | Some s \<Rightarrow> checked is_url s)"
| "field_meaning is_url rootDir (UrlOr d) v = (case v of None \<Rightarrow> Some (EnvText d) | Some s \<Rightarrow> checked is_url s)"
| "field_meaning is_url rootDir OptionalUrl v = (case v of None \<Rightarrow> Some EnvAbsent | Some s \<Rightarrow> checked is_url s)"
| "field_meaning is_url rootDir (MediaDirOr d) v =
     Some (EnvText (toAbsoluteMediaDir rootDir (case v of None \<Rightarrow> d | Some s \<Rightarrow> s)))"
| "field_meaning is_url rootDir (MinLength n) v =
     (case v of None \<Rightarrow> None | Some s \<Rightarrow> checked (\<lambda>s. n \<le> length s) s)"
| "field_meaning is_url rootDir OptionalHex v = (case v of None \<Rightarrow> Some EnvAbsent | Some s \<Rightarrow> checked HEX_32_BYTES s)"
| "field_meaning is_url rootDir BuildLabel v = Some (buildLabel v)"
| "field_meaning is_url rootDir (CountOr mx d) v =
     (case v of None \<Rightarrow> Some (EnvNumber (Fin d)) | Some s \<Rightarrow> coerced (count_ok mx) s)"
| "field_meaning is_url rootDir (AmountOr d) v =
     (case v of None \<Rightarrow> Some (EnvNumber (Fin d)) | Some s \<Rightarrow> coerced (num_less (Fin 0)) s)"
| "field_meaning is_url rootDir OptionalText v =
     (case v of None \<Rightarrow> Some EnvAbsent | Some s \<Rightarrow> Some (EnvText s))"

type_synonym config = "string \<rightharpoonup> env_value"

text \<open>
  The library's \<open>parse\<close> of an object with a rule across its fields, which adds the names it has an
  issue with, and its \<open>safeParse\<close> of one field.  What the code relies on: a parse answers the values
  of all the fields when none of them and not the rule across them has an issue; otherwise the
  issues name every field with an issue, and nothing but such fields and names of that rule.
\<close>

type_synonym env_parse = "(string \<times> env_rule) list \<Rightarrow> (config \<Rightarrow> string list) \<Rightarrow> env_like \<Rightarrow> string list + config"
type_synonym field_parse = "env_rule \<Rightarrow> string option \<Rightarrow> env_value option"

definition zod_env_contract :: "(string \<Rightarrow> bool) \<Rightarrow> string \<Rightarrow> env_parse \<Rightarrow> field_parse \<Rightarrow> bool" where
  "zod_env_contract is_url rootDir parse safeParse \<longleftrightarrow>
     (\<forall>rule v. safeParse rule v = field_meaning is_url rootDir rule v) \<and>
     (\<forall>shape across values. distinct (map fst shape) \<longrightarrow>
        (case parse shape across values of
           Inr cfg \<Rightarrow>
             (\<forall>(name, rule) \<in> set shape. \<exists>v. field_meaning is_url rootDir rule (values name) = Some v \<and> cfg name = Some v) \<and>
             across cfg = []
         | Inl names \<Rightarrow>
             names \<noteq> [] \<and>
             (\<forall>(name, rule) \<in> set shape. field_meaning is_url rootDir rule (values name) = None \<longrightarrow> name \<in> set names) \<and>
             (\<forall>name \<in> set names. (\<exists>rule. (name, rule) \<in> set shape \<and> field_meaning is_url rootDir rule (values name) = None) \<or>
                (\<exists>cfg. name \<in> set (across cfg)))))"

text \<open>A parser that meets the contract, for any url test.\<close>

definition plain_env_parse :: "(string \<Rightarrow> bool) \<Rightarrow> string \<Rightarrow> env_parse" where
  "plain_env_parse is_url rootDir shape across values =
     (let faults = map fst (filter (\<lambda>(name, rule). field_meaning is_url rootDir rule (values name) = None) shape);
          cfg = (\<lambda>name. Option.bind (map_of shape name) (\<lambda>rule. field_meaning is_url rootDir rule (values name)))
      in if faults \<noteq> [] then Inl faults else if across cfg \<noteq> [] then Inl (across cfg) else Inr cfg)"

lemma plain_env_contract: "zod_env_contract is_url rootDir (plain_env_parse is_url rootDir) (field_meaning is_url rootDir)"
  unfolding zod_env_contract_def
proof (intro conjI allI impI)
  fix shape :: "(string \<times> env_rule) list" and across :: "config \<Rightarrow> string list" and vals :: env_like
  assume d: "distinct (map fst shape)"
  let ?bad = "\<lambda>(name::string) rule. field_meaning is_url rootDir rule (vals name) = None"
  let ?faults = "map fst (filter (\<lambda>(name, rule). ?bad name rule) shape)"
  let ?cfg = "\<lambda>name. Option.bind (map_of shape name) (\<lambda>rule. field_meaning is_url rootDir rule (vals name))"
  have m: "map_of shape name = Some rule" if "(name, rule) \<in> set shape" for name rule
    using d that by simp
  have faults: "name \<in> set ?faults \<longleftrightarrow> (\<exists>rule. (name, rule) \<in> set shape \<and> ?bad name rule)" for name by force
  have ok: "\<forall>(name, rule) \<in> set shape. \<exists>v. field_meaning is_url rootDir rule (vals name) = Some v \<and> ?cfg name = Some v"
    if "?faults = []"
  proof (intro ballI, clarify)
    fix name rule assume mem: "(name, rule) \<in> set shape"
    with that have "\<not> ?bad name rule" by (simp add: filter_empty_conv) blast
    with m [OF mem] show "\<exists>v. field_meaning is_url rootDir rule (vals name) = Some v \<and> ?cfg name = Some v" by auto
  qed
  show "case plain_env_parse is_url rootDir shape across vals of
      Inr cfg \<Rightarrow>
        (\<forall>(name, rule) \<in> set shape. \<exists>v. field_meaning is_url rootDir rule (vals name) = Some v \<and> cfg name = Some v) \<and>
        across cfg = []
    | Inl names \<Rightarrow>
        names \<noteq> [] \<and>
        (\<forall>(name, rule) \<in> set shape. field_meaning is_url rootDir rule (vals name) = None \<longrightarrow> name \<in> set names) \<and>
        (\<forall>name \<in> set names. (\<exists>rule. (name, rule) \<in> set shape \<and> field_meaning is_url rootDir rule (vals name) = None) \<or>
           (\<exists>cfg. name \<in> set (across cfg)))"
  proof (cases "?faults = []")
    case False
    then have "plain_env_parse is_url rootDir shape across vals = Inl ?faults" by (simp add: plain_env_parse_def Let_def)
    with False faults show ?thesis by auto
  next
    case True
    have none: "\<not> ?bad name rule" if "(name, rule) \<in> set shape" for name rule using True faults that by (metis empty_iff empty_set)
    show ?thesis
    proof (cases "across ?cfg = []")
      case a: True
      with True have "plain_env_parse is_url rootDir shape across vals = Inr ?cfg" by (simp add: plain_env_parse_def Let_def)
      with ok [OF True] a show ?thesis by simp
    next
      case False
      with True have "plain_env_parse is_url rootDir shape across vals = Inl (across ?cfg)" by (simp add: plain_env_parse_def Let_def)
      with False none show ?thesis by fastforce
    qed
  qed
qed simp

section \<open>Loading (\<open>load-env.ts\<close>)\<close>

definition PRODUCTION_ADMIN_PASSWORD_MIN :: nat where
  "PRODUCTION_ADMIN_PASSWORD_MIN = 16"

definition normalizeValues :: "env_like \<Rightarrow> env_like" where
  "normalizeValues source = (\<lambda>key. normalizeEnvValue (source key))"

text \<open>The rule across fields: the names it has an issue with.\<close>

definition production_password :: "config \<Rightarrow> string list" where
  "production_password cfg =
     (if cfg ''NODE_ENV'' = Some (EnvText ''production'') \<and>
         (case cfg ''ADMIN_PASSWORD'' of Some (EnvText p) \<Rightarrow> length p < PRODUCTION_ADMIN_PASSWORD_MIN | _ \<Rightarrow> False)
      then [''ADMIN_PASSWORD''] else [])"

text \<open>The configuration, or the names of the fields at fault.\<close>

definition loadEnv :: "env_parse \<Rightarrow> env_like \<Rightarrow> string list + config" where
  "loadEnv parse source = parse EnvSchema production_password (normalizeValues source)"

definition rejectedBuildLabelsOf :: "env_like \<Rightarrow> string list" where
  "rejectedBuildLabelsOf source =
     (let values = normalizeValues source
      in filter (\<lambda>name. case values name of None \<Rightarrow> False | Some v \<Rightarrow> \<not> isBuildLabel v) BUILD_LABEL_NAMES)"

section \<open>Limits (\<open>limits.ts\<close>)\<close>

text \<open>
  The module \<open>index.ts\<close>: the environment is filled from the file, the keys of the schema are
  copied out of it once, and the configuration, the dropped labels and the limits are read from that
  copy.
\<close>

definition snapshot_of :: "env_like \<Rightarrow> env_like" where
  "snapshot_of target = (\<lambda>name. if name \<in> fst ` set EnvSchema then target name else None)"

definition number_of :: "config \<Rightarrow> string \<Rightarrow> jsnum" where
  "number_of cfg name = (case cfg name of Some (EnvNumber x) \<Rightarrow> x | _ \<Rightarrow> NaN)"

definition buildLimits :: "config \<Rightarrow> budget_limits" where
  "buildLimits cfg =
     \<lparr>youtubeUnitsDailySoftCap = number_of cfg ''YT_UNITS_DAILY_SOFT_CAP'',
      geminiDailyBudgetUsd = number_of cfg ''GEMINI_DAILY_BUDGET_USD'',
      ttsMonthlyBudgetUsd = number_of cfg ''TTS_MONTHLY_BUDGET_USD''\<rparr>"

record loaded_module =
  m_env :: config
  m_rejectedBuildLabels :: "string list"
  m_limits :: budget_limits

datatype load_failure = FileFailed read_failure | EnvRefused "string list"

definition config_module ::
  "(string \<Rightarrow> (string \<times> string) list) \<Rightarrow> (string \<Rightarrow> read_failure + string) \<Rightarrow> env_parse \<Rightarrow> string \<Rightarrow> env_like \<Rightarrow>
   load_failure + loaded_module" where
  "config_module parseEnv readFileSync parse path process_env =
     (case bootstrapEnv parseEnv readFileSync path process_env of
        Inl f \<Rightarrow> Inl (FileFailed f)
      | Inr filled \<Rightarrow>
          (case loadEnv parse (snapshot_of filled) of
             Inl names \<Rightarrow> Inl (EnvRefused names)
           | Inr cfg \<Rightarrow> Inr \<lparr>m_env = cfg, m_rejectedBuildLabels = rejectedBuildLabelsOf (snapshot_of filled),
                            m_limits = buildLimits cfg\<rparr>))"

section \<open>\<open>REDIS_URL\<close> alone (\<open>redis-url.ts\<close>)\<close>

datatype redis_url_refusal = Unset | Invalid | EnvFile string

definition SYSTEM_CODE :: "string \<Rightarrow> bool" where
  "SYSTEM_CODE s =
     (case s of [] \<Rightarrow> False
      | c # cs \<Rightarrow> c = CHR ''E'' \<and> 1 \<le> length cs \<and> length cs \<le> 31 \<and> list_all (\<lambda>d. is_upper d \<or> is_digit d) cs)"

definition systemCodeOf :: "read_failure \<Rightarrow> string" where
  "systemCodeOf f =
     (if instance_of (rf_error f) ErrorC \<and> rf_syscall f
      then (case err_code (rf_error f) of
              CodeString c \<Rightarrow> (if SYSTEM_CODE c then c else ''unknown'')
            | _ \<Rightarrow> ''unknown'')
      else ''unknown'')"

definition redis_url_refused :: "redis_url_refusal \<Rightarrow> thrown" where
  "redis_url_refused reason =
     JsError (OtherErrorC ''RedisUrlRefusedError'') ''RedisUrlRefusedError''
       (case reason of
          Unset \<Rightarrow> ''REDIS_URL is not set''
        | Invalid \<Rightarrow> ''REDIS_URL is not a valid url''
        | EnvFile c \<Rightarrow> ''.env is not readable ('' @ c @ '')'')
       NoCode None None None None []"

definition loadRedisUrl :: "field_parse \<Rightarrow> env_like \<Rightarrow> thrown + string" where
  "loadRedisUrl safeParse source =
     (let v = normalizeEnvValue (source ''REDIS_URL'')
      in case safeParse RequiredUrl v of
           Some (EnvText s) \<Rightarrow> Inr s
         | _ \<Rightarrow> Inl (redis_url_refused (if v = None then Unset else Invalid)))"

definition readRedisUrl ::
  "(string \<Rightarrow> (string \<times> string) list) \<Rightarrow> (string \<Rightarrow> read_failure + string) \<Rightarrow> field_parse \<Rightarrow> string \<Rightarrow> env_like \<Rightarrow>
   thrown + string" where
  "readRedisUrl parseEnv readFileSync safeParse path target =
     (case bootstrapEnv parseEnv readFileSync path target of
        Inl f \<Rightarrow> Inl (redis_url_refused (EnvFile (systemCodeOf f)))
      | Inr filled \<Rightarrow> loadRedisUrl safeParse filled)"

section \<open>Lemmas\<close>

lemma normalize_idem: "normalizeEnvValue (normalizeEnvValue v) = normalizeEnvValue v"
proof -
  have hd_not: "dropWhile is_space s = dropWhile is_space (dropWhile is_space s)" for s
    by (metis dropWhile_eq_Nil_conv dropWhile_eq_self_iff hd_dropWhile)
  have "trim (trim s) = trim s" for s
  proof -
    define a where "a = dropWhile is_space s"
    define b where "b = rev (dropWhile is_space (rev a))"
    have "dropWhile is_space b = b"
    proof (cases "b = []")
      case False
      have "a = [] \<or> \<not> is_space (hd a)" unfolding a_def using hd_dropWhile by blast
      moreover obtain u where "a = b @ u" unfolding b_def
        by (metis rev_append rev_rev_ident takeWhile_dropWhile_id)
      ultimately have "\<not> is_space (hd b)" using False by auto
      then show ?thesis by (simp add: dropWhile_eq_self_iff)
    qed simp
    moreover have "dropWhile is_space (rev b) = rev b" unfolding b_def rev_rev_ident by (rule hd_not [symmetric])
    ultimately show ?thesis by (simp add: trim_def a_def b_def)
  qed
  then show ?thesis by (cases v) (auto simp: normalizeEnvValue_def isEnvValueSet_def)
qed

lemma merge_keeps_set:
  assumes "isEnvValueSet (target k)"
  shows "mergeEnvFile entries target k = target k"
  unfolding mergeEnvFile_def using assms
  by (induction entries arbitrary: target) auto

lemma merge_fills:
  assumes "\<not> isEnvValueSet (target k)" and "distinct (map fst entries)"
  shows "mergeEnvFile entries target k =
    (case map_of entries k of Some v \<Rightarrow> (if isEnvValueSet (Some v) then Some v else target k) | None \<Rightarrow> target k)"
  using assms
proof (induction entries arbitrary: target)
  case Nil
  then show ?case by (simp add: mergeEnvFile_def)
next
  case (Cons e es)
  obtain key v where e: "e = (key, v)" by fastforce
  define t1 where "t1 = (if isEnvValueSet (Some v) \<and> \<not> isEnvValueSet (target key) then target(key \<mapsto> v) else target)"
  have step: "mergeEnvFile (e # es) target = mergeEnvFile es t1" by (simp add: mergeEnvFile_def e t1_def)
  show ?case
  proof (cases "isEnvValueSet (t1 k)")
    case True
    with Cons.prems show ?thesis unfolding step merge_keeps_set [of t1 k es, OF True]
      by (auto simp: t1_def e split: if_splits)
  next
    case False
    have "map_of es k = None" if "key = k" using Cons.prems(2) that e by (auto simp: map_of_eq_None_iff)
    with Cons.IH [of t1] Cons.prems False show ?thesis unfolding step
      by (auto simp: t1_def e split: if_splits option.splits)
  qed
qed

lemma schema_names: "distinct (map fst EnvSchema)"
  by (simp add: EnvSchema_def)

text \<open>A loaded configuration has, for every field, what the rule of the field made of its value.\<close>

lemma loadEnv_field:
  assumes "zod_env_contract is_url rootDir parse safeParse" and "loadEnv parse source = Inr cfg"
    and "(name, rule) \<in> set EnvSchema"
  shows "\<exists>v. field_meaning is_url rootDir rule (normalizeEnvValue (source name)) = Some v \<and> cfg name = Some v"
proof -
  from assms(1) schema_names have "case parse EnvSchema production_password (normalizeValues source) of
      Inr cfg \<Rightarrow> (\<forall>(name, rule) \<in> set EnvSchema.
        \<exists>v. field_meaning is_url rootDir rule (normalizeValues source name) = Some v \<and> cfg name = Some v)
    | Inl names \<Rightarrow> True"
    unfolding zod_env_contract_def by (fastforce split: sum.splits)
  with assms(2,3) show ?thesis by (auto simp: loadEnv_def normalizeValues_def)
qed

lemma loadEnv_password:
  assumes "zod_env_contract is_url rootDir parse safeParse" and "loadEnv parse source = Inr cfg"
  shows "production_password cfg = []"
proof -
  from assms(1) schema_names have "case parse EnvSchema production_password (normalizeValues source) of
      Inr cfg \<Rightarrow> production_password cfg = [] | Inl names \<Rightarrow> True"
    unfolding zod_env_contract_def by (fastforce split: sum.splits)
  with assms(2) show ?thesis by (simp add: loadEnv_def)
qed

text \<open>The names at fault hold a field exactly when its rule did not take its value.\<close>

lemma loadEnv_issue:
  assumes "zod_env_contract is_url rootDir parse safeParse" and "loadEnv parse source = Inl names"
    and "(name, rule) \<in> set EnvSchema" and "name \<noteq> ''ADMIN_PASSWORD''"
  shows "name \<in> set names \<longleftrightarrow> field_meaning is_url rootDir rule (normalizeEnvValue (source name)) = None"
proof -
  from assms(1) schema_names have c: "case parse EnvSchema production_password (normalizeValues source) of
      Inr cfg \<Rightarrow> True
    | Inl names \<Rightarrow>
        (\<forall>(name, rule) \<in> set EnvSchema. field_meaning is_url rootDir rule (normalizeValues source name) = None \<longrightarrow> name \<in> set names) \<and>
        (\<forall>name \<in> set names.
           (\<exists>rule. (name, rule) \<in> set EnvSchema \<and> field_meaning is_url rootDir rule (normalizeValues source name) = None) \<or>
           (\<exists>cfg. name \<in> set (production_password cfg)))"
    unfolding zod_env_contract_def by (fastforce split: sum.splits)
  have only: "rule' = rule" if "(name, rule') \<in> set EnvSchema" for rule'
    using schema_names that assms(3) by (rule eq_key_imp_eq_value)
  have no: "name \<notin> set (production_password cfg)" for cfg
    using assms(4) by (simp add: production_password_def)
  show ?thesis
  proof
    assume "name \<in> set names"
    with c assms(2) no only show "field_meaning is_url rootDir rule (normalizeEnvValue (source name)) = None"
      unfolding loadEnv_def normalizeValues_def by fastforce
  next
    assume "field_meaning is_url rootDir rule (normalizeEnvValue (source name)) = None"
    with c assms(2,3) show "name \<in> set names" unfolding loadEnv_def normalizeValues_def by fastforce
  qed
qed

lemma loadEnv_some_fault:
  assumes "zod_env_contract is_url rootDir parse safeParse" and "loadEnv parse source = Inl names"
  shows "names \<noteq> []"
proof -
  from assms(1) schema_names have "case parse EnvSchema production_password (normalizeValues source) of
      Inr cfg \<Rightarrow> True | Inl names \<Rightarrow> names \<noteq> []"
    unfolding zod_env_contract_def by (fastforce split: sum.splits)
  with assms(2) show ?thesis by (simp add: loadEnv_def)
qed

lemma number_field:
  assumes "zod_env_contract is_url rootDir parse safeParse" and "loadEnv parse source = Inr cfg"
  shows "(name, CountOr mx d) \<in> set EnvSchema \<Longrightarrow> count_ok mx (Fin d) \<Longrightarrow> \<exists>x. cfg name = Some (EnvNumber x) \<and> count_ok mx x"
    and "(name, AmountOr d) \<in> set EnvSchema \<Longrightarrow> 0 < d \<Longrightarrow> \<exists>x. cfg name = Some (EnvNumber x) \<and> num_less (Fin 0) x"
  using loadEnv_field [OF assms, of name "CountOr mx d"] loadEnv_field [OF assms, of name "AmountOr d"]
  by (auto simp: coerced_def Let_def split: option.splits if_splits)

text \<open>
  A budget written as \<open>Infinity\<close> passes the schema, and the state of a cap refuses it at every
  count.
\<close>

lemma infinite_budget_loads_and_is_refused:
  "field_meaning is_url rootDir (AmountOr d) (Some ''Infinity'') = Some (EnvNumber PosInf)"
  "isl (budgetState spent PosInf)"
proof -
  have "js_number ''Infinity'' = PosInf" by code_simp
  then show "field_meaning is_url rootDir (AmountOr d) (Some ''Infinity'') = Some (EnvNumber PosInf)"
    by (simp add: coerced_def)
  show "isl (budgetState spent PosInf)" by (simp add: budgetState_def is_finite_def)
qed

lemma snapshot_url: "snapshot_of t ''REDIS_URL'' = t ''REDIS_URL''"
  by (simp add: snapshot_of_def EnvSchema_def)

text \<open>An environment the service starts with, for the witnesses.\<close>

definition sample_env :: env_like where
  "sample_env = [''DATABASE_URL'' \<mapsto> ''postgres://db'', ''REDIS_URL'' \<mapsto> '' redis://r '', ''ADMIN_PASSWORD'' \<mapsto> ''0123456789abcdef'',
     ''WORKER_CONCURRENCY'' \<mapsto> ''7'', ''APP_VERSION'' \<mapsto> ''1.4.0 (x)'']"

section \<open>Properties\<close>



text \<open>
  The healthcheck, which reads one variable, and the worker, which reads them all, never disagree
  on it: where the configuration loads, the healthcheck has the same url; where the configuration is
  refused, the healthcheck is refused exactly when this variable is among the faults; and a file
  that cannot be read refuses both, the healthcheck with nothing of the failure but its system code.
\<close>

theorem healthcheck_reads_the_workers_url:
  assumes "zod_env_contract is_url repoRoot parse safeParse"
  shows "case config_module parseEnv readFileSync parse path process_env of
     Inr m \<Rightarrow>
       (case readRedisUrl parseEnv readFileSync safeParse path process_env of
          Inr u \<Rightarrow> m_env m ''REDIS_URL'' = Some (EnvText u) \<and> is_url u
        | Inl _ \<Rightarrow> False)
   | Inl (EnvRefused names) \<Rightarrow>
       isl (readRedisUrl parseEnv readFileSync safeParse path process_env) = (''REDIS_URL'' \<in> set names)
   | Inl (FileFailed f) \<Rightarrow>
       readRedisUrl parseEnv readFileSync safeParse path process_env = Inl (redis_url_refused (EnvFile (systemCodeOf f)))"
proof (cases "bootstrapEnv parseEnv readFileSync path process_env")
  case (Inl f)
  then show ?thesis by (simp add: config_module_def readRedisUrl_def)
next
  case (Inr filled)
  have rule: "(''REDIS_URL'', RequiredUrl) \<in> set EnvSchema" by (simp add: EnvSchema_def)
  have safe: "safeParse RequiredUrl v = field_meaning is_url repoRoot RequiredUrl v" for v
    using assms by (simp add: zod_env_contract_def)
  show ?thesis
  proof (cases "loadEnv parse (snapshot_of filled)")
    case (Inl names)
    then have m: "''REDIS_URL'' \<in> set names \<longleftrightarrow>
        field_meaning is_url repoRoot RequiredUrl (normalizeEnvValue (filled ''REDIS_URL'')) = None"
      using loadEnv_issue [OF assms Inl rule] by (simp add: snapshot_url)
    show ?thesis
      using Inl Inr m
      by (auto simp: config_module_def readRedisUrl_def loadRedisUrl_def Let_def safe checked_def
          split: option.splits if_splits)
  next
    case loaded: (Inr cfg)
    then show ?thesis
      using Inr loadEnv_field [OF assms loaded rule]
      by (auto simp: config_module_def readRedisUrl_def loadRedisUrl_def Let_def safe checked_def snapshot_url
          split: option.splits if_splits)
  qed
qed

theorem healthcheck_reads_the_workers_url_witness:
  "case config_module (\<lambda>_. [(''REDIS_URL'', ''redis://file'')]) (\<lambda>_. Inr []) (plain_env_parse (\<lambda>u. u \<noteq> []) ''/app'') ''/app/.env'' sample_env of
     Inr m \<Rightarrow>
       (case readRedisUrl (\<lambda>_. [(''REDIS_URL'', ''redis://file'')]) (\<lambda>_. Inr []) (field_meaning (\<lambda>u. u \<noteq> []) ''/app'') ''/app/.env'' sample_env of
          Inr u \<Rightarrow> m_env m ''REDIS_URL'' = Some (EnvText u)
        | Inl _ \<Rightarrow> False)
   | Inl e \<Rightarrow> False"
proof -
  let ?c = "config_module (\<lambda>_. [(''REDIS_URL'', ''redis://file'')]) (\<lambda>_. Inr []) (plain_env_parse (\<lambda>u. u \<noteq> []) ''/app'') ''/app/.env'' sample_env"
  have "\<not> isl ?c" by code_simp
  then obtain m where "?c = Inr m" by (cases ?c) auto
  with healthcheck_reads_the_workers_url [OF plain_env_contract, where is_url = "\<lambda>u. u \<noteq> []"
      and repoRoot = "''/app''" and parseEnv = "\<lambda>_. [(''REDIS_URL'', ''redis://file'')]" and readFileSync = "\<lambda>_. Inr []"
      and path = "''/app/.env''" and process_env = sample_env]
  show ?thesis by (auto split: sum.splits)
qed

end
