(* ===== verification/Healthcheck.thy ===== *)
theory Healthcheck
  imports Config Deadline Heartbeat
begin

text \<open>
  The container healthcheck of the worker (\<open>apps/worker/src/cli/healthcheck-run.ts\<close> and
  \<open>healthcheck.ts\<close>): the read of the stamp under its deadline, the reason in one line, and the
  process around it, which ends with that line and an exit code.

  What happens is a sequence of events of the race in \<open>Deadline\<close>: the answer of \<open>redis.get\<close> and the
  timer of the deadline; a sequence with neither leaves the process to its backstop.
\<close>

section \<open>The read and its verdict (\<open>healthcheck-run.ts\<close>)\<close>

definition HEALTHCHECK_DEADLINE_MS :: nat where
  "HEALTHCHECK_DEADLINE_MS = 5000"

definition HEALTHCHECK_BACKSTOP_MS :: nat where
  "HEALTHCHECK_BACKSTOP_MS = HEALTHCHECK_DEADLINE_MS + 500"

definition HEALTHCHECK_BACKSTOP_REASON :: string where
  "HEALTHCHECK_BACKSTOP_REASON =
     ''no verdict within '' @ show_nat HEALTHCHECK_BACKSTOP_MS @ '' ms, stuck outside the redis read''"

datatype stamp_read = Stamp "string option" | ReadFailed thrown | ReadTimeout

record healthcheck_verdict =
  healthy :: bool
  reason :: string

definition thrown_message :: "thrown \<Rightarrow> string" where
  "thrown_message e = (case e of JsError _ _ m _ _ _ _ _ _ \<Rightarrow> m | NonError s _ _ \<Rightarrow> s)"

definition stampReason ::
  "(string \<Rightarrow> int option) \<Rightarrow> string option \<Rightarrow> heartbeat_reading \<Rightarrow> int option \<Rightarrow> thrown + string" where
  "stampReason date_parse stamp reading now =
     (case stamp of
        None \<Rightarrow> Inr ''no heartbeat stamp in redis''
      | Some _ \<Rightarrow>
          (case heartbeatAt reading of
             None \<Rightarrow> Inr (''heartbeat stamp is not the worker'' @ CHR 39 # ''s format'')
           | Some stampAt \<Rightarrow>
               (if \<not> stale reading then Inr (''last heartbeat at '' @ stampAt)
                else case heartbeatOffsetSec date_parse stampAt now of
                       Inl e \<Rightarrow> Inl e
                     | Inr offsetSec \<Rightarrow>
                         (if offsetSec < 0
                          then Inr (''heartbeat at '' @ stampAt @ '' is '' @ show_int (- offsetSec) @
                                    '' s ahead of this clock, clocks disagree'')
                          else Inr (''last heartbeat '' @ show_int offsetSec @ '' s ago at '' @ stampAt @
                                    '', worker stopped writing'')))))"

text \<open>What \<open>get\<close> settled with, in either case a value of the race.\<close>

definition read_event :: "string option race_event \<Rightarrow> stamp_read race_event" where
  "read_event e =
     (case e of
        WorkSettled (Inr stamp) \<Rightarrow> WorkSettled (Inr (Stamp stamp))
      | WorkSettled (Inl error) \<Rightarrow> WorkSettled (Inr (ReadFailed error))
      | TimerFired \<Rightarrow> TimerFired)"

definition stamp_verdict ::
  "(string \<Rightarrow> int option) \<Rightarrow> string option \<Rightarrow> int option \<Rightarrow> thrown + healthcheck_verdict" where
  "stamp_verdict date_parse stamp now =
     (let reading = readHeartbeat date_parse stamp now
      in case stampReason date_parse stamp reading now of
           Inl e \<Rightarrow> Inl e
         | Inr r \<Rightarrow> Inr \<lparr>healthy = \<not> stale reading, reason = r\<rparr>)"

definition runHealthcheck ::
  "(string \<Rightarrow> int option) \<Rightarrow> int option \<Rightarrow> nat \<Rightarrow> string option race_event list \<Rightarrow>
   (thrown + healthcheck_verdict) option" where
  "runHealthcheck date_parse now deadlineMs es =
     (case settleWithin ReadTimeout (map read_event es) of
        None \<Rightarrow> None
      | Some (Inl e) \<Rightarrow> Some (Inl e)
      | Some (Inr ReadTimeout) \<Rightarrow>
          Some (Inr \<lparr>healthy = False, reason = ''no answer from redis within '' @ show_nat deadlineMs @ '' ms''\<rparr>)
      | Some (Inr (ReadFailed error)) \<Rightarrow>
          Some (Inr \<lparr>healthy = False, reason = ''redis unreachable: '' @ thrown_message error\<rparr>)
      | Some (Inr (Stamp stamp)) \<Rightarrow> Some (stamp_verdict date_parse stamp now))"

section \<open>The process (\<open>healthcheck.ts\<close>)\<close>

record healthcheck_end =
  printed :: string
  exit_code :: nat

definition finish :: "bool \<Rightarrow> string \<Rightarrow> healthcheck_end" where
  "finish ok why =
     \<lparr>printed = (if ok then ''healthy'' else ''unhealthy'') @ '': '' @ why @ [CHR 10],
      exit_code = (if ok then 0 else 1)\<rparr>"

text \<open>
  The url, then the read; a run that reaches no verdict ends with the backstop's.  A rejection of the
  top-level \<open>await\<close> ends the process with the runtime's code 1 and nothing on its standard output.
\<close>

definition healthcheck ::
  "(string \<Rightarrow> int option) \<Rightarrow> int option \<Rightarrow> thrown + string \<Rightarrow> string option race_event list \<Rightarrow> healthcheck_end" where
  "healthcheck date_parse now url es =
     (case url of
        Inl error \<Rightarrow>
          (if instance_of error (OtherErrorC ''RedisUrlRefusedError'')
           then finish False (thrown_message error)
           else finish False ''healthcheck failed before reaching redis'')
      | Inr _ \<Rightarrow>
          (case runHealthcheck date_parse now HEALTHCHECK_DEADLINE_MS es of
             None \<Rightarrow> finish False HEALTHCHECK_BACKSTOP_REASON
           | Some (Inl _) \<Rightarrow> \<lparr>printed = [], exit_code = 1\<rparr>
           | Some (Inr verdict) \<Rightarrow> finish (healthy verdict) (reason verdict)))"

section \<open>Lemmas\<close>

lemma settleWithin_first:
  "settleWithin fb es =
     (case es of [] \<Rightarrow> None | WorkSettled r # _ \<Rightarrow> Some r | TimerFired # _ \<Rightarrow> Some (Inr fb))"
  by (cases es) (auto simp: settleWithin_def race_run_Cons race_start_def split: race_event.splits)

text \<open>The offset of a stale accepted stamp is defined, and its sign is the side the stamp is off to.\<close>

lemma stale_offset:
  assumes "heartbeatAt (readHeartbeat date_parse stamp (Some now)) = Some s"
  shows "\<exists>w k. date_parse s = Some w \<and> heartbeatOffsetSec date_parse s (Some now) = Inr k \<and> (k < 0 \<longleftrightarrow> now < w)"
proof -
  from assms obtain w where w: "date_parse s = Some w" by (auto simp: heartbeat_accepted)
  obtain k where k: "offsetSecOf w (Some now) = Some k" by (simp add: offsetSecOf_def Let_def)
  then have "k = sgn (now - w) * ((\<bar>now - w\<bar> + 999) div 1000)" by (simp add: offsetSecOf_def Let_def)
  moreover have "0 < (\<bar>now - w\<bar> + 999) div 1000" if "now \<noteq> w" using that by (simp add: pos_imp_zdiv_pos_iff)
  ultimately have "k < 0 \<longleftrightarrow> now < w"
    by (cases "now - w" "0::int" rule: linorder_cases) (auto simp: mult_less_0_iff zero_le_mult_iff)
  with w k show ?thesis by (auto simp: heartbeatOffsetSec_def)
qed

lemma stamp_verdict_given:
  "\<exists>r. stamp_verdict date_parse stamp (Some now) =
     Inr \<lparr>healthy = \<not> stale (readHeartbeat date_parse stamp (Some now)), reason = r\<rparr>"
proof (cases "heartbeatAt (readHeartbeat date_parse stamp (Some now))")
  case None
  then show ?thesis by (auto simp: stamp_verdict_def stampReason_def Let_def split: option.splits)
next
  case (Some s)
  from stale_offset [OF this] Some show ?thesis
    by (auto simp: stamp_verdict_def stampReason_def Let_def split: option.splits)
qed

lemma fresh_stamp:
  "\<not> stale (readHeartbeat date_parse stamp (Some now)) \<longleftrightarrow>
     (\<exists>s w. stamp = Some s \<and> ISO_STAMP s \<and> date_parse s = Some w \<and> toISOString w = s \<and>
        \<bar>now - w\<bar> \<le> WORKER_HEARTBEAT_TTL_SEC * 1000)"
proof (cases "heartbeatAt (readHeartbeat date_parse stamp (Some now))")
  case None
  then show ?thesis by (auto simp: readHeartbeat_def split: option.splits if_splits)
next
  case (Some s)
  then obtain w where acc: "stamp = Some s" "ISO_STAMP s" "date_parse s = Some w" "toISOString w = s"
    by (auto simp: heartbeat_accepted)
  obtain k where k: "offsetSecOf w (Some now) = Some k" by (simp add: offsetSecOf_def Let_def)
  then have "stale (readHeartbeat date_parse stamp (Some now)) \<longleftrightarrow> WORKER_HEARTBEAT_TTL_SEC * 1000 < \<bar>now - w\<bar>"
    using acc offsetSecOf_bound [OF k] by (simp add: readHeartbeat_def)
  with acc show ?thesis by auto
qed

lemma finish_ends [simp]:
  "exit_code (finish ok why) = (if ok then 0 else 1)"
  "starts_with (if ok then ''healthy: '' else ''unhealthy: '') (printed (finish ok why))"
  "starts_with ''unhealthy: '' (printed (finish False why))"
  by (simp_all add: finish_def starts_with_def)

section \<open>Properties\<close>

text \<open>
  Whatever the environment and the answer of Redis, the healthcheck ends with one of the two
  codes and its word, and it ends with 0 exactly when the url was had, the answer came before the
  deadline, and it is the ISO form of an instant no further from the clock than the TTL - the
  very stamps the status page reads as a live worker.
\<close>

theorem healthcheck_exits_by_the_stamp:
  "let out = healthcheck date_parse (Some now) url es;
       fresh = (\<exists>u s w rest. url = Inr u \<and> es = WorkSettled (Inr (Some s)) # rest \<and> ISO_STAMP s \<and>
                  date_parse s = Some w \<and> toISOString w = s \<and> \<bar>now - w\<bar> \<le> WORKER_HEARTBEAT_TTL_SEC * 1000)
   in exit_code out = (if fresh then 0 else 1) \<and>
      starts_with (if fresh then ''healthy: '' else ''unhealthy: '') (printed out)"
proof (cases url)
  case (Inl e)
  then show ?thesis by (simp add: healthcheck_def Let_def)
next
  case url: (Inr u)
  show ?thesis
  proof (cases "\<exists>stamp rest. es = WorkSettled (Inr stamp) # rest")
    case True
    then obtain stamp rest where es: "es = WorkSettled (Inr stamp) # rest" by blast
    obtain r where "stamp_verdict date_parse stamp (Some now) =
        Inr \<lparr>healthy = \<not> stale (readHeartbeat date_parse stamp (Some now)), reason = r\<rparr>"
      using stamp_verdict_given by blast
    then have "healthcheck date_parse (Some now) url es =
        finish (\<not> stale (readHeartbeat date_parse stamp (Some now))) r"
      by (simp add: healthcheck_def url es runHealthcheck_def settleWithin_first read_event_def)
    then show ?thesis using url es by (simp add: Let_def fresh_stamp)
  next
    case False
    then have "\<exists>why. healthcheck date_parse (Some now) url es = finish False why"
      by (cases es) (auto simp: healthcheck_def url runHealthcheck_def settleWithin_first read_event_def
          split: race_event.splits sum.splits)
    with False show ?thesis by (auto simp: Let_def)
  qed
qed

text \<open>
  An unhealthy line sends the operator to the right place: of an accepted stamp that is too far
  off, it says that the clocks disagree exactly when the stamp is ahead of the clock, and that the
  worker stopped writing exactly when it is behind.
\<close>

theorem healthcheck_reason_tells_the_side:
  assumes "heartbeatAt (readHeartbeat date_parse (Some s) (Some now)) = Some s"
    and "stale (readHeartbeat date_parse (Some s) (Some now))"
  shows "\<exists>w k. date_parse s = Some w \<and> heartbeatOffsetSec date_parse s (Some now) = Inr k \<and>
    WORKER_HEARTBEAT_TTL_SEC < \<bar>k\<bar> \<and>
    printed (healthcheck date_parse (Some now) (Inr u) (WorkSettled (Inr (Some s)) # es)) =
      ''unhealthy: '' @
      (if now < w then ''heartbeat at '' @ s @ '' is '' @ show_int \<bar>k\<bar> @ '' s ahead of this clock, clocks disagree''
       else ''last heartbeat '' @ show_int \<bar>k\<bar> @ '' s ago at '' @ s @ '', worker stopped writing'') @ [CHR 10]"
proof -
  from stale_offset [OF assms(1)] obtain w k where k: "date_parse s = Some w"
    "heartbeatOffsetSec date_parse s (Some now) = Inr k" "k < 0 \<longleftrightarrow> now < w" by blast
  moreover from this(1,2) have "offsetSecOf w (Some now) = Some k"
    by (auto simp: heartbeatOffsetSec_def split: option.splits)
  then have "WORKER_HEARTBEAT_TTL_SEC < \<bar>k\<bar>"
    using assms k(1) by (auto simp: readHeartbeat_def split: if_splits)
  moreover have "printed (healthcheck date_parse (Some now) (Inr u) (WorkSettled (Inr (Some s)) # es)) =
      ''unhealthy: '' @
      (if now < w then ''heartbeat at '' @ s @ '' is '' @ show_int \<bar>k\<bar> @ '' s ahead of this clock, clocks disagree''
       else ''last heartbeat '' @ show_int \<bar>k\<bar> @ '' s ago at '' @ s @ '', worker stopped writing'') @ [CHR 10]"
    using assms k abs_of_neg [of k] abs_of_nonneg [of k]
    by (cases "now < w") (simp_all add: healthcheck_def runHealthcheck_def settleWithin_first read_event_def stamp_verdict_def
        stampReason_def Let_def finish_def)
  ultimately show ?thesis by blast
qed

theorem healthcheck_reason_tells_the_side_witness:
  "\<exists>(w::int) k. (\<lambda>_. Some 1767225600000) ''2026-01-01T00:00:00.000Z'' = Some w \<and>
    heartbeatOffsetSec (\<lambda>_. Some 1767225600000) ''2026-01-01T00:00:00.000Z'' (Some 1767225000000) = Inr k \<and>
    WORKER_HEARTBEAT_TTL_SEC < \<bar>k\<bar> \<and>
    printed (healthcheck (\<lambda>_. Some 1767225600000) (Some 1767225000000) (Inr ''redis://r'')
      (WorkSettled (Inr (Some ''2026-01-01T00:00:00.000Z'')) # [])) =
      ''unhealthy: '' @
      (if 1767225000000 < w
       then ''heartbeat at '' @ ''2026-01-01T00:00:00.000Z'' @ '' is '' @ show_int \<bar>k\<bar> @ '' s ahead of this clock, clocks disagree''
       else ''last heartbeat '' @ show_int \<bar>k\<bar> @ '' s ago at '' @ ''2026-01-01T00:00:00.000Z'' @ '', worker stopped writing'') @
      [CHR 10]"
proof -
  have "heartbeatAt (readHeartbeat (\<lambda>_. Some 1767225600000) (Some ''2026-01-01T00:00:00.000Z'') (Some 1767225000000)) =
      Some ''2026-01-01T00:00:00.000Z''" by code_simp
  moreover have "stale (readHeartbeat (\<lambda>_. Some 1767225600000) (Some ''2026-01-01T00:00:00.000Z'') (Some 1767225000000))"
    by code_simp
  ultimately show ?thesis by (rule healthcheck_reason_tells_the_side)
qed

end
