(* ===== verification/Basic_Auth.thy ===== *)
theory Basic_Auth
  imports Prelude Js_Text
begin

text \<open>
  HTTP Basic on both of its ends: the credentials the client of the api sends
  (\<open>basicCredentials\<close> of \<open>packages/api-client/src/client.ts\<close>) and the password the dashboard reads out
  of a header and compares (\<open>apps/web/src/lib/basic-auth.ts\<close>, \<open>apps/web/src/middleware.ts\<close>).

  A header is a string of ASCII; a password is a list of Unicode scalar values, as it is outside
  ASCII too.  The platform's \<open>TextEncoder\<close>, \<open>TextDecoder\<close>, \<open>btoa\<close> and \<open>atob\<close> are written out from the
  standard: UTF-8 and base64 over bytes.
\<close>

section \<open>UTF-8\<close>

type_synonym bytes = "nat list"
type_synonym utext = "nat list"

definition scalar_value :: "nat \<Rightarrow> bool" where
  "scalar_value c \<longleftrightarrow> c < 0xD800 \<or> (0xE000 \<le> c \<and> c < 0x110000)"

definition utf8_char :: "nat \<Rightarrow> bytes" where
  "utf8_char c =
     (if c < 0x80 then [c]
      else if c < 0x800 then [0xC0 + c div 64, 0x80 + c mod 64]
      else if c < 0x10000 then [0xE0 + c div 4096, 0x80 + c div 64 mod 64, 0x80 + c mod 64]
      else [0xF0 + c div 262144, 0x80 + c div 4096 mod 64, 0x80 + c div 64 mod 64, 0x80 + c mod 64])"

definition utf8_encode :: "utext \<Rightarrow> bytes" where
  "utf8_encode t = concat (map utf8_char t)"

definition continuation :: "nat \<Rightarrow> bool" where
  "continuation b \<longleftrightarrow> 0x80 \<le> b \<and> b < 0xC0"

text \<open>\<open>new TextDecoder("utf-8", { fatal: true })\<close>: every sequence that is no encoding is refused.\<close>

fun utf8_decode :: "bytes \<Rightarrow> utext option" where
  "utf8_decode [] = Some []"
| "utf8_decode (a # bs) =
     (if a < 0x80 then map_option ((#) a) (utf8_decode bs)
      else if 0xC2 \<le> a \<and> a < 0xE0 then
        (case bs of
           b # rest \<Rightarrow>
             (if continuation b then map_option ((#) ((a - 0xC0) * 64 + (b - 0x80))) (utf8_decode rest) else None)
         | _ \<Rightarrow> None)
      else if 0xE0 \<le> a \<and> a < 0xF0 then
        (case bs of
           b # c # rest \<Rightarrow>
             (let p = (a - 0xE0) * 4096 + (b - 0x80) * 64 + (c - 0x80)
              in if continuation b \<and> continuation c \<and> 0x800 \<le> p \<and> scalar_value p
                 then map_option ((#) p) (utf8_decode rest) else None)
         | _ \<Rightarrow> None)
      else if 0xF0 \<le> a \<and> a < 0xF5 then
        (case bs of
           b # c # d # rest \<Rightarrow>
             (let p = (a - 0xF0) * 262144 + (b - 0x80) * 4096 + (c - 0x80) * 64 + (d - 0x80)
              in if continuation b \<and> continuation c \<and> continuation d \<and> 0x10000 \<le> p \<and> p < 0x110000
                 then map_option ((#) p) (utf8_decode rest) else None)
         | _ \<Rightarrow> None)
      else None)"

text \<open>The decoder drops a byte order mark the text begins with.\<close>

definition strip_bom :: "utext \<Rightarrow> utext" where
  "strip_bom t = (case t of c # rest \<Rightarrow> (if c = 0xFEFF then rest else t) | [] \<Rightarrow> [])"

definition text_decode :: "bytes \<Rightarrow> utext option" where
  "text_decode bs = map_option strip_bom (utf8_decode bs)"

section \<open>Base64\<close>

definition BASE64 :: string where
  "BASE64 = ''ABCDEFGHIJKLMNOPQRSTUVWXYZabcdefghijklmnopqrstuvwxyz0123456789+/''"

definition base64_char :: "nat \<Rightarrow> char" where
  "base64_char n = BASE64 ! n"

text \<open>The six bits a character stands for.\<close>

definition base64_value :: "char \<Rightarrow> nat option" where
  "base64_value c =
     (let k = length (takeWhile (\<lambda>d. d \<noteq> c) BASE64) in if k < 64 then Some k else None)"

fun btoa :: "bytes \<Rightarrow> string" where
  "btoa [] = []"
| "btoa [a] = [base64_char (a div 4), base64_char (a mod 4 * 16), CHR ''='', CHR ''='']"
| "btoa [a, b] =
     [base64_char (a div 4), base64_char (a mod 4 * 16 + b div 16), base64_char (b mod 16 * 4), CHR ''='']"
| "btoa (a # b # c # rest) =
     base64_char (a div 4) # base64_char (a mod 4 * 16 + b div 16) #
     base64_char (b mod 16 * 4 + c div 64) # base64_char (c mod 64) # btoa rest"

fun sextets :: "string \<Rightarrow> nat list option" where
  "sextets [] = Some []"
| "sextets (c # cs) =
     (case base64_value c of
        None \<Rightarrow> None
      | Some v \<Rightarrow> map_option ((#) v) (sextets cs))"

fun bytes_of :: "nat list \<Rightarrow> bytes option" where
  "bytes_of [] = Some []"
| "bytes_of [_] = None"
| "bytes_of [w, x] = Some [w * 4 + x div 16]"
| "bytes_of [w, x, y] = Some [w * 4 + x div 16, x mod 16 * 16 + y div 4]"
| "bytes_of (w # x # y # z # rest) =
     map_option (\<lambda>bs. (w * 4 + x div 16) # (x mod 16 * 16 + y div 4) # (y mod 4 * 64 + z) # bs) (bytes_of rest)"

text \<open>Padding counts only where the length is a multiple of four; any other \<open>=\<close> is no character of the alphabet.\<close>

definition unpad :: "string \<Rightarrow> string" where
  "unpad s =
     (if length s mod 4 \<noteq> 0 then s
      else if drop (length s - 2) s = ''=='' then take (length s - 2) s
      else if drop (length s - 1) s = ''='' then take (length s - 1) s
      else s)"

definition atob :: "string \<Rightarrow> bytes option" where
  "atob s = Option.bind (sextets (unpad s)) bytes_of"

section \<open>The client's credentials (\<open>client.ts\<close>)\<close>

definition utext_of :: "string \<Rightarrow> utext" where
  "utext_of s = map of_char s"

definition AUTH_USERNAME :: string where
  "AUTH_USERNAME = ''admin''"

definition basicCredentials :: "utext \<Rightarrow> string" where
  "basicCredentials password =
     ''Basic '' @ btoa (utf8_encode (utext_of AUTH_USERNAME @ of_char CHR '':'' # password))"

section \<open>The password of a header (\<open>basic-auth.ts\<close>)\<close>

definition REALM :: string where
  "REALM = ''shorts-factory''"

definition is_blank :: "char \<Rightarrow> bool" where
  "is_blank c \<longleftrightarrow> c = CHR '' '' \<or> c = CHR 9"

text \<open>\<open>/^basic[ \t]+([^ \t]+)[ \t]*$/i\<close>: what the group holds.\<close>

definition BASIC_SCHEME :: "string \<Rightarrow> string option" where
  "BASIC_SCHEME s =
     (let rest = drop 5 s;
          token = takeWhile (\<lambda>c. \<not> is_blank c) (dropWhile is_blank rest);
          after = dropWhile (\<lambda>c. \<not> is_blank c) (dropWhile is_blank rest)
      in if lower (take 5 s) = ''basic'' \<and> rest \<noteq> [] \<and> is_blank (hd rest) \<and> token \<noteq> [] \<and>
            list_all is_blank after
         then Some token else None)"

text \<open>\<open>/^[A-Za-z0-9+/]+={0,2}$/\<close>.\<close>

definition BASE64_TOKEN :: "string \<Rightarrow> bool" where
  "BASE64_TOKEN s =
     (let letters = takeWhile (\<lambda>c. c \<in> set BASE64) s; pad = dropWhile (\<lambda>c. c \<in> set BASE64) s
      in letters \<noteq> [] \<and> (pad = [] \<or> pad = ''='' \<or> pad = ''==''))"

definition after_colon :: "utext \<Rightarrow> utext option" where
  "after_colon t =
     (case dropWhile (\<lambda>c. c \<noteq> of_char CHR '':'') t of [] \<Rightarrow> None | _ # rest \<Rightarrow> Some rest)"

definition parseBasicPassword :: "string option \<Rightarrow> utext option" where
  "parseBasicPassword header =
     (case header of
        None \<Rightarrow> None
      | Some h \<Rightarrow>
          (case BASIC_SCHEME (trim h) of
             None \<Rightarrow> None
           | Some token \<Rightarrow>
               (if \<not> BASE64_TOKEN token then None
                else case Option.bind (atob token) text_decode of
                       None \<Rightarrow> None
                     | Some decoded \<Rightarrow>
                         (case after_colon decoded of
                            None \<Rightarrow> None
                          | Some password \<Rightarrow> (if password = [] then None else Some password)))))"

text \<open>The comparison hashes both sides and compares the digests; the hash is a parameter.\<close>

definition passwordMatches :: "(bytes \<Rightarrow> bytes) \<Rightarrow> utext \<Rightarrow> utext \<Rightarrow> bool" where
  "passwordMatches digest candidate expected \<longleftrightarrow> digest (utf8_encode candidate) = digest (utf8_encode expected)"

definition PRIVATE_CACHE_HEADERS :: "(string \<times> string) list" where
  "PRIVATE_CACHE_HEADERS = [(''Cache-Control'', ''private, no-store'')]"

record web_answer =
  wa_status :: nat
  wa_headers :: "(string \<times> string) list"
  wa_body :: "string option"

definition unauthorized :: web_answer where
  "unauthorized =
     \<lparr>wa_status = 401,
      wa_headers = PRIVATE_CACHE_HEADERS @
        [(''Vary'', ''Authorization''),
         (''WWW-Authenticate'', ''Basic realm='' @ CHR 34 # REALM @ CHR 34 # '', charset='' @ CHR 34 # ''UTF-8'' @ [CHR 34]),
         (''Content-Type'', ''text/plain; charset=utf-8'')],
      wa_body = Some ''Unauthorized''\<rparr>"

section \<open>The middleware (\<open>middleware.ts\<close>)\<close>

text \<open>The paths that ask for no password: \<open>/((?!_next/static/|_next/image(?:/|$)|favicon\.ico$).*)\<close>.\<close>

definition guarded_path :: "string \<Rightarrow> bool" where
  "guarded_path path =
     (starts_with ''/'' path \<and>
      (let rest = tl path
       in \<not> (starts_with ''_next/static/'' rest \<or> rest = ''_next/image'' \<or> starts_with ''_next/image/'' rest \<or>
             rest = ''favicon.ico'')))"

text \<open>What is handed on is answered by the page, with the headers given here.\<close>

datatype middleware_outcome = Handed_on "(string \<times> string) list" | Answered web_answer

definition middleware :: "(bytes \<Rightarrow> bytes) \<Rightarrow> utext \<Rightarrow> string option \<Rightarrow> middleware_outcome" where
  "middleware digest ADMIN_PASSWORD authorization =
     (case parseBasicPassword authorization of
        None \<Rightarrow> Answered unauthorized
      | Some password \<Rightarrow>
          (if passwordMatches digest password ADMIN_PASSWORD then Handed_on PRIVATE_CACHE_HEADERS
           else Answered unauthorized))"

definition dashboard_request ::
  "(bytes \<Rightarrow> bytes) \<Rightarrow> utext \<Rightarrow> string \<Rightarrow> string option \<Rightarrow> middleware_outcome" where
  "dashboard_request digest ADMIN_PASSWORD path authorization =
     (if guarded_path path then middleware digest ADMIN_PASSWORD authorization else Handed_on [])"

section \<open>Base64 decodes what it encoded\<close>

definition byte :: "nat \<Rightarrow> bool" where
  "byte b \<longleftrightarrow> b < 256"

text \<open>The sextets of bytes, before their characters and the padding.\<close>

fun sextets_of :: "bytes \<Rightarrow> nat list" where
  "sextets_of [] = []"
| "sextets_of [a] = [a div 4, a mod 4 * 16]"
| "sextets_of [a, b] = [a div 4, a mod 4 * 16 + b div 16, b mod 16 * 4]"
| "sextets_of (a # b # c # rest) =
     a div 4 # (a mod 4 * 16 + b div 16) # (b mod 16 * 4 + c div 64) # (c mod 64) # sextets_of rest"

definition padding :: "bytes \<Rightarrow> nat" where
  "padding bs = (if length bs mod 3 = 1 then 2 else if length bs mod 3 = 2 then 1 else 0)"

lemma base64_char_table:
  "list_all (\<lambda>n. base64_value (base64_char n) = Some n \<and> base64_char n \<noteq> CHR ''='' \<and> base64_char n \<in> set BASE64 \<and>
     \<not> is_space (base64_char n) \<and> \<not> is_blank (base64_char n)) [0..<64]"
  by code_simp

lemma base64_char_ok:
  assumes "n < 64"
  shows "base64_value (base64_char n) = Some n" "base64_char n \<noteq> CHR ''=''" "base64_char n \<in> set BASE64"
    "\<not> is_space (base64_char n)" "\<not> is_blank (base64_char n)"
  using base64_char_table assms by (simp_all add: list_all_iff)

lemma btoa_sextets: "btoa bs = map base64_char (sextets_of bs) @ replicate (padding bs) (CHR ''='')"
  by (induction bs rule: sextets_of.induct) (simp_all add: padding_def numeral_2_eq_2)

lemma sextets_bounded: "list_all byte bs \<Longrightarrow> list_all (\<lambda>n. n < 64) (sextets_of bs)"
proof (induction bs rule: sextets_of.induct)
  case (2 a) then show ?case by (auto simp: byte_def)
next
  case (3 a b)
  then have "a < 256" "b < 256" by (simp_all add: byte_def)
  then have "a mod 4 < 4" "b div 16 < 16" by simp_all
  then have "a mod 4 * 16 + b div 16 < 64" by linarith
  with 3 show ?case by (auto simp: byte_def)
next
  case (4 a b c rest)
  then have "a < 256" "b < 256" "c < 256" by (simp_all add: byte_def)
  then have "a mod 4 < 4" "b div 16 < 16" "b mod 16 < 16" "c div 64 < 4" by simp_all
  then have "a mod 4 * 16 + b div 16 < 64" "b mod 16 * 4 + c div 64 < 64" by linarith+
  with 4 show ?case by (auto simp: byte_def)
qed simp

lemma sextets_length: "(length (sextets_of bs) + padding bs) mod 4 = 0"
proof (induction bs rule: sextets_of.induct)
  case (4 a b c rest)
  have "length (sextets_of (a # b # c # rest)) + padding (a # b # c # rest) = 4 + (length (sextets_of rest) + padding rest)"
    by (simp add: padding_def)
  with 4 show ?case by (metis mod_add_self1)
qed (simp_all add: padding_def)

lemma sextets_decode: "list_all (\<lambda>n. n < 64) vs \<Longrightarrow> sextets (map base64_char vs) = Some vs"
  by (induction vs) (simp_all add: base64_char_ok)

lemma bytes_of_sextets: "list_all byte bs \<Longrightarrow> bytes_of (sextets_of bs) = Some bs"
proof (induction bs rule: sextets_of.induct)
  case (2 a) then show ?case by (simp add: byte_def)
next
  case (3 a b)
  then have "(a mod 4 * 16 + b div 16) div 16 = a mod 4" "(a mod 4 * 16 + b div 16) mod 16 = b div 16"
    by (auto simp: byte_def)
  with 3 show ?case by (simp add: byte_def)
next
  case (4 a b c rest)
  then have "(a mod 4 * 16 + b div 16) div 16 = a mod 4" "(a mod 4 * 16 + b div 16) mod 16 = b div 16"
    "(b mod 16 * 4 + c div 64) div 4 = b mod 16" "(b mod 16 * 4 + c div 64) mod 4 = c div 64"
    by (auto simp: byte_def)
  with 4 show ?case by simp
qed simp

lemma unpad_padded:
  assumes vs: "list_all (\<lambda>n. n < 64) vs" and len: "(length vs + k) mod 4 = 0" and k: "k \<le> 2"
  shows "unpad (map base64_char vs @ replicate k (CHR ''='')) = map base64_char vs"
proof -
  have no: "CHR ''='' \<notin> set (map base64_char vs)"
  proof
    assume "CHR ''='' \<in> set (map base64_char vs)"
    then obtain n where "n \<in> set vs" "base64_char n = CHR ''=''" by auto
    with vs base64_char_ok(2) [of n] show False by (auto simp: list_all_iff)
  qed
  have no_drop: "drop m (map base64_char vs) \<noteq> CHR ''='' # xs" for m xs
    using no by (metis in_set_dropD list.set_intros(1))
  consider "k = 0" | "k = 1" | "k = 2" using k by linarith
  then show ?thesis
  proof cases
    case 1 then show ?thesis using len no_drop by (simp add: unpad_def)
  next
    case 2
    have "vs \<noteq> []" using len 2 by auto
    then obtain us u where us: "vs = us @ [u]" by (metis rev_exhaust)
    have "base64_char u \<noteq> CHR ''=''" using no us by auto
    with 2 len us show ?thesis by (simp add: unpad_def)
  next
    case 3
    then have "replicate k (CHR ''='') = ''==''" by (simp add: numeral_2_eq_2)
    with 3 len show ?thesis by (simp add: unpad_def)
  qed
qed

theorem base64_roundtrip: "list_all byte bs \<Longrightarrow> atob (btoa bs) = Some bs"
proof -
  assume b: "list_all byte bs"
  have "unpad (btoa bs) = map base64_char (sextets_of bs)"
    unfolding btoa_sextets using sextets_bounded [OF b] sextets_length [of bs]
    by (intro unpad_padded) (simp_all add: padding_def)
  then show ?thesis
    by (simp add: atob_def sextets_decode sextets_bounded [OF b] bytes_of_sextets [OF b])
qed

section \<open>UTF-8 decodes what it encoded\<close>

lemma split_64: "c div 64 * 64 + c mod 64 = (c::nat)" "c div 4096 * 4096 + c div 64 mod 64 * 64 + c mod 64 = c"
  "c div 262144 * 262144 + c div 4096 mod 64 * 4096 + c div 64 mod 64 * 64 + c mod 64 = c"
proof -
  have d: "c div 4096 = c div 64 div 64" "c div 262144 = c div 64 div 64 div 64" by (simp_all add: div_mult2_eq [symmetric])
  have m: "x div 64 * 64 + x mod 64 = x" for x :: nat by (rule div_mult_mod_eq)
  show "c div 64 * 64 + c mod 64 = c" by (rule m)
  show two: "c div 4096 * 4096 + c div 64 mod 64 * 64 + c mod 64 = c"
    using m [of c] m [of "c div 64"] unfolding d by linarith
  show "c div 262144 * 262144 + c div 4096 mod 64 * 4096 + c div 64 mod 64 * 64 + c mod 64 = c"
    using two m [of "c div 4096"] unfolding d by linarith
qed

lemma utf8_char_decode:
  assumes "scalar_value c"
  shows "utf8_decode (utf8_char c @ rest) = map_option ((#) c) (utf8_decode rest)"
proof -
  consider "c < 0x80" | "0x80 \<le> c" "c < 0x800" | "0x800 \<le> c" "c < 0x10000" | "0x10000 \<le> c" "c < 0x110000"
    using assms unfolding scalar_value_def by linarith
  then show ?thesis
  proof cases
    case 1 then show ?thesis by (simp add: utf8_char_def)
  next
    case 2
    then have "2 \<le> c div 64" "c div 64 < 32" by auto
    with 2 show ?thesis by (simp add: utf8_char_def continuation_def)
  next
    case 3
    then have "c div 4096 < 16" by auto
    with 3 assms split_64(2) [of c] show ?thesis by (simp add: utf8_char_def continuation_def Let_def)
  next
    case 4
    then have "c div 262144 < 5" by auto
    with 4 split_64(3) [of c] show ?thesis by (simp add: utf8_char_def continuation_def Let_def)
  qed
qed

theorem utf8_roundtrip: "list_all scalar_value t \<Longrightarrow> utf8_decode (utf8_encode t) = Some t"
  by (induction t) (simp_all add: utf8_encode_def utf8_char_decode)

lemma utf8_char_bytes: "scalar_value c \<Longrightarrow> list_all byte (utf8_char c)"
  by (auto simp: utf8_char_def scalar_value_def byte_def)

lemma utf8_encode_bytes: "list_all scalar_value t \<Longrightarrow> list_all byte (utf8_encode t)"
  by (induction t) (simp_all add: utf8_encode_def utf8_char_bytes)

section \<open>The header\<close>

definition token_char :: "char \<Rightarrow> bool" where
  "token_char c \<longleftrightarrow> \<not> is_space c \<and> \<not> is_blank c"

lemma btoa_chars: "list_all byte bs \<Longrightarrow> list_all token_char (btoa bs)"
  using sextets_bounded [of bs] base64_char_ok(4,5)
  by (auto simp: btoa_sextets list_all_iff token_char_def is_space_def is_blank_def)

lemma btoa_Nil: "btoa bs = [] \<longleftrightarrow> bs = []"
  by (induction bs rule: sextets_of.induct) simp_all

lemma btoa_token:
  assumes "list_all byte bs" and "bs \<noteq> []"
  shows "BASE64_TOKEN (btoa bs)"
proof -
  let ?l = "map base64_char (sextets_of bs)" and ?p = "replicate (padding bs) (CHR ''='')"
  have in_l: "c \<in> set BASE64" if "c \<in> set ?l" for c
    using that sextets_bounded [OF assms(1)] base64_char_ok(3) by (auto simp: list_all_iff)
  have eq: "CHR ''='' \<notin> set BASE64" by code_simp
  have "takeWhile (\<lambda>c. c \<in> set BASE64) (?l @ ?p) = ?l @ takeWhile (\<lambda>c. c \<in> set BASE64) ?p"
    by (rule takeWhile_append2) (rule in_l)
  moreover have "dropWhile (\<lambda>c. c \<in> set BASE64) (?l @ ?p) = dropWhile (\<lambda>c. c \<in> set BASE64) ?p"
    by (rule dropWhile_append2) (rule in_l)
  moreover have "takeWhile (\<lambda>c. c \<in> set BASE64) ?p = []" "dropWhile (\<lambda>c. c \<in> set BASE64) ?p = ?p"
    using eq by (cases "padding bs"; simp)+
  moreover have "?l \<noteq> []" using assms(2) by (cases bs rule: sextets_of.cases) auto
  moreover have "?p = [] \<or> ?p = ''='' \<or> ?p = ''==''" by (simp add: padding_def numeral_2_eq_2)
  ultimately show ?thesis unfolding BASE64_TOKEN_def btoa_sextets Let_def by simp
qed

lemma trim_token:
  assumes "list_all token_char t" and "t \<noteq> []"
  shows "trim (''Basic '' @ t) = ''Basic '' @ t"
proof -
  obtain u c where t: "t = u @ [c]" using assms(2) by (metis rev_exhaust)
  have c: "\<not> is_space c" using assms(1) by (simp add: t token_char_def)
  have B: "\<not> is_space (CHR ''B'')" by code_simp
  show ?thesis using c B by (simp add: trim_def t)
qed

lemma BASIC_SCHEME_token:
  assumes "list_all token_char t" and "t \<noteq> []"
  shows "BASIC_SCHEME (''Basic '' @ t) = Some t"
proof -
  have blank: "\<not> is_blank c" if "c \<in> set t" for c using assms(1) that by (simp add: list_all_iff token_char_def)
  have hd: "\<not> is_blank (hd t)" using blank assms(2) by simp
  have low: "lower ''Basic'' = ''basic''" "is_blank (CHR '' '')" by code_simp+
  have dw: "dropWhile is_blank (CHR '' '' # t) = t"
    using hd assms(2) by (cases t) (simp_all add: is_blank_def)
  have whole: "takeWhile (\<lambda>c. \<not> is_blank c) t = t" "dropWhile (\<lambda>c. \<not> is_blank c) t = []"
    using blank by (simp_all add: takeWhile_eq_all_conv dropWhile_eq_Nil_conv)
  have parts: "take 5 (''Basic '' @ t) = ''Basic''" "drop 5 (''Basic '' @ t) = CHR '' '' # t" by simp_all
  show ?thesis unfolding BASIC_SCHEME_def parts low(1) dw whole Let_def using assms(2) low(2) by simp
qed

lemma parse_of_bytes:
  assumes "list_all byte bs" and "bs \<noteq> []"
  shows "parseBasicPassword (Some (''Basic '' @ btoa bs)) =
    (case text_decode bs of
       None \<Rightarrow> None
     | Some t \<Rightarrow> (case after_colon t of None \<Rightarrow> None | Some p \<Rightarrow> (if p = [] then None else Some p)))"
proof -
  have tok: "list_all token_char (btoa bs)" "btoa bs \<noteq> []" using assms by (simp_all add: btoa_chars btoa_Nil)
  show ?thesis
    using assms btoa_token [OF assms] base64_roundtrip [OF assms(1)]
    by (simp add: parseBasicPassword_def trim_token [OF tok] BASIC_SCHEME_token [OF tok] del: append_Cons)
qed

section \<open>Properties\<close>

text \<open>
  C36: the header the client sends is read back as the password it was built from, for every password
  that is not empty, ASCII or not, with colons or not; so the dashboard lets the configured password
  in, and keeps the page from shared caches.
\<close>

theorem credentials_roundtrip:
  assumes "list_all scalar_value password" and "password \<noteq> []"
  shows "parseBasicPassword (Some (basicCredentials password)) = Some password \<and>
    middleware digest password (Some (basicCredentials password)) = Handed_on PRIVATE_CACHE_HEADERS"
proof -
  let ?t = "utext_of AUTH_USERNAME @ of_char CHR '':'' # password"
  have user: "utext_of AUTH_USERNAME = [97, 100, 109, 105, 110]" "(of_char CHR '':'' :: nat) = 58"
    by code_simp+
  have sv: "list_all scalar_value ?t" using assms(1) by (simp add: user scalar_value_def)
  have ne: "utf8_encode ?t \<noteq> []" by (simp add: user utf8_encode_def utf8_char_def)
  have "text_decode (utf8_encode ?t) = Some ?t"
    unfolding text_decode_def utf8_roundtrip [OF sv] by (simp add: strip_bom_def user)
  moreover have "after_colon ?t = Some password" by (simp add: after_colon_def user)
  ultimately have "parseBasicPassword (Some (basicCredentials password)) = Some password"
    unfolding basicCredentials_def parse_of_bytes [OF utf8_encode_bytes [OF sv] ne] using assms(2) by simp
  then show ?thesis by (simp add: middleware_def passwordMatches_def)
qed

theorem credentials_roundtrip_witness:
  "parseBasicPassword (Some (basicCredentials [112, 58, 0x43F, 0x1F511])) = Some [112, 58, 0x43F, 0x1F511] \<and>
   middleware (\<lambda>b. b) [112, 58, 0x43F, 0x1F511] (Some (basicCredentials [112, 58, 0x43F, 0x1F511])) =
     Handed_on PRIVATE_CACHE_HEADERS"
  by (rule credentials_roundtrip) (simp_all add: scalar_value_def)



end
