(* ===== verification/Api_Client.thy ===== *)
theory Api_Client
  imports Basic_Auth Contracts Api_Errors System_Status
begin

text \<open>
  The client of the api (\<open>packages/api-client/src/client.ts\<close>, \<open>errors.ts\<close>): one request, the bounded
  read of its answer and how an answer is told apart from a failure the api reported and from
  something that is not the api.

  A response is a status, headers and a body that arrives in chunks and may break.  The transport,
  the decoding of a body as JSON and the schema library are parameters.
\<close>

section \<open>Failures (\<open>errors.ts\<close>)\<close>

text \<open>A failure the api reported, an answer that is not the api's, or something else that was thrown.\<close>

datatype client_failure =
    ApiError (f_status: nat) (f_code: string) (f_message: string) (f_requestId: string) (f_details: details)
  | ApiContractError (c_message: string) (c_status: "nat option") (c_requestId: "string option")
      (c_cause: "thrown option")

section \<open>Requests and responses\<close>

record fetch_request =
  fr_url :: string
  fr_method :: string
  fr_headers :: "(string \<times> string) list"
  fr_redirect :: string
  fr_timeoutMs :: nat

text \<open>A body: the chunks that arrive and, when the stream breaks after them, what it breaks with.\<close>

record body_stream =
  bs_chunks :: "bytes list"
  bs_failure :: "thrown option"

record fetch_response =
  rs_status :: nat
  rs_headers :: "(string \<times> string) list"
  rs_body :: "body_stream option"

definition rs_ok :: "fetch_response \<Rightarrow> bool" where
  "rs_ok r \<longleftrightarrow> 200 \<le> rs_status r \<and> rs_status r < 300"

type_synonym fetch_like = "fetch_request \<Rightarrow> thrown + fetch_response"

section \<open>The client (\<open>client.ts\<close>)\<close>

definition DEFAULT_TIMEOUT_MS :: nat where "DEFAULT_TIMEOUT_MS = 5000"
definition MAX_BODY_BYTES :: nat where "MAX_BODY_BYTES = 65536"
definition CONTENT_LENGTH_HEADER :: string where "CONTENT_LENGTH_HEADER = ''content-length''"
definition MAX_REQUEST_ID_LENGTH :: nat where "MAX_REQUEST_ID_LENGTH = 128"

text \<open>\<open>/^[!-~]+$/\<close>.\<close>

definition REQUEST_ID_SHAPE :: "string \<Rightarrow> bool" where
  "REQUEST_ID_SHAPE s \<longleftrightarrow> s \<noteq> [] \<and> list_all (\<lambda>c. 33 \<le> (of_char c :: nat) \<and> (of_char c :: nat) \<le> 126) s"

record client_options =
  co_baseUrl :: string
  co_password :: utext
  co_timeoutMs :: "nat option"

record route_options =
  ro_authorized :: bool
  ro_answerStatuses :: "nat list"
  ro_agreesWithStatus :: "json \<Rightarrow> nat \<Rightarrow> bool"

datatype body_read = BodyRead bytes | BodyPast nat

text \<open>The read: the chunks are counted as they come, and the read stops at the limit.\<close>

fun read_chunks :: "nat \<Rightarrow> nat \<Rightarrow> bytes \<Rightarrow> bytes list \<Rightarrow> thrown option \<Rightarrow> thrown + body_read" where
  "read_chunks limit n acc [] failure = (case failure of None \<Rightarrow> Inr (BodyRead acc) | Some e \<Rightarrow> Inl e)"
| "read_chunks limit n acc (c # cs) failure =
     (if n + length c > limit then Inr (BodyPast (n + length c))
      else read_chunks limit (n + length c) (acc @ c) cs failure)"

definition readBounded :: "fetch_response \<Rightarrow> nat \<Rightarrow> thrown + body_read" where
  "readBounded response limit =
     (case rs_body response of
        None \<Rightarrow> Inr (BodyRead [])
      | Some s \<Rightarrow> read_chunks limit 0 [] (bs_chunks s) (bs_failure s))"

definition readRequestId :: "fetch_response \<Rightarrow> string option" where
  "readRequestId response =
     (case map_of (rs_headers response) REQUEST_ID_HEADER of
        None \<Rightarrow> None
      | Some v \<Rightarrow> (if length v > MAX_REQUEST_ID_LENGTH \<or> \<not> REQUEST_ID_SHAPE v then None else Some v))"

text \<open>\<open>replace(/\/+$/, "")\<close>.\<close>

definition base_of :: "string \<Rightarrow> string" where
  "base_of url = rev (dropWhile (\<lambda>c. c = CHR ''/'') (rev url))"

definition client_request :: "client_options \<Rightarrow> string \<Rightarrow> route_options \<Rightarrow> fetch_request" where
  "client_request options path route =
     \<lparr>fr_url = base_of (co_baseUrl options) @ path,
      fr_method = ''GET'',
      fr_headers = (''accept'', ''application/json'') #
        (if ro_authorized route then [(''authorization'', basicCredentials (co_password options))] else []),
      fr_redirect = ''error'',
      fr_timeoutMs = (case co_timeoutMs options of None \<Rightarrow> DEFAULT_TIMEOUT_MS | Some ms \<Rightarrow> ms)\<rparr>"

definition contract_error :: "string \<Rightarrow> fetch_response \<Rightarrow> thrown option \<Rightarrow> client_failure" where
  "contract_error message response cause = ApiContractError message (Some (rs_status response)) (readRequestId response) cause"

definition announced_length :: "fetch_response \<Rightarrow> jsnum" where
  "announced_length response =
     (case map_of (rs_headers response) CONTENT_LENGTH_HEADER of None \<Rightarrow> Fin 0 | Some s \<Rightarrow> js_number s)"

text \<open>The value of the library's refusal of a body that is not in the shape of its schema.\<close>

definition drift_cause :: "issue list \<Rightarrow> thrown" where
  "drift_cause issues = JsError ZodErrorC ''ZodError'' [] NoCode None None None None []"

definition api_error_of :: "nat \<Rightarrow> json \<Rightarrow> client_failure" where
  "api_error_of status body =
     (let e = (case jget body ''error'' of Some v \<Rightarrow> v | None \<Rightarrow> Null);
          text_field = (\<lambda>k. case jget e k of Some (Str s) \<Rightarrow> s | _ \<Rightarrow> [])
      in ApiError status (text_field ''code'') (text_field ''message'') (text_field ''requestId'') (jget e ''details''))"

text \<open>What an answer whose body is JSON is taken for.\<close>

definition classify_payload ::
  "zod_parse \<Rightarrow> string \<Rightarrow> zod \<Rightarrow> route_options \<Rightarrow> fetch_response \<Rightarrow> json \<Rightarrow> client_failure + json" where
  "classify_payload parse path schema route response payload =
     (let status = rs_status response;
          get = ''GET '' @ path @ '' answered '';
          failure = (case parse ErrorBodySchema payload of
              Inl _ \<Rightarrow> Inl (contract_error (get @ show_nat status @ '' outside the error contract'') response None)
            | Inr data \<Rightarrow> Inl (api_error_of status data))
      in if rs_ok response \<or> List.member (ro_answerStatuses route) status
         then (case parse schema payload of
                 Inr data \<Rightarrow>
                   (if ro_agreesWithStatus route data status then Inr data
                    else Inl (contract_error (get @ show_nat status @ '' with the body of another status'') response None))
               | Inl issues \<Rightarrow>
                   (if rs_ok response
                    then Inl (contract_error (get @ ''a body the contract does not describe'') response (Some (drift_cause issues)))
                    else failure))
         else failure)"

definition read_answer ::
  "zod_parse \<Rightarrow> (bytes \<Rightarrow> thrown + json) \<Rightarrow> string \<Rightarrow> zod \<Rightarrow> route_options \<Rightarrow> fetch_response \<Rightarrow> client_failure + json" where
  "read_answer parse json_parse path schema route response =
     (let status = rs_status response;
          announced = announced_length response;
          get = ''GET '' @ path @ '' answered ''
      in if is_finite announced \<and> num_less (Fin (of_nat MAX_BODY_BYTES)) announced
         then Inl (contract_error (get @ show_nat status @ '' with a body of '' @ show_num announced @ '' bytes'') response None)
         else case readBounded response MAX_BODY_BYTES of
                Inl cause \<Rightarrow> Inl (contract_error (get @ ''an unreadable body'') response (Some cause))
              | Inr (BodyPast _) \<Rightarrow>
                  Inl (contract_error (get @ show_nat status @ '' with a body past the size limit'') response None)
              | Inr (BodyRead t) \<Rightarrow>
                  (case json_parse t of
                     Inl cause \<Rightarrow> Inl (contract_error (get @ show_nat status @ '', not JSON'') response (Some cause))
                   | Inr payload \<Rightarrow> classify_payload parse path schema route response payload))"

definition client_call ::
  "zod_parse \<Rightarrow> (bytes \<Rightarrow> thrown + json) \<Rightarrow> fetch_like \<Rightarrow> client_options \<Rightarrow> string \<Rightarrow> zod \<Rightarrow> route_options \<Rightarrow> client_failure + json" where
  "client_call parse json_parse fetch options path schema route =
     (case fetch (client_request options path route) of
        Inl cause \<Rightarrow> Inl (ApiContractError (''GET '' @ path @ '' did not reach the API'') None None (Some cause))
      | Inr response \<Rightarrow> read_answer parse json_parse path schema route response)"

definition health_status_agrees :: "json \<Rightarrow> nat \<Rightarrow> bool" where
  "health_status_agrees v status =
     (case jget v ''status'' of Some (Str s) \<Rightarrow> map_of HEALTH_STATUS_CODES s = Some status | _ \<Rightarrow> False)"

definition health_options :: route_options where
  "health_options =
     \<lparr>ro_authorized = False, ro_answerStatuses = HEALTH_ANSWER_STATUSES, ro_agreesWithStatus = health_status_agrees\<rparr>"

definition status_options :: route_options where
  "status_options = \<lparr>ro_authorized = True, ro_answerStatuses = [], ro_agreesWithStatus = (\<lambda>_ _. True)\<rparr>"

definition client_health ::
  "zod_parse \<Rightarrow> (bytes \<Rightarrow> thrown + json) \<Rightarrow> fetch_like \<Rightarrow> client_options \<Rightarrow> client_failure + json" where
  "client_health parse json_parse fetch options =
     client_call parse json_parse fetch options ''/health'' HealthResponseSchema health_options"

definition client_systemStatus ::
  "zod_parse \<Rightarrow> (bytes \<Rightarrow> thrown + json) \<Rightarrow> fetch_like \<Rightarrow> client_options \<Rightarrow> client_failure + json" where
  "client_systemStatus parse json_parse fetch options =
     client_call parse json_parse fetch options ''/system/status'' SystemStatusResponseSchema status_options"

section \<open>Lemmas\<close>

lemma read_chunks_all:
  "n + length (concat cs) \<le> limit \<Longrightarrow>
     read_chunks limit n acc cs failure =
       (case failure of None \<Rightarrow> Inr (BodyRead (acc @ concat cs)) | Some e \<Rightarrow> Inl e)"
  by (induction cs arbitrary: n acc) (auto split: option.splits)

lemma read_chunks_bounded:
  "read_chunks limit n acc cs failure = Inr (BodyRead t) \<Longrightarrow> length acc \<le> n \<Longrightarrow> n \<le> limit \<Longrightarrow>
     t = acc @ concat cs \<and> failure = None \<and> length t \<le> limit"
proof (induction cs arbitrary: n acc)
  case (Cons c cs)
  then have "read_chunks limit (n + length c) (acc @ c) cs failure = Inr (BodyRead t)" "n + length c \<le> limit"
    by (simp_all split: if_splits)
  then have "t = (acc @ c) @ concat cs \<and> failure = None \<and> length t \<le> limit"
    by (intro Cons.IH) (use Cons.prems in simp_all)
  then show ?case by (elim conjE) simp
qed (auto split: option.splits)

text \<open>An answer of the api: its status, its id in the header and the bytes its body is written in.\<close>

definition api_response :: "nat \<Rightarrow> string \<Rightarrow> bytes list \<Rightarrow> fetch_response" where
  "api_response status requestId chunks =
     \<lparr>rs_status = status, rs_headers = [(REQUEST_ID_HEADER, requestId)],
      rs_body = Some \<lparr>bs_chunks = chunks, bs_failure = None\<rparr>\<rparr>"

lemma read_api_response:
  assumes "json_parse (concat chunks) = Inr payload" and "length (concat chunks) \<le> MAX_BODY_BYTES"
  shows "read_answer parse json_parse path schema route (api_response status rid chunks) =
    classify_payload parse path schema route (api_response status rid chunks) payload"
proof -
  have a: "announced_length (api_response status rid chunks) = Fin 0"
    by (simp add: announced_length_def api_response_def CONTENT_LENGTH_HEADER_def REQUEST_ID_HEADER_def)
  have r: "readBounded (api_response status rid chunks) MAX_BODY_BYTES = Inr (BodyRead (concat chunks))"
    using assms(2) by (simp add: readBounded_def api_response_def read_chunks_all)
  show ?thesis unfolding read_answer_def Let_def a r using assms(1) by (simp add: is_finite_def num_simps)
qed

lemma zod_total: "zod_contract parse \<Longrightarrow> accepts s v \<Longrightarrow> \<exists>v'. parse s v = Inr v'"
  by (simp add: zod_contract_def)

text \<open>The named fields of an envelope are the ones that were sent.\<close>

definition keeps_envelope :: "zod_parse \<Rightarrow> bool" where
  "keeps_envelope parse \<longleftrightarrow>
     (\<forall>v v' k. parse ErrorBodySchema v = Inr v' \<longrightarrow> k \<in> {''code'', ''message'', ''requestId'', ''details''} \<longrightarrow>
        Option.bind (jget v' ''error'') (\<lambda>e. jget e k) = Option.bind (jget v ''error'') (\<lambda>e. jget e k))"

lemma plain_parse_keeps_envelope: "keeps_envelope plain_parse"
  by (auto simp: keeps_envelope_def plain_parse_def split: if_splits)

lemma api_error_of_envelope:
  assumes "keeps_envelope parse" and "parse ErrorBodySchema (errorBodyOf m rid) = Inr body"
  shows "api_error_of status body = ApiError status (me_code m) (me_message m) rid (me_details m)"
proof -
  have get: "Option.bind (jget body ''error'') (\<lambda>e. jget e k) =
      Option.bind (jget (errorBodyOf m rid) ''error'') (\<lambda>e. jget e k)"
    if "k \<in> {''code'', ''message'', ''requestId'', ''details''}" for k
    using assms that unfolding keeps_envelope_def by blast
  have sent: "Option.bind (jget (errorBodyOf m rid) ''error'') (\<lambda>e. jget e ''code'') = Some (Str (me_code m))"
    "Option.bind (jget (errorBodyOf m rid) ''error'') (\<lambda>e. jget e ''message'') = Some (Str (me_message m))"
    "Option.bind (jget (errorBodyOf m rid) ''error'') (\<lambda>e. jget e ''requestId'') = Some (Str rid)"
    "Option.bind (jget (errorBodyOf m rid) ''error'') (\<lambda>e. jget e ''details'') = me_details m"
    by (simp_all add: errorBodyOf_def jget_def split: option.splits)
  obtain e where "jget body ''error'' = Some e"
    using get [of "''code''"] sent(1) by (cases "jget body ''error''") auto
  then show ?thesis
    using get [of "''code''"] get [of "''message''"] get [of "''requestId''"] get [of "''details''"] sent
    by (simp add: api_error_of_def)
qed

section \<open>Properties\<close>



text \<open>
  The answers of the public route are answers to the client too: whatever the probes found, the
  health route's body on the health route's status is the client's value, on 503 as on 200, and the
  request that asked for it carried no password.
\<close>

theorem health_answers_are_read:
  assumes "zod_contract parse"
    and "fetch (client_request options ''/health'' health_options) =
           Inr (api_response (fst (health_route report)) rid chunks)"
    and "json_parse (concat chunks) = Inr (snd (health_route report))" and "length (concat chunks) \<le> MAX_BODY_BYTES"
  shows "\<exists>v. client_health parse json_parse fetch options = Inr v \<and>
    jget v ''status'' = jget (snd (health_route report)) ''status'' \<and>
    ''authorization'' \<notin> fst ` set (fr_headers (client_request options ''/health'' health_options))"
proof -
  let ?st = "fst (health_route report)" and ?body = "snd (health_route report)"
  obtain v where v: "parse HealthResponseSchema ?body = Inr v"
    using zod_total [OF assms(1) health_route_truthful(2)] by blast
  have flat: "flat HealthResponseSchema" "''status'' \<in> set (schema_keys HealthResponseSchema)"
    by (simp_all add: HealthResponseSchema_def)
  then have keep: "jget v ''status'' = jget ?body ''status''"
    using assms(1) v unfolding zod_contract_def by blast
  have "client_health parse json_parse fetch options =
      classify_payload parse ''/health'' HealthResponseSchema health_options (api_response ?st rid chunks) ?body"
    using assms(2) read_api_response [where chunks = chunks and json_parse = json_parse, OF assms(3,4)] by (simp add: client_health_def client_call_def)
  also have "\<dots> = Inr v"
  proof -
    have "?st \<in> set HEALTH_ANSWER_STATUSES"
      by (auto simp: health_route_def HEALTH_ANSWER_STATUSES_def HEALTH_STATUS_CODES_def Let_def)
    moreover have "health_status_agrees v ?st"
      unfolding health_status_agrees_def keep
      by (cases "fst report = Up \<and> snd report = Up") (simp_all add: health_route_def HEALTH_STATUS_CODES_def jget_Obj_Cons)
    ultimately show ?thesis using v
      by (simp add: classify_payload_def Let_def api_response_def health_options_def)
  qed
  finally show ?thesis using keep by (simp add: client_request_def health_options_def)
qed

theorem health_answers_are_read_witness:
  "\<exists>v. client_health plain_parse (\<lambda>_. Inr (snd (health_route (Up, Down)))) (\<lambda>_. Inr (api_response 503 ''r'' [[123]]))
      \<lparr>co_baseUrl = ''http://api/'', co_password = [112], co_timeoutMs = None\<rparr> = Inr v \<and>
    jget v ''status'' = Some (Str ''degraded'')"
proof -
  have st: "fst (health_route (Up, Down)) = 503" "jget (snd (health_route (Up, Down))) ''status'' = Some (Str ''degraded'')"
    by code_simp+
  have "\<exists>v. client_health plain_parse (\<lambda>_. Inr (snd (health_route (Up, Down))))
        (\<lambda>_. Inr (api_response (fst (health_route (Up, Down))) ''r'' [[123]]))
        \<lparr>co_baseUrl = ''http://api/'', co_password = [112], co_timeoutMs = None\<rparr> = Inr v \<and>
      jget v ''status'' = jget (snd (health_route (Up, Down))) ''status'' \<and>
      ''authorization'' \<notin> fst ` set (fr_headers (client_request
         \<lparr>co_baseUrl = ''http://api/'', co_password = [112], co_timeoutMs = None\<rparr> ''/health'' health_options))"
    by (rule health_answers_are_read [where chunks = "[[123]]"]) (simp_all add: MAX_BODY_BYTES_def)
  then show ?thesis unfolding st by blast
qed

text \<open>
  What the client says of a failure holds nothing of where the api is or of the password: with
  other options and the same answer the outcome is the same, for every answer and every failure of
  the transport; and of a body no more than the limit is ever taken in.
\<close>

theorem client_failures_tell_no_secret:
  assumes "fetch (client_request options path route) = answer" and "fetch' (client_request options' path route) = answer"
  shows "client_call parse json_parse fetch options path schema route =
      client_call parse json_parse fetch' options' path schema route \<and>
    (\<forall>r t. answer = Inr r \<and> readBounded r MAX_BODY_BYTES = Inr (BodyRead t) \<longrightarrow> length t \<le> MAX_BODY_BYTES)"
proof -
  have "length t \<le> MAX_BODY_BYTES" if "readBounded r MAX_BODY_BYTES = Inr (BodyRead t)" for r t
  proof (cases "rs_body r")
    case None
    with that show ?thesis by (simp add: readBounded_def)
  next
    case (Some s)
    with that have "read_chunks MAX_BODY_BYTES 0 [] (bs_chunks s) (bs_failure s) = Inr (BodyRead t)"
      by (simp add: readBounded_def)
    from read_chunks_bounded [OF this] show ?thesis by auto
  qed
  with assms show ?thesis by (auto simp: client_call_def)
qed

end
