(* ===== verification/Web_Status.thy ===== *)
theory Web_Status
  imports Api_Client
begin

text \<open>
  The status page of the dashboard (\<open>apps/web/src/lib/api.server.ts\<close>, \<open>format-status.ts\<close>,
  \<open>auto-refresh.ts\<close>): what a failed call becomes, the words a section shows, and when an open page
  asks again.

  A status is the JSON the client returned.  The number formats of the platform and \<open>Date.parse\<close> are
  parameters.
\<close>

section \<open>What the page gets to draw (\<open>api.server.ts\<close>)\<close>

datatype status_result =
    StatusOk json
  | ApiFailed nat string string
  | ApiUnreachable
  | ContractBroken "string option"

text \<open>What a call of the client throws: one of its failures, or a defect.\<close>

datatype client_throw = ClientFailure client_failure | ClientDefect thrown

definition isTimeout :: "thrown option \<Rightarrow> bool" where
  "isTimeout cause =
     (case cause of
        None \<Rightarrow> False
      | Some e \<Rightarrow> instance_of e ErrorC \<and> (err_name e = ''TimeoutError'' \<or> err_name e = ''AbortError''))"

definition loadSystemStatus :: "client_throw + json \<Rightarrow> thrown + status_result" where
  "loadSystemStatus answer =
     (case answer of
        Inr data \<Rightarrow> Inr (StatusOk data)
      | Inl (ClientFailure (ApiError status code message requestId details)) \<Rightarrow> Inr (ApiFailed status code requestId)
      | Inl (ClientFailure (ApiContractError message status requestId cause)) \<Rightarrow>
          Inr (if status = None \<or> isTimeout cause then ApiUnreachable else ContractBroken requestId)
      | Inl (ClientDefect e) \<Rightarrow> Inl e)"

section \<open>Formatters (\<open>format-status.ts\<close>)\<close>

text \<open>\<open>Math.round\<close> rounds half up.\<close>

definition js_round :: "rat \<Rightarrow> int" where
  "js_round x = \<lfloor>x + 1 / 2\<rfloor>"

definition percent_tenths :: "rat \<Rightarrow> int" where
  "percent_tenths ratio = (let tenths = js_round (ratio * 1000) in if ratio < 1 then min tenths 999 else tenths)"

definition formatPercent :: "rat \<Rightarrow> string" where
  "formatPercent ratio = show_fixed 1 (nat (percent_tenths ratio)) @ ''%''"

definition formatAmount :: "(jsnum \<Rightarrow> string) \<Rightarrow> (jsnum \<Rightarrow> string) \<Rightarrow> jsnum \<Rightarrow> string \<Rightarrow> string" where
  "formatAmount USD UNITS v unit_name = (if unit_name = ''usd'' then USD v else UNITS v @ '' units'')"

definition formatPeriod :: "string \<Rightarrow> string \<Rightarrow> string" where
  "formatPeriod period timeZone = (if period = ''day'' then ''today'' else ''this month'') @ '' in '' @ timeZone"

definition CLOCK_SKEW_TOLERANCE_MS :: int where
  "CLOCK_SKEW_TOLERANCE_MS = 2000"

definition formatHeartbeatAge :: "(string \<Rightarrow> int option) \<Rightarrow> string option \<Rightarrow> int \<Rightarrow> string" where
  "formatHeartbeatAge date_parse stampAt now =
     (case stampAt of
        None \<Rightarrow> ''never''
      | Some s \<Rightarrow>
          (case date_parse s of
             None \<Rightarrow> ''unknown''
           | Some writtenAt \<Rightarrow>
               (let ageMs = now - writtenAt;
                    seconds = max ageMs 0 div 1000;
                    minutes = seconds div 60
                in if ageMs < - CLOCK_SKEW_TOLERANCE_MS
                   then show_int ((- ageMs + 999) div 1000) @ '' s in the future, clocks disagree''
                   else if seconds < 1 then ''just now''
                   else if seconds < 60 then show_int seconds @ '' s ago''
                   else if minutes < 60 then show_int minutes @ '' min ago''
                   else show_int (minutes div 60) @ '' h ago'')))"

definition formatApiFailure :: "status_result \<Rightarrow> string option" where
  "formatApiFailure result =
     (case result of
        StatusOk _ \<Rightarrow> None
      | ApiUnreachable \<Rightarrow> Some ''no connection to the api''
      | ApiFailed status code requestId \<Rightarrow>
          Some (''api error '' @ show_nat status @ '' '' @ code @ '', request id '' @ requestId)
      | ContractBroken None \<Rightarrow> Some ''answer outside the contract''
      | ContractBroken (Some requestId) \<Rightarrow> Some (''answer outside the contract, request id '' @ requestId))"

fun formatFailureReason :: "probe_failure \<Rightarrow> string" where
  "formatFailureReason Timeout = ''timed out''"
| "formatFailureReason Unreachable = ''unreachable''"
| "formatFailureReason Refused = ''refused, check the database credentials and dsn in the api log''"
| "formatFailureReason Not_migrated = ''not migrated, run the migrations''"
| "formatFailureReason Error = ''error, see the api log''"

text \<open>The reason of a check on the wire.\<close>

definition wire_reason :: "json \<Rightarrow> probe_failure option" where
  "wire_reason check =
     (case jget check ''reason'' of
        Some (Str s) \<Rightarrow> List.find (\<lambda>r. probe_failure_name r = s) [Timeout, Unreachable, Refused, Not_migrated, Error]
      | _ \<Rightarrow> None)"

definition formatNoData :: "string \<Rightarrow> json \<Rightarrow> string" where
  "formatNoData dependency check =
     (case wire_reason check of
        None \<Rightarrow> ''no data''
      | Some reason \<Rightarrow> ''no data: '' @ dependency @ '' '' @ formatFailureReason reason)"

definition API_UNAVAILABLE :: string where
  "API_UNAVAILABLE = ''no data: api unavailable''"

datatype section_state = SectionData json | NoData string

definition field_of :: "string \<Rightarrow> json \<Rightarrow> json" where
  "field_of k v = (case jget v k of Some x \<Rightarrow> x | None \<Rightarrow> Null)"

definition sectionState :: "status_result \<Rightarrow> (json \<Rightarrow> json) \<Rightarrow> string \<Rightarrow> section_state" where
  "sectionState result pick dependency =
     (case result of
        StatusOk data \<Rightarrow>
          (let section = pick data
           in if section = Null then NoData (formatNoData dependency (field_of dependency (field_of ''checks'' data)))
              else SectionData section)
      | _ \<Rightarrow> NoData API_UNAVAILABLE)"

definition formatUptime :: "nat \<Rightarrow> string" where
  "formatUptime seconds =
     (let minutes = seconds div 60; hours = minutes div 60
      in if seconds < 60 then show_nat seconds @ '' s''
         else if minutes < 60 then show_nat minutes @ '' min''
         else if hours < 24 then show_nat hours @ '' h '' @ show_nat (minutes mod 60) @ '' min''
         else show_nat (hours div 24) @ '' d '' @ show_nat (hours mod 24) @ '' h'')"

section \<open>Refreshing (\<open>auto-refresh.ts\<close>)\<close>

definition REFRESH_INTERVAL_MS :: nat where
  "REFRESH_INTERVAL_MS = 15000"

record refresher =
  rf_stopped :: bool
  rf_refreshes :: nat

text \<open>The timer and a change of visibility, each with what the page answers at that moment; the cleanup.\<close>

datatype refresh_event = IntervalFired bool bool | VisibilityChanged bool bool | StopRefresh

definition refresh_tick :: "bool \<Rightarrow> bool \<Rightarrow> refresher \<Rightarrow> refresher" where
  "refresh_tick isHidden isBusy s =
     (if isHidden \<or> isBusy then s else s\<lparr>rf_refreshes := Suc (rf_refreshes s)\<rparr>)"

definition startAutoRefresh :: "refresher \<Rightarrow> refresh_event \<Rightarrow> refresher" where
  "startAutoRefresh s e =
     (if rf_stopped s then s
      else case e of
             IntervalFired isHidden isBusy \<Rightarrow> refresh_tick isHidden isBusy s
           | VisibilityChanged isHidden isBusy \<Rightarrow> refresh_tick isHidden isBusy s
           | StopRefresh \<Rightarrow> s\<lparr>rf_stopped := True\<rparr>)"

section \<open>Lemmas\<close>

lemma wire_reason_name:
  "jget check ''reason'' = Some (Str (probe_failure_name r)) \<Longrightarrow> wire_reason check = Some r"
  by (cases r) (simp_all add: wire_reason_def)

text \<open>The percentage of a cap never reads as full before it is, and never hides an overrun.\<close>

lemma percent_tenths_bounds:
  assumes "0 \<le> ratio"
  shows "0 \<le> percent_tenths ratio" "percent_tenths ratio < 1000 \<longleftrightarrow> ratio < 1"
    "\<bar>of_int (percent_tenths ratio) - ratio * 1000\<bar> \<le> (1::rat)"
proof -
  define t where "t = js_round (ratio * 1000)"
  have t: "of_int t \<le> ratio * 1000 + 1 / 2" "ratio * 1000 + 1 / 2 < of_int t + 1"
    unfolding t_def js_round_def by linarith+
  have p: "percent_tenths ratio = (if ratio < 1 then min t 999 else t)"
    by (simp add: percent_tenths_def t_def Let_def)
  have pos: "0 \<le> t" using assms unfolding t_def js_round_def by simp
  then show "0 \<le> percent_tenths ratio" by (simp add: p)
  have full: "1000 \<le> t" if "1 \<le> ratio"
  proof -
    have "(1000::rat) \<le> ratio * 1000 + 1 / 2" using that by linarith
    then show ?thesis unfolding t_def js_round_def by (simp add: le_floor_iff)
  qed
  then show "percent_tenths ratio < 1000 \<longleftrightarrow> ratio < 1" by (auto simp: p)
  show "\<bar>of_int (percent_tenths ratio) - ratio * 1000\<bar> \<le> 1"
  proof (cases "ratio < 1 \<and> 999 < t")
    case True
    then have "of_int 1000 \<le> (of_int t :: rat)" by (intro of_int_le_iff [THEN iffD2]) simp
    with True t have "percent_tenths ratio = 999" "999 < ratio * 1000" "ratio * 1000 < 1000"
      by (simp_all add: p)
    then show ?thesis by simp
  next
    case False
    then have "percent_tenths ratio = t" using p by auto
    with t show ?thesis by (simp add: abs_le_iff)
  qed
qed

interpretation refresh: event_machine startAutoRefresh "\<lambda>s. rf_stopped s \<and> rf_refreshes s = n" for n
  by unfold_locales (simp add: startAutoRefresh_def)

lemma refresh_monotone: "rf_refreshes s \<le> rf_refreshes (startAutoRefresh s e)"
  by (simp add: startAutoRefresh_def refresh_tick_def split: refresh_event.splits)

text \<open>Under a section that was not read there is a reason, of one of the sections over its dependency.\<close>

lemma check_tells_reason:
  assumes "NotCollected r \<in> set rs"
  shows "\<exists>r'. NotCollected r' \<in> set rs \<and> wire_reason (dependencyCheck rs) = Some r'"
proof -
  from worst_reason_bound [of None rs] assms obtain r' where "worst_reason None rs = Some r'" "NotCollected r' \<in> set rs"
    by (cases "worst_reason None rs") auto
  then show ?thesis by (auto simp: dependencyCheck_def jget_def intro!: wire_reason_name)
qed

lemma page_fields:
  "field_of ''queues'' (status_page bi up cq cw cb) = nullable (\<lambda>v. Arr (map queue_row_json (qs_queues v))) cq"
  "field_of ''dlq'' (status_page bi up cq cw cb) = nullable (\<lambda>v. Obj [(''size'', Num (qs_dlq v))]) cq"
  "field_of ''worker'' (status_page bi up cq cw cb) = nullable worker_status cw"
  "field_of ''budget'' (status_page bi up cq cw cb) = nullable Arr cb"
  "field_of ''redis'' (field_of ''checks'' (status_page bi up cq cw cb)) = dependencyCheck [erase cq, erase cw]"
  "field_of ''db'' (field_of ''checks'' (status_page bi up cq cw cb)) = dependencyCheck [erase cb]"
  by (simp_all add: field_of_def status_page_def jget_def)

text \<open>
  How a section that was collected, or was not, has to look: its data, or a line that names the
  dependency and a reason one of the sections over it gave.
\<close>

definition shown_as :: "'a collected \<Rightarrow> ('a \<Rightarrow> json) \<Rightarrow> string \<Rightarrow> unit collected list \<Rightarrow> section_state \<Rightarrow> bool" where
  "shown_as c f dep over st =
     (case c of
        Collected v \<Rightarrow> st = SectionData (f v)
      | NotCollected _ \<Rightarrow>
          (\<exists>r. NotCollected r \<in> set over \<and> st = NoData (''no data: '' @ dep @ '' '' @ formatFailureReason r)))"

lemma section_of_collected:
  assumes pick: "pick page = nullable f c" and f: "\<And>v. f v \<noteq> Null"
    and check: "field_of dep (field_of ''checks'' page) = dependencyCheck rs" and mem: "erase c \<in> set rs"
  shows "shown_as c f dep rs (sectionState (StatusOk page) pick dep)"
proof (cases c)
  case (Collected v)
  then show ?thesis using pick f by (simp add: sectionState_def nullable_def Let_def shown_as_def)
next
  case (NotCollected r)
  with mem have "NotCollected r \<in> set rs" by (simp add: erase_def)
  from check_tells_reason [OF this] obtain r' where "NotCollected r' \<in> set rs" "wire_reason (dependencyCheck rs) = Some r'"
    by blast
  then show ?thesis using NotCollected pick check
    by (auto simp: sectionState_def nullable_def Let_def formatNoData_def shown_as_def)
qed

section \<open>Properties\<close>

text \<open>
  From the probes to the screen no outage turns into a number: of a page the api built, each of the
  four sections the dashboard draws is the very data that was read, and otherwise a line that names
  the dependency and a reason one of its sections gave - never the bare line without a reason; and
  without a page every section says that the api is unavailable.
\<close>

theorem dashboard_never_draws_an_outage_as_data:
  "(case system_route order bi up q w b of
      Inl _ \<Rightarrow> True
    | Inr page \<Rightarrow>
        (\<exists>cq cw cb.
           fst (collect ''queues'' q) = Inr cq \<and> fst (collect ''worker'' w) = Inr cw \<and> fst (collect ''budget'' b) = Inr cb \<and>
           shown_as cq (\<lambda>v. Arr (map queue_row_json (qs_queues v))) ''redis'' [erase cq, erase cw]
             (sectionState (StatusOk page) (field_of ''queues'') ''redis'') \<and>
           shown_as cq (\<lambda>v. Obj [(''size'', Num (qs_dlq v))]) ''redis'' [erase cq, erase cw]
             (sectionState (StatusOk page) (field_of ''dlq'') ''redis'') \<and>
           shown_as cw worker_status ''redis'' [erase cq, erase cw]
             (sectionState (StatusOk page) (field_of ''worker'') ''redis'') \<and>
           shown_as cb Arr ''db'' [erase cb] (sectionState (StatusOk page) (field_of ''budget'') ''db''))) \<and>
   (case result of StatusOk _ \<Rightarrow> True | _ \<Rightarrow> sectionState result pick dep = NoData API_UNAVAILABLE)"
proof (rule conjI, goal_cases)
  case 1
  show ?case
  proof (cases "system_route order bi up q w b")
    case (Inr page)
    with system_route_cases [where order = order and bi = bi and up = up and q = q and w = w and b = b]
    obtain cq cw cb where c: "fst (collect ''queues'' q) = Inr cq" "fst (collect ''worker'' w) = Inr cw"
      "fst (collect ''budget'' b) = Inr cb" and page: "page = status_page bi up cq cw cb" by auto
    have "shown_as cq (\<lambda>v. Arr (map queue_row_json (qs_queues v))) ''redis'' [erase cq, erase cw]
        (sectionState (StatusOk page) (field_of ''queues'') ''redis'')"
      "shown_as cq (\<lambda>v. Obj [(''size'', Num (qs_dlq v))]) ''redis'' [erase cq, erase cw]
        (sectionState (StatusOk page) (field_of ''dlq'') ''redis'')"
      "shown_as cw worker_status ''redis'' [erase cq, erase cw] (sectionState (StatusOk page) (field_of ''worker'') ''redis'')"
      "shown_as cb Arr ''db'' [erase cb] (sectionState (StatusOk page) (field_of ''budget'') ''db'')"
      by (rule section_of_collected; simp add: page page_fields worker_status_def)+
    with c show ?thesis unfolding Inr sum.case by blast
  qed simp
next
  case 2
  show ?case by (cases result) (simp_all add: sectionState_def)
qed

text \<open>
  The percentage of a cap is within a tenth of the ratio, an overrun stays past 100.0%, and
  100.0% or more is printed exactly when the cap is reached.
\<close>

theorem percent_is_full_only_when_reached:
  assumes "0 \<le> ratio"
  shows "\<exists>tenths. formatPercent ratio = show_fixed 1 tenths @ ''%'' \<and> (1000 \<le> tenths \<longleftrightarrow> 1 \<le> ratio) \<and>
    \<bar>of_nat tenths / 10 - ratio * 100\<bar> \<le> (1 / 10 :: rat) \<and>
    decimal_value (show_fixed 1 tenths) = Some (of_nat tenths / 10)"
proof -
  let ?n = "nat (percent_tenths ratio)"
  have nn: "of_nat ?n = (of_int (percent_tenths ratio) :: rat)" using percent_tenths_bounds(1) [OF assms] by simp
  have "1000 \<le> ?n \<longleftrightarrow> 1 \<le> ratio" using percent_tenths_bounds(1,2) [OF assms] by linarith
  moreover have "\<bar>of_nat ?n / 10 - ratio * 100\<bar> \<le> (1 / 10 :: rat)"
    using percent_tenths_bounds(3) [OF assms] unfolding nn by (simp add: abs_le_iff field_simps)
  ultimately show ?thesis by (intro exI [of _ ?n]) (simp add: formatPercent_def decimal_value_show_fixed)
qed

theorem percent_is_full_only_when_reached_witness:
  "formatPercent (9996 / 10000) = ''99.9%'' \<and>
   (\<exists>tenths. formatPercent (9996 / 10000) = show_fixed 1 tenths @ ''%'' \<and> (1000 \<le> tenths \<longleftrightarrow> 1 \<le> (9996 / 10000 :: rat)))"
proof
  show "formatPercent (9996 / 10000) = ''99.9%''" by code_simp
  have "(0::rat) \<le> 9996 / 10000" by simp
  from percent_is_full_only_when_reached [OF this]
  show "\<exists>tenths. formatPercent (9996 / 10000) = show_fixed 1 tenths @ ''%'' \<and> (1000 \<le> tenths \<longleftrightarrow> 1 \<le> (9996 / 10000 :: rat))"
    by blast
qed

end
