(* ===== verification/Repo_Files.thy ===== *)
theory Repo_Files
  imports Js_Text
begin

text \<open>
  Reading files for the scripts of the repository root: scripts/lib/files.mjs and
  scripts/lib/paths.mjs.  The calls of the system (\<open>statSync\<close>, \<open>readFileSync\<close>, the native
  realpath, a run of git) are parameters that answer or throw; what was thrown is a value of
  \<open>thrown\<close>, so that the one reading of its \<open>code\<close> decides what an absent file is.
\<close>

section \<open>What a system call throws\<close>

text \<open>
  An \<open>Error\<close> with its \<open>code\<close> (when it is a string), its message and its \<open>cause\<close>; the
  \<open>UnreadableFileError\<close> of the listing, which also names its path; the \<open>UnreadableInputError\<close> of
  the gate of the Compose stack, with the path and the cause; or a value that is no \<open>Error\<close>, by its
  text.
\<close>

datatype thrown =
    Error_Thrown "string option" string "thrown option"
  | UnreadableFileError "string option" string string thrown
  | UnreadableInputError string thrown
  | Value_Thrown string

definition codeOf :: "thrown \<Rightarrow> string option" where
  "codeOf e = (case e of
     Error_Thrown c _ _ \<Rightarrow> c
   | UnreadableFileError c _ _ _ \<Rightarrow> c
   | UnreadableInputError _ _ \<Rightarrow> None
   | Value_Thrown _ \<Rightarrow> None)"

definition messageOf :: "thrown \<Rightarrow> string" where
  "messageOf e = (case e of
     Error_Thrown _ m _ \<Rightarrow> m
   | UnreadableFileError _ m _ _ \<Rightarrow> m
   | UnreadableInputError path _ \<Rightarrow> ''cannot read '' @ path
   | Value_Thrown t \<Rightarrow> t)"

definition isGone :: "thrown \<Rightarrow> bool" where
  "isGone e \<longleftrightarrow> codeOf e = Some ''ENOENT''"

definition isNotFile :: "thrown \<Rightarrow> bool" where
  "isNotFile e \<longleftrightarrow> isGone e \<or> codeOf e = Some ''ENOTDIR''"

definition isNoListedFile :: "thrown \<Rightarrow> bool" where
  "isNoListedFile e \<longleftrightarrow> isNotFile e \<or> codeOf e = Some ''EISDIR''"

lemma isGone_isNotFile: "isGone e \<Longrightarrow> isNotFile e"
  by (simp add: isNotFile_def)

lemma isNotFile_isNoListedFile: "isNotFile e \<Longrightarrow> isNoListedFile e"
  by (simp add: isNoListedFile_def)

text \<open>What follows a step that may fail.\<close>

definition and_then :: "'e + 'a \<Rightarrow> ('a \<Rightarrow> 'e + 'b) \<Rightarrow> 'e + 'b" where
  "and_then m f = (case m of Inl e \<Rightarrow> Inl e | Inr x \<Rightarrow> f x)"

lemma and_then_simps [simp]: "and_then (Inl e) f = Inl e" "and_then (Inr x) f = f x"
  by (simp_all add: and_then_def)

lemma and_then_Inr: "and_then m f = Inr y \<longleftrightarrow> (\<exists>x. m = Inr x \<and> f x = Inr y)"
  by (cases m) auto

lemma and_then_Inl: "and_then m f = Inl e \<longleftrightarrow> m = Inl e \<or> (\<exists>x. m = Inr x \<and> f x = Inl e)"
  by (cases m) auto

section \<open>A file that may be absent\<close>

text \<open>\<open>statSync(path).isFile()\<close> and \<open>readFileSync(path)\<close> stand in one \<open>try\<close>.\<close>

definition readIfFile ::
  "(string \<Rightarrow> thrown + bool) \<Rightarrow> (string \<Rightarrow> thrown + string) \<Rightarrow> string \<Rightarrow> thrown + string option"
where
  "readIfFile stat readFile path =
     (let tried = (case stat path of
          Inl e \<Rightarrow> Inl e
        | Inr False \<Rightarrow> Inr None
        | Inr True \<Rightarrow> (case readFile path of Inl e \<Rightarrow> Inl e | Inr t \<Rightarrow> Inr (Some t)))
      in case tried of
           Inl e \<Rightarrow> if isGone e then Inr None else Inl e
         | Inr r \<Rightarrow> Inr r)"

text \<open>An absent file is never a failure, and a failure is never taken for an absent file.\<close>

lemma readIfFile_absent:
  "readIfFile stat readFile path = Inr None \<longleftrightarrow>
     stat path = Inr False
   \<or> (\<exists>e. isGone e \<and> (stat path = Inl e \<or> stat path = Inr True \<and> readFile path = Inl e))"
  by (auto simp: readIfFile_def Let_def split: sum.splits bool.splits)

lemma readIfFile_throws:
  "readIfFile stat readFile path = Inl e \<Longrightarrow> \<not> isGone e"
  by (auto simp: readIfFile_def Let_def split: sum.splits bool.splits if_splits)

section \<open>The listing of git\<close>

record git_run =
  run_error :: "thrown option"
  run_status :: "int option"
  run_stdout :: string
  run_stderr :: string

definition LISTING_MAX_BUFFER :: nat where
  "LISTING_MAX_BUFFER = 64 * 1024 * 1024"

text \<open>\<open>[...new Set(xs)]\<close>: every element once, at its first place.\<close>

fun once :: "'a list \<Rightarrow> 'a list" where
  "once [] = []"
| "once (x # xs) = x # filter (\<lambda>y. y \<noteq> x) (once xs)"

lemma set_once [simp]: "set (once xs) = set xs"
  by (induction xs) auto

lemma distinct_once [simp]: "distinct (once xs)"
  by (induction xs) auto

lemma once_distinct: "distinct xs \<Longrightarrow> once xs = xs"
  by (induction xs) (auto simp: filter_id_conv)

text \<open>The arguments of git: no daemon answers, the tracked and the untracked, not the ignored.\<close>

definition git_arguments :: "string list" where
  "git_arguments =
     [''-c'', ''core.fsmonitor=false'', ''ls-files'', ''-z'', ''--cached'', ''--others'',
      ''--exclude-standard'']"

definition listedPaths ::
  "string \<Rightarrow> (string list \<Rightarrow> thrown + git_run) \<Rightarrow> thrown + string list"
where
  "listedPaths dir spawn =
     (case spawn git_arguments of
        Inl e \<Rightarrow> Inl (Error_Thrown None
                   (''git ls-files in '' @ dir @ '' failed: '' @ messageOf e) (Some e))
      | Inr listed \<Rightarrow>
          (case run_error listed of
             Some e \<Rightarrow> Inl (Error_Thrown None
                   (''git ls-files in '' @ dir @ '' failed: '' @ messageOf e) (Some e))
           | None \<Rightarrow>
               if run_status listed \<noteq> Some 0 then
                 Inl (Error_Thrown None
                   (''git ls-files in '' @ dir @ '' failed (exit ''
                      @ (case run_status listed of None \<Rightarrow> ''null'' | Some n \<Rightarrow> show_int n)
                      @ ''): '' @ trim (run_stderr listed)) None)
               else Inr (filter (\<lambda>p. p \<noteq> []) (once (split_on (CHR 0x00) (run_stdout listed))))))"

definition isListedFile :: "(string \<Rightarrow> thrown + bool) \<Rightarrow> string \<Rightarrow> thrown + bool" where
  "isListedFile stat path =
     (case stat path of
        Inl e \<Rightarrow> if isNoListedFile e then Inr False else Inl e
      | Inr f \<Rightarrow> Inr f)"

text \<open>\<open>xs.filter(p)\<close> for a test that may throw: the first throw ends it.\<close>

fun filter_throwing :: "('a \<Rightarrow> 'e + bool) \<Rightarrow> 'a list \<Rightarrow> 'e + 'a list" where
  "filter_throwing p [] = Inr []"
| "filter_throwing p (x # xs) =
     (case p x of
        Inl e \<Rightarrow> Inl e
      | Inr b \<Rightarrow>
          (case filter_throwing p xs of
             Inl e \<Rightarrow> Inl e
           | Inr ys \<Rightarrow> Inr (if b then x # ys else ys)))"

text \<open>
  \<open>join(root, path)\<close> is a function of the platform (\<open>joinPath\<close>); a path \<open>keep\<close> leaves out is
  never looked at.
\<close>

definition trackedFiles ::
  "(string \<Rightarrow> string \<Rightarrow> string) \<Rightarrow> (string list \<Rightarrow> thrown + git_run) \<Rightarrow> (string \<Rightarrow> thrown + bool)
   \<Rightarrow> string \<Rightarrow> (string \<Rightarrow> bool) \<Rightarrow> thrown + string list"
where
  "trackedFiles joinPath spawn stat dir keep =
     (case listedPaths dir spawn of
        Inl e \<Rightarrow> Inl e
      | Inr ps \<Rightarrow>
          filter_throwing
            (\<lambda>p. if keep p then isListedFile stat (joinPath dir p) else Inr False) ps)"

definition readListedFile :: "(string \<Rightarrow> thrown + 't) \<Rightarrow> string \<Rightarrow> thrown + 't option" where
  "readListedFile readFile path =
     (case readFile path of
        Inl e \<Rightarrow> if isNoListedFile e then Inr None
                 else Inl (UnreadableFileError (codeOf e) (messageOf e) path e)
      | Inr t \<Rightarrow> Inr (Some t))"

text \<open>
  The generator \<open>readEach\<close>: what it yields, in order, and the failure that ends it if any.
  A caller that takes every item sees all of them before the failure.
\<close>

fun readEach ::
  "(string \<Rightarrow> string \<Rightarrow> string) \<Rightarrow> (string \<Rightarrow> thrown + 't) \<Rightarrow> string \<Rightarrow> string list
   \<Rightarrow> (string \<times> 't) list \<times> thrown option"
where
  "readEach joinPath readFile dir [] = ([], None)"
| "readEach joinPath readFile dir (p # ps) =
     (case readListedFile readFile (joinPath dir p) of
        Inl e \<Rightarrow> ([], Some e)
      | Inr None \<Rightarrow> readEach joinPath readFile dir ps
      | Inr (Some t) \<Rightarrow>
          (case readEach joinPath readFile dir ps of (ys, e) \<Rightarrow> ((p, t) # ys, e)))"

definition readTrackedFiles ::
  "(string \<Rightarrow> string \<Rightarrow> string) \<Rightarrow> (string list \<Rightarrow> thrown + git_run) \<Rightarrow> (string \<Rightarrow> thrown + 't)
   \<Rightarrow> string \<Rightarrow> (string \<Rightarrow> bool) \<Rightarrow> thrown + ((string \<times> 't) list \<times> thrown option)"
where
  "readTrackedFiles joinPath spawn readFile dir keep =
     (case listedPaths dir spawn of
        Inl e \<Rightarrow> Inl e
      | Inr ps \<Rightarrow> Inr (readEach joinPath readFile dir (filter keep ps)))"

lemma listedPaths_distinct: "listedPaths dir spawn = Inr ps \<Longrightarrow> distinct ps \<and> [] \<notin> set ps"
  by (auto simp: listedPaths_def split: sum.splits option.splits if_splits)

lemma filter_throwing_Inr:
  "filter_throwing p xs = Inr ys \<Longrightarrow>
     ys = filter (\<lambda>x. p x = Inr True) xs \<and> (\<forall>x \<in> set xs. \<exists>b. p x = Inr b)"
  by (induction xs arbitrary: ys) (auto split: sum.splits)

text \<open>A listing that is handed back holds exactly the wanted files that are on the disk.\<close>

lemma trackedFiles_exact:
  assumes "trackedFiles joinPath spawn stat dir keep = Inr fs"
    and "listedPaths dir spawn = Inr ps"
  shows "set fs = {p \<in> set ps. keep p \<and> stat (joinPath dir p) = Inr True} \<and> distinct fs"
proof -
  have "fs = filter (\<lambda>p. (if keep p then isListedFile stat (joinPath dir p) else Inr False) = Inr True) ps"
    using assms by (intro conjunct1 [OF filter_throwing_Inr]) (simp add: trackedFiles_def)
  moreover have "(isListedFile stat q = Inr True) \<longleftrightarrow> stat q = Inr True" for q
    by (auto simp: isListedFile_def split: sum.splits if_splits)
  ultimately show ?thesis
    using listedPaths_distinct [OF assms(2)] by auto
qed

text \<open>What a whole reading says of each listed path, and what a failure leaves unread.\<close>

lemma readEach_whole:
  assumes "readEach joinPath readFile dir ps = (ys, None)"
  shows "ys = List.map_filter (\<lambda>p. case readFile (joinPath dir p) of
                 Inr t \<Rightarrow> Some (p, t) | Inl _ \<Rightarrow> None) ps
       \<and> (\<forall>p \<in> set ps. \<forall>e. readFile (joinPath dir p) = Inl e \<longrightarrow> isNoListedFile e)"
  using assms
  by (induction ps arbitrary: ys)
     (auto simp: readListedFile_def map_filter_simps split: sum.splits option.splits prod.splits if_splits)

lemma readEach_failure:
  assumes "readEach joinPath readFile dir ps = (ys, Some e)"
  shows "\<exists>p \<in> set ps. \<exists>c. readFile (joinPath dir p) = Inl c \<and> \<not> isNoListedFile c
       \<and> e = UnreadableFileError (codeOf c) (messageOf c) (joinPath dir p) c"
  using assms
  by (induction ps arbitrary: ys)
     (auto simp: readListedFile_def split: sum.splits option.splits prod.splits if_splits)

section \<open>Paths\<close>

text \<open>scripts/lib/paths.mjs.  \<open>relative(root, path)\<close> and \<open>sep\<close> are of the platform.\<close>

definition fromRoot :: "(string \<Rightarrow> string \<Rightarrow> string) \<Rightarrow> char \<Rightarrow> string \<Rightarrow> string \<Rightarrow> string" where
  "fromRoot relative sep dir path = join (CHR ''/'') (split_on sep (relative dir path))"

definition upper_char :: "char \<Rightarrow> char" where
  "upper_char c = (let n = (of_char c :: nat) in if 97 \<le> n \<and> n \<le> 122 then char_of (n - 32) else c)"

text \<open>\<open>toUpperCase\<close> on the letters of ASCII, which names of variables and ids of tasks are made of.\<close>

definition upper :: "string \<Rightarrow> string" where
  "upper = map upper_char"

definition nameOn :: "string \<Rightarrow> string \<Rightarrow> string" where
  "nameOn name platform = (if platform = ''win32'' then upper name else name)"

definition canonical :: "(string \<Rightarrow> thrown + string) \<Rightarrow> string \<Rightarrow> thrown + string" where
  "canonical resolvePath path =
     (case resolvePath path of
        Inl e \<Rightarrow> Inl (Error_Thrown None (''cannot resolve '' @ path) (Some e))
      | Inr p \<Rightarrow> Inr p)"

definition isFileAt :: "(string \<Rightarrow> thrown + bool option) \<Rightarrow> string \<Rightarrow> thrown + bool" where
  "isFileAt stat path =
     (case stat path of
        Inl e \<Rightarrow> if codeOf e = Some ''ENOTDIR'' then Inr False
                 else Inl (Error_Thrown None (''cannot stat '' @ path) (Some e))
      | Inr None \<Rightarrow> Inr False
      | Inr (Some f) \<Rightarrow> Inr f)"

text \<open>\<open>fileURLToPath(metaUrl)\<close>, a function of the platform, is \<open>modulePath\<close> here.\<close>

definition isEntry ::
  "(string \<Rightarrow> thrown + string) \<Rightarrow> (string \<Rightarrow> thrown + bool option) \<Rightarrow> string \<Rightarrow> string option
   \<Rightarrow> thrown + bool"
where
  "isEntry resolvePath stat modulePath entry =
     (case entry of
        None \<Rightarrow> Inr False
      | Some e \<Rightarrow>
          if e = [] then Inr False
          else (case isFileAt stat e of
             Inl x \<Rightarrow> Inl x
           | Inr False \<Rightarrow> Inr False
           | Inr True \<Rightarrow>
               (case canonical resolvePath modulePath of
                  Inl x \<Rightarrow> Inl x
                | Inr m \<Rightarrow>
                    (case canonical resolvePath e of
                       Inl x \<Rightarrow> Inl x
                     | Inr p \<Rightarrow> Inr (m = p)))))"

text \<open>
  The guard of a gate is fail-closed: it answers \<open>not the entry\<close> only when no file was named
  or another file was, never because a path could not be looked at.
\<close>

lemma isEntry_no:
  assumes "isEntry resolvePath stat modulePath entry = Inr False"
  shows "entry = None \<or> entry = Some []
    \<or> (\<exists>e. entry = Some e \<and>
         (stat e = Inr None \<or> stat e = Inr (Some False)
          \<or> (\<exists>x. stat e = Inl x \<and> codeOf x = Some ''ENOTDIR'')
          \<or> (\<exists>m p. resolvePath modulePath = Inr m \<and> resolvePath e = Inr p \<and> m \<noteq> p)))"
  using assms
  by (auto simp: isEntry_def isFileAt_def canonical_def
           split: option.splits if_splits sum.splits bool.splits)

end
