(* ===== verification/Tracker_Task.thy ===== *)
theory Tracker_Task
  imports Repo_Files "HOL-Library.Multiset" "HOL-Library.Char_ord" "HOL-Library.List_Lexorder"
begin

text \<open>
  The fields of a task of the tracker: the grammar of its id, its epic and its dependencies
  (scripts/lib/tracker-task.mjs), and the grammar of its title and of its estimate
  (\<open>checkLine\<close>, \<open>ESTIMATE\<close>, \<open>estimateOf\<close>, \<open>depsOf\<close> of scripts/tasks.mjs).  The tracker is
  written in Russian, so in the theories of the tracker a text is its UTF-8 bytes; a pattern
  that looks at letters beyond ASCII looks at the characters \<open>glyphs\<close> cuts the bytes into.
\<close>

section \<open>Characters of a text\<close>

definition continuation_byte :: "char \<Rightarrow> bool" where
  "continuation_byte c \<longleftrightarrow> 128 \<le> (of_char c :: nat) \<and> (of_char c :: nat) < 192"

function glyphs :: "string \<Rightarrow> string list" where
  "glyphs [] = []"
| "glyphs (c # cs) = (c # takeWhile continuation_byte cs) # glyphs (dropWhile continuation_byte cs)"
  by pat_completeness auto

termination
  by (relation "measure length") (auto simp: le_imp_less_Suc length_dropWhile_le)

lemma concat_glyphs [simp]: "concat (glyphs s) = s"
  by (induction s rule: glyphs.induct) auto

lemma glyphs_ascii:
  "list_all (\<lambda>c. \<not> continuation_byte c) s \<Longrightarrow> glyphs s = map (\<lambda>c. [c]) s"
proof (induction s)
  case (Cons c cs)
  then have "takeWhile continuation_byte cs = []" "dropWhile continuation_byte cs = cs"
    by (cases cs; simp)+
  with Cons show ?case by simp
qed simp

lemma glyphs_not_empty: "g \<in> set (glyphs s) \<Longrightarrow> g \<noteq> []"
  by (induction s rule: glyphs.induct) auto

text \<open>The blanks of \<open>\s\<close> and of \<open>trim\<close>: white space and line terminators of Unicode.\<close>

definition blank_glyph :: "string \<Rightarrow> bool" where
  "blank_glyph g \<longleftrightarrow>
     (let ns = map (of_char :: char \<Rightarrow> nat) g in
      ns \<in> set [[9], [10], [11], [12], [13], [32], [194, 160], [225, 154, 128], [226, 128, 168],
                 [226, 128, 169], [226, 128, 175], [226, 129, 159], [227, 128, 128], [239, 187, 191]]
    \<or> (\<exists>k \<in> set [128..<139]. ns = [226, 128, k]))"

definition trim_text :: "string \<Rightarrow> string" where
  "trim_text s = concat (rev (dropWhile blank_glyph (rev (dropWhile blank_glyph (glyphs s)))))"

lemma dropWhile_keeps: "\<exists>x \<in> set xs. \<not> P x \<Longrightarrow> \<exists>x \<in> set (dropWhile P xs). \<not> P x"
  by (induction xs) auto

lemma trim_text_not_empty:
  assumes "g \<in> set (glyphs s)" and "\<not> blank_glyph g"
  shows "trim_text s \<noteq> []"
proof -
  let ?front = "rev (dropWhile blank_glyph (glyphs s))"
  have "\<exists>x \<in> set (dropWhile blank_glyph (glyphs s)). \<not> blank_glyph x"
    by (rule dropWhile_keeps) (use assms in blast)
  then have "\<exists>x \<in> set ?front. \<not> blank_glyph x" by (simp only: set_rev)
  then have "\<exists>x \<in> set (dropWhile blank_glyph ?front). \<not> blank_glyph x"
    by (rule dropWhile_keeps)
  then obtain x where x: "x \<in> set (dropWhile blank_glyph ?front)" by blast
  have "x \<in> set ?front" using set_dropWhileD [OF x] .
  then have "x \<in> set (glyphs s)" by (metis set_rev set_dropWhileD)
  with x glyphs_not_empty [of x s] show ?thesis by (auto simp: trim_text_def)
qed

definition upper_letter :: "char \<Rightarrow> bool" where
  "upper_letter c \<longleftrightarrow> 65 \<le> (of_char c :: nat) \<and> (of_char c :: nat) \<le> 90"

definition lower_letter :: "char \<Rightarrow> bool" where
  "lower_letter c \<longleftrightarrow> 97 \<le> (of_char c :: nat) \<and> (of_char c :: nat) \<le> 122"

section \<open>Ids and epics\<close>

definition ADHOC :: string where
  "ADHOC = ''ADHOC''"

text \<open>\<open>E\d+-\d+[A-Z]*\<close>, matched whole.\<close>

definition epic_task_id :: "string \<Rightarrow> bool" where
  "epic_task_id s =
     (case s of
        c # r \<Rightarrow>
          c = CHR ''E'' \<and> takeWhile is_digit r \<noteq> []
          \<and> (case dropWhile is_digit r of
               d # r2 \<Rightarrow> d = CHR ''-'' \<and> takeWhile is_digit r2 \<noteq> []
                          \<and> list_all upper_letter (dropWhile is_digit r2)
             | [] \<Rightarrow> False)
      | [] \<Rightarrow> False)"

text \<open>\<open>ADHOC-\d{8}-\d+\<close>, matched whole.\<close>

definition adhoc_task_id :: "string \<Rightarrow> bool" where
  "adhoc_task_id s \<longleftrightarrow>
     starts_with ''ADHOC-'' s
   \<and> (let r = drop 6 s in
       length r > 9 \<and> list_all is_digit (take 8 r) \<and> r ! 8 = CHR ''-''
     \<and> list_all is_digit (drop 9 r))"

definition TASK_ID :: "string \<Rightarrow> bool" where
  "TASK_ID s \<longleftrightarrow> epic_task_id s \<or> adhoc_task_id s"

definition EPIC :: "string \<Rightarrow> bool" where
  "EPIC s \<longleftrightarrow> (case s of c # r \<Rightarrow> c = CHR ''E'' \<and> r \<noteq> [] \<and> list_all is_digit r | [] \<Rightarrow> False)
            \<or> s = ADHOC"

definition quoted :: "string \<Rightarrow> string" where
  "quoted s = [CHR 34] @ s @ [CHR 34]"

definition idProblem :: "string \<Rightarrow> string option" where
  "idProblem i =
     (if TASK_ID i then None
      else Some (''id '' @ quoted i @ '' is neither E<n>-<n>[A-Z...] nor ADHOC-<yyyymmdd>-<n>''))"

text \<open>\<open>/^E\d+(?=-)/\<close>, or the epic of the owner.\<close>

definition epicOf :: "string \<Rightarrow> string" where
  "epicOf i =
     (case i of
        c # r \<Rightarrow>
          if c = CHR ''E'' \<and> takeWhile is_digit r \<noteq> []
             \<and> (case dropWhile is_digit r of d # _ \<Rightarrow> d = CHR ''-'' | [] \<Rightarrow> False)
          then CHR ''E'' # takeWhile is_digit r else ADHOC
      | [] \<Rightarrow> ADHOC)"

definition epicProblem :: "string \<Rightarrow> string \<Rightarrow> string option" where
  "epicProblem i epic =
     (if \<not> EPIC epic then Some (''epic '' @ quoted epic @ '' is neither E<n> nor ADHOC'')
      else if epic \<noteq> epicOf i then
        Some (''epic '' @ epic @ '' does not go with the id '' @ i @
          '': the epic of a task is the E<n> its id starts with, ADHOC that of the ADHOC-<yyyymmdd>-<n> tasks - here ''
          @ epicOf i)
      else None)"

definition missingDeps :: "string list \<Rightarrow> string list \<Rightarrow> string list" where
  "missingDeps deps ids = filter (\<lambda>d. d \<notin> set ids) deps"

lemma epicOf_is_epic: "EPIC (epicOf i)"
  by (auto simp: epicOf_def EPIC_def list_all_iff split: list.splits dest: set_takeWhileD)

text \<open>The epic \<open>add\<close> gives by default is always taken, and no other epic is.\<close>

lemma epicProblem_iff: "epicProblem i epic = None \<longleftrightarrow> epic = epicOf i"
  by (auto simp: epicProblem_def epicOf_is_epic)

section \<open>Lines and titles\<close>

definition die_if :: "bool \<Rightarrow> 'e \<Rightarrow> 'e + unit" where
  "die_if b e = (if b then Inl e else Inr ())"

lemma die_if_Inr [simp]: "die_if b e = Inr u \<longleftrightarrow> \<not> b"
  by (simp add: die_if_def)

definition checkLine :: "string \<Rightarrow> string \<Rightarrow> string + unit" where
  "checkLine v what =
     and_then (die_if (trim_text v = []) (what @ '' is empty''))
       (\<lambda>_. die_if (CHR 13 \<in> set v \<or> CHR 10 \<in> set v)
              (what @ '' has a line break: a row of docs/00_STATUS.md and a line of the journal take it on one line''))"

section \<open>Estimates\<close>

definition DAY :: string where
  "DAY = [CHR 0xD0, CHR 0xB4]"

definition EN_DASH :: string where
  "EN_DASH = [CHR 0xE2, CHR 0x80, CHR 0x93]"

definition digit_glyph :: "string \<Rightarrow> bool" where
  "digit_glyph g \<longleftrightarrow> (case g of [c] \<Rightarrow> is_digit c | _ \<Rightarrow> False)"

text \<open>\<open>\d+(?:\.\d+)?\<close> at the start of the characters: the number and the rest.\<close>

definition take_number :: "string list \<Rightarrow> (string \<times> string list) option" where
  "take_number gs =
     (let ip = takeWhile digit_glyph gs; r = dropWhile digit_glyph gs in
      if ip = [] then None
      else (case r of
          d # r2 \<Rightarrow>
            if d = ''.'' \<and> takeWhile digit_glyph r2 \<noteq> []
            then Some (concat ip @ ''.'' @ concat (takeWhile digit_glyph r2), dropWhile digit_glyph r2)
            else Some (concat ip, r)
        | [] \<Rightarrow> Some (concat ip, r)))"

text \<open>\<open>(\s*\([^()]*[^()\s][^()]*\))?$\<close>: the note to the end.\<close>

definition note_to_end :: "string list \<Rightarrow> string option" where
  "note_to_end gs =
     (if gs = [] then Some []
      else (case dropWhile blank_glyph gs of
          [] \<Rightarrow> None
        | b # r \<Rightarrow>
            if b = ''('' \<and> r \<noteq> [] \<and> last r = '')''
               \<and> list_all (\<lambda>g. g \<noteq> ''('' \<and> g \<noteq> '')'') (butlast r)
               \<and> list_ex (\<lambda>g. \<not> blank_glyph g) (butlast r)
            then Some (concat gs) else None))"

record estimate_match =
  est_low :: string
  est_high :: "string option"
  est_note :: string

definition days_to_end :: "string \<Rightarrow> string option \<Rightarrow> string list \<Rightarrow> estimate_match option" where
  "days_to_end low high gs =
     (case dropWhile blank_glyph gs of
        [] \<Rightarrow> None
      | g # r \<Rightarrow>
          if g = DAY
          then map_option (\<lambda>n. \<lparr>est_low = low, est_high = high, est_note = n\<rparr>) (note_to_end r)
          else None)"

definition ESTIMATE :: "string \<Rightarrow> estimate_match option" where
  "ESTIMATE s =
     (case take_number (glyphs s) of
        None \<Rightarrow> None
      | Some (low, r) \<Rightarrow>
          (case dropWhile blank_glyph r of
             d # r2 \<Rightarrow>
               if d = ''-'' \<or> d = EN_DASH then
                 (case take_number (dropWhile blank_glyph r2) of
                    None \<Rightarrow> None
                  | Some (high, r3) \<Rightarrow> days_to_end low (Some high) r3)
               else days_to_end low None r
           | [] \<Rightarrow> None))"

text \<open>\<open>Number(low)\<close> of a matched end: a plain decimal.\<close>

definition number_of :: "string \<Rightarrow> rat" where
  "number_of s = (case unsigned_decimal s of Some r \<Rightarrow> r | None \<Rightarrow> 0)"

definition checkEstimate :: "string \<Rightarrow> string + unit" where
  "checkEstimate estimate =
     and_then (checkLine estimate ''--est'')
       (\<lambda>_. if estimate = ''?'' then Inr ()
            else (case ESTIMATE estimate of
                None \<Rightarrow> Inl (''--est '' @ quoted estimate @ '' is not an estimate in days: give ''
                   @ quoted (''<n> '' @ DAY) @ '' or '' @ quoted (''<n>-<n> '' @ DAY)
                   @ '' (a dot for a fraction, a note of text in parentheses after it if any), or ''
                   @ quoted ''?'')
              | Some m \<Rightarrow>
                  (case est_high m of
                     None \<Rightarrow> Inr ()
                   | Some high \<Rightarrow>
                       die_if (number_of high < number_of (est_low m))
                         (''--est '' @ quoted estimate @ '' is a range from more days to less: give it as ''
                          @ quoted (high @ ''-'' @ est_low m @ '' '' @ DAY @ est_note m)))))"

text \<open>The estimate as given and the days the status sums.\<close>

definition estimateOf :: "string \<Rightarrow> string \<times> rat option" where
  "estimateOf estimate =
     (case ESTIMATE estimate of
        None \<Rightarrow> (estimate, None)
      | Some m \<Rightarrow>
          (estimate, Some (case est_high m of
             None \<Rightarrow> number_of (est_low m)
           | Some high \<Rightarrow> max (number_of (est_low m)) (number_of high))))"

text \<open>The ids of \<open>--deps a,b\<close>: upper case, each once, in the order given.\<close>

definition depsOf :: "string \<Rightarrow> string list" where
  "depsOf v = once (filter (\<lambda>s. s \<noteq> []) (map (\<lambda>s. upper (trim_text s)) (split_on (CHR '','') v)))"

lemma depsOf_clean: "distinct (depsOf v) \<and> [] \<notin> set (depsOf v)"
  by (auto simp: depsOf_def)

text \<open>\<open>sameDeps\<close>: equal lengths, and equal elements place by place once both are sorted.\<close>

definition sameDeps :: "string list \<Rightarrow> string list \<Rightarrow> bool" where
  "sameDeps a b \<longleftrightarrow> length a = length b \<and> list_all2 (=) (sort a) (sort b)"

text \<open>The order is no change, a repeat is.\<close>

lemma sameDeps_mset: "sameDeps a b \<longleftrightarrow> mset a = mset b"
proof
  assume "sameDeps a b"
  then have "sort a = sort b" by (simp add: sameDeps_def list_all2_eq)
  then have "mset (sort a) = mset (sort b)" by (rule arg_cong)
  then show "mset a = mset b" by simp
next
  assume same: "mset a = mset b"
  have "sort a = sort b"
    by (rule properties_for_sort) (simp_all only: mset_sort same sorted_sort)
  moreover have "length a = length b" by (rule mset_eq_length [OF same])
  ultimately show "sameDeps a b" unfolding sameDeps_def list_all2_eq by blast
qed

section \<open>Estimates read back\<close>

lemma glyphs_append_ascii:
  assumes "list_all (\<lambda>c. \<not> continuation_byte c) xs"
    and "ys = [] \<or> \<not> continuation_byte (hd ys)"
  shows "glyphs (xs @ ys) = map (\<lambda>c. [c]) xs @ glyphs ys"
  using assms
proof (induction xs)
  case (Cons c cs)
  have "takeWhile continuation_byte (cs @ ys) = []" "dropWhile continuation_byte (cs @ ys) = cs @ ys"
    using Cons.prems by (cases cs; cases ys; simp)+
  with Cons show ?case by simp
qed simp

lemma digit_not_continuation: "is_digit c \<Longrightarrow> \<not> continuation_byte c"
  by (simp add: is_digit_def continuation_byte_def)

lemma show_nat_ascii: "list_all (\<lambda>c. \<not> continuation_byte c) (show_nat n)"
  by (simp add: list_all_iff show_nat_digits digit_not_continuation)

lemma takeWhile_digit_glyphs:
  assumes "list_all is_digit xs" and "gs = [] \<or> \<not> digit_glyph (hd gs)"
  shows "takeWhile digit_glyph (map (\<lambda>c. [c]) xs @ gs) = map (\<lambda>c. [c]) xs"
    and "dropWhile digit_glyph (map (\<lambda>c. [c]) xs @ gs) = gs"
  using assms by (induction xs; cases gs; auto simp: digit_glyph_def)+

lemma take_number_digits:
  assumes "list_all is_digit xs" and "xs \<noteq> []" and "gs \<noteq> []"
    and "\<not> digit_glyph (hd gs)" and "hd gs \<noteq> ''.''"
  shows "take_number (map (\<lambda>c. [c]) xs @ gs) = Some (xs, gs)"
proof -
  have "concat (map (\<lambda>c. [c]) xs) = xs" by (induction xs) auto
  with takeWhile_digit_glyphs [OF assms(1), of gs] assms show ?thesis
    by (cases gs) (simp_all add: take_number_def Let_def)
qed

lemma unsigned_decimal_digits:
  "list_all is_digit xs \<Longrightarrow> xs \<noteq> [] \<Longrightarrow> unsigned_decimal xs = Some (of_nat (nat_of_digits xs))"
  by (simp add: unsigned_decimal_def exponent_part_def takeWhile_eq_all_conv [THEN iffD2]
        dropWhile_eq_Nil_conv [THEN iffD2] list_all_iff)

lemma number_of_show_nat [simp]: "number_of (show_nat n) = of_nat n"
proof -
  have "list_all is_digit (show_nat n)" by (simp add: list_all_iff show_nat_digits)
  then show ?thesis by (simp add: number_of_def unsigned_decimal_digits)
qed

definition range_text :: "nat \<Rightarrow> nat \<Rightarrow> string" where
  "range_text low high = show_nat low @ ''-'' @ show_nat high @ '' '' @ DAY"

lemma glyphs_range_text:
  "glyphs (range_text low high) =
     map (\<lambda>c. [c]) (show_nat low) @ ''-'' # map (\<lambda>c. [c]) (show_nat high) @ [CHR '' ''] # [DAY]"
proof -
  let ?m = "map (\<lambda>c :: char. [c])"
  have nodash: "\<not> continuation_byte CHR ''-''" "\<not> continuation_byte CHR '' ''"
    by (simp_all add: continuation_byte_def)
  have "glyphs ('' '' @ DAY) = [CHR '' ''] # [DAY]"
    by (simp add: DAY_def continuation_byte_def)
  then have tail: "glyphs (''-'' @ show_nat high @ '' '' @ DAY)
      = ''-'' # ?m (show_nat high) @ [CHR '' ''] # [DAY]"
    using glyphs_append_ascii [of "''-'' @ show_nat high" "'' '' @ DAY"] show_nat_ascii [of high] nodash
    by simp
  show ?thesis
    using glyphs_append_ascii [OF show_nat_ascii, of "''-'' @ show_nat high @ '' '' @ DAY" low] nodash tail
    by (simp add: range_text_def)
qed

lemma ESTIMATE_range_text:
  "ESTIMATE (range_text low high) =
     Some \<lparr>est_low = show_nat low, est_high = Some (show_nat high), est_note = []\<rparr>"
proof -
  let ?m = "map (\<lambda>c :: char. [c])"
  have dig: "list_all is_digit (show_nat n)" for n by (simp add: list_all_iff show_nat_digits)
  have n1: "take_number (glyphs (range_text low high)) =
      Some (show_nat low, ''-'' # ?m (show_nat high) @ [CHR '' ''] # [DAY])"
    unfolding glyphs_range_text by (rule take_number_digits [OF dig]) (simp_all add: digit_glyph_def is_digit_def)
  have n2: "take_number (?m (show_nat high) @ [CHR '' ''] # [DAY]) =
      Some (show_nat high, [CHR '' ''] # [DAY])"
    by (rule take_number_digits [OF dig]) (simp_all add: digit_glyph_def is_digit_def)
  have "\<not> blank_glyph ''-''" "blank_glyph [CHR '' '']" "\<not> blank_glyph DAY"
    by (simp_all add: blank_glyph_def DAY_def Let_def)
  moreover have "dropWhile blank_glyph (?m (show_nat high) @ [CHR '' ''] # [DAY])
      = ?m (show_nat high) @ [CHR '' ''] # [DAY]"
  proof -
    obtain c cs where c: "show_nat high = c # cs" by (cases "show_nat high") auto
    with show_nat_digits [of c high] have "is_digit c" by simp
    then have "\<not> blank_glyph [c]" by (auto simp: blank_glyph_def Let_def is_digit_def)
    with c show ?thesis by simp
  qed
  ultimately show ?thesis
    using n1 n2 by (simp add: ESTIMATE_def days_to_end_def note_to_end_def)
qed

text \<open>A range of days written out is read back: it is accepted exactly when it does not run
  from more days to less, and the days the status sums are its larger end.\<close>

theorem estimate_range_roundtrip:
  "(checkEstimate (range_text low high) = Inr () \<longleftrightarrow> low \<le> high)
   \<and> estimateOf (range_text low high) = (range_text low high, Some (of_nat (max low high)))"
proof -
  have digit: "c \<in> set (show_nat n) \<Longrightarrow> c \<noteq> CHR 13 \<and> c \<noteq> CHR 10" for c n
    using show_nat_digits [of c n] by (auto simp: is_digit_def)
  have line: "CHR 13 \<notin> set (range_text low high)" "CHR 10 \<notin> set (range_text low high)"
    using digit by (auto simp: range_text_def DAY_def)
  have "DAY \<in> set (glyphs (range_text low high))" by (simp add: glyphs_range_text)
  then have "trim_text (range_text low high) \<noteq> []"
    by (rule trim_text_not_empty) (simp add: blank_glyph_def DAY_def Let_def)
  moreover have "range_text low high \<noteq> ''?''"
    by (auto simp: range_text_def DAY_def Cons_eq_append_conv)
  ultimately show ?thesis
    using line by (simp add: checkEstimate_def checkLine_def estimateOf_def ESTIMATE_range_text die_if_def)
qed

end
