(* ===== verification/Tracker_Words.thy ===== *)
theory Tracker_Words
  imports Tracker_Task
begin

text \<open>
  The wording of the status page and of the journal that is not ASCII: the string literals of
  scripts/tasks.mjs, as the bytes the files hold.  The names say what the text stands in.
\<close>

definition bytes :: "nat list \<Rightarrow> string" where
  "bytes ns = map char_of ns"

lemma newline_in_bytes [simp]: "CHR 10 \<in> set (bytes ns) \<longleftrightarrow> list_ex (\<lambda>n. n mod 256 = 10) ns"
proof -
  have "CHR 10 = (char_of n :: char) \<longleftrightarrow> n mod 256 = 10" for n :: nat
  proof
    assume "CHR 10 = (char_of n :: char)"
    then have "(of_char CHR 10 :: nat) = of_char (char_of n :: char)" by simp
    then show "n mod 256 = 10" by simp
  next
    assume "n mod 256 = 10"
    then have "(of_char (char_of n :: char) :: nat) = of_char CHR 10" by simp
    then have "(char_of n :: char) = CHR 10" by (simp only: of_char_eq_iff)
    then show "CHR 10 = (char_of n :: char)" by (rule sym)
  qed
  then show ?thesis by (auto simp: bytes_def list_ex_iff)
qed

definition w_title :: string where
  "w_title =
    bytes [35, 32, 208, 161, 209, 130, 208, 176, 209, 130, 209, 131, 209, 129, 32, 208, 191, 209,
    128, 208, 190, 208, 181, 208, 186, 209, 130, 208, 176, 32, 226, 128, 148, 32, 208, 179, 208,
    180, 208, 181, 32, 208, 188, 209, 139, 32, 209, 129, 208, 181, 208, 185, 209, 135, 208, 176,
    209, 129]"

definition w_generated :: string where
  "w_generated =
    bytes [95, 208, 161, 208, 179, 208, 181, 208, 189, 208, 181, 209, 128, 208, 184, 209, 128,
    208, 190, 208, 178, 208, 176, 208, 189, 208, 190]"

definition w_generated_by :: string where
  "w_generated_by =
    bytes [32, 96] @ ''node scripts/tasks.mjs render'' @ bytes [96, 32]"

definition w_generated_rest :: string where
  "w_generated_rest =
    ''. **'' @ bytes [208, 157, 208, 181, 32, 209, 128, 208, 181, 208, 180, 208, 176, 208, 186,
    209, 130, 208, 184, 209, 128, 208, 190, 208, 178, 208, 176, 209, 130, 209, 140, 32, 209, 128,
    209, 131, 208, 186, 208, 176, 208, 188, 208, 184] @ ''** '' @ bytes [226, 128, 148, 32, 208,
    184, 209, 129, 209, 130, 208, 190, 209, 135, 208, 189, 208, 184, 208, 186, 58, 32, 96] @
    ''docs/tasks/tasks.json'' @ bytes [96, 46, 32, 208, 161, 208, 191, 208, 181, 209, 134, 208,
    184, 209, 132, 208, 184, 208, 186, 208, 176, 209, 134, 208, 184, 209, 143, 32, 208, 183, 208,
    176, 208, 180, 208, 176, 209, 135, 32, 226, 128, 148, 32, 208, 178, 32, 208, 180, 208, 190,
    208, 186, 209, 131, 208, 188, 208, 181, 208, 189, 209, 130, 208, 176, 209, 133, 32, 96] @
    ''docs/3x_Ex_TASKS.md'' @ bytes [96, 59, 32, 208, 182, 209, 131, 209, 128, 208, 189, 208, 176,
    208, 187, 32, 226, 128, 148, 32, 96] @ ''docs/90_WORKLOG.md'' @ bytes [96, 46, 95]"

definition w_summary :: string where
  "w_summary =
    ''## '' @ bytes [208, 161, 208, 178, 208, 190, 208, 180, 208, 186, 208, 176]"

definition w_progress :: string where
  "w_progress =
    ''- **'' @ bytes [208, 159, 209, 128, 208, 190, 208, 179, 209, 128, 208, 181, 209, 129, 209,
    129] @ '':** ''"

definition w_tasks :: string where
  "w_tasks =
    bytes [32, 208, 183, 208, 176, 208, 180, 208, 176, 209, 135, 44, 32]"

definition w_est_days :: string where
  "w_est_days =
    bytes [32, 208, 190, 209, 134, 208, 181, 208, 189, 208, 190, 209, 135, 208, 189, 209, 139,
    209, 133, 32, 208, 180, 208, 189, 208, 181, 208, 185, 46]"

definition w_current_epic :: string where
  "w_current_epic =
    ''- **'' @ bytes [208, 162, 208, 181, 208, 186, 209, 131, 209, 137, 208, 184, 208, 185, 32,
    209, 141, 208, 191, 208, 184, 208, 186] @ '':** ''"

definition w_dash :: string where
  "w_dash =
    bytes [32, 226, 128, 148, 32]"

definition w_all_done :: string where
  "w_all_done =
    bytes [208, 178, 209, 129, 208, 181, 32, 209, 141, 208, 191, 208, 184, 208, 186, 208, 184, 32,
    208, 183, 208, 176, 208, 178, 208, 181, 209, 128, 209, 136, 208, 181, 208, 189, 209, 139, 32,
    240, 159, 142, 137]"

definition w_in_work :: string where
  "w_in_work =
    ''- **'' @ bytes [208, 146, 32, 209, 128, 208, 176, 208, 177, 208, 190, 209, 130, 208, 181] @
    '':** ''"

definition w_nothing :: string where
  "w_nothing =
    bytes [208, 189, 208, 184, 209, 135, 208, 181, 208, 179, 208, 190, 32, 226, 128, 148, 32, 208,
    178, 208, 190, 208, 183, 209, 140, 208, 188, 208, 184, 209, 130, 208, 181, 32, 208, 183, 208,
    176, 208, 180, 208, 176, 209, 135, 209, 131, 32, 208, 184, 208, 183, 32, 194, 171, 208, 161,
    208, 187, 208, 181, 208, 180, 209, 131, 209, 142, 209, 137, 208, 184, 208, 181, 194, 187]"

definition w_blocked :: string where
  "w_blocked =
    ''- **'' @ bytes [208, 151, 208, 176, 208, 177, 208, 187, 208, 190, 208, 186, 208, 184, 209,
    128, 208, 190, 208, 178, 208, 176, 208, 189, 208, 190] @ '':** ''"

definition w_none :: string where
  "w_none =
    bytes [208, 189, 208, 181, 209, 130]"

definition w_now :: string where
  "w_now =
    ''## '' @ bytes [208, 161, 208, 181, 208, 185, 209, 135, 208, 176, 209, 129, 32, 208, 178, 32,
    209, 128, 208, 176, 208, 177, 208, 190, 209, 130, 208, 181]"

definition w_now_header :: string where
  "w_now_header =
    bytes [124, 32, 208, 151, 208, 176, 208, 180, 208, 176, 209, 135, 208, 176] @ '' | '' @ bytes
    [208, 157, 208, 176, 208, 183, 208, 178, 208, 176, 208, 189, 208, 184, 208, 181] @ '' | '' @
    bytes [208, 158, 209, 134, 208, 181, 208, 189, 208, 186, 208, 176] @ '' | '' @ bytes [208,
    157, 208, 176, 209, 135, 208, 176, 209, 130, 208, 176, 32, 124]"

definition w_now_none :: string where
  "w_now_none =
    bytes [95, 208, 157, 208, 181, 209, 130, 32, 208, 183, 208, 176, 208, 180, 208, 176, 209, 135,
    32, 208, 178, 32, 209, 128, 208, 176, 208, 177, 208, 190, 209, 130, 208, 181, 46, 95]"

definition w_next :: string where
  "w_next =
    ''## '' @ bytes [208, 161, 208, 187, 208, 181, 208, 180, 209, 131, 209, 142, 209, 137, 208,
    184, 208, 181, 32, 40, 208, 183, 208, 176, 208, 178, 208, 184, 209, 129, 208, 184, 208, 188,
    208, 190, 209, 129, 209, 130, 208, 184, 32, 208, 178, 209, 139, 208, 191, 208, 190, 208, 187,
    208, 189, 208, 181, 208, 189, 209, 139, 44, 32, 208, 178, 32, 208, 191, 208, 190, 209, 128,
    209, 143, 208, 180, 208, 186, 208, 181, 32, 208, 191, 209, 128, 208, 184, 208, 190, 209, 128,
    208, 184, 209, 130, 208, 181, 209, 130, 208, 176, 41]"

definition w_next_header :: string where
  "w_next_header =
    bytes [124, 32, 208, 151, 208, 176, 208, 180, 208, 176, 209, 135, 208, 176] @ '' | '' @ bytes
    [208, 157, 208, 176, 208, 183, 208, 178, 208, 176, 208, 189, 208, 184, 208, 181] @ '' | '' @
    bytes [208, 158, 209, 134, 208, 181, 208, 189, 208, 186, 208, 176] @ '' | '' @ bytes [208,
    173, 208, 191, 208, 184, 208, 186, 32, 124]"

definition w_take :: string where
  "w_take =
    bytes [208, 146, 208, 183, 209, 143, 209, 130, 209, 140, 32, 208, 178, 32, 209, 128, 208, 176,
    208, 177, 208, 190, 209, 130, 209, 131, 58, 32, 96] @ ''node scripts/tasks.mjs start ''"

definition w_next_none :: string where
  "w_next_none =
    bytes [95, 208, 157, 208, 181, 209, 130, 32, 208, 180, 208, 190, 209, 129, 209, 130, 209, 131,
    208, 191, 208, 189, 209, 139, 209, 133, 32, 208, 183, 208, 176, 208, 180, 208, 176, 209, 135,
    58, 32, 208, 178, 209, 129, 209, 145, 32, 208, 187, 208, 184, 208, 177, 208, 190, 32, 209,
    129, 208, 180, 208, 181, 208, 187, 208, 176, 208, 189, 208, 190, 44, 32, 208, 187, 208, 184,
    208, 177, 208, 190, 32, 208, 182, 208, 180, 209, 145, 209, 130, 32, 208, 183, 208, 176, 208,
    178, 208, 184, 209, 129, 208, 184, 208, 188, 208, 190, 209, 129, 209, 130, 208, 181, 208, 185,
    46, 95]"

definition w_blocked_section :: string where
  "w_blocked_section =
    ''## '' @ bytes [208, 151, 208, 176, 208, 177, 208, 187, 208, 190, 208, 186, 208, 184, 209,
    128, 208, 190, 208, 178, 208, 176, 208, 189, 208, 190]"

definition w_blocked_header :: string where
  "w_blocked_header =
    bytes [124, 32, 208, 151, 208, 176, 208, 180, 208, 176, 209, 135, 208, 176] @ '' | '' @ bytes
    [208, 157, 208, 176, 208, 183, 208, 178, 208, 176, 208, 189, 208, 184, 208, 181] @ '' | '' @
    bytes [208, 159, 209, 128, 208, 184, 209, 135, 208, 184, 208, 189, 208, 176, 32, 124]"

definition w_by_epic :: string where
  "w_by_epic =
    ''## '' @ bytes [208, 159, 209, 128, 208, 190, 208, 179, 209, 128, 208, 181, 209, 129, 209,
    129, 32, 208, 191, 208, 190, 32, 209, 141, 208, 191, 208, 184, 208, 186, 208, 176, 208, 188]"

definition w_epic_header :: string where
  "w_epic_header =
    ''| | '' @ bytes [208, 173, 208, 191, 208, 184, 208, 186] @ '' | '' @ bytes [208, 151, 208,
    176, 208, 180, 208, 176, 209, 135, 208, 184] @ '' | '' @ bytes [208, 148, 208, 189, 208, 184,
    32, 40, 209, 129, 208, 180, 208, 181, 208, 187, 208, 176, 208, 189, 208, 190] @ '' / '' @
    bytes [208, 178, 209, 129, 208, 181, 208, 179, 208, 190] @ '') | '' @ bytes [208, 148, 208,
    190, 208, 186, 209, 131, 208, 188, 208, 181, 208, 189, 209, 130, 32, 124]"

definition w_legend :: string where
  "w_legend =
    bytes [208, 155, 208, 181, 208, 179, 208, 181, 208, 189, 208, 180, 208, 176, 32, 209, 129,
    209, 130, 208, 176, 209, 130, 209, 131, 209, 129, 208, 190, 208, 178, 58, 32, 226, 172, 156,
    32, 208, 189, 208, 181, 32, 208, 189, 208, 176, 209, 135, 208, 176, 209, 130, 208, 190, 32,
    194, 183, 32, 240, 159, 148, 132, 32, 208, 178, 32, 209, 128, 208, 176, 208, 177, 208, 190,
    209, 130, 208, 181] @ '' / '' @ bytes [209, 141, 208, 191, 208, 184, 208, 186, 32, 208, 189,
    208, 176, 209, 135, 208, 176, 209, 130, 32, 194, 183, 32, 226, 155, 148, 32, 208, 183, 208,
    176, 208, 177, 208, 187, 208, 190, 208, 186, 208, 184, 209, 128, 208, 190, 208, 178, 208, 176,
    208, 189, 208, 190, 32, 194, 183, 32, 226, 156, 133, 32, 209, 129, 208, 180, 208, 181, 208,
    187, 208, 176, 208, 189, 208, 190, 46]"

definition w_all :: string where
  "w_all =
    ''## '' @ bytes [208, 146, 209, 129, 208, 181, 32, 208, 183, 208, 176, 208, 180, 208, 176,
    209, 135, 208, 184]"

definition w_all_header :: string where
  "w_all_header =
    ''| | '' @ bytes [208, 151, 208, 176, 208, 180, 208, 176, 209, 135, 208, 176] @ '' | '' @
    bytes [208, 157, 208, 176, 208, 183, 208, 178, 208, 176, 208, 189, 208, 184, 208, 181] @
    '' | '' @ bytes [208, 158, 209, 134, 208, 181, 208, 189, 208, 186, 208, 176] @ '' | '' @ bytes
    [208, 151, 208, 176, 208, 178, 208, 184, 209, 129, 208, 184, 208, 188, 208, 190, 209, 129,
    209, 130, 208, 184] @ '' | '' @ bytes [208, 157, 208, 176, 209, 135, 208, 176, 209, 130, 208,
    176] @ '' | '' @ bytes [208, 147, 208, 190, 209, 130, 208, 190, 208, 178, 208, 176, 32, 124]"

definition w_long_dash :: string where
  "w_long_dash =
    bytes [226, 128, 148]"

definition w_howto :: string where
  "w_howto =
    ''## '' @ bytes [208, 154, 208, 176, 208, 186, 32, 208, 191, 208, 190, 208, 187, 209, 140,
    208, 183, 208, 190, 208, 178, 208, 176, 209, 130, 209, 140, 209, 129, 209, 143]"

definition w_howto_next :: string where
  "w_howto_next =
    ''node scripts/tasks.mjs next          # '' @ bytes [209, 135, 209, 130, 208, 190, 32, 208,
    177, 209, 128, 208, 176, 209, 130, 209, 140, 32, 209, 129, 208, 187, 208, 181, 208, 180, 209,
    131, 209, 142, 209, 137, 208, 184, 208, 188]"

definition w_howto_start :: string where
  "w_howto_start =
    ''node scripts/tasks.mjs start E0-01   # '' @ bytes [208, 178, 208, 183, 209, 143, 209, 130,
    209, 140, 32, 208, 178, 32, 209, 128, 208, 176, 208, 177, 208, 190, 209, 130, 209, 131]"

definition w_howto_done :: string where
  "w_howto_done =
    ''node scripts/tasks.mjs done E0-01 '' @ bytes [34, 208, 186, 208, 190, 209, 128, 208, 190,
    209, 130, 208, 186, 208, 190, 32, 209, 135, 209, 130, 208, 190, 32, 209, 129, 208, 180, 208,
    181, 208, 187, 208, 176, 208, 189, 208, 190, 34] @ ''   # '' @ bytes [208, 183, 208, 176, 208,
    186, 209, 128, 209, 139, 209, 130, 209, 140] @ '' (+ '' @ bytes [208, 183, 208, 176, 208, 191,
    208, 184, 209, 129, 209, 140, 32, 208, 178] @ '' WORKLOG, '' @ bytes [208, 191, 208, 181, 209,
    128, 208, 181, 209, 128, 208, 184, 209, 129, 208, 190, 208, 178, 208, 186, 208, 176, 32, 209,
    129, 209, 130, 208, 176, 209, 130, 209, 131, 209, 129, 208, 176, 41]"

definition w_howto_block :: string where
  "w_howto_block =
    ''node scripts/tasks.mjs block E0-05 '' @ bytes [34, 208, 182, 208, 180, 209, 145, 208, 188,
    32, 208, 186, 208, 187, 209, 142, 209, 135] @ '' Gemini'' @ bytes [34] @ ''     # '' @ bytes
    [208, 183, 208, 176, 208, 177, 208, 187, 208, 190, 208, 186, 208, 184, 209, 128, 208, 190,
    208, 178, 208, 176, 209, 130, 209, 140]"

definition w_howto_show :: string where
  "w_howto_show =
    ''node scripts/tasks.mjs show E0-01    # '' @ bytes [208, 180, 208, 181, 209, 130, 208, 176,
    208, 187, 208, 184, 32, 208, 184, 32, 208, 183, 208, 176, 208, 178, 208, 184, 209, 129, 208,
    184, 208, 188, 208, 190, 209, 129, 209, 130, 208, 184]"

definition w_bar_full :: string where
  "w_bar_full =
    bytes [226, 150, 136]"

definition w_bar_empty :: string where
  "w_bar_empty =
    bytes [226, 150, 145]"

definition i_todo :: string where
  "i_todo =
    bytes [226, 172, 156]"

definition i_in_progress :: string where
  "i_in_progress =
    bytes [240, 159, 148, 132]"

definition i_blocked :: string where
  "i_blocked =
    bytes [226, 155, 148]"

definition i_done :: string where
  "i_done =
    bytes [226, 156, 133]"

definition w_journal_head :: string where
  "w_journal_head =
    bytes [35, 32, 208, 150, 209, 131, 209, 128, 208, 189, 208, 176, 208, 187, 32, 209, 128, 208,
    176, 208, 177, 208, 190, 209, 130, 10, 10, 95, 208, 148, 208, 190, 208, 177, 208, 176, 208,
    178, 208, 187, 209, 143, 208, 181, 209, 130, 209, 129, 209, 143, 32, 208, 176, 208, 178, 209,
    130, 208, 190, 208, 188, 208, 176, 209, 130, 208, 184, 209, 135, 208, 181, 209, 129, 208, 186,
    208, 184, 32, 208, 186, 208, 190, 208, 188, 208, 176, 208, 189, 208, 180, 208, 190, 208, 185,
    32, 96] @ ''tasks.mjs done'' @ bytes [96, 46, 32, 208, 157, 208, 190, 208, 178, 209, 139, 208,
    181, 32, 208, 183, 208, 176, 208, 191, 208, 184, 209, 129, 208, 184, 32, 226, 128, 148, 32,
    209, 129, 208, 178, 208, 181, 209, 128, 209, 133, 209, 131, 32, 208, 189, 208, 181, 32, 208,
    179, 208, 176, 209, 128, 208, 176, 208, 189, 209, 130, 208, 184, 209, 128, 209, 131, 208, 181,
    209, 130, 209, 129, 209, 143, 58, 32, 209, 135, 208, 184, 209, 130, 208, 176, 209, 130, 209,
    140, 32, 209, 129, 208, 189, 208, 184, 208, 183, 209, 131, 32, 208, 178, 208, 178, 208, 181,
    209, 128, 209, 133, 46, 95, 10, 10]"

definition w_added_mark :: string where
  "w_added_mark =
    bytes [226, 158, 149]"

definition w_added_tail :: string where
  "w_added_tail =
    bytes [32, 40, 208, 180, 208, 190, 208, 177, 208, 176, 208, 178, 208, 187, 208, 181, 208, 189,
    208, 176, 32, 208, 178, 32, 209, 130, 209, 128, 208, 181, 208, 186, 208, 181, 209, 128, 41]"

definition w_changed_mark :: string where
  "w_changed_mark =
    bytes [226, 156, 142]"

definition w_changed_in :: string where
  "w_changed_in =
    bytes [32, 40, 208, 184, 208, 183, 208, 188, 208, 181, 208, 189, 208, 181, 208, 189, 208, 176,
    32, 208, 178, 32, 209, 130, 209, 128, 208, 181, 208, 186, 208, 181, 209, 128, 208, 181, 58,
    32]"

definition w_ch_title :: string where
  "w_ch_title =
    bytes [208, 183, 208, 176, 208, 179, 208, 190, 208, 187, 208, 190, 208, 178, 208, 190, 208,
    186, 32, 194, 171]"

definition w_ch_arrow :: string where
  "w_ch_arrow =
    bytes [194, 187, 32, 226, 134, 146, 32, 194, 171]"

definition w_ch_close :: string where
  "w_ch_close =
    bytes [194, 187]"

definition w_arrow :: string where
  "w_arrow =
    bytes [32, 226, 134, 146, 32]"

definition w_ch_deps :: string where
  "w_ch_deps =
    bytes [208, 183, 208, 176, 208, 178, 208, 184, 209, 129, 208, 184, 208, 188, 208, 190, 209,
    129, 209, 130, 208, 184, 32, 194, 171]"

definition w_ch_est :: string where
  "w_ch_est =
    bytes [208, 190, 209, 134, 208, 181, 208, 189, 208, 186, 208, 176, 32, 194, 171]"

text \<open>\<open>EPIC_ORDER\<close> and \<open>EPIC_NAMES\<close>.\<close>

definition EPIC_ORDER :: "string list" where
  "EPIC_ORDER =
     [''E0'', ''E12'', ''E1'', ''E2'', ''E3'', ''E4'', ''E5'', ''E6'', ''E7'', ''E8'', ''E9'', ''E10'',
      ''E11'', ''E13'', ADHOC]"

definition EPIC_NAMES :: "(string \<times> string) list" where
  "EPIC_NAMES =
     [(''E0'',
    bytes [208, 154, 208, 176, 209, 128, 208, 186, 208, 176, 209, 129, 32, 208, 191, 209, 128,
    208, 190, 208, 181, 208, 186, 209, 130, 208, 176, 32, 208, 184, 32, 208, 184, 208, 189, 209,
    132, 209, 128, 208, 176, 209, 129, 209, 130, 209, 128, 209, 131, 208, 186, 209, 130, 209, 131,
    209, 128, 208, 176]),
      (''E1'',
    ''Source Radar''),
      (''E2'',
    ''Video Intelligence / Content DNA''),
      (''E3'',
    ''Idea Inbox''),
      (''E4'',
    ''Research Agent''),
      (''E5'',
    ''Script Engine''),
      (''E6'',
    ''Production Package''),
      (''E7'',
    ''Analytics Warehouse''),
      (''E8'',
    ''Experiment Engine''),
      (''E9'',
    ''Localization Layer''),
      (''E10'',
    ''Voice Factory''),
      (''E11'',
    ''Publishing Layer''),
      (''E12'',
    bytes [208, 152, 208, 188, 208, 191, 208, 190, 209, 128, 209, 130, 32, 209, 128, 209, 131,
    209, 135, 208, 189, 208, 190, 208, 185, 32, 209, 132, 208, 176, 208, 183, 209, 139] @
    '' (Phase 0)''),
      (''E13'',
    ''Dashboard shell '' @ bytes [208, 184] @ '' /system''),
      (ADHOC,
    bytes [208, 151, 208, 176, 208, 180, 208, 176, 209, 135, 208, 184, 32, 208, 178, 208, 187,
    208, 176, 208, 180, 208, 181, 208, 187, 209, 140, 209, 134, 208, 176])]"

end
