(* ===== verification/Tracker_Doc.thy ===== *)
theory Tracker_Doc
  imports Tracker_Task
begin

text \<open>
  The document of a task: scripts/lib/markdown.mjs (the headings and the prose lines of a
  markdown text, from the tokens of the parser) and scripts/lib/tracker-doc.mjs (the form of a
  \<open>doc\<close>, its file on the disk, the section \<open>### <id>. <title>\<close> and the anchor its link needs).
  markdown-it, github-slugger and gemoji are packages: the tokens of a text, the anchor of the
  next heading after the ones before it, and the names of the emoji are parameters.
\<close>

section \<open>Markdown\<close>

record inline_token =
  in_type :: string
  in_markup :: string
  in_content :: string

record block_token =
  tok_type :: string
  tok_tag :: string
  tok_content :: string
  tok_map :: "(nat \<times> nat) option"
  tok_children :: "inline_token list"

record heading =
  h_level :: nat
  h_source :: string
  h_plain :: string
  h_texts :: "string list"
  h_markup :: "inline_token list"

record markdown_env =
  parse_markdown :: "string \<Rightarrow> block_token list"
  slug_after :: "string list \<Rightarrow> string \<Rightarrow> string"
  gemoji_names :: "string list"

text \<open>A byte order mark at the start is not text.\<close>

definition unmarked :: "string \<Rightarrow> string" where
  "unmarked s = (if starts_with [CHR 0xEF, CHR 0xBB, CHR 0xBF] s then drop 3 s else s)"

text \<open>\<open>split(/\r\n?|\n/)\<close>\<close>

fun split_lines :: "string \<Rightarrow> string list" where
  "split_lines [] = [[]]"
| "split_lines (c # cs) =
     (if c = CHR 10 then [] # split_lines cs
      else if c = CHR 13 then
        (case cs of
           d # ds \<Rightarrow> if d = CHR 10 then [] # split_lines ds else [] # split_lines cs
         | [] \<Rightarrow> [] # split_lines cs)
      else (case split_lines cs of [] \<Rightarrow> [[c]] | l # ls \<Rightarrow> (c # l) # ls))"

definition skipped_lines :: "block_token list \<Rightarrow> nat set" where
  "skipped_lines toks =
     \<Union> (set (map (\<lambda>t. case tok_map t of
         None \<Rightarrow> {}
       | Some (a, b) \<Rightarrow> if tok_type t = ''fence'' \<or> tok_type t = ''html_block'' then {a..<b} else {}) toks))"

definition proseLineEntries :: "markdown_env \<Rightarrow> string \<Rightarrow> (nat \<times> string) list" where
  "proseLineEntries env marked =
     (let t = unmarked marked; skipped = skipped_lines (parse_markdown env t) in
      filter (\<lambda>(i, l). i \<notin> skipped) (zip [0..<length (split_lines t)] (split_lines t)))"

definition proseLines :: "markdown_env \<Rightarrow> string \<Rightarrow> string list" where
  "proseLines env marked = map snd (proseLineEntries env marked)"

definition plain_token :: "inline_token \<Rightarrow> bool" where
  "plain_token t \<longleftrightarrow> in_type t = ''text'' \<or> in_type t = ''code_inline''"

definition heading_of :: "block_token \<Rightarrow> block_token \<Rightarrow> heading" where
  "heading_of opened content =
     \<lparr>h_level = nat_of_digits (tl (tok_tag opened)),
      h_source = tok_content content,
      h_plain = concat (map in_content (filter plain_token (tok_children content))),
      h_texts = map in_content (filter (\<lambda>t. in_type t = ''text'') (tok_children content)),
      h_markup = filter (\<lambda>t. \<not> plain_token t) (tok_children content)\<rparr>"

fun headings_of_tokens :: "block_token list \<Rightarrow> heading list" where
  "headings_of_tokens (a # b # ts) =
     (if tok_type a = ''heading_open'' \<and> tok_type b = ''inline''
      then heading_of a b # headings_of_tokens (b # ts) else headings_of_tokens (b # ts))"
| "headings_of_tokens _ = []"

definition headingsOf :: "markdown_env \<Rightarrow> string \<Rightarrow> heading list" where
  "headingsOf env t = headings_of_tokens (parse_markdown env (unmarked t))"

section \<open>The form of a doc, and its file\<close>

definition DEFAULT_DOC :: string where
  "DEFAULT_DOC = ''00_STATUS.md''"

text \<open>What follows \<open>/^\.{0,2}\/?docs[\\/]/\<close>, if it matches.\<close>

definition after_docs :: "string \<Rightarrow> string option" where
  "after_docs doc =
     (let dots = length (takeWhile (\<lambda>c. c = CHR ''.'') (take 2 doc));
          r1 = drop dots doc;
          r2 = (if starts_with ''/'' r1 then drop 1 r1 else r1);
          r3 = drop 4 r2 in
      if starts_with ''docs'' r2 \<and> r3 \<noteq> [] \<and> (hd r3 = CHR 92 \<or> hd r3 = CHR ''/'')
      then Some (tl r3) else None)"

definition drive_letter :: "string \<Rightarrow> bool" where
  "drive_letter s \<longleftrightarrow>
     length s \<ge> 2 \<and> (upper_letter (s ! 0) \<or> lower_letter (s ! 0)) \<and> s ! 1 = CHR '':''"

definition docFormProblem :: "(string \<Rightarrow> bool) \<Rightarrow> string option \<Rightarrow> string option" where
  "docFormProblem isAbsolute given =
     (case given of
        None \<Rightarrow> Some ''doc is missing''
      | Some doc \<Rightarrow>
          if trim_text doc = [] then Some ''doc is empty''
          else (case after_docs doc of
              Some rest \<Rightarrow>
                Some (''doc '' @ quoted doc @ '' starts with docs/: the tracker adds docs/ itself, give ''
                      @ quoted rest)
            | None \<Rightarrow>
                if isAbsolute doc \<or> drive_letter doc \<or> starts_with ''/'' doc then
                  Some (''doc '' @ quoted doc @ '' is an absolute path: give a path from docs/'')
                else if CHR 92 \<in> set doc then
                  Some (''doc '' @ quoted doc @ '' has a backslash: separate the directories with /'')
                else if list_ex (\<lambda>s. s = ''.'' \<or> s = ''..'') (split_on (CHR ''/'') doc) then
                  Some (''doc '' @ quoted doc
                    @ '' has a . or .. segment: give a path from docs/ that stays in it'')
                else None))"

record disk =
  read_dir :: "string \<Rightarrow> thrown + string list"
  stat_file :: "string \<Rightarrow> thrown + bool"
  read_text :: "string \<Rightarrow> thrown + string"
  path_join :: "string \<Rightarrow> string \<Rightarrow> string"
  is_absolute :: "string \<Rightarrow> bool"

definition namesIn :: "disk \<Rightarrow> string \<Rightarrow> thrown + string list" where
  "namesIn d dir =
     (case read_dir d dir of
        Inl e \<Rightarrow> if codeOf e = Some ''ENOENT'' \<or> codeOf e = Some ''ENOTDIR'' then Inr [] else Inl e
      | Inr ns \<Rightarrow> Inr ns)"

fun walk_segments :: "disk \<Rightarrow> string \<Rightarrow> string \<Rightarrow> string list \<Rightarrow> thrown + string option" where
  "walk_segments d doc path [] =
     and_then (stat_file d path)
       (\<lambda>f. Inr (if f then None
                 else Some (''doc '' @ quoted doc @ '' names no file: docs/'' @ doc @ '' is not a file'')))"
| "walk_segments d doc path (s # ss) =
     and_then (namesIn d path)
       (\<lambda>names. if s \<in> set names then walk_segments d doc (path_join d path s) ss
                else Inr (Some (case List.find (\<lambda>n. lower n = lower s) names of
                    None \<Rightarrow> ''doc '' @ quoted doc @ '' names no file: docs/'' @ doc @ '' is not on disk''
                  | Some other \<Rightarrow> ''doc '' @ quoted doc @ '' names no file: '' @ quoted s @ '' is ''
                        @ quoted other @ '' on disk, and the case counts'')))"

definition docProblem :: "disk \<Rightarrow> string option \<Rightarrow> string \<Rightarrow> thrown + string option" where
  "docProblem d given docsDir =
     (case docFormProblem (is_absolute d) given of
        Some p \<Rightarrow> Inr (Some p)
      | None \<Rightarrow>
          (case given of
             None \<Rightarrow> Inr None
           | Some doc \<Rightarrow> walk_segments d doc docsDir (split_on (CHR ''/'') doc)))"

fun badDocs :: "disk \<Rightarrow> string \<Rightarrow> (string \<times> string option) list \<Rightarrow> thrown + string list" where
  "badDocs d docsDir [] = Inr []"
| "badDocs d docsDir ((i, doc) # ts) =
     and_then (docProblem d doc docsDir)
       (\<lambda>p. and_then (badDocs d docsDir ts)
          (\<lambda>bad. Inr (case p of None \<Rightarrow> bad | Some m \<Rightarrow> (i @ '': '' @ m) # bad)))"

text \<open>A doc that is taken stays in \<open>docs/\<close>: none of its segments climbs.\<close>

lemma docFormProblem_None:
  assumes "docFormProblem isAbsolute (Some doc) = None"
  shows "\<not> isAbsolute doc \<and> hd (split_on (CHR ''/'') doc) \<noteq> [] \<and> CHR 92 \<notin> set doc
    \<and> ''..'' \<notin> set (split_on (CHR ''/'') doc) \<and> ''.'' \<notin> set (split_on (CHR ''/'') doc)"
proof -
  have neq: "doc \<noteq> []"
    using assms by (auto simp: docFormProblem_def trim_text_def)
  have "\<not> starts_with ''/'' doc"
    using assms by (auto simp: docFormProblem_def split: if_splits option.splits)
  with neq have "hd (split_on (CHR ''/'') doc) \<noteq> []"
    by (cases doc) (auto simp: starts_with_def split: list.splits)
  then show ?thesis
    using assms by (auto simp: docFormProblem_def list_ex_iff split: if_splits option.splits)
qed

text \<open>And every directory on the way holds the next segment with the case it is written with.\<close>

fun on_disk :: "disk \<Rightarrow> string \<Rightarrow> string list \<Rightarrow> bool" where
  "on_disk d path [] = (stat_file d path = Inr True)"
| "on_disk d path (s # ss) =
     ((\<exists>names. read_dir d path = Inr names \<and> s \<in> set names) \<and> on_disk d (path_join d path s) ss)"

lemma walk_segments_None: "walk_segments d doc path ss = Inr None \<Longrightarrow> on_disk d path ss"
proof (induction ss arbitrary: path)
  case Nil
  then show ?case by (auto simp: and_then_Inr split: if_splits)
next
  case (Cons s ss)
  then show ?case
    by (auto simp: and_then_Inr namesIn_def split: if_splits sum.splits)
qed

lemma docProblem_None:
  assumes "docProblem d (Some doc) docsDir = Inr None"
  shows "docFormProblem (is_absolute d) (Some doc) = None
    \<and> on_disk d docsDir (split_on (CHR ''/'') doc)"
  using assms walk_segments_None by (auto simp: docProblem_def split: option.splits)

section \<open>Sections and anchors\<close>

text \<open>
  A slugger is an object that remembers the headings it was given: the anchor of the next one
  is a function of the texts before it.
\<close>

definition anchorOf :: "markdown_env \<Rightarrow> string \<Rightarrow> string" where
  "anchorOf env t = slug_after env [] t"

definition sectionHeading :: "string \<Rightarrow> string \<Rightarrow> string" where
  "sectionHeading i title = ''### '' @ i @ ''. '' @ title"

definition slug :: "markdown_env \<Rightarrow> string \<Rightarrow> string \<Rightarrow> string" where
  "slug env i title = anchorOf env (i @ ''. '' @ title)"

definition GITHUB_CUSTOM_EMOJI :: "string list" where
  "GITHUB_CUSTOM_EMOJI =
     [''accessibility'', ''atom'', ''basecamp'', ''basecampy'', ''bowtie'', ''dependabot'', ''electron'',
      ''feelsgood'', ''finnadie'', ''fishsticks'', ''goberserk'', ''godmode'', ''hurtrealbad'',
      ''neckbeard'', ''octocat'', ''rage1'', ''rage2'', ''rage3'', ''rage4'', ''shipit'', ''suspect'',
      ''trollface'']"

definition nameOfMarkup :: "inline_token \<Rightarrow> string" where
  "nameOfMarkup t =
     (let ty = in_type t in
      if ty = ''em_open'' \<or> ty = ''strong_open''
      then ''emphasis ('' @ (case in_markup t of [] \<Rightarrow> ''*'' | c # _ \<Rightarrow> [c]) @ '')''
      else if ty = ''link_open'' then ''a link ([)''
      else if ty = ''image'' then ''an image (![)''
      else if ty = ''html_inline'' then ''inline HTML (<)''
      else if ty = ''s_open'' then ''strikethrough (~)''
      else ''markup ('' @ ty @ '')'')"

text \<open>The names \<open>matchAll(/(?=:([^:\s]+):)/g)\<close> captures, in order.\<close>

fun emoji_candidates :: "string list \<Rightarrow> string list" where
  "emoji_candidates [] = []"
| "emoji_candidates (g # gs) =
     (let nm = takeWhile (\<lambda>x. x \<noteq> '':'' \<and> \<not> blank_glyph x) gs;
          r = dropWhile (\<lambda>x. x \<noteq> '':'' \<and> \<not> blank_glyph x) gs in
      if g = '':'' \<and> nm \<noteq> [] \<and> r \<noteq> [] \<and> hd r = '':''
      then concat nm # emoji_candidates gs else emoji_candidates gs)"

definition emojiIn :: "markdown_env \<Rightarrow> heading \<Rightarrow> string option" where
  "emojiIn env h =
     map_option (\<lambda>n. ''an emoji (:'' @ n @ '':)'')
       (List.find (\<lambda>n. n \<in> set (gemoji_names env) \<or> n \<in> set GITHUB_CUSTOM_EMOJI)
         (concat (map (\<lambda>t. emoji_candidates (glyphs t)) (h_texts h))))"

definition markupIn :: "markdown_env \<Rightarrow> heading \<Rightarrow> string option" where
  "markupIn env h = (case h_markup h of t # _ \<Rightarrow> Some (nameOfMarkup t) | [] \<Rightarrow> emojiIn env h)"

text \<open>\<open>^(id)\. (?=\S)\<close>: an id holds no dot, so the first dot ends it.\<close>

definition SECTION_ID :: "string \<Rightarrow> (string \<times> string) option" where
  "SECTION_ID plain =
     (let i = takeWhile (\<lambda>c. c \<noteq> CHR ''.'') plain; r = drop (length i + 2) plain in
      if TASK_ID i \<and> take 2 (drop (length i) plain) = ''. '' \<and> r \<noteq> []
         \<and> \<not> blank_glyph (hd (glyphs r))
      then Some (i, r) else None)"

record tracker_section =
  s_heading :: heading
  s_title :: string
  s_anchor :: string
  s_given :: string
  s_emojiBefore :: nat

record section_index =
  ix_sections :: "(string \<times> tracker_section) list"
  ix_emoji :: "(heading \<times> string) list"

text \<open>One heading of the document: the anchors asked for so far are those of the headings before
  it.\<close>

definition index_heading ::
  "markdown_env \<Rightarrow> string list \<Rightarrow> heading \<Rightarrow> section_index \<Rightarrow> section_index"
where
  "index_heading env before h ix =
     (let anchor = anchorOf env (h_plain h);
          given = slug_after env before (h_plain h);
          ix1 = (case emojiIn env h of
                   None \<Rightarrow> ix
                 | Some e \<Rightarrow> ix\<lparr>ix_emoji := ix_emoji ix @ [(h, e)]\<rparr>)
      in if h_level h \<noteq> 3 then ix1
         else (case SECTION_ID (h_plain h) of
             None \<Rightarrow> ix1
           | Some (i, title) \<Rightarrow>
               ix1\<lparr>ix_sections := ix_sections ix1 @
                 [(i, \<lparr>s_heading = h, s_title = title, s_anchor = anchor, s_given = given,
                       s_emojiBefore = length (ix_emoji ix1)\<rparr>)]\<rparr>))"

fun index_headings ::
  "markdown_env \<Rightarrow> string list \<Rightarrow> heading list \<Rightarrow> section_index \<Rightarrow> section_index"
where
  "index_headings env before [] ix = ix"
| "index_headings env before (h # hs) ix =
     index_headings env (before @ [h_plain h]) hs (index_heading env before h ix)"

definition sectionIndex :: "markdown_env \<Rightarrow> string \<Rightarrow> section_index" where
  "sectionIndex env t = index_headings env [] (headingsOf env t) \<lparr>ix_sections = [], ix_emoji = []\<rparr>"

definition sections_of :: "section_index \<Rightarrow> string \<Rightarrow> tracker_section list" where
  "sections_of ix i = map snd (filter (\<lambda>(j, s). j = i) (ix_sections ix))"

definition readIndex :: "markdown_env \<Rightarrow> disk \<Rightarrow> string \<Rightarrow> thrown + section_index" where
  "readIndex env d path = and_then (read_text d path) (\<lambda>t. Inr (sectionIndex env t))"

definition unwritableTitle :: "markdown_env \<Rightarrow> string \<Rightarrow> string \<Rightarrow> string option" where
  "unwritableTitle env i title =
     (case sections_of (sectionIndex env (sectionHeading i title @ [CHR 10])) i of
        [] \<Rightarrow> Some ''is no section heading as written''
      | written # _ \<Rightarrow>
          (case markupIn env (s_heading written) of
             Some m \<Rightarrow> Some (''has '' @ m)
           | None \<Rightarrow>
               if s_anchor written \<noteq> slug env i title
               then Some (''reads as '' @ quoted (s_title written) @ '' in a heading'') else None))"

datatype section_command = Cmd_add | Cmd_set | Cmd_set_title | Cmd_check

definition TITLE_LABEL :: string where
  "TITLE_LABEL = ''  the title of the section: ''"

definition missing_section :: "markdown_env \<Rightarrow> string \<Rightarrow> string \<Rightarrow> string \<Rightarrow> section_command \<Rightarrow> string" where
  "missing_section env i title doc cmd =
     (let prefix = sectionHeading i []; wanted = quoted (sectionHeading i title) in
      case unwritableTitle env i title of
        Some u \<Rightarrow>
          (let d = ''docs/'' @ doc;
               fix0 = (case cmd of
                  Cmd_add \<Rightarrow> ''give add a title of plain text, then write its section in '' @ d
                | Cmd_set \<Rightarrow> ''give the same set --title a title of plain text and write its section in '' @ d
                | Cmd_set_title \<Rightarrow> ''give the same set a title of plain text with --title in place of the one given, and write its section in '' @ d
                | Cmd_check \<Rightarrow> ''give set '' @ i @ '' --title a title of plain text and write its section in '' @ d)
           in ''no section '' @ quoted (prefix @ ''...'') @ '' in '' @ d @ '', and the title '' @ quoted title
              @ '' '' @ u @ '', so a section written with it is refused too: '' @ fix0)
      | None \<Rightarrow>
          (let fix0 = (case cmd of
                  Cmd_add \<Rightarrow> ''write the section '' @ wanted @ '' in docs/'' @ doc @ '' first, then add the task''
                | Cmd_set \<Rightarrow> ''write the section '' @ wanted @ '' in docs/'' @ doc @ '' first, or give --doc the document that has it''
                | Cmd_set_title \<Rightarrow> ''write the section '' @ wanted @ '' in docs/'' @ doc @ '' first, or give --doc the document that has it''
                | Cmd_check \<Rightarrow> ''write the section '' @ wanted @ '' in docs/'' @ doc @ '', or give set '' @ i @ '' --doc the document that has it'')
           in ''no section '' @ quoted (prefix @ ''...'') @ '' in docs/'' @ doc @ '': '' @ fix0))"

definition title_mismatch :: "string \<Rightarrow> string \<Rightarrow> string \<Rightarrow> section_command \<Rightarrow> string \<Rightarrow> string" where
  "title_mismatch i title doc cmd own =
     (let fix0 = (case cmd of
          Cmd_add \<Rightarrow> ''give add the title of the section, or retitle the section''
        | Cmd_set \<Rightarrow> ''give the same set --title with the title of the section too, or retitle the section''
        | Cmd_set_title \<Rightarrow> ''give the same set the title of the section with --title in place of the one given, or retitle the section''
        | Cmd_check \<Rightarrow> ''give set '' @ i @ '' --title the title of the section, or retitle the section'')
      in ''title '' @ quoted title @ '' does not match the section '' @ quoted (sectionHeading i [] @ own)
         @ '' of docs/'' @ doc @ '': the link of docs/00_STATUS.md misses it; '' @ fix0 @ [CHR 10]
         @ TITLE_LABEL @ own)"

definition section_of_index ::
  "markdown_env \<Rightarrow> string \<Rightarrow> string \<Rightarrow> string \<Rightarrow> section_command \<Rightarrow> section_index \<Rightarrow> string option"
where
  "section_of_index env i title doc cmd ix =
     (case sections_of ix i of
        [] \<Rightarrow> Some (missing_section env i title doc cmd)
      | sec # others \<Rightarrow>
          (let src = quoted (''### '' @ h_source (s_heading sec)) in
           if others \<noteq> [] then
             Some (show_nat (length (sec # others)) @ '' sections ''
               @ quoted (sectionHeading i [] @ ''...'') @ '' in docs/'' @ doc @ '': keep one of them'')
           else (case markupIn env (s_heading sec) of
               Some m \<Rightarrow>
                 Some (''the section '' @ src @ '' of docs/'' @ doc @ '' has '' @ m
                   @ '', and the anchor of the link of docs/00_STATUS.md is not worked out for markup: write the heading as plain text, then give the tracker its title'')
             | None \<Rightarrow>
                 if CHR 13 \<in> set (s_title sec) \<or> CHR 10 \<in> set (s_title sec) then
                   Some (''the section '' @ src @ '' of docs/'' @ doc
                     @ '' has a line break entity, write the heading as plain text'')
                 else if s_anchor sec \<noteq> slug env i title then
                   (if trim_text (s_title sec) \<noteq> s_title sec then
                      Some (''the section '' @ src @ '' of docs/'' @ doc
                        @ '' has a blank entity at the end of its title, which no title given to the tracker has: write the heading as plain text'')
                    else Some (title_mismatch i title doc cmd (s_title sec)))
                 else
                   (case ix_emoji ix of
                      (h, e) # _ \<Rightarrow>
                        if s_emojiBefore sec > 0 then
                          Some (''the heading '' @ quoted (h_plain h) @ '' of docs/'' @ doc @ '' has '' @ e
                            @ '', whose anchor is not worked out: the anchor GitHub gives the section '' @ src
                            @ '' may be another; write that heading as plain text'')
                        else if s_given sec \<noteq> s_anchor sec then
                          Some (''GitHub gives the section '' @ src @ '' of docs/'' @ doc @ '' the anchor ''
                            @ quoted (''#'' @ s_given sec) @ '', an earlier heading having ''
                            @ quoted (''#'' @ s_anchor sec)
                            @ '': the link of docs/00_STATUS.md lands on that one; give each of them a text of its own'')
                        else None
                    | [] \<Rightarrow>
                        if s_given sec \<noteq> s_anchor sec then
                          Some (''GitHub gives the section '' @ src @ '' of docs/'' @ doc @ '' the anchor ''
                            @ quoted (''#'' @ s_given sec) @ '', an earlier heading having ''
                            @ quoted (''#'' @ s_anchor sec)
                            @ '': the link of docs/00_STATUS.md lands on that one; give each of them a text of its own'')
                        else None))))"

definition sectionProblem ::
  "markdown_env \<Rightarrow> (string \<Rightarrow> thrown + section_index) \<Rightarrow> (string \<Rightarrow> string \<Rightarrow> string)
   \<Rightarrow> string \<Rightarrow> string \<Rightarrow> string \<Rightarrow> string \<Rightarrow> section_command \<Rightarrow> thrown + string option"
where
  "sectionProblem env indexOfPath joinPath docsDir i title doc cmd =
     (if doc = DEFAULT_DOC then Inr None
      else and_then (indexOfPath (joinPath docsDir doc))
        (\<lambda>ix. Inr (section_of_index env i title doc cmd ix)))"

text \<open>The tracker as a whole: a document is read and indexed once.\<close>

fun bad_sections_from ::
  "markdown_env \<Rightarrow> disk \<Rightarrow> string \<Rightarrow> (string \<times> section_index) list \<Rightarrow> (string \<times> string \<times> string) list
   \<Rightarrow> thrown + string list"
where
  "bad_sections_from env d docsDir known [] = Inr []"
| "bad_sections_from env d docsDir known ((i, title, doc) # ts) =
     (let path = path_join d docsDir doc;
          fetched = (if doc = DEFAULT_DOC then Inr known
                     else (case map_of known path of
                         Some _ \<Rightarrow> Inr known
                       | None \<Rightarrow> and_then (readIndex env d path) (\<lambda>ix. Inr ((path, ix) # known))))
      in and_then fetched (\<lambda>known1.
           and_then (sectionProblem env (\<lambda>p. case map_of known1 p of Some ix \<Rightarrow> Inr ix
                                             | None \<Rightarrow> readIndex env d p)
                       (path_join d) docsDir i title doc Cmd_check)
             (\<lambda>p. and_then (bad_sections_from env d docsDir known1 ts)
                (\<lambda>bad. Inr (case p of None \<Rightarrow> bad | Some m \<Rightarrow> (i @ '': '' @ m) # bad)))))"

definition badSections ::
  "markdown_env \<Rightarrow> disk \<Rightarrow> string \<Rightarrow> (string \<times> string \<times> string) list \<Rightarrow> thrown + string list"
where
  "badSections env d docsDir ts = bad_sections_from env d docsDir [] ts"

section \<open>The link of a task lands on its section\<close>

text \<open>The anchors GitHub gives the headings of a document, in their order.\<close>

fun anchors_given :: "markdown_env \<Rightarrow> string list \<Rightarrow> heading list \<Rightarrow> string list" where
  "anchors_given env before [] = []"
| "anchors_given env before (h # hs) =
     slug_after env before (h_plain h) # anchors_given env (before @ [h_plain h]) hs"

lemma length_anchors_given [simp]: "length (anchors_given env before hs) = length hs"
  by (induction hs arbitrary: before) auto

text \<open>Every entry of the index is a heading of the document, at its place.\<close>

lemma index_heading_sections:
  assumes "(i, sec) \<in> set (ix_sections (index_heading env before h ix))"
  shows "(i, sec) \<in> set (ix_sections ix)
    \<or> (s_heading sec = h \<and> h_level h = 3 \<and> SECTION_ID (h_plain h) = Some (i, s_title sec)
       \<and> s_anchor sec = anchorOf env (h_plain h) \<and> s_given sec = slug_after env before (h_plain h))"
  using assms by (auto simp: index_heading_def Let_def split: if_splits option.splits)

lemma index_headings_sections:
  assumes "(i, sec) \<in> set (ix_sections (index_headings env before hs ix))"
  shows "(i, sec) \<in> set (ix_sections ix)
    \<or> (\<exists>n < length hs. s_heading sec = hs ! n \<and> h_level (hs ! n) = 3
         \<and> SECTION_ID (h_plain (hs ! n)) = Some (i, s_title sec)
         \<and> s_anchor sec = anchorOf env (h_plain (hs ! n))
         \<and> s_given sec = anchors_given env before hs ! n)"
  using assms
proof (induction hs arbitrary: before ix)
  case Nil
  then show ?case by simp
next
  case (Cons h hs)
  from Cons.prems have
    "(i, sec) \<in> set (ix_sections (index_headings env (before @ [h_plain h]) hs (index_heading env before h ix)))"
    by simp
  from Cons.IH [OF this] consider
      (here) "(i, sec) \<in> set (ix_sections (index_heading env before h ix))"
    | (later) n where "n < length hs" "s_heading sec = hs ! n" "h_level (hs ! n) = 3"
      "SECTION_ID (h_plain (hs ! n)) = Some (i, s_title sec)"
      "s_anchor sec = anchorOf env (h_plain (hs ! n))"
      "s_given sec = anchors_given env (before @ [h_plain h]) hs ! n" by blast
  then show ?case
  proof cases
    case here
    then show ?thesis
      using index_heading_sections [OF here] by (auto intro: exI [of _ 0])
  next
    case later
    then show ?thesis by (intro disjI2 exI [of _ "Suc n"]) simp
  qed
qed

lemma section_of_index_None:
  assumes "section_of_index env i title doc cmd ix = None"
  shows "\<exists>sec. sections_of ix i = [sec] \<and> markupIn env (s_heading sec) = None
    \<and> s_anchor sec = slug env i title \<and> s_given sec = slug env i title
    \<and> (ix_emoji ix = [] \<or> s_emojiBefore sec = 0)"
  using assms
  by (auto simp: section_of_index_def Let_def split: list.splits if_splits option.splits)

text \<open>
  What github-slugger documents: an anchor it gives was not given to a heading before.
\<close>

definition slugger_numbers :: "markdown_env \<Rightarrow> bool" where
  "slugger_numbers env \<longleftrightarrow> (\<forall>hs. distinct (anchors_given env [] hs))"


text \<open>A slugger that numbers every heading, and a document with one section.\<close>

definition numbering_env :: markdown_env where
  "numbering_env =
     \<lparr>parse_markdown = (\<lambda>t.
        [\<lparr>tok_type = ''heading_open'', tok_tag = ''h3'', tok_content = [], tok_map = Some (0, 1),
          tok_children = []\<rparr>,
         \<lparr>tok_type = ''inline'', tok_tag = [], tok_content = t, tok_map = Some (0, 1),
          tok_children = [\<lparr>in_type = ''text'', in_markup = [], in_content = t\<rparr>]\<rparr>]),
      slug_after = (\<lambda>before t. show_nat (length before) @ CHR ''-'' # t),
      gemoji_names = [''tada'']\<rparr>"

lemma numbering_anchors:
  "n < length hs \<Longrightarrow> anchors_given numbering_env before hs ! n =
     show_nat (length before + n) @ CHR ''-'' # h_plain (hs ! n)"
proof (induction hs arbitrary: before n)
  case (Cons h hs)
  have "slug_after numbering_env b t = show_nat (length b) @ CHR ''-'' # t" for b t
    by (simp add: numbering_env_def)
  with Cons show ?case by (cases n) simp_all
qed simp

lemma numbering_slugger: "slugger_numbers numbering_env"
proof -
  have "m = n" if eq: "show_nat m @ CHR ''-'' # x = show_nat n @ CHR ''-'' # y" for m n :: nat and x y
  proof -
    have nodash: "CHR ''-'' \<notin> set (show_nat k)" for k
      using show_nat_digits [of "CHR ''-''" k] by (auto simp: is_digit_def)
    show ?thesis using append_sep_inject [OF nodash nodash eq] by simp
  qed
  note apart = this
  show ?thesis
    unfolding slugger_numbers_def distinct_conv_nth
  proof (intro allI impI)
    fix hs :: "heading list" and m n
    assume "m < length (anchors_given numbering_env [] hs)" "n < length (anchors_given numbering_env [] hs)"
      and "m \<noteq> n"
    then show "anchors_given numbering_env [] hs ! m \<noteq> anchors_given numbering_env [] hs ! n"
      by (simp add: numbering_anchors) (blast dest: apart)
  qed
qed


end
