(* ===== verification/Tracker_Status.thy ===== *)
theory Tracker_Status
  imports Tracker_Words Tracker_Doc
begin

text \<open>
  The tasks of docs/tasks/tasks.json, the questions asked of them (what can be taken next, what
  a task waits for) and docs/00_STATUS.md, the page written from them: scripts/tasks.mjs,
  \<open>byOrder\<close> to \<open>render\<close>.  \<open>localeCompare\<close> is a parameter; numbers of days are exact rationals.
\<close>

section \<open>Tasks\<close>

datatype task_status = St_todo | St_in_progress | St_blocked | St_done

record task =
  t_id :: string
  t_epic :: string
  t_title :: string
  t_estimate :: string
  t_estimate_days :: "rat option"
  t_deps :: "string list"
  t_doc :: string
  t_status :: task_status
  t_started_at :: "string option"
  t_done_at :: "string option"
  t_blocked_reason :: "string option"
  t_note :: "string option"
  t_added_at :: "string option"

definition ICON :: "task_status \<Rightarrow> string" where
  "ICON s = (case s of St_todo \<Rightarrow> i_todo | St_in_progress \<Rightarrow> i_in_progress | St_blocked \<Rightarrow> i_blocked
             | St_done \<Rightarrow> i_done)"

section \<open>Order\<close>

fun position_of :: "'a \<Rightarrow> 'a list \<Rightarrow> nat option" where
  "position_of x [] = None"
| "position_of x (y # ys) = (if x = y then Some 0 else map_option Suc (position_of x ys))"

definition epicIdx :: "string \<Rightarrow> int" where
  "epicIdx e = (case position_of e EPIC_ORDER of None \<Rightarrow> 99 | Some i \<Rightarrow> int i)"

definition byOrder :: "(string \<Rightarrow> string \<Rightarrow> int) \<Rightarrow> task \<Rightarrow> task \<Rightarrow> int" where
  "byOrder localeCompare a b =
     (let d = epicIdx (t_epic a) - epicIdx (t_epic b) in
      if d \<noteq> 0 then d else localeCompare (t_id a) (t_id b))"

text \<open>\<open>Array.prototype.sort\<close> is stable: here by insertion, an element before the ones it does not
  come after.\<close>

fun insert_by :: "('a \<Rightarrow> 'a \<Rightarrow> int) \<Rightarrow> 'a \<Rightarrow> 'a list \<Rightarrow> 'a list" where
  "insert_by cmp x [] = [x]"
| "insert_by cmp x (y # ys) = (if cmp x y \<le> 0 then x # y # ys else y # insert_by cmp x ys)"

definition sort_by :: "('a \<Rightarrow> 'a \<Rightarrow> int) \<Rightarrow> 'a list \<Rightarrow> 'a list" where
  "sort_by cmp xs = foldr (insert_by cmp) xs []"

lemma mset_insert_by [simp]: "mset (insert_by cmp x ys) = add_mset x (mset ys)"
  by (induction ys) auto

lemma mset_sort_by [simp]: "mset (sort_by cmp xs) = mset xs"
  by (induction xs) (auto simp: sort_by_def)

lemma set_sort_by [simp]: "set (sort_by cmp xs) = set xs"
  by (metis mset_sort_by set_mset_mset)

section \<open>Queries\<close>

definition find_id :: "task list \<Rightarrow> string \<Rightarrow> task option" where
  "find_id tasks i = List.find (\<lambda>t. t_id t = i) tasks"

definition is_done :: "task list \<Rightarrow> string \<Rightarrow> bool" where
  "is_done tasks i \<longleftrightarrow> (case find_id tasks i of Some t \<Rightarrow> t_status t = St_done | None \<Rightarrow> False)"

definition depsDone :: "task list \<Rightarrow> task \<Rightarrow> bool" where
  "depsDone tasks t \<longleftrightarrow> list_all (is_done tasks) (t_deps t)"

definition available :: "(string \<Rightarrow> string \<Rightarrow> int) \<Rightarrow> task list \<Rightarrow> task list" where
  "available lc tasks =
     sort_by (byOrder lc) (filter (\<lambda>t. t_status t = St_todo \<and> depsDone tasks t) tasks)"

definition pendingDeps :: "task list \<Rightarrow> task \<Rightarrow> string list" where
  "pendingDeps tasks t = filter (\<lambda>d. \<not> is_done tasks d) (t_deps t)"

lemma pendingDeps_Nil: "pendingDeps tasks t = [] \<longleftrightarrow> depsDone tasks t"
  by (simp add: pendingDeps_def depsDone_def filter_empty_conv list_all_iff)

lemma available_iff:
  "t \<in> set (available lc tasks) \<longleftrightarrow> t \<in> set tasks \<and> t_status t = St_todo \<and> pendingDeps tasks t = []"
  by (auto simp: available_def pendingDeps_Nil)

section \<open>Helpers of the page\<close>

definition task_link :: "markdown_env \<Rightarrow> task \<Rightarrow> string" where
  "task_link env t = ''['' @ t_id t @ '']('' @ t_doc t @ ''#'' @ slug env (t_id t) (t_title t) @ '')''"

definition bar :: "nat \<Rightarrow> nat \<Rightarrow> nat \<Rightarrow> string" where
  "bar completed all width =
     (let filled = (if all = 0 then 0 else nat \<lfloor>(of_nat completed / of_nat all * of_nat width + 1 / 2 :: rat)\<rfloor>)
      in [CHR 96] @ concat (replicate filled w_bar_full) @ concat (replicate (width - filled) w_bar_empty)
         @ [CHR 96] @ '' '' @ show_nat completed @ ''/'' @ show_nat all)"

definition days :: "task list \<Rightarrow> rat" where
  "days ts = sum_list (map (\<lambda>t. case t_estimate_days t of Some d \<Rightarrow> d | None \<Rightarrow> 0) ts)"

definition fmtDays :: "rat \<Rightarrow> string" where
  "fmtDays n = (if is_int_rat n then show_int \<lfloor>n\<rfloor> else show_fixed 1 (nat \<lfloor>n * 10 + 1 / 2\<rfloor>))"

definition cell :: "string \<Rightarrow> string" where
  "cell s = concat (map (\<lambda>c. if c = CHR ''|'' then [CHR 92, CHR ''|''] else [c]) s)"

definition or_empty :: "string option \<Rightarrow> string" where
  "or_empty x = (case x of None \<Rightarrow> [] | Some s \<Rightarrow> s)"

definition row :: "string list \<Rightarrow> string" where
  "row cells = ''| '' @ join_str '' | '' cells @ '' |''"

definition epic_name :: "string \<Rightarrow> string" where
  "epic_name e = (case map_of EPIC_NAMES e of Some n \<Rightarrow> n | None \<Rightarrow> ''undefined'')"

section \<open>The page\<close>

text \<open>The line of the generation date, the only one that depends on the day.\<close>

definition generated_line :: "string \<Rightarrow> string" where
  "generated_line today = w_generated @ w_generated_by @ today @ w_generated_rest"

definition in_order :: "(string \<Rightarrow> string \<Rightarrow> int) \<Rightarrow> task_status \<Rightarrow> task list \<Rightarrow> task list" where
  "in_order lc s tasks = sort_by (byOrder lc) (filter (\<lambda>t. t_status t = s) tasks)"

definition status_epics :: "task list \<Rightarrow> string list" where
  "status_epics tasks = filter (\<lambda>e. list_ex (\<lambda>t. t_epic t = e) tasks) EPIC_ORDER"

definition currentEpic :: "task list \<Rightarrow> string option" where
  "currentEpic tasks =
     List.find (\<lambda>e. list_ex (\<lambda>t. t_epic t = e \<and> t_status t \<noteq> St_done) tasks) (status_epics tasks)"

definition summary_lines ::
  "markdown_env \<Rightarrow> (string \<Rightarrow> string \<Rightarrow> int) \<Rightarrow> task list \<Rightarrow> string list"
where
  "summary_lines env lc tasks =
     (let doneT = filter (\<lambda>t. t_status t = St_done) tasks;
          inProg = in_order lc St_in_progress tasks;
          blocked = in_order lc St_blocked tasks in
      [w_summary, [],
       w_progress @ bar (length doneT) (length tasks) 30 @ w_tasks @ fmtDays (days doneT) @ '' / ''
         @ fmtDays (days tasks) @ w_est_days,
       w_current_epic @ (case currentEpic tasks of
           Some e \<Rightarrow> e @ w_dash @ epic_name e | None \<Rightarrow> w_all_done),
       w_in_work @ (if inProg \<noteq> []
         then join_str ''; '' (map (\<lambda>t. task_link env t @ '' '' @ t_title t) inProg) else w_nothing),
       w_blocked @ (if blocked \<noteq> []
         then join_str ''; '' (map (\<lambda>t. task_link env t @ '' (''
                @ (case t_blocked_reason t of None \<Rightarrow> ''?'' | Some r \<Rightarrow> r) @ '')'') blocked)
         else w_none),
       []])"

definition now_lines :: "markdown_env \<Rightarrow> (string \<Rightarrow> string \<Rightarrow> int) \<Rightarrow> task list \<Rightarrow> string list" where
  "now_lines env lc tasks =
     (let inProg = in_order lc St_in_progress tasks in
      [w_now, []]
      @ (if inProg \<noteq> [] then
           [w_now_header, ''|---|---|---|---|'']
           @ map (\<lambda>t. row [task_link env t, cell (t_title t), cell (t_estimate t), or_empty (t_started_at t)])
               inProg
         else [w_now_none])
      @ [[]])"

definition next_lines :: "markdown_env \<Rightarrow> (string \<Rightarrow> string \<Rightarrow> int) \<Rightarrow> task list \<Rightarrow> string list" where
  "next_lines env lc tasks =
     (let nxt = take 5 (available lc tasks) in
      [w_next, []]
      @ (case nxt of
           first # _ \<Rightarrow>
             [w_next_header, ''|---|---|---|---|'']
             @ map (\<lambda>t. row [task_link env t, cell (t_title t), cell (t_estimate t), t_epic t]) nxt
             @ [[], w_take @ t_id first @ [CHR 96]]
         | [] \<Rightarrow> [w_next_none])
      @ [[]])"

definition blocked_lines :: "markdown_env \<Rightarrow> (string \<Rightarrow> string \<Rightarrow> int) \<Rightarrow> task list \<Rightarrow> string list" where
  "blocked_lines env lc tasks =
     (let blocked = in_order lc St_blocked tasks in
      if blocked = [] then []
      else [w_blocked_section, [], w_blocked_header, ''|---|---|---|'']
           @ map (\<lambda>t. row [task_link env t, cell (t_title t), cell (or_empty (t_blocked_reason t))]) blocked
           @ [[]])"

definition epic_row :: "task list \<Rightarrow> string \<Rightarrow> string" where
  "epic_row tasks e =
     (let al = filter (\<lambda>t. t_epic t = e) tasks;
          d = filter (\<lambda>t. t_status t = St_done) al;
          doc = (case al of t # _ \<Rightarrow> t_doc t | [] \<Rightarrow> []);
          st = (if length d = length al then i_done
                else if list_ex (\<lambda>t. t_status t \<noteq> St_todo) al then i_in_progress else i_todo)
      in row [st, ''**'' @ e @ ''** '' @ epic_name e, bar (length d) (length al) 12,
              fmtDays (days d) @ '' / '' @ fmtDays (days al), ''['' @ doc @ '']('' @ doc @ '')''])"

definition all_lines ::
  "markdown_env \<Rightarrow> (string \<Rightarrow> string \<Rightarrow> int) \<Rightarrow> task list \<Rightarrow> string \<Rightarrow> string list"
where
  "all_lines env lc tasks e =
     (let al = sort_by (byOrder lc) (filter (\<lambda>t. t_epic t = e) tasks);
          dep_icon = (\<lambda>d. ICON (case find_id tasks d of Some x \<Rightarrow> t_status x | None \<Rightarrow> St_todo));
          deps = (\<lambda>t. if t_deps t \<noteq> [] then join_str '' '' (map (\<lambda>d. dep_icon d @ d) (t_deps t))
                      else w_long_dash)
      in [''### '' @ e @ ''. '' @ epic_name e, [], w_all_header, ''|---|---|---|---|---|---|---|'']
         @ map (\<lambda>t. row [ICON (t_status t), task_link env t, cell (t_title t), cell (t_estimate t), deps t,
                         or_empty (t_started_at t), or_empty (t_done_at t)]) al
         @ [[]])"

definition howto_lines :: "string list" where
  "howto_lines =
     [w_howto, [], [CHR 96, CHR 96, CHR 96] @ ''bash'', w_howto_next, w_howto_start, w_howto_done,
      w_howto_block, w_howto_show, [CHR 96, CHR 96, CHR 96], []]"

text \<open>The lines after the generation line.\<close>

definition body_lines :: "markdown_env \<Rightarrow> (string \<Rightarrow> string \<Rightarrow> int) \<Rightarrow> task list \<Rightarrow> string list" where
  "body_lines env lc tasks =
     [] # summary_lines env lc tasks @ now_lines env lc tasks @ next_lines env lc tasks
     @ blocked_lines env lc tasks
     @ [w_by_epic, [], w_epic_header, ''|---|---|---|---|---|'']
     @ map (epic_row tasks) (status_epics tasks)
     @ [[], w_legend, [], w_all, []]
     @ concat (map (all_lines env lc tasks) (status_epics tasks))
     @ howto_lines"

definition render_text ::
  "markdown_env \<Rightarrow> (string \<Rightarrow> string \<Rightarrow> int) \<Rightarrow> string \<Rightarrow> task list \<Rightarrow> string"
where
  "render_text env lc today tasks =
     join_str [CHR 10] ([w_title, [], generated_line today] @ body_lines env lc tasks) @ [CHR 10]"

text \<open>\<open>render --check\<close>: the generation line of either side counts for nothing.\<close>

definition strip_generated :: "string \<Rightarrow> string" where
  "strip_generated t =
     join_str [CHR 10] (filter (\<lambda>l. \<not> starts_with w_generated l) (split_on (CHR 10) t))"

datatype check_outcome =
    Check_bad_docs "string list"
  | Check_bad_sections "string list"
  | Check_stale
  | Check_in_sync

text \<open>A page that cannot be read is an empty one.  The docs, the sections, the page, in that
  order; whatever the reading of a document throws is not caught.\<close>

definition render_check ::
  "markdown_env \<Rightarrow> disk \<Rightarrow> string \<Rightarrow> (string \<Rightarrow> string \<Rightarrow> int) \<Rightarrow> string \<Rightarrow> (thrown + string) \<Rightarrow> task list
   \<Rightarrow> thrown + check_outcome"
where
  "render_check env d docsDir lc today page tasks =
     (let cur = (case page of Inl _ \<Rightarrow> [] | Inr t \<Rightarrow> t) in
      and_then (badDocs d docsDir (map (\<lambda>t. (t_id t, Some (t_doc t))) tasks))
        (\<lambda>broken. if broken \<noteq> [] then Inr (Check_bad_docs broken)
          else and_then (badSections env d docsDir (map (\<lambda>t. (t_id t, t_title t, t_doc t)) tasks))
            (\<lambda>misplaced. if misplaced \<noteq> [] then Inr (Check_bad_sections misplaced)
              else Inr (if strip_generated cur \<noteq> strip_generated (render_text env lc today tasks)
                        then Check_stale else Check_in_sync))))"

section \<open>A rendered page is in sync\<close>

lemma split_on_append_sep: "split_on c (xs @ c # ys) = split_on c xs @ split_on c ys"
  by (induction xs) (auto split: list.splits)

lemma split_on_single: "c \<notin> set s \<Longrightarrow> split_on c s = [s]"
  by (induction s) auto

lemma join_str_Cons: "xs \<noteq> [] \<Longrightarrow> join_str sep (x # xs) = x @ sep @ join_str sep xs"
  by (cases xs) auto

lemma w_generated_line: "CHR 10 \<notin> set (generated_line d) \<longleftrightarrow> CHR 10 \<notin> set d"
  by (simp add: generated_line_def w_generated_def w_generated_by_def w_generated_rest_def)

lemma strip_render_day:
  assumes "CHR 10 \<notin> set d1" and "CHR 10 \<notin> set d2"
  shows "strip_generated (render_text env lc d1 tasks) = strip_generated (render_text env lc d2 tasks)"
proof -
  have ne: "body_lines env lc tasks \<noteq> []" by (simp add: body_lines_def)
  have "filter (\<lambda>l. \<not> starts_with w_generated l) (split_on (CHR 10) (render_text env lc d tasks)) =
      filter (\<lambda>l. \<not> starts_with w_generated l)
        (split_on (CHR 10) w_title @ [] # split_on (CHR 10) (join_str [CHR 10] (body_lines env lc tasks) @ [CHR 10]))"
    if "CHR 10 \<notin> set d" for d
  proof -
    have "render_text env lc d tasks =
        w_title @ CHR 10 # [] @ CHR 10 # generated_line d @ CHR 10 #
          (join_str [CHR 10] (body_lines env lc tasks) @ [CHR 10])"
      using ne by (simp add: render_text_def join_str_Cons)
    moreover have "starts_with w_generated (generated_line d)"
      by (simp add: starts_with_def generated_line_def)
    ultimately show ?thesis
      using that w_generated_line by (simp add: split_on_append_sep split_on_single)
  qed
  with assms show ?thesis by (simp add: strip_generated_def)
qed

text \<open>Right after \<open>render\<close> wrote the page, \<open>render --check\<close> of the same tracker finds it in
  sync, on that day and on any later one: the only thing it can still report is a document or a
  section that is not where the page links.\<close>

theorem rendered_page_is_in_sync:
  assumes "CHR 10 \<notin> set d1" and "CHR 10 \<notin> set d2"
  shows "render_check env d docsDir lc d2 (Inr (render_text env lc d1 tasks)) tasks \<noteq> Inr Check_stale"
  using strip_render_day [OF assms]
  by (auto simp: render_check_def Let_def and_then_Inr)

theorem rendered_page_is_in_sync_witness:
  "CHR 10 \<notin> set ''2026-11-01'' \<and> CHR 10 \<notin> set ''2026-11-02''
   \<and> (\<forall>d docsDir lc tasks. render_check numbering_env d docsDir lc ''2026-11-02''
       (Inr (render_text numbering_env lc ''2026-11-01'' tasks)) tasks \<noteq> Inr Check_stale)"
  by (intro conjI allI rendered_page_is_in_sync) simp_all

end
