(* ===== verification/Tracker_Cycle.thy ===== *)
theory Tracker_Cycle
  imports Main
begin

text \<open>
  The walk that looks for a cycle of dependencies through one task: \<open>cycleWith\<close> of
  scripts/tasks.mjs.  The dependencies are a map from ids to lists of ids (the \<open>Map\<close> of the
  code, as an association list); \<open>path\<close> is the way down from the task, \<open>don\<close> the set of the ids
  whose walk found nothing.  The recursion ends because every id it goes below is a key of the
  map that was not on the way yet.
\<close>

type_synonym dep_map = "(string \<times> string list) list"

text \<open>
  \<open>walk_each m path don ids\<close>: the loop over the dependencies of the last id of \<open>path\<close>.  Its
  body is the function \<open>walk\<close> of the code on one id: an id done before gives nothing, an id on
  the way closes a cycle only when it is the first, any other id is pushed, its dependencies
  are walked, and it is popped and done when they gave nothing.
\<close>

function walk_each :: "dep_map \<Rightarrow> string list \<Rightarrow> string set \<Rightarrow> string list \<Rightarrow> string list \<times> string set" where
  "walk_each m path don [] = ([], don)"
| "walk_each m path don (i # ids) =
     (if i \<in> don then walk_each m path don ids
      else if i \<in> set path then
        (if hd path = i then (path @ [i], don) else walk_each m path don ids)
      else (case map_of m i of
          None \<Rightarrow> walk_each m path (insert i don) ids
        | Some deps \<Rightarrow>
            (case walk_each m (path @ [i]) don deps of (cyc, don1) \<Rightarrow>
               if cyc \<noteq> [] then (cyc, don1) else walk_each m path (insert i don1) ids)))"
  by pat_completeness auto

termination
proof (relation "measures [\<lambda>(m, path, don, ids). card (fst ` set m - set path),
                           \<lambda>(m, path, don, ids). length ids]", goal_cases)
  case (5 m path don i ids deps)
  then have "i \<in> fst ` set m - set path" by (metis Diff_iff image_eqI fst_conv map_of_SomeD)
  then have "fst ` set m - set (path @ [i]) \<subset> fst ` set m - set path" by auto
  then have "card (fst ` set m - set (path @ [i])) < card (fst ` set m - set path)"
    by (intro psubset_card_mono) auto
  then show ?case by simp
qed auto

declare walk_each.simps [simp del]

text \<open>\<open>walk(task.id)\<close> from an empty way.\<close>

definition walk_from :: "dep_map \<Rightarrow> string \<Rightarrow> string list" where
  "walk_from m i =
     (case map_of m i of None \<Rightarrow> [] | Some deps \<Rightarrow> fst (walk_each m [i] {} deps))"

section \<open>The relation of the dependencies\<close>

definition depends :: "dep_map \<Rightarrow> (string \<times> string) set" where
  "depends m = {(a, b). \<exists>ds. map_of m a = Some ds \<and> b \<in> set ds}"

text \<open>A list along which every id depends on the next.\<close>

definition dep_chain :: "dep_map \<Rightarrow> string list \<Rightarrow> bool" where
  "dep_chain m xs = successively (\<lambda>a b. (a, b) \<in> depends m) xs"

lemma dep_chain_snoc:
  "dep_chain m (xs @ [x]) \<longleftrightarrow> dep_chain m xs \<and> (xs = [] \<or> (last xs, x) \<in> depends m)"
  by (auto simp: dep_chain_def successively_append_iff)

lemma dep_chain_trancl:
  "dep_chain m xs \<Longrightarrow> 2 \<le> length xs \<Longrightarrow> (hd xs, last xs) \<in> (depends m)\<^sup>+"
proof (induction xs rule: rev_induct)
  case (snoc x xs)
  then have chain: "dep_chain m xs" "(last xs, x) \<in> depends m" "xs \<noteq> []"
    by (auto simp: dep_chain_snoc)
  show ?case
  proof (cases "length xs = 1")
    case True
    then show ?thesis using chain by (cases xs) auto
  next
    case False
    with chain(3) have "2 \<le> length xs" by (cases xs) (auto simp: Suc_le_eq)
    with snoc.IH chain show ?thesis by (simp add: trancl_into_trancl)
  qed
qed simp

text \<open>A cycle that is handed back is one: a chain from the first id of the way back to it.\<close>

lemma walk_each_sound:
  assumes "walk_each m path don ids = (cyc, don')" and "cyc \<noteq> []"
    and "path \<noteq> []" and "dep_chain m path" and "\<forall>i \<in> set ids. (last path, i) \<in> depends m"
  shows "dep_chain m cyc \<and> hd cyc = hd path \<and> last cyc = hd path \<and> 2 \<le> length cyc"
  using assms
proof (induction m path don ids arbitrary: cyc don' rule: walk_each.induct)
  case (1 m path don)
  then show ?case by (simp add: walk_each.simps)
next
  case (2 m path don i ids)
  note prems = 2(6-10)
  consider (done_before) "i \<in> don"
    | (start) "i \<notin> don" "i \<in> set path" "hd path = i"
    | (other) "i \<notin> don" "i \<in> set path" "hd path \<noteq> i"
    | (leaf) "i \<notin> don" "i \<notin> set path" "map_of m i = None"
    | (below) deps where "i \<notin> don" "i \<notin> set path" "map_of m i = Some deps" by blast
  then show ?case
  proof cases
    case done_before
    then show ?thesis using 2(1) prems by (simp add: walk_each.simps)
  next
    case start
    then show ?thesis using prems by (auto simp: walk_each.simps dep_chain_snoc Suc_le_eq)
  next
    case other
    then show ?thesis using 2(2) prems by (simp add: walk_each.simps)
  next
    case leaf
    then show ?thesis using 2(3) prems by (simp add: walk_each.simps)
  next
    case below
    obtain c d where inner: "walk_each m (path @ [i]) don deps = (c, d)" by fastforce
    show ?thesis
    proof (cases "c = []")
      case True
      have "walk_each m path (insert i d) ids = (cyc, don')"
        using prems(1) below inner True by (simp add: walk_each.simps)
      then show ?thesis
        using 2(5) [OF below inner [symmetric]] True prems by simp
    next
      case False
      have "\<forall>j \<in> set deps. (last (path @ [i]), j) \<in> depends m"
        using below by (auto simp: depends_def)
      moreover have "dep_chain m (path @ [i])"
        using prems by (simp add: dep_chain_snoc)
      ultimately have "dep_chain m c \<and> hd c = hd (path @ [i]) \<and> last c = hd (path @ [i]) \<and> 2 \<le> length c"
        using 2(4) [OF below inner False] by simp
      moreover have "cyc = c"
        using prems(1) below inner False by (simp add: walk_each.simps)
      ultimately show ?thesis using prems(3) by simp
    qed
  qed
qed

text \<open>
  A walk that found nothing: every id it was given is done or on the way, none is the first id
  of the way, and every id that became done depends only on ids that are done or on the way,
  never on the first.
\<close>

lemma walk_each_complete:
  assumes "walk_each m path don ids = ([], don')" and "path \<noteq> []" and "hd path \<notin> don"
  shows "don \<subseteq> don' \<and> hd path \<notin> don' \<and> set ids \<subseteq> don' \<union> set (tl path)
    \<and> (\<forall>x \<in> don' - don. depends m `` {x} \<subseteq> don' \<union> set (tl path))
    \<and> hd path \<notin> set ids \<and> (\<forall>x \<in> don' - don. hd path \<notin> depends m `` {x})"
  using assms
proof (induction m path don ids arbitrary: don' rule: walk_each.induct)
  case (1 m path don)
  then show ?case by (simp add: walk_each.simps)
next
  case (2 m path don i ids)
  note prems = 2(6-8)
  have split_path: "set path = insert (hd path) (set (tl path))"
    using prems(2) by (cases path) auto
  consider (done_before) "i \<in> don"
    | (start) "i \<notin> don" "i \<in> set path" "hd path = i"
    | (other) "i \<notin> don" "i \<in> set path" "hd path \<noteq> i"
    | (leaf) "i \<notin> don" "i \<notin> set path" "map_of m i = None"
    | (below) deps where "i \<notin> don" "i \<notin> set path" "map_of m i = Some deps" by blast
  then show ?case
  proof cases
    case done_before
    then have "walk_each m path don ids = ([], don')" using prems by (simp add: walk_each.simps)
    from 2(1) [OF done_before this prems(2,3)] done_before prems(3) show ?thesis by auto
  next
    case start
    then show ?thesis using prems by (simp add: walk_each.simps)
  next
    case other
    then have "walk_each m path don ids = ([], don')" using prems by (simp add: walk_each.simps)
    from 2(2) [OF other this prems(2,3)] other split_path show ?thesis by auto
  next
    case leaf
    then have w: "walk_each m path (insert i don) ids = ([], don')"
      using prems by (simp add: walk_each.simps)
    have "hd path \<noteq> i" using leaf split_path by auto
    moreover have "depends m `` {i} = {}" using leaf by (auto simp: depends_def)
    ultimately show ?thesis
      using 2(3) [OF leaf w prems(2)] prems(3) by auto
  next
    case below
    obtain c d where inner: "walk_each m (path @ [i]) don deps = (c, d)" by fastforce
    have "c = []" using prems(1) below inner by (auto simp: walk_each.simps split: if_splits)
    then have w: "walk_each m path (insert i d) ids = ([], don')"
      using prems(1) below inner by (simp add: walk_each.simps)
    have ne: "hd path \<noteq> i" using below split_path by auto
    have succ: "depends m `` {i} = set deps" using below by (auto simp: depends_def)
    have tl: "set (tl (path @ [i])) = insert i (set (tl path))" "hd (path @ [i]) = hd path"
      using prems(2) by (cases path; simp)+
    have d: "don \<subseteq> d" "hd path \<notin> d" "set deps \<subseteq> d \<union> insert i (set (tl path))"
      "\<forall>x \<in> d - don. depends m `` {x} \<subseteq> d \<union> insert i (set (tl path))"
      "hd path \<notin> set deps" "\<forall>x \<in> d - don. hd path \<notin> depends m `` {x}"
      using 2(4) [OF below, of d] inner \<open>c = []\<close> prems(2,3) unfolding tl by auto
    have rest: "insert i d \<subseteq> don'" "hd path \<notin> don'" "set ids \<subseteq> don' \<union> set (tl path)"
      "\<forall>x \<in> don' - insert i d. depends m `` {x} \<subseteq> don' \<union> set (tl path)"
      "hd path \<notin> set ids" "\<forall>x \<in> don' - insert i d. hd path \<notin> depends m `` {x}"
      using 2(5) [OF below inner [symmetric] _ w prems(2)] \<open>c = []\<close> ne d(2) by auto
    have "depends m `` {x} \<subseteq> don' \<union> set (tl path) \<and> hd path \<notin> depends m `` {x}"
      if x: "x \<in> don' - don" for x
    proof -
      consider "x = i" | "x \<in> d - don" | "x \<in> don' - insert i d" using x by blast
      then show ?thesis
      proof cases
        case 1
        then show ?thesis using succ d(3,5) rest(1) by auto
      next
        case 2
        then show ?thesis using d(4,6) rest(1) by blast
      next
        case 3
        then show ?thesis using rest(4,6) by blast
      qed
    qed
    with d(1) rest ne show ?thesis by auto
  qed
qed

section \<open>The walk is exact\<close>

lemma walk_from_none:
  assumes "walk_from m i = []"
  shows "(i, i) \<notin> (depends m)\<^sup>+"
proof (cases "map_of m i")
  case None
  then show ?thesis by (auto simp: depends_def dest: tranclD)
next
  case (Some deps)
  obtain don where w: "walk_each m [i] {} deps = ([], don)"
    using assms Some by (cases "walk_each m [i] {} deps") (simp add: walk_from_def)
  have don: "i \<notin> don" "set deps \<subseteq> don" "\<forall>x \<in> don. depends m `` {x} \<subseteq> don"
    using walk_each_complete [OF w] by auto
  have succ: "depends m `` {i} = set deps" using Some by (auto simp: depends_def)
  have "j \<in> don" if "(i, j) \<in> (depends m)\<^sup>+" for j
    using that
  proof induction
    case (base j)
    then show ?case using succ don(2) by auto
  next
    case (step j k)
    then show ?case using don(3) by auto
  qed
  with don(1) show ?thesis by blast
qed

lemma walk_from_some:
  assumes "walk_from m i \<noteq> []"
  shows "dep_chain m (walk_from m i) \<and> hd (walk_from m i) = i \<and> last (walk_from m i) = i
    \<and> 2 \<le> length (walk_from m i)"
proof -
  obtain deps where deps: "map_of m i = Some deps"
    using assms by (auto simp: walk_from_def split: option.splits)
  obtain cyc don where w: "walk_each m [i] {} deps = (cyc, don)" by fastforce
  with deps have cyc: "walk_from m i = cyc" by (simp add: walk_from_def)
  with assms deps walk_each_sound [OF w] show ?thesis
    by (auto simp: depends_def dep_chain_def)
qed

lemma walk_from_iff: "walk_from m i = [] \<longleftrightarrow> (i, i) \<notin> (depends m)\<^sup>+"
  using walk_from_none walk_from_some dep_chain_trancl by metis

end
