(* ===== verification/Tracker.thy ===== *)
theory Tracker
  imports Tracker_Status Tracker_Cycle
begin

text \<open>
  The commands of the task tracker: the \<open>switch\<close> of scripts/tasks.mjs and the checks its
  commands make.  A command is a function of the tasks read from docs/tasks/tasks.json to what
  it writes and prints, or to the refusal it dies with (exit 1, nothing written) or the failure
  it crashes with; every check comes before the first write, as in the code.
\<close>

section \<open>Refusals, writes and output\<close>

text \<open>\<open>Die m\<close>: \<open>m\<close> on the error stream and exit 1.\<close>

datatype cli_failure = Die string | Crash thrown

datatype cli_write =
    Save "task list"
  | Worklog string
  | Write_status string

datatype cli_output =
    Line string
  | Task_json task

record cli_result =
  r_writes :: "cli_write list"
  r_output :: "cli_output list"

record cli_env =
  c_today :: string
  c_locale :: "string \<Rightarrow> string \<Rightarrow> int"
  c_markdown :: markdown_env
  c_disk :: disk
  c_docs_dir :: string
  c_page :: "thrown + string"
  c_status_path :: string

definition refused_by :: "string + 'a \<Rightarrow> cli_failure + 'a" where
  "refused_by r = (case r of Inl m \<Rightarrow> Inl (Die m) | Inr x \<Rightarrow> Inr x)"

definition crashing :: "thrown + 'a \<Rightarrow> cli_failure + 'a" where
  "crashing r = (case r of Inl e \<Rightarrow> Inl (Crash e) | Inr x \<Rightarrow> Inr x)"

definition die_on :: "string option \<Rightarrow> cli_failure + unit" where
  "die_on p = (case p of Some m \<Rightarrow> Inl (Die m) | None \<Rightarrow> Inr ())"

lemma refused_by_Inr [simp]: "refused_by r = Inr x \<longleftrightarrow> r = Inr x"
  by (simp add: refused_by_def split: sum.splits)

lemma crashing_Inr [simp]: "crashing r = Inr x \<longleftrightarrow> r = Inr x"
  by (simp add: crashing_def split: sum.splits)

lemma die_on_Inr [simp]: "die_on p = Inr u \<longleftrightarrow> p = None"
  by (simp add: die_on_def split: option.splits)

section \<open>Arguments\<close>

definition ROOT_FLAG :: string where
  "ROOT_FLAG = ''--root=''"

text \<open>\<open>--root=<dir>\<close> as the first argument; anywhere else, or without a directory, it is refused.
  The arguments left for the command come back with the tree.\<close>

definition parse_root :: "string list \<Rightarrow> string + (string option \<times> string list)" where
  "parse_root argv =
     (let rootArg = (case argv of a # _ \<Rightarrow> if starts_with ROOT_FLAG a then Some a else None | [] \<Rightarrow> None);
          rest = (if rootArg \<noteq> None then tl argv else argv);
          stray = List.find (\<lambda>a. a = ''--root'' \<or> starts_with ROOT_FLAG a) rest in
      if stray \<noteq> None \<or> rootArg = Some ROOT_FLAG then
        Inl ((case stray of Some s \<Rightarrow> s | None \<Rightarrow> ROOT_FLAG)
             @ '' - give the tree as --root=<dir>, once, before the command'')
      else Inr (map_option (drop (length ROOT_FLAG)) rootArg, rest))"

text \<open>\<open>/^--[a-z][a-z-]*$/\<close>\<close>

definition isFlag :: "string \<Rightarrow> bool" where
  "isFlag v \<longleftrightarrow>
     starts_with ''--'' v \<and> (case drop 2 v of
       c # r \<Rightarrow> lower_letter c \<and> list_all (\<lambda>d. lower_letter d \<or> d = CHR ''-'') r | [] \<Rightarrow> False)"

definition opt :: "string list \<Rightarrow> string \<Rightarrow> cli_failure + string option" where
  "opt args name =
     (case position_of name args of
        None \<Rightarrow> Inr None
      | Some i \<Rightarrow>
          if name \<in> set (drop (Suc i) args) then Inl (Die (name @ '' is given twice: give it once''))
          else (case drop (Suc i) args of
              [] \<Rightarrow> Inl (Die (name @ '' needs a value''))
            | v # _ \<Rightarrow> if isFlag v then Inl (Die (name @ '' needs a value'')) else Inr (Some v)))"

definition arg_at :: "string list \<Rightarrow> nat \<Rightarrow> string option" where
  "arg_at args n = (if n < length args then Some (args ! n) else None)"

definition positional :: "string option \<Rightarrow> string \<Rightarrow> cli_failure + string" where
  "positional v what =
     (case v of
        None \<Rightarrow> Inl (Die (what @ '' required''))
      | Some s \<Rightarrow> if isFlag s then Inl (Die (what @ '' required, got the flag '' @ s)) else Inr s)"

definition task_of_arg :: "task list \<Rightarrow> string option \<Rightarrow> cli_failure + task" where
  "task_of_arg tasks a =
     (case a of
        None \<Rightarrow> Inl (Die ''task id required'')
      | Some i \<Rightarrow>
          (case find_id tasks (upper i) of
             None \<Rightarrow> Inl (Die (''unknown task '' @ i))
           | Some t \<Rightarrow> Inr t))"

text \<open>\<open>args.slice(1).join(" ").trim()\<close>\<close>

definition words_after :: "string list \<Rightarrow> string" where
  "words_after args = trim_text (join_str '' '' (drop 1 args))"

section \<open>Checks\<close>

definition checkTitle :: "string \<Rightarrow> string \<Rightarrow> cli_failure + unit" where
  "checkTitle title doc =
     and_then (refused_by (checkLine title ''title''))
       (\<lambda>_. refused_by (die_if (doc \<noteq> DEFAULT_DOC \<and> trim_text title \<noteq> title)
          ''title starts or ends with a blank: the heading of a section has none; give the title without it''))"

definition checkDoc :: "cli_env \<Rightarrow> string \<Rightarrow> cli_failure + unit" where
  "checkDoc env doc =
     and_then (crashing (docProblem (c_disk env) (Some doc) (c_docs_dir env))) die_on"

definition checkSection :: "cli_env \<Rightarrow> task \<Rightarrow> section_command \<Rightarrow> cli_failure + unit" where
  "checkSection env t cmd =
     and_then (crashing (sectionProblem (c_markdown env) (readIndex (c_markdown env) (c_disk env))
                 (path_join (c_disk env)) (c_docs_dir env) (t_id t) (t_title t) (t_doc t) cmd)) die_on"

definition checkDeps :: "task list \<Rightarrow> string list \<Rightarrow> cli_failure + unit" where
  "checkDeps tasks deps =
     (let missing = missingDeps deps (map t_id tasks) in
      refused_by (die_if (missing \<noteq> [])
        (''--deps names tasks that are not in the tracker: '' @ join_str '', '' missing)))"

text \<open>The map of the dependencies, the task as it would be in place of the one it has; of tasks
  with one id the last counts.\<close>

definition deps_with :: "task list \<Rightarrow> task \<Rightarrow> dep_map" where
  "deps_with tasks t = (t_id t, t_deps t) # rev (map (\<lambda>x. (t_id x, t_deps x)) tasks)"

definition cycleWith :: "task list \<Rightarrow> task \<Rightarrow> string list" where
  "cycleWith tasks t = walk_from (deps_with tasks t) (t_id t)"

definition checkCycle :: "task list \<Rightarrow> task \<Rightarrow> cli_failure + unit" where
  "checkCycle tasks t =
     (let cyc = cycleWith tasks t in
      refused_by (die_if (cyc \<noteq> [])
        (''--deps makes a cycle of dependencies, '' @ join_str w_arrow cyc @ '': no task of it can start'')))"

section \<open>Writing\<close>

text \<open>The task a command found is changed in place: the first of its id.\<close>

fun update_first :: "string \<Rightarrow> (task \<Rightarrow> task) \<Rightarrow> task list \<Rightarrow> task list" where
  "update_first i f [] = []"
| "update_first i f (t # ts) = (if t_id t = i then f t # ts else t # update_first i f ts)"

definition page_write :: "cli_env \<Rightarrow> task list \<Rightarrow> cli_write" where
  "page_write env tasks =
     Write_status (render_text (c_markdown env) (c_locale env) (c_today env) tasks)"

text \<open>\<open>worklog\<close>: a line after the ones of the journal, which is begun when it is not there.\<close>

definition worklog :: "string option \<Rightarrow> string \<Rightarrow> string" where
  "worklog journal l = (case journal of None \<Rightarrow> w_journal_head | Some j \<Rightarrow> j) @ l @ [CHR 10]"

definition first_time :: "string option \<Rightarrow> string \<Rightarrow> string option" where
  "first_time x today = (case x of None \<Rightarrow> Some today | Some d \<Rightarrow> Some d)"

section \<open>The commands\<close>

definition line_of :: "task \<Rightarrow> string \<Rightarrow> cli_output" where
  "line_of t icon =
     Line (''  '' @ icon @ '' '' @ t_id t @ ''  '' @ t_title t @ ''  ('' @ t_estimate t @ '')  '' @ tl w_arrow
       @ ''docs/'' @ t_doc t)"

text \<open>\<open>slice(0, n)\<close> for the number of an argument.\<close>

definition slice_to :: "jsnum \<Rightarrow> 'a list \<Rightarrow> 'a list" where
  "slice_to n xs =
     (case n of
        NaN \<Rightarrow> []
      | PosInf \<Rightarrow> xs
      | NegInf \<Rightarrow> []
      | Fin r \<Rightarrow> (let k = (if 0 \<le> r then \<lfloor>r\<rfloor> else \<lceil>r\<rceil>) in
          if 0 \<le> k then take (nat k) xs else take (length xs - nat (- k)) xs))"

definition cmd_next :: "cli_env \<Rightarrow> task list \<Rightarrow> string list \<Rightarrow> cli_failure + cli_result" where
  "cmd_next env tasks args =
     (let n = (case arg_at args 0 of None \<Rightarrow> Fin 5 | Some a \<Rightarrow> js_number a);
          inProg = filter (\<lambda>t. t_status t = St_in_progress) tasks;
          av = slice_to n (available (c_locale env) tasks) in
      Inr \<lparr>r_writes = [],
           r_output =
             (if inProg \<noteq> [] then Line ''In progress:'' # map (\<lambda>t. line_of t i_in_progress) inProg
              else [])
             @ [Line (if av \<noteq> [] then ''Next available (deps done):'' else ''Nothing available.'')]
             @ map (\<lambda>t. line_of t i_todo) av\<rparr>)"

definition pad_right :: "nat \<Rightarrow> string \<Rightarrow> string" where
  "pad_right n s = s @ replicate (n - length s) (CHR '' '')"

definition cmd_list :: "cli_env \<Rightarrow> task list \<Rightarrow> string list \<Rightarrow> cli_failure + cli_result" where
  "cmd_list env tasks args =
     (let epic = map_option upper (arg_at args 0);
          rows = sort_by (byOrder (c_locale env))
            (filter (\<lambda>t. case epic of None \<Rightarrow> True | Some e \<Rightarrow> e = [] \<or> t_epic t = e) tasks);
          d = length (filter (\<lambda>t. t_status t = St_done) rows) in
      Inr \<lparr>r_writes = [],
           r_output =
             map (\<lambda>t. Line (ICON (t_status t) @ '' '' @ pad_right 7 (t_id t) @ '' '' @ t_title t @ ''  (''
                   @ t_estimate t @ '')'')) rows
             @ [Line (CHR 10 # show_nat d @ ''/'' @ show_nat (length rows) @ '' done'')]\<rparr>)"

definition cmd_show :: "task list \<Rightarrow> string list \<Rightarrow> cli_failure + cli_result" where
  "cmd_show tasks args =
     and_then (task_of_arg tasks (arg_at args 0))
       (\<lambda>t. let pend = pendingDeps tasks t in
         Inr \<lparr>r_writes = [],
              r_output = [Task_json t,
                Line (if pend \<noteq> [] then ''pending deps: '' @ join_str '', '' pend else ''all deps done'')]\<rparr>)"

definition started :: "string \<Rightarrow> task \<Rightarrow> task" where
  "started today t =
     t\<lparr>t_status := St_in_progress, t_started_at := first_time (t_started_at t) today,
       t_blocked_reason := None\<rparr>"

definition cmd_start :: "cli_env \<Rightarrow> task list \<Rightarrow> string list \<Rightarrow> cli_failure + cli_result" where
  "cmd_start env tasks args =
     and_then (task_of_arg tasks (arg_at args 0))
       (\<lambda>t. let pend = pendingDeps tasks t in
         if pend \<noteq> [] \<and> ''--force'' \<notin> set args then
           Inl (Die (''deps not done: '' @ join_str '', '' pend @ '' (use --force to override)''))
         else if t_status t = St_done then Inl (Die (t_id t @ '' already done''))
         else (let tasks1 = update_first (t_id t) (started (c_today env)) tasks in
           Inr \<lparr>r_writes = [Save tasks1, page_write env tasks1],
                r_output = [Line (i_in_progress @ '' '' @ t_id t @ '' started '' @ tl w_dash
                  @ (if t_doc t = DEFAULT_DOC then ''spec: the title, no section of its own''
                     else ''spec: docs/'' @ t_doc t @ '' (### '' @ t_id t @ '')''))]\<rparr>))"

definition finished :: "string \<Rightarrow> string \<Rightarrow> task \<Rightarrow> task" where
  "finished today note t =
     t\<lparr>t_status := St_done, t_started_at := first_time (t_started_at t) today, t_done_at := Some today,
       t_note := (if note \<noteq> [] then Some note else t_note t), t_blocked_reason := None\<rparr>"

definition cmd_done :: "cli_env \<Rightarrow> task list \<Rightarrow> string list \<Rightarrow> cli_failure + cli_result" where
  "cmd_done env tasks args =
     and_then (task_of_arg tasks (arg_at args 0))
       (\<lambda>t. let note = words_after args;
               tasks1 = update_first (t_id t) (finished (c_today env) note) tasks;
               nxt = take 3 (available (c_locale env) tasks1) in
         Inr \<lparr>r_writes =
                [Save tasks1,
                 Worklog (''- '' @ c_today env @ '' '' @ i_done @ '' **'' @ t_id t @ ''** '' @ t_title t
                   @ (if note \<noteq> [] then w_dash @ note else [])),
                 page_write env tasks1],
              r_output = Line (i_done @ '' '' @ t_id t @ '' done.'')
                # (if nxt \<noteq> [] then [Line (''next: '' @ join_str '', '' (map t_id nxt))] else [])\<rparr>)"

definition blocked_for :: "string \<Rightarrow> task \<Rightarrow> task" where
  "blocked_for reason t = t\<lparr>t_status := St_blocked, t_blocked_reason := Some reason\<rparr>"

definition cmd_block :: "cli_env \<Rightarrow> task list \<Rightarrow> string list \<Rightarrow> cli_failure + cli_result" where
  "cmd_block env tasks args =
     and_then (task_of_arg tasks (arg_at args 0))
       (\<lambda>t. let reason = words_after args in
         if reason = [] then Inl (Die ''reason required'')
         else (let tasks1 = update_first (t_id t) (blocked_for reason) tasks in
           Inr \<lparr>r_writes =
                  [Save tasks1,
                   Worklog (''- '' @ c_today env @ '' '' @ i_blocked @ '' **'' @ t_id t @ ''** blocked''
                     @ w_dash @ reason),
                   page_write env tasks1],
                r_output = [Line (i_blocked @ '' '' @ t_id t @ '' blocked: '' @ reason)]\<rparr>))"

definition reset_to_todo :: "bool \<Rightarrow> task \<Rightarrow> task" where
  "reset_to_todo whole t =
     (let t1 = t\<lparr>t_status := St_todo, t_blocked_reason := None\<rparr> in
      if whole then t1\<lparr>t_started_at := None, t_done_at := None\<rparr> else t1)"

text \<open>\<open>unblock\<close> and \<open>todo\<close>: the second forgets when the task was started and done.\<close>

definition cmd_todo :: "bool \<Rightarrow> cli_env \<Rightarrow> task list \<Rightarrow> string list \<Rightarrow> cli_failure + cli_result" where
  "cmd_todo whole env tasks args =
     and_then (task_of_arg tasks (arg_at args 0))
       (\<lambda>t. let tasks1 = update_first (t_id t) (reset_to_todo whole) tasks in
         Inr \<lparr>r_writes = [Save tasks1, page_write env tasks1],
              r_output = [Line (i_todo @ '' '' @ t_id t @ w_arrow @ ''todo'')]\<rparr>)"

definition check_answer :: "check_outcome \<Rightarrow> cli_failure + cli_result" where
  "check_answer oc =
     (case oc of
        Check_bad_docs ls \<Rightarrow>
          Inl (Die (join_str [CHR 10]
            ([''docs/tasks/tasks.json names documents that are not there:''] @ map (\<lambda>l. ''  '' @ l) ls
             @ [''fix with '' @ [CHR 96] @ ''node scripts/tasks.mjs set <id> --doc <file in docs/>'' @ [CHR 96]])))
      | Check_bad_sections ls \<Rightarrow>
          Inl (Die (join_str [CHR 10]
            ([''docs/tasks/tasks.json names tasks whose section is not where docs/00_STATUS.md links:'']
             @ map (\<lambda>l. ''  '' @ l) ls
             @ [''each task names its fix: the section to write or the one of them to keep, the heading to write as plain text or to give a text of its own, or the title to give, which the line after it holds''])))
      | Check_stale \<Rightarrow>
          Inl (Die (''docs/00_STATUS.md is stale: run '' @ [CHR 96] @ ''node scripts/tasks.mjs render'' @ [CHR 96]))
      | Check_in_sync \<Rightarrow>
          Inr \<lparr>r_writes = [],
               r_output = [Line ''tracker: docs/00_STATUS.md is in sync with tasks.json'']\<rparr>)"

definition cmd_render :: "cli_env \<Rightarrow> task list \<Rightarrow> string list \<Rightarrow> cli_failure + cli_result" where
  "cmd_render env tasks args =
     (if ''--check'' \<in> set args then
        and_then (crashing (render_check (c_markdown env) (c_disk env) (c_docs_dir env) (c_locale env)
                   (c_today env) (c_page env) tasks)) check_answer
      else Inr \<lparr>r_writes = [page_write env tasks],
                r_output = [Line (''rendered '' @ c_status_path env)]\<rparr>)"

section \<open>A new task\<close>

definition added_task :: "cli_env \<Rightarrow> string \<Rightarrow> string \<Rightarrow> string \<Rightarrow> string \<Rightarrow> string list \<Rightarrow> string \<Rightarrow> task" where
  "added_task env i epic title est deps doc =
     \<lparr>t_id = i, t_epic = epic, t_title = title, t_estimate = fst (estimateOf est),
      t_estimate_days = snd (estimateOf est), t_deps = deps, t_doc = doc, t_status = St_todo,
      t_started_at = None, t_done_at = None, t_blocked_reason = None, t_note = None,
      t_added_at = Some (c_today env)\<rparr>"

definition cmd_add :: "cli_env \<Rightarrow> task list \<Rightarrow> string list \<Rightarrow> cli_failure + cli_result" where
  "cmd_add env tasks args =
     and_then (positional (arg_at args 0) ''task id'') (\<lambda>i0. let i = upper i0 in
     and_then (positional (arg_at args 1) ''title'') (\<lambda>title.
     and_then (opt args ''--doc'') (\<lambda>doc0. let doc = (case doc0 of Some d \<Rightarrow> d | None \<Rightarrow> DEFAULT_DOC) in
     and_then (checkTitle title doc) (\<lambda>_.
     and_then (checkDoc env doc) (\<lambda>_.
     and_then (refused_by (die_if (i \<in> set (map t_id tasks)) (i @ '' already exists''))) (\<lambda>_.
     and_then (opt args ''--epic'') (\<lambda>epic0. let epic = (case epic0 of Some e \<Rightarrow> upper e | None \<Rightarrow> epicOf i) in
     and_then (opt args ''--est'') (\<lambda>est0.
     and_then (case est0 of Some e \<Rightarrow> refused_by (checkEstimate e) | None \<Rightarrow> Inr ()) (\<lambda>_.
     and_then (opt args ''--deps'') (\<lambda>deps0.
       let added = added_task env i epic title (case est0 of Some e \<Rightarrow> e | None \<Rightarrow> ''?'')
                     (depsOf (case deps0 of Some d \<Rightarrow> d | None \<Rightarrow> [])) doc in
     and_then (die_on (case idProblem i of Some p \<Rightarrow> Some p | None \<Rightarrow> epicProblem i epic)) (\<lambda>_.
     and_then (checkDeps tasks (t_deps added)) (\<lambda>_.
     and_then (checkCycle tasks added) (\<lambda>_.
     and_then (checkSection env added Cmd_add) (\<lambda>_.
       let tasks1 = tasks @ [added] in
       Inr \<lparr>r_writes =
              [Save tasks1,
               Worklog (''- '' @ c_today env @ '' '' @ w_added_mark @ '' **'' @ i @ ''** '' @ title
                 @ w_added_tail),
               page_write env tasks1],
            r_output = [Line (w_added_mark @ '' '' @ i @ '' added (epic '' @ epic @ '')'')]\<rparr>))))))))))))))"

section \<open>Changes of a task\<close>

text \<open>\<open>x !== y ? x : undefined\<close> for a value that may not be given.\<close>

definition changed_to :: "string option \<Rightarrow> string \<Rightarrow> string option" where
  "changed_to given own = (case given of Some v \<Rightarrow> if v \<noteq> own then Some v else None | None \<Rightarrow> None)"

record task_change =
  new_title :: "string option"
  new_doc :: "string option"
  new_deps :: "string list option"
  new_est :: "string option"

definition change_of ::
  "task \<Rightarrow> string option \<Rightarrow> string option \<Rightarrow> string list option \<Rightarrow> string option \<Rightarrow> task_change"
where
  "change_of t title doc deps est =
     \<lparr>new_title = changed_to title (t_title t), new_doc = changed_to doc (t_doc t),
      new_deps = (case deps of Some ds \<Rightarrow> if sameDeps ds (t_deps t) then None else Some ds | None \<Rightarrow> None),
      new_est = changed_to est (t_estimate t)\<rparr>"

definition no_change :: "task_change \<Rightarrow> bool" where
  "no_change c \<longleftrightarrow> new_title c = None \<and> new_doc c = None \<and> new_deps c = None \<and> new_est c = None"

definition apply_change :: "task_change \<Rightarrow> task \<Rightarrow> task" where
  "apply_change c t =
     (let t1 = (case new_title c of Some x \<Rightarrow> t\<lparr>t_title := x\<rparr> | None \<Rightarrow> t);
          t2 = (case new_doc c of Some x \<Rightarrow> t1\<lparr>t_doc := x\<rparr> | None \<Rightarrow> t1);
          t3 = (case new_deps c of Some x \<Rightarrow> t2\<lparr>t_deps := x\<rparr> | None \<Rightarrow> t2)
      in case new_est c of
           Some x \<Rightarrow> t3\<lparr>t_estimate := fst (estimateOf x), t_estimate_days := snd (estimateOf x)\<rparr>
         | None \<Rightarrow> t3)"

definition or_dash :: "string list \<Rightarrow> string" where
  "or_dash deps = (let j = join_str '', '' deps in if j = [] then w_long_dash else j)"

definition change_words :: "task \<Rightarrow> task_change \<Rightarrow> string list" where
  "change_words t c =
     (case new_title c of Some x \<Rightarrow> [w_ch_title @ t_title t @ w_ch_arrow @ x @ w_ch_close] | None \<Rightarrow> [])
     @ (case new_doc c of Some x \<Rightarrow> [''doc docs/'' @ t_doc t @ w_arrow @ ''docs/'' @ x] | None \<Rightarrow> [])
     @ (case new_deps c of
          Some x \<Rightarrow> [w_ch_deps @ or_dash (t_deps t) @ w_ch_arrow @ or_dash x @ w_ch_close] | None \<Rightarrow> [])
     @ (case new_est c of Some x \<Rightarrow> [w_ch_est @ t_estimate t @ w_ch_arrow @ x @ w_ch_close] | None \<Rightarrow> [])"

definition given_check :: "('a \<Rightarrow> cli_failure + unit) \<Rightarrow> 'a option \<Rightarrow> cli_failure + unit" where
  "given_check check v = (case v of Some x \<Rightarrow> check x | None \<Rightarrow> Inr ())"

lemma given_check_Inr: "given_check check v = Inr u \<longleftrightarrow> (\<forall>x. v = Some x \<longrightarrow> check x = Inr ())"
  by (cases v) (auto simp: given_check_def)

definition cmd_set :: "cli_env \<Rightarrow> task list \<Rightarrow> string list \<Rightarrow> cli_failure + cli_result" where
  "cmd_set env tasks args =
     and_then (opt args ''--title'') (\<lambda>title.
     and_then (opt args ''--doc'') (\<lambda>doc.
     and_then (opt args ''--deps'') (\<lambda>depsArg. let deps = map_option depsOf depsArg in
     and_then (opt args ''--est'') (\<lambda>est.
     and_then (refused_by (die_if (title = None \<and> doc = None \<and> deps = None \<and> est = None)
        ''nothing to set: give --title, --doc, --deps and/or --est'')) (\<lambda>_.
     and_then (given_check (\<lambda>v. refused_by (checkLine v ''title'')) title) (\<lambda>_.
     and_then (given_check (\<lambda>v. refused_by (checkEstimate v)) est) (\<lambda>_.
     and_then (given_check (checkDoc env) doc) (\<lambda>_.
     and_then (given_check (checkDeps tasks) deps) (\<lambda>_.
     and_then (positional (arg_at args 0) ''task id'') (\<lambda>i0.
     and_then (task_of_arg tasks (Some i0)) (\<lambda>t.
     and_then (refused_by (die_if (doc = Some DEFAULT_DOC \<and> epicOf (t_id t) \<noteq> ADHOC)
        (''--doc '' @ DEFAULT_DOC @ '' is for a task of the owner (ADHOC-<yyyymmdd>-<n>) only: ''
          @ t_id t @ '' keeps a document with its section''))) (\<lambda>_.
     and_then (given_check (\<lambda>v. checkTitle v (case doc of Some d \<Rightarrow> d | None \<Rightarrow> t_doc t)) title) (\<lambda>_.
       let c = change_of t title doc deps est in
     and_then (refused_by (die_if (no_change c)
        (''nothing to change: '' @ t_id t @ '' already has the values given''))) (\<lambda>_.
     and_then (given_check (\<lambda>ds. checkCycle tasks (t\<lparr>t_deps := ds\<rparr>)) (new_deps c)) (\<lambda>_.
       let candidate = t\<lparr>t_title := (case title of Some v \<Rightarrow> v | None \<Rightarrow> t_title t),
                         t_doc := (case doc of Some v \<Rightarrow> v | None \<Rightarrow> t_doc t)\<rparr> in
     and_then (if doc = None then checkDoc env (t_doc t) else Inr ()) (\<lambda>_.
     and_then (checkSection env candidate (if title = None then Cmd_set else Cmd_set_title)) (\<lambda>_.
       let tasks1 = update_first (t_id t) (apply_change c) tasks; t1 = apply_change c t in
       Inr \<lparr>r_writes =
              [Save tasks1,
               Worklog (''- '' @ c_today env @ '' '' @ w_changed_mark @ '' **'' @ t_id t @ ''** '' @ t_title t1
                 @ w_changed_in @ join_str '', '' (change_words t c) @ '')''),
               page_write env tasks1],
            r_output = [Line (w_changed_mark @ '' '' @ t_id t @ '': '' @ t_title t1 @ w_arrow @ ''docs/''
              @ t_doc t1)]\<rparr>)))))))))))))))))"

section \<open>The switch\<close>

definition COMMANDS :: "string list" where
  "COMMANDS = [''next'', ''start'', ''done'', ''block'', ''unblock'', ''todo'', ''show'', ''list'',
               ''render'', ''add'', ''set'']"

definition ON_NODE_ALONE :: "string list" where
  "ON_NODE_ALONE = [''next'', ''list'', ''show'']"

text \<open>Why scripts/lib/tracker-doc.mjs did not load, from the quoted name in the message of Node:
  \<open>missing\<close> is that name, \<open>relative\<close> the path from the root.\<close>

definition notLoaded ::
  "(string \<Rightarrow> bool) \<Rightarrow> (string \<Rightarrow> string) \<Rightarrow> char \<Rightarrow> string \<Rightarrow> string option \<Rightarrow> string"
where
  "notLoaded isAbsolute relative sep cmd missing =
     (let alone = join_str '', '' ON_NODE_ALONE @ '' run without them'' in
      case missing of
        Some m \<Rightarrow>
          if \<not> isAbsolute m then
            cmd @ '' needs the package '' @ m @ '' of the root, which is not installed: run pnpm install; '' @ alone
          else
            (let named = relative m;
                 place = (if starts_with ''..'' named \<or> isAbsolute named then ''a module it imports''
                          else join (CHR ''/'') (split_on sep named)) in
             if ''node_modules'' \<in> set (split_on (CHR ''/'') place) then
               cmd @ '' needs the packages of the root, and '' @ place @ '' of one is not there: run pnpm install; '' @ alone
             else cmd @ '' cannot load scripts/lib/tracker-doc.mjs: '' @ place
               @ '' is not there, and the scripts of the tracker need it - restore it from git'')
      | None \<Rightarrow> cmd @ '' cannot load scripts/lib/tracker-doc.mjs: a module it imports is not there, and the scripts of the tracker need it - restore it from git'')"

definition run_command :: "cli_env \<Rightarrow> task list \<Rightarrow> string list \<Rightarrow> cli_failure + cli_result" where
  "run_command env tasks argv =
     (let cmd = (case argv of c # _ \<Rightarrow> c | [] \<Rightarrow> ''next''); args = drop 1 argv in
      if cmd = ''render'' then cmd_render env tasks args
      else if cmd = ''next'' then cmd_next env tasks args
      else if cmd = ''list'' then cmd_list env tasks args
      else if cmd = ''show'' then cmd_show tasks args
      else if cmd = ''start'' then cmd_start env tasks args
      else if cmd = ''done'' then cmd_done env tasks args
      else if cmd = ''block'' then cmd_block env tasks args
      else if cmd = ''add'' then cmd_add env tasks args
      else if cmd = ''set'' then cmd_set env tasks args
      else if cmd = ''unblock'' then cmd_todo False env tasks args
      else if cmd = ''todo'' then cmd_todo True env tasks args
      else Inl (Die (''unknown command '' @ cmd @ ''. Valid: '' @ join_str '', '' COMMANDS
        @ ''; statuses: todo, in_progress, blocked, done'')))"

end
