(* ===== verification/Tracker_Inv.thy ===== *)
theory Tracker_Inv
  imports Tracker
begin

text \<open>
  What the commands of the tracker keep: unique ids of the grammar with the epic that goes with
  them, dependencies that are tasks of the tracker, and no cycle among them.  The invariant is
  what makes \<open>next\<close> useful: while a task is not done, a task can be taken or one is already in
  progress or blocked.
\<close>

section \<open>The invariant\<close>

definition dep_rel :: "task list \<Rightarrow> (string \<times> string) set" where
  "dep_rel tasks = {(a, b). \<exists>t \<in> set tasks. t_id t = a \<and> b \<in> set (t_deps t)}"

definition tracker_inv :: "task list \<Rightarrow> bool" where
  "tracker_inv tasks \<longleftrightarrow>
     distinct (map t_id tasks)
   \<and> acyclic (dep_rel tasks)
   \<and> Range (dep_rel tasks) \<subseteq> set (map t_id tasks)
   \<and> (\<forall>t \<in> set tasks. idProblem (t_id t) = None \<and> epicProblem (t_id t) (t_epic t) = None)"

text \<open>What docs/tasks/tasks.json holds after a command: the tasks it saved, if it saved any.\<close>

definition saved :: "cli_write list \<Rightarrow> task list \<Rightarrow> task list" where
  "saved ws tasks = foldl (\<lambda>ts w. case w of Save ts' \<Rightarrow> ts' | _ \<Rightarrow> ts) tasks ws"

definition after_command :: "cli_env \<Rightarrow> task list \<Rightarrow> string list \<Rightarrow> task list" where
  "after_command env tasks argv =
     (case run_command env tasks argv of Inl _ \<Rightarrow> tasks | Inr r \<Rightarrow> saved (r_writes r) tasks)"

lemma saved_simps [simp]:
  "saved [] ts = ts"
  "saved (Save ts' # ws) ts = saved ws ts'"
  "saved (Worklog l # ws) ts = saved ws ts"
  "saved (page_write env tasks # ws) ts = saved ws ts"
  by (simp_all add: saved_def page_write_def)

section \<open>Cycles through one task\<close>

text \<open>A cycle either avoids the edges out of \<open>i\<close> or runs through \<open>i\<close>.\<close>

lemma trancl_through:
  assumes "(a, b) \<in> R\<^sup>+"
  shows "(a, b) \<in> {(x, y) \<in> R. x \<noteq> i}\<^sup>+ \<or> ((a, i) \<in> R\<^sup>* \<and> (i, b) \<in> R\<^sup>+)"
  using assms
proof induction
  case (base b)
  then show ?case by (cases "a = i") auto
next
  case (step b c)
  show ?case
  proof (cases "b = i")
    case True
    with step show ?thesis by (auto intro: trancl_into_rtrancl)
  next
    case False
    with step(2) have "(b, c) \<in> {(x, y) \<in> R. x \<noteq> i}" by simp
    with step show ?thesis by (meson trancl.trancl_into_trancl)
  qed
qed

lemma acyclic_by_one:
  assumes "acyclic {(x, y) \<in> R. x \<noteq> i}" and "(i, i) \<notin> R\<^sup>+"
  shows "acyclic R"
proof (rule acyclicI, intro allI notI)
  fix x
  assume "(x, x) \<in> R\<^sup>+"
  from trancl_through [OF this, of i] show False
  proof
    assume "(x, x) \<in> {(x, y) \<in> R. x \<noteq> i}\<^sup>+"
    with assms(1) show False by (simp add: acyclic_def)
  next
    assume "(x, i) \<in> R\<^sup>* \<and> (i, x) \<in> R\<^sup>+"
    then have "(i, i) \<in> R\<^sup>+" by (meson trancl_rtrancl_trancl)
    with assms(2) show False ..
  qed
qed

lemma acyclic_subset_of: "acyclic R \<Longrightarrow> acyclic {(x, y) \<in> R. P x}"
  by (rule acyclic_subset [of R]) auto

text \<open>The map the walk reads, as a relation.\<close>

lemma depends_deps_with:
  assumes "distinct (map t_id tasks)"
  shows "depends (deps_with tasks t) =
    {(a, b) \<in> dep_rel tasks. a \<noteq> t_id t} \<union> {t_id t} \<times> set (t_deps t)"
proof -
  let ?m = "rev (map (\<lambda>x. (t_id x, t_deps x)) tasks)"
  have "distinct (map fst ?m)" using assms by (simp add: rev_map [symmetric] comp_def)
  then have m: "map_of ?m a = Some ds \<longleftrightarrow> (\<exists>x \<in> set tasks. t_id x = a \<and> t_deps x = ds)" for a ds
    by (auto simp: map_of_eq_Some_iff)
  have "(a, b) \<in> depends (deps_with tasks t) \<longleftrightarrow>
      (if a = t_id t then b \<in> set (t_deps t) else \<exists>ds. map_of ?m a = Some ds \<and> b \<in> set ds)" for a b
    by (auto simp: depends_def deps_with_def)
  then show ?thesis
    unfolding m by (fastforce simp: dep_rel_def split: if_splits)
qed

text \<open>C35: the check for a cycle is exact: it hands back no ids if and only if the task, with the
  dependencies it would have, does not depend on itself through any chain of dependencies of the
  tracker; and what it hands back is such a chain, from the task to itself.\<close>

theorem cycle_check_is_exact:
  "(cycleWith tasks t = [] \<longleftrightarrow> (t_id t, t_id t) \<notin> (depends (deps_with tasks t))\<^sup>+)
   \<and> (cycleWith tasks t = []
      \<or> (dep_chain (deps_with tasks t) (cycleWith tasks t)
         \<and> hd (cycleWith tasks t) = t_id t \<and> last (cycleWith tasks t) = t_id t))"
  unfolding cycleWith_def using walk_from_iff walk_from_some by blast

section \<open>Every command keeps the invariant\<close>

lemma set_update_first:
  "distinct (map t_id ts) \<Longrightarrow> t \<in> set ts \<Longrightarrow>
     set (update_first (t_id t) f ts) = insert (f t) {x \<in> set ts. t_id x \<noteq> t_id t}"
  by (induction ts) (auto simp: image_iff)

lemma map_update_first:
  "(\<And>x. g (f x) = g x) \<Longrightarrow> map g (update_first i f ts) = map g ts"
  by (induction ts) auto

text \<open>A change that leaves id, epic and dependencies alone.\<close>

lemma update_keeps_inv:
  assumes "\<And>x. t_id (f x) = t_id x" and "\<And>x. t_deps (f x) = t_deps x" and "\<And>x. t_epic (f x) = t_epic x"
  shows "tracker_inv (update_first i f ts) = tracker_inv ts"
proof -
  let ?g = "\<lambda>x. (t_id x, t_deps x, t_epic x)"
  have same: "map ?g (update_first i f ts) = map ?g ts"
    by (rule map_update_first) (simp add: assms)
  have ids: "map t_id us = map (fst \<circ> ?g) us" for us by (simp add: comp_def)
  have rel: "dep_rel us = {(a, b). \<exists>p \<in> set (map ?g us). fst p = a \<and> b \<in> set (fst (snd p))}" for us
    by (auto simp: dep_rel_def)
  have all: "(\<forall>t \<in> set us. idProblem (t_id t) = None \<and> epicProblem (t_id t) (t_epic t) = None) \<longleftrightarrow>
      (\<forall>p \<in> set (map ?g us). idProblem (fst p) = None \<and> epicProblem (fst p) (snd (snd p)) = None)" for us
    by auto
  have ids_eq: "map t_id (update_first i f ts) = map t_id ts"
    by (rule map_update_first) (simp add: assms)
  show ?thesis
    unfolding tracker_inv_def ids_eq all rel same ..
qed

lemma status_changes_keep [simp]:
  "t_id (started d x) = t_id x" "t_deps (started d x) = t_deps x" "t_epic (started d x) = t_epic x"
  "t_id (finished d n x) = t_id x" "t_deps (finished d n x) = t_deps x" "t_epic (finished d n x) = t_epic x"
  "t_id (blocked_for r x) = t_id x" "t_deps (blocked_for r x) = t_deps x" "t_epic (blocked_for r x) = t_epic x"
  "t_id (reset_to_todo w x) = t_id x" "t_deps (reset_to_todo w x) = t_deps x"
  "t_epic (reset_to_todo w x) = t_epic x"
  by (simp_all add: started_def finished_def blocked_for_def reset_to_todo_def Let_def)

lemma status_commands_inv:
  assumes inv: "tracker_inv tasks"
  shows "cmd_start env tasks args = Inr r \<Longrightarrow> tracker_inv (saved (r_writes r) tasks)"
    and "cmd_done env tasks args = Inr r \<Longrightarrow> tracker_inv (saved (r_writes r) tasks)"
    and "cmd_block env tasks args = Inr r \<Longrightarrow> tracker_inv (saved (r_writes r) tasks)"
    and "cmd_todo w env tasks args = Inr r \<Longrightarrow> tracker_inv (saved (r_writes r) tasks)"
  using inv
  by (auto simp: cmd_start_def cmd_done_def cmd_block_def cmd_todo_def and_then_Inr Let_def update_keeps_inv
           split: if_splits)

lemma check_answer_writes: "check_answer oc = Inr r \<Longrightarrow> r_writes r = []"
  by (cases oc) (auto simp: check_answer_def)

lemma reading_commands_inv:
  assumes inv: "tracker_inv tasks"
  shows "cmd_next env tasks args = Inr r \<Longrightarrow> tracker_inv (saved (r_writes r) tasks)"
    and "cmd_list env tasks args = Inr r \<Longrightarrow> tracker_inv (saved (r_writes r) tasks)"
    and "cmd_show tasks args = Inr r \<Longrightarrow> tracker_inv (saved (r_writes r) tasks)"
    and "cmd_render env tasks args = Inr r \<Longrightarrow> tracker_inv (saved (r_writes r) tasks)"
  using inv
  by (auto simp: cmd_next_def cmd_list_def cmd_show_def cmd_render_def and_then_Inr Let_def
           dest!: check_answer_writes split: if_splits)

lemma checkDeps_Inr: "checkDeps tasks deps = Inr () \<longleftrightarrow> set deps \<subseteq> set (map t_id tasks)"
  by (auto simp: checkDeps_def Let_def missingDeps_def filter_empty_conv)

lemma checkCycle_Inr:
  "distinct (map t_id tasks) \<Longrightarrow> checkCycle tasks t = Inr () \<longleftrightarrow>
     (t_id t, t_id t) \<notin> ({(a, b) \<in> dep_rel tasks. a \<noteq> t_id t} \<union> {t_id t} \<times> set (t_deps t))\<^sup>+"
  using walk_from_iff [of "deps_with tasks t" "t_id t"]
  by (simp add: checkCycle_def Let_def cycleWith_def depends_deps_with)

lemma cmd_add_saves:
  assumes "cmd_add env tasks args = Inr r"
  shows "\<exists>a. saved (r_writes r) tasks = tasks @ [a] \<and> t_id a \<notin> set (map t_id tasks)
    \<and> idProblem (t_id a) = None \<and> epicProblem (t_id a) (t_epic a) = None
    \<and> checkDeps tasks (t_deps a) = Inr () \<and> checkCycle tasks a = Inr ()"
  using assms
  by (fastforce simp: cmd_add_def and_then_Inr Let_def added_task_def split: option.splits)

lemma cmd_add_inv:
  assumes inv: "tracker_inv tasks" and run: "cmd_add env tasks args = Inr r"
  shows "tracker_inv (saved (r_writes r) tasks)"
proof -
  obtain a where a: "saved (r_writes r) tasks = tasks @ [a]" "t_id a \<notin> set (map t_id tasks)"
    "idProblem (t_id a) = None" "epicProblem (t_id a) (t_epic a) = None"
    "set (t_deps a) \<subseteq> set (map t_id tasks)" "checkCycle tasks a = Inr ()"
    using cmd_add_saves [OF run] checkDeps_Inr by blast
  let ?R = "dep_rel (tasks @ [a])"
  have rel: "?R = dep_rel tasks \<union> {t_id a} \<times> set (t_deps a)"
    by (auto simp: dep_rel_def)
  have out: "{(x, y) \<in> dep_rel tasks. x \<noteq> t_id a} = dep_rel tasks"
    using a(2) by (auto simp: dep_rel_def intro: rev_image_eqI)
  have dist: "distinct (map t_id tasks)" using inv by (simp add: tracker_inv_def)
  have "acyclic ?R"
  proof (rule acyclic_by_one [of _ "t_id a"])
    have "{(x, y) \<in> ?R. x \<noteq> t_id a} = dep_rel tasks" using out rel by auto
    then show "acyclic {(x, y) \<in> ?R. x \<noteq> t_id a}" using inv by (simp add: tracker_inv_def)
    show "(t_id a, t_id a) \<notin> ?R\<^sup>+"
      using a(6) checkCycle_Inr [OF dist, of a] unfolding out rel by simp
  qed
  moreover have "Range ?R \<subseteq> set (map t_id (tasks @ [a]))"
    using inv a(5) unfolding rel tracker_inv_def by auto
  ultimately show ?thesis
    using inv a by (simp add: tracker_inv_def)
qed

lemma apply_change_fields:
  "t_id (apply_change c t) = t_id t" "t_epic (apply_change c t) = t_epic t"
  "t_deps (apply_change c t) = (case new_deps c of Some ds \<Rightarrow> ds | None \<Rightarrow> t_deps t)"
  by (simp_all add: apply_change_def Let_def split: option.splits)

lemma find_id_Some: "find_id tasks i = Some t \<Longrightarrow> t \<in> set tasks \<and> t_id t = i"
  by (auto simp: find_id_def find_Some_iff)

lemma cmd_set_saves:
  assumes "cmd_set env tasks args = Inr r"
  shows "\<exists>t c. t \<in> set tasks \<and> saved (r_writes r) tasks = update_first (t_id t) (apply_change c) tasks
    \<and> (\<forall>ds. new_deps c = Some ds \<longrightarrow>
         checkDeps tasks ds = Inr () \<and> checkCycle tasks (t\<lparr>t_deps := ds\<rparr>) = Inr ())"
proof -
  obtain title doc depsArg est i0 t u1 u2 ws out where
    t: "task_of_arg tasks (Some i0) = Inr t"
    and ok1: "given_check (checkDeps tasks) (map_option depsOf depsArg) = Inr u1"
    and ok2: "given_check (\<lambda>ds. checkCycle tasks (t\<lparr>t_deps := ds\<rparr>))
        (new_deps (change_of t title doc (map_option depsOf depsArg) est)) = Inr u2"
    and sv0: "Inr \<lparr>r_writes = Save (update_first (t_id t)
          (apply_change (change_of t title doc (map_option depsOf depsArg) est)) tasks) # Worklog ws # [page_write env
            (update_first (t_id t) (apply_change (change_of t title doc (map_option depsOf depsArg) est)) tasks)],
        r_output = out\<rparr> = (Inr r :: cli_failure + cli_result)"
    using assms unfolding cmd_set_def Let_def and_then_Inr
    by (elim exE conjE) (rule that; assumption)
  define deps where "deps = map_option depsOf depsArg"
  have sv: "saved (r_writes r) tasks = update_first (t_id t) (apply_change (change_of t title doc deps est)) tasks"
    using sv0 unfolding deps_def by auto
  have ok: "given_check (checkDeps tasks) deps = Inr ()"
      "given_check (\<lambda>ds. checkCycle tasks (t\<lparr>t_deps := ds\<rparr>)) (new_deps (change_of t title doc deps est)) = Inr ()"
    using ok1 ok2 unfolding deps_def by simp_all
  have "t \<in> set tasks"
    using t by (auto simp: task_of_arg_def split: option.splits dest: find_id_Some)
  moreover have "new_deps (change_of t title doc deps est) = Some ds \<Longrightarrow> deps = Some ds" for ds
    by (auto simp: change_of_def split: option.splits if_splits)
  ultimately show ?thesis
    using ok sv unfolding given_check_Inr
    by (intro exI [of _ t] exI [of _ "change_of t title doc deps est"]) blast
qed

lemma cmd_set_inv:
  assumes inv: "tracker_inv tasks" and run: "cmd_set env tasks args = Inr r"
  shows "tracker_inv (saved (r_writes r) tasks)"
proof -
  obtain t c where t: "t \<in> set tasks"
    "saved (r_writes r) tasks = update_first (t_id t) (apply_change c) tasks"
    and checks: "\<And>ds. new_deps c = Some ds \<Longrightarrow>
      set ds \<subseteq> set (map t_id tasks) \<and> checkCycle tasks (t\<lparr>t_deps := ds\<rparr>) = Inr ()"
    using cmd_set_saves [OF run] checkDeps_Inr by blast
  let ?ts = "update_first (t_id t) (apply_change c) tasks"
  have dist: "distinct (map t_id tasks)" using inv by (simp add: tracker_inv_def)
  have ids: "map t_id ?ts = map t_id tasks"
    by (rule map_update_first) (simp add: apply_change_fields)
  have st: "set ?ts = insert (apply_change c t) {x \<in> set tasks. t_id x \<noteq> t_id t}"
    by (rule set_update_first [OF dist t(1)])
  let ?new = "t_deps (apply_change c t)"
  have rel: "dep_rel ?ts = {(x, y) \<in> dep_rel tasks. x \<noteq> t_id t} \<union> {t_id t} \<times> set ?new"
    unfolding dep_rel_def st by (auto simp: apply_change_fields)
  have old: "\<forall>d \<in> set (t_deps t). (t_id t, d) \<in> dep_rel tasks"
    using t(1) by (auto simp: dep_rel_def)
  have known: "set ?new \<subseteq> set (map t_id tasks)"
  proof (cases "new_deps c")
    case None
    then show ?thesis
      using old inv Range.intros unfolding apply_change_fields tracker_inv_def by fastforce
  next
    case (Some ds)
    with checks show ?thesis by (simp add: apply_change_fields)
  qed
  have "acyclic (dep_rel ?ts)"
  proof (cases "new_deps c")
    case None
    have "dep_rel ?ts \<subseteq> dep_rel tasks"
      using None old unfolding rel by (auto simp: apply_change_fields)
    then show ?thesis using inv acyclic_subset unfolding tracker_inv_def by blast
  next
    case (Some ds)
    show ?thesis
    proof (rule acyclic_by_one [of _ "t_id t"])
      have "{(x, y) \<in> dep_rel ?ts. x \<noteq> t_id t} = {(x, y) \<in> dep_rel tasks. x \<noteq> t_id t}"
        unfolding rel by auto
      then show "acyclic {(x, y) \<in> dep_rel ?ts. x \<noteq> t_id t}"
        using acyclic_subset_of [of "dep_rel tasks" "\<lambda>x. x \<noteq> t_id t"] inv
        by (simp only: tracker_inv_def)
      show "(t_id t, t_id t) \<notin> (dep_rel ?ts)\<^sup>+"
        using checks [OF Some] checkCycle_Inr [OF dist, of "t\<lparr>t_deps := ds\<rparr>"] Some
        unfolding rel by (simp add: apply_change_fields)
    qed
  qed
  moreover have "Range (dep_rel ?ts) \<subseteq> set (map t_id ?ts)"
    using inv known unfolding rel ids tracker_inv_def by auto
  moreover have "\<forall>x \<in> set ?ts. idProblem (t_id x) = None \<and> epicProblem (t_id x) (t_epic x) = None"
    using inv t(1) unfolding st tracker_inv_def by (auto simp: apply_change_fields)
  ultimately show ?thesis
    using dist unfolding t(2) tracker_inv_def ids by blast
qed

lemma if_result:
  "(if c then a else b) = x \<Longrightarrow> (a = x \<Longrightarrow> Q) \<Longrightarrow> (b = x \<Longrightarrow> Q) \<Longrightarrow> Q"
  by (cases c) auto

lemma run_command_inv:
  assumes inv: "tracker_inv tasks"
  shows "run_command env tasks argv = Inr r \<Longrightarrow> tracker_inv (saved (r_writes r) tasks)"
  unfolding run_command_def Let_def
  by (elim if_result, erule reading_commands_inv(4) [OF inv], erule reading_commands_inv(1) [OF inv],
      erule reading_commands_inv(2) [OF inv], erule reading_commands_inv(3) [OF inv],
      erule status_commands_inv(1) [OF inv], erule status_commands_inv(2) [OF inv],
      erule status_commands_inv(3) [OF inv], erule cmd_add_inv [OF inv], erule cmd_set_inv [OF inv],
      erule status_commands_inv(4) [OF inv], erule status_commands_inv(4) [OF inv], erule notE [OF sum.distinct(1)])

lemma after_command_inv: "tracker_inv tasks \<Longrightarrow> tracker_inv (after_command env tasks argv)"
  by (auto simp: after_command_def split: sum.splits dest: run_command_inv)

interpretation tracker: event_machine "\<lambda>ts (env, argv). after_command env ts argv" tracker_inv
  by unfold_locales (auto intro: after_command_inv)

section \<open>The tracker is never stuck\<close>

lemma is_done_distinct:
  assumes "distinct (map t_id tasks)" and "t \<in> set tasks" and "t_status t = St_done"
  shows "is_done tasks (t_id t)"
proof -
  obtain x where x: "find_id tasks (t_id t) = Some x"
    using assms(2) by (cases "find_id tasks (t_id t)") (auto simp: find_id_def find_None_iff)
  then have "x \<in> set tasks" "t_id x = t_id t" using find_id_Some by blast+
  then have "x = t" using assms(1,2) by (metis distinct_map inj_onD)
  with x assms(3) show ?thesis by (simp add: is_done_def)
qed

lemma finite_dep_rel: "finite (dep_rel tasks)"
proof -
  have "dep_rel tasks = (\<Union>t \<in> set tasks. {t_id t} \<times> set (t_deps t))"
    by (auto simp: dep_rel_def)
  then show ?thesis by simp
qed

lemma something_to_do:
  assumes inv: "tracker_inv tasks" and open0: "\<exists>t \<in> set tasks. t_status t \<noteq> St_done"
  shows "\<exists>t \<in> set tasks. t_status t \<noteq> St_done \<and> (t_status t \<noteq> St_todo \<or> t \<in> set (available lc tasks))"
proof -
  let ?N = "{t_id t | t. t \<in> set tasks \<and> t_status t \<noteq> St_done}"
  have "wf ((dep_rel tasks)\<inverse>)"
    using inv finite_dep_rel by (simp add: tracker_inv_def finite_acyclic_wf_converse)
  moreover have "?N \<noteq> {}" using open0 by auto
  ultimately obtain i where i: "i \<in> ?N" "\<And>d. (d, i) \<in> (dep_rel tasks)\<inverse> \<Longrightarrow> d \<notin> ?N"
    using wfE_min' [of "(dep_rel tasks)\<inverse>" ?N] by blast
  then obtain t where t: "t \<in> set tasks" "t_id t = i" "t_status t \<noteq> St_done" by blast
  have "is_done tasks d" if d: "d \<in> set (t_deps t)" for d
  proof -
    have edge: "(i, d) \<in> dep_rel tasks" using d t by (auto simp: dep_rel_def)
    then have "d \<in> Range (dep_rel tasks)" by (rule RangeI)
    then have "d \<in> set (map t_id tasks)" using inv unfolding tracker_inv_def by blast
    then obtain x where x: "x \<in> set tasks" "t_id x = d" by auto
    moreover have "t_status x = St_done" using i(2) [of d] edge x by blast
    ultimately show ?thesis
      using is_done_distinct [of tasks x] inv by (simp add: tracker_inv_def)
  qed
  then have "depsDone tasks t" by (simp add: depsDone_def list_all_iff)
  then have "t_status t = St_todo \<Longrightarrow> t \<in> set (available lc tasks)"
    using t by (simp add: available_def)
  with t show ?thesis by blast
qed

text \<open>C24: whatever commands are given to a tracker that satisfies the invariant - refused ones, with
  any flags, on any day - it satisfies it after each of them, and so the work is never stuck:
  while a task is not done, \<open>next\<close> has a task to offer or there is one in progress or blocked.\<close>

theorem tracker_is_never_stuck:
  assumes "tracker_inv tasks"
  shows "let ts = foldl (\<lambda>ts (env, argv). after_command env ts argv) tasks runs in
    tracker_inv ts
    \<and> ((\<forall>t \<in> set ts. t_status t = St_done)
       \<or> available lc ts \<noteq> []
       \<or> (\<exists>t \<in> set ts. t_status t = St_in_progress \<or> t_status t = St_blocked))"
proof -
  let ?ts = "foldl (\<lambda>ts (env, argv). after_command env ts argv) tasks runs"
  have inv: "tracker_inv ?ts" by (rule tracker.run_inv [OF assms])
  have "available lc ?ts \<noteq> [] \<or> (\<exists>t \<in> set ?ts. t_status t = St_in_progress \<or> t_status t = St_blocked)"
    if busy: "\<not> (\<forall>t \<in> set ?ts. t_status t = St_done)"
  proof -
    have "\<exists>t \<in> set ?ts. t_status t \<noteq> St_done" using busy by blast
    then obtain t where "t \<in> set ?ts" "t_status t \<noteq> St_done"
      "t_status t \<noteq> St_todo \<or> t \<in> set (available lc ?ts)"
      using something_to_do [OF inv] by blast
    then show ?thesis by (cases "t_status t") auto
  qed
  with inv show ?thesis by (auto simp: Let_def)
qed

text \<open>A tracker with two tasks, the second of which waits for the first.\<close>

definition two_tasks :: "task list" where
  "two_tasks =
     (let t = \<lparr>t_id = ''E0-1'', t_epic = ''E0'', t_title = ''A'', t_estimate = ''?'', t_estimate_days = None,
               t_deps = [], t_doc = DEFAULT_DOC, t_status = St_todo, t_started_at = None, t_done_at = None,
               t_blocked_reason = None, t_note = None, t_added_at = None\<rparr> in
      [t, t\<lparr>t_id := ''E0-2'', t_deps := [''E0-1'']\<rparr>])"

lemma two_tasks_inv: "tracker_inv two_tasks"
proof -
  have ids: "map t_id two_tasks = [''E0-1'', ''E0-2'']" by (simp add: two_tasks_def Let_def)
  have rel: "dep_rel two_tasks = {(''E0-2'', ''E0-1'')}"
    by (auto simp: dep_rel_def two_tasks_def Let_def)
  have "acyclic (dep_rel two_tasks)"
    unfolding rel by (simp add: acyclic_def trancl_insert)
  moreover have "\<forall>t \<in> set two_tasks. idProblem (t_id t) = None \<and> epicProblem (t_id t) (t_epic t) = None"
    by code_simp
  ultimately show ?thesis unfolding tracker_inv_def ids rel by simp
qed

theorem tracker_is_never_stuck_witness:
  "tracker_inv two_tasks
   \<and> (\<forall>env lc. let ts = foldl (\<lambda>ts (env, argv). after_command env ts argv) two_tasks
         [(env, [''done'', ''E0-1''])] in
      tracker_inv ts
      \<and> ((\<forall>t \<in> set ts. t_status t = St_done)
         \<or> available lc ts \<noteq> []
         \<or> (\<exists>t \<in> set ts. t_status t = St_in_progress \<or> t_status t = St_blocked)))"
  by (intro conjI allI two_tasks_inv tracker_is_never_stuck)

end
