(* ===== verification/Compose_Graph.thy ===== *)
theory Compose_Graph
  imports Repo_Files
begin

text \<open>
  The graph of Compose files a root Compose file pulls in: scripts/lib/yaml-doc.mjs (the
  fail-closed reading of a YAML text) and scripts/lib/compose-graph.mjs (the paths a file names
  and the walk over them).  The YAML parser, the file system and the arithmetic of paths are
  parameters.  The walk is a \<open>partial_function\<close>, so that not returning is a value of its own:
  it is proved to return whenever the files it may open are finitely many.
\<close>

section \<open>Parsed values\<close>

text \<open>
  What the parser builds: an alias makes two places hold the same object, so objects and lists
  live in a heap and a value may refer to itself.
\<close>

datatype yaml_value =
    YNull
  | YBool bool
  | YNum jsnum
  | YStr string
  | YRef nat

datatype yaml_node =
    YList "yaml_value list"
  | YMap "(string \<times> yaml_value) list"

type_synonym yaml_heap = "yaml_node list"

text \<open>The \<open>children\<close> of the code: the items of a list, the values of a mapping.\<close>

definition node_children :: "yaml_node \<Rightarrow> yaml_value list" where
  "node_children n = (case n of YList vs \<Rightarrow> vs | YMap kvs \<Rightarrow> map snd kvs)"

definition node_at :: "yaml_heap \<Rightarrow> yaml_value \<Rightarrow> yaml_node option" where
  "node_at h v = (case v of YRef a \<Rightarrow> if a < length h then Some (h ! a) else None | _ \<Rightarrow> None)"

text \<open>\<open>isRecord\<close> of scripts/lib/json.mjs, with the entries it gives access to.\<close>

definition recordOf :: "yaml_heap \<Rightarrow> yaml_value \<Rightarrow> (string \<times> yaml_value) list option" where
  "recordOf h v = (case node_at h v of Some (YMap kvs) \<Rightarrow> Some kvs | _ \<Rightarrow> None)"

definition isRecord :: "yaml_heap \<Rightarrow> yaml_value \<Rightarrow> bool" where
  "isRecord h v \<longleftrightarrow> recordOf h v \<noteq> None"

definition listOf :: "yaml_heap \<Rightarrow> yaml_value \<Rightarrow> yaml_value list option" where
  "listOf h v = (case node_at h v of Some (YList vs) \<Rightarrow> Some vs | _ \<Rightarrow> None)"

section \<open>Reading a YAML text\<close>

record yaml_note =
  note_code :: string
  note_line :: "nat option"
  note_message :: string

datatype build_failure =
    Reference_Error string
  | Build_Error string
  | Not_An_Error string

record yaml_document =
  doc_errors :: "yaml_note list"
  doc_warnings :: "yaml_note list"
  doc_toJS :: "nat \<Rightarrow> build_failure + (yaml_heap \<times> yaml_value)"

datatype yaml_reading =
    Reading_value yaml_heap yaml_value
  | Reading_empty
  | Reading_documents nat
  | Reading_notes "yaml_note list"
  | Reading_aliases
  | Reading_unbuilt string

definition MAX_ALIAS_COUNT :: nat where
  "MAX_ALIAS_COUNT = 100"

definition contains :: "string \<Rightarrow> string \<Rightarrow> bool" where
  "contains s part \<longleftrightarrow> list_ex (\<lambda>i. take (length part) (drop i s) = part) [0..<Suc (length s)]"

text \<open>A thrown value that is no \<open>Error\<close> is not caught.\<close>

definition readYaml :: "(string \<Rightarrow> yaml_document list) \<Rightarrow> string \<Rightarrow> thrown + yaml_reading" where
  "readYaml parseAllDocuments text0 =
     (case parseAllDocuments text0 of
        [] \<Rightarrow> Inr Reading_empty
      | doc # more0 \<Rightarrow>
          if more0 \<noteq> [] then Inr (Reading_documents (length more0 + 1))
          else
            (let notes = doc_errors doc @ doc_warnings doc in
             if notes \<noteq> [] then
               Inr (Reading_notes
                 (map (\<lambda>n. n\<lparr>note_message := hd (split_on (CHR 10) (note_message n))\<rparr>) notes))
             else (case doc_toJS doc MAX_ALIAS_COUNT of
                 Inr (h, v) \<Rightarrow> Inr (Reading_value h v)
               | Inl (Not_An_Error t) \<Rightarrow> Inl (Value_Thrown t)
               | Inl (Reference_Error m) \<Rightarrow>
                   Inr (if contains (lower m) ''alias count'' then Reading_aliases
                        else Reading_unbuilt m)
               | Inl (Build_Error m) \<Rightarrow> Inr (Reading_unbuilt m))))"

text \<open>A value is handed back only for one document the parser took without a note.\<close>

lemma readYaml_value:
  assumes "readYaml p t = Inr (Reading_value h v)"
  shows "\<exists>doc. p t = [doc] \<and> doc_errors doc = [] \<and> doc_warnings doc = []
       \<and> doc_toJS doc MAX_ALIAS_COUNT = Inr (h, v)"
  using assms
  by (auto simp: readYaml_def Let_def
           split: list.splits if_splits sum.splits prod.splits build_failure.splits)

section \<open>Cyclic aliases\<close>

text \<open>
  \<open>above\<close> of the code (here \<open>onpath\<close>) is the set of the objects on the way down.  The code adds the object before it looks
  at the children and deletes it after, which is the set passed down here.
\<close>

function isCyclic :: "yaml_heap \<Rightarrow> nat set \<Rightarrow> yaml_value \<Rightarrow> bool" where
  "isCyclic h onpath v =
     (case v of
        YRef a \<Rightarrow>
          if a \<in> onpath then True
          else if length h \<le> a then False
          else list_ex (isCyclic h (insert a onpath)) (node_children (h ! a))
      | _ \<Rightarrow> False)"
  by pat_completeness auto

termination
proof (relation "measure (\<lambda>(h, onpath, v). card ({..<length h} - onpath))", goal_cases)
  case 1
  then show ?case by simp
next
  case (2 h onpath v a c)
  then have "a \<in> {..<length h} - onpath" by simp
  moreover have "{..<length h} - insert a onpath = ({..<length h} - onpath) - {a}" by auto
  ultimately show ?case
    by (simp add: card_Diff1_less del: card_Diff_insert)
qed

declare isCyclic.simps [simp del]

text \<open>One object holds another, directly.\<close>

definition holds :: "yaml_heap \<Rightarrow> (nat \<times> nat) set" where
  "holds h = {(a, b). a < length h \<and> YRef b \<in> set (node_children (h ! a))}"

lemma isCyclic_reaches:
  "isCyclic h onpath v \<longleftrightarrow>
     (\<exists>a b. v = YRef a \<and> (a, b) \<in> (holds h)\<^sup>* \<and> (b \<in> onpath \<or> (b, b) \<in> (holds h)\<^sup>+))"
  (is "_ \<longleftrightarrow> ?R onpath v")
proof (induction h onpath v rule: isCyclic.induct)
  case (1 h onpath v)
  let ?R = "\<lambda>S v. \<exists>a b. v = YRef a \<and> (a, b) \<in> (holds h)\<^sup>* \<and> (b \<in> S \<or> (b, b) \<in> (holds h)\<^sup>+)"
  show ?case
  proof (cases v)
    case v: (YRef a)
    consider (met) "a \<in> onpath" | (dangling) "a \<notin> onpath" "length h \<le> a"
      | (node) "a \<notin> onpath" "a < length h" by linarith
    then show ?thesis
    proof cases
      case met
      then show ?thesis unfolding v isCyclic.simps [of h onpath "YRef a"] by auto
    next
      case dangling
      have "b = a" if "(a, b) \<in> (holds h)\<^sup>*" for b
        using that dangling by (cases rule: converse_rtranclE) (auto simp: holds_def)
      moreover have "(a, a) \<notin> (holds h)\<^sup>+"
        using dangling by (auto simp: holds_def dest: tranclD)
      ultimately show ?thesis unfolding v isCyclic.simps [of h onpath "YRef a"]
        using dangling by auto
    next
      case node
      have ih: "isCyclic h (insert a onpath) c \<longleftrightarrow> ?R (insert a onpath) c"
        if "c \<in> set (node_children (h ! a))" for c
        using 1 [of a c] v node that by auto
      have "isCyclic h onpath v \<longleftrightarrow> (\<exists>c \<in> set (node_children (h ! a)). ?R (insert a onpath) c)"
        unfolding v isCyclic.simps [of h onpath "YRef a"] using node ih by (auto simp: list_ex_iff)
      also have "\<dots> \<longleftrightarrow> (\<exists>c b. (a, c) \<in> holds h \<and> (c, b) \<in> (holds h)\<^sup>*
          \<and> (b = a \<or> b \<in> onpath \<or> (b, b) \<in> (holds h)\<^sup>+))"
        using node by (auto simp: holds_def)
      also have "\<dots> \<longleftrightarrow> ?R onpath v"
      proof
        assume "\<exists>c b. (a, c) \<in> holds h \<and> (c, b) \<in> (holds h)\<^sup>*
          \<and> (b = a \<or> b \<in> onpath \<or> (b, b) \<in> (holds h)\<^sup>+)"
        then obtain c b where "(a, c) \<in> holds h" "(c, b) \<in> (holds h)\<^sup>*"
          and end_: "b = a \<or> b \<in> onpath \<or> (b, b) \<in> (holds h)\<^sup>+" by blast
        then have "(a, b) \<in> (holds h)\<^sup>+" by (meson rtrancl_into_trancl2)
        with end_ v show "?R onpath v" by (metis trancl_into_rtrancl)
      next
        assume "?R onpath v"
        then obtain b where b: "(a, b) \<in> (holds h)\<^sup>*" "b \<in> onpath \<or> (b, b) \<in> (holds h)\<^sup>+"
          using v by auto
        with node have "(a, b) \<in> (holds h)\<^sup>+" by (metis rtranclD)
        then obtain c where "(a, c) \<in> holds h" "(c, b) \<in> (holds h)\<^sup>*" by (meson tranclD)
        with b show "\<exists>c b. (a, c) \<in> holds h \<and> (c, b) \<in> (holds h)\<^sup>*
          \<and> (b = a \<or> b \<in> onpath \<or> (b, b) \<in> (holds h)\<^sup>+)" by blast
      qed
      finally show ?thesis .
    qed
  qed (simp_all add: isCyclic.simps)
qed

text \<open>The test for a cyclic alias is exact: it says yes if and only if an object that is its
  own descendant can be reached from the value, however often objects are shared without a
  cycle.\<close>

theorem cyclic_alias_is_exact:
  "isCyclic h {} v \<longleftrightarrow> (\<exists>a b. v = YRef a \<and> (a, b) \<in> (holds h)\<^sup>* \<and> (b, b) \<in> (holds h)\<^sup>+)"
  by (simp add: isCyclic_reaches)

section \<open>One file\<close>

text \<open>
  The root mapping of a file, or the problems that keep it from being read.  The message of
  each problem starts with the file.
\<close>

definition unread :: "string" where
  "unread = '' - the gate does not read a file the parser does not take as it is''"

definition rootOf ::
  "(string \<Rightarrow> yaml_document list) \<Rightarrow> string \<Rightarrow> string
   \<Rightarrow> thrown + ((yaml_heap \<times> (string \<times> yaml_value) list) option \<times> string list)"
where
  "rootOf parse file text0 =
     (let refused = (\<lambda>why. Inr (None, [file @ '': '' @ why])) in
      case readYaml parse text0 of
        Inl e \<Rightarrow> Inl e
      | Inr reading \<Rightarrow>
         (case reading of
            Reading_empty \<Rightarrow> refused ''no YAML document - Compose refuses an empty file''
          | Reading_documents n \<Rightarrow>
              refused (show_nat n @
                '' YAML documents - Compose reads every one, the gate reads a file of one'')
          | Reading_notes ns \<Rightarrow>
              Inr (None, map (\<lambda>n. file @ '': '' @ note_code n @ '' at line ''
                 @ (case note_line n of None \<Rightarrow> ''?'' | Some l \<Rightarrow> show_nat l) @ unread) ns)
          | Reading_aliases \<Rightarrow>
              refused ''aliases the gate does not expand (past maxAliasCount)''
          | Reading_unbuilt m \<Rightarrow> refused (''the parser cannot build it ('' @ m @ '')'')
          | Reading_value h v \<Rightarrow>
              if isCyclic h {} v then refused ''a cyclic alias - Compose refuses it''
              else (case recordOf h v of
                 None \<Rightarrow> refused ''the root is not a mapping''
               | Some kvs \<Rightarrow> Inr (Some (h, kvs), []))))"

text \<open>
  The paths a file names, each with its field, and the problems of the fields that name one in
  a form the reader does not take.  A list pushed to in turn is the concatenation of what each
  step pushes; the entries of a mapping are in the order \<open>Object.entries\<close> gives them.
\<close>

type_synonym naming = "(string \<times> string) list \<times> string list"

definition gather :: "naming list \<Rightarrow> naming" where
  "gather ns = (concat (map fst ns), concat (map snd ns))"

definition indexed :: "'a list \<Rightarrow> (nat \<times> 'a) list" where
  "indexed xs = zip [0..<length xs] xs"

definition include_items :: "string \<Rightarrow> yaml_value list \<Rightarrow> naming" where
  "include_items field items =
     gather (map (\<lambda>(i, item). case item of
         YStr p \<Rightarrow> ([(field @ ''.path['' @ show_nat i @ '']'', p)], [])
       | _ \<Rightarrow> ([], [field @ ''.path['' @ show_nat i @ ''] is not a path''])) (indexed items))"

definition include_entry :: "yaml_heap \<Rightarrow> nat \<Rightarrow> yaml_value \<Rightarrow> naming" where
  "include_entry h index entry =
     (let field = ''include['' @ show_nat index @ '']'' in
      case entry of
        YStr p \<Rightarrow> ([(field, p)], [])
      | _ \<Rightarrow>
        (case recordOf h entry of
           None \<Rightarrow> ([], [field @ '' is neither a path nor a mapping with path''])
         | Some kvs \<Rightarrow>
             gather
               [([], map (\<lambda>k. field @ ''.'' @ k
                        @ '' - an include takes path alone, the gate checks no other field'')
                     (filter (\<lambda>k. k \<noteq> ''path'') (map fst kvs))),
                (case map_of kvs ''path'' of
                   Some (YStr p) \<Rightarrow> ([(field @ ''.path'', p)], [])
                 | Some v \<Rightarrow>
                     (case listOf h v of
                        Some items \<Rightarrow> include_items field items
                      | None \<Rightarrow> ([], [field @ ''.path is neither a path nor a list of paths'']))
                 | None \<Rightarrow> ([], [field @ ''.path is neither a path nor a list of paths'']))]))"

definition service_extends :: "yaml_heap \<Rightarrow> string \<Rightarrow> yaml_value \<Rightarrow> naming" where
  "service_extends h name service =
     (case recordOf h service of
        None \<Rightarrow> ([], [''services.'' @ name @ '' is not a mapping''])
      | Some skvs \<Rightarrow>
        (let field = ''services.'' @ name @ ''.extends'' in
         case map_of skvs ''extends'' of
           None \<Rightarrow> ([], [])
         | Some (YStr _) \<Rightarrow> ([], [])
         | Some base \<Rightarrow>
           (case recordOf h base of
              None \<Rightarrow> ([], [field @ '' is neither a service name nor a mapping with service''])
            | Some kvs \<Rightarrow>
               gather
                 [([], map (\<lambda>k. field @ ''.'' @ k @ '' - an extends takes service and file alone'')
                       (filter (\<lambda>k. k \<noteq> ''service'' \<and> k \<noteq> ''file'') (map fst kvs))),
                  (case map_of kvs ''service'' of
                     Some (YStr _) \<Rightarrow> ([], [])
                   | _ \<Rightarrow> ([], [field @ ''.service is not a service name''])),
                  (case map_of kvs ''file'' of
                     None \<Rightarrow> ([], [])
                   | Some (YStr p) \<Rightarrow> ([(field @ ''.file'', p)], [])
                   | Some _ \<Rightarrow> ([], [field @ ''.file is not a path'']))])))"

definition namedPaths :: "yaml_heap \<Rightarrow> (string \<times> yaml_value) list \<Rightarrow> naming" where
  "namedPaths h kvs =
     gather
       [(case map_of kvs ''include'' of
           None \<Rightarrow> ([], [])
         | Some YNull \<Rightarrow> ([], [])
         | Some v \<Rightarrow>
             (case listOf h v of
                None \<Rightarrow> ([], [''include is not a list''])
              | Some entries \<Rightarrow> gather (map (\<lambda>(i, e). include_entry h i e) (indexed entries)))),
        (case map_of kvs ''services'' of
           None \<Rightarrow> ([], [])
         | Some v \<Rightarrow>
             (case recordOf h v of
                None \<Rightarrow> ([], [''services is not a mapping''])
              | Some ss \<Rightarrow> gather (map (\<lambda>(n, s). service_extends h n s) ss)))]"

section \<open>The walk\<close>

record graph_readers =
  read_file :: "string \<Rightarrow> thrown + string option"
  realpath_of :: "string \<Rightarrow> thrown + string"
  admits :: "string \<Rightarrow> bool"
  parse_yaml :: "string \<Rightarrow> yaml_document list"
  resolve_path :: "string \<Rightarrow> string \<Rightarrow> string"
  dirname_of :: "string \<Rightarrow> string"

record compose_reference =
  ref_from :: string
  ref_field :: string
  ref_written :: string
  ref_target :: string

record graph_state =
  g_queue :: "string list"
  g_seen :: "string list"
  g_files :: "string list"
  g_roots :: "(string \<times> yaml_heap \<times> (string \<times> yaml_value) list) list"
  g_references :: "compose_reference list"
  g_problems :: "string list"

definition add_problems :: "string list \<Rightarrow> graph_state \<Rightarrow> graph_state" where
  "add_problems ps st = st\<lparr>g_problems := g_problems st @ ps\<rparr>"

text \<open>One path of a file: the body of the inner loop.\<close>

definition follow_path ::
  "graph_readers \<Rightarrow> string \<Rightarrow> string \<times> string \<Rightarrow> graph_state \<Rightarrow> thrown + graph_state"
where
  "follow_path r file fp st =
     (case fp of (field, path) \<Rightarrow>
        if CHR ''$'' \<in> set path then
          Inr (add_problems [file @ '': '' @ field @ '' is an interpolated path ('' @ path
            @ '') - Compose fills it in from .env, the gate cannot know the file''] st)
        else
          (let written = resolve_path r (dirname_of r file) path in
           case realpath_of r written of
             Inl e \<Rightarrow>
               if \<not> isGone e then Inl e
               else Inr (add_problems [file @ '': '' @ field @ '' names '' @ written
                          @ '', which is not there''] st)
           | Inr target \<Rightarrow>
              (let st1 = st\<lparr>g_references := g_references st @
                    [\<lparr>ref_from = file, ref_field = field, ref_written = written,
                      ref_target = target\<rparr>]\<rparr> in
               Inr (if \<not> admits r written \<or> \<not> admits r target then st1
                    else if target \<in> set (g_seen st1) then st1
                    else st1\<lparr>g_seen := g_seen st1 @ [target],
                             g_queue := g_queue st1 @ [target]\<rparr>))))"

fun follow_paths ::
  "graph_readers \<Rightarrow> string \<Rightarrow> (string \<times> string) list \<Rightarrow> graph_state \<Rightarrow> thrown + graph_state"
where
  "follow_paths r file [] st = Inr st"
| "follow_paths r file (fp # fps) st =
     (case follow_path r file fp st of Inl e \<Rightarrow> Inl e | Inr st' \<Rightarrow> follow_paths r file fps st')"

text \<open>One file of the queue: the body of the outer loop.\<close>

definition visit_file :: "graph_readers \<Rightarrow> string \<Rightarrow> graph_state \<Rightarrow> thrown + graph_state" where
  "visit_file r file st0 =
     (let st = st0\<lparr>g_files := g_files st0 @ [file]\<rparr> in
      case read_file r file of
        Inl e \<Rightarrow> Inl e
      | Inr None \<Rightarrow> Inr (add_problems [file @ '': not a file''] st)
      | Inr (Some t) \<Rightarrow>
          (case rootOf (parse_yaml r) file t of
             Inl e \<Rightarrow> Inl e
           | Inr (None, ps) \<Rightarrow> Inr (add_problems ps st)
           | Inr (Some (h, kvs), ps) \<Rightarrow>
               (case namedPaths h kvs of (paths, problems) \<Rightarrow>
                  follow_paths r file paths
                    (add_problems (ps @ map (\<lambda>p. file @ '': '' @ p) problems)
                      (st\<lparr>g_roots := g_roots st @ [(file, h, kvs)]\<rparr>)))))"

partial_function (option) graph_walk ::
  "graph_readers \<Rightarrow> graph_state \<Rightarrow> (thrown + graph_state) option"
where
  "graph_walk r st =
     (case g_queue st of
        [] \<Rightarrow> Some (Inr st)
      | file # q \<Rightarrow>
          (case visit_file r file (st\<lparr>g_queue := q\<rparr>) of
             Inl e \<Rightarrow> Some (Inl e)
           | Inr st' \<Rightarrow> graph_walk r st'))"

text \<open>A caller that hands no \<open>admits\<close> is refused before anything is opened.\<close>

definition composeGraph ::
  "string \<Rightarrow> graph_readers \<Rightarrow> bool \<Rightarrow> (thrown + graph_state) option"
where
  "composeGraph entry r admits_given =
     (if \<not> admits_given then
        Some (Inl (Error_Thrown None
          ''composeGraph: admits is required - the files the walk may open'' None))
      else
        (let queue = (if admits r entry then [entry] else []) in
         graph_walk r \<lparr>g_queue = queue, g_seen = queue, g_files = [], g_roots = [],
                       g_references = [], g_problems = []\<rparr>))"

declare graph_walk.simps [code]

section \<open>What the walk reads\<close>

text \<open>
  \<open>file_names r f field written g\<close>: the file \<open>f\<close> parses to a mapping whose \<open>field\<close> names a path
  that is written out (no interpolation) and resolves to the file \<open>g\<close>.  \<open>pulls_in\<close> are the
  edges the walk follows: both the path as written and its canonical form are admitted.
\<close>

definition file_names :: "graph_readers \<Rightarrow> string \<Rightarrow> string \<Rightarrow> string \<Rightarrow> string \<Rightarrow> bool" where
  "file_names r f field written g \<longleftrightarrow>
     (\<exists>t h kvs ps path. read_file r f = Inr (Some t)
        \<and> rootOf (parse_yaml r) f t = Inr (Some (h, kvs), ps)
        \<and> (field, path) \<in> set (fst (namedPaths h kvs))
        \<and> CHR ''$'' \<notin> set path
        \<and> written = resolve_path r (dirname_of r f) path
        \<and> realpath_of r written = Inr g)"

definition pulls_in :: "graph_readers \<Rightarrow> (string \<times> string) set" where
  "pulls_in r = {(f, g). \<exists>field written. file_names r f field written g \<and> admits r written \<and> admits r g}"

text \<open>The reference one path of a file resolves to, if any.\<close>

definition path_reference :: "graph_readers \<Rightarrow> string \<Rightarrow> string \<times> string \<Rightarrow> compose_reference option" where
  "path_reference r file fp =
     (if CHR ''$'' \<in> set (snd fp) then None
      else (case realpath_of r (resolve_path r (dirname_of r file) (snd fp)) of
              Inl _ \<Rightarrow> None
            | Inr g \<Rightarrow> Some \<lparr>ref_from = file, ref_field = fst fp,
                         ref_written = resolve_path r (dirname_of r file) (snd fp),
                         ref_target = g\<rparr>))"

definition admitted_ref :: "graph_readers \<Rightarrow> compose_reference \<Rightarrow> bool" where
  "admitted_ref r ref \<longleftrightarrow> admits r (ref_written ref) \<and> admits r (ref_target ref)"

definition admitted_targets :: "graph_readers \<Rightarrow> string \<Rightarrow> (string \<times> string) set \<Rightarrow> string set" where
  "admitted_targets r file F =
     {g. \<exists>ref. (\<exists>fp \<in> F. path_reference r file fp = Some ref) \<and> admitted_ref r ref \<and> g = ref_target ref}"

lemma admitted_targets_empty [simp]: "admitted_targets r file {} = {}"
  by (simp add: admitted_targets_def)

lemma admitted_targets_insert:
  "admitted_targets r file (insert fp F) = admitted_targets r file {fp} \<union> admitted_targets r file F"
  unfolding admitted_targets_def by blast

lemma add_problems_simps [simp]:
  "g_queue (add_problems ps st) = g_queue st" "g_seen (add_problems ps st) = g_seen st"
  "g_files (add_problems ps st) = g_files st" "g_references (add_problems ps st) = g_references st"
  by (simp_all add: add_problems_def)

lemma follow_path_step:
  assumes "follow_path r file fp st = Inr st'"
  shows "g_files st' = g_files st"
    and "g_references st' = g_references st @ (case path_reference r file fp of None \<Rightarrow> [] | Some ref \<Rightarrow> [ref])"
    and "\<exists>new. g_queue st' = g_queue st @ new \<and> g_seen st' = g_seen st @ new
           \<and> distinct new \<and> set new \<inter> set (g_seen st) = {}
           \<and> set new = admitted_targets r file {fp} - set (g_seen st)"
  using assms
  by (auto simp: follow_path_def Let_def path_reference_def admitted_ref_def admitted_targets_def
           split: prod.splits if_splits sum.splits)

lemma follow_paths_steps:
  assumes "follow_paths r file fps st = Inr st'"
  shows "g_files st' = g_files st
    \<and> set (g_references st') = set (g_references st) \<union> {ref. \<exists>fp \<in> set fps. path_reference r file fp = Some ref}
    \<and> (\<exists>new. g_queue st' = g_queue st @ new \<and> g_seen st' = g_seen st @ new
         \<and> distinct new \<and> set new \<inter> set (g_seen st) = {}
         \<and> set new = admitted_targets r file (set fps) - set (g_seen st))"
  using assms
proof (induction fps arbitrary: st)
  case Nil
  then show ?case by simp
next
  case (Cons fp fps)
  from Cons.prems obtain st1 where s1: "follow_path r file fp st = Inr st1"
    and s2: "follow_paths r file fps st1 = Inr st'"
    by (auto split: sum.splits)
  obtain n1 where n1: "g_queue st1 = g_queue st @ n1" "g_seen st1 = g_seen st @ n1" "distinct n1"
    "set n1 \<inter> set (g_seen st) = {}"
    "set n1 = admitted_targets r file {fp} - set (g_seen st)"
    using follow_path_step(3) [OF s1] by blast
  obtain n2 where n2: "g_queue st' = g_queue st1 @ n2" "g_seen st' = g_seen st1 @ n2" "distinct n2"
    "set n2 \<inter> set (g_seen st1) = {}"
    "set n2 = admitted_targets r file (set fps) - set (g_seen st1)"
    using Cons.IH [OF s2] by blast
  have "\<exists>new. g_queue st' = g_queue st @ new \<and> g_seen st' = g_seen st @ new
      \<and> distinct new \<and> set new \<inter> set (g_seen st) = {}
      \<and> set new = admitted_targets r file (set (fp # fps)) - set (g_seen st)"
  proof (intro exI [of _ "n1 @ n2"] conjI)
    show "set (n1 @ n2) = admitted_targets r file (set (fp # fps)) - set (g_seen st)"
      using n1(2,5) n2(5) by (auto simp: admitted_targets_insert [where F = "set fps"])
  qed (use n1 n2 in auto)
  moreover have "set (g_references st') =
      set (g_references st) \<union> {ref. \<exists>fp' \<in> set (fp # fps). path_reference r file fp' = Some ref}"
    using follow_path_step(2) [OF s1] Cons.IH [OF s2] by (auto split: option.splits)
  ultimately show ?case
    using follow_path_step(1) [OF s1] Cons.IH [OF s2] by simp
qed

text \<open>The references of a file, as the walk and as \<open>file_names\<close> see them.\<close>

lemma path_reference_Some:
  "path_reference r f fp = Some ref \<longleftrightarrow>
     CHR ''$'' \<notin> set (snd fp) \<and> ref_from ref = f \<and> ref_field ref = fst fp
     \<and> ref_written ref = resolve_path r (dirname_of r f) (snd fp)
     \<and> realpath_of r (ref_written ref) = Inr (ref_target ref)"
  by (cases ref) (auto simp: path_reference_def split: sum.splits)

lemma file_names_reference:
  assumes "read_file r f = Inr (Some t)"
    and "rootOf (parse_yaml r) f t = Inr (Some (h, kvs), ps)"
  shows "(\<exists>fp \<in> set (fst (namedPaths h kvs)). path_reference r f fp = Some ref) \<longleftrightarrow>
     ref_from ref = f \<and> file_names r f (ref_field ref) (ref_written ref) (ref_target ref)"
  using assms by (auto simp: file_names_def path_reference_Some) (metis snd_conv fst_conv)+

lemma pulls_in_reference:
  "(f, g) \<in> pulls_in r \<longleftrightarrow>
     (\<exists>ref. ref_from ref = f \<and> file_names r f (ref_field ref) (ref_written ref) (ref_target ref)
        \<and> admitted_ref r ref \<and> g = ref_target ref)" (is "_ \<longleftrightarrow> ?R")
proof
  assume "(f, g) \<in> pulls_in r"
  then obtain field written where "file_names r f field written g" "admits r written" "admits r g"
    by (auto simp: pulls_in_def)
  then show ?R
    by (intro exI [of _ "\<lparr>ref_from = f, ref_field = field, ref_written = written, ref_target = g\<rparr>"])
       (simp add: admitted_ref_def)
qed (auto simp: pulls_in_def admitted_ref_def)

lemma visit_file_step:
  assumes "visit_file r file st = Inr st'"
  shows "g_files st' = g_files st @ [file]
    \<and> set (g_references st') = set (g_references st)
        \<union> {ref. ref_from ref = file \<and> file_names r file (ref_field ref) (ref_written ref) (ref_target ref)}
    \<and> (\<exists>new. g_queue st' = g_queue st @ new \<and> g_seen st' = g_seen st @ new
         \<and> distinct new \<and> set new \<inter> set (g_seen st) = {}
         \<and> set new = {g. (file, g) \<in> pulls_in r} - set (g_seen st))"
proof -
  consider (unread) "g_files st' = g_files st @ [file]" "g_references st' = g_references st"
      "g_queue st' = g_queue st" "g_seen st' = g_seen st" "\<And>a b c. \<not> file_names r file a b c"
    | (parsed) t h kvs ps st1 where "read_file r file = Inr (Some t)"
        "rootOf (parse_yaml r) file t = Inr (Some (h, kvs), ps)"
        "follow_paths r file (fst (namedPaths h kvs)) st1 = Inr st'"
        "g_files st1 = g_files st @ [file]" "g_references st1 = g_references st"
        "g_queue st1 = g_queue st" "g_seen st1 = g_seen st"
    using assms by (fastforce simp: visit_file_def Let_def file_names_def
        split: sum.splits option.splits prod.splits)
  then show ?thesis
  proof cases
    case unread
    then show ?thesis by (auto simp: pulls_in_def)
  next
    case parsed
    let ?fps = "set (fst (namedPaths h kvs))"
    note ref_iff = file_names_reference [OF parsed(1,2)]
    have "admitted_targets r file ?fps = {g. (file, g) \<in> pulls_in r}"
      unfolding pulls_in_reference admitted_targets_def using ref_iff by blast
    with follow_paths_steps [OF parsed(3)] parsed(4-7) ref_iff show ?thesis by simp
  qed
qed

section \<open>The walk returns, and reads the admitted closure\<close>

text \<open>The invariant of the outer loop, for a walk that starts with the files \<open>start\<close>.\<close>

definition walk_inv :: "graph_readers \<Rightarrow> string list \<Rightarrow> graph_state \<Rightarrow> bool" where
  "walk_inv r start st \<longleftrightarrow>
     distinct (g_files st @ g_queue st)
   \<and> set (g_seen st) = set (g_files st) \<union> set (g_queue st)
   \<and> set start \<subseteq> set (g_seen st)
   \<and> set (g_seen st) \<subseteq> {f. admits r f} \<inter> (pulls_in r)\<^sup>* `` set start
   \<and> pulls_in r `` set (g_files st) \<subseteq> set (g_seen st)
   \<and> set (g_references st) =
       {ref. ref_from ref \<in> set (g_files st)
         \<and> file_names r (ref_from ref) (ref_field ref) (ref_written ref) (ref_target ref)}"

lemma visit_file_inv:
  assumes inv: "walk_inv r start st" and queue: "g_queue st = file # q"
    and visit: "visit_file r file (st\<lparr>g_queue := q\<rparr>) = Inr st'"
  shows "walk_inv r start st' \<and> g_files st' = g_files st @ [file]"
proof -
  obtain new where files: "g_files st' = g_files st @ [file]"
    and refs: "set (g_references st') = set (g_references st)
        \<union> {ref. ref_from ref = file \<and> file_names r file (ref_field ref) (ref_written ref) (ref_target ref)}"
    and new: "g_queue st' = q @ new" "g_seen st' = g_seen st @ new" "distinct new"
      "set new \<inter> set (g_seen st) = {}" "set new = {g. (file, g) \<in> pulls_in r} - set (g_seen st)"
    using visit_file_step [OF visit] by auto
  have reached: "file \<in> (pulls_in r)\<^sup>* `` set start"
    using inv queue by (auto simp: walk_inv_def)
  have "set new \<subseteq> {f. admits r f} \<inter> (pulls_in r)\<^sup>* `` set start"
    using reached new(5) by (auto simp: pulls_in_def intro: rtrancl_into_rtrancl)
  moreover have "distinct (g_files st' @ g_queue st')"
    using inv queue files new by (auto simp: walk_inv_def)
  moreover have "pulls_in r `` set (g_files st') \<subseteq> set (g_seen st')"
    using inv files new by (auto simp: walk_inv_def)
  ultimately have "walk_inv r start st'"
    using inv queue files new(1,2) refs unfolding walk_inv_def by auto
  with files show ?thesis by blast
qed

text \<open>What can end the walk with a throw: the read of an admitted file, the parser on its text,
  or a realpath that fails for another reason than a path that is gone.\<close>

definition walk_failure :: "graph_readers \<Rightarrow> thrown \<Rightarrow> bool" where
  "walk_failure r e \<longleftrightarrow>
     (\<exists>f. admits r f \<and>
        (read_file r f = Inl e \<or> (\<exists>t. read_file r f = Inr (Some t) \<and> readYaml (parse_yaml r) t = Inl e)))
   \<or> (\<exists>p. realpath_of r p = Inl e \<and> \<not> isGone e)"

lemma follow_path_failure: "follow_path r file fp st = Inl e \<Longrightarrow> walk_failure r e"
  by (auto simp: follow_path_def Let_def walk_failure_def split: prod.splits if_splits sum.splits)

lemma follow_paths_failure: "follow_paths r file fps st = Inl e \<Longrightarrow> walk_failure r e"
  by (induction fps arbitrary: st) (auto split: sum.splits intro: follow_path_failure)

lemma rootOf_throws: "rootOf parse file t = Inl e \<Longrightarrow> readYaml parse t = Inl e"
  by (auto simp: rootOf_def Let_def split: sum.splits yaml_reading.splits option.splits if_splits)

lemma visit_file_failure:
  assumes "admits r file" and "visit_file r file st = Inl e"
  shows "walk_failure r e"
  using assms
  by (auto simp: visit_file_def Let_def split: sum.splits option.splits prod.splits
           intro: follow_paths_failure)
     (auto simp: walk_failure_def dest: rootOf_throws)

lemma graph_walk_returns:
  assumes "finite {f. admits r f}" and "walk_inv r start st"
  shows "\<exists>res. graph_walk r st = Some res
    \<and> (\<forall>e. res = Inl e \<longrightarrow> walk_failure r e)
    \<and> (\<forall>g. res = Inr g \<longrightarrow> walk_inv r start g \<and> g_queue g = [])"
  using assms(2)
proof (induction "card ({f. admits r f} - set (g_files st))" arbitrary: st rule: less_induct)
  case less
  show ?case
  proof (cases "g_queue st")
    case Nil
    then show ?thesis
      using less.prems by (subst graph_walk.simps) simp
  next
    case (Cons f q)
    have adm: "admits r f" "f \<notin> set (g_files st)"
      using less.prems Cons by (auto simp: walk_inv_def)
    show ?thesis
    proof (cases "visit_file r f (st\<lparr>g_queue := q\<rparr>)")
      case (Inl e)
      then show ?thesis
        using Cons visit_file_failure [OF adm(1) Inl] by (subst graph_walk.simps) simp
    next
      case (Inr st')
      have step: "walk_inv r start st'" "g_files st' = g_files st @ [f]"
        using visit_file_inv [OF less.prems Cons Inr] by blast+
      have "{f. admits r f} - set (g_files st') \<subset> {f. admits r f} - set (g_files st)"
        using adm step(2) by auto
      then have "card ({f. admits r f} - set (g_files st')) < card ({f. admits r f} - set (g_files st))"
        using assms(1) by (intro psubset_card_mono) auto
      with less.hyps [OF _ step(1)] Cons Inr show ?thesis
        by (subst graph_walk.simps) simp
    qed
  qed
qed

lemma initial_walk_inv:
  "walk_inv r (if admits r entry then [entry] else [])
     (let queue = (if admits r entry then [entry] else []) in
       \<lparr>g_queue = queue, g_seen = queue, g_files = [], g_roots = [], g_references = [],
        g_problems = []\<rparr>)"
  by (auto simp: walk_inv_def Let_def)

lemma composeGraph_returns:
  assumes "finite {f. admits r f}"
  shows "\<exists>res. composeGraph entry r True = Some res
    \<and> (\<forall>e. res = Inl e \<longrightarrow> walk_failure r e)
    \<and> (\<forall>g. res = Inr g \<longrightarrow> walk_inv r (if admits r entry then [entry] else []) g \<and> g_queue g = [])"
  using graph_walk_returns [OF assms initial_walk_inv, of entry]
  by (simp add: composeGraph_def Let_def)

lemma compose_walk_closure:
  assumes "finite {f. admits r f}"
  shows "\<exists>res. composeGraph entry r True = Some res
    \<and> (\<forall>g. res = Inr g \<longrightarrow>
        distinct (g_files g)
      \<and> set (g_files g) = {f. admits r entry \<and> (entry, f) \<in> (pulls_in r)\<^sup>*}
      \<and> (\<forall>f \<in> set (g_files g). admits r f)
      \<and> set (g_references g) =
          {ref. ref_from ref \<in> set (g_files g)
            \<and> file_names r (ref_from ref) (ref_field ref) (ref_written ref) (ref_target ref)})"
proof -
  obtain res where res: "composeGraph entry r True = Some res"
    "\<And>g. res = Inr g \<Longrightarrow> walk_inv r (if admits r entry then [entry] else []) g \<and> g_queue g = []"
    using composeGraph_returns [OF assms] by blast
  have each: "distinct (g_files g)
      \<and> set (g_files g) = {f. admits r entry \<and> (entry, f) \<in> (pulls_in r)\<^sup>*}
      \<and> (\<forall>f \<in> set (g_files g). admits r f)
      \<and> set (g_references g) =
          {ref. ref_from ref \<in> set (g_files g)
            \<and> file_names r (ref_from ref) (ref_field ref) (ref_written ref) (ref_target ref)}"
    if "res = Inr g" for g
  proof -
    let ?S = "if admits r entry then {entry} else {}"
    have inv: "walk_inv r (if admits r entry then [entry] else []) g" "g_queue g = []"
      using res(2) [OF that] by blast+
    have closed: "pulls_in r `` set (g_files g) \<subseteq> set (g_files g)" "?S \<subseteq> set (g_files g)"
      "set (g_files g) \<subseteq> (pulls_in r)\<^sup>* `` ?S"
      using inv by (auto simp: walk_inv_def split: if_splits)
    have "(pulls_in r)\<^sup>* `` ?S \<subseteq> set (g_files g)"
      using closed(1,2) Image_closed_trancl [OF closed(1)] by blast
    with closed(3) have "set (g_files g) = (pulls_in r)\<^sup>* `` ?S" by blast
    then show ?thesis
      using inv by (auto simp: walk_inv_def split: if_splits)
  qed
  show ?thesis
    by (rule exI [of _ res], rule conjI [OF res(1)], intro allI impI, rule each)
qed

lemma compose_walk_closureD:
  assumes fin: "finite {f. admits r f}" and g: "composeGraph entry r True = Some (Inr g)"
  shows "distinct (g_files g)"
    and "set (g_files g) = {f. admits r entry \<and> (entry, f) \<in> (pulls_in r)\<^sup>*}"
    and "\<forall>f \<in> set (g_files g). admits r f"
    and "set (g_references g) =
          {ref. ref_from ref \<in> set (g_files g)
            \<and> file_names r (ref_from ref) (ref_field ref) (ref_written ref) (ref_target ref)}"
proof -
  obtain res where res: "composeGraph entry r True = Some res"
    "\<forall>g. res = Inr g \<longrightarrow>
        distinct (g_files g)
      \<and> set (g_files g) = {f. admits r entry \<and> (entry, f) \<in> (pulls_in r)\<^sup>*}
      \<and> (\<forall>f \<in> set (g_files g). admits r f)
      \<and> set (g_references g) =
          {ref. ref_from ref \<in> set (g_files g)
            \<and> file_names r (ref_from ref) (ref_field ref) (ref_written ref) (ref_target ref)}"
    using compose_walk_closure [OF fin] by blast
  have "res = Inr g" using res(1) g by simp
  note all = res(2) [rule_format, OF this]
  show "distinct (g_files g)" by (rule conjunct1 [OF all])
  show "set (g_files g) = {f. admits r entry \<and> (entry, f) \<in> (pulls_in r)\<^sup>*}"
    by (rule conjunct1 [OF conjunct2 [OF all]])
  show "\<forall>f \<in> set (g_files g). admits r f"
    by (rule conjunct1 [OF conjunct2 [OF conjunct2 [OF all]]])
  show "set (g_references g) =
          {ref. ref_from ref \<in> set (g_files g)
            \<and> file_names r (ref_from ref) (ref_field ref) (ref_written ref) (ref_target ref)}"
    by (rule conjunct2 [OF conjunct2 [OF conjunct2 [OF all]]])
qed

text \<open>C27: the walk over the Compose files always returns when the files it may open are finitely
  many - cycles of includes and files named twice included - and a walk that did not throw read
  each file once, exactly the files the entry pulls in through admitted paths, and handed back
  exactly the references those files name, the ones outside the admitted files too.\<close>

theorem compose_walk_reads_the_admitted_closure:
  assumes "finite {f. admits r f}"
  shows "\<exists>res. composeGraph entry r True = Some res
    \<and> (\<forall>g. res = Inr g \<longrightarrow>
        distinct (g_files g)
      \<and> set (g_files g) = {f. admits r entry \<and> (entry, f) \<in> (pulls_in r)\<^sup>*}
      \<and> (\<forall>f \<in> set (g_files g). admits r f)
      \<and> set (g_references g) =
          {ref. ref_from ref \<in> set (g_files g)
            \<and> file_names r (ref_from ref) (ref_field ref) (ref_written ref) (ref_target ref)})"
  by (rule compose_walk_closure [OF assms])

text \<open>
  A root file that includes itself, a second file and a \<open>.env\<close> outside the files the walk may
  open; the second file extends a service of the first.
\<close>

definition two_file_readers :: graph_readers where
  "two_file_readers =
     \<lparr>read_file = (\<lambda>f. if f = ''/c/a.yml'' then Inr (Some ''A'')
                      else if f = ''/c/b.yml'' then Inr (Some ''B'')
                      else Inl (Error_Thrown (Some ''EACCES'') ''denied'' None)),
      realpath_of = Inr,
      admits = (\<lambda>f. f = ''/c/a.yml'' \<or> f = ''/c/b.yml''),
      parse_yaml = (\<lambda>t. [\<lparr>doc_errors = [], doc_warnings = [], doc_toJS = (\<lambda>n. Inr
         (if t = ''A''
          then ([YMap [(''include'', YRef 1)],
                 YList [YStr ''b.yml'', YStr ''a.yml'', YStr ''.env'', YStr ''$X'']], YRef 0)
          else ([YMap [(''services'', YRef 1)], YMap [(''web'', YRef 2)],
                 YMap [(''extends'', YRef 3)],
                 YMap [(''service'', YStr ''api''), (''file'', YStr ''a.yml'')]], YRef 0)))\<rparr>]),
      resolve_path = (\<lambda>d p. d @ ''/'' @ p),
      dirname_of = (\<lambda>_. ''/c'')\<rparr>"

theorem compose_walk_reads_the_admitted_closure_witness:
  "finite {f. admits two_file_readers f}
   \<and> (\<exists>res. composeGraph ''/c/a.yml'' two_file_readers True = Some res
    \<and> (\<forall>g. res = Inr g \<longrightarrow>
        distinct (g_files g)
      \<and> set (g_files g) = {f. admits two_file_readers ''/c/a.yml''
           \<and> (''/c/a.yml'', f) \<in> (pulls_in two_file_readers)\<^sup>*}
      \<and> (\<forall>f \<in> set (g_files g). admits two_file_readers f)
      \<and> set (g_references g) =
          {ref. ref_from ref \<in> set (g_files g)
            \<and> file_names two_file_readers (ref_from ref) (ref_field ref) (ref_written ref)
                (ref_target ref)}))"
proof -
  have "{f. admits two_file_readers f} = {''/c/a.yml'', ''/c/b.yml''}"
    by (auto simp: two_file_readers_def)
  then have "finite {f. admits two_file_readers f}" by simp
  with compose_walk_reads_the_admitted_closure [OF this, of "''/c/a.yml''"] show ?thesis by blast
qed

lemma two_files_are_read:
  "(case composeGraph ''/c/a.yml'' two_file_readers True of
      Some (Inr g) \<Rightarrow>
        g_files g = [''/c/a.yml'', ''/c/b.yml'']
      \<and> map ref_target (g_references g) = [''/c/b.yml'', ''/c/a.yml'', ''/c/.env'', ''/c/a.yml'']
      \<and> length (g_problems g) = 1
    | _ \<Rightarrow> False)"
  by code_simp

section \<open>Nothing else is opened\<close>

lemma follow_paths_read_independent:
  "follow_paths (r\<lparr>read_file := rd\<rparr>) file fps st = follow_paths r file fps st"
  by (induction fps arbitrary: st) (auto simp: follow_path_def Let_def split: sum.splits prod.splits)

lemma visit_file_read_independent:
  "rd file = read_file r file \<Longrightarrow> visit_file (r\<lparr>read_file := rd\<rparr>) file st = visit_file r file st"
  by (simp add: visit_file_def follow_paths_read_independent Let_def
           split: sum.splits option.splits prod.splits)

lemma graph_walk_read_independent:
  assumes "finite {f. admits r f}" and "walk_inv r start st"
    and "\<And>f. admits r f \<Longrightarrow> rd f = read_file r f"
  shows "graph_walk (r\<lparr>read_file := rd\<rparr>) st = graph_walk r st"
  using assms(2)
proof (induction "card ({f. admits r f} - set (g_files st))" arbitrary: st rule: less_induct)
  case less
  show ?case
  proof (cases "g_queue st")
    case Nil
    then show ?thesis by (simp add: graph_walk.simps)
  next
    case (Cons f q)
    have adm: "admits r f" "f \<notin> set (g_files st)"
      using less.prems Cons by (auto simp: walk_inv_def)
    note same = visit_file_read_independent [of rd f r, OF assms(3) [OF adm(1)]]
    show ?thesis
    proof (cases "visit_file r f (st\<lparr>g_queue := q\<rparr>)")
      case (Inl e)
      then show ?thesis
        using Cons same by (subst (1 2) graph_walk.simps) simp
    next
      case (Inr st')
      have step: "walk_inv r start st'" "g_files st' = g_files st @ [f]"
        using visit_file_inv [OF less.prems Cons Inr] by blast+
      have "{f. admits r f} - set (g_files st') \<subset> {f. admits r f} - set (g_files st)"
        using adm step(2) by auto
      then have "card ({f. admits r f} - set (g_files st')) < card ({f. admits r f} - set (g_files st))"
        using assms(1) by (intro psubset_card_mono) auto
      with less.hyps [OF _ step(1)] Cons Inr same show ?thesis
        by (subst (1 2) graph_walk.simps) simp
    qed
  qed
qed

text \<open>The outcome of the walk - the files, the roots, the references, every problem, and
  the failure it may end with - does not depend on what any file outside the admitted ones
  holds, or on whether reading it fails: no such file is opened on the way, a \<open>.env\<close> a Compose
  file names included.\<close>

theorem only_admitted_files_are_opened:
  assumes "finite {f. admits r f}"
    and "\<And>f. admits r f \<Longrightarrow> rd f = read_file r f"
  shows "composeGraph entry (r\<lparr>read_file := rd\<rparr>) given = composeGraph entry r given"
  using graph_walk_read_independent [OF assms(1) initial_walk_inv [of r entry] assms(2)]
  by (simp add: composeGraph_def Let_def)

theorem only_admitted_files_are_opened_witness:
  "finite {f. admits two_file_readers f}
   \<and> composeGraph ''/c/a.yml''
       (two_file_readers\<lparr>read_file := (read_file two_file_readers) (''/c/.env'' := Inr (Some ''S''))\<rparr>) True
     = composeGraph ''/c/a.yml'' two_file_readers True"
proof -
  have "{f. admits two_file_readers f} = {''/c/a.yml'', ''/c/b.yml''}"
    by (auto simp: two_file_readers_def)
  then have fin: "finite {f. admits two_file_readers f}" by simp
  show ?thesis
    by (rule conjI [OF fin], rule only_admitted_files_are_opened [OF fin])
       (auto simp: two_file_readers_def)
qed

end
