(* ===== verification/Compose_Service.thy ===== *)
theory Compose_Service
  imports Compose_Graph
begin

text \<open>
  The rules of the Compose stack that look at the services \<open>docker compose config\<close> prints, and
  at nothing else: scripts/compose-rules.mjs, the shape of the configuration and rules 0 to 9,
  13 and 16.  A configuration is a JSON value; a field that is not there reads as missing.
\<close>

section \<open>Reading values\<close>

text \<open>\<open>String(v)\<close>, and \<open>x ?? d\<close> for a field that may be missing or null.\<close>

fun js_text :: "json \<Rightarrow> string" where
  "js_text Null = ''null''"
| "js_text (Bool b) = (if b then ''true'' else ''false'')"
| "js_text (Num n) = show_num n"
| "js_text (Str s) = s"
| "js_text (Arr vs) = join_str '','' (map (\<lambda>v. if v = Null then [] else js_text v) vs)"
| "js_text (Obj _) = ''[object Object]''"

definition nullish :: "json option \<Rightarrow> json option" where
  "nullish x = (case x of Some Null \<Rightarrow> None | _ \<Rightarrow> x)"

definition text_or :: "json option \<Rightarrow> string \<Rightarrow> string" where
  "text_or x d = (case nullish x of None \<Rightarrow> d | Some v \<Rightarrow> js_text v)"

definition text_of :: "json option \<Rightarrow> string" where
  "text_of x = (case x of None \<Rightarrow> ''undefined'' | Some v \<Rightarrow> js_text v)"

text \<open>\<open>a?.b\<close>\<close>

definition dot :: "json option \<Rightarrow> string \<Rightarrow> json option" where
  "dot x k = (case x of None \<Rightarrow> None | Some v \<Rightarrow> jget v k)"

definition items_of :: "json option \<Rightarrow> json list" where
  "items_of x = (case x of Some (Arr vs) \<Rightarrow> vs | _ \<Rightarrow> [])"

type_synonym services = "(string \<times> json) list"

section \<open>The shape of a configuration\<close>

definition is_obj :: "json \<Rightarrow> bool" where
  "is_obj v \<longleftrightarrow> (case v of Obj _ \<Rightarrow> True | _ \<Rightarrow> False)"

definition OBJECT_FIELDS :: "string list" where
  "OBJECT_FIELDS = [''environment'', ''depends_on'', ''healthcheck'', ''build'']"

definition LIST_FIELDS :: "string list" where
  "LIST_FIELDS = [''ports'', ''volumes'']"

text \<open>The first of a list of questions that answers.\<close>

definition first_some :: "'a option list \<Rightarrow> 'a option" where
  "first_some xs = (case filter (\<lambda>x. x \<noteq> None) xs of x # _ \<Rightarrow> x | [] \<Rightarrow> None)"

definition at_index :: "string \<Rightarrow> nat \<Rightarrow> string" where
  "at_index path i = path @ ''['' @ show_nat i @ '']''"

definition shapeIssue :: "json \<Rightarrow> string \<Rightarrow> string option" where
  "shapeIssue service path =
     (if \<not> is_obj service then Some path
      else first_some
        (map (\<lambda>f. case jget service f of
             Some v \<Rightarrow> if is_obj v then None else Some (path @ ''.'' @ f) | None \<Rightarrow> None) OBJECT_FIELDS
         @ (case jget service ''depends_on'' of
              Some (Obj kvs) \<Rightarrow> map (\<lambda>(n, e). if is_obj e then None
                                      else Some (path @ ''.depends_on.'' @ n)) kvs
            | _ \<Rightarrow> [])
         @ concat (map (\<lambda>f. case jget service f of
               None \<Rightarrow> []
             | Some (Arr vs) \<Rightarrow>
                 map (\<lambda>(i, item).
                   if \<not> is_obj item then Some (at_index (path @ ''.'' @ f) i)
                   else (case jget item ''bind'' of
                       Some b \<Rightarrow> if is_obj b then None else Some (at_index (path @ ''.'' @ f) i @ ''.bind'')
                     | None \<Rightarrow> None)) (indexed vs)
             | Some _ \<Rightarrow> [Some (path @ ''.'' @ f)]) LIST_FIELDS)
         @ [case jget service ''profiles'' of
              None \<Rightarrow> None
            | Some (Arr ps) \<Rightarrow>
                if list_all (\<lambda>p. case p of Str _ \<Rightarrow> True | _ \<Rightarrow> False) ps then None
                else Some (path @ ''.profiles'')
            | Some _ \<Rightarrow> Some (path @ ''.profiles'')]))"

definition unexpected :: "string \<Rightarrow> services \<times> string list" where
  "unexpected path = ([], [''unexpected shape of docker compose config: '' @ path])"

definition servicesOf :: "json \<Rightarrow> services \<times> string list" where
  "servicesOf config =
     (case config of
        Obj kvs \<Rightarrow>
          (case nullish (map_of kvs ''services'') of
             None \<Rightarrow> ([], [])
           | Some (Obj listed) \<Rightarrow>
               (case first_some (map (\<lambda>(n, s). shapeIssue s (''services.'' @ n)) listed) of
                  Some issue \<Rightarrow> unexpected issue
                | None \<Rightarrow> (listed, []))
           | Some _ \<Rightarrow> unexpected ''services'')
      | _ \<Rightarrow> unexpected ''(top level)'')"

lemma first_some_None: "first_some xs = None \<longleftrightarrow> (\<forall>x \<in> set xs. x = None)"
proof -
  have "first_some xs = None \<longleftrightarrow> filter (\<lambda>x. x \<noteq> None) xs = []"
    by (cases "filter (\<lambda>x. x \<noteq> None) xs")
       (auto simp: first_some_def dest: filter_eq_ConsD)
  then show ?thesis by (auto simp: filter_empty_conv)
qed

section \<open>Durations and commands\<close>

text \<open>\<open>/^(\d+(?:\.\d+)?)(h|ms|m|s|us|ns)/\<close>: the seconds of the first part, and the rest.\<close>

definition duration_units :: "(string \<times> rat) list" where
  "duration_units =
     [(''h'', 3600), (''ms'', 1 / 1000), (''m'', 60), (''s'', 1), (''us'', 1 / 10 ^ 6), (''ns'', 1 / 10 ^ 9)]"

definition duration_part :: "string \<Rightarrow> (rat \<times> string) option" where
  "duration_part s =
     (let ip = takeWhile is_digit s; r = dropWhile is_digit s;
          fp = (if starts_with ''.'' r then takeWhile is_digit (tl r) else []);
          r2 = (if fp \<noteq> [] then dropWhile is_digit (tl r) else r);
          number = ip @ (if fp \<noteq> [] then CHR ''.'' # fp else []) in
      if ip = [] then None
      else (case List.find (\<lambda>(u, k). starts_with u r2) duration_units of
          None \<Rightarrow> None
        | Some (u, k) \<Rightarrow>
            map_option (\<lambda>n. (n * k, drop (length u) r2)) (unsigned_decimal number)))"

lemma duration_part_shorter: "duration_part s = Some (x, r) \<Longrightarrow> length r < length s"
proof -
  assume a: "duration_part s = Some (x, r)"
  let ?r = "dropWhile is_digit s"
  let ?fp = "if starts_with ''.'' ?r then takeWhile is_digit (tl ?r) else []"
  let ?r2 = "if ?fp \<noteq> [] then dropWhile is_digit (tl ?r) else ?r"
  from a have ne: "takeWhile is_digit s \<noteq> []" and r: "length r \<le> length ?r2"
    by (auto simp: duration_part_def Let_def split: if_splits option.splits)
  have "s = takeWhile is_digit s @ ?r" by simp
  then have "length s = length (takeWhile is_digit s) + length ?r" by (metis length_append)
  with ne have less: "length ?r < length s" by (cases "takeWhile is_digit s") simp_all
  have "length (dropWhile is_digit (tl ?r)) \<le> length (tl ?r)" by (rule length_dropWhile_le)
  then have "length (dropWhile is_digit (tl ?r)) \<le> length ?r" by simp
  then have "length ?r2 \<le> length ?r" by simp
  with less r show ?thesis by linarith
qed

function duration_sum :: "rat \<Rightarrow> string \<Rightarrow> jsnum" where
  "duration_sum sum0 s =
     (if s = [] then Fin sum0
      else (case duration_part s of
          None \<Rightarrow> NaN
        | Some (x, r) \<Rightarrow> duration_sum (sum0 + x) r))"
  by pat_completeness auto

termination
  by (relation "measure (length \<circ> snd)") (auto dest: duration_part_shorter)

declare duration_sum.simps [simp del]

definition durationSec :: "json option \<Rightarrow> jsnum" where
  "durationSec v =
     (case v of
        Some (Num (Fin r)) \<Rightarrow> Fin (r / 10 ^ 9)
      | Some (Num n) \<Rightarrow> n
      | Some (Str s) \<Rightarrow> (let t = trim s in if t = [] then NaN else duration_sum 0 t)
      | _ \<Rightarrow> NaN)"

definition healthcheckCommand :: "json option \<Rightarrow> string" where
  "healthcheckCommand test =
     (case test of
        Some (Str s) \<Rightarrow> s
      | Some (Arr vs) \<Rightarrow> join_str '' '' (map js_text vs)
      | _ \<Rightarrow> [])"

definition runsExactly :: "json option \<Rightarrow> string list \<Rightarrow> bool" where
  "runsExactly test argv =
     (let shell = join_str '' '' argv in
      case test of
        Some (Str s) \<Rightarrow> s = shell
      | Some (Arr (Str w # ws)) \<Rightarrow>
          if w = ''CMD'' then ws = map Str argv
          else w = ''CMD-SHELL'' \<and> ws = [Str shell]
      | _ \<Rightarrow> False)"

definition runsInShell :: "json option \<Rightarrow> string \<Rightarrow> bool" where
  "runsInShell test cmd =
     (case test of
        Some (Str s) \<Rightarrow> s = cmd
      | Some (Arr vs) \<Rightarrow> vs = [Str ''CMD-SHELL'', Str cmd]
      | _ \<Rightarrow> False)"

definition hasHealthcheck :: "json \<Rightarrow> bool" where
  "hasHealthcheck service \<longleftrightarrow>
     (case jget service ''healthcheck'' of
        None \<Rightarrow> False
      | Some check \<Rightarrow>
          jget check ''disable'' \<noteq> Some (Bool True)
        \<and> \<not> (case jget check ''test'' of Some (Arr (v # _)) \<Rightarrow> v = Str ''NONE'' | _ \<Rightarrow> False)
        \<and> healthcheckCommand (jget check ''test'') \<noteq> [])"

definition waitsFor :: "json \<Rightarrow> string \<Rightarrow> string \<Rightarrow> bool" where
  "waitsFor service dependency cond \<longleftrightarrow>
     dot (dot (jget service ''depends_on'') dependency) ''condition'' = Some (Str cond)"

section \<open>Rules of the services\<close>

definition REQUIRED_SERVICES :: "string list" where
  "REQUIRED_SERVICES = [''postgres'', ''redis'', ''migrate'', ''api'', ''worker'', ''web'']"

definition APP_SERVICES :: "string list" where
  "APP_SERVICES = [''api'', ''worker'', ''web'']"

definition POSTGRES_CLIENTS :: "string list" where
  "POSTGRES_CLIENTS = [''migrate'', ''api'', ''worker'']"

definition PUBLISHED :: "string list" where
  "PUBLISHED = [''web'']"

definition UNPUBLISHED :: "string list" where
  "UNPUBLISHED = [''api'', ''worker'', ''migrate'']"

definition LOOPBACK :: "string list" where
  "LOOPBACK = [''127.0.0.1'', ''::1'']"

definition MIN_GRACE_SEC :: "(string \<times> rat) list" where
  "MIN_GRACE_SEC = [(''worker'', 30), (''api'', 15)]"

definition WORKER_HEALTHCHECK :: "string list" where
  "WORKER_HEALTHCHECK = [''node'', ''--import'', ''tsx'', ''src/cli/healthcheck.ts'']"

definition REDIS_HEALTHCHECK :: string where
  "REDIS_HEALTHCHECK = ''redis-cli ping | grep -qx PONG''"

definition MIN_START_PERIOD_SEC :: "(string \<times> rat) list" where
  "MIN_START_PERIOD_SEC = [(''postgres'', 60), (''redis'', 10)]"

definition MEDIA_VOLUME :: string where
  "MEDIA_VOLUME = ''media''"

definition ONE_SHOT :: "string list" where
  "ONE_SHOT = [''migrate'']"

definition UNDER_INIT :: "string list" where
  "UNDER_INIT = [''migrate'']"

definition RESTART_POLICY :: string where
  "RESTART_POLICY = ''unless-stopped''"

text \<open>\<open>for (const name of names) { const service = services[name]; if (service === undefined)
  continue; ... }\<close>\<close>

definition for_services :: "services \<Rightarrow> string list \<Rightarrow> (string \<Rightarrow> json \<Rightarrow> string list) \<Rightarrow> string list" where
  "for_services ss names f =
     concat (map (\<lambda>n. case map_of ss n of None \<Rightarrow> [] | Some s \<Rightarrow> f n s) names)"

definition problem_if :: "bool \<Rightarrow> string \<Rightarrow> string list" where
  "problem_if b m = (if b then [m] else [])"

lemma problem_if_Nil [simp]: "problem_if b m = [] \<longleftrightarrow> \<not> b"
  by (simp add: problem_if_def)

lemma for_services_Nil:
  "for_services ss names f = [] \<longleftrightarrow>
     (\<forall>n \<in> set names. \<forall>s. map_of ss n = Some s \<longrightarrow> f n s = [])"
  by (auto simp: for_services_def split: option.splits)

definition rule0Services :: "services \<Rightarrow> string list" where
  "rule0Services ss =
     map (\<lambda>n. n @ '': service is missing'') (filter (\<lambda>n. map_of ss n = None) REQUIRED_SERVICES)"

definition ports_of :: "json \<Rightarrow> json list" where
  "ports_of s = items_of (jget s ''ports'')"

definition rule1Ports :: "services \<Rightarrow> string list" where
  "rule1Ports ss =
     concat (map (\<lambda>(n, s).
       if n \<in> set PUBLISHED then []
       else if n \<in> set UNPUBLISHED \<and> ports_of s \<noteq> [] then
         [n @ '': publishes ports, it must stay inside the network'']
       else concat (map (\<lambda>p.
         problem_if (text_or (jget p ''host_ip'') [] \<notin> set LOOPBACK)
           (n @ '': publishes '' @ text_of (case nullish (jget p ''published'') of
                Some v \<Rightarrow> Some v | None \<Rightarrow> jget p ''target'')
            @ '' beyond loopback, only web may'')) (ports_of s))) ss)
     @ for_services ss PUBLISHED (\<lambda>n s. problem_if (ports_of s = []) (n @ '': publishes no port''))"

definition rule2Production :: "services \<Rightarrow> string list" where
  "rule2Production ss =
     for_services ss APP_SERVICES
       (\<lambda>n s. problem_if (dot (jget s ''environment'') ''NODE_ENV'' \<noteq> Some (Str ''production''))
          (n @ '': environment.NODE_ENV is not '' @ [CHR 34] @ ''production'' @ [CHR 34]))"

definition for_least ::
  "services \<Rightarrow> (string \<times> rat) list \<Rightarrow> (string \<Rightarrow> json \<Rightarrow> rat \<Rightarrow> string list) \<Rightarrow> string list"
where
  "for_least ss least f =
     concat (map (\<lambda>(n, k). case map_of ss n of None \<Rightarrow> [] | Some s \<Rightarrow> f n s k) least)"

lemma for_least_Nil:
  "for_least ss least f = [] \<longleftrightarrow>
     (\<forall>(n, k) \<in> set least. \<forall>s. map_of ss n = Some s \<longrightarrow> f n s k = [])"
  by (auto simp: for_least_def split: option.splits)

definition rule3Grace :: "services \<Rightarrow> string list" where
  "rule3Grace ss =
     for_least ss MIN_GRACE_SEC
       (\<lambda>n s least. problem_if (\<not> num_leq (Fin least) (durationSec (jget s ''stop_grace_period'')))
          (n @ '': stop_grace_period '' @ text_or (jget s ''stop_grace_period'') ''(default 10s)''
           @ '' is below '' @ show_num (Fin least) @ ''s''))"

definition rule4Healthchecks :: "services \<Rightarrow> string list" where
  "rule4Healthchecks ss =
     for_services ss [''api'', ''worker'', ''postgres'']
       (\<lambda>n s. if \<not> hasHealthcheck s then [n @ '': has no healthcheck'']
          else problem_if (n = ''worker''
               \<and> \<not> runsExactly (dot (jget s ''healthcheck'') ''test'') WORKER_HEALTHCHECK)
            ''worker: healthcheck does not run src/cli/healthcheck.ts - any other command says nothing about its heartbeat'')
     @ for_services ss [''redis'']
       (\<lambda>n s. problem_if (\<not> hasHealthcheck s
                \<or> \<not> runsInShell (dot (jget s ''healthcheck'') ''test'') REDIS_HEALTHCHECK)
          (''redis: healthcheck is not '' @ REDIS_HEALTHCHECK))
     @ for_least ss MIN_START_PERIOD_SEC
       (\<lambda>n s least. let period = dot (jget s ''healthcheck'') ''start_period'' in
          problem_if (\<not> num_leq (Fin least) (durationSec period))
            (n @ '': healthcheck start_period '' @ text_or period ''(none)'' @ '' is below ''
             @ show_num (Fin least) @ ''s - a slow first start would count as unhealthy''))"

definition rule5StartOrder :: "services \<Rightarrow> string list" where
  "rule5StartOrder ss =
     for_services ss POSTGRES_CLIENTS
       (\<lambda>n s. problem_if (\<not> waitsFor s ''postgres'' ''service_healthy'')
          (n @ '': does not wait for a healthy postgres (condition service_healthy)''))
     @ for_services ss APP_SERVICES
       (\<lambda>n s.
          problem_if (\<not> waitsFor s ''migrate'' ''service_completed_successfully'')
            (n @ '': does not wait for migrate (condition service_completed_successfully)'')
          @ (if n = ''web'' then
               problem_if (\<not> waitsFor s ''api'' ''service_healthy'')
                 ''web: does not wait for a healthy api (condition service_healthy)''
             else problem_if (\<not> waitsFor s ''redis'' ''service_healthy'')
                 (n @ '': does not wait for a healthy redis (condition service_healthy)'')))"

definition rule6Media :: "services \<Rightarrow> string list" where
  "rule6Media ss =
     for_services ss [''api'', ''worker'']
       (\<lambda>n s. let mediaDir = dot (jget s ''environment'') ''MEDIA_DIR'';
               mounted = (case mediaDir of
                  Some (Str d) \<Rightarrow>
                    list_ex (\<lambda>v. jget v ''type'' = Some (Str ''volume'')
                       \<and> jget v ''source'' = Some (Str MEDIA_VOLUME) \<and> jget v ''target'' = Some (Str d))
                      (items_of (jget s ''volumes''))
                | _ \<Rightarrow> False) in
          problem_if (\<not> mounted)
            (n @ '': volume '' @ MEDIA_VOLUME @ '' is not mounted at its MEDIA_DIR (''
             @ text_or mediaDir ''unset'' @ '')''))"

text \<open>\<open>new URL(s)\<close> is of the platform: \<open>url s\<close> is its host name and port, None when it throws.\<close>

definition rule7ApiPort :: "(string \<Rightarrow> (string \<times> string) option) \<Rightarrow> services \<Rightarrow> string list" where
  "rule7ApiPort url ss =
     (case map_of ss ''api'' of
        None \<Rightarrow> []
      | Some api \<Rightarrow>
          (case dot (jget api ''environment'') ''API_PORT'' of
             Some (Str port) \<Rightarrow>
               if port = [] \<or> \<not> list_all is_digit port then
                 [''api: environment.API_PORT is not pinned - a value from .env would move the server'']
               else
                 problem_if (\<not> contains (healthcheckCommand (dot (jget api ''healthcheck'') ''test''))
                     (CHR '':'' # port @ ''/''))
                   (''api: healthcheck does not ask port '' @ port)
                 @ for_services ss [''web'']
                   (\<lambda>n web. let internal = dot (jget web ''environment'') ''API_INTERNAL_URL'' in
                      problem_if (url (text_of internal) \<noteq> Some (''api'', port))
                        (''web: API_INTERNAL_URL '' @ text_or internal ''(unset)'' @ '' is not http://api:'' @ port))
           | _ \<Rightarrow> [''api: environment.API_PORT is not pinned - a value from .env would move the server'']))"

section \<open>Rule 8: Postgres reports ready over TCP\<close>

definition TCP_HOSTS :: "string list" where
  "TCP_HOSTS = [''127.0.0.1'', ''localhost'', ''::1'']"

definition POSTGRES_TARGET :: string where
  "POSTGRES_TARGET = ''5432''"

definition letter :: "char \<Rightarrow> bool" where
  "letter c \<longleftrightarrow> (let n = (of_char c :: nat) in (65 \<le> n \<and> n \<le> 90) \<or> (97 \<le> n \<and> n \<le> 122))"

definition plus_of :: "(char \<Rightarrow> bool) \<Rightarrow> string \<Rightarrow> bool" where
  "plus_of p s \<longleftrightarrow> s \<noteq> [] \<and> list_all p s"

definition user_char :: "char \<Rightarrow> bool" where
  "user_char c \<longleftrightarrow> letter c \<or> is_digit c \<or> c \<in> set ''_.-''"

definition dbname_char :: "char \<Rightarrow> bool" where
  "dbname_char c \<longleftrightarrow> letter c \<or> is_digit c \<or> c \<in> set ''_-''"

definition PG_ISREADY_OPTIONS :: "(string \<times> (string \<Rightarrow> bool) option) list" where
  "PG_ISREADY_OPTIONS =
     [(''-h'', Some (\<lambda>v. v \<in> set TCP_HOSTS)), (''--host'', Some (\<lambda>v. v \<in> set TCP_HOSTS)),
      (''-p'', Some (\<lambda>v. v = POSTGRES_TARGET)), (''--port'', Some (\<lambda>v. v = POSTGRES_TARGET)),
      (''-U'', Some (plus_of user_char)), (''--username'', Some (plus_of user_char)),
      (''-d'', Some (plus_of dbname_char)), (''--dbname'', Some (plus_of dbname_char)),
      (''-t'', Some (plus_of is_digit)), (''--timeout'', Some (plus_of is_digit)),
      (''-q'', None), (''--quiet'', None)]"

definition plain_char :: "char \<Rightarrow> bool" where
  "plain_char c \<longleftrightarrow> letter c \<or> is_digit c \<or> c \<in> set ''_.:=/@ -''"

definition shell_words :: "string \<Rightarrow> string list option" where
  "shell_words shell =
     (if list_all plain_char shell then Some (filter (\<lambda>w. w \<noteq> []) (split_on (CHR '' '') shell)) else None)"

definition str_of :: "json \<Rightarrow> string option" where
  "str_of v = (case v of Str s \<Rightarrow> Some s | _ \<Rightarrow> None)"

definition healthcheckWords :: "json option \<Rightarrow> string list option" where
  "healthcheckWords test =
     (case test of
        Some (Str s) \<Rightarrow> shell_words s
      | Some (Arr (v # vs)) \<Rightarrow>
          if v = Str ''CMD'' then
            (if list_all (\<lambda>w. str_of w \<noteq> None) vs then Some (map (\<lambda>w. the (str_of w)) vs) else None)
          else (case vs of
              [Str s] \<Rightarrow> if v = Str ''CMD-SHELL'' then shell_words s else None
            | _ \<Rightarrow> None)
      | _ \<Rightarrow> None)"

text \<open>A word as an option and the value attached to it: \<open>--host=v\<close>, \<open>-hv\<close>, or the word alone.\<close>

definition one_line :: "string \<Rightarrow> bool" where
  "one_line s \<longleftrightarrow> CHR 10 \<notin> set s \<and> CHR 13 \<notin> set s"

definition lower_only :: "char \<Rightarrow> bool" where
  "lower_only c \<longleftrightarrow> 97 \<le> (of_char c :: nat) \<and> (of_char c :: nat) \<le> 122"

definition split_option :: "string \<Rightarrow> string \<times> string option" where
  "split_option w =
     (let nm = takeWhile lower_only (drop 2 w); r = dropWhile lower_only (drop 2 w) in
      if starts_with ''--'' w \<and> nm \<noteq> [] \<and> r \<noteq> [] \<and> hd r = CHR ''='' \<and> one_line (tl r)
      then (''--'' @ nm, Some (tl r))
      else (case w of
          d # c # v \<Rightarrow>
            if d = CHR ''-'' \<and> letter c \<and> v \<noteq> [] \<and> one_line v then ([d, c], Some v) else (w, None)
        | _ \<Rightarrow> (w, None)))"

definition host_option :: "string \<Rightarrow> bool" where
  "host_option opt \<longleftrightarrow> opt = ''-h'' \<or> opt = ''--host''"

fun ready_options :: "string list \<Rightarrow> nat \<Rightarrow> nat option" where
  "ready_options [] hosts = Some hosts"
| "ready_options (w # ws) hosts =
     (case split_option w of (opt, attached) \<Rightarrow>
       (case map_of PG_ISREADY_OPTIONS opt of
          None \<Rightarrow> None
        | Some None \<Rightarrow> if attached \<noteq> None then None else ready_options ws hosts
        | Some (Some form) \<Rightarrow>
            (case attached of
               Some v \<Rightarrow> if form v then ready_options ws (if host_option opt then Suc hosts else hosts) else None
             | None \<Rightarrow>
                 (case ws of
                    [] \<Rightarrow> None
                  | v # ws' \<Rightarrow>
                      if form v then ready_options ws' (if host_option opt then Suc hosts else hosts) else None))))"

definition isReadyOverTcp :: "string list \<Rightarrow> bool" where
  "isReadyOverTcp words =
     (case words of
        w # ws \<Rightarrow> w = ''pg_isready'' \<and> ready_options ws 0 = Some 1
      | [] \<Rightarrow> False)"

definition rule8PostgresTcp :: "services \<Rightarrow> string list" where
  "rule8PostgresTcp ss =
     for_services ss [''postgres'']
       (\<lambda>n s. problem_if
          (\<not> hasHealthcheck s
           \<or> (case healthcheckWords (dot (jget s ''healthcheck'') ''test'') of
                None \<Rightarrow> True | Some ws \<Rightarrow> \<not> isReadyOverTcp ws))
          (''postgres: healthcheck is not pg_isready over TCP to its own loopback on port '' @ POSTGRES_TARGET
           @ '' (-h '' @ join_str ''|'' TCP_HOSTS @ '', -p '' @ POSTGRES_TARGET
           @ '' or none) - the local socket answers during init''))"

section \<open>Rules 9, 13 and 16\<close>

definition rule9Restart :: "services \<Rightarrow> string list" where
  "rule9Restart ss =
     concat (map (\<lambda>(n, s).
       problem_if (n \<notin> set ONE_SHOT \<and> jget s ''restart'' \<noteq> Some (Str RESTART_POLICY))
         (n @ '': restart is not '' @ [CHR 34] @ RESTART_POLICY @ [CHR 34]
          @ '' - it would stay down after a reboot'')) ss)"

definition rule13Init :: "services \<Rightarrow> string list" where
  "rule13Init ss =
     for_services ss UNDER_INIT
       (\<lambda>n s. problem_if (jget s ''init'' \<noteq> Some (Bool True))
          (n @ '': init is not true - node as PID 1 ignores SIGTERM, and docker compose stop would end it with SIGKILL''))"

definition rule16Profiles :: "services \<Rightarrow> string list" where
  "rule16Profiles ss =
     map (\<lambda>(n, s). n @ '': has profiles ('' @ join_str '', '' (map js_text (items_of (jget s ''profiles'')))
            @ '') - the stack would change with the profile the operator turns on; the stack has none'')
       (filter (\<lambda>(n, s). jget s ''profiles'' \<noteq> None) ss)"

text \<open>The probe whose rendering must keep \<open>create_host_path: false\<close>.\<close>

definition RENDERING_PROBE_SOURCE :: string where
  "RENDERING_PROBE_SOURCE = ''probe.env''"

definition checkRendering :: "json \<Rightarrow> string list" where
  "checkRendering config =
     (case servicesOf config of (ss, problems) \<Rightarrow>
        if problems \<noteq> [] then problems
        else (let mount = (case items_of (dot (map_of ss ''probe'') ''volumes'') of v # _ \<Rightarrow> Some v | [] \<Rightarrow> None);
                  lost = (if dot mount ''bind'' = None then ''no bind'' else ''bind has no create_host_path: false'')
              in if dot (dot mount ''bind'') ''create_host_path'' = Some (Bool False) then []
                 else [''this docker compose prints the probe'' @ [CHR 39] @ ''s mount with '' @ lost
                   @ '' - rule 10 cannot tell the option from its absence; run the Compose CI pins (.github/workflows/ci.yml)'']))"

section \<open>What an accepted readiness probe asks\<close>

text \<open>
  An option of \<open>pg_isready\<close> as it may be written: a flag, a value attached to the option, or a
  value as the next word.
\<close>

datatype probe_option =
    Flag string
  | Attached string string
  | Separate string string

fun option_words :: "probe_option \<Rightarrow> string list" where
  "option_words (Flag opt) = [opt]"
| "option_words (Attached opt v) = [if starts_with ''--'' opt then opt @ ''='' @ v else opt @ v]"
| "option_words (Separate opt v) = [opt, v]"

fun option_name :: "probe_option \<Rightarrow> string" where
  "option_name (Flag opt) = opt"
| "option_name (Attached opt v) = opt"
| "option_name (Separate opt v) = opt"

fun option_ok :: "probe_option \<Rightarrow> bool" where
  "option_ok (Flag opt) = (map_of PG_ISREADY_OPTIONS opt = Some None)"
| "option_ok (Attached opt v) = (\<exists>form. map_of PG_ISREADY_OPTIONS opt = Some (Some form) \<and> form v)"
| "option_ok (Separate opt v) = (\<exists>form. map_of PG_ISREADY_OPTIONS opt = Some (Some form) \<and> form v)"

lemma split_option_attached:
  "split_option w = (opt, Some v) \<Longrightarrow> w = (if starts_with ''--'' opt then opt @ ''='' @ v else opt @ v)"
proof -
  assume a: "split_option w = (opt, Some v)"
  let ?nm = "takeWhile lower_only (drop 2 w)"
  let ?r = "dropWhile lower_only (drop 2 w)"
  show ?thesis
  proof (cases "starts_with ''--'' w \<and> ?nm \<noteq> [] \<and> ?r \<noteq> [] \<and> hd ?r = CHR ''='' \<and> one_line (tl ?r)")
    case True
    then have ov: "opt = ''--'' @ ?nm" "v = tl ?r"
      using a by (simp_all add: split_option_def Let_def)
    have "w = ''--'' @ drop 2 w"
      using True by (metis append_take_drop_id numeral_2_eq_2 One_nat_def list.size(3,4) starts_with_def
          add_Suc_right plus_1_eq_Suc add_0_right)
    also have "drop 2 w = ?nm @ ?r" by simp
    also have "?r = CHR ''='' # tl ?r" using True by (cases ?r) auto
    finally show ?thesis using ov by (simp add: starts_with_def)
  next
    case False
    with a obtain d c where "w = d # c # v" "letter c" "opt = [d, c]"
      by (auto simp: split_option_def Let_def split: list.splits if_splits)
    then show ?thesis by (auto simp: starts_with_def letter_def)
  qed
qed

lemma split_option_alone: "split_option w = (opt, None) \<Longrightarrow> opt = w"
  by (auto simp: split_option_def Let_def split: list.splits if_splits)

lemma ready_options_sound:
  assumes "ready_options ws hosts = Some k"
  shows "\<exists>us. ws = concat (map option_words us) \<and> list_all option_ok us
    \<and> k = hosts + length (filter (\<lambda>u. host_option (option_name u)) us)"
  using assms
proof (induction ws hosts rule: ready_options.induct)
  case (1 hosts)
  then show ?case by (intro exI [of _ "[]"]) simp
next
  case (2 w ws hosts)
  obtain opt attached where sp: "split_option w = (opt, attached)" by fastforce
  consider (flag) "map_of PG_ISREADY_OPTIONS opt = Some None" "attached = None"
      "ready_options ws hosts = Some k"
    | (att) form v where "map_of PG_ISREADY_OPTIONS opt = Some (Some form)" "attached = Some v" "form v"
      "ready_options ws (if host_option opt then Suc hosts else hosts) = Some k"
    | (sep) form v ws' where "map_of PG_ISREADY_OPTIONS opt = Some (Some form)" "attached = None" "ws = v # ws'"
      "form v" "ready_options ws' (if host_option opt then Suc hosts else hosts) = Some k"
    using 2(4) sp by (auto split: option.splits list.splits if_split_asm)
  then show ?case
  proof cases
    case flag
    have "w = opt" using split_option_alone [of w opt] sp flag(2) by simp
    have "\<not> host_option opt"
      using flag(1) by (auto simp: host_option_def PG_ISREADY_OPTIONS_def)
    obtain us where "ws = concat (map option_words us)" "list_all option_ok us"
      "k = hosts + length (filter (\<lambda>u. host_option (option_name u)) us)"
      using 2(1) [OF sp [symmetric] flag(1) refl] flag(2,3) by auto
    with flag(1) \<open>w = opt\<close> \<open>\<not> host_option opt\<close> show ?thesis
      by (intro exI [of _ "Flag opt # us"]) simp
  next
    case att
    obtain us where "ws = concat (map option_words us)" "list_all option_ok us"
      "k = (if host_option opt then Suc hosts else hosts)
         + length (filter (\<lambda>u. host_option (option_name u)) us)"
      using 2(3) [OF sp [symmetric] att(1) refl att(2) att(3)] att(4) by auto
    with att sp split_option_attached [of w opt v] show ?thesis
      by (intro exI [of _ "Attached opt v # us"]) simp
  next
    case sep
    have "w = opt" using split_option_alone [of w opt] sp sep(2) by simp
    obtain us where "ws' = concat (map option_words us)" "list_all option_ok us"
      "k = (if host_option opt then Suc hosts else hosts)
         + length (filter (\<lambda>u. host_option (option_name u)) us)"
      using 2(2) [OF sp [symmetric] sep(1) refl sep(2,3,4)] sep(5) by auto
    with sep \<open>w = opt\<close> show ?thesis
      by (intro exI [of _ "Separate opt v # us"]) simp
  qed
qed

fun option_value :: "probe_option \<Rightarrow> string option" where
  "option_value (Flag opt) = None"
| "option_value (Attached opt v) = Some v"
| "option_value (Separate opt v) = Some v"

text \<open>A healthcheck of Postgres the rule accepts is \<open>pg_isready\<close> followed by options of the
  closed list alone, with exactly one host among them, written out as a loopback address, and no
  port but the one Postgres listens on: nothing else is run, and no socket answers for it.\<close>

theorem accepted_probe_asks_tcp_loopback:
  assumes "isReadyOverTcp words"
  shows "\<exists>us. words = ''pg_isready'' # concat (map option_words us)
    \<and> list_all option_ok us
    \<and> length (filter (\<lambda>u. host_option (option_name u)) us) = 1
    \<and> (\<forall>u \<in> set us. host_option (option_name u) \<longrightarrow> (\<exists>h \<in> set TCP_HOSTS. option_value u = Some h))
    \<and> (\<forall>u \<in> set us. option_name u \<in> {''-p'', ''--port''} \<longrightarrow> option_value u = Some POSTGRES_TARGET)"
proof -
  obtain ws where ws: "words = ''pg_isready'' # ws" "ready_options ws 0 = Some 1"
    using assms by (auto simp: isReadyOverTcp_def split: list.splits)
  from ready_options_sound [OF ws(2)] obtain us where us: "ws = concat (map option_words us)"
    "list_all option_ok us" "1 = length (filter (\<lambda>u. host_option (option_name u)) us)" by auto
  have "\<exists>h \<in> set TCP_HOSTS. option_value u = Some h" if "option_ok u" "host_option (option_name u)" for u
    using that by (cases u) (auto simp: host_option_def PG_ISREADY_OPTIONS_def split: if_splits)
  moreover have "option_value u = Some POSTGRES_TARGET"
    if "option_ok u" "option_name u \<in> {''-p'', ''--port''}" for u
    using that by (cases u) (auto simp: PG_ISREADY_OPTIONS_def split: if_splits)
  ultimately show ?thesis
    using us ws(1) by (intro exI [of _ us]) (auto simp: list_all_iff)
qed

theorem accepted_probe_asks_tcp_loopback_witness:
  "isReadyOverTcp [''pg_isready'', ''-h127.0.0.1'', ''-U'', ''sf'', ''--dbname=sf'', ''-q'']
   \<and> (\<exists>us. [''pg_isready'', ''-h127.0.0.1'', ''-U'', ''sf'', ''--dbname=sf'', ''-q'']
         = ''pg_isready'' # concat (map option_words us)
    \<and> list_all option_ok us
    \<and> length (filter (\<lambda>u. host_option (option_name u)) us) = 1
    \<and> (\<forall>u \<in> set us. host_option (option_name u) \<longrightarrow> (\<exists>h \<in> set TCP_HOSTS. option_value u = Some h))
    \<and> (\<forall>u \<in> set us. option_name u \<in> {''-p'', ''--port''} \<longrightarrow> option_value u = Some POSTGRES_TARGET))"
proof -
  have ok: "isReadyOverTcp [''pg_isready'', ''-h127.0.0.1'', ''-U'', ''sf'', ''--dbname=sf'', ''-q'']"
    by code_simp
  then show ?thesis
    by (intro conjI ok accepted_probe_asks_tcp_loopback)
qed

section \<open>The order the stack starts in\<close>

text \<open>
  What Compose documents of \<open>depends_on\<close>: a service is started once each of its dependencies has
  reached the condition given for it.  The state keeps what was reached so far.
\<close>

record up_state =
  up_started :: "string set"
  up_healthy :: "string set"
  up_completed :: "string set"

definition reached :: "up_state \<Rightarrow> string \<Rightarrow> json option \<Rightarrow> bool" where
  "reached st dep cond \<longleftrightarrow>
     (case cond of
        Some (Str c) \<Rightarrow>
          (c = ''service_healthy'' \<and> dep \<in> up_healthy st)
        \<or> (c = ''service_completed_successfully'' \<and> dep \<in> up_completed st)
        \<or> (c = ''service_started'' \<and> dep \<in> up_started st)
      | _ \<Rightarrow> False)"

definition may_start :: "services \<Rightarrow> up_state \<Rightarrow> string \<Rightarrow> bool" where
  "may_start ss st n \<longleftrightarrow>
     (case map_of ss n of
        None \<Rightarrow> False
      | Some s \<Rightarrow> (case jget s ''depends_on'' of
          Some (Obj kvs) \<Rightarrow> (\<forall>d e. map_of kvs d = Some e \<longrightarrow> reached st d (jget e ''condition''))
        | _ \<Rightarrow> True))"

inductive up_step :: "services \<Rightarrow> up_state \<Rightarrow> up_state \<Rightarrow> bool" for ss where
  start: "may_start ss st n \<Longrightarrow> up_step ss st (st\<lparr>up_started := insert n (up_started st)\<rparr>)"
| healthy: "n \<in> up_started st \<Longrightarrow> up_step ss st (st\<lparr>up_healthy := insert n (up_healthy st)\<rparr>)"
| completed: "n \<in> up_started st \<Longrightarrow> up_step ss st (st\<lparr>up_completed := insert n (up_completed st)\<rparr>)"

definition down :: up_state where
  "down = \<lparr>up_started = {}, up_healthy = {}, up_completed = {}\<rparr>"

definition order_inv :: "up_state \<Rightarrow> bool" where
  "order_inv st \<longleftrightarrow>
     up_healthy st \<subseteq> up_started st \<and> up_completed st \<subseteq> up_started st
   \<and> (\<forall>n \<in> set POSTGRES_CLIENTS. n \<in> up_started st \<longrightarrow> ''postgres'' \<in> up_healthy st)
   \<and> (\<forall>n \<in> set APP_SERVICES. n \<in> up_started st \<longrightarrow> ''migrate'' \<in> up_completed st)
   \<and> (''api'' \<in> up_started st \<or> ''worker'' \<in> up_started st \<longrightarrow> ''redis'' \<in> up_healthy st)
   \<and> (''web'' \<in> up_started st \<longrightarrow> ''api'' \<in> up_healthy st)"

lemma waits_reached:
  assumes "may_start ss st n" and "map_of ss n = Some s" and "waitsFor s dep cond"
  shows "reached st dep (Some (Str cond))"
proof -
  obtain v where v: "jget s ''depends_on'' = Some v" "dot (Some v) dep \<noteq> None"
    using assms(3) by (cases "jget s ''depends_on''") (auto simp: waitsFor_def dot_def split: option.splits)
  then obtain kvs e where "v = Obj kvs" "map_of kvs dep = Some e"
    by (cases v) (auto simp: dot_def jget_def)
  moreover from this have "jget e ''condition'' = Some (Str cond)"
    using assms(3) v by (simp add: waitsFor_def dot_def jget_def)
  moreover have "\<forall>d e. map_of kvs d = Some e \<longrightarrow> reached st d (jget e ''condition'')"
    using assms(1,2) v(1) \<open>v = Obj kvs\<close> by (simp add: may_start_def)
  ultimately show ?thesis by metis
qed

lemma up_state_updates:
  "up_started (st\<lparr>up_started := X\<rparr>) = X" "up_healthy (st\<lparr>up_started := X\<rparr>) = up_healthy st"
  "up_completed (st\<lparr>up_started := X\<rparr>) = up_completed st"
  "up_started (st\<lparr>up_healthy := X\<rparr>) = up_started st" "up_healthy (st\<lparr>up_healthy := X\<rparr>) = X"
  "up_completed (st\<lparr>up_healthy := X\<rparr>) = up_completed st"
  "up_started (st\<lparr>up_completed := X\<rparr>) = up_started st"
  "up_healthy (st\<lparr>up_completed := X\<rparr>) = up_healthy st" "up_completed (st\<lparr>up_completed := X\<rparr>) = X"
  by simp_all

lemma up_step_inv:
  assumes rule: "rule5StartOrder ss = []" and "up_step ss st st'" and "order_inv st"
  shows "order_inv st'"
  using assms(2)
proof cases
  case (start n)
  obtain s where s: "map_of ss n = Some s"
    using start(2) by (auto simp: may_start_def split: option.splits)
  note w = waits_reached [OF start(2) s]
  have pg: "n \<in> set POSTGRES_CLIENTS \<Longrightarrow> ''postgres'' \<in> up_healthy st"
    using rule s w [of "''postgres''" "''service_healthy''"]
    by (auto simp: rule5StartOrder_def for_services_Nil reached_def)
  have mig: "n \<in> set APP_SERVICES \<Longrightarrow> ''migrate'' \<in> up_completed st"
    using rule s w [of "''migrate''" "''service_completed_successfully''"]
    by (auto simp: rule5StartOrder_def for_services_Nil reached_def)
  have web: "n = ''web'' \<Longrightarrow> ''api'' \<in> up_healthy st"
    using rule s w [of "''api''" "''service_healthy''"]
    by (auto simp: rule5StartOrder_def for_services_Nil reached_def APP_SERVICES_def)
  have redis: "n = ''api'' \<or> n = ''worker'' \<Longrightarrow> ''redis'' \<in> up_healthy st"
    using rule s w [of "''redis''" "''service_healthy''"]
    by (auto simp: rule5StartOrder_def for_services_Nil reached_def APP_SERVICES_def)
  show ?thesis
    using assms(3) pg mig web redis unfolding start(1) order_inv_def up_state_updates by blast
next
  case (healthy n)
  then show ?thesis using assms(3) unfolding healthy(1) order_inv_def up_state_updates by blast
next
  case (completed n)
  then show ?thesis using assms(3) unfolding completed(1) order_inv_def up_state_updates by blast
qed

lemma started_in_order:
  assumes "rule5StartOrder ss = []" and "(up_step ss)\<^sup>*\<^sup>* down st"
  shows "order_inv st"
  using assms(2)
proof induction
  case base
  then show ?case by (simp add: order_inv_def down_def)
next
  case (step y z)
  show ?case by (rule up_step_inv [OF assms(1) step(2,3)])
qed

text \<open>In a stack the rule of the start order accepts, however its services are started,
  become healthy or exit, the dashboard never starts before the api was healthy, no app service
  starts before the migration exited with success, and no client of Postgres, nor of Redis,
  before it was healthy - so whenever the dashboard runs, all of that has happened.\<close>

theorem accepted_stack_starts_in_order:
  assumes "rule5StartOrder ss = []" and "(up_step ss)\<^sup>*\<^sup>* down st"
  shows "order_inv st
    \<and> (''web'' \<in> up_started st \<longrightarrow>
         {''api'', ''redis'', ''postgres''} \<subseteq> up_healthy st \<and> ''migrate'' \<in> up_completed st)"
proof -
  have inv: "order_inv st" by (rule started_in_order [OF assms])
  note i = inv [unfolded order_inv_def]
  have "{''api'', ''redis'', ''postgres''} \<subseteq> up_healthy st \<and> ''migrate'' \<in> up_completed st"
    if web: "''web'' \<in> up_started st"
  proof -
    have api: "''api'' \<in> up_healthy st" using i web by (elim conjE) (erule mp)
    have started: "''api'' \<in> up_started st" using i api by (elim conjE) (erule (1) subsetD)
    have redis: "''redis'' \<in> up_healthy st" using i started by (elim conjE) (erule mp, simp)
    have "\<forall>n \<in> set POSTGRES_CLIENTS. n \<in> up_started st \<longrightarrow> ''postgres'' \<in> up_healthy st"
      using i by (elim conjE)
    with started have pg: "''postgres'' \<in> up_healthy st" by (simp add: POSTGRES_CLIENTS_def)
    have "\<forall>n \<in> set APP_SERVICES. n \<in> up_started st \<longrightarrow> ''migrate'' \<in> up_completed st"
      using i by (elim conjE)
    with web have "''migrate'' \<in> up_completed st" by (simp add: APP_SERVICES_def)
    with api redis pg show ?thesis by simp
  qed
  with inv show ?thesis by simp
qed

definition after :: "(string \<times> string) list \<Rightarrow> json" where
  "after conds = Obj [(''depends_on'', Obj (map (\<lambda>(d, c). (d, Obj [(''condition'', Str c)])) conds))]"

definition ordered_stack :: services where
  "ordered_stack =
     [(''postgres'', Obj []), (''redis'', Obj []),
      (''migrate'', after [(''postgres'', ''service_healthy'')]),
      (''api'', after [(''postgres'', ''service_healthy''), (''redis'', ''service_healthy''),
                       (''migrate'', ''service_completed_successfully'')]),
      (''worker'', after [(''postgres'', ''service_healthy''), (''redis'', ''service_healthy''),
                       (''migrate'', ''service_completed_successfully'')]),
      (''web'', after [(''api'', ''service_healthy''), (''migrate'', ''service_completed_successfully'')])]"

theorem accepted_stack_starts_in_order_witness:
  "rule5StartOrder ordered_stack = []
   \<and> (up_step ordered_stack)\<^sup>*\<^sup>* down (down\<lparr>up_started := {''postgres''}\<rparr>)
   \<and> order_inv (down\<lparr>up_started := {''postgres''}\<rparr>)
    \<and> (''web'' \<in> up_started (down\<lparr>up_started := {''postgres''}\<rparr>) \<longrightarrow>
         {''api'', ''redis'', ''postgres''} \<subseteq> up_healthy (down\<lparr>up_started := {''postgres''}\<rparr>)
         \<and> ''migrate'' \<in> up_completed (down\<lparr>up_started := {''postgres''}\<rparr>))"
proof -
  have ok: "rule5StartOrder ordered_stack = []" by code_simp
  have "may_start ordered_stack down ''postgres''"
    by (simp add: may_start_def ordered_stack_def)
  from up_step.start [OF this]
  have run: "(up_step ordered_stack)\<^sup>*\<^sup>* down (down\<lparr>up_started := {''postgres''}\<rparr>)"
    by (simp add: down_def)
  show ?thesis
    using ok run accepted_stack_starts_in_order [OF ok run] by blast
qed

end
