(* ===== verification/Compose_Rules.thy ===== *)
theory Compose_Rules
  imports Compose_Service
begin

text \<open>
  The rules of the Compose stack that read files of the project: scripts/compose-rules.mjs, rules
  10, 11, 12, 14, 15 and 17, \<open>checkDockerignore\<close>, and \<open>checkCompose\<close>, which runs the rules of
  the table.  Whatever a read or a realpath throws ends the check; the graph of the Compose
  files is read at most once, on the first rule that asks for it.
\<close>

record project =
  p_composeFile :: string
  p_envFile :: string
  p_testEnvFile :: string
  p_read :: "string \<Rightarrow> thrown + string option"
  p_realpath :: "string \<Rightarrow> thrown + string"
  p_platform :: string
  p_dirname :: "string \<Rightarrow> string"
  p_join :: "string \<Rightarrow> string \<Rightarrow> string"
  p_isAbsolute :: "string \<Rightarrow> bool"
  p_relative :: "string \<Rightarrow> string \<Rightarrow> string"
  p_sep :: char
  p_resolve :: "string \<Rightarrow> string \<Rightarrow> string"
  p_parse_yaml :: "string \<Rightarrow> yaml_document list"
  p_parseEnv :: "string \<Rightarrow> (string \<times> string) list"
  p_url :: "string \<Rightarrow> (string \<times> string) option"

text \<open>What each element of a list finds, one after the other; the first throw ends it.\<close>

fun each :: "('a \<Rightarrow> thrown + 'b list) \<Rightarrow> 'a list \<Rightarrow> thrown + 'b list" where
  "each f [] = Inr []"
| "each f (x # xs) = and_then (f x) (\<lambda>ys. and_then (each f xs) (\<lambda>zs. Inr (ys @ zs)))"

lemma each_Nil: "each f xs = Inr [] \<longleftrightarrow> (\<forall>x \<in> set xs. f x = Inr [])"
  by (induction xs) (auto simp: and_then_Inr)

section \<open>Rule 10: the \<open>.env\<close> is mounted\<close>

definition ENV_READERS :: "string list" where
  "ENV_READERS = [''migrate'', ''api'', ''worker'', ''web'']"

definition ENV_TARGET :: string where
  "ENV_TARGET = ''/repo/.env''"

definition env_mount :: "json \<Rightarrow> json option" where
  "env_mount s = List.find (\<lambda>v. jget v ''target'' = Some (Str ENV_TARGET)) (items_of (jget s ''volumes''))"

definition rule10EnvMount :: "services \<Rightarrow> project \<Rightarrow> string list" where
  "rule10EnvMount ss proj =
     concat (map (\<lambda>(n, s). problem_if (jget s ''env_file'' \<noteq> None)
        (n @ '': has env_file - Compose would parse .env by its own grammar; mount it at '' @ ENV_TARGET
         @ '' instead'')) ss)
     @ for_services ss ENV_READERS (\<lambda>n s.
         case env_mount s of
           None \<Rightarrow> [n @ '': .env is not bind-mounted at '' @ ENV_TARGET]
         | Some m \<Rightarrow>
             if jget m ''type'' \<noteq> Some (Str ''bind'') then
               [n @ '': .env is not bind-mounted at '' @ ENV_TARGET]
             else
               problem_if (jget m ''source'' \<noteq> Some (Str (p_envFile proj)))
                 (n @ '': mounts '' @ text_of (jget m ''source'') @ '' at '' @ ENV_TARGET
                  @ '', not the project'' @ [CHR 39] @ ''s .env ('' @ p_envFile proj @ '')'')
               @ problem_if (jget m ''read_only'' \<noteq> Some (Bool True))
                 (n @ '': .env at '' @ ENV_TARGET @ '' is not read_only'')
               @ problem_if (dot (jget m ''bind'') ''create_host_path'' \<noteq> Some (Bool False))
                 (n @ '': .env mount lacks create_host_path: false - a missing .env would become an empty directory''))"

section \<open>Rule 11: no \<open>.env\<close> enters an image\<close>

definition ENV_MASKS :: "string list" where
  "ENV_MASKS = [''.env'', ''.env.*'', ''**/.env'', ''**/.env.*'']"

definition MASK_COVERS :: "(string \<times> string list) list" where
  "MASK_COVERS =
     [(''.env'', [''.env'']), (''.env.*'', [''.env.*'']), (''**/.env'', [''**/.env'']),
      (''**/.env.*'', [''**/.env.*'']), (''.env*'', [''.env'', ''.env.*'']), (''**/.env*'', ENV_MASKS)]"

text \<open>\<open>replace(/^(!?)\/+/, "$1")\<close>: Docker drops a leading slash.\<close>

definition unslashed :: "string \<Rightarrow> string" where
  "unslashed l =
     (if starts_with ''!'' l
      then CHR ''!'' # (dropWhile (\<lambda>c. c = CHR ''/'') (tl l))
      else dropWhile (\<lambda>c. c = CHR ''/'') l)"

text \<open>\<open>split(/\r?\n/)\<close>, then trimmed: a CR before the LF is a blank the trim takes.\<close>

definition ignore_lines :: "string \<Rightarrow> string list" where
  "ignore_lines t =
     map unslashed
       (filter (\<lambda>l. l \<noteq> [] \<and> \<not> starts_with ''#'' l) (map trim (split_on (CHR 10) t)))"

definition is_mask :: "string \<Rightarrow> bool" where
  "is_mask l \<longleftrightarrow> map_of MASK_COVERS l \<noteq> None"

definition covers :: "string \<Rightarrow> string \<Rightarrow> bool" where
  "covers l mk \<longleftrightarrow> (case map_of MASK_COVERS l of Some ms \<Rightarrow> mk \<in> set ms | None \<Rightarrow> False)"

definition checkDockerignore :: "string \<Rightarrow> string \<Rightarrow> string list" where
  "checkDockerignore t file =
     (let ls = ignore_lines t in
      concat (map (\<lambda>mk. problem_if (\<not> list_ex (\<lambda>l. covers l mk) ls)
        (file @ '': lacks '' @ mk @ '' - that .env file would enter the image'')) ENV_MASKS)
      @ concat (map (\<lambda>l. problem_if (starts_with ''!'' l)
          (file @ '': '' @ l @ '' follows the .env masks - the last matching line wins, and it may let a .env back in''))
          (drop 1 (dropWhile (\<lambda>l. \<not> is_mask l) ls))))"

definition UNCHECKED_BUILD_INPUTS :: "string list" where
  "UNCHECKED_BUILD_INPUTS = [''additional_contexts'', ''dockerfile_inline'']"

text \<open>The services built from each Dockerfile that has a \<open>.dockerignore\<close> of its own, by that file.\<close>

type_synonym own_ignores = "(string \<times> string list \<times> string) list"

fun add_own :: "string \<Rightarrow> string \<Rightarrow> string \<Rightarrow> own_ignores \<Rightarrow> own_ignores" where
  "add_own f n ci [] = [(f, [n], ci)]"
| "add_own f n ci ((g, ns, c) # os) = (if f = g then (g, ns @ [n], c) # os else (g, ns, c) # add_own f n ci os)"

definition build_paths :: "project \<Rightarrow> json \<Rightarrow> string \<times> string" where
  "build_paths proj build =
     (let context = text_or (jget build ''context'') ''.'';
          dockerfile = text_or (jget build ''dockerfile'') ''Dockerfile'';
          dockerfilePath = (if p_isAbsolute proj dockerfile then dockerfile else p_join proj context dockerfile)
      in (p_join proj context ''.dockerignore'', dockerfilePath @ ''.dockerignore''))"

fun rule11_each ::
  "project \<Rightarrow> services \<Rightarrow> string list \<Rightarrow> own_ignores \<Rightarrow> thrown + (string list \<times> own_ignores)"
where
  "rule11_each proj [] ps own = Inr (ps, own)"
| "rule11_each proj ((n, s) # ss) ps own =
     (case jget s ''build'' of
        None \<Rightarrow> rule11_each proj ss ps own
      | Some build \<Rightarrow>
          (let ps1 = ps @ concat (map (\<lambda>f. problem_if (jget build f \<noteq> None)
                 (n @ '': build.'' @ f @ '' - the .env masks are checked for build.context only, and the stack has no '' @ f))
                 UNCHECKED_BUILD_INPUTS) in
           case build_paths proj build of (contextIgnore, ownIgnore) \<Rightarrow>
             and_then (p_read proj ownIgnore) (\<lambda>o1.
               if o1 \<noteq> None then rule11_each proj ss ps1 (add_own ownIgnore n contextIgnore own)
               else and_then (p_read proj contextIgnore) (\<lambda>t.
                 case t of
                   None \<Rightarrow> rule11_each proj ss
                     (ps1 @ [n @ '': no '' @ contextIgnore @ '' - every .env would enter the image'']) own
                 | Some t \<Rightarrow> rule11_each proj ss (ps1 @ checkDockerignore t contextIgnore) own))))"

definition rule11BuildIgnores :: "services \<Rightarrow> project \<Rightarrow> thrown + string list" where
  "rule11BuildIgnores ss proj =
     and_then (rule11_each proj ss [] []) (\<lambda>(ps, own).
       Inr (once (ps @ map (\<lambda>(f, ns, ci). join_str '', '' ns @ '': '' @ f
              @ '' exists - BuildKit reads it instead of '' @ ci @ '', and the .env masks are not checked there'') own)))"

section \<open>Rule 12: the ports of the test stack\<close>

definition TEST_STACK_URLS :: "(string \<times> string \<times> string) list" where
  "TEST_STACK_URLS = [(''postgres'', ''DATABASE_URL'', POSTGRES_TARGET), (''redis'', ''REDIS_URL'', ''6379'')]"

definition TEST_STACK_BINDS :: "(string \<times> string) list" where
  "TEST_STACK_BINDS = [(''localhost'', ''127.0.0.1''), (''127.0.0.1'', ''127.0.0.1''), (''::1'', ''::1'')]"

datatype address = Not_url | No_port | Address string string

text \<open>\<open>hostname.replace(/^\[(.*)\]$/, "$1")\<close>: an IPv6 address without its brackets.\<close>

definition unbracketed :: "string \<Rightarrow> string" where
  "unbracketed h = (if length h \<ge> 2 \<and> hd h = CHR ''['' \<and> last h = CHR '']'' then butlast (tl h) else h)"

definition addressOf :: "(string \<Rightarrow> (string \<times> string) option) \<Rightarrow> string \<Rightarrow> address" where
  "addressOf url v =
     (case url v of
        None \<Rightarrow> Not_url
      | Some (host, port) \<Rightarrow> if port = [] then No_port else Address (unbracketed host) port)"

definition isTcp :: "json option \<Rightarrow> bool" where
  "isTcp protocol = (case protocol of None \<Rightarrow> True | Some (Str s) \<Rightarrow> lower s = ''tcp'' | Some _ \<Rightarrow> False)"

definition publishes :: "string \<Rightarrow> string \<Rightarrow> json \<Rightarrow> bool" where
  "publishes bind port entry \<longleftrightarrow>
     isTcp (jget entry ''protocol'') \<and> text_or (jget entry ''host_ip'') [] = bind
   \<and> text_of (jget entry ''published'') = port"

definition test_port_problems :: "project \<Rightarrow> (string \<times> string) list \<Rightarrow> string \<Rightarrow> json \<Rightarrow> string \<Rightarrow> string \<Rightarrow> string list"
where
  "test_port_problems proj env n s key target =
     (let f = p_testEnvFile proj in
      case map_of env key of
        None \<Rightarrow> [f @ '': no '' @ key @ '' - the port '' @ n @ '' publishes cannot be checked'']
      | Some v \<Rightarrow>
          (case addressOf (p_url proj) v of
             No_port \<Rightarrow> [f @ '': '' @ key @ '' names no port - write it out, the port '' @ n
                         @ '' publishes cannot be checked against a default'']
           | Not_url \<Rightarrow> [f @ '': '' @ key @ '' is not a URL - the port '' @ n @ '' publishes cannot be checked'']
           | Address host port \<Rightarrow>
               (case map_of TEST_STACK_BINDS host of
                  None \<Rightarrow> [f @ '': '' @ key @ '' points at '' @ host
                    @ '', not at localhost, 127.0.0.1 or [::1] - the test stack is the one Compose publishes on loopback'']
                | Some bind \<Rightarrow>
                    (case List.find (publishes bind port) (ports_of s) of
                       None \<Rightarrow> [n @ '': publishes no port '' @ port @ '' on '' @ bind @ '' - '' @ key
                                @ '' of .env.test points there ('' @ host @ '')'']
                     | Some entry \<Rightarrow>
                         problem_if (text_of (jget entry ''target'') \<noteq> target)
                           (n @ '': publishes port '' @ port @ '' on '' @ bind @ '' to ''
                            @ text_or (jget entry ''target'') ''(none)'' @ '', not to '' @ target
                            @ '' it listens on - '' @ key @ '' of .env.test would reach nothing'')))))"

definition rule12TestStackPorts :: "services \<Rightarrow> project \<Rightarrow> thrown + string list" where
  "rule12TestStackPorts ss proj =
     and_then (p_read proj (p_testEnvFile proj)) (\<lambda>t.
       case t of
         None \<Rightarrow> Inr [p_testEnvFile proj
           @ '': missing - the ports the integration tests reach cannot be checked against postgres and redis'']
       | Some t \<Rightarrow> Inr (concat (map (\<lambda>(n, key, target).
           case map_of ss n of None \<Rightarrow> [] | Some s \<Rightarrow> test_port_problems proj (p_parseEnv proj t) n s key target)
           TEST_STACK_URLS)))"

section \<open>Rules 14, 15 and 17: the graph of the Compose files\<close>

definition OVERRIDE_FILES :: "string list" where
  "OVERRIDE_FILES =
     [''compose.override.yml'', ''compose.override.yaml'', ''docker-compose.override.yml'',
      ''docker-compose.override.yaml'']"

definition DEFAULT_FILES :: "string list" where
  "DEFAULT_FILES = [''compose.yaml'', ''compose.yml'', ''docker-compose.yml'', ''docker-compose.yaml'']"

definition COMPOSE_SOURCES :: "string list" where
  "COMPOSE_SOURCES = [''compose.yaml'', ''infra/docker-compose.yml'', ''infra/docker-compose.app.yml'']"

definition isComposeSource :: "string \<Rightarrow> string \<Rightarrow> bool" where
  "isComposeSource relPath platform \<longleftrightarrow>
     list_ex (\<lambda>source. nameOn source platform = nameOn relPath platform) COMPOSE_SOURCES"

definition isSourceOf :: "project \<Rightarrow> string \<Rightarrow> bool" where
  "isSourceOf proj path =
     isComposeSource (fromRoot (p_relative proj) (p_sep proj) (p_dirname proj (p_composeFile proj)) path)
       (p_platform proj)"

definition graph_readers_of :: "project \<Rightarrow> graph_readers" where
  "graph_readers_of proj =
     \<lparr>read_file = p_read proj, realpath_of = p_realpath proj, admits = isSourceOf proj,
      parse_yaml = p_parse_yaml proj, resolve_path = p_resolve proj, dirname_of = p_dirname proj\<rparr>"

definition graphOf :: "project \<Rightarrow> (thrown + graph_state) option" where
  "graphOf proj = composeGraph (p_composeFile proj) (graph_readers_of proj) True"

definition isThere :: "project \<Rightarrow> string \<Rightarrow> thrown + bool" where
  "isThere proj path =
     (case p_realpath proj path of
        Inr _ \<Rightarrow> Inr True
      | Inl e \<Rightarrow> if isGone e then Inr False else Inl e)"

definition there_problem :: "project \<Rightarrow> string \<Rightarrow> string \<Rightarrow> thrown + string list" where
  "there_problem proj path m = and_then (isThere proj path) (\<lambda>b. Inr (problem_if b m))"

definition rule14NoOverride :: "project \<Rightarrow> graph_state \<Rightarrow> thrown + string list" where
  "rule14NoOverride proj graph =
     (let root0 = p_dirname proj (p_composeFile proj);
          folded = (\<lambda>p. nameOn p (p_platform proj));
          ofGraph = map folded (p_composeFile proj # g_files graph);
          dirs = once (root0 # map (p_dirname proj) (g_files graph)) in
      each (\<lambda>dir.
        and_then (each (\<lambda>name. let path = p_join proj dir name in
            there_problem proj path
              (path @ '': Compose merges it into the stack when run without -f from '' @ dir
               @ '', and the gate renders with -f - an override is not supported, change the Compose files of the stack instead''))
            OVERRIDE_FILES) (\<lambda>a.
        and_then (each (\<lambda>name. let path = p_join proj dir name in
            if folded path \<in> set ofGraph then Inr []
            else there_problem proj path
              (path @ '': Compose looks for it when run without -f from '' @ dir @ '' ('' @ join_str '', '' DEFAULT_FILES
               @ '' - the first it finds is the stack), and it is not a file of the graph the gate renders - keep one Compose file of the stack in a directory''))
            DEFAULT_FILES) (\<lambda>b.
        and_then (if dir = root0 then Inr []
                  else (let envFile = p_join proj dir ''.env'' in
                    there_problem proj envFile
                      (envFile @ '': Compose reads it for the interpolation of the Compose files of '' @ dir
                       @ '' over --env-file, and the gate does not read .env - keep the variables in the root .env'')))
          (\<lambda>c. Inr (a @ b @ c))))) dirs)"

definition outside_sources :: string where
  "outside_sources =
     ''not one of the Compose files the gate is chosen on ('' @ join_str '', '' COMPOSE_SOURCES
     @ ''), so a change to it would not run the gate''"

definition reference_problem :: "project \<Rightarrow> compose_reference \<Rightarrow> string list" where
  "reference_problem proj ref =
     (if \<not> isSourceOf proj (ref_written ref) then
        [ref_from ref @ '': '' @ ref_field ref @ '' names '' @ ref_written ref @ '' - '' @ outside_sources]
      else problem_if (\<not> isSourceOf proj (ref_target ref))
        (ref_from ref @ '': '' @ ref_field ref @ '' names '' @ ref_written ref @ '', a link to ''
         @ ref_target ref @ '' - '' @ outside_sources))"

lemma reference_problem_Nil:
  "reference_problem proj ref = [] \<longleftrightarrow> isSourceOf proj (ref_written ref) \<and> isSourceOf proj (ref_target ref)"
  by (simp add: reference_problem_def)

definition rule15ComposeSources :: "project \<Rightarrow> graph_state \<Rightarrow> string list" where
  "rule15ComposeSources proj graph =
     g_problems graph
     @ problem_if (\<not> isSourceOf proj (p_composeFile proj))
         (p_composeFile proj @ '': the root file is '' @ outside_sources)
     @ concat (map (reference_problem proj) (g_references graph))"

lemma rule15_Nil:
  "rule15ComposeSources proj graph = [] \<longleftrightarrow>
     g_problems graph = [] \<and> isSourceOf proj (p_composeFile proj)
     \<and> (\<forall>ref \<in> set (g_references graph). isSourceOf proj (ref_written ref) \<and> isSourceOf proj (ref_target ref))"
  by (auto simp: rule15ComposeSources_def reference_problem_Nil)

definition OUTSIDE_VALUES :: "string list" where
  "OUTSIDE_VALUES = [''configs'', ''secrets'']"

definition outside_value :: string where
  "outside_value = ''Compose takes its value from .env or the shell, past the env file of the gate''"

text \<open>One block of keys: a list of items, or a mapping.\<close>

definition valueless ::
  "string \<Rightarrow> string \<Rightarrow> string \<Rightarrow> yaml_heap \<Rightarrow> yaml_value option \<Rightarrow> string list"
where
  "valueless file field block h v =
     (case v of
        None \<Rightarrow> []
      | Some v \<Rightarrow>
          (case listOf h v of
             Some vs \<Rightarrow>
               concat (map (\<lambda>(i, item). case item of
                   YStr s \<Rightarrow> problem_if (CHR ''='' \<notin> set s)
                     (file @ '': '' @ at_index (field @ ''.'' @ block) i @ '' ('' @ s @ '') has no value - '' @ outside_value)
                 | _ \<Rightarrow> []) (indexed vs))
           | None \<Rightarrow>
               (case recordOf h v of
                  Some kvs \<Rightarrow>
                    concat (map (\<lambda>(k, e). problem_if (e = YNull)
                      (file @ '': '' @ field @ ''.'' @ block @ ''.'' @ k @ '' has no value - '' @ outside_value)) kvs)
                | None \<Rightarrow> [])))"

definition outside_of_service ::
  "string \<Rightarrow> yaml_heap \<Rightarrow> string \<Rightarrow> (string \<times> yaml_value) list \<Rightarrow> string list"
where
  "outside_of_service file h n skvs =
     (let field = ''services.'' @ n in
      problem_if (map_of skvs ''label_file'' \<noteq> None)
        (file @ '': '' @ field @ ''.label_file - Compose reads labels from a file outside the graph, and the stack has none'')
      @ valueless file field ''environment'' h (map_of skvs ''environment'')
      @ (case map_of skvs ''build'' of
           None \<Rightarrow> []
         | Some b \<Rightarrow> (case recordOf h b of
             None \<Rightarrow> []
           | Some bkvs \<Rightarrow> valueless file field ''build.args'' h (map_of bkvs ''args''))))"

definition outsideValuesOf :: "string \<times> yaml_heap \<times> (string \<times> yaml_value) list \<Rightarrow> string list" where
  "outsideValuesOf parsed =
     (case parsed of (file, h, kvs) \<Rightarrow>
        concat (map (\<lambda>key. problem_if (map_of kvs key \<noteq> None)
          (file @ '': '' @ key @ '' - its values come from outside the files of the graph (a file, the environment, an external one), and the stack has none''))
          OUTSIDE_VALUES)
        @ (case map_of kvs ''services'' of
             None \<Rightarrow> []
           | Some v \<Rightarrow> (case recordOf h v of
               None \<Rightarrow> []
             | Some ss \<Rightarrow> concat (map (\<lambda>(n, s). case recordOf h s of
                 None \<Rightarrow> [] | Some skvs \<Rightarrow> outside_of_service file h n skvs) ss))))"

definition rule17GraphValues :: "graph_state \<Rightarrow> string list" where
  "rule17GraphValues graph = concat (map outsideValuesOf (g_roots graph))"

section \<open>The table of the rules\<close>

datatype rule_check =
    On_services "services \<Rightarrow> string list"
  | On_project "services \<Rightarrow> project \<Rightarrow> thrown + string list"
  | On_graph "project \<Rightarrow> graph_state \<Rightarrow> thrown + string list"

definition RULES :: "project \<Rightarrow> (string \<times> rule_check) list" where
  "RULES proj =
     [(''services'', On_services rule0Services), (''ports'', On_services rule1Ports),
      (''production'', On_services rule2Production), (''grace'', On_services rule3Grace),
      (''healthchecks'', On_services rule4Healthchecks), (''start-order'', On_services rule5StartOrder),
      (''media'', On_services rule6Media), (''api-port'', On_services (rule7ApiPort (p_url proj))),
      (''postgres-tcp'', On_services rule8PostgresTcp), (''restart'', On_services rule9Restart),
      (''env-mount'', On_project (\<lambda>ss p. Inr (rule10EnvMount ss p))),
      (''build-ignores'', On_project rule11BuildIgnores),
      (''test-stack-ports'', On_project rule12TestStackPorts), (''init'', On_services rule13Init),
      (''no-override'', On_graph rule14NoOverride),
      (''compose-sources'', On_graph (\<lambda>p g. Inr (rule15ComposeSources p g))),
      (''profiles'', On_services rule16Profiles),
      (''graph-values'', On_graph (\<lambda>p g. Inr (rule17GraphValues g)))]"

definition RULE_IDS :: "string list" where
  "RULE_IDS =
     [''services'', ''ports'', ''production'', ''grace'', ''healthchecks'', ''start-order'', ''media'',
      ''api-port'', ''postgres-tcp'', ''restart'', ''env-mount'', ''build-ignores'', ''test-stack-ports'',
      ''init'', ''no-override'', ''compose-sources'', ''profiles'', ''graph-values'']"

lemma RULE_IDS_RULES: "map fst (RULES proj) = RULE_IDS"
  by (simp add: RULES_def RULE_IDS_def)

text \<open>
  The rules of a choice in the order of the table.  The graph read so far is handed on; a rule
  that asks for it reads it when it was not read yet.  None is a walk that does not return.
\<close>

definition prepend_problems :: "string list \<Rightarrow> (thrown + string list) option \<Rightarrow> (thrown + string list) option" where
  "prepend_problems ys r =
     (case r of None \<Rightarrow> None | Some (Inl e) \<Rightarrow> Some (Inl e) | Some (Inr zs) \<Rightarrow> Some (Inr (ys @ zs)))"

lemma prepend_problems_Nil:
  "prepend_problems ys r = Some (Inr []) \<longleftrightarrow> ys = [] \<and> r = Some (Inr [])"
  by (auto simp: prepend_problems_def split: option.splits sum.splits)

fun run_rules ::
  "services \<Rightarrow> project \<Rightarrow> graph_state option \<Rightarrow> rule_check list \<Rightarrow> (thrown + string list) option"
where
  "run_rules ss proj graph [] = Some (Inr [])"
| "run_rules ss proj graph (On_services f # rs) =
     prepend_problems (f ss) (run_rules ss proj graph rs)"
| "run_rules ss proj graph (On_project f # rs) =
     (case f ss proj of
        Inl e \<Rightarrow> Some (Inl e)
      | Inr ys \<Rightarrow> prepend_problems ys (run_rules ss proj graph rs))"
| "run_rules ss proj graph (On_graph f # rs) =
     (case (case graph of Some g \<Rightarrow> Some (Inr g) | None \<Rightarrow> graphOf proj) of
        None \<Rightarrow> None
      | Some (Inl e) \<Rightarrow> Some (Inl e)
      | Some (Inr g) \<Rightarrow>
          (case f proj g of
             Inl e \<Rightarrow> Some (Inl e)
           | Inr ys \<Rightarrow> prepend_problems ys (run_rules ss proj (Some g) rs)))"

definition chosen_rules :: "project \<Rightarrow> string list \<Rightarrow> rule_check list" where
  "chosen_rules proj only = map snd (filter (\<lambda>(i, r). i = ''services'' \<or> i \<in> set only) (RULES proj))"

definition checkCompose :: "json \<Rightarrow> project \<Rightarrow> string list \<Rightarrow> (thrown + string list) option" where
  "checkCompose config proj only =
     (let unknown = filter (\<lambda>i. i \<notin> set RULE_IDS) only in
      if only = [] then Some (Inl (Error_Thrown None ''checkCompose: no rule chosen'' None))
      else if unknown \<noteq> [] then
        Some (Inl (Error_Thrown None (''checkCompose: no rule '' @ join_str '', '' unknown) None))
      else (case servicesOf config of (ss, problems) \<Rightarrow>
          if problems \<noteq> [] then Some (Inr problems)
          else run_rules ss proj None (chosen_rules proj only)))"

section \<open>A clean check ran every rule of the choice\<close>

definition rule_clean :: "services \<Rightarrow> project \<Rightarrow> (graph_state \<Rightarrow> bool) \<Rightarrow> rule_check \<Rightarrow> bool" where
  "rule_clean ss proj read_graph r \<longleftrightarrow>
     (case r of
        On_services f \<Rightarrow> f ss = []
      | On_project f \<Rightarrow> f ss proj = Inr []
      | On_graph f \<Rightarrow> \<exists>g. read_graph g \<and> f proj g = Inr [])"

lemma run_rules_clean:
  assumes "run_rules ss proj graph rs = Some (Inr [])" and "r \<in> set rs"
  shows "rule_clean ss proj (\<lambda>g. graph = Some g \<or> graphOf proj = Some (Inr g)) r"
  using assms
proof (induction ss proj graph rs rule: run_rules.induct)
  case (1 ss proj graph)
  then show ?case by simp
next
  case (2 ss proj graph f rs)
  then have "f ss = []" "run_rules ss proj graph rs = Some (Inr [])"
    by (simp_all add: prepend_problems_Nil)
  with 2 show ?case by (auto simp: rule_clean_def)
next
  case (3 ss proj graph f rs)
  then have "f ss proj = Inr []" "run_rules ss proj graph rs = Some (Inr [])"
    by (auto simp: prepend_problems_Nil split: sum.splits)
  with 3 show ?case by (auto simp: rule_clean_def)
next
  case (4 ss proj graph f rs)
  obtain g where g: "(case graph of Some g \<Rightarrow> Some (Inr g) | None \<Rightarrow> graphOf proj) = Some (Inr g)"
    using 4(2) by (auto split: option.splits sum.splits)
  then have gg: "graph = Some g \<or> graphOf proj = Some (Inr g)"
    by (auto split: option.splits)
  have fg: "f proj g = Inr []" and rest: "run_rules ss proj (Some g) rs = Some (Inr [])"
    using 4(2) g by (auto simp: prepend_problems_Nil split: sum.splits)
  show ?case
  proof (cases "r = On_graph f")
    case True
    then show ?thesis using gg fg by (auto simp: rule_clean_def)
  next
    case False
    with 4(3) have "r \<in> set rs" by simp
    with 4(1) [OF g refl fg rest] have "rule_clean ss proj (\<lambda>h. Some g = Some h \<or> graphOf proj = Some (Inr h)) r"
      by simp
    then show ?thesis
      using gg by (auto simp: rule_clean_def split: rule_check.splits)
  qed
qed

lemma checkCompose_clean:
  assumes "checkCompose config proj only = Some (Inr [])"
  shows "\<exists>ss. servicesOf config = (ss, [])
    \<and> (\<forall>(i, r) \<in> set (RULES proj). i = ''services'' \<or> i \<in> set only \<longrightarrow>
         rule_clean ss proj (\<lambda>g. graphOf proj = Some (Inr g)) r)"
proof -
  obtain ss ps where so: "servicesOf config = (ss, ps)" by fastforce
  with assms have "ps = []" and run: "run_rules ss proj None (chosen_rules proj only) = Some (Inr [])"
    by (auto simp: checkCompose_def Let_def split: if_splits)
  have "rule_clean ss proj (\<lambda>g. graphOf proj = Some (Inr g)) r"
    if "(i, r) \<in> set (RULES proj)" "i = ''services'' \<or> i \<in> set only" for i r
  proof -
    have "r \<in> set (chosen_rules proj only)"
      using that by (force simp: chosen_rules_def)
    from run_rules_clean [OF run this] show ?thesis by simp
  qed
  with so \<open>ps = []\<close> show ?thesis by auto
qed

text \<open>Whatever rules are chosen, a part of the stack that lost a service is never clean.\<close>

lemma clean_choice_has_every_service:
  assumes "checkCompose config proj only = Some (Inr [])"
  shows "\<exists>ss. servicesOf config = (ss, []) \<and> (\<forall>n \<in> set REQUIRED_SERVICES. map_of ss n \<noteq> None)"
proof -
  obtain ss where ss: "servicesOf config = (ss, [])"
    "\<forall>(i, r) \<in> set (RULES proj). i = ''services'' \<or> i \<in> set only \<longrightarrow>
         rule_clean ss proj (\<lambda>g. graphOf proj = Some (Inr g)) r"
    using checkCompose_clean [OF assms] by blast
  have "(''services'', On_services rule0Services) \<in> set (RULES proj)" by (simp add: RULES_def)
  with ss(2) have "rule_clean ss proj (\<lambda>g. graphOf proj = Some (Inr g)) (On_services rule0Services)" by blast
  then have "rule0Services ss = []" by (simp add: rule_clean_def)
  with ss(1) show ?thesis by (auto simp: rule0Services_def filter_empty_conv)
qed

section \<open>The gate saw every Compose file of the stack\<close>

definition names_any :: "graph_readers \<Rightarrow> (string \<times> string) set" where
  "names_any r = {(f, g). \<exists>field written. file_names r f field written g}"


text \<open>A small stack every rule accepts: its services, its two Compose files and its other files.\<close>

definition check_of :: "json list \<Rightarrow> (string \<times> json) list \<Rightarrow> json" where
  "check_of test more0 = Obj ((''test'', Arr test) # more0)"

definition env_volume :: json where
  "env_volume = Obj [(''type'', Str ''bind''), (''source'', Str ''/p/.env''), (''target'', Str ENV_TARGET),
     (''read_only'', Bool True), (''bind'', Obj [(''create_host_path'', Bool False)])]"

definition media_volume :: json where
  "media_volume = Obj [(''type'', Str ''volume''), (''source'', Str ''media''), (''target'', Str ''/m'')]"

definition waits :: "(string \<times> string) list \<Rightarrow> string \<times> json" where
  "waits conds = (''depends_on'', Obj (map (\<lambda>(d, c). (d, Obj [(''condition'', Str c)])) conds))"

definition always :: "string \<times> json" where
  "always = (''restart'', Str RESTART_POLICY)"

definition app_waits :: "string \<times> json" where
  "app_waits = waits [(''postgres'', ''service_healthy''), (''redis'', ''service_healthy''),
                     (''migrate'', ''service_completed_successfully'')]"

definition clean_config :: json where
  "clean_config = Obj [(''services'', Obj
     [(''postgres'', Obj [always,
         (''healthcheck'', check_of [Str ''CMD'', Str ''pg_isready'', Str ''-hlocalhost''] [(''start_period'', Str ''60s'')]),
         (''ports'', Arr [Obj [(''host_ip'', Str ''127.0.0.1''), (''published'', Str ''1''), (''target'', Str ''5432'')]])]),
      (''redis'', Obj [always,
         (''healthcheck'', check_of [Str ''CMD-SHELL'', Str REDIS_HEALTHCHECK] [(''start_period'', Str ''10s'')]),
         (''ports'', Arr [Obj [(''host_ip'', Str ''::1''), (''published'', Str ''2''), (''target'', Str ''6379'')]])]),
      (''migrate'', Obj [(''init'', Bool True), waits [(''postgres'', ''service_healthy'')],
         (''volumes'', Arr [env_volume]), (''build'', Obj [(''context'', Str ''/p'')])]),
      (''api'', Obj [always, app_waits, (''stop_grace_period'', Str ''15s''),
         (''environment'', Obj [(''NODE_ENV'', Str ''production''), (''API_PORT'', Str ''3''), (''MEDIA_DIR'', Str ''/m'')]),
         (''healthcheck'', check_of [Str ''CMD'', Str ''http://x:3/h''] []),
         (''volumes'', Arr [env_volume, media_volume])]),
      (''worker'', Obj [always, app_waits, (''stop_grace_period'', Str ''30s''),
         (''environment'', Obj [(''NODE_ENV'', Str ''production''), (''MEDIA_DIR'', Str ''/m'')]),
         (''healthcheck'', check_of (map Str (''CMD'' # WORKER_HEALTHCHECK)) []),
         (''volumes'', Arr [env_volume, media_volume])]),
      (''web'', Obj [always,
         waits [(''api'', ''service_healthy''), (''migrate'', ''service_completed_successfully'')],
         (''environment'', Obj [(''NODE_ENV'', Str ''production''), (''API_INTERNAL_URL'', Str ''http://api:3'')]),
         (''volumes'', Arr [env_volume]), (''ports'', Arr [Obj [(''target'', Str ''3000'')]])])])]"

definition clean_project :: project where
  "clean_project =
     \<lparr>p_composeFile = ''/p/compose.yaml'', p_envFile = ''/p/.env'', p_testEnvFile = ''/p/.env.test'',
      p_read = (\<lambda>f. Inr (if f = ''/p/.dockerignore'' then Some ''**/.env*''
                         else if f = ''/p/.env.test'' then Some ''T''
                         else if f = ''/p/compose.yaml'' then Some ''A''
                         else if f = ''/p/infra/docker-compose.yml'' then Some ''B'' else None)),
      p_realpath = (\<lambda>f. if f = ''/p/compose.yaml'' \<or> f = ''/p/infra/docker-compose.yml'' then Inr f
                         else Inl (Error_Thrown (Some ''ENOENT'') ''gone'' None)),
      p_platform = ''linux'',
      p_dirname = (\<lambda>f. if f = ''/p/compose.yaml'' then ''/p'' else ''/p/infra''),
      p_join = (\<lambda>d n. d @ ''/'' @ n), p_isAbsolute = starts_with ''/'',
      p_relative = (\<lambda>d f. if starts_with (d @ ''/'') f then drop (length d + 1) f else ''../'' @ f),
      p_sep = CHR ''/'', p_resolve = (\<lambda>d n. d @ ''/'' @ n),
      p_parse_yaml = (\<lambda>t. [\<lparr>doc_errors = [], doc_warnings = [], doc_toJS = (\<lambda>n. Inr
         (if t = ''A'' then ([YMap [(''include'', YRef 1)], YList [YStr ''infra/docker-compose.yml'']], YRef 0)
          else ([YMap []], YRef 0)))\<rparr>]),
      p_parseEnv = (\<lambda>t. [(''DATABASE_URL'', ''d''), (''REDIS_URL'', ''r'')]),
      p_url = (\<lambda>u. if u = ''d'' then Some (''localhost'', ''1'') else if u = ''r'' then Some (''[::1]'', ''2'')
                    else if u = ''http://api:3'' then Some (''api'', ''3'') else None)\<rparr>"

lemma clean_config_is_clean: "checkCompose clean_config clean_project RULE_IDS = Some (Inr [])"
  by code_simp

lemma clean_project_sources: "finite {f. isSourceOf clean_project f}"
proof -
  have "f \<in> (\<lambda>s. ''/p/'' @ s) ` set COMPOSE_SOURCES" if src: "isSourceOf clean_project f" for f
  proof -
    have rel: "fromRoot (p_relative clean_project) (p_sep clean_project) ''/p'' f
        = (if starts_with ''/p/'' f then drop 3 f else ''../'' @ f)"
      by (simp add: fromRoot_def clean_project_def join_split_on numeral_3_eq_3)
    then have src2: "(if starts_with ''/p/'' f then drop 3 f else ''../'' @ f) \<in> set COMPOSE_SOURCES"
      using src by (auto simp: isSourceOf_def isComposeSource_def clean_project_def nameOn_def list_ex_iff)
    then have st: "starts_with ''/p/'' f"
      by (auto simp: COMPOSE_SOURCES_def split: if_splits)
    then have "take 3 f = ''/p/''" by (simp add: starts_with_def numeral_3_eq_3)
    then have "f = ''/p/'' @ drop 3 f" using append_take_drop_id [of 3 f] by metis
    with src2 st show ?thesis by auto
  qed
  then have "{f. isSourceOf clean_project f} \<subseteq> (\<lambda>s. ''/p/'' @ s) ` set COMPOSE_SOURCES" by blast
  then show ?thesis by (rule finite_subset) simp
qed


section \<open>What a clean stack lets in\<close>



section \<open>No \<open>.env\<close> enters an image\<close>

text \<open>
  What Docker documents of a \<open>.dockerignore\<close>: of the lines whose pattern matches a path the last
  decides, and a line that starts with \<open>!\<close> lets the path in.  \<open>matches\<close> is its matching of a
  pattern against a path.
\<close>

definition pattern_of :: "string \<Rightarrow> string" where
  "pattern_of l = (if starts_with ''!'' l then tl l else l)"

definition docker_excludes :: "(string \<Rightarrow> string \<Rightarrow> bool) \<Rightarrow> string list \<Rightarrow> string \<Rightarrow> bool" where
  "docker_excludes matches ls p \<longleftrightarrow>
     (case filter (\<lambda>l. matches (pattern_of l) p) (rev ls) of
        [] \<Rightarrow> False
      | l # _ \<Rightarrow> \<not> starts_with ''!'' l)"

text \<open>A line of the closed list matches every path that a mask it stands for matches.\<close>

definition covers_documented :: "(string \<Rightarrow> string \<Rightarrow> bool) \<Rightarrow> bool" where
  "covers_documented matches \<longleftrightarrow>
     (\<forall>(l, ms) \<in> set MASK_COVERS. \<forall>mk \<in> set ms. \<forall>p. matches mk p \<longrightarrow> matches l p)"

lemma mask_not_negated: "is_mask l \<Longrightarrow> \<not> starts_with ''!'' l"
  by (auto simp: is_mask_def MASK_COVERS_def starts_with_def split: if_splits)

lemma last_match:
  assumes "l \<in> set ls" and "P l" and "\<forall>x \<in> set (dropWhile (\<lambda>x. \<not> Q x) ls). \<not> R x" and "Q l"
  shows "case filter P (rev ls) of [] \<Rightarrow> False | x # _ \<Rightarrow> \<not> R x"
proof -
  let ?a = "takeWhile (\<lambda>x. \<not> Q x) ls" and ?b = "dropWhile (\<lambda>x. \<not> Q x) ls"
  have "l \<notin> set ?a" using assms(4) by (auto dest: set_takeWhileD)
  moreover have "set ls = set ?a \<union> set ?b" by (metis set_append takeWhile_dropWhile_id)
  ultimately have "l \<in> set ?b" using assms(1) by blast
  then have "filter P (rev ?b) \<noteq> []" using assms(2) by (auto simp: filter_empty_conv)
  then obtain x xs where x: "filter P (rev ?b) = x # xs" by (cases "filter P (rev ?b)") auto
  have "filter P (rev ls) = filter P (rev ?b) @ filter P (rev ?a)"
    by (metis filter_append rev_append takeWhile_dropWhile_id)
  moreover have "x \<in> set ?b" using x by (metis filter_is_subset list.set_intros(1) set_rev subsetD)
  ultimately show ?thesis using x assms(3) by simp
qed


definition sample_matches :: "string \<Rightarrow> string \<Rightarrow> bool" where
  "sample_matches l p \<longleftrightarrow> l = p \<or> (\<exists>ms. (l, ms) \<in> set MASK_COVERS \<and> p \<in> set ms)"


end
