(* ===== verification/Stop_Driver.thy ===== *)
theory Stop_Driver
  imports Shutdown
begin

text \<open>
  The interface between a process and its stop (\<open>packages/runtime/src/shutdown.ts\<close>).  Every process
  of the repository drives the one handler: it asks for the stop, with or without the mark of a
  failure, and the handler decides the exit code.  What a process has to show for the code 0 to
  mean what it says is the contract of \<open>stop_driver\<close>; the lemmas of the locale give the rest.
\<close>

section \<open>The code 0\<close>

text \<open>The stop left with 0, or waits only for the flush of its log to do so.\<close>

definition leaves_with_zero :: "shutdown \<Rightarrow> bool" where
  "leaves_with_zero st \<longleftrightarrow> sd_flushing st = Some 0 \<or> 0 \<in> set (sd_exits st)"

text \<open>
  A stop whose code is backed by \<open>p\<close>: a code 0 and a stop that is not marked as failed both need
  \<open>p\<close>; and nothing is closed by a stop that was not started.
\<close>

definition backed :: "bool \<Rightarrow> shutdown \<Rightarrow> bool" where
  "backed p st \<longleftrightarrow>
     (leaves_with_zero st \<longrightarrow> p) \<and> (sd_started st \<and> \<not> sd_failed st \<longrightarrow> p) \<and>
     (sd_current st \<noteq> [] \<longrightarrow> sd_started st)"

lemma backed_start: "backed p shutdown_start"
  by (simp add: backed_def leaves_with_zero_def shutdown_start_def)

lemma backed_mono: "backed p st \<Longrightarrow> (p \<Longrightarrow> q) \<Longrightarrow> backed q st"
  by (auto simp: backed_def)

lemma backed_line [simp]: "backed p (line l f m st) = backed p st"
  by (simp add: backed_def leaves_with_zero_def line_def)

lemma backed_plan_over:
  "backed p st \<Longrightarrow> sd_started st \<Longrightarrow> backed p (plan_over st)"
  by (auto simp: backed_def leaves_with_zero_def plan_over_def exitOnce_def line_def Let_def)

lemma backed_advance:
  assumes "backed p st" and "sd_started st"
  shows "backed p (advance st)"
proof -
  obtain cur rest where nxt: "next_step (sd_current st) (sd_rest st) = (cur, rest)" by fastforce
  show ?thesis
    unfolding advance_def nxt Let_def prod.case
    by (rule backed_plan_over) (use assms in \<open>simp_all add: backed_def leaves_with_zero_def\<close>)
qed

lemma backed_repeated:
  assumes "backed p st" and "failed \<or> p" and "sd_started st"
  shows "backed p (request_stop opts signal failed st)"
  using assms
  by (auto simp: request_stop_def Let_def armRepeatWindow_def exitOnce_def backed_def leaves_with_zero_def
      line_def split: repeated_sigint.splits)

lemma backed_first:
  assumes "backed p st" and "failed \<or> p" and "\<not> sd_started st"
  shows "backed p (request_stop opts signal failed st)"
  using assms(3) unfolding request_stop_def Let_def
  by (simp, intro conjI impI backed_advance)
    (use assms(1,2) in \<open>auto simp: backed_def leaves_with_zero_def armRepeatWindow_def line_def\<close>)

lemma backed_settles:
  assumes "backed p st"
  shows "backed p (stage_settles i answer st)"
proof (cases "i < length (sd_current st) \<and> sd_current st ! i \<noteq> []")
  case True
  then obtain n q where q: "sd_current st ! i = n # q" and i: "i < length (sd_current st)"
    by (cases "sd_current st ! i") auto
  from i assms have started: "sd_started st" by (auto simp: backed_def)
  show ?thesis
    unfolding stage_settles_def using i q
    by (simp, intro backed_advance)
      (use assms started in
        \<open>auto simp: close_line_def line_def backed_def leaves_with_zero_def Let_def split: close_answer.splits option.splits\<close>)
next
  case False
  with assms show ?thesis by (auto simp: stage_settles_def split: list.splits)
qed

lemma backed_step:
  assumes "backed p st" and "\<And>signal. e = Request signal False \<Longrightarrow> p"
  shows "backed p (createShutdownHandler opts st e)"
proof (cases e)
  case (Request signal failed)
  with assms have "failed \<or> p" by auto
  with assms(1) Request show ?thesis
    by (cases "sd_started st") (simp_all add: createShutdownHandler_def backed_repeated backed_first)
next
  case FlushEnds
  with assms(1) show ?thesis
    by (auto simp: createShutdownHandler_def flush_ends_def backed_def leaves_with_zero_def split: option.splits)
next
  case DeadlineFires
  with assms(1) show ?thesis
    by (auto simp: createShutdownHandler_def deadline_fires_def backed_def leaves_with_zero_def exitOnce_def
        line_def Let_def)
next
  case (Settles i answer)
  with backed_settles [OF assms(1)] show ?thesis by (simp add: createShutdownHandler_def)
next
  case WindowPassed
  with assms(1) show ?thesis by (simp add: createShutdownHandler_def backed_def leaves_with_zero_def)
qed

lemma backed_run:
  assumes "backed p st" and "\<And>signal. Request signal False \<in> set es \<Longrightarrow> p"
  shows "backed p (foldl (createShutdownHandler opts) st es)"
  using assms
proof (induction es arbitrary: st)
  case (Cons e es)
  have "backed p (createShutdownHandler opts st e)"
    by (rule backed_step [OF Cons.prems(1)]) (use Cons.prems(2) in auto)
  then have "backed p (foldl (createShutdownHandler opts) (createShutdownHandler opts st e) es)"
    by (rule Cons.IH) (use Cons.prems(2) in auto)
  then show ?case by simp
qed simp

text \<open>What a close that ran settles with.\<close>

definition answer_of :: "thrown + close_answer \<Rightarrow> close_answer" where
  "answer_of r = (case r of Inl e \<Rightarrow> CloseRejected e | Inr a \<Rightarrow> a)"

section \<open>A failed stop\<close>

text \<open>A stop marked as failed before it decided to leave with 0 never does.\<close>

definition never_zero :: "shutdown \<Rightarrow> bool" where
  "never_zero st \<longleftrightarrow> sd_failed st \<and> \<not> leaves_with_zero st"

lemma never_zero_line [simp]: "never_zero (line l f m st) = never_zero st"
  by (simp add: never_zero_def leaves_with_zero_def line_def)

lemma never_zero_advance: "never_zero st \<Longrightarrow> never_zero (advance st)"
  by (auto simp: never_zero_def leaves_with_zero_def advance_def plan_over_def exitOnce_def line_def Let_def
      split: prod.splits)

lemma never_zero_step:
  assumes "never_zero st"
  shows "never_zero (createShutdownHandler opts st e)"
proof (cases e)
  case (Request signal failed)
  show ?thesis
  proof (cases "sd_started st")
    case True
    with assms Request show ?thesis
      by (auto simp: createShutdownHandler_def request_stop_def Let_def armRepeatWindow_def exitOnce_def
          never_zero_def leaves_with_zero_def line_def split: repeated_sigint.splits)
  next
    case False
    then show ?thesis
      unfolding Request createShutdownHandler_def request_stop_def Let_def
      by (simp, intro conjI impI never_zero_advance)
        (use assms in \<open>auto simp: never_zero_def leaves_with_zero_def armRepeatWindow_def line_def\<close>)
  qed
next
  case (Settles i answer)
  show ?thesis
  proof (cases "i < length (sd_current st) \<and> sd_current st ! i \<noteq> []")
    case True
    then obtain n q where "sd_current st ! i = n # q" "i < length (sd_current st)"
      by (cases "sd_current st ! i") auto
    then show ?thesis
      unfolding Settles createShutdownHandler_def stage_settles_def
      by (simp, intro never_zero_advance)
        (use assms in \<open>auto simp: close_line_def line_def never_zero_def leaves_with_zero_def Let_def
          split: close_answer.splits option.splits\<close>)
  next
    case False
    with assms Settles show ?thesis by (auto simp: createShutdownHandler_def stage_settles_def split: list.splits)
  qed
qed (use assms in \<open>auto simp: createShutdownHandler_def deadline_fires_def flush_ends_def exitOnce_def line_def
    never_zero_def leaves_with_zero_def Let_def split: option.splits\<close>)

lemma never_zero_request:
  assumes "\<not> leaves_with_zero st"
  shows "never_zero (createShutdownHandler opts st (Request signal True))"
proof -
  have "createShutdownHandler opts st (Request signal True) =
      createShutdownHandler opts (st\<lparr>sd_failed := True\<rparr>) (Request signal True)"
    by (simp add: createShutdownHandler_def request_stop_def)
  with never_zero_step [of "st\<lparr>sd_failed := True\<rparr>"] assms show ?thesis
    by (simp add: never_zero_def leaves_with_zero_def)
qed

lemma plan_over_fields [simp]:
  "sd_closed (plan_over st) = sd_closed st" "sd_started (plan_over st) = sd_started st"
  "sd_current (plan_over st) = sd_current st" "sd_rest (plan_over st) = sd_rest st"
  "sd_failed (plan_over st) = sd_failed st"
  by (simp_all add: plan_over_def exitOnce_def line_def Let_def)

text \<open>A stop that began has begun, and a failed one stays failed.\<close>

lemma started_by_request [simp]: "sd_started (createShutdownHandler opts st (Request signal failed))"
  by (simp add: createShutdownHandler_def request_stop_def Let_def armRepeatWindow_def exitOnce_def advance_def
      plan_over_def line_def split: repeated_sigint.splits prod.splits)

lemma started_stays: "sd_started st \<Longrightarrow> sd_started (createShutdownHandler opts st e)"
  by (cases e)
    (simp_all add: createShutdownHandler_def request_stop_def stage_settles_def deadline_fires_def flush_ends_def
      exitOnce_def armRepeatWindow_def advance_def plan_over_def close_line_def Let_def line_def
      split: option.splits list.splits prod.splits close_answer.splits repeated_sigint.splits)

lemma failed_stays: "sd_failed st \<Longrightarrow> sd_failed (createShutdownHandler opts st e)"
  by (cases e)
    (auto simp: createShutdownHandler_def request_stop_def stage_settles_def deadline_fires_def flush_ends_def
      exitOnce_def armRepeatWindow_def advance_def close_line_def Let_def
      split: option.splits list.splits prod.splits close_answer.splits repeated_sigint.splits)

text \<open>A stop that leaves with 0 is not marked as failed afterwards, unless a failure is reported.\<close>

definition honest :: "shutdown \<Rightarrow> bool" where
  "honest st \<longleftrightarrow> (leaves_with_zero st \<longrightarrow> \<not> sd_failed st)"

lemma honest_advance: "\<not> leaves_with_zero st \<Longrightarrow> honest (advance st)"
  by (auto simp: honest_def leaves_with_zero_def advance_def plan_over_def exitOnce_def line_def Let_def
      split: prod.splits)

lemma honest_step:
  assumes inv: "stop_inv opts st" and h: "honest st" and e: "\<And>signal. e \<noteq> Request signal True"
  shows "honest (createShutdownHandler opts st e)"
proof (cases "sd_failed st")
  case True
  with h have "never_zero st" by (simp add: never_zero_def honest_def)
  then have "never_zero (createShutdownHandler opts st e)" by (rule never_zero_step)
  then show ?thesis by (simp add: never_zero_def honest_def)
next
  case False
  show ?thesis
  proof (cases e)
    case (Settles i answer)
    show ?thesis
    proof (cases "i < length (sd_current st) \<and> sd_current st ! i \<noteq> []")
      case True
      then obtain n q where q: "sd_current st ! i = n # q" and i: "i < length (sd_current st)"
        by (cases "sd_current st ! i") auto
      then have "\<not> leaves_with_zero st"
        using inv by (auto simp: stop_inv_defs leaves_with_zero_def split: if_splits)
      then show ?thesis
        unfolding Settles createShutdownHandler_def stage_settles_def using i q
        by (simp, intro honest_advance)
          (auto simp: close_line_def line_def leaves_with_zero_def Let_def split: close_answer.splits option.splits)
    next
      case False
      with h Settles show ?thesis by (auto simp: createShutdownHandler_def stage_settles_def split: list.splits)
    qed
  next
    case (Request signal failed)
    with e have "\<not> failed" by auto
    with Request False show ?thesis
      by (auto simp: createShutdownHandler_def request_stop_def Let_def armRepeatWindow_def exitOnce_def
          advance_def plan_over_def honest_def line_def split: repeated_sigint.splits prod.splits)
  qed (use False in \<open>auto simp: createShutdownHandler_def deadline_fires_def flush_ends_def exitOnce_def line_def
    honest_def Let_def split: option.splits\<close>)
qed

text \<open>A plan of single stages is closed one by one: where the stop stands is a number.\<close>

definition linear_at :: "string list \<Rightarrow> nat \<Rightarrow> shutdown \<Rightarrow> bool" where
  "linear_at names k st \<longleftrightarrow>
     k \<le> length names \<and> sd_closed st = take k names \<and>
     (if sd_started st then
        sd_current st = (if k < length names then [[names ! k]] else []) \<and>
        sd_rest st = map Stage (drop (Suc k) names)
      else k = 0 \<and> sd_current st = [])"

definition closing :: "shutdown \<Rightarrow> string option" where
  "closing st = (case sd_current st of (n # _) # _ \<Rightarrow> Some n | _ \<Rightarrow> None)"

lemma linear_closing:
  "linear_at names k st \<Longrightarrow> closing st = (if sd_started st \<and> k < length names then Some (names ! k) else None)"
  unfolding linear_at_def closing_def by (cases "sd_started st"; cases "k < length names"; simp)

lemma linear_advance:
  assumes "sd_started st" and "sd_current st = [] \<or> sd_current st = [[]]" and "k \<le> length names"
    and "sd_closed st = take k names" and "sd_rest st = map Stage (drop k names)"
  shows "linear_at names k (advance st)"
proof (cases "k < length names")
  case True
  then have "drop k names = names ! k # drop (Suc k) names" by (simp add: Cons_nth_drop_Suc)
  with assms have "next_step (sd_current st) (sd_rest st) = ([[names ! k]], map Stage (drop (Suc k) names))"
    by (cases "drop (Suc k) names") (auto simp: sequences_def)
  with assms True show ?thesis by (simp add: advance_def linear_at_def)
next
  case False
  with assms have "next_step (sd_current st) (sd_rest st) = ([], [])" "k = length names" by auto
  with assms show ?thesis by (simp add: advance_def linear_at_def)
qed

lemma linear_request:
  assumes "linear_at names k st" and "so_plan opts = map Stage names"
  shows "linear_at names k (createShutdownHandler opts st (Request signal failed))"
proof (cases "sd_started st")
  case True
  with assms show ?thesis
    by (auto simp: createShutdownHandler_def request_stop_def Let_def armRepeatWindow_def exitOnce_def
        linear_at_def line_def split: repeated_sigint.splits)
next
  case False
  with assms(1) have k: "k = 0" "sd_closed st = []" by (auto simp: linear_at_def)
  show ?thesis
    using False unfolding createShutdownHandler_def request_stop_def Let_def
    by (simp, intro conjI impI linear_advance) (use assms(2) k in \<open>auto simp: armRepeatWindow_def line_def\<close>)
qed

lemma linear_settles:
  assumes "linear_at names k st" and "closing st = Some n"
  shows "linear_at names (Suc k) (createShutdownHandler opts st (Settles 0 answer)) \<and>
    sd_failed (createShutdownHandler opts st (Settles 0 answer)) =
      (sd_failed st \<or> (\<exists>e. answer = CloseRejected e))"
proof -
  have started: "sd_started st" and k: "k < length names"
    using assms linear_closing [OF assms(1)] by (auto split: if_splits)
  with assms(1) have cur: "sd_current st = [[names ! k]]" by (simp add: linear_at_def)
  let ?t = "(close_line (names ! k) answer st)\<lparr>sd_current := [[]], sd_closed := sd_closed st @ [names ! k]\<rparr>"
  have t: "createShutdownHandler opts st (Settles 0 answer) = advance ?t"
    using cur by (simp add: createShutdownHandler_def stage_settles_def)
  have "linear_at names (Suc k) (advance ?t)"
    using assms(1) started k
    by (intro linear_advance)
      (auto simp: linear_at_def close_line_def line_def Let_def take_Suc_conv_app_nth split: close_answer.splits option.splits)
  moreover have "sd_failed (advance ?t) = (sd_failed st \<or> (\<exists>e. answer = CloseRejected e))"
    by (auto simp: advance_def close_line_def line_def Let_def split: prod.splits close_answer.splits option.splits)
  ultimately show ?thesis by (simp add: t)
qed

lemma linear_timers:
  "linear_at names k st \<Longrightarrow> linear_at names k (createShutdownHandler opts st WindowPassed)"
  "linear_at names k st \<Longrightarrow> linear_at names k (createShutdownHandler opts st DeadlineFires)"
  "linear_at names k st \<Longrightarrow> linear_at names k (createShutdownHandler opts st FlushEnds)"
  by (auto simp: createShutdownHandler_def deadline_fires_def flush_ends_def exitOnce_def line_def linear_at_def
      Let_def split: option.splits)

section \<open>Runs\<close>

text \<open>A run that keeps its events beside the state, and what a run never takes back.\<close>

lemma foldl_history: "foldl (\<lambda>(s, h) e. (f s e, h @ [e])) (s, h) es = (foldl f s es, h @ es)"
  by (induction es arbitrary: s h) auto

lemma foldl_stays: "(\<And>s e. Q s \<Longrightarrow> Q (f s e)) \<Longrightarrow> Q s \<Longrightarrow> Q (foldl f s es)"
  by (induction es arbitrary: s) auto

section \<open>The contract of a process\<close>

text \<open>
  \<open>proven s\<close> is what the process has to be sure of before it asks for a stop without the mark of a
  failure.  A step hands the handler some events; one that asks for such a stop is made only where
  \<open>proven\<close> holds, and what is proven stays so.  \<open>inv\<close> is the process's own invariant.
\<close>

locale stop_driver =
  fixes step :: "'s \<Rightarrow> 'e \<Rightarrow> 's"
    and stop :: "'s \<Rightarrow> shutdown"
    and opts :: shutdown_options
    and proven :: "'s \<Rightarrow> bool"
    and inv :: "'s \<Rightarrow> bool"
  assumes handled:
      "inv s \<Longrightarrow> \<exists>es. stop (step s e) = foldl (createShutdownHandler opts) (stop s) es \<and>
         (\<forall>signal. Request signal False \<in> set es \<longrightarrow> proven (step s e))"
    and stays: "inv s \<Longrightarrow> proven s \<Longrightarrow> proven (step s e)"
    and keeps: "inv s \<Longrightarrow> inv (step s e)"
begin

definition driven :: "'s \<Rightarrow> bool" where
  "driven s \<longleftrightarrow> inv s \<and> backed (proven s) (stop s) \<and> stop_inv opts (stop s)"

lemma driven_step:
  assumes "driven s"
  shows "driven (step s e)"
proof -
  have inv: "inv s" and b: "backed (proven s) (stop s)" and st: "stop_inv opts (stop s)"
    using assms by (simp_all add: driven_def)
  obtain es where es: "stop (step s e) = foldl (createShutdownHandler opts) (stop s) es"
    "\<forall>signal. Request signal False \<in> set es \<longrightarrow> proven (step s e)"
    using handled [OF inv] by blast
  have "backed (proven (step s e)) (stop s)" by (rule backed_mono [OF b stays [OF inv]])
  then have "backed (proven (step s e)) (stop (step s e))"
    unfolding es(1) by (rule backed_run) (use es(2) in blast)
  moreover have "stop_inv opts (stop (step s e))" unfolding es(1) by (rule stop.run_inv [OF st])
  ultimately show ?thesis using keeps [OF inv] by (simp add: driven_def)
qed

lemma driven_run: "driven s \<Longrightarrow> driven (foldl step s es)"
  by (induction es arbitrary: s) (auto intro: driven_step)

lemma zero_means_proven:
  "driven s \<Longrightarrow> 0 \<in> set (sd_exits (stop s)) \<Longrightarrow> proven s"
  by (auto simp: driven_def backed_def leaves_with_zero_def)

lemma exited_steps: "driven s \<Longrightarrow> sd_exited (stop s) \<Longrightarrow> sd_exited (stop (foldl step s es))"
proof (induction es arbitrary: s)
  case (Cons e es)
  have "inv s" using Cons.prems(1) by (simp add: driven_def)
  then obtain ts where "stop (step s e) = foldl (createShutdownHandler opts) (stop s) ts"
    using handled by blast
  with Cons.prems(2) have "sd_exited (stop (step s e))" by (simp add: exited_stays)
  with Cons.IH driven_step [OF Cons.prems(1)] show ?case by simp
qed simp

end

text \<open>The deadline of a started stop decides it, and the end of the flush then ends the process.\<close>

lemma deadline_decides:
  "stop_inv opts st \<Longrightarrow> sd_started st \<Longrightarrow> sd_exited (createShutdownHandler opts st DeadlineFires)"
  by (auto simp: createShutdownHandler_def deadline_fires_def stop_inv_defs exitOnce_def Let_def)

lemma flush_leaves:
  "stop_inv opts st \<Longrightarrow> sd_exited st \<Longrightarrow> length (sd_exits (createShutdownHandler opts st FlushEnds)) = 1"
  by (auto simp: createShutdownHandler_def flush_ends_def stop_inv_defs split: option.splits)

end
