(* ===== verification/Smoke_Run.thy ===== *)
theory Smoke_Run
  imports Stop_Driver
begin

text \<open>
  The smoke command of the worker (\<open>apps/worker/src/cli/smoke-run.ts\<close>, and the stop of
  \<open>cli/smoke.ts\<close>): one job is put on a queue, and the verdict says whether the worker of the other
  process finished it.  The run is a machine over the events of Redis, of its timers and of the
  signals; the command around it is a second machine that turns the verdict, a run that threw or a
  signal into the stop of the process.  A verdict always comes, and the process leaves with 0 only
  for a job that went through.
\<close>

section \<open>Verdicts\<close>

definition SMOKE_DEADLINE_MS :: nat where "SMOKE_DEADLINE_MS = 30000"
definition SMOKE_POLL_INTERVAL_MS :: nat where "SMOKE_POLL_INTERVAL_MS = 500"
definition SMOKE_PROBE_MS :: nat where "SMOKE_PROBE_MS = 1000"
definition SMOKE_INTERRUPTED :: string where "SMOKE_INTERRUPTED = ''interrupted by a signal''"

record smoke_outcome =
  so_ok :: bool
  so_reason :: "string option"

definition passed :: smoke_outcome where
  "passed = \<lparr>so_ok = True, so_reason = None\<rparr>"

definition failed_with :: "string \<Rightarrow> smoke_outcome" where
  "failed_with reason = \<lparr>so_ok = False, so_reason = Some reason\<rparr>"

datatype smoke_queue_state = Answered bool | Unreachable

definition the_queue :: string where
  "the_queue = '' - the '' @ [CHR 34] @ ''system.smoke'' @ [CHR 34] @ '' queue ''"

text \<open>\<open>Math.round(deadlineMs / 1000)\<close> rounds a half up.\<close>

definition smokeTimeoutReason :: "nat \<Rightarrow> smoke_queue_state \<Rightarrow> string" where
  "smokeTimeoutReason deadlineMs st =
     ''no result in '' @ show_nat ((deadlineMs + 500) div 1000) @ ''s'' @
     (case st of
        Unreachable \<Rightarrow> the_queue @ ''could not even be asked: is Redis up (docker compose -f infra/docker-compose.yml up -d)?''
      | Answered True \<Rightarrow> the_queue @ ''is paused; turn it back on in app_setting '' @ [CHR 34]
          @ ''queues.enabled'' @ [CHR 34] @ '' (the job is waiting and will run then)''
      | Answered False \<Rightarrow> '' - is the worker running (pnpm --filter @sf/worker dev)?'')"

text \<open>\<open>probeQueueState\<close>: a refusal and the end of its time are both \<open>unreachable\<close>.\<close>

definition probeQueueState :: "bool option \<Rightarrow> smoke_queue_state" where
  "probeQueueState answer = (case answer of Some paused \<Rightarrow> Answered paused | None \<Rightarrow> Unreachable)"

section \<open>The run\<close>

text \<open>
  Where the asynchronous block of the run stands: it waits for the event stream, then for the job to
  be added, then it listens; or it has ended, by a return or a failure.
\<close>

datatype run_phase = Connecting | Adding | Listening string | Block_over

text \<open>
  The variables of \<open>runSmoke\<close>, with the timers it holds - the deadline, the probe of the queue, the
  interval and the reads it started -, the count of calls of \<open>enqueue\<close> and the verdicts told.
\<close>

record smoke_run =
  sr_settled :: bool
  sr_over :: bool
  sr_aborted :: bool
  sr_phase :: run_phase
  sr_armed :: bool
  sr_probing :: bool
  sr_polling :: bool
  sr_reads :: nat
  sr_returned :: bool
  sr_added :: nat
  sr_verdicts :: "smoke_outcome list"
  sr_log :: "log_line list"

definition run_started :: smoke_run where
  "run_started =
     \<lparr>sr_settled = False, sr_over = False, sr_aborted = False, sr_phase = Connecting, sr_armed = True,
      sr_probing = False, sr_polling = False, sr_reads = 0, sr_returned = False, sr_added = 0,
      sr_verdicts = [], sr_log = []\<rparr>"

definition run_line :: "log_level \<Rightarrow> log_fields \<Rightarrow> string \<Rightarrow> smoke_run \<Rightarrow> smoke_run" where
  "run_line level fs message s =
     s\<lparr>sr_log := sr_log s @ [\<lparr>ll_level = level, ll_fields = fs, ll_message = message\<rparr>]\<rparr>"

definition finish :: "smoke_outcome \<Rightarrow> smoke_run \<Rightarrow> smoke_run" where
  "finish outcome s =
     (if sr_settled s then s
      else s\<lparr>sr_settled := True, sr_over := True, sr_verdicts := sr_verdicts s @ [outcome]\<rparr>)"

definition finishByJob :: "smoke_outcome \<Rightarrow> smoke_run \<Rightarrow> smoke_run" where
  "finishByJob outcome s = (if sr_over s then s else finish outcome s)"

definition job_failed :: "string option \<Rightarrow> smoke_outcome" where
  "job_failed reason = failed_with (case reason of Some r \<Rightarrow> r | None \<Rightarrow> ''the job failed'')"

text \<open>A failure of the block: news only while the run is not over.\<close>

definition block_refused :: "thrown \<Rightarrow> smoke_run \<Rightarrow> smoke_run" where
  "block_refused err s0 =
     (let s = s0\<lparr>sr_phase := Block_over\<rparr> in
      if sr_over s \<or> sr_aborted s then
        run_line Debug [(''err'', LErr err)] ''the smoke job could not be enqueued'' s
      else finish (failed_with ''the smoke job could not be enqueued'')
        (run_line ErrorLevel [(''err'', LErr err)] ''the smoke job could not be enqueued'' s))"

text \<open>\<open>waitUntilReady\<close> resolved: the job is added, unless the run is over.\<close>

definition stream_ready :: "smoke_run \<Rightarrow> smoke_run" where
  "stream_ready s =
     (if sr_over s then s\<lparr>sr_phase := Block_over\<rparr>
      else s\<lparr>sr_phase := Adding, sr_added := Suc (sr_added s)\<rparr>)"

definition job_added :: "string \<Rightarrow> smoke_run \<Rightarrow> smoke_run" where
  "job_added jobId s =
     (if sr_over s then s\<lparr>sr_phase := Block_over\<rparr>
      else (run_line Info [(''jobId'', LVal (Str jobId))] ''smoke job enqueued, waiting for a worker'' s)
             \<lparr>sr_phase := Listening jobId, sr_polling := True\<rparr>)"

text \<open>A read of the job's state ended: its state and the reason it failed with, or a refusal.\<close>

definition poll_answered :: "string option \<Rightarrow> string option \<Rightarrow> smoke_run \<Rightarrow> smoke_run" where
  "poll_answered st reason s0 =
     (let s = s0\<lparr>sr_reads := sr_reads s0 - 1\<rparr> in
      if st = Some ''completed'' then finishByJob passed s
      else if st = Some ''failed'' then finishByJob (job_failed reason) s
      else s)"

definition poll_refused :: "thrown \<Rightarrow> smoke_run \<Rightarrow> smoke_run" where
  "poll_refused err s0 =
     (let s = s0\<lparr>sr_reads := sr_reads s0 - 1\<rparr> in
      run_line (if sr_over s \<or> sr_aborted s then Debug else Warn) [(''err'', LErr err)]
        ''could not read the job state'' s)"

text \<open>The deadline ends the run; its verdict waits for the queue to say why.\<close>

definition deadline_passed :: "smoke_run \<Rightarrow> smoke_run" where
  "deadline_passed s = s\<lparr>sr_armed := False, sr_over := True, sr_probing := True\<rparr>"

definition probe_ended :: "nat \<Rightarrow> bool option \<Rightarrow> smoke_run \<Rightarrow> smoke_run" where
  "probe_ended deadlineMs answer s =
     finish (failed_with (smokeTimeoutReason deadlineMs (probeQueueState answer))) (s\<lparr>sr_probing := False\<rparr>)"

definition run_aborted :: "smoke_run \<Rightarrow> smoke_run" where
  "run_aborted s =
     (if sr_aborted s then s
      else if sr_returned s then s\<lparr>sr_aborted := True\<rparr>
      else finish (failed_with SMOKE_INTERRUPTED) (s\<lparr>sr_aborted := True\<rparr>))"

definition run_returns :: "smoke_run \<Rightarrow> smoke_run" where
  "run_returns s = s\<lparr>sr_returned := True, sr_armed := False, sr_polling := False\<rparr>"

datatype run_event =
    StreamReady
  | StreamRefused thrown
  | JobAdded string
  | AddRefused thrown
  | Completed string
  | Failed string "string option"
  | PollFires
  | PollAnswers "string option" "string option"
  | PollRefused thrown
  | DeadlinePasses
  | ProbeAnswers "bool option"
  | ProbeTimesOut
  | Abort
  | Returns

text \<open>An event that cannot happen where the run stands changes nothing.\<close>

definition runSmoke :: "nat \<Rightarrow> smoke_run \<Rightarrow> run_event \<Rightarrow> smoke_run" where
  "runSmoke deadlineMs s e =
     (case e of
        StreamReady \<Rightarrow> (if sr_phase s = Connecting then stream_ready s else s)
      | StreamRefused err \<Rightarrow> (if sr_phase s = Connecting then block_refused err s else s)
      | JobAdded jobId \<Rightarrow> (if sr_phase s = Adding then job_added jobId s else s)
      | AddRefused err \<Rightarrow> (if sr_phase s = Adding then block_refused err s else s)
      | Completed jobId \<Rightarrow> (if sr_phase s = Listening jobId then finishByJob passed s else s)
      | Failed jobId reason \<Rightarrow> (if sr_phase s = Listening jobId then finishByJob (job_failed reason) s else s)
      | PollFires \<Rightarrow> (if sr_polling s then s\<lparr>sr_reads := Suc (sr_reads s)\<rparr> else s)
      | PollAnswers st reason \<Rightarrow> (if sr_reads s > 0 then poll_answered st reason s else s)
      | PollRefused err \<Rightarrow> (if sr_reads s > 0 then poll_refused err s else s)
      | DeadlinePasses \<Rightarrow> (if sr_armed s then deadline_passed s else s)
      | ProbeAnswers answer \<Rightarrow> (if sr_probing s then probe_ended deadlineMs answer s else s)
      | ProbeTimesOut \<Rightarrow> (if sr_probing s then probe_ended deadlineMs None s else s)
      | Abort \<Rightarrow> run_aborted s
      | Returns \<Rightarrow> (if sr_settled s then run_returns s else s))"

section \<open>The command\<close>

text \<open>
  The variables of \<open>runSmokeCommand\<close>: the outcome, whether the run has ended, the abort of its
  controller; whether it said its last word, and what it wrote.
\<close>

record smoke_cmd =
  sc_outcome :: "smoke_outcome option"
  sc_ran :: bool
  sc_aborted :: bool
  sc_ended :: bool
  sc_log :: "log_line list"

definition command_line :: "log_level \<Rightarrow> log_fields \<Rightarrow> string \<Rightarrow> smoke_cmd \<Rightarrow> smoke_cmd" where
  "command_line level fs message c =
     c\<lparr>sc_log := sc_log c @ [\<lparr>ll_level = level, ll_fields = fs, ll_message = message\<rparr>]\<rparr>"

definition command_failed :: "smoke_cmd \<Rightarrow> bool" where
  "command_failed c = (case sc_outcome c of Some o' \<Rightarrow> \<not> so_ok o' | None \<Rightarrow> True)"

definition onVerdict :: "smoke_outcome \<Rightarrow> smoke_cmd \<Rightarrow> smoke_cmd" where
  "onVerdict verdict c =
     (if sc_ran c \<or> sc_aborted c then c else c\<lparr>sc_outcome := Some verdict, sc_ran := True\<rparr>)"

text \<open>The plan of \<open>smoke.ts\<close>: the event stream, the queues, and the two clients they run on.\<close>

definition CLOSE_DEADLINE_MS :: nat where "CLOSE_DEADLINE_MS = 5000"

definition smoke_stop :: shutdown_options where
  "smoke_stop =
     \<lparr>so_plan = [Stage ''events'', Stage ''queues'', Stage ''redis'', Stage ''redis''],
      so_startedMessage = ''shutdown started'', so_repeatedSigint = LogOnly,
      so_timeoutMs = CLOSE_DEADLINE_MS\<rparr>"

text \<open>
  The process: the run, or what opening its connections threw (\<open>sp_threw\<close>), the command around it
  and its stop.
\<close>

record smoke_process =
  sp_threw :: "thrown option"
  sp_run :: smoke_run
  sp_cmd :: smoke_cmd
  sp_stop :: shutdown

definition smoke_process_start :: "thrown option \<Rightarrow> smoke_process" where
  "smoke_process_start threw =
     \<lparr>sp_threw = threw, sp_run = run_started,
      sp_cmd = \<lparr>sc_outcome = None, sc_ran = False, sc_aborted = False, sc_ended = False, sc_log = []\<rparr>,
      sp_stop = shutdown_start\<rparr>"

definition ask_stop :: "string \<Rightarrow> smoke_process \<Rightarrow> smoke_process" where
  "ask_stop signal p =
     p\<lparr>sp_stop := createShutdownHandler smoke_stop (sp_stop p) (Request signal (command_failed (sp_cmd p)))\<rparr>"

text \<open>An event of the run; a verdict is told to the command the moment it is reached.\<close>

definition run_moves :: "nat \<Rightarrow> run_event \<Rightarrow> smoke_process \<Rightarrow> smoke_process" where
  "run_moves deadlineMs e p =
     (let r = runSmoke deadlineMs (sp_run p) e;
          told = drop (length (sr_verdicts (sp_run p))) (sr_verdicts r)
      in p\<lparr>sp_run := r, sp_cmd := fold onVerdict told (sp_cmd p)\<rparr>)"

text \<open>A signal: before the end of the run it interrupts it, and in any case it asks for the stop.\<close>

definition on_signal :: "nat \<Rightarrow> string \<Rightarrow> smoke_process \<Rightarrow> smoke_process" where
  "on_signal deadlineMs signal p =
     ask_stop signal
       (if \<not> sc_ran (sp_cmd p) \<and> \<not> sc_aborted (sp_cmd p) then
          (let p1 = p\<lparr>sp_cmd := (command_line Warn [(''signal'', LVal (Str signal))]
                          ''smoke check interrupted, nothing proven'' (sp_cmd p))\<lparr>sc_aborted := True\<rparr>\<rparr>
           in if sp_threw p = None then run_moves deadlineMs Abort p1 else p1)
        else p)"

text \<open>The run returned or threw: the last word of the command, and the stop it asks for.\<close>

definition tell_outcome :: "smoke_cmd \<Rightarrow> smoke_cmd" where
  "tell_outcome c =
     (case sc_outcome c of
        None \<Rightarrow> c
      | Some o' \<Rightarrow>
          (if so_ok o' then command_line Info [] ''smoke job completed'' c
           else command_line ErrorLevel
             (case so_reason o' of None \<Rightarrow> [] | Some r \<Rightarrow> [(''reason'', LVal (Str r))])
             ''smoke job did not complete'' c))"

definition after_run :: "smoke_process \<Rightarrow> smoke_process" where
  "after_run p0 =
     (let p = p0\<lparr>sp_cmd := (sp_cmd p0)\<lparr>sc_ran := True, sc_ended := True\<rparr>\<rparr> in
      if sc_aborted (sp_cmd p) then p
      else ask_stop ''smoke done'' (p\<lparr>sp_cmd := tell_outcome (sp_cmd p)\<rparr>))"

definition run_ends :: "nat \<Rightarrow> smoke_process \<Rightarrow> smoke_process" where
  "run_ends deadlineMs p =
     (if sc_ended (sp_cmd p) then p
      else (case sp_threw p of
          Some err \<Rightarrow>
            after_run (p\<lparr>sp_cmd := command_line (if sc_aborted (sp_cmd p) then Debug else ErrorLevel)
              [(''err'', LErr err)] ''smoke run failed'' (sp_cmd p)\<rparr>)
        | None \<Rightarrow>
            (case sr_verdicts (sp_run p) of
               [] \<Rightarrow> p
             | v # _ \<Rightarrow>
                 after_run (p\<lparr>sp_run := runSmoke deadlineMs (sp_run p) Returns,
                              sp_cmd := (sp_cmd p)\<lparr>sc_outcome := Some v\<rparr>\<rparr>))))"

datatype process_event =
    RunEvent run_event
  | Signal string
  | RunEnds
  | StopEvent shutdown_event

text \<open>
  The abort and the return of the run are not events of the outside, and neither is a request for
  the stop: the command makes them.
\<close>

definition runSmokeCommand :: "nat \<Rightarrow> smoke_process \<Rightarrow> process_event \<Rightarrow> smoke_process" where
  "runSmokeCommand deadlineMs p e =
     (case e of
        RunEvent re \<Rightarrow>
          (if sp_threw p \<noteq> None \<or> re = Abort \<or> re = Returns then p else run_moves deadlineMs re p)
      | Signal signal \<Rightarrow> on_signal deadlineMs signal p
      | RunEnds \<Rightarrow> run_ends deadlineMs p
      | StopEvent se \<Rightarrow>
          (case se of
             Request _ _ \<Rightarrow> p
           | _ \<Rightarrow> p\<lparr>sp_stop := createShutdownHandler smoke_stop (sp_stop p) se\<rparr>))"

section \<open>What a run knows\<close>

text \<open>
  The job of the run went through: it was added, and after that reported completed - by its event or
  by its state - before the deadline passed and before any signal.
\<close>

definition reports_completed :: "string \<Rightarrow> run_event \<Rightarrow> bool" where
  "reports_completed jobId e \<longleftrightarrow>
     e = Completed jobId \<or> (\<exists>reason. e = PollAnswers (Some ''completed'') reason)"

definition undisturbed :: "process_event list \<Rightarrow> bool" where
  "undisturbed es \<longleftrightarrow> RunEvent DeadlinePasses \<notin> set es \<and> (\<forall>signal. Signal signal \<notin> set es)"

definition went_through :: "process_event list \<Rightarrow> bool" where
  "went_through es \<longleftrightarrow>
     (\<exists>before e after jobId. es = before @ RunEvent e # after \<and> RunEvent (JobAdded jobId) \<in> set before \<and>
        reports_completed jobId e \<and> undisturbed before)"

lemma went_through_snoc: "went_through es \<Longrightarrow> went_through (es @ [e])"
  unfolding went_through_def by (metis append.assoc append_Cons)

lemma went_throughI:
  "RunEvent (JobAdded jobId) \<in> set es \<Longrightarrow> reports_completed jobId e \<Longrightarrow> undisturbed es \<Longrightarrow>
     went_through (es @ [RunEvent e])"
  unfolding went_through_def by blast

definition verdicts_inv :: "process_event list \<Rightarrow> smoke_run \<Rightarrow> bool" where
  "verdicts_inv es r \<longleftrightarrow>
     (sr_settled r \<longleftrightarrow> sr_verdicts r \<noteq> []) \<and> length (sr_verdicts r) \<le> 1 \<and>
     (\<forall>v \<in> set (sr_verdicts r). so_ok v \<longrightarrow> went_through es)"

definition block_inv :: "process_event list \<Rightarrow> smoke_run \<Rightarrow> bool" where
  "block_inv es r \<longleftrightarrow>
     (\<forall>jobId. sr_phase r = Listening jobId \<longrightarrow> RunEvent (JobAdded jobId) \<in> set es) \<and>
     (sr_polling r \<or> sr_reads r > 0 \<longrightarrow> (\<exists>jobId. sr_phase r = Listening jobId)) \<and>
     (sr_phase r = Connecting \<longrightarrow> sr_added r = 0) \<and> sr_added r \<le> 1"

definition over_inv :: "process_event list \<Rightarrow> smoke_run \<Rightarrow> bool" where
  "over_inv es r \<longleftrightarrow>
     (sr_settled r \<longrightarrow> sr_over r) \<and> (sr_over r \<longrightarrow> sr_settled r \<or> sr_probing r) \<and>
     (\<not> sr_armed r \<longrightarrow> sr_over r) \<and> (sr_returned r \<longrightarrow> sr_settled r) \<and> (\<not> sr_over r \<longrightarrow> undisturbed es)"

definition run_inv :: "process_event list \<Rightarrow> smoke_run \<Rightarrow> bool" where
  "run_inv es r \<longleftrightarrow> verdicts_inv es r \<and> block_inv es r \<and> over_inv es r"

lemmas run_inv_defs = run_inv_def verdicts_inv_def block_inv_def over_inv_def

lemma run_line_simps [simp]:
  "sr_settled (run_line l f m r) = sr_settled r" "sr_over (run_line l f m r) = sr_over r"
  "sr_aborted (run_line l f m r) = sr_aborted r" "sr_phase (run_line l f m r) = sr_phase r"
  "sr_armed (run_line l f m r) = sr_armed r" "sr_probing (run_line l f m r) = sr_probing r"
  "sr_polling (run_line l f m r) = sr_polling r" "sr_reads (run_line l f m r) = sr_reads r"
  "sr_returned (run_line l f m r) = sr_returned r" "sr_added (run_line l f m r) = sr_added r"
  "sr_verdicts (run_line l f m r) = sr_verdicts r"
  by (simp_all add: run_line_def)

lemma outcome_ok [simp]:
  "so_ok passed" "\<not> so_ok (failed_with reason)" "\<not> so_ok (job_failed r)"
  by (simp_all add: passed_def failed_with_def job_failed_def)

lemma run_inv_later:
  "run_inv es r \<Longrightarrow> sr_over r \<or> undisturbed [e] \<Longrightarrow> run_inv (es @ [e]) r"
  by (auto simp: run_inv_defs undisturbed_def intro: went_through_snoc)

lemma run_inv_event:
  assumes "run_inv es r" and "e \<noteq> Abort" and "e \<noteq> Returns"
  shows "run_inv (es @ [RunEvent e]) (runSmoke d r e)"
proof (cases "sr_over r")
  case True
  then have "run_inv (es @ [RunEvent e]) r" using assms(1) by (simp add: run_inv_later)
  with True assms(2,3) show ?thesis
    by (cases e) (auto simp: runSmoke_def run_inv_defs stream_ready_def block_refused_def job_added_def
        finishByJob_def finish_def poll_answered_def poll_refused_def deadline_passed_def probe_ended_def
        Let_def split: if_splits)
next
  case False
  then have u: "undisturbed es" using assms(1) by (simp add: run_inv_defs)
  have later: "went_through es \<Longrightarrow> went_through (es @ [RunEvent e])" by (rule went_through_snoc)
  have job: "went_through (es @ [RunEvent e])" if "sr_phase r = Listening jobId" "reports_completed jobId e" for jobId
    using assms(1) that u by (intro went_throughI [of jobId]) (auto simp: run_inv_defs)
  have still: "undisturbed (es @ [RunEvent e])" if "e \<noteq> DeadlinePasses"
    using u that by (simp add: undisturbed_def)
  from False assms show ?thesis
    using later still job
    by (cases e) (auto simp: runSmoke_def run_inv_defs stream_ready_def block_refused_def job_added_def
        finishByJob_def finish_def poll_answered_def poll_refused_def deadline_passed_def probe_ended_def
        reports_completed_def Let_def split: if_splits)
qed

lemma run_inv_over:
  assumes "run_inv es r" and "sr_over r"
  shows "run_inv (es @ [e]) r"
  using assms by (simp add: run_inv_later)

lemma run_inv_aborted:
  assumes "run_inv es r"
  shows "run_inv es (run_aborted r)" and "sr_returned r \<or> \<not> sr_aborted r \<Longrightarrow> sr_over (run_aborted r)"
  using assms by (auto simp: run_inv_defs run_aborted_def finish_def failed_with_def)

lemma run_inv_returns: "run_inv es r \<Longrightarrow> sr_settled r \<Longrightarrow> run_inv es (run_returns r)"
  by (auto simp: run_inv_defs run_returns_def)

lemma verdicts_grow: "\<exists>told. sr_verdicts (runSmoke d r e) = sr_verdicts r @ told"
  by (cases e) (auto simp: runSmoke_def stream_ready_def block_refused_def job_added_def finishByJob_def
      finish_def poll_answered_def poll_refused_def deadline_passed_def probe_ended_def run_aborted_def
      run_returns_def Let_def)

lemma told_verdicts:
  "set (drop (length (sr_verdicts r)) (sr_verdicts (runSmoke d r e))) \<subseteq> set (sr_verdicts (runSmoke d r e))"
  "set (sr_verdicts r) \<subseteq> set (sr_verdicts (runSmoke d r e))"
  using verdicts_grow [of d r e] by auto

lemma onVerdict_fields [simp]:
  "sc_aborted (fold onVerdict vs c) = sc_aborted c" "sc_ended (fold onVerdict vs c) = sc_ended c"
  by (induction vs arbitrary: c) (auto simp: onVerdict_def)

lemma onVerdict_outcome:
  "sc_outcome (fold onVerdict vs c) = Some v \<Longrightarrow> sc_outcome c = Some v \<or> v \<in> set vs"
proof (induction vs arbitrary: c)
  case (Cons u us)
  from Cons.IH [of "onVerdict u c"] Cons.prems show ?case by (auto simp: onVerdict_def split: if_splits)
qed simp

lemma onVerdict_ran: "sc_ran (fold onVerdict vs c) \<Longrightarrow> sc_ran c \<or> vs \<noteq> []"
  by (induction vs arbitrary: c) (auto simp: onVerdict_def split: if_splits)

lemma onVerdict_aborted: "sc_aborted c \<Longrightarrow> fold onVerdict vs c = c"
  by (induction vs) (auto simp: onVerdict_def)

section \<open>What the process knows\<close>

definition process_inv :: "process_event list \<Rightarrow> smoke_process \<Rightarrow> bool" where
  "process_inv es p \<longleftrightarrow>
     (if sp_threw p = None then
        run_inv es (sp_run p) \<and> (sc_ran (sp_cmd p) \<or> sc_aborted (sp_cmd p) \<longrightarrow> sr_over (sp_run p)) \<and>
        (sr_aborted (sp_run p) \<longrightarrow> sc_aborted (sp_cmd p)) \<and>
        (\<forall>v. sc_outcome (sp_cmd p) = Some v \<longrightarrow> v \<in> set (sr_verdicts (sp_run p)))
      else sc_outcome (sp_cmd p) = None) \<and>
     (sc_aborted (sp_cmd p) \<or> sc_ended (sp_cmd p) \<longrightarrow> sd_started (sp_stop p))"

lemma command_line_simps [simp]:
  "sc_outcome (command_line l f m c) = sc_outcome c" "sc_ran (command_line l f m c) = sc_ran c"
  "sc_aborted (command_line l f m c) = sc_aborted c" "sc_ended (command_line l f m c) = sc_ended c"
  by (simp_all add: command_line_def)

lemma tell_outcome_simps [simp]:
  "sc_outcome (tell_outcome c) = sc_outcome c" "sc_ran (tell_outcome c) = sc_ran c"
  "sc_aborted (tell_outcome c) = sc_aborted c" "sc_ended (tell_outcome c) = sc_ended c"
  by (simp_all add: tell_outcome_def split: option.splits)

lemma ask_stop_simps [simp]:
  "sp_threw (ask_stop signal p) = sp_threw p" "sp_run (ask_stop signal p) = sp_run p"
  "sp_cmd (ask_stop signal p) = sp_cmd p" "sd_started (sp_stop (ask_stop signal p))"
  by (simp_all add: ask_stop_def)

lemma run_moves_simps [simp]:
  "sp_threw (run_moves d e p) = sp_threw p" "sp_stop (run_moves d e p) = sp_stop p"
  "sp_run (run_moves d e p) = runSmoke d (sp_run p) e"
  "sc_aborted (sp_cmd (run_moves d e p)) = sc_aborted (sp_cmd p)"
  "sc_ended (sp_cmd (run_moves d e p)) = sc_ended (sp_cmd p)"
  by (simp_all add: run_moves_def Let_def)

lemma over_stays: "sr_over r \<Longrightarrow> sr_over (runSmoke d r e)"
  by (cases e) (auto simp: runSmoke_def stream_ready_def block_refused_def job_added_def finishByJob_def
      finish_def poll_answered_def poll_refused_def deadline_passed_def probe_ended_def run_aborted_def
      run_returns_def Let_def)

lemma aborted_only: "e \<noteq> Abort \<Longrightarrow> sr_aborted (runSmoke d r e) = sr_aborted r"
  by (cases e) (auto simp: runSmoke_def stream_ready_def block_refused_def job_added_def finishByJob_def
      finish_def poll_answered_def poll_refused_def deadline_passed_def probe_ended_def run_returns_def Let_def)

lemma run_event_inv:
  assumes inv: "process_inv es p" and e: "e \<noteq> Abort" "e \<noteq> Returns" and t: "sp_threw p = None"
  shows "process_inv (es @ [RunEvent e]) (run_moves d e p)"
proof -
  let ?r = "runSmoke d (sp_run p) e"
  let ?told = "drop (length (sr_verdicts (sp_run p))) (sr_verdicts ?r)"
  have r: "run_inv (es @ [RunEvent e]) ?r"
    using inv t by (intro run_inv_event e) (simp add: process_inv_def)
  have ran: "sr_over ?r" if "sc_ran (sp_cmd (run_moves d e p)) \<or> sc_aborted (sp_cmd p)"
  proof (cases "?told = []")
    case True
    with that have "sc_ran (sp_cmd p) \<or> sc_aborted (sp_cmd p)" by (auto simp: run_moves_def Let_def)
    then have "sr_over (sp_run p)" using inv t by (auto simp: process_inv_def)
    then show ?thesis by (rule over_stays)
  next
    case False
    then have "sr_verdicts ?r \<noteq> []" by auto
    with r show ?thesis by (auto simp: run_inv_defs)
  qed
  have out: "v \<in> set (sr_verdicts ?r)" if "sc_outcome (sp_cmd (run_moves d e p)) = Some v" for v
  proof -
    have "sc_outcome (sp_cmd p) = Some v \<or> v \<in> set ?told"
      using that by (auto simp: run_moves_def Let_def dest: onVerdict_outcome)
    then show ?thesis using inv t told_verdicts [where r = "sp_run p" and d = d and e = e]
      by (auto simp: process_inv_def)
  qed
  show ?thesis
    using inv t r ran out aborted_only [OF e(1)] by (auto simp: process_inv_def)
qed

lemma signal_inv:
  assumes inv: "process_inv es p"
  shows "process_inv (es @ [Signal signal]) (on_signal d signal p)"
proof (cases "sp_threw p")
  case (Some err)
  with inv show ?thesis by (auto simp: process_inv_def on_signal_def Let_def)
next
  case None
  show ?thesis
  proof (cases "sc_ran (sp_cmd p) \<or> sc_aborted (sp_cmd p)")
    case True
    with inv None have "sr_over (sp_run p)" by (auto simp: process_inv_def)
    with inv None True show ?thesis
      by (auto simp: process_inv_def on_signal_def intro: run_inv_over)
  next
    case False
    let ?r = "run_aborted (sp_run p)"
    have r: "run_inv es (sp_run p)" and a: "\<not> sr_aborted (sp_run p)"
      using inv None False by (auto simp: process_inv_def)
    have "run_inv (es @ [Signal signal]) ?r" "sr_over ?r"
      using run_inv_aborted [OF r] a by (auto intro: run_inv_over)
    moreover have "set (sr_verdicts (sp_run p)) \<subseteq> set (sr_verdicts ?r)"
      using told_verdicts(2) [of "sp_run p" d Abort] by (simp add: runSmoke_def)
    ultimately show ?thesis
      using inv None False
      by (auto simp: process_inv_def on_signal_def Let_def runSmoke_def run_moves_def onVerdict_aborted)
  qed
qed

lemma ends_inv:
  assumes inv: "process_inv es p"
  shows "process_inv (es @ [RunEnds]) (run_ends d p)"
proof (cases "sp_threw p")
  case (Some err)
  with inv show ?thesis by (auto simp: process_inv_def run_ends_def after_run_def Let_def)
next
  case None
  then have r: "run_inv es (sp_run p)" using inv by (simp add: process_inv_def)
  then have same: "run_inv (es @ [RunEnds]) (sp_run p)" by (simp add: run_inv_later undisturbed_def)
  show ?thesis
  proof (cases "sc_ended (sp_cmd p) \<or> sr_verdicts (sp_run p) = []")
    case True
    with inv None same show ?thesis
      by (auto simp: process_inv_def run_ends_def)
  next
    case False
    then obtain v vs where v: "sr_verdicts (sp_run p) = v # vs" by (cases "sr_verdicts (sp_run p)") auto
    then have settled: "sr_settled (sp_run p)" using r by (auto simp: run_inv_defs)
    have "run_inv (es @ [RunEnds]) (run_returns (sp_run p))" by (rule run_inv_returns [OF same settled])
    with inv None False v settled r show ?thesis
      by (auto simp: process_inv_def run_ends_def after_run_def Let_def runSmoke_def run_returns_def run_inv_defs)
  qed
qed

lemma process_step_inv:
  assumes "process_inv es p"
  shows "process_inv (es @ [e]) (runSmokeCommand d p e)"
proof (cases e)
  case (RunEvent re)
  show ?thesis
  proof (cases "sp_threw p \<noteq> None \<or> re = Abort \<or> re = Returns")
    case True
    have "run_inv es (sp_run p) \<Longrightarrow> re = Abort \<or> re = Returns \<Longrightarrow> run_inv (es @ [RunEvent re]) (sp_run p)"
      by (rule run_inv_later) (auto simp: undisturbed_def)
    with True assms RunEvent show ?thesis by (auto simp: process_inv_def runSmokeCommand_def)
  next
    case False
    with assms RunEvent show ?thesis by (simp add: runSmokeCommand_def run_event_inv)
  qed
next
  case (StopEvent se)
  have "run_inv es (sp_run p) \<Longrightarrow> run_inv (es @ [StopEvent se]) (sp_run p)"
    by (simp add: run_inv_later undisturbed_def)
  with assms StopEvent show ?thesis
    by (cases se) (auto simp: process_inv_def runSmokeCommand_def intro: started_stays)
qed (use assms in \<open>simp_all add: runSmokeCommand_def signal_inv ends_inv\<close>)

lemma passed_needs_job:
  assumes "process_inv es p" and "\<not> command_failed (sp_cmd p)"
  shows "sp_threw p = None \<and> went_through es"
proof -
  obtain v where v: "sc_outcome (sp_cmd p) = Some v" "so_ok v"
    using assms(2) by (auto simp: command_failed_def split: option.splits)
  then have t: "sp_threw p = None" using assms(1) by (auto simp: process_inv_def split: if_splits)
  with assms(1) v(1) have "v \<in> set (sr_verdicts (sp_run p))" "verdicts_inv es (sp_run p)"
    by (simp_all add: process_inv_def run_inv_def)
  with v(2) t show ?thesis unfolding verdicts_inv_def by blast
qed

lemma threw_after [simp]: "sp_threw (after_run p) = sp_threw p" "sp_threw (on_signal d signal p) = sp_threw p"
  by (simp_all add: after_run_def on_signal_def Let_def)

lemma threw_ends [simp]: "sp_threw (run_ends d p) = sp_threw p"
  by (simp add: run_ends_def split: option.split list.split)

lemma threw_fixed [simp]: "sp_threw (runSmokeCommand d p e) = sp_threw p"
  by (cases e) (simp_all add: runSmokeCommand_def split: shutdown_event.split)

lemma stop_of_signal:
  "sp_stop (on_signal d signal p) =
     createShutdownHandler smoke_stop (sp_stop p) (Request signal (command_failed (sp_cmd (on_signal d signal p))))"
  by (simp add: on_signal_def ask_stop_def Let_def)

lemma stop_of_ends:
  "sp_stop (run_ends d p) = sp_stop p \<or>
   sp_stop (run_ends d p) =
     createShutdownHandler smoke_stop (sp_stop p) (Request ''smoke done'' (command_failed (sp_cmd (run_ends d p))))"
  by (simp add: run_ends_def after_run_def ask_stop_def Let_def split: option.splits list.splits)

interpretation smoke: stop_driver "\<lambda>(p, h) e. (runSmokeCommand d p e, h @ [e])" "\<lambda>(p, h). sp_stop p"
  smoke_stop "\<lambda>(p, h). sp_threw p = None \<and> went_through h" "\<lambda>(p, h). process_inv h p" for d
proof unfold_locales
  fix s :: "smoke_process \<times> process_event list" and e :: process_event
  obtain p h where s: "s = (p, h)" by (cases s)
  show "case s of (p, h) \<Rightarrow> process_inv h p \<Longrightarrow>
      case case s of (p, h) \<Rightarrow> \<lambda>e. (runSmokeCommand d p e, h @ [e]) of f \<Rightarrow> case f e of (p, h) \<Rightarrow> process_inv h p"
    by (simp add: s process_step_inv)
  show "case s of (p, h) \<Rightarrow> process_inv h p \<Longrightarrow> case s of (p, h) \<Rightarrow> sp_threw p = None \<and> went_through h \<Longrightarrow>
      case case s of (p, h) \<Rightarrow> \<lambda>e. (runSmokeCommand d p e, h @ [e]) of f \<Rightarrow>
        case f e of (p, h) \<Rightarrow> sp_threw p = None \<and> went_through h"
    by (simp add: s went_through_snoc)
  assume "case s of (p, h) \<Rightarrow> process_inv h p"
  then have inv: "process_inv (h @ [e]) (runSmokeCommand d p e)" by (simp add: s process_step_inv)
  let ?q = "runSmokeCommand d p e"
  have asked: "\<exists>ts. sp_stop ?q = foldl (createShutdownHandler smoke_stop) (sp_stop p) ts \<and>
      (\<forall>signal. Request signal False \<in> set ts \<longrightarrow> sp_threw ?q = None \<and> went_through (h @ [e]))"
    if "sp_stop ?q = createShutdownHandler smoke_stop (sp_stop p) (Request signal (command_failed (sp_cmd ?q)))" for signal
    using that passed_needs_job [OF inv]
    by (intro exI [of _ "[Request signal (command_failed (sp_cmd ?q))]"]) auto
  have quiet: "\<exists>ts. sp_stop ?q = foldl (createShutdownHandler smoke_stop) (sp_stop p) ts \<and>
      (\<forall>signal. Request signal False \<in> set ts \<longrightarrow> sp_threw ?q = None \<and> went_through (h @ [e]))"
    if "sp_stop ?q = sp_stop p"
    using that by (intro exI [of _ "[]"]) simp
  have "\<exists>ts. sp_stop ?q = foldl (createShutdownHandler smoke_stop) (sp_stop p) ts \<and>
      (\<forall>signal. Request signal False \<in> set ts \<longrightarrow> sp_threw ?q = None \<and> went_through (h @ [e]))"
  proof (cases e)
    case (RunEvent re)
    then show ?thesis by (intro quiet) (simp add: runSmokeCommand_def)
  next
    case (Signal signal)
    then show ?thesis by (intro asked [of signal]) (simp add: runSmokeCommand_def stop_of_signal)
  next
    case RunEnds
    then have "?q = run_ends d p" by (simp add: runSmokeCommand_def)
    with stop_of_ends [of d p] asked [of "''smoke done''"] quiet show ?thesis by metis
  next
    case (StopEvent se)
    show ?thesis
    proof (cases "\<exists>signal failed. se = Request signal failed")
      case True
      with StopEvent show ?thesis by (intro quiet) (auto simp: runSmokeCommand_def)
    next
      case False
      with StopEvent show ?thesis
        by (intro exI [of _ "[se]"]) (auto simp: runSmokeCommand_def split: shutdown_event.splits)
    qed
  qed
  then show "\<exists>es. (case case s of (p, h) \<Rightarrow> \<lambda>e. (runSmokeCommand d p e, h @ [e]) of f \<Rightarrow> case f e of (p, h) \<Rightarrow> sp_stop p) =
      foldl (createShutdownHandler smoke_stop) (case s of (p, h) \<Rightarrow> sp_stop p) es \<and>
      (\<forall>signal. Request signal False \<in> set es \<longrightarrow>
        (case case s of (p, h) \<Rightarrow> \<lambda>e. (runSmokeCommand d p e, h @ [e]) of f \<Rightarrow>
          case f e of (p, h) \<Rightarrow> sp_threw p = None \<and> went_through h))"
    by (simp add: s)
qed

lemma smoke_driven_iff:
  "smoke.driven (p, es) \<longleftrightarrow>
     process_inv es p \<and> backed (sp_threw p = None \<and> went_through es) (sp_stop p) \<and> stop_inv smoke_stop (sp_stop p)"
  unfolding smoke.driven_def by simp

lemma smoke_driven: "smoke.driven (smoke_process_start threw, [])"
  unfolding smoke_driven_iff
  by (simp add: process_inv_def smoke_process_start_def run_started_def run_inv_defs
      undisturbed_def backed_start start_inv)

lemma smoke_history:
  "smoke.driven (foldl (runSmokeCommand d) (smoke_process_start threw) es, es)"
  using smoke.driven_run [OF smoke_driven, where d = d and es = es] by (simp only: foldl_history append_Nil)

section \<open>Properties\<close>


definition sample_smoke :: "process_event list" where
  "sample_smoke =
     [RunEvent StreamReady, RunEvent (JobAdded ''7''), RunEvent PollFires, RunEvent (Completed ''7''),
      RunEvent (PollAnswers (Some ''completed'') None), Signal ''SIGTERM'', RunEnds,
      StopEvent (Settles 0 ClosedOther), StopEvent (Settles 0 ClosedOther), StopEvent (Settles 0 ClosedOther),
      StopEvent (Settles 0 NOT_OPENED), StopEvent FlushEnds]"


lemma settled_stays: "sr_settled r \<Longrightarrow> sr_settled (runSmoke d r e)"
  by (cases e) (auto simp: runSmoke_def stream_ready_def block_refused_def job_added_def finishByJob_def
      finish_def poll_answered_def poll_refused_def deadline_passed_def probe_ended_def run_aborted_def
      run_returns_def Let_def)

lemma run_of_process:
  "sp_run (runSmokeCommand d p e) = sp_run p \<or> (\<exists>re. sp_run (runSmokeCommand d p e) = runSmoke d (sp_run p) re)"
  by (cases e)
    (auto simp: runSmokeCommand_def on_signal_def run_ends_def after_run_def Let_def split: option.split
      list.split shutdown_event.split)

lemma stop_started_stays: "sd_started (sp_stop p) \<Longrightarrow> sd_started (sp_stop (runSmokeCommand d p e))"
proof (cases e)
  case RunEnds
  then show "sd_started (sp_stop p) \<Longrightarrow> ?thesis"
    using stop_of_ends [of d p] by (auto simp: runSmokeCommand_def)
qed (auto simp: runSmokeCommand_def stop_of_signal intro: started_stays split: shutdown_event.splits)

lemma run_over_stays: "sr_over (sp_run p) \<Longrightarrow> sr_over (sp_run (foldl (runSmokeCommand d) p es))"
  by (rule foldl_stays) (use run_of_process over_stays in metis)

lemma run_settled_stays: "sr_settled (sp_run p) \<Longrightarrow> sr_settled (sp_run (foldl (runSmokeCommand d) p es))"
  by (rule foldl_stays) (use run_of_process settled_stays in metis)

text \<open>
  C30: the smoke command never hangs: once the deadline of the run has passed and its probe of the
  queue is out of time, the run has its verdict, its end asks for the stop, and the deadline of the
  stop ends the process - exactly once, whatever else happens before, between and after.
\<close>

theorem smoke_always_ends:
  "length (sd_exits (sp_stop (foldl (runSmokeCommand deadlineMs) (smoke_process_start None)
     (es @ RunEvent DeadlinePasses # es1 @ RunEvent ProbeTimesOut # es2 @ RunEnds # es3
      @ StopEvent DeadlineFires # es4 @ [StopEvent FlushEnds])))) = 1"
proof -
  let ?f = "foldl (runSmokeCommand deadlineMs)"
  define p0 where "p0 = ?f (smoke_process_start None) es"
  define p1 where "p1 = ?f (runSmokeCommand deadlineMs p0 (RunEvent DeadlinePasses)) es1"
  define p2 where "p2 = ?f (runSmokeCommand deadlineMs p1 (RunEvent ProbeTimesOut)) es2"
  define p3 where "p3 = ?f (runSmokeCommand deadlineMs p2 RunEnds) es3"
  define p4 where "p4 = ?f (runSmokeCommand deadlineMs p3 (StopEvent DeadlineFires)) es4"
  let ?at1 = "es @ RunEvent DeadlinePasses # es1"
  let ?at2 = "?at1 @ RunEvent ProbeTimesOut # es2"
  let ?at3 = "?at2 @ RunEnds # es3"
  let ?at4 = "?at3 @ StopEvent DeadlineFires # es4"
  have at: "smoke.driven (p0, es)" "smoke.driven (p1, ?at1)"
    "smoke.driven (p2, ?at2)" "smoke.driven (p3, ?at3)" "smoke.driven (p4, ?at4)"
    using smoke_history [of deadlineMs None es] smoke_history [of deadlineMs None ?at1]
      smoke_history [of deadlineMs None ?at2] smoke_history [of deadlineMs None ?at3]
      smoke_history [of deadlineMs None ?at4]
    by (simp_all add: p0_def p1_def p2_def p3_def p4_def)
  have threw: "sp_threw (?f q xs) = sp_threw q" for q xs
    by (rule foldl_stays [of "\<lambda>r. sp_threw r = sp_threw q"]) simp_all
  have t: "sp_threw p0 = None" "sp_threw p1 = None" "sp_threw p2 = None"
    by (simp_all add: p0_def p1_def p2_def threw smoke_process_start_def)
  have inv: "process_inv es p0" "process_inv ?at1 p1" "process_inv ?at2 p2"
    using at(1-3) by (simp_all only: smoke_driven_iff)
  have "sr_over (runSmoke deadlineMs (sp_run p0) DeadlinePasses)"
    using inv(1) t(1) by (auto simp: process_inv_def runSmoke_def deadline_passed_def run_inv_defs)
  then have "sr_over (sp_run p1)"
    unfolding p1_def using t(1) by (intro run_over_stays) (simp add: runSmokeCommand_def)
  then have "sr_settled (runSmoke deadlineMs (sp_run p1) ProbeTimesOut)"
    using inv(2) t(2) by (auto simp: process_inv_def runSmoke_def probe_ended_def finish_def run_inv_defs)
  then have "sr_settled (sp_run p2)"
    unfolding p2_def using t(2) by (intro run_settled_stays) (simp add: runSmokeCommand_def)
  then have "sr_verdicts (sp_run p2) \<noteq> []" using inv(3) t(3) by (auto simp: process_inv_def run_inv_defs)
  then have "sd_started (sp_stop (runSmokeCommand deadlineMs p2 RunEnds))"
    using inv(3) t(3)
    by (auto simp: runSmokeCommand_def run_ends_def after_run_def process_inv_def Let_def split: list.split)
  then have started: "sd_started (sp_stop p3)"
    unfolding p3_def by (rule foldl_stays [rotated]) (rule stop_started_stays)
  have stop: "stop_inv smoke_stop (sp_stop p3)" "stop_inv smoke_stop (sp_stop p4)"
    using at(4,5) by (simp_all only: smoke_driven_iff)
  have "sd_exited (sp_stop (runSmokeCommand deadlineMs p3 (StopEvent DeadlineFires)))"
    using deadline_decides [OF stop(1) started] by (simp add: runSmokeCommand_def)
  then have exited: "sd_exited (sp_stop p4)"
    using smoke.exited_steps [OF smoke.driven_step [OF at(4), where d = deadlineMs and e = "StopEvent DeadlineFires"],
        where d = deadlineMs and es = es4]
    by (simp add: p4_def foldl_history)
  have "length (sd_exits (sp_stop (runSmokeCommand deadlineMs p4 (StopEvent FlushEnds)))) = 1"
    using flush_leaves [OF stop(2) exited] by (simp add: runSmokeCommand_def)
  then show ?thesis by (simp add: p0_def p1_def p2_def p3_def p4_def)
qed

end
