(* ===== verification/Worker_Process.thy ===== *)
theory Worker_Process
  imports Stop_Driver Worker_Runtime
begin

text \<open>
  The worker as a process (\<open>apps/worker/src/bootstrap.ts\<close>, \<open>index.ts\<close>): the start of the runtime
  under a stop that already listens.  The events come in any order: signals before, during and after
  the start, the start settling, the close of the stage being shut settling, the timers of the stop.
  The start and each close are taken at the moment they settle, with their whole effect on the
  runtime: no other event of the process touches the runtime between.
\<close>

section \<open>Settings of the stop\<close>

definition WORKER_SHUTDOWN_TIMEOUT_MS :: nat where
  "WORKER_SHUTDOWN_TIMEOUT_MS = 25000"

definition REPEATED_SIGINT :: repeated_sigint where
  "REPEATED_SIGINT =
     ForceExit ''press Ctrl+C again to exit now; unfinished jobs will be retried''
       ''forced exit, active jobs return as stalled''
       ''shutdown after startup failure is already in progress, press Ctrl+C again to exit now''
       ''forced exit, shutdown after startup failure did not finish''"

text \<open>The stages of the connections, with the name each is closed under.\<close>

definition connectionStages ::
  "'c closable_redis \<Rightarrow> ('c, thrown, unit) io \<Rightarrow> (string \<times> ('c, thrown, close_answer) io) list" where
  "connectionStages redis end_db =
     [(''redis'', redisStage (\<lambda>_. Some redis)),
      (''db'', stageOf (\<lambda>_. Some ()) (\<lambda>_. io_bind end_db (\<lambda>_. io_return ClosedOther)))]"

section \<open>State\<close>

text \<open>What \<open>started\<close> is: still to come, the runtime, or nothing once the start failed.\<close>

datatype worker_start = Starting | Running | Not_started

record ('w, 'c) worker_process =
  wp_start :: worker_start
  wp_runtime :: "'w runtime"
  wp_conn :: 'c
  wp_stop :: shutdown
  wp_log :: "log_line list"

record ('w, 'c) worker_deps =
  wd_parts :: "'w parts"
  wd_concurrency :: nat
  wd_handled :: "queue_name \<Rightarrow> bool"
  wd_connections :: "(string \<times> ('c, thrown, close_answer) io) list"
  wd_timeoutMs :: "nat option"

definition worker_names :: "('w, 'c) worker_deps \<Rightarrow> string list" where
  "worker_names d = ''workers'' # ''queues'' # map fst (wd_connections d)"

definition worker_stop :: "('w, 'c) worker_deps \<Rightarrow> shutdown_options" where
  "worker_stop d =
     \<lparr>so_plan = map Stage (worker_names d),
      so_startedMessage = ''shutdown started, draining active jobs'',
      so_repeatedSigint = REPEATED_SIGINT,
      so_timeoutMs = (case wd_timeoutMs d of Some t \<Rightarrow> t | None \<Rightarrow> WORKER_SHUTDOWN_TIMEOUT_MS)\<rparr>"

definition worker_process_start :: "'w \<Rightarrow> 'c \<Rightarrow> ('w, 'c) worker_process" where
  "worker_process_start w c =
     \<lparr>wp_start = Starting, wp_runtime = runtime_start w, wp_conn = c, wp_stop = shutdown_start, wp_log = []\<rparr>"

section \<open>Steps\<close>

text \<open>The two stages that read what the start left: no runtime is nothing to close.\<close>

definition runtime_of :: "worker_start \<times> 'w runtime \<Rightarrow> 'w runtime option" where
  "runtime_of v = (case v of (Running, s) \<Rightarrow> Some s | _ \<Rightarrow> None)"

definition of_runtime ::
  "('w, unit) runtime_io \<Rightarrow> 'w runtime \<Rightarrow> (worker_start \<times> 'w runtime, thrown, close_answer) io" where
  "of_runtime close runtime v =
     (case close runtime of (r, s) \<Rightarrow> ((case r of Inl e \<Rightarrow> Inl e | Inr _ \<Rightarrow> Inr ClosedOther), (fst v, s)))"

definition workers_stage :: "'w parts \<Rightarrow> (worker_start \<times> 'w runtime, thrown, close_answer) io" where
  "workers_stage parts = stageOf runtime_of (of_runtime (closeWorkers parts))"

definition queues_stage :: "'w parts \<Rightarrow> (worker_start \<times> 'w runtime, thrown, close_answer) io" where
  "queues_stage parts = stageOf runtime_of (of_runtime (closeQueues parts))"

definition handle :: "('w, 'c) worker_deps \<Rightarrow> shutdown_event \<Rightarrow> ('w, 'c) worker_process \<Rightarrow> ('w, 'c) worker_process" where
  "handle d e p = p\<lparr>wp_stop := createShutdownHandler (worker_stop d) (wp_stop p) e\<rparr>"

definition close_of_runtime ::
  "('w, 'c) worker_deps \<Rightarrow> (worker_start \<times> 'w runtime, thrown, close_answer) io \<Rightarrow>
     ('w, 'c) worker_process \<Rightarrow> ('w, 'c) worker_process" where
  "close_of_runtime d stage p =
     (if wp_start p = Starting then p
      else (case stage (wp_start p, wp_runtime p) of
              (r, v) \<Rightarrow> handle d (Settles 0 (answer_of r)) (p\<lparr>wp_runtime := snd v\<rparr>)))"

text \<open>The close of the stage being shut; the first two wait for a start that is still running.\<close>

definition stage_closes :: "('w, 'c) worker_deps \<Rightarrow> ('w, 'c) worker_process \<Rightarrow> ('w, 'c) worker_process" where
  "stage_closes d p =
     (case closing (wp_stop p) of
        None \<Rightarrow> p
      | Some name \<Rightarrow>
          (if name = ''workers'' then close_of_runtime d (workers_stage (wd_parts d)) p
           else if name = ''queues'' then close_of_runtime d (queues_stage (wd_parts d)) p
           else
             (case map_of (wd_connections d) name of
                None \<Rightarrow> p
              | Some close \<Rightarrow>
                  (case close (wp_conn p) of
                     (r, c) \<Rightarrow> handle d (Settles 0 (answer_of r)) (p\<lparr>wp_conn := c\<rparr>)))))"

definition start_settles :: "('w, 'c) worker_deps \<Rightarrow> ('w, 'c) worker_process \<Rightarrow> ('w, 'c) worker_process" where
  "start_settles d p =
     (if wp_start p \<noteq> Starting then p
      else
        (case startWorkerRuntime (wd_parts d) (wd_concurrency d) (wd_handled d) (wp_runtime p) of
           (Inr _, s) \<Rightarrow> p\<lparr>wp_start := Running, wp_runtime := s\<rparr>
         | (Inl err, s) \<Rightarrow>
             handle d (Request ''startup failure'' True)
               (p\<lparr>wp_start := Not_started, wp_runtime := s,
                  wp_log := wp_log p @
                    [\<lparr>ll_level = FatalLevel, ll_fields = [(''err'', LErr err)],
                      ll_message = ''worker failed to start''\<rparr>]\<rparr>)))"

datatype worker_event = Signalled string | Start_settles | Stage_closes | Window_over | Deadline_over | Flush_over

definition bootstrap ::
  "('w, 'c) worker_deps \<Rightarrow> ('w, 'c) worker_process \<Rightarrow> worker_event \<Rightarrow> ('w, 'c) worker_process" where
  "bootstrap d p e =
     (case e of
        Signalled signal \<Rightarrow> handle d (Request signal False) p
      | Start_settles \<Rightarrow> start_settles d p
      | Stage_closes \<Rightarrow> stage_closes d p
      | Window_over \<Rightarrow> handle d WindowPassed p
      | Deadline_over \<Rightarrow> handle d DeadlineFires p
      | Flush_over \<Rightarrow> handle d FlushEnds p)"

definition worker_run :: "('w, 'c) worker_deps \<Rightarrow> 'w \<Rightarrow> 'c \<Rightarrow> worker_event list \<Rightarrow> ('w, 'c) worker_process" where
  "worker_run d w c es = foldl (bootstrap d) (worker_process_start w c) es"

section \<open>Where the process stands\<close>

text \<open>The calls of a stop of all workers that none of them refused.\<close>

definition workers_shut :: "(queue_name \<Rightarrow> bool) \<Rightarrow> (runtime_call \<times> thrown option) list \<Rightarrow> bool" where
  "workers_shut handled cs \<longleftrightarrow>
     (\<exists>x ds. cs = (StopSync, x) # map (\<lambda>q. (CloseWorker q, None)) (filter handled QUEUE_NAMES) @ ds \<and>
        map fst ds = map DrainWriter (filter handled QUEUE_NAMES))"

text \<open>A runtime that was started, and shut as far as \<open>k\<close> stages shut it, each without a refusal.\<close>

definition runtime_at :: "(queue_name \<Rightarrow> bool) \<Rightarrow> nat \<Rightarrow> 'w runtime \<Rightarrow> bool" where
  "runtime_at handled k s \<longleftrightarrow>
     (\<exists>cs. rt_calls s = map (\<lambda>c. (c, None)) (start_plan handled) @ cs @ (if 2 \<le> k then [(CloseQueues, None)] else []) \<and>
        (if k = 0 then cs = [] \<and> started handled (length (start_plan handled)) s else workers_shut handled cs) \<and>
        (k < 2 \<longrightarrow> \<not> rt_queuesClosed s))"

definition start_at :: "'w \<Rightarrow> ('w, 'c) worker_deps \<Rightarrow> nat \<Rightarrow> ('w, 'c) worker_process \<Rightarrow> bool" where
  "start_at w d k p \<longleftrightarrow>
     (case wp_start p of
        Starting \<Rightarrow> k = 0 \<and> wp_runtime p = runtime_start w
      | Running \<Rightarrow> sd_failed (wp_stop p) \<or> runtime_at (wd_handled d) k (wp_runtime p)
      | Not_started \<Rightarrow> never_zero (wp_stop p) \<and> sd_started (wp_stop p))"

definition worker_inv :: "'w \<Rightarrow> ('w, 'c) worker_deps \<Rightarrow> nat \<Rightarrow> ('w, 'c) worker_process \<Rightarrow> bool" where
  "worker_inv w d k p \<longleftrightarrow>
     stop_inv (worker_stop d) (wp_stop p) \<and> honest (wp_stop p) \<and>
     linear_at (worker_names d) k (wp_stop p) \<and> start_at w d k p"

lemma no_throws:
  "map fst cs = map f ns \<Longrightarrow> thrown_of_calls cs = [] \<Longrightarrow> cs = map (\<lambda>n. (f n, None)) ns"
proof (induction cs arbitrary: ns)
  case (Cons c cs)
  obtain call r where c: "c = (call, r)" by fastforce
  obtain m ms where ns: "ns = m # ms" using Cons.prems(1) by (cases ns) auto
  from Cons.prems c have "r = None" by (cases r) auto
  with Cons.prems Cons.IH [of ms] c ns show ?case by simp
qed simp

lemma runtime_started:
  assumes "startWorkerRuntime parts n handled (runtime_start w) = (Inr u, s)"
  shows "runtime_at handled 0 s"
proof -
  obtain r t where r: "startEverything parts n handled (runtime_start w) = (r, t)" by fastforce
  with assms have "r = Inr ()" "t = s"
    by (auto simp: startWorkerRuntime_def io_simps split: sum.splits)
  with r startEverything_ok [where parts = parts and n = n and handled = handled and w = w] show ?thesis
    by (auto simp: runtime_at_def started_def)
qed

lemma workers_closed:
  assumes "runtime_at handled 0 s" and "closeWorkers parts s = (Inr u, t)"
  shows "runtime_at handled 1 t"
proof -
  have s: "rt_calls s = map (\<lambda>c. (c, None)) (start_plan handled)" "rt_workers s = filter handled QUEUE_NAMES"
    "rt_syncing s" "\<not> rt_workersClosed s" "\<not> rt_queuesClosed s"
    using assms(1) by (auto simp: runtime_at_def started_def start_plan_def)
  obtain stop cs ds where w: "rt_calls t = rt_calls s @ stop @ cs @ ds"
      "map fst stop = (if rt_syncing s then [StopSync] else [])"
      "map fst cs = map CloseWorker (rt_workers s)" "map fst ds = map DrainWriter (rt_workers s)"
      "Inr u = Inr () \<longleftrightarrow> thrown_of_calls cs = []" "rt_queuesClosed t = rt_queuesClosed s"
    using closeWorkers_ok [OF s(4), of parts] unfolding assms(2) fst_conv snd_conv by blast
  have quiet: "thrown_of_calls cs = []" using w(5) by simp
  from w(2) s(3) obtain x where x: "stop = [(StopSync, x)]" by (cases stop) auto
  with w no_throws [OF w(3) quiet] s have "workers_shut handled (stop @ cs @ ds)"
    by (auto simp: workers_shut_def)
  with w(1,6) s(1,5) show ?thesis by (auto simp: runtime_at_def)
qed

lemma queues_closed:
  assumes "runtime_at handled 1 s" and "closeQueues parts s = (Inr u, t)"
  shows "runtime_at handled 2 t"
proof -
  have "\<not> rt_queuesClosed s" using assms(1) by (auto simp: runtime_at_def)
  from closeQueues_ok [OF this, of parts] assms show ?thesis by (auto simp: runtime_at_def)
qed

lemma runtime_at_later: "runtime_at handled k s \<Longrightarrow> 2 \<le> k \<Longrightarrow> runtime_at handled (Suc k) s"
  by (auto simp: runtime_at_def)

section \<open>Steps keep the invariant\<close>

lemma handle_simps [simp]:
  "wp_start (handle d e p) = wp_start p" "wp_runtime (handle d e p) = wp_runtime p"
  "wp_conn (handle d e p) = wp_conn p" "wp_log (handle d e p) = wp_log p"
  "wp_stop (handle d e p) = createShutdownHandler (worker_stop d) (wp_stop p) e"
  by (simp_all add: handle_def)

lemma handle_inv:
  assumes inv: "worker_inv w d k p"
    and e: "e = Request signal False \<or> e = WindowPassed \<or> e = DeadlineFires \<or> e = FlushEnds"
  shows "worker_inv w d k (handle d e p)"
proof -
  let ?st = "createShutdownHandler (worker_stop d) (wp_stop p) e"
  have "stop_inv (worker_stop d) ?st" using inv by (simp add: worker_inv_def Shutdown.stop.step_inv)
  moreover have "honest ?st" by (rule honest_step) (use inv e in \<open>auto simp: worker_inv_def\<close>)
  moreover have "linear_at (worker_names d) k ?st"
    using inv e by (auto simp: worker_inv_def linear_timers intro!: linear_request simp: worker_stop_def)
  moreover have "start_at w d k (handle d e p)"
    using inv never_zero_step started_stays [of "wp_stop p"] failed_stays [of "wp_stop p"]
    by (auto simp: worker_inv_def start_at_def split: worker_start.splits)
  ultimately show ?thesis by (simp add: worker_inv_def)
qed

lemma settled_inv:
  assumes inv: "worker_inv w d k p" and closing: "closing (wp_stop p) = Some name"
    and start: "wp_start p \<noteq> Starting"
    and runtime: "wp_start p = Running \<Longrightarrow> runtime_at (wd_handled d) k (wp_runtime p) \<Longrightarrow>
      (\<exists>e. answer = CloseRejected e) \<or> runtime_at (wd_handled d) (Suc k) s"
  shows "worker_inv w d (Suc k) (handle d (Settles 0 answer) (p\<lparr>wp_runtime := s, wp_conn := c\<rparr>))"
proof -
  let ?st = "createShutdownHandler (worker_stop d) (wp_stop p) (Settles 0 answer)"
  have lin: "linear_at (worker_names d) (Suc k) ?st"
    and failed: "sd_failed ?st = (sd_failed (wp_stop p) \<or> (\<exists>e. answer = CloseRejected e))"
    using linear_settles [OF _ closing] inv by (auto simp: worker_inv_def)
  have "stop_inv (worker_stop d) ?st" using inv by (simp add: worker_inv_def Shutdown.stop.step_inv)
  moreover have "honest ?st" by (rule honest_step) (use inv in \<open>auto simp: worker_inv_def\<close>)
  moreover have "start_at w d (Suc k) (handle d (Settles 0 answer) (p\<lparr>wp_runtime := s, wp_conn := c\<rparr>))"
  proof (cases "wp_start p")
    case Running
    with inv runtime failed show ?thesis by (auto simp: worker_inv_def start_at_def)
  next
    case Not_started
    with inv never_zero_step [of "wp_stop p"] started_stays [of "wp_stop p"] show ?thesis
      by (auto simp: worker_inv_def start_at_def)
  qed (use start in simp)
  ultimately show ?thesis using lin by (simp add: worker_inv_def)
qed

lemma closing_name:
  assumes "worker_inv w d k p" and "closing (wp_stop p) = Some name"
  shows "sd_started (wp_stop p)" and "k < length (worker_names d)" and "name = worker_names d ! k"
  using assms linear_closing [of "worker_names d" k "wp_stop p"] by (auto simp: worker_inv_def split: if_splits)

lemma runtime_stage_inv:
  assumes inv: "worker_inv w d k p" and closing: "closing (wp_stop p) = Some name"
    and close: "\<And>s u t. runtime_at (wd_handled d) k s \<Longrightarrow> close s = (Inr u, t) \<Longrightarrow> runtime_at (wd_handled d) (Suc k) t"
  shows "\<exists>k'. worker_inv w d k' (close_of_runtime d (stageOf runtime_of (of_runtime close)) p)"
proof (cases "wp_start p = Starting")
  case True
  with inv show ?thesis by (auto simp: close_of_runtime_def)
next
  case False
  obtain r v where r: "stageOf runtime_of (of_runtime close) (wp_start p, wp_runtime p) = (r, v)"
    by (metis surj_pair)
  have "(\<exists>e. answer_of r = CloseRejected e) \<or> runtime_at (wd_handled d) (Suc k) (snd v)"
    if "wp_start p = Running" "runtime_at (wd_handled d) k (wp_runtime p)"
    using r that close
    by (auto simp: stageOf_def runtime_of_def of_runtime_def answer_of_def split: sum.splits prod.splits)
  from settled_inv [OF inv closing False, of "answer_of r" "snd v" "wp_conn p"] this False r
  show ?thesis by (auto simp: close_of_runtime_def)
qed

definition names_apart :: "('w, 'c) worker_deps \<Rightarrow> bool" where
  "names_apart d \<longleftrightarrow> ''workers'' \<notin> fst ` set (wd_connections d) \<and> ''queues'' \<notin> fst ` set (wd_connections d)"

lemma stage_closes_inv:
  assumes inv: "worker_inv w d k p" and apart: "names_apart d"
  shows "\<exists>k'. worker_inv w d k' (stage_closes d p)"
proof (cases "closing (wp_stop p)")
  case None
  with inv show ?thesis by (auto simp: stage_closes_def)
next
  case (Some name)
  note at = closing_name [OF inv Some]
  consider "k = 0" | "k = 1" | "2 \<le> k" by linarith
  then show ?thesis
  proof cases
    case 1
    then have "name = ''workers''" using at(3) by (simp add: worker_names_def)
    moreover have "runtime_at (wd_handled d) (Suc k) t"
      if "runtime_at (wd_handled d) k s" "closeWorkers (wd_parts d) s = (Inr u, t)" for s u t
      using workers_closed that 1 by auto
    ultimately show ?thesis
      using runtime_stage_inv [OF inv Some, of "closeWorkers (wd_parts d)"] Some
      by (auto simp: stage_closes_def workers_stage_def)
  next
    case 2
    then have "name = ''queues''" using at(3) by (simp add: worker_names_def)
    moreover have "runtime_at (wd_handled d) (Suc k) t"
      if "runtime_at (wd_handled d) k s" "closeQueues (wd_parts d) s = (Inr u, t)" for s u t
      using queues_closed [of "wd_handled d" s "wd_parts d" u t] that 2 by (simp add: numeral_2_eq_2)
    ultimately show ?thesis
      using runtime_stage_inv [OF inv Some, of "closeQueues (wd_parts d)"] Some
      by (auto simp: stage_closes_def queues_stage_def)
  next
    case 3
    then have name: "name \<in> fst ` set (wd_connections d)"
      using at(2,3) by (auto simp: worker_names_def nth_Cons' intro!: nth_mem)
    then obtain close where close: "map_of (wd_connections d) name = Some close"
      by (metis map_of_eq_None_iff not_None_eq)
    have other: "name \<noteq> ''workers''" "name \<noteq> ''queues''" using name apart unfolding names_apart_def by metis+
    have start: "wp_start p \<noteq> Starting" using inv 3 by (auto simp: worker_inv_def start_at_def)
    obtain r c where r: "close (wp_conn p) = (r, c)" by fastforce
    have "stage_closes d p = handle d (Settles 0 (answer_of r)) (p\<lparr>wp_runtime := wp_runtime p, wp_conn := c\<rparr>)"
      using Some close other r by (simp add: stage_closes_def)
    with settled_inv [OF inv Some start, of "answer_of r" "wp_runtime p" c] runtime_at_later [OF _ 3]
    show ?thesis by auto
  qed
qed

lemma start_settles_inv:
  assumes inv: "worker_inv w d k p"
  shows "worker_inv w d k (start_settles d p)"
proof (cases "wp_start p = Starting")
  case False
  with inv show ?thesis by (simp add: start_settles_def)
next
  case True
  then have k: "k = 0" and s: "wp_runtime p = runtime_start w" using inv by (auto simp: worker_inv_def start_at_def)
  obtain r t where r: "startWorkerRuntime (wd_parts d) (wd_concurrency d) (wd_handled d) (runtime_start w) = (r, t)"
    by fastforce
  show ?thesis
  proof (cases r)
    case (Inr u)
    with inv True s r k runtime_started [of "wd_parts d" "wd_concurrency d" "wd_handled d" w u t]
    show ?thesis by (simp add: start_settles_def worker_inv_def start_at_def)
  next
    case (Inl err)
    let ?st = "createShutdownHandler (worker_stop d) (wp_stop p) (Request ''startup failure'' True)"
    have "sd_started (wp_stop p) \<Longrightarrow> sd_current (wp_stop p) \<noteq> []"
      using inv k by (auto simp: worker_inv_def linear_at_def worker_names_def)
    then have "\<not> leaves_with_zero (wp_stop p)"
      using inv by (auto simp: worker_inv_def stop_inv_defs leaves_with_zero_def split: if_splits)
    then have never: "never_zero ?st" by (rule never_zero_request)
    have "stop_inv (worker_stop d) ?st" using inv by (simp add: worker_inv_def Shutdown.stop.step_inv)
    moreover have "linear_at (worker_names d) k ?st"
      using inv by (intro linear_request) (simp_all add: worker_inv_def worker_stop_def)
    ultimately show ?thesis
      using True s r Inl never by (simp add: start_settles_def worker_inv_def start_at_def never_zero_def honest_def)
  qed
qed

lemma bootstrap_inv:
  assumes "worker_inv w d k p" and "names_apart d"
  shows "\<exists>k'. worker_inv w d k' (bootstrap d p e)"
proof (cases "e = Stage_closes")
  case True
  with stage_closes_inv [OF assms] show ?thesis by (simp add: bootstrap_def)
next
  case False
  with assms start_settles_inv have "worker_inv w d k (bootstrap d p e)"
    by (cases e) (auto simp: bootstrap_def intro!: handle_inv)
  then show ?thesis by blast
qed

lemma worker_run_inv:
  assumes "names_apart d"
  shows "\<exists>k. worker_inv w d k (worker_run d w c es)"
proof -
  have "worker_inv w d 0 (worker_process_start w c)"
    using start_inv [of "worker_stop d"]
    by (simp add: worker_inv_def worker_process_start_def honest_def leaves_with_zero_def start_at_def
        linear_at_def) (simp add: shutdown_start_def)
  then have "\<exists>k. worker_inv w d k (foldl (bootstrap d) p es)" if "worker_inv w d k p" for p k
    using that bootstrap_inv [OF _ assms] by (induction es arbitrary: p k) (auto, blast)
  then show ?thesis using \<open>worker_inv w d 0 (worker_process_start w c)\<close> by (simp add: worker_run_def)
qed

section \<open>Properties\<close>

text \<open>
  C4: the code 0 of the worker is the truth about its jobs: whatever signals, failures and timers the
  process meets, in any order, it leaves with 0 only after a start that went through to its end and a
  stop in which every worker of the start was asked to close, then every copy to the dead letter
  queue was waited for, then the queues were closed, with no refusal among them, and only then the
  connections, in their order.
\<close>

theorem worker_leaves_with_zero_only_when_drained:
  assumes "names_apart d" and "p = worker_run d w c es" and "0 \<in> set (sd_exits (wp_stop p))"
  shows "wp_start p = Running \<and> sd_closed (wp_stop p) = worker_names d \<and>
    (\<exists>x ds. rt_calls (wp_runtime p) =
        map (\<lambda>call. (call, None)) (start_plan (wd_handled d)) @ (StopSync, x) #
        map (\<lambda>q. (CloseWorker q, None)) (filter (wd_handled d) QUEUE_NAMES) @ ds @ [(CloseQueues, None)] \<and>
        map fst ds = map DrainWriter (filter (wd_handled d) QUEUE_NAMES))"
proof -
  obtain k where inv: "worker_inv w d k p"
    using worker_run_inv [OF assms(1)] assms(2) by blast
  have zero: "leaves_with_zero (wp_stop p)" using assms(3) by (simp add: leaves_with_zero_def)
  then have clean: "\<not> sd_failed (wp_stop p)" and over: "sd_started (wp_stop p)" "sd_current (wp_stop p) = []"
    using inv by (auto simp: worker_inv_def honest_def stop_inv_defs leaves_with_zero_def split: if_splits)
  then have k: "k = length (worker_names d)" and shut: "sd_closed (wp_stop p) = worker_names d"
    using inv by (auto simp: worker_inv_def linear_at_def split: if_splits)
  then have "2 \<le> k" by (simp add: worker_names_def)
  moreover have "wp_start p = Running"
    using inv zero calculation by (cases "wp_start p") (auto simp: worker_inv_def start_at_def never_zero_def)
  ultimately show ?thesis
    using inv clean shut by (auto simp: worker_inv_def start_at_def runtime_at_def workers_shut_def)
qed

definition quiet_deps :: "(unit, unit) worker_deps" where
  "quiet_deps =
     \<lparr>wd_parts = (\<lambda>_ w. (None, w)), wd_concurrency = 2, wd_handled = (\<lambda>q. q = ''system.smoke''),
      wd_connections = connectionStages
        \<lparr>cr_status = (\<lambda>_. ''ready''), cr_quit = (\<lambda>w. (Inr (), w)), cr_disconnect = (\<lambda>w. w)\<rparr> (\<lambda>w. (Inr (), w)),
      wd_timeoutMs = None\<rparr>"

definition drained_events :: "worker_event list" where
  "drained_events =
     [Start_settles, Signalled ''SIGTERM'', Stage_closes, Stage_closes, Stage_closes, Stage_closes, Flush_over]"

lemma quiet_run: "sd_exits (wp_stop (worker_run quiet_deps () () drained_events)) = [0]"
  by (simp add: drained_events_def worker_run_def worker_process_start_def quiet_deps_def connectionStages_def
      bootstrap_def start_settles_def handle_def stage_closes_def close_of_runtime_def workers_stage_def
      queues_stage_def stageOf_def runtime_of_def of_runtime_def answer_of_def redisStage_def closeRedis_def
      startWorkerRuntime_def startEverything_def io_simps perform_def runtime_start_def runtime_line_def
      closeWorkers_def closeQueues_def stop_sync_def throwRefusals_def closing_def QUEUE_NAMES_def
      worker_stop_def worker_names_def REPEATED_SIGINT_def shutdown_start_def createShutdownHandler_def
      request_stop_def advance_def plan_over_def sequences_def stage_settles_def close_line_def flush_ends_def
      exitOnce_def armRepeatWindow_def line_def Let_def)

theorem worker_leaves_with_zero_only_when_drained_witness:
  "wp_start (worker_run quiet_deps () () drained_events) = Running \<and>
   sd_closed (wp_stop (worker_run quiet_deps () () drained_events)) = [''workers'', ''queues'', ''redis'', ''db'']"
proof -
  have "names_apart quiet_deps" by (simp add: names_apart_def quiet_deps_def connectionStages_def)
  from worker_leaves_with_zero_only_when_drained [OF this refl, of "()" "()" drained_events] quiet_run show ?thesis
    by (simp add: worker_names_def quiet_deps_def connectionStages_def)
qed

text \<open>
  C31: a start that fails always ends the process, and never with 0: in any order with the signals of
  the operator, once the start failed the deadline of the stop and the flush of the log leave one
  exit, with a code that is not 0.
\<close>

theorem failed_start_ends_the_process:
  assumes "names_apart d" and "wp_start (worker_run d w c es) = Not_started"
    and "p = worker_run d w c (es @ Deadline_over # fs @ [Flush_over])"
  shows "length (sd_exits (wp_stop p)) = 1 \<and> 0 \<notin> set (sd_exits (wp_stop p))"
proof -
  let ?q = "worker_run d w c es"
  let ?r = "foldl (bootstrap d) (bootstrap d ?q Deadline_over) fs"
  have p: "p = handle d FlushEnds ?r" using assms(3) by (simp add: worker_run_def bootstrap_def)
  have stay: "wp_start (foldl (bootstrap d) q gs) = Not_started \<and>
      (sd_exited (wp_stop q) \<longrightarrow> sd_exited (wp_stop (foldl (bootstrap d) q gs)))"
    if "wp_start q = Not_started" for q gs
    using that
  proof (induction gs arbitrary: q)
    case (Cons e gs)
    have "wp_start (bootstrap d q e) = Not_started \<and> (sd_exited (wp_stop q) \<longrightarrow> sd_exited (wp_stop (bootstrap d q e)))"
      using Cons.prems exited_step
      by (cases e) (auto simp: bootstrap_def start_settles_def stage_closes_def close_of_runtime_def
          split: option.splits prod.splits)
    with Cons.IH [of "bootstrap d q e"] show ?case by auto
  qed simp
  obtain k where inv: "worker_inv w d k ?q" using worker_run_inv [OF assms(1)] by blast
  have "sd_exited (wp_stop (bootstrap d ?q Deadline_over))"
    using inv assms(2) by (simp add: bootstrap_def worker_inv_def start_at_def deadline_decides)
  moreover have "wp_start (bootstrap d ?q Deadline_over) = Not_started"
    using assms(2) by (simp add: bootstrap_def)
  ultimately have exited: "sd_exited (wp_stop ?r)" and start: "wp_start ?r = Not_started"
    using stay by auto
  obtain j where r: "worker_inv w d j (worker_run d w c (es @ Deadline_over # fs))"
    using worker_run_inv [OF assms(1)] by blast
  then have r: "worker_inv w d j ?r" by (simp add: worker_run_def)
  obtain i where "worker_inv w d i p" using worker_run_inv [OF assms(1)] assms(3) by blast
  moreover have "wp_start p = Not_started" using start p by simp
  ultimately have "0 \<notin> set (sd_exits (wp_stop p))"
    by (auto simp: worker_inv_def start_at_def never_zero_def leaves_with_zero_def)
  moreover have "length (sd_exits (wp_stop p)) = 1"
    using flush_leaves [of "worker_stop d" "wp_stop ?r"] r exited p by (simp add: worker_inv_def)
  ultimately show ?thesis by simp
qed

definition refusing_deps :: "(unit, unit) worker_deps" where
  "refusing_deps = quiet_deps\<lparr>wd_parts := (\<lambda>call w. (if call = SyncSchedules then Some (plain_error ''no redis'') else None, w))\<rparr>"

theorem failed_start_ends_the_process_witness:
  "0 \<notin> set (sd_exits (wp_stop (worker_run refusing_deps () () [Start_settles, Deadline_over, Flush_over])))"
proof -
  have "wp_start (worker_run refusing_deps () () [Start_settles]) = Not_started" by code_simp
  moreover have "names_apart refusing_deps"
    by (simp add: names_apart_def refusing_deps_def quiet_deps_def connectionStages_def)
  ultimately show ?thesis
    using failed_start_ends_the_process [where d = refusing_deps and es = "[Start_settles]" and fs = "[]" and w = "()" and c = "()"]
    by simp
qed

end
