(* ===== verification/Api_Process.thy ===== *)
theory Api_Process
  imports Stop_Driver "HOL-Library.Sublist"
begin

text \<open>
  The api as a process (\<open>apps/api/src/compose-app.ts\<close>, \<open>server.ts\<close>): its connections are opened one
  after the other under a stop that already listens, then the socket is opened; signals, a port that
  is taken, closes that settle and the timers of the stop come in any order after that.  The compose
  is synchronous, so no event comes between its steps.  A close is taken at the moment it settles;
  the two branches that run side by side close objects that do not share a connection until the
  queues are closed.
\<close>

section \<open>The parts and their stop\<close>

definition API_SHUTDOWN_TIMEOUT_MS :: nat where
  "API_SHUTDOWN_TIMEOUT_MS = 10000"

datatype api_part = Probe_dbs | Request_redis | Queue_stats | The_app

text \<open>The order they are opened in, and the name each is closed under.\<close>

definition opening_order :: "api_part list" where
  "opening_order = [Probe_dbs, Request_redis, Queue_stats, The_app]"

fun part_name :: "api_part \<Rightarrow> string" where
  "part_name Probe_dbs = ''db''"
| "part_name Request_redis = ''redis''"
| "part_name Queue_stats = ''queues''"
| "part_name The_app = ''app''"

definition part_of :: "string \<Rightarrow> api_part" where
  "part_of name =
     (if name = ''app'' then The_app else if name = ''db'' then Probe_dbs
      else if name = ''queues'' then Queue_stats else Request_redis)"

definition api_stop :: shutdown_options where
  "api_stop =
     \<lparr>so_plan = [Stage ''app'', Parallel [[''db''], [''queues'', ''redis'']]],
      so_startedMessage = ''shutdown started'', so_repeatedSigint = LogOnly,
      so_timeoutMs = API_SHUTDOWN_TIMEOUT_MS\<rparr>"

section \<open>State\<close>

text \<open>
  What became of the compose: an app, a failure its stop took over, or an error thrown before there
  was a stop.
\<close>

datatype compose_result = Composed | ComposeFailure thrown | Threw_before thrown

text \<open>
  The parts opened, the closes made with what each threw, the call of \<open>listen\<close> still unanswered, and
  the code set for a process that ends on its own.
\<close>

record 'w api_process =
  ap_start :: compose_result
  ap_opened :: "api_part list"
  ap_closes :: "(api_part \<times> thrown option) list"
  ap_listening :: bool
  ap_exitCode :: "nat option"
  ap_stop :: shutdown
  ap_log :: "log_line list"
  ap_world :: 'w

record 'w api_deps =
  ad_open :: "api_part \<Rightarrow> ('w, thrown, unit) io"
  ad_close :: "api_part \<Rightarrow> ('w, thrown, unit) io"
  ad_redis :: "'w closable_redis"
  ad_rejectedBuildLabels :: "string list"

definition api_line :: "log_level \<Rightarrow> log_fields \<Rightarrow> string \<Rightarrow> 'w api_process \<Rightarrow> 'w api_process" where
  "api_line level fs message p =
     p\<lparr>ap_log := ap_log p @ [\<lparr>ll_level = level, ll_fields = fs, ll_message = message\<rparr>]\<rparr>"

definition api_handle :: "shutdown_event \<Rightarrow> 'w api_process \<Rightarrow> 'w api_process" where
  "api_handle e p = p\<lparr>ap_stop := createShutdownHandler api_stop (ap_stop p) e\<rparr>"

section \<open>The compose\<close>

fun open_parts :: "'w api_deps \<Rightarrow> api_part list \<Rightarrow> 'w api_process \<Rightarrow> thrown option \<times> 'w api_process" where
  "open_parts d [] p = (None, p)"
| "open_parts d (part # parts) p =
     (case ad_open d part (ap_world p) of
        (Inl err, w) \<Rightarrow> (Some err, p\<lparr>ap_world := w\<rparr>)
      | (Inr _, w) \<Rightarrow> open_parts d parts (p\<lparr>ap_world := w, ap_opened := ap_opened p @ [part]\<rparr>))"

definition ignored_labels :: "string list \<Rightarrow> 'w api_process \<Rightarrow> 'w api_process" where
  "ignored_labels labels p =
     fold (\<lambda>variable. api_line Warn [(''variable'', LVal (Str variable))] ''build label ignored'') labels p"

definition composeApp :: "'w api_deps \<Rightarrow> 'w api_process \<Rightarrow> 'w api_process" where
  "composeApp d p =
     (case open_parts d opening_order (ignored_labels (ad_rejectedBuildLabels d) p) of
        (None, s) \<Rightarrow> s\<lparr>ap_start := Composed\<rparr>
      | (Some err, s) \<Rightarrow>
          api_handle (Request ''startup failure'' True)
            (api_line FatalLevel [(''err'', LErr err)] ''api failed to start'' (s\<lparr>ap_start := ComposeFailure err\<rparr>)))"

text \<open>
  \<open>composeOrFail\<close>: an error from before the stop existed (\<open>early\<close>) is written here and gives the
  process its code; a \<open>ComposeFailure\<close> was written by the compose, and its stop exits.
\<close>

definition composeOrFail :: "thrown option \<Rightarrow> 'w api_deps \<Rightarrow> 'w api_process \<Rightarrow> 'w api_process" where
  "composeOrFail early d p =
     (case early of
        None \<Rightarrow> composeApp d p
      | Some err \<Rightarrow>
          (api_line FatalLevel [(''err'', LErr err)] ''api failed to start'' p)
            \<lparr>ap_start := Threw_before err, ap_exitCode := Some 1\<rparr>)"

text \<open>The entry point: an app that was composed is asked to listen.\<close>

definition api_process_start :: "thrown option \<Rightarrow> 'w api_deps \<Rightarrow> 'w \<Rightarrow> 'w api_process" where
  "api_process_start early d w =
     (let p = composeOrFail early d
            \<lparr>ap_start = Composed, ap_opened = [], ap_closes = [], ap_listening = False, ap_exitCode = None,
             ap_stop = shutdown_start, ap_log = [], ap_world = w\<rparr>
      in if ap_start p = Composed then p\<lparr>ap_listening := True\<rparr> else p)"

section \<open>Steps\<close>

definition close_call :: "'w api_deps \<Rightarrow> api_part \<Rightarrow> ('w, thrown, close_answer) io" where
  "close_call d part =
     (if part = Request_redis then redisStage (\<lambda>_. Some (ad_redis d))
      else io_bind (ad_close d part) (\<lambda>_. io_return ClosedOther))"

definition opened_part :: "api_part \<Rightarrow> 'w api_process \<Rightarrow> unit option" where
  "opened_part part p = (if part \<in> set (ap_opened p) then Some () else None)"

text \<open>The stage of one part: nothing to close where the compose did not reach it.\<close>

definition part_stage :: "'w api_deps \<Rightarrow> api_part \<Rightarrow> ('w api_process, thrown, close_answer) io" where
  "part_stage d part =
     stageOf (opened_part part) (\<lambda>_ p.
       case close_call d part (ap_world p) of
         (r, w) \<Rightarrow>
           (r, p\<lparr>ap_world := w,
                 ap_closes := ap_closes p @ [(part, case r of Inl e \<Rightarrow> Some e | Inr _ \<Rightarrow> None)]\<rparr>))"

definition part_closes :: "'w api_deps \<Rightarrow> nat \<Rightarrow> 'w api_process \<Rightarrow> 'w api_process" where
  "part_closes d i p =
     (if i < length (sd_current (ap_stop p)) then
        (case sd_current (ap_stop p) ! i of
           [] \<Rightarrow> p
         | name # _ \<Rightarrow>
             (case part_stage d (part_of name) p of (r, q) \<Rightarrow> api_handle (Settles i (answer_of r)) q))
      else p)"

definition listen_fails :: "thrown \<Rightarrow> 'w api_process \<Rightarrow> 'w api_process" where
  "listen_fails err p =
     (if ap_listening p then
        api_handle (Request ''listen failure'' True)
          (api_line ErrorLevel [(''err'', LErr err)] ''failed to start the api'' (p\<lparr>ap_listening := False\<rparr>))
      else p)"

datatype api_event = Api_signal string | Listen_fails thrown | Part_closes nat | Api_deadline | Api_flush

text \<open>A process whose compose threw before its stop existed handles no signal and has no timer.\<close>

definition api_server :: "'w api_deps \<Rightarrow> 'w api_process \<Rightarrow> api_event \<Rightarrow> 'w api_process" where
  "api_server d p e =
     (case ap_start p of
        Threw_before _ \<Rightarrow> p
      | _ \<Rightarrow>
          (case e of
             Api_signal signal \<Rightarrow> api_handle (Request signal False) p
           | Listen_fails err \<Rightarrow> listen_fails err p
           | Part_closes i \<Rightarrow> part_closes d i p
           | Api_deadline \<Rightarrow> api_handle DeadlineFires p
           | Api_flush \<Rightarrow> api_handle FlushEnds p))"

definition api_run :: "thrown option \<Rightarrow> 'w api_deps \<Rightarrow> 'w \<Rightarrow> api_event list \<Rightarrow> 'w api_process" where
  "api_run early d w es = foldl (api_server d) (api_process_start early d w) es"

section \<open>The build fingerprint\<close>

definition or_null :: "string option \<Rightarrow> json" where
  "or_null v = (case v of Some s \<Rightarrow> Str s | None \<Rightarrow> Null)"

definition buildInfoFrom :: "string option \<Rightarrow> string option \<Rightarrow> json" where
  "buildInfoFrom version commit = Obj [(''version'', or_null version), (''commit'', or_null commit)]"

section \<open>Where the stop stands\<close>

text \<open>The sequences being closed, the steps after them, and the parts settled so far.\<close>

inductive position :: "'a \<Rightarrow> 'a \<Rightarrow> 'a \<Rightarrow> 'a \<Rightarrow> 's \<Rightarrow> 'a list list \<Rightarrow> 's list \<Rightarrow> 'a list \<Rightarrow> bool"
  for a b q r :: 'a and side :: 's where
  first: "position a b q r side [[a]] [side] []"
| branches: "position a b q r side [[b], [q, r]] [] [a]"
| queues_left: "position a b q r side [[q, r]] [] [a, b]"
| one_each: "position a b q r side [[b], [r]] [] [a, q]"
| db_queues: "position a b q r side [[r]] [] [a, b, q]"
| queues_db: "position a b q r side [[r]] [] [a, q, b]"
| db_left: "position a b q r side [[b]] [] [a, q, r]"
| over: "shut \<in> set [[a, b, q, r], [a, q, b, r], [a, q, r, b]] \<Longrightarrow> position a b q r side [] [] shut"

lemma position_settles:
  assumes "position a b q r (Parallel [[b], [q, r]]) current rest shut"
    and "i < length current" and "current ! i = n # ns"
    and "next_step (current[i := ns]) rest = (current', rest')"
  shows "position a b q r (Parallel [[b], [q, r]]) current' rest' (shut @ [n])"
  using assms
proof (cases rule: position.cases)
  case first
  with assms show ?thesis by (auto simp: sequences_def intro: position.branches)
next
  case branches
  with assms consider "i = 0" | "i = 1" by (cases i) auto
  then show ?thesis using branches assms by cases (auto intro: position.queues_left position.one_each)
next
  case queues_left
  with assms show ?thesis by (auto intro: position.db_queues)
next
  case one_each
  with assms consider "i = 0" | "i = 1" by (cases i) auto
  then show ?thesis using one_each assms by cases (auto intro: position.queues_db position.db_left)
next
  case db_queues
  with assms show ?thesis by (auto intro: position.over)
next
  case queues_db
  with assms show ?thesis by (auto intro: position.over)
next
  case db_left
  with assms show ?thesis by (auto intro: position.over)
next
  case over
  with assms show ?thesis by simp
qed
abbreviation api_position :: "string list list \<Rightarrow> shutdown_step list \<Rightarrow> string list \<Rightarrow> bool" where
  "api_position \<equiv> position ''app'' ''db'' ''queues'' ''redis'' (Parallel [[''db''], [''queues'', ''redis'']])"

definition api_at :: "shutdown \<Rightarrow> bool" where
  "api_at st \<longleftrightarrow>
     (if sd_started st then api_position (sd_current st) (sd_rest st) (sd_closed st)
      else sd_current st = [] \<and> sd_closed st = [])"

lemma advance_fields:
  assumes "next_step (sd_current st) (sd_rest st) = (cur, rest)"
  shows "sd_current (advance st) = cur" "sd_rest (advance st) = rest" "sd_closed (advance st) = sd_closed st"
    "sd_started (advance st) = sd_started st" "sd_failed (advance st) = sd_failed st"
  using assms by (simp_all add: advance_def)

lemma close_line_fields [simp]:
  "sd_current (close_line n a st) = sd_current st" "sd_rest (close_line n a st) = sd_rest st"
  "sd_closed (close_line n a st) = sd_closed st" "sd_started (close_line n a st) = sd_started st"
  "sd_failed (close_line n a st) = (sd_failed st \<or> (\<exists>e. a = CloseRejected e))"
  "leaves_with_zero (close_line n a st) = leaves_with_zero st"
  by (auto simp: close_line_def leaves_with_zero_def Let_def split: close_answer.splits option.splits)

lemma api_at_settles:
  assumes "api_at st" and "i < length (sd_current st)" and "sd_current st ! i = name # q"
  shows "api_at (createShutdownHandler api_stop st (Settles i answer))"
    and "sd_closed (createShutdownHandler api_stop st (Settles i answer)) = sd_closed st @ [name]"
    and "sd_failed (createShutdownHandler api_stop st (Settles i answer)) =
      (sd_failed st \<or> (\<exists>e. answer = CloseRejected e))"
proof -
  let ?t = "(close_line name answer st)\<lparr>sd_current := (sd_current st)[i := q], sd_closed := sd_closed st @ [name]\<rparr>"
  have t: "createShutdownHandler api_stop st (Settles i answer) = advance ?t"
    using assms(2,3) by (simp add: createShutdownHandler_def stage_settles_def)
  obtain cur rest where nxt: "next_step (sd_current ?t) (sd_rest ?t) = (cur, rest)" by (metis surj_pair)
  note f = advance_fields [OF nxt]
  show "sd_closed (createShutdownHandler api_stop st (Settles i answer)) = sd_closed st @ [name]"
    "sd_failed (createShutdownHandler api_stop st (Settles i answer)) = (sd_failed st \<or> (\<exists>e. answer = CloseRejected e))"
    using f by (simp_all add: t)
  have started: "sd_started st" using assms(1,2) by (auto simp: api_at_def split: if_splits)
  have "api_position (sd_current st) (sd_rest st) (sd_closed st)" using assms(1) started by (simp add: api_at_def)
  from position_settles [OF this assms(2,3)] nxt have "api_position cur rest (sd_closed st @ [name])" by simp
  then show "api_at (createShutdownHandler api_stop st (Settles i answer))"
    using f started by (simp add: t api_at_def)
qed

lemma api_first_step: "next_step [] (so_plan api_stop) = ([[''app'']], [Parallel [[''db''], [''queues'', ''redis'']]])"
  by (simp add: api_stop_def sequences_def)

definition not_settles :: "shutdown_event \<Rightarrow> bool" where
  "not_settles e \<longleftrightarrow> (\<forall>i answer. e \<noteq> Settles i answer)"

lemma first_request:
  assumes "\<not> sd_started st"
  shows "\<exists>u. createShutdownHandler api_stop st (Request signal failed) = advance u \<and> sd_current u = [] \<and>
    sd_rest u = so_plan api_stop \<and> sd_started u \<and> sd_closed u = sd_closed st \<and>
    leaves_with_zero u = leaves_with_zero st \<and> sd_failed u = (sd_failed st \<or> failed)"
  using assms
  by (auto simp: createShutdownHandler_def request_stop_def Let_def api_stop_def leaves_with_zero_def line_def)

lemma repeated_request:
  assumes "sd_started st"
  shows "\<exists>u. createShutdownHandler api_stop st (Request signal failed) = u \<and> sd_current u = sd_current st \<and>
    sd_rest u = sd_rest st \<and> sd_started u \<and> sd_closed u = sd_closed st \<and>
    leaves_with_zero u = leaves_with_zero st \<and> sd_failed u = (sd_failed st \<or> failed)"
  using assms
  by (auto simp: createShutdownHandler_def request_stop_def Let_def api_stop_def leaves_with_zero_def line_def)

lemma not_settles_step:
  assumes inv: "stop_inv api_stop st" and at: "api_at st" and e: "not_settles e"
  shows "api_at (createShutdownHandler api_stop st e)"
    and "sd_closed (createShutdownHandler api_stop st e) = sd_closed st"
    and "leaves_with_zero (createShutdownHandler api_stop st e) = leaves_with_zero st"
    and "sd_failed (createShutdownHandler api_stop st e) = (sd_failed st \<or> (\<exists>signal. e = Request signal True))"
proof -
  let ?st = "createShutdownHandler api_stop st e"
  have "api_at ?st \<and> sd_closed ?st = sd_closed st \<and> leaves_with_zero ?st = leaves_with_zero st \<and>
      sd_failed ?st = (sd_failed st \<or> (\<exists>signal. e = Request signal True))"
  proof (cases e)
    case (Request signal failed)
    show ?thesis
    proof (cases "sd_started st")
      case True
      with repeated_request [of st signal failed] at Request show ?thesis by (auto simp: api_at_def)
    next
      case False
      obtain u where u: "?st = advance u" "sd_current u = []" "sd_rest u = so_plan api_stop" "sd_started u"
        "sd_closed u = sd_closed st" "leaves_with_zero u = leaves_with_zero st" "sd_failed u = (sd_failed st \<or> failed)"
        using first_request [OF False, of signal failed] Request by auto
      have "leaves_with_zero (advance u) = leaves_with_zero u"
        using u(2,3) api_first_step by (simp add: advance_def plan_over_def leaves_with_zero_def)
      moreover have "api_at (advance u)"
        using u at False api_first_step advance_fields [of u]
          by (simp add: api_at_def position.first)
      ultimately show ?thesis
        using u Request api_first_step advance_fields [of u] by (auto simp add: u(1))
    qed
  qed (use inv at e in \<open>auto simp: not_settles_def createShutdownHandler_def deadline_fires_def flush_ends_def exitOnce_def
    api_at_def leaves_with_zero_def stop_inv_def exit_inv_def Let_def split: option.splits if_splits\<close>)
  then show "api_at ?st" "sd_closed ?st = sd_closed st" "leaves_with_zero ?st = leaves_with_zero st"
    "sd_failed ?st = (sd_failed st \<or> (\<exists>signal. e = Request signal True))" by auto
qed

section \<open>What the process knows\<close>

text \<open>The three orders a whole stop closes the parts in.\<close>

definition closing_orders :: "api_part list list" where
  "closing_orders =
     [[The_app, Probe_dbs, Queue_stats, Request_redis],
      [The_app, Queue_stats, Probe_dbs, Request_redis],
      [The_app, Queue_stats, Request_redis, Probe_dbs]]"

lemma part_of_names [simp]:
  "part_of ''app'' = The_app" "part_of ''db'' = Probe_dbs" "part_of ''queues'' = Queue_stats"
  "part_of ''redis'' = Request_redis"
  by (simp_all add: part_of_def)

lemma position_prefix:
  assumes "position a b q r side current rest shut"
  shows "(current = [] \<longrightarrow> shut \<in> set [[a, b, q, r], [a, q, b, r], [a, q, r, b]]) \<and>
    (\<exists>whole \<in> set [[a, b, q, r], [a, q, b, r], [a, q, r, b]]. prefix shut whole)"
  using assms by (cases rule: position.cases) auto

lemma api_at_shut:
  assumes "api_at st"
  shows "\<exists>whole \<in> set closing_orders. prefix (map part_of (sd_closed st)) whole"
    and "sd_started st \<Longrightarrow> sd_current st = [] \<Longrightarrow> map part_of (sd_closed st) \<in> set closing_orders"
proof -
  show "\<exists>whole \<in> set closing_orders. prefix (map part_of (sd_closed st)) whole"
  proof (cases "sd_started st")
    case True
    with assms have "api_position (sd_current st) (sd_rest st) (sd_closed st)" by (simp add: api_at_def)
    from position_prefix [OF this] obtain whole where
      "whole \<in> set [[''app'', ''db'', ''queues'', ''redis''], [''app'', ''queues'', ''db'', ''redis''],
         [''app'', ''queues'', ''redis'', ''db'']]" "prefix (sd_closed st) whole" by blast
    then have "prefix (map part_of (sd_closed st)) (map part_of whole)" "map part_of whole \<in> set closing_orders"
      by (auto simp: map_mono_prefix closing_orders_def)
    then show ?thesis by blast
  next
    case False
    with assms have "prefix (map part_of (sd_closed st)) (hd closing_orders)" by (simp add: api_at_def)
    moreover have "hd closing_orders \<in> set closing_orders" by (simp add: closing_orders_def)
    ultimately show ?thesis by blast
  qed
  assume "sd_started st" "sd_current st = []"
  with assms position_prefix [of _ _ _ _ _ "sd_current st" "sd_rest st" "sd_closed st"]
  have "sd_closed st \<in> set [[''app'', ''db'', ''queues'', ''redis''], [''app'', ''queues'', ''db'', ''redis''],
         [''app'', ''queues'', ''redis'', ''db'']]"
    unfolding api_at_def by metis
  then show "map part_of (sd_closed st) \<in> set closing_orders" by (auto simp: closing_orders_def)
qed

definition unrefused :: "(api_part \<times> thrown option) list \<Rightarrow> bool" where
  "unrefused cs \<longleftrightarrow> (\<forall>c \<in> set cs. snd c = None)"

lemma unrefused_closes: "unrefused cs \<Longrightarrow> cs = map (\<lambda>x. (x, None)) (map fst cs)"
  by (induction cs) (auto simp: unrefused_def)

definition api_inv :: "'w api_process \<Rightarrow> bool" where
  "api_inv p \<longleftrightarrow>
     stop_inv api_stop (ap_stop p) \<and> api_at (ap_stop p) \<and>
     map fst (ap_closes p) = filter (\<lambda>x. x \<in> set (ap_opened p)) (map part_of (sd_closed (ap_stop p))) \<and>
     (\<not> sd_failed (ap_stop p) \<longrightarrow> unrefused (ap_closes p)) \<and>
     (case ap_start p of
        Composed \<Rightarrow> ap_opened p = opening_order \<and> (leaves_with_zero (ap_stop p) \<longrightarrow> unrefused (ap_closes p))
      | ComposeFailure _ \<Rightarrow> never_zero (ap_stop p)
      | Threw_before _ \<Rightarrow> ap_stop p = shutdown_start)"

lemma api_handle_simps [simp]:
  "ap_start (api_handle e p) = ap_start p" "ap_opened (api_handle e p) = ap_opened p"
  "ap_closes (api_handle e p) = ap_closes p" "ap_listening (api_handle e p) = ap_listening p"
  "ap_stop (api_handle e p) = createShutdownHandler api_stop (ap_stop p) e"
  by (simp_all add: api_handle_def)

lemma api_line_simps [simp]:
  "ap_start (api_line l f m p) = ap_start p" "ap_opened (api_line l f m p) = ap_opened p"
  "ap_closes (api_line l f m p) = ap_closes p" "ap_stop (api_line l f m p) = ap_stop p"
  "ap_world (api_line l f m p) = ap_world p"
  by (simp_all add: api_line_def)

lemma api_inv_stop:
  "api_inv p \<Longrightarrow> stop_inv api_stop (ap_stop p)" "api_inv p \<Longrightarrow> api_at (ap_stop p)"
  by (simp_all add: api_inv_def)

lemma handled_inv:
  assumes inv: "api_inv p" and e: "not_settles e" and start: "\<And>err. ap_start p \<noteq> Threw_before err"
  shows "api_inv (api_handle e p)"
proof -
  note step = not_settles_step [OF api_inv_stop [OF inv] e]
  have "never_zero (ap_stop p) \<Longrightarrow> never_zero (createShutdownHandler api_stop (ap_stop p) e)"
    by (rule never_zero_step)
  with inv step start show ?thesis
    by (auto simp: api_inv_def Shutdown.stop.step_inv split: compose_result.splits)
qed

lemma part_closes_inv:
  assumes inv: "api_inv p" and start: "\<And>err. ap_start p \<noteq> Threw_before err"
  shows "api_inv (part_closes d i p)"
proof (cases "i < length (sd_current (ap_stop p)) \<and> sd_current (ap_stop p) ! i \<noteq> []")
  case False
  with inv show ?thesis by (auto simp: part_closes_def split: list.splits)
next
  case True
  then obtain name q where i: "i < length (sd_current (ap_stop p))" and name: "sd_current (ap_stop p) ! i = name # q"
    by (cases "sd_current (ap_stop p) ! i") auto
  obtain r p' where r: "part_stage d (part_of name) p = (r, p')" by (metis surj_pair)
  let ?st = "createShutdownHandler api_stop (ap_stop p) (Settles i (answer_of r))"
  have run: "part_closes d i p = api_handle (Settles i (answer_of r)) p'"
    using i name r by (simp add: part_closes_def)
  have same: "ap_start p' = ap_start p" "ap_opened p' = ap_opened p" "ap_stop p' = ap_stop p"
    and closes: "ap_closes p' = (if part_of name \<in> set (ap_opened p)
      then ap_closes p @ [(part_of name, case r of Inl e \<Rightarrow> Some e | Inr _ \<Rightarrow> None)] else ap_closes p)"
    using r by (auto simp: part_stage_def stageOf_def opened_part_def split: if_splits prod.splits)
  note step = api_at_settles [OF api_inv_stop(2) [OF inv] i name, of "answer_of r"]
  have unref: "unrefused (ap_closes p')" if "\<not> sd_failed ?st"
    using inv that step(3) closes by (auto simp: api_inv_def unrefused_def answer_of_def split: sum.splits)
  have zero: "\<not> sd_failed ?st" if "leaves_with_zero ?st"
  proof -
    have "\<not> leaves_with_zero (ap_stop p)"
      using i api_inv_stop(1) [OF inv] by (auto simp: stop_inv_defs leaves_with_zero_def split: if_splits)
    then have "honest (ap_stop p)" by (simp add: honest_def)
    then have "honest ?st" by (rule honest_step [OF api_inv_stop(1) [OF inv]]) simp
    with that show ?thesis by (simp add: honest_def)
  qed
  have "never_zero (ap_stop p) \<Longrightarrow> never_zero ?st" by (rule never_zero_step)
  moreover have "map fst (ap_closes p') = filter (\<lambda>x. x \<in> set (ap_opened p)) (map part_of (sd_closed ?st))"
    using inv step(2) closes by (simp add: api_inv_def)
  ultimately show ?thesis
    using inv step(1) unref zero same start api_inv_stop(1) [OF inv]
    by (auto simp: run api_inv_def Shutdown.stop.step_inv split: compose_result.splits)
qed

lemma listen_fails_inv:
  assumes "api_inv p" and "\<And>err. ap_start p \<noteq> Threw_before err"
  shows "api_inv (listen_fails err p)"
proof -
  let ?q = "api_line ErrorLevel [(''err'', LErr err)] ''failed to start the api'' (p\<lparr>ap_listening := False\<rparr>)"
  have "api_inv ?q" using assms(1) by (simp add: api_inv_def split: compose_result.splits)
  then have "api_inv (api_handle (Request ''listen failure'' True) ?q)"
    by (rule handled_inv) (use assms(2) in \<open>simp_all add: not_settles_def\<close>)
  with assms(1) show ?thesis by (simp add: listen_fails_def)
qed

lemma api_server_inv: "api_inv p \<Longrightarrow> api_inv (api_server d p e)"
  by (cases e; cases "ap_start p")
    (simp_all add: api_server_def handled_inv part_closes_inv listen_fails_inv not_settles_def)

section \<open>The start\<close>

lemma open_parts_ok:
  "open_parts d parts p = (r, q) \<Longrightarrow>
     (r = None \<longrightarrow> ap_opened q = ap_opened p @ parts) \<and>
     ap_start q = ap_start p \<and> ap_closes q = ap_closes p \<and> ap_stop q = ap_stop p"
proof (induction parts arbitrary: p)
  case (Cons part parts)
  obtain a w where a: "ad_open d part (ap_world p) = (a, w)" by (metis surj_pair)
  show ?case
  proof (cases a)
    case (Inl err)
    with Cons.prems a show ?thesis by auto
  next
    case (Inr u)
    from Cons.IH [of "p\<lparr>ap_world := w, ap_opened := ap_opened p @ [part]\<rparr>"] Cons.prems a Inr show ?thesis by auto
  qed
qed simp

lemma ignored_labels_simps [simp]:
  "ap_start (ignored_labels ls p) = ap_start p" "ap_opened (ignored_labels ls p) = ap_opened p"
  "ap_closes (ignored_labels ls p) = ap_closes p" "ap_stop (ignored_labels ls p) = ap_stop p"
proof (induction ls arbitrary: p)
  case (Cons v ls)
  case 1 show ?case using Cons.IH(1) by (simp add: ignored_labels_def)
  case 2 show ?case using Cons.IH(2) by (simp add: ignored_labels_def)
  case 3 show ?case using Cons.IH(3) by (simp add: ignored_labels_def)
  case 4 show ?case using Cons.IH(4) by (simp add: ignored_labels_def)
qed (simp_all add: ignored_labels_def)

lemma composeApp_inv:
  assumes "ap_opened p = []" and "ap_closes p = []" and "ap_stop p = shutdown_start"
  shows "api_inv (composeApp d p)"
proof -
  obtain r q where r: "open_parts d opening_order (ignored_labels (ad_rejectedBuildLabels d) p) = (r, q)"
    by (metis surj_pair)
  from open_parts_ok [OF r] assms have q: "ap_closes q = []" "ap_stop q = shutdown_start"
    "r = None \<Longrightarrow> ap_opened q = opening_order" by auto
  have start: "stop_inv api_stop shutdown_start" "api_at shutdown_start" "sd_closed shutdown_start = []"
    "\<not> leaves_with_zero shutdown_start"
    by (simp add: start_inv) (simp_all add: api_at_def leaves_with_zero_def shutdown_start_def)
  have req: "not_settles (Request ''startup failure'' True)" by (simp add: not_settles_def)
  note step = not_settles_step [OF start(1,2) req]
  show ?thesis
  proof (cases r)
    case None
    with r q start show ?thesis by (simp add: composeApp_def api_inv_def unrefused_def)
  next
    case (Some err)
    with r q start step never_zero_request [OF start(4)] show ?thesis
      by (simp add: composeApp_def api_inv_def unrefused_def Shutdown.stop.step_inv)
  qed
qed

lemma api_process_start_inv: "api_inv (api_process_start early d w)"
proof -
  let ?p = "\<lparr>ap_start = Composed, ap_opened = [], ap_closes = [], ap_listening = False, ap_exitCode = None,
             ap_stop = shutdown_start, ap_log = [], ap_world = w\<rparr>"
  have "api_inv (composeOrFail early d ?p)"
  proof (cases early)
    case None
    then show ?thesis by (simp add: composeOrFail_def composeApp_inv)
  next
    case (Some err)
    then show ?thesis
      by (simp add: composeOrFail_def api_inv_def unrefused_def start_inv api_at_def) (simp add: shutdown_start_def)
  qed
  then show ?thesis by (auto simp: api_process_start_def Let_def api_inv_def split: compose_result.splits)
qed

lemma api_run_inv: "api_inv (api_run early d w es)"
  unfolding api_run_def by (rule foldl_stays [where Q = api_inv, OF api_server_inv api_process_start_inv])

section \<open>Properties\<close>

text \<open>
  C8: the stop of the api closes what its compose opened and nothing else, each part at most once
  and in an order that keeps every part its users need: the app first, the queue objects before the
  Redis client they read through; and the process leaves with 0 only when the compose succeeded and
  all four parts were closed without a refusal - never after a compose that failed.
\<close>

theorem api_stop_closes_what_was_opened:
  "let p = api_run early d w es in
     (\<exists>whole \<in> set closing_orders.
        prefix (map fst (ap_closes p)) (filter (\<lambda>x. x \<in> set (ap_opened p)) whole)) \<and>
     (0 \<in> set (sd_exits (ap_stop p)) \<longrightarrow>
        ap_start p = Composed \<and> ap_closes p \<in> set (map (map (\<lambda>x. (x, None))) closing_orders))"
proof -
  define p where "p = api_run early d w es"
  have inv: "api_inv p" unfolding p_def by (rule api_run_inv)
  obtain whole where whole: "whole \<in> set closing_orders" "prefix (map part_of (sd_closed (ap_stop p))) whole"
    using api_at_shut(1) [OF api_inv_stop(2) [OF inv]] by blast
  then have "prefix (map fst (ap_closes p)) (filter (\<lambda>x. x \<in> set (ap_opened p)) whole)"
    using inv by (auto simp: api_inv_def filter_mono_prefix)
  moreover have "ap_start p = Composed \<and> ap_closes p \<in> set (map (map (\<lambda>x. (x, None))) closing_orders)"
    if "0 \<in> set (sd_exits (ap_stop p))"
  proof -
    have zero: "leaves_with_zero (ap_stop p)" using that by (simp add: leaves_with_zero_def)
    then have over: "sd_started (ap_stop p)" "sd_current (ap_stop p) = []"
      using api_inv_stop(1) [OF inv] by (auto simp: stop_inv_defs leaves_with_zero_def split: if_splits)
    have start: "ap_start p = Composed"
      using inv zero over(1) by (cases "ap_start p") (auto simp: api_inv_def never_zero_def shutdown_start_def)
    have full: "map part_of (sd_closed (ap_stop p)) \<in> set closing_orders"
      by (rule api_at_shut(2) [OF api_inv_stop(2) [OF inv] over])
    have "filter (\<lambda>x. x \<in> set (ap_opened p)) (map part_of (sd_closed (ap_stop p))) = map part_of (sd_closed (ap_stop p))"
    proof -
      have "x \<in> set (ap_opened p)" for x using inv start by (cases x) (simp_all add: api_inv_def opening_order_def)
      then show ?thesis by simp
    qed
    then have "map fst (ap_closes p) \<in> set closing_orders" using inv full by (simp add: api_inv_def)
    moreover have "unrefused (ap_closes p)" using inv start zero by (simp add: api_inv_def)
    then have "ap_closes p = map (\<lambda>x. (x, None)) (map fst (ap_closes p))" by (rule unrefused_closes)
    ultimately show ?thesis using start by (metis image_eqI list.set_map)
  qed
  ultimately show ?thesis using whole(1) unfolding p_def [symmetric] Let_def by blast
qed

definition quiet_api :: "unit api_deps" where
  "quiet_api =
     \<lparr>ad_open = (\<lambda>_ w. (Inr (), w)), ad_close = (\<lambda>_ w. (Inr (), w)),
      ad_redis = \<lparr>cr_status = (\<lambda>_. ''ready''), cr_quit = (\<lambda>w. (Inr (), w)), cr_disconnect = (\<lambda>w. w)\<rparr>,
      ad_rejectedBuildLabels = []\<rparr>"

definition quiet_api_events :: "api_event list" where
  "quiet_api_events =
     [Api_signal ''SIGTERM'', Part_closes 0, Part_closes (Suc 0), Part_closes 0, Part_closes 0, Api_flush]"

definition quiet_composed :: "unit api_process" where
  "quiet_composed =
     \<lparr>ap_start = Composed, ap_opened = opening_order, ap_closes = [], ap_listening = True, ap_exitCode = None,
      ap_stop = shutdown_start, ap_log = [], ap_world = ()\<rparr>"

lemma quiet_start: "api_process_start None quiet_api () = quiet_composed"
  by (simp add: api_process_start_def composeOrFail_def composeApp_def opening_order_def ignored_labels_def
      quiet_api_def quiet_composed_def)

lemma quiet_close: "close_call quiet_api part () = (Inr ClosedOther, ())"
  by (simp add: close_call_def quiet_api_def redisStage_def stageOf_def closeRedis_def io_simps)

lemma quiet_part:
  assumes "ap_opened p = opening_order"
  shows "part_stage quiet_api part p = (Inr ClosedOther, p\<lparr>ap_closes := ap_closes p @ [(part, None)]\<rparr>)"
proof -
  have "part \<in> set (ap_opened p)" using assms by (cases part) (simp_all add: opening_order_def)
  then show ?thesis by (simp add: part_stage_def stageOf_def opened_part_def quiet_close)
qed

lemma quiet_api_run: "sd_exits (ap_stop (api_run None quiet_api () quiet_api_events)) = [0]"
  by (simp add: quiet_api_events_def api_run_def quiet_start quiet_composed_def api_server_def part_closes_def
      quiet_part answer_of_def api_handle_def api_stop_def shutdown_start_def createShutdownHandler_def
      request_stop_def advance_def plan_over_def sequences_def stage_settles_def close_line_def flush_ends_def
      exitOnce_def line_def Let_def)

theorem api_stop_closes_what_was_opened_witness:
  "ap_closes (api_run None quiet_api () quiet_api_events) \<in> set (map (map (\<lambda>x. (x, None))) closing_orders)"
  using api_stop_closes_what_was_opened [of None quiet_api "()" quiet_api_events] quiet_api_run
  by (simp add: Let_def)

end
