(* ===== verification/Compose_Interp.thy ===== *)
theory Compose_Interp
  imports Compose_Rules Socket_Answer "HOL-Library.Sublist" "HOL-Library.AList"
begin

text \<open>
  Where a value of \<open>.env\<close> may land in the Compose stack: the interpolation of
  scripts/compose-rules.mjs (\<open>INTERPOLATED\<close>, \<open>checkVariables\<close>, \<open>controlEnvOf\<close>,
  \<open>checkInterpolation\<close>).  The stack is rendered twice, with an empty env file and with a control
  value for each variable; a leaf of the configuration that differs has to hold the control value of
  a variable and be one of its fields.  A leaf is kept as the JSON value it is: the code keeps its
  \<open>JSON.stringify\<close> and parses it back.
\<close>

section \<open>The variables\<close>

record interpolated =
  iv_control :: string
  iv_parts :: "string list"
  iv_fields :: "string list"

type_synonym interpolation = "(string \<times> interpolated) list"

definition INTERPOLATED :: interpolation where
  "INTERPOLATED =
     [(''WEB_PORT'', \<lparr>iv_control = ''127.0.0.2:39871-39872'', iv_parts = [''127.0.0.2'', ''39871-39872''],
         iv_fields = [''services.web.ports[*].host_ip'', ''services.web.ports[*].published'']\<rparr>),
      (''APP_VERSION'', \<lparr>iv_control = ''gate-control-app-version'', iv_parts = [],
         iv_fields = [''services.*.build.args.APP_VERSION'']\<rparr>),
      (''GIT_COMMIT'', \<lparr>iv_control = ''gate-control-git-commit'', iv_parts = [],
         iv_fields = [''services.*.build.args.GIT_COMMIT'']\<rparr>)]"

definition INTERPOLATION :: string where
  "INTERPOLATION = ''interpolation:''"

definition variables_shape :: string where
  "variables_shape = ''unexpected shape of docker compose config --variables:''"

text \<open>What one variable of the output is refused for.\<close>

definition variable_problems :: "interpolation \<Rightarrow> string \<times> json \<Rightarrow> string list" where
  "variable_problems allowed v =
     (case v of (name, entry) \<Rightarrow>
        if \<not> is_obj entry then [variables_shape @ '' '' @ name]
        else
          (case map_of allowed name of
             None \<Rightarrow>
               [INTERPOLATION @ '' '' @ name
                @ '' - the gate has no control value for it and cannot see where it lands; add it to INTERPOLATED of scripts/compose-rules.mjs with the fields it may reach'']
           | Some known \<Rightarrow>
               problem_if (jget entry ''Required'' \<noteq> Some (Bool False))
                 (INTERPOLATION @ '' '' @ name
                  @ '' is required - the stack does not come up without it, and the gate renders with an empty env file'')
               @ problem_if (jget entry ''DefaultValue'' = Some (Str (iv_control known)))
                 (INTERPOLATION @ '' '' @ name
                  @ '' defaults to its control value - the control render would not see where it lands'')))"

definition checkVariables :: "json \<Rightarrow> interpolation \<Rightarrow> string list \<times> string list" where
  "checkVariables variables allowed =
     (case variables of
        Obj kvs \<Rightarrow> (map fst kvs, concat (map (variable_problems allowed) kvs))
      | _ \<Rightarrow> ([], [variables_shape @ '' (top level)'']))"

definition controlEnvOf :: "string list \<Rightarrow> interpolation \<Rightarrow> string" where
  "controlEnvOf names allowed =
     concat (map (\<lambda>name. case map_of allowed name of
       None \<Rightarrow> [] | Some known \<Rightarrow> name @ ''='' @ iv_control known @ [CHR 10]) names)"

section \<open>The leaves of a configuration\<close>

text \<open>\<open>/^[\w-]+$/\<close>\<close>

definition key_char :: "char \<Rightarrow> bool" where
  "key_char c \<longleftrightarrow> is_word c \<or> c = CHR ''-''"

definition plain_key :: "string \<Rightarrow> bool" where
  "plain_key k \<longleftrightarrow> k \<noteq> [] \<and> list_all key_char k"

definition key_step :: "string \<Rightarrow> string \<Rightarrow> string" where
  "key_step path key =
     (if plain_key key then (if path = [] then [] else ''.'') @ key else ''['' @ json_string key @ '']'')"

type_synonym leaves = "(string \<times> json) list"

text \<open>A map in the order its keys were first set.\<close>

fun leavesOf :: "json \<Rightarrow> string \<Rightarrow> leaves \<Rightarrow> leaves"
  and leaves_of_items :: "json list \<Rightarrow> nat \<Rightarrow> string \<Rightarrow> leaves \<Rightarrow> leaves"
  and leaves_of_entries :: "(string \<times> json) list \<Rightarrow> string \<Rightarrow> leaves \<Rightarrow> leaves" where
  "leavesOf (Arr (v # vs)) path leaves = leaves_of_items (v # vs) 0 path leaves"
| "leavesOf (Obj (kv # kvs)) path leaves = leaves_of_entries (kv # kvs) path leaves"
| "leavesOf v path leaves = AList.update path v leaves"
| "leaves_of_items [] i path leaves = leaves"
| "leaves_of_items (v # vs) i path leaves =
     leaves_of_items vs (Suc i) path (leavesOf v (at_index path i) leaves)"
| "leaves_of_entries [] path leaves = leaves"
| "leaves_of_entries ((k, v) # kvs) path leaves =
     leaves_of_entries kvs path (leavesOf v (path @ key_step path k) leaves)"

section \<open>The fields of a variable\<close>

datatype field_part = Any_index | Any_key | Just char

text \<open>\<open>field.split(/(\[\*\]|\*)/)\<close>\<close>

fun field_parts :: "string \<Rightarrow> field_part list" where
  "field_parts [] = []"
| "field_parts (c # cs) =
     (if c = CHR ''['' \<and> starts_with ''*]'' cs then Any_index # field_parts (drop 2 cs)
      else if c = CHR ''*'' then Any_key # field_parts cs
      else Just c # field_parts cs)"

text \<open>The regular expression of the parts, anchored at both ends.\<close>

function matches_field :: "field_part list \<Rightarrow> string \<Rightarrow> bool" where
  "matches_field [] s = (s = [])"
| "matches_field (Just c # ps) s = (case s of [] \<Rightarrow> False | d # ds \<Rightarrow> c = d \<and> matches_field ps ds)"
| "matches_field (Any_key # ps) s =
     (case s of [] \<Rightarrow> False | d # ds \<Rightarrow> key_char d \<and> (matches_field ps ds \<or> matches_field (Any_key # ps) ds))"
| "matches_field (Any_index # ps) s =
     (case s of
        [] \<Rightarrow> False
      | d # ds \<Rightarrow>
          d = CHR ''['' \<and> takeWhile is_digit ds \<noteq> [] \<and>
          (case dropWhile is_digit ds of [] \<Rightarrow> False | e # es \<Rightarrow> e = CHR '']'' \<and> matches_field ps es))"
  by pat_completeness auto
termination
proof (relation "measure (\<lambda>(ps, s). length ps + length s)", goal_cases)
  case (5 ps s d ds e es)
  have "length (dropWhile is_digit ds) \<le> length ds" by (rule length_dropWhile_le)
  with 5 show ?case by simp
qed auto

definition isField :: "string \<Rightarrow> string \<Rightarrow> bool" where
  "isField field path = matches_field (field_parts field) path"

text \<open>\<open>text.text_includes(part)\<close>\<close>

definition text_includes :: "string \<Rightarrow> string \<Rightarrow> bool" where
  "text_includes t part = list_ex (starts_with part) (suffixes t)"

definition leaf_text :: "json \<Rightarrow> string" where
  "leaf_text leaf = (case leaf of Str s \<Rightarrow> s | Num x \<Rightarrow> show_num x | _ \<Rightarrow> json_stringify leaf)"

definition holdsControl :: "json \<Rightarrow> interpolated \<Rightarrow> bool" where
  "holdsControl leaf variable \<longleftrightarrow>
     text_includes (leaf_text leaf) (iv_control variable) \<or> leaf_text leaf \<in> set (iv_parts variable)"

section \<open>The check\<close>

definition same_leaf :: "json option \<Rightarrow> json option \<Rightarrow> bool" where
  "same_leaf was now \<longleftrightarrow>
     (case (was, now) of (Some a, Some b) \<Rightarrow> json_stringify a = json_stringify b | _ \<Rightarrow> False)"

definition takers :: "interpolation \<Rightarrow> json option \<Rightarrow> interpolation" where
  "takers allowed now = (case now of None \<Rightarrow> [] | Some leaf \<Rightarrow> filter (\<lambda>(_, v). holdsControl leaf v) allowed)"

definition path_problems :: "leaves \<Rightarrow> leaves \<Rightarrow> interpolation \<Rightarrow> string \<Rightarrow> string list" where
  "path_problems was now allowed path =
     (if same_leaf (map_of was path) (map_of now path) then []
      else if takers allowed (map_of now path) = [] then
        [INTERPOLATION @ '' '' @ path
         @ '' changes with the variables of the stack and holds none of their control values - only the fields of INTERPOLATED may take a value from .env'']
      else
        concat (map (\<lambda>(name, v). problem_if (\<not> list_ex (\<lambda>field. isField field path) (iv_fields v))
            (INTERPOLATION @ '' '' @ path @ '' takes '' @ name @ '' - it may land only in ''
             @ join_str '', '' (iv_fields v)))
          (takers allowed (map_of now path))))"

definition checkInterpolation :: "json \<Rightarrow> json \<Rightarrow> interpolation \<Rightarrow> string list" where
  "checkInterpolation base probed allowed =
     (let was = leavesOf base [] []; now = leavesOf probed [] []
      in concat (map (path_problems was now allowed) (once (map fst was @ map fst now))))"

section \<open>The path of a leaf\<close>

text \<open>Where a leaf is: the keys and the indexes from the root; and the text the code writes for it.\<close>

datatype step = Key string | Index nat

definition step_text :: "step \<Rightarrow> string" where
  "step_text st =
     (case st of
        Key k \<Rightarrow> (if plain_key k then CHR ''.'' # k else CHR ''['' # json_string k @ '']'')
      | Index i \<Rightarrow> CHR ''['' # show_nat i @ '']'')"

definition tail_text :: "step list \<Rightarrow> string" where
  "tail_text a = concat (map step_text a)"

definition first_text :: "step \<Rightarrow> string" where
  "first_text st = (case st of Key k \<Rightarrow> (if plain_key k then k else step_text st) | Index _ \<Rightarrow> step_text st)"

definition path_text :: "step list \<Rightarrow> string" where
  "path_text a = (case a of [] \<Rightarrow> [] | st # rest \<Rightarrow> first_text st @ tail_text rest)"

lemma tail_text_simps [simp]: "tail_text [] = []" "tail_text (st # a) = step_text st @ tail_text a"
  "tail_text (a @ b) = tail_text a @ tail_text b"
  by (simp_all add: tail_text_def)

lemma key_char_ends [simp]: "\<not> key_char (CHR ''.'')" "\<not> key_char (CHR ''['')"
  by code_simp+

lemma tail_text_end: "tail_text a = [] \<or> hd (tail_text a) \<in> {CHR ''.'', CHR ''[''}"
  by (cases a) (auto simp: step_text_def split: step.splits)

lemma key_then_tail:
  assumes "list_all key_char k" and "list_all key_char l" and "k @ tail_text a = l @ tail_text b"
  shows "k = l \<and> tail_text a = tail_text b"
proof -
  have stop: "takeWhile key_char (tail_text c) = []" for c
    using tail_text_end [of c] by (cases "tail_text c") auto
  have "takeWhile key_char (k @ tail_text a) = k" "takeWhile key_char (l @ tail_text b) = l"
    using assms(1,2) stop by (simp_all add: takeWhile_append list_all_iff)
  with assms(3) show ?thesis by auto
qed

lemma digits_then:
  assumes "\<not> is_digit c" and "list_all is_digit ds" and "list_all is_digit es" and "ds @ c # x = es @ c # y"
  shows "ds = es \<and> x = y"
proof -
  have "takeWhile is_digit (ds @ c # x) = ds" "takeWhile is_digit (es @ c # y) = es"
    using assms(1-3) by (simp_all add: takeWhile_append list_all_iff)
  with assms(4) show ?thesis by auto
qed

lemma all_digits [simp]: "list_all is_digit (show_nat n)"
  by (auto simp: list_all_iff intro: show_nat_digits)

text \<open>A JSON string ends where it says: its escapes are self-delimiting.\<close>

lemma of_char_hex_digit: "n < 16 \<Longrightarrow> of_char (hex_digit n) = (if n < 10 then 48 + n else 87 + n)"
  by (simp add: hex_digit_def)

lemma hex_digit_inject:
  assumes "m < 16" and "n < 16" and "hex_digit m = hex_digit n"
  shows "m = n"
proof -
  have "(of_char (hex_digit m) :: nat) = of_char (hex_digit n)" using assms(3) by simp
  with assms(1,2) show ?thesis by (simp add: of_char_hex_digit split: if_splits)
qed

definition unescaped :: "char \<Rightarrow> nat" where
  "unescaped e =
     (if e = CHR ''b'' then 8 else if e = CHR ''t'' then 9 else if e = CHR ''n'' then 10
      else if e = CHR ''f'' then 12 else if e = CHR ''r'' then 13 else of_char e)"

lemma json_char_cases:
  obtains (plain) "json_char c = [c]" "c \<noteq> CHR 92" "c \<noteq> CHR 34"
  | (escape) e where "json_char c = [CHR 92, e]" "e \<noteq> CHR ''u''" "of_char c = unescaped e"
  | (hex) "json_char c = [CHR 92, CHR ''u'', CHR ''0'', CHR ''0'', hex_digit (of_char c div 16), hex_digit (of_char c mod 16)]"
      "(of_char c :: nat) < 32"
proof -
  let ?n = "of_char c :: nat"
  have same: "c = d \<longleftrightarrow> ?n = of_char d" for d by (simp only: of_char_eq_iff)
  consider "?n = 34" | "?n = 92" | "?n = 8" | "?n = 9" | "?n = 10" | "?n = 12" | "?n = 13"
    | "?n \<notin> {34, 92, 8, 9, 10, 12, 13}" "?n < 32" | "?n \<notin> {34, 92, 8, 9, 10, 12, 13}" "\<not> ?n < 32" by blast
  then show thesis
  proof cases
    case 1 then show ?thesis by (intro escape [of "CHR 34"]) (simp_all add: json_char_def unescaped_def)
  next
    case 2 then show ?thesis by (intro escape [of "CHR 92"]) (simp_all add: json_char_def unescaped_def)
  next
    case 3 then show ?thesis by (intro escape [of "CHR ''b''"]) (simp_all add: json_char_def unescaped_def)
  next
    case 4 then show ?thesis by (intro escape [of "CHR ''t''"]) (simp_all add: json_char_def unescaped_def)
  next
    case 5 then show ?thesis by (intro escape [of "CHR ''n''"]) (simp_all add: json_char_def unescaped_def)
  next
    case 6 then show ?thesis by (intro escape [of "CHR ''f''"]) (simp_all add: json_char_def unescaped_def)
  next
    case 7 then show ?thesis by (intro escape [of "CHR ''r''"]) (simp_all add: json_char_def unescaped_def)
  next
    case 8 then show ?thesis by (intro hex) (simp_all add: json_char_def Let_def)
  next
    case 9
    then have "c \<noteq> CHR 92" "c \<noteq> CHR 34" unfolding same by simp_all
    with 9 show ?thesis by (intro plain) (simp_all add: json_char_def)
  qed
qed

lemma json_char_inject:
  assumes "json_char c @ x = json_char d @ y"
  shows "c = d \<and> x = y"
proof -
  show ?thesis
  proof (cases rule: json_char_cases [of c])
    case plain
    with assms show ?thesis by (cases rule: json_char_cases [of d]) auto
  next
    case (escape e)
    show ?thesis
    proof (cases rule: json_char_cases [of d])
      case escape' : (escape f)
      from assms have "[CHR 92, e] @ x = [CHR 92, f] @ y" unfolding escape(1) escape'(1) .
      then have "e = f" "x = y" by simp_all
      with escape(3) escape'(3) have "(of_char c :: nat) = of_char d" by (simp only:)
      then have "c = d" by (simp only: of_char_eq_iff)
      with \<open>x = y\<close> show ?thesis by simp
    qed (use assms escape in \<open>simp_all\<close>)
  next
    case hex
    show ?thesis
    proof (cases rule: json_char_cases [of d])
      case hex' : hex
      from assms have digits: "hex_digit (of_char c div 16) = hex_digit (of_char d div 16)"
        "hex_digit (of_char c mod 16) = hex_digit (of_char d mod 16)" and "x = y"
        unfolding hex(1) hex'(1) by simp_all
      have "of_char c div 16 = (of_char d div 16 :: nat)"
        by (rule hex_digit_inject [OF _ _ digits(1)]) (use hex(2) hex'(2) in simp_all)
      moreover have "of_char c mod 16 = (of_char d mod 16 :: nat)"
        by (rule hex_digit_inject [OF _ _ digits(2)]) simp_all
      ultimately have "(of_char c :: nat) = of_char d" by (metis div_mult_mod_eq)
      then have "c = d" by (simp only: of_char_eq_iff)
      with \<open>x = y\<close> show ?thesis by simp
    qed (use assms hex in simp_all)
  qed
qed

lemma json_char_quote: "json_char c @ x \<noteq> CHR 34 # y"
  by (cases rule: json_char_cases [of c]) auto

lemma json_chars_inject:
  "concat (map json_char s) @ CHR 34 # x = concat (map json_char t) @ CHR 34 # y \<Longrightarrow> s = t \<and> x = y"
proof (induction s arbitrary: t)
  case Nil
  then show ?case by (cases t) (auto simp: json_char_quote dest: sym)
next
  case (Cons c s)
  show ?case
  proof (cases t)
    case Nil
    with Cons.prems json_char_quote [of c "concat (map json_char s) @ CHR 34 # x"] show ?thesis by simp
  next
    case (Cons d u)
    with Cons.prems json_char_inject [of c "concat (map json_char s) @ CHR 34 # x" d]
    have "c = d" "concat (map json_char s) @ CHR 34 # x = concat (map json_char u) @ CHR 34 # y" by auto
    with Cons.IH [of u] \<open>t = d # u\<close> show ?thesis by simp
  qed
qed

lemma step_text_inject:
  assumes "step_text s @ tail_text a = step_text t @ tail_text b"
  shows "s = t \<and> tail_text a = tail_text b"
proof -
  have digit: "\<not> is_digit (CHR '']'')" "\<not> is_digit (CHR 34)" by code_simp+
  have quote: "show_nat i @ x \<noteq> CHR 34 # y" for i x y
    using show_nat_digits [of "CHR 34" i] digit(2) by (cases "show_nat i") auto
  show ?thesis
  proof (cases s; cases t)
    fix k l
    assume st: "s = Key k" "t = Key l"
    show ?thesis
    proof (cases "plain_key k \<longleftrightarrow> plain_key l")
      case False
      with assms st show ?thesis by (auto simp: step_text_def)
    next
      case True
      then consider "plain_key k" "plain_key l" | "\<not> plain_key k" "\<not> plain_key l" by blast
      then show ?thesis
      proof cases
        case 1
        with assms st key_then_tail [of k l a b] show ?thesis by (simp add: step_text_def plain_key_def)
      next
        case 2
        with assms st json_chars_inject [of k "CHR '']'' # tail_text a" l "CHR '']'' # tail_text b"]
        show ?thesis by (simp add: step_text_def json_string_def)
      qed
    qed
  next
    fix i j
    assume st: "s = Index i" "t = Index j"
    with assms digits_then [OF digit(1) all_digits [of i] all_digits [of j], of "tail_text a" "tail_text b"]
    show ?thesis by (simp add: step_text_def)
  qed (use assms quote quote [symmetric] in \<open>auto simp: step_text_def json_string_def split: if_splits\<close>)
qed

lemma step_text_nonempty [simp]: "step_text st \<noteq> []"
  by (simp add: step_text_def split: step.splits)

lemma tail_text_inject: "tail_text a = tail_text b \<Longrightarrow> a = b"
proof (induction a arbitrary: b)
  case Nil
  then show ?case by (cases b) auto
next
  case (Cons s a)
  then obtain t c where b: "b = t # c" by (cases b) auto
  with Cons.prems step_text_inject [of s a t c] have "s = t" "tail_text a = tail_text c" by simp_all
  with Cons.IH b show ?case by simp
qed

text \<open>A path starts like the steps after it, once the dot of a plain key is put back.\<close>

lemma path_text_tail:
  "path_text (st # a) = (case st of Key k \<Rightarrow> if plain_key k then tl (tail_text (st # a)) else tail_text (st # a)
     | Index _ \<Rightarrow> tail_text (st # a))"
  by (simp add: path_text_def first_text_def step_text_def split: step.splits)

lemma path_start: "hd (path_text (st # c)) \<noteq> CHR ''['' \<longleftrightarrow> (\<exists>k. st = Key k \<and> plain_key k)"
  by (cases st) (auto simp: path_text_def first_text_def step_text_def plain_key_def json_string_def neq_Nil_conv)

lemma path_text_inject:
  assumes "path_text a = path_text b"
  shows "a = b"
proof -
  have nonempty: "path_text (st # c) \<noteq> []" for st c
    by (auto simp: path_text_def first_text_def plain_key_def split: step.splits)
  show ?thesis
  proof (cases a)
    case Nil
    with assms nonempty show ?thesis by (cases b) (auto simp: path_text_def)
  next
    case (Cons s c)
    with assms nonempty obtain t d where b: "b = t # d" by (cases b) (auto simp: path_text_def)
    have plain: "(\<exists>k. s = Key k \<and> plain_key k) \<longleftrightarrow> (\<exists>k. t = Key k \<and> plain_key k)"
      using path_start [of s c] path_start [of t d] assms Cons b by simp
    have "tail_text (s # c) = tail_text (t # d)"
    proof (cases "\<exists>k. s = Key k \<and> plain_key k")
      case True
      with plain assms Cons b show ?thesis by (auto simp: path_text_def first_text_def step_text_def)
    next
      case False
      with plain assms Cons b show ?thesis by (cases s; cases t) (auto simp: path_text_def first_text_def)
    qed
    then have "s # c = t # d" by (rule tail_text_inject)
    then show ?thesis using Cons b by simp
  qed
qed

section \<open>Every leaf has a path of its own\<close>

text \<open>The leaves with where they are, and the values \<open>JSON.parse\<close> gives: no key twice in one object.\<close>

fun addresses :: "json \<Rightarrow> (step list \<times> json) list"
  and address_items :: "json list \<Rightarrow> nat \<Rightarrow> (step list \<times> json) list"
  and address_entries :: "(string \<times> json) list \<Rightarrow> (step list \<times> json) list" where
  "addresses (Arr (v # vs)) = address_items (v # vs) 0"
| "addresses (Obj (kv # kvs)) = address_entries (kv # kvs)"
| "addresses v = [([], v)]"
| "address_items [] i = []"
| "address_items (v # vs) i = map (\<lambda>(a, x). (Index i # a, x)) (addresses v) @ address_items vs (Suc i)"
| "address_entries [] = []"
| "address_entries ((k, v) # kvs) = map (\<lambda>(a, x). (Key k # a, x)) (addresses v) @ address_entries kvs"

fun keys_ok :: "json \<Rightarrow> bool" where
  "keys_ok (Arr vs) = (\<forall>v \<in> set vs. keys_ok v)"
| "keys_ok (Obj kvs) = (distinct (map fst kvs) \<and> (\<forall>kv \<in> set kvs. keys_ok (snd kv)))"
| "keys_ok _ = True"

definition path_from :: "string \<Rightarrow> step list \<Rightarrow> string" where
  "path_from path a = (if path = [] then path_text a else path @ tail_text a)"

lemma path_from_Nil [simp]: "path_from path [] = path"
  by (simp add: path_from_def path_text_def)

lemma path_from_root: "path_from [] a = path_text a"
  by (simp add: path_from_def)

lemma path_from_Index: "path_from path (Index i # a) = path_from (at_index path i) a"
  by (simp add: path_from_def at_index_def path_text_def first_text_def step_text_def)

lemma path_from_Key: "path_from path (Key k # a) = path_from (path @ key_step path k) a"
  by (auto simp: path_from_def key_step_def path_text_def first_text_def step_text_def plain_key_def)

definition put :: "string \<Rightarrow> step list \<times> json \<Rightarrow> leaves \<Rightarrow> leaves" where
  "put path = (\<lambda>(a, x). AList.update (path_from path a) x)"

lemma fold_put_Index: "fold (put path) (map (\<lambda>(a, x). (Index i # a, x)) ps) = fold (put (at_index path i)) ps"
  by (simp add: fold_map comp_def put_def path_from_Index case_prod_beta')

lemma fold_put_Key: "fold (put path) (map (\<lambda>(a, x). (Key k # a, x)) ps) = fold (put (path @ key_step path k)) ps"
  by (simp add: fold_map comp_def put_def path_from_Key case_prod_beta')

lemma leavesOf_addresses:
  "leavesOf v path leaves = fold (put path) (addresses v) leaves"
  "leaves_of_items vs i path leaves = fold (put path) (address_items vs i) leaves"
  "leaves_of_entries kvs path leaves = fold (put path) (address_entries kvs) leaves"
  by (induction v path leaves and vs i path leaves and kvs path leaves
      rule: leavesOf_leaves_of_items_leaves_of_entries.induct)
    (simp_all add: fold_put_Index fold_put_Key, simp_all add: put_def)

lemma address_items_start: "a \<in> fst ` set (address_items vs i) \<Longrightarrow> \<exists>j rest. a = Index j # rest \<and> i \<le> j"
  by (induction vs arbitrary: i) (force simp: Suc_le_eq)+

lemma address_entries_start: "a \<in> fst ` set (address_entries kvs) \<Longrightarrow> \<exists>k rest. a = Key k # rest \<and> k \<in> fst ` set kvs"
proof (induction kvs)
  case (Cons kv kvs)
  obtain k v where kv: "kv = (k, v)" by fastforce
  with Cons.prems consider rest where "a = Key k # rest" | "a \<in> fst ` set (address_entries kvs)" by auto
  then show ?case using Cons.IH kv by cases auto
qed simp

lemma distinct_step: "distinct (map fst (map (\<lambda>(a, x). (st # a, x)) ps)) = distinct (map fst ps)"
proof -
  have "map fst (map (\<lambda>(a, x). (st # a, x)) ps) = map ((#) st) (map fst ps)" by auto
  moreover have "distinct (map ((#) st) (map fst ps)) = distinct (map fst ps)"
    by (subst distinct_map) (simp add: inj_on_def)
  ultimately show ?thesis by (simp only:)
qed

lemma addresses_distinct:
  "keys_ok v \<Longrightarrow> distinct (map fst (addresses v))"
  "\<forall>v \<in> set vs. keys_ok v \<Longrightarrow> distinct (map fst (address_items vs i))"
  "distinct (map fst kvs) \<and> (\<forall>kv \<in> set kvs. keys_ok (snd kv)) \<Longrightarrow> distinct (map fst (address_entries kvs))"
proof (induction v and vs i and kvs rule: addresses_address_items_address_entries.induct,
    goal_cases)
  case (10 v vs i)
  have "a \<notin> fst ` set (address_items vs (Suc i))" if "a \<in> fst ` set (map (\<lambda>(a, x). (Index i # a, x)) (addresses v))" for a
  proof
    assume "a \<in> fst ` set (address_items vs (Suc i))"
    from address_items_start [OF this] obtain j rest where "a = Index j # rest" "Suc i \<le> j" by blast
    with that show False by auto
  qed
  with 10 show ?case by (auto simp only: address_items.simps map_append distinct_append distinct_step list.set_map
        list.set_intros insert_iff list.simps)
next
  case (12 k v kvs)
  have "a \<notin> fst ` set (address_entries kvs)" if "a \<in> fst ` set (map (\<lambda>(a, x). (Key k # a, x)) (addresses v))" for a
  proof
    assume "a \<in> fst ` set (address_entries kvs)"
    from address_entries_start [OF this] obtain l rest where "a = Key l # rest" "l \<in> fst ` set kvs" by blast
    with that have "k \<in> fst ` set kvs" by force
    with 12 show False by simp
  qed
  with 12 show ?case by (auto simp only: address_entries.simps map_append distinct_append distinct_step list.set_map
        list.set_intros insert_iff list.simps fst_conv snd_conv distinct.simps ball_simps simp_thms)
qed auto

lemma fold_put_fresh:
  "distinct (map (\<lambda>p. path_from path (fst p)) ps) \<Longrightarrow>
     (\<And>p. p \<in> set ps \<Longrightarrow> path_from path (fst p) \<notin> fst ` set leaves) \<Longrightarrow>
     fold (put path) ps leaves = leaves @ map (\<lambda>(a, x). (path_from path a, x)) ps"
proof (induction ps arbitrary: leaves)
  case (Cons p ps)
  obtain a x where p: "p = (a, x)" by fastforce
  have fresh: "AList.update k v ls = ls @ [(k, v)]" if "k \<notin> fst ` set ls" for k :: string and v :: json and ls
    using that by (induction ls) auto
  have "put path p leaves = leaves @ [(path_from path a, x)]"
    unfolding put_def p prod.case by (rule fresh) (use Cons.prems(2) [of p] p in simp)
  moreover have "fold (put path) ps (leaves @ [(path_from path a, x)]) =
      (leaves @ [(path_from path a, x)]) @ map (\<lambda>(a, x). (path_from path a, x)) ps"
  proof (rule Cons.IH)
    show "distinct (map (\<lambda>p. path_from path (fst p)) ps)" using Cons.prems(1) by simp
    show "path_from path (fst q) \<notin> fst ` set (leaves @ [(path_from path a, x)])" if "q \<in> set ps" for q
      using Cons.prems(1) Cons.prems(2) [of q] that p image_eqI [of _ "\<lambda>p. path_from path (fst p)" q "set ps"]
      by (auto simp del: image_eqI) (metis (no_types, lifting) imageI)
  qed
  ultimately show ?case by (simp add: p)
qed simp

lemma path_text_map_distinct: "distinct as \<Longrightarrow> distinct (map path_text as)"
  by (auto simp: distinct_map inj_on_def dest: path_text_inject)

lemma leavesOf_flat:
  assumes "keys_ok v"
  shows "leavesOf v [] [] = map (\<lambda>(a, x). (path_text a, x)) (addresses v)"
proof -
  have "distinct (map path_text (map fst (addresses v)))"
    by (rule path_text_map_distinct [OF addresses_distinct(1) [OF assms]])
  then have "distinct (map (\<lambda>p. path_from [] (fst p)) (addresses v))" by (simp add: path_from_root comp_def)
  from fold_put_fresh [OF this, of "[]"] show ?thesis by (simp add: leavesOf_addresses path_from_root)
qed

lemma map_of_leaves:
  assumes "keys_ok v"
  shows "map_of (leavesOf v [] []) (path_text a) = map_of (addresses v) a"
proof -
  have "map_of (map (\<lambda>(a, x). (path_text a, x)) ps) (path_text a) = map_of ps a" for ps :: "(step list \<times> json) list"
    by (induction ps) (auto dest: path_text_inject)
  then show ?thesis by (simp add: leavesOf_flat [OF assms])
qed

lemma distinct_paths:
  assumes "keys_ok v"
  shows "distinct (map fst (leavesOf v [] []))"
  using path_text_map_distinct [OF addresses_distinct(1) [OF assms]]
  by (simp add: leavesOf_flat [OF assms] comp_def case_prod_beta')

section \<open>What a clean check means\<close>

lemma takers_iff: "(name, v) \<in> set (takers allowed now) \<longleftrightarrow>
    (\<exists>leaf. now = Some leaf \<and> (name, v) \<in> set allowed \<and> holdsControl leaf v)"
  by (auto simp: takers_def split: option.splits)

lemma path_clean:
  "path_problems was now allowed path = [] \<longleftrightarrow>
     same_leaf (map_of was path) (map_of now path) \<or>
     takers allowed (map_of now path) \<noteq> [] \<and>
     (\<forall>(name, v) \<in> set (takers allowed (map_of now path)). \<exists>field \<in> set (iv_fields v). isField field path)"
  by (auto simp: path_problems_def list_ex_iff)

lemma clean_everywhere:
  assumes "checkInterpolation base probed allowed = []"
    and "map_of (leavesOf base [] []) path \<noteq> None \<or> map_of (leavesOf probed [] []) path \<noteq> None"
  shows "path_problems (leavesOf base [] []) (leavesOf probed [] []) allowed path = []"
proof -
  have "path \<in> set (once (map fst (leavesOf base [] []) @ map fst (leavesOf probed [] [])))"
    using assms(2) by (auto simp: map_of_eq_None_iff)
  with assms(1) show ?thesis by (auto simp: checkInterpolation_def Let_def)
qed

text \<open>
  C33: no key of a configuration reads as a path of others: for the values \<open>JSON.parse\<close> gives, the
  code's walk is the list of the leaves by where they are, each under the text of its address, and
  no two leaves share a text - so no leaf hides another from the comparison of the renders.
\<close>

theorem every_leaf_has_its_own_path:
  assumes "keys_ok v"
  shows "leavesOf v [] [] = map (\<lambda>(a, x). (path_text a, x)) (addresses v) \<and>
    distinct (map fst (leavesOf v [] [])) \<and> (\<forall>a b. path_text a = path_text b \<longrightarrow> a = b)"
  using leavesOf_flat [OF assms] distinct_paths [OF assms] path_text_inject by blast

definition tricky :: json where
  "tricky = Obj [(''a.b'', Num (Fin 1)), (''a'', Obj [(''b'', Num (Fin 2)), (''c[0]'', Null), (''c'', Arr [Null])])]"

theorem every_leaf_has_its_own_path_witness:
  "map fst (leavesOf tricky [] []) = [''['' @ json_string ''a.b'' @ '']'', ''a.b'', ''a['' @ json_string ''c[0]'' @ '']'', ''a.c[0]'']
   \<and> distinct (map fst (leavesOf tricky [] []))"
proof
  show "map fst (leavesOf tricky [] []) =
      [''['' @ json_string ''a.b'' @ '']'', ''a.b'', ''a['' @ json_string ''c[0]'' @ '']'', ''a.c[0]'']"
    by code_simp
  have "keys_ok tricky" by (simp add: tricky_def)
  from every_leaf_has_its_own_path [OF this] show "distinct (map fst (leavesOf tricky [] []))" by blast
qed

text \<open>
  A clean check confines \<open>.env\<close>: wherever the render with the control values differs from the
  one without - a leaf that changed, came or went -, a leaf is there, it holds the control value of
  an allowed variable or a declared part of it, and the place is one of the fields of every variable
  whose value it holds.
\<close>

lemma clean_interpolation_confines_env:
  assumes "checkInterpolation base probed allowed = []" and "keys_ok base" and "keys_ok probed"
    and "map_of (addresses base) a \<noteq> None \<or> map_of (addresses probed) a \<noteq> None"
    and "\<not> same_leaf (map_of (addresses base) a) (map_of (addresses probed) a)"
  shows "\<exists>leaf. map_of (addresses probed) a = Some leaf \<and>
    (\<exists>(name, v) \<in> set allowed. holdsControl leaf v) \<and>
    (\<forall>(name, v) \<in> set allowed. holdsControl leaf v \<longrightarrow>
       (\<exists>field \<in> set (iv_fields v). isField field (path_text a)))"
proof -
  let ?was = "leavesOf base [] []" and ?now = "leavesOf probed [] []"
  have look: "map_of ?was (path_text a) = map_of (addresses base) a" "map_of ?now (path_text a) = map_of (addresses probed) a"
    by (simp_all add: map_of_leaves assms(2,3))
  have "path_problems ?was ?now allowed (path_text a) = []"
    by (rule clean_everywhere [OF assms(1)]) (use assms(4) look in simp)
  then have some: "takers allowed (map_of (addresses probed) a) \<noteq> []"
    and all: "\<forall>(name, v) \<in> set (takers allowed (map_of (addresses probed) a)).
      \<exists>field \<in> set (iv_fields v). isField field (path_text a)"
    using assms(5) unfolding path_clean look by simp_all
  from some obtain name v where "(name, v) \<in> set (takers allowed (map_of (addresses probed) a))"
    by (cases "takers allowed (map_of (addresses probed) a)") auto
  then obtain leaf where leaf: "map_of (addresses probed) a = Some leaf" "(name, v) \<in> set allowed" "holdsControl leaf v"
    unfolding takers_iff by blast
  moreover have "\<exists>field \<in> set (iv_fields u). isField field (path_text a)"
    if "(n, u) \<in> set allowed" "holdsControl leaf u" for n u
  proof -
    have "(n, u) \<in> set (takers allowed (map_of (addresses probed) a))" unfolding takers_iff using leaf(1) that by blast
    with all show ?thesis by blast
  qed
  ultimately show ?thesis by (intro exI [of _ leaf]) blast
qed

section \<open>The fields of the stack\<close>

lemma matches_Just: "matches_field (map Just w @ ps) s \<longleftrightarrow> (\<exists>x. s = w @ x \<and> matches_field ps x)"
  by (induction w arbitrary: s) (auto split: list.splits)

lemma matches_word: "matches_field (map Just w) s \<longleftrightarrow> s = w"
  using matches_Just [of w "[]" s] by simp

lemma matches_key: "matches_field (Any_key # ps) s \<Longrightarrow> \<exists>k x. s = k @ x \<and> plain_key k \<and> matches_field ps x"
proof (induction s)
  case (Cons d ds)
  then have d: "key_char d" and "matches_field ps ds \<or> matches_field (Any_key # ps) ds" by auto
  then consider "matches_field ps ds" | k x where "ds = k @ x" "plain_key k" "matches_field ps x" using Cons.IH by blast
  then show ?case
  proof cases
    case 1
    with d show ?thesis by (intro exI [of _ "[d]"] exI [of _ ds]) (simp add: plain_key_def)
  next
    case 2
    with d show ?thesis by (intro exI [of _ "d # k"] exI [of _ x]) (simp add: plain_key_def)
  qed
qed simp

lemma matches_index:
  assumes "matches_field (Any_index # ps) s"
  shows "\<exists>ds x. s = CHR ''['' # ds @ CHR '']'' # x \<and> list_all is_digit ds \<and> ds \<noteq> [] \<and> matches_field ps x"
proof (cases s)
  case (Cons d rest)
  with assms obtain es where es: "d = CHR ''[''" "takeWhile is_digit rest \<noteq> []"
    "dropWhile is_digit rest = CHR '']'' # es" "matches_field ps es" by (auto split: list.splits)
  then have "rest = takeWhile is_digit rest @ CHR '']'' # es" by (metis takeWhile_dropWhile_id)
  with es Cons show ?thesis
    by (intro exI [of _ "takeWhile is_digit rest"] exI [of _ es]) (auto simp: list_all_iff dest: set_takeWhileD)
qed (use assms in simp)

text \<open>Reading the steps back from a text.\<close>

definition stops :: "string \<Rightarrow> bool" where
  "stops x \<longleftrightarrow> x = [] \<or> hd x \<in> {CHR ''.'', CHR ''[''}"

lemma key_unread:
  assumes "plain_key k" and "plain_key l" and "stops x" and "k @ x = l @ tail_text b"
  shows "k = l \<and> x = tail_text b"
proof -
  have "takeWhile key_char y = []" if "stops y" for y using that by (cases y) (auto simp: stops_def)
  moreover have "stops (tail_text b)" using tail_text_end by (simp add: stops_def)
  ultimately have "takeWhile key_char (k @ x) = k" "takeWhile key_char (l @ tail_text b) = l"
    using assms(1-3) by (simp_all add: takeWhile_append list_all_iff plain_key_def)
  with assms(4) show ?thesis by auto
qed

lemma tail_key:
  assumes "tail_text a = CHR ''.'' # k @ x" and "plain_key k" and "stops x"
  shows "\<exists>b. a = Key k # b \<and> tail_text b = x"
proof (cases a)
  case (Cons st b)
  with assms(1) obtain l where l: "st = Key l" "plain_key l" "k @ x = l @ tail_text b"
    by (auto simp: step_text_def split: step.splits if_splits)
  with key_unread [OF assms(2) l(2) assms(3) l(3)] Cons show ?thesis by blast
qed (use assms in simp)

lemma first_key:
  assumes "path_text a = k @ x" and "plain_key k" and "stops x"
  shows "\<exists>b. a = Key k # b \<and> tail_text b = x"
proof (cases a)
  case (Cons st b)
  have "hd (k @ x) \<noteq> CHR ''[''" using assms(2) by (cases k) (auto simp: plain_key_def)
  then have "hd (path_text a) \<noteq> CHR ''[''" using assms(1) by simp
  then obtain l where l: "st = Key l" "plain_key l" using Cons path_start [of st b] by blast
  with assms(1) Cons have "k @ x = l @ tail_text b" by (simp add: path_text_def first_text_def)
  with key_unread [OF assms(2) l(2) assms(3)] Cons l(1) show ?thesis by blast
next
  case Nil
  with assms show ?thesis by (auto simp: path_text_def plain_key_def)
qed

lemma tail_index:
  assumes "tail_text a = CHR ''['' # ds @ CHR '']'' # x" and "list_all is_digit ds" and "ds \<noteq> []"
  shows "\<exists>i b. a = Index i # b \<and> tail_text b = x"
proof (cases a)
  case (Cons st b)
  have digit: "\<not> is_digit (CHR '']'')" "\<not> is_digit (CHR 34)" by code_simp+
  obtain d es where ds: "ds = d # es" "is_digit d" using assms(2,3) by (cases ds) auto
  show ?thesis
  proof (cases st)
    case (Key k)
    with assms(1) Cons ds digit(2) show ?thesis by (auto simp: step_text_def json_string_def split: if_splits)
  next
    case (Index i)
    with assms(1) Cons have "ds @ CHR '']'' # x = show_nat i @ CHR '']'' # tail_text b" by (simp add: step_text_def)
    with digits_then [OF digit(1) assms(2) all_digits] have "x = tail_text b" by blast
    with Cons Index show ?thesis by blast
  qed
qed (use assms in simp)

lemma tail_Nil: "tail_text a = [] \<Longrightarrow> a = []"
  by (cases a) auto

text \<open>The fields of \<open>INTERPOLATED\<close>, part by part.\<close>

lemma field_parts_of_stack:
  "field_parts ''services.web.ports[*].host_ip'' =
     map Just ''services.web.ports'' @ Any_index # map Just ''.host_ip'' @ []"
  "field_parts ''services.web.ports[*].published'' =
     map Just ''services.web.ports'' @ Any_index # map Just ''.published'' @ []"
  "field_parts ''services.*.build.args.APP_VERSION'' =
     map Just ''services.'' @ Any_key # map Just (''.build.args.'' @ ''APP_VERSION'') @ []"
  "field_parts ''services.*.build.args.GIT_COMMIT'' =
     map Just ''services.'' @ Any_key # map Just (''.build.args.'' @ ''GIT_COMMIT'') @ []"
  by code_simp+

lemma stack_fields:
  "concat (map (\<lambda>(_, v). iv_fields v) INTERPOLATED) =
     [''services.web.ports[*].host_ip'', ''services.web.ports[*].published'',
      ''services.*.build.args.APP_VERSION'', ''services.*.build.args.GIT_COMMIT'']"
  by (simp add: INTERPOLATED_def)

lemma plain_words [simp]:
  "plain_key ''services''" "plain_key ''web''" "plain_key ''ports''" "plain_key ''host_ip''" "plain_key ''published''"
  "plain_key ''build''" "plain_key ''args''" "plain_key ''APP_VERSION''" "plain_key ''GIT_COMMIT''"
  by code_simp+

lemma ports_field:
  assumes "field_parts f = map Just ''services.web.ports'' @ Any_index # map Just (CHR ''.'' # k) @ []"
    and "plain_key k" and "isField f (path_text a)"
  shows "\<exists>i. a = [Key ''services'', Key ''web'', Key ''ports'', Index i, Key k]"
proof -
  obtain ds where ds: "path_text a = ''services'' @ CHR ''.'' # ''web'' @ CHR ''.'' # ''ports'' @ CHR ''['' # ds @ CHR '']'' # CHR ''.'' # k"
    "list_all is_digit ds" "ds \<noteq> []"
  proof -
    from assms(3) obtain x where x: "path_text a = ''services.web.ports'' @ x"
      "matches_field (Any_index # map Just (CHR ''.'' # k) @ []) x"
      unfolding isField_def assms(1) matches_Just by blast
    from matches_index [OF x(2)] obtain ds y where "x = CHR ''['' # ds @ CHR '']'' # y" "list_all is_digit ds"
      "ds \<noteq> []" "y = CHR ''.'' # k" unfolding append_Nil2 matches_word by blast
    with x(1) that show thesis by simp
  qed
  from first_key [OF ds(1)] obtain b where b: "a = Key ''services'' # b"
    "tail_text b = CHR ''.'' # ''web'' @ CHR ''.'' # ''ports'' @ CHR ''['' # ds @ CHR '']'' # CHR ''.'' # k"
    by (auto simp: stops_def)
  from tail_key [OF b(2)] obtain c where c: "b = Key ''web'' # c"
    "tail_text c = CHR ''.'' # ''ports'' @ CHR ''['' # ds @ CHR '']'' # CHR ''.'' # k"
    by (auto simp: stops_def)
  from tail_key [OF c(2)] obtain e where e: "c = Key ''ports'' # e" "tail_text e = CHR ''['' # ds @ CHR '']'' # CHR ''.'' # k"
    by (auto simp: stops_def)
  from tail_index [OF e(2) ds(2,3)] obtain i g where g: "e = Index i # g" "tail_text g = CHR ''.'' # k @ []"
    by auto
  from tail_key [OF g(2) assms(2)] have "g = [Key k]" by (auto simp: stops_def dest: tail_Nil)
  with b c e g show ?thesis by simp
qed

lemma args_field:
  assumes "field_parts f = map Just ''services.'' @ Any_key # map Just (''.build.args.'' @ k) @ []"
    and "plain_key k" and "isField f (path_text a)"
  shows "\<exists>s. a = [Key ''services'', Key s, Key ''build'', Key ''args'', Key k]"
proof -
  obtain s where s: "path_text a = ''services'' @ CHR ''.'' # s @ CHR ''.'' # ''build'' @ CHR ''.'' # ''args'' @ CHR ''.'' # k"
    "plain_key s"
  proof -
    from assms(3) obtain x where x: "path_text a = ''services.'' @ x"
      "matches_field (Any_key # map Just (''.build.args.'' @ k) @ []) x"
      unfolding isField_def assms(1) matches_Just by blast
    from matches_key [OF x(2)] obtain s y where "x = s @ y" "plain_key s" "y = ''.build.args.'' @ k"
      unfolding append_Nil2 matches_word by blast
    with x(1) that show thesis by simp
  qed
  from first_key [OF s(1)] obtain b where b: "a = Key ''services'' # b"
    "tail_text b = CHR ''.'' # s @ CHR ''.'' # ''build'' @ CHR ''.'' # ''args'' @ CHR ''.'' # k"
    by (auto simp: stops_def)
  from tail_key [OF b(2) s(2)] obtain c where c: "b = Key s # c"
    "tail_text c = CHR ''.'' # ''build'' @ CHR ''.'' # ''args'' @ CHR ''.'' # k"
    by (auto simp: stops_def)
  from tail_key [OF c(2)] obtain e where e: "c = Key ''build'' # e" "tail_text e = CHR ''.'' # ''args'' @ CHR ''.'' # k"
    by (auto simp: stops_def)
  from tail_key [OF e(2)] obtain g where g: "e = Key ''args'' # g" "tail_text g = CHR ''.'' # k @ []"
    by (auto simp: stops_def)
  from tail_key [OF g(2) assms(2)] have "g = [Key k]" by (auto simp: stops_def dest: tail_Nil)
  with b c e g show ?thesis by simp
qed

text \<open>
  C28: what the operator's \<open>.env\<close> can change in a stack that passed the gate: the address and the
  port web is published on, and the two build fingerprints of any service - no other leaf of the
  configuration differs between the render with the defaults and the one with the control values.
\<close>

theorem env_reaches_only_its_fields:
  assumes "checkInterpolation base probed INTERPOLATED = []" and "keys_ok base" and "keys_ok probed"
    and "map_of (addresses base) a \<noteq> None \<or> map_of (addresses probed) a \<noteq> None"
    and "\<not> same_leaf (map_of (addresses base) a) (map_of (addresses probed) a)"
  shows "(\<exists>i k. k \<in> {''host_ip'', ''published''} \<and> a = [Key ''services'', Key ''web'', Key ''ports'', Index i, Key k]) \<or>
    (\<exists>s k. k \<in> {''APP_VERSION'', ''GIT_COMMIT''} \<and> a = [Key ''services'', Key s, Key ''build'', Key ''args'', Key k])"
proof -
  from clean_interpolation_confines_env [OF assms] obtain leaf name v where v: "(name, v) \<in> set INTERPOLATED"
    "holdsControl leaf v"
    and all: "\<forall>(name, v) \<in> set INTERPOLATED. holdsControl leaf v \<longrightarrow>
       (\<exists>field \<in> set (iv_fields v). isField field (path_text a))" by blast
  from bspec [OF all v(1)] v(2) obtain f where f: "f \<in> set (iv_fields v)" "isField f (path_text a)" by auto
  from f(1) v(1) have "f \<in> set (concat (map (\<lambda>(_, v). iv_fields v) INTERPOLATED))" by auto
  then have "f \<in> set [''services.web.ports[*].host_ip'', ''services.web.ports[*].published'',
      ''services.*.build.args.APP_VERSION'', ''services.*.build.args.GIT_COMMIT'']"
    unfolding stack_fields .
  then show ?thesis unfolding list.set
  proof (elim insertE emptyE)
    assume "f = ''services.web.ports[*].host_ip''"
    from f(2) [unfolded this] obtain x where "a = [Key ''services'', Key ''web'', Key ''ports'', Index x, Key ''host_ip'']"
      using ports_field [OF field_parts_of_stack(1) plain_words(4)] by blast
    then show ?thesis by (intro disjI1 exI [of _ x] exI [of _ "''host_ip''"]) simp
  next
    assume "f = ''services.web.ports[*].published''"
    from f(2) [unfolded this] obtain x where "a = [Key ''services'', Key ''web'', Key ''ports'', Index x, Key ''published'']"
      using ports_field [OF field_parts_of_stack(2) plain_words(5)] by blast
    then show ?thesis by (intro disjI1 exI [of _ x] exI [of _ "''published''"]) simp
  next
    assume "f = ''services.*.build.args.APP_VERSION''"
    from f(2) [unfolded this] obtain x where "a = [Key ''services'', Key x, Key ''build'', Key ''args'', Key ''APP_VERSION'']"
      using args_field [OF field_parts_of_stack(3) plain_words(8)] by blast
    then show ?thesis by (intro disjI2 exI [of _ x] exI [of _ "''APP_VERSION''"]) simp
  next
    assume "f = ''services.*.build.args.GIT_COMMIT''"
    from f(2) [unfolded this] obtain x where "a = [Key ''services'', Key x, Key ''build'', Key ''args'', Key ''GIT_COMMIT'']"
      using args_field [OF field_parts_of_stack(4) plain_words(9)] by blast
    then show ?thesis by (intro disjI2 exI [of _ x] exI [of _ "''GIT_COMMIT''"]) simp
  qed
qed

definition port_stack :: "string \<Rightarrow> json" where
  "port_stack published = Obj [(''services'', Obj [(''web'', Obj [(''ports'', Arr [Obj [(''published'', Str published)]])])])]"

theorem env_reaches_only_its_fields_witness:
  "checkInterpolation (port_stack ''3000'') (port_stack ''39871-39872'') INTERPOLATED = [] \<and>
   (\<exists>i. [Key ''services'', Key ''web'', Key ''ports'', Index 0, Key ''published''] =
      [Key ''services'', Key ''web'', Key ''ports'', Index i, Key ''published''])"
proof
  show clean: "checkInterpolation (port_stack ''3000'') (port_stack ''39871-39872'') INTERPOLATED = []" by code_simp
  from env_reaches_only_its_fields [OF clean, of "[Key ''services'', Key ''web'', Key ''ports'', Index 0, Key ''published'']"]
  show "\<exists>i. [Key ''services'', Key ''web'', Key ''ports'', Index 0, Key ''published''] =
      [Key ''services'', Key ''web'', Key ''ports'', Index i, Key ''published'']"
    by (simp add: port_stack_def same_leaf_def json_string_def)
qed

end
