(* ===== verification/Compose_Gate.thy ===== *)
theory Compose_Gate
  imports Compose_Interp
begin

text \<open>
  The gate of the Compose stack (scripts/check-compose.mjs): which environment it refuses and which
  one docker gets, the calls of \<open>docker compose\<close> in their order, what is said of one that failed, and
  the exit code.  Docker, the disk, \<open>JSON.parse\<close> and the paths are parameters; the scratch directory
  is given, with the files written to it.
\<close>

section \<open>The environment\<close>

text \<open>The variables in their order; one may be there without a value.\<close>

type_synonym environment = "(string \<times> string option) list"

definition HARMLESS :: "string list" where
  "HARMLESS =
     [''COMPOSE_ANSI'', ''COMPOSE_PROGRESS'', ''COMPOSE_STATUS_STDOUT'', ''COMPOSE_MENU'',
      ''COMPOSE_PARALLEL_LIMIT'', ''COMPOSE_IGNORE_ORPHANS'', ''COMPOSE_REMOVE_ORPHANS'']"

definition isComposeVariable :: "string \<Rightarrow> string \<Rightarrow> bool" where
  "isComposeVariable name platform = starts_with ''COMPOSE_'' (nameOn name platform)"

definition stackChangingIn :: "environment \<Rightarrow> string \<Rightarrow> string list" where
  "stackChangingIn env platform =
     filter (\<lambda>name. isComposeVariable name platform \<and> nameOn name platform \<notin> set HARMLESS \<and>
         (case map_of env name of Some (Some v) \<Rightarrow> v \<noteq> [] | _ \<Rightarrow> False))
       (map fst env)"

definition dockerEnvOf :: "environment \<Rightarrow> string \<Rightarrow> string list \<Rightarrow> environment" where
  "dockerEnvOf env platform dropped =
     (let drop = map (\<lambda>name. nameOn name platform) dropped
      in filter (\<lambda>(name, _). \<not> (isComposeVariable name platform \<or> nameOn name platform \<in> set drop)) env)"

section \<open>A call of docker that failed\<close>

text \<open>What \<open>execFileSync\<close> throws: its code, status and signal when it has them, and its message.\<close>

record docker_error =
  de_code :: "string option"
  de_status :: "int option"
  de_signal :: "string option"
  de_message :: string

record ending =
  en_text :: string
  en_gateLimit :: bool

definition endingOf :: "docker_error \<Rightarrow> ending option" where
  "endingOf e =
     (if de_code e = Some ''ENOBUFS'' then
        Some \<lparr>en_text = ''printed more than the gate reads (ENOBUFS)'', en_gateLimit = True\<rparr>
      else
        (case de_status e of
           Some status \<Rightarrow> Some \<lparr>en_text = ''exited with code '' @ show_int status, en_gateLimit = False\<rparr>
         | None \<Rightarrow>
             (case de_signal e of
                Some signal \<Rightarrow> Some \<lparr>en_text = ''was ended by '' @ signal, en_gateLimit = False\<rparr>
              | None \<Rightarrow> None)))"

text \<open>\<open>/^[\w./:-]+$/\<close>, and the POSIX way to write a single quote inside quotes.\<close>

definition plain_arg_char :: "char \<Rightarrow> bool" where
  "plain_arg_char c \<longleftrightarrow> is_word c \<or> c \<in> {CHR ''.'', CHR ''/'', CHR '':'', CHR ''-''}"

definition shellArg :: "string \<Rightarrow> string" where
  "shellArg arg =
     (if arg \<noteq> [] \<and> list_all plain_arg_char arg then arg
      else CHR 39 # concat (map (\<lambda>c. if c = CHR 39 then [CHR 39, CHR 92, CHR 39, CHR 39] else [c]) arg) @ [CHR 39])"

definition commandOf :: "string list \<Rightarrow> string \<times> string option" where
  "commandOf args =
     (''docker '' @ join_str '' '' (map shellArg (''compose'' # args)),
      if list_ex (\<lambda>arg. CHR 39 \<in> set arg) args then Some ''(POSIX sh quoting)'' else None)"

definition composeFailureOf :: "docker_error \<Rightarrow> (string \<Rightarrow> string list) \<Rightarrow> string list" where
  "composeFailureOf e ranAndFailed =
     (case endingOf e of
        None \<Rightarrow> [de_message e]
      | Some ending \<Rightarrow>
          (if en_gateLimit ending then
             [''  docker compose '' @ en_text ending
              @ '' - a limit of this gate, not a fault of the Compose files; what it printed is not repeated here'']
           else ranAndFailed (en_text ending)))"

definition repeatable :: "string \<times> string option \<Rightarrow> bool \<Rightarrow> string \<Rightarrow> string list" where
  "repeatable repeat fromEnv ending =
     (case repeat of (command, note) \<Rightarrow>
        [''  docker compose '' @ ending @ ''; ''
           @ (if fromEnv then ''what it printed is not repeated here - it can carry values from .env''
              else ''what it printed is not repeated here''),
         ''  to read it, run: '' @ command]
        @ (case note of None \<Rightarrow> [] | Some n \<Rightarrow> [''  '' @ n]))"

definition EMPTY_ENV_PLACEHOLDER :: string where
  "EMPTY_ENV_PLACEHOLDER = ''<empty env file>''"

definition CONTROL_ENV_PLACEHOLDER :: string where
  "CONTROL_ENV_PLACEHOLDER = ''<control env file>''"

section \<open>The gate\<close>

text \<open>
  What \<open>main\<close> works with: docker, the disk and the environment of the process; the paths of the
  platform are those of \<open>gd_project\<close>, whose files are set by the gate.
\<close>

record 'w gate_deps =
  gd_compose :: "string list \<Rightarrow> environment \<Rightarrow> ('w, docker_error, string) io"
  gd_read :: "string \<Rightarrow> Repo_Files.thrown + string option"
  gd_realpath :: "string \<Rightarrow> Repo_Files.thrown + string"
  gd_env :: environment
  gd_platform :: string
  gd_parse :: "string \<Rightarrow> json option"
  gd_byteLength :: "string \<Rightarrow> nat"
  gd_project :: project
  gd_absolute :: "string \<Rightarrow> string"
  gd_repoRoot :: string
  gd_scratch :: string

text \<open>The world, the calls of docker with their environment, the files of the scratch directory, and the lines.\<close>

record 'w gate =
  ga_world :: 'w
  ga_calls :: "(string list \<times> environment) list"
  ga_scratch :: "(string \<times> string) list"
  ga_out :: "string list"
  ga_err :: "string list"

datatype gate_exit = Exit nat | Throws Repo_Files.thrown

definition err_lines :: "string list \<Rightarrow> 'w gate \<Rightarrow> 'w gate" where
  "err_lines ls g = g\<lparr>ga_err := ga_err g @ ls\<rparr>"

definition write_file :: "string \<Rightarrow> string \<Rightarrow> 'w gate \<Rightarrow> 'w gate" where
  "write_file path content g = g\<lparr>ga_scratch := ga_scratch g @ [(path, content)]\<rparr>"

text \<open>The canonical path, or the failure printed.\<close>

definition resolved :: "'w gate_deps \<Rightarrow> string \<Rightarrow> string \<Rightarrow> string list + string" where
  "resolved d path what =
     (case canonical (gd_realpath d) path of
        Inr p \<Rightarrow> Inr p
      | Inl e \<Rightarrow>
          Inl [''check-compose: cannot resolve '' @ what @ '' '' @ path,
               Repo_Files.messageOf (case e of Error_Thrown _ _ (Some cause) \<Rightarrow> cause | _ \<Rightarrow> e)])"

definition configArgs :: "string \<Rightarrow> string \<Rightarrow> string list \<Rightarrow> string list" where
  "configArgs composeFile envFile output =
     [''--env-file'', envFile, ''-f'', composeFile, ''--profile'', ''*'', ''config''] @ output
     @ [''--format'', ''json'']"

definition renderArgs :: "string \<Rightarrow> string \<Rightarrow> string list" where
  "renderArgs composeFile envFile = configArgs composeFile envFile [''--no-env-resolution'']"

definition variablesArgs :: "string \<Rightarrow> string \<Rightarrow> string list" where
  "variablesArgs composeFile envFile = configArgs composeFile envFile [''--variables'']"

definition VERSION_ARGS :: "string list" where
  "VERSION_ARGS = [''version'', ''--short'']"

definition RENDERING_PROBE :: string where
  "RENDERING_PROBE =
     join_str [CHR 10]
       [''services:'', ''  probe:'', ''    image: probe'', ''    volumes:'', ''      - type: bind'',
        ''        source: ./'' @ RENDERING_PROBE_SOURCE, ''        target: /probe.env'', ''        bind:'',
        ''          create_host_path: false'', '''']"

text \<open>Runs docker and hands its output to \<open>read_as\<close>; \<open>None\<close>, with the failure printed.\<close>

definition attempt ::
  "'w gate_deps \<Rightarrow> environment \<Rightarrow> string \<Rightarrow> string list \<Rightarrow> (string \<Rightarrow> 'a option) \<Rightarrow> (string \<Rightarrow> string list) \<Rightarrow>
     'w gate \<Rightarrow> 'a option \<times> 'w gate" where
  "attempt d dockerEnv what args read_as ranAndFailed g =
     (case gd_compose d args dockerEnv (ga_world g) of
        (r, w) \<Rightarrow>
          (let g1 = g\<lparr>ga_world := w, ga_calls := ga_calls g @ [(args, dockerEnv)]\<rparr>
           in case r of
                Inl e \<Rightarrow>
                  (None,
                   if de_code e = Some ''ENOENT'' then
                     err_lines [''check-compose: the docker CLI is not on PATH - install Docker (the daemon is not needed); the Compose files were not checked''] g1
                   else err_lines ((''check-compose: '' @ what) # composeFailureOf e ranAndFailed) g1)
              | Inr stdout \<Rightarrow>
                  (case read_as stdout of
                     Some v \<Rightarrow> (Some v, g1)
                   | None \<Rightarrow>
                       (None,
                        err_lines [''check-compose: '' @ what,
                          ''  stdout is not JSON ('' @ show_nat (gd_byteLength d stdout) @ '' bytes)''] g1))))"

text \<open>A step of \<open>main\<close> after an attempt: nothing to go on with is the exit 1.\<close>

definition go_on ::
  "'a option \<times> 'w gate \<Rightarrow> ('a \<Rightarrow> 'w gate \<Rightarrow> (gate_exit \<times> 'w gate) option) \<Rightarrow> (gate_exit \<times> 'w gate) option" where
  "go_on r k = (case r of (None, g) \<Rightarrow> Some (Exit 1, g) | (Some v, g) \<Rightarrow> k v g)"

definition refuse :: "string list \<Rightarrow> 'w gate \<Rightarrow> (gate_exit \<times> 'w gate) option" where
  "refuse ls g = Some (Exit 1, err_lines ls g)"

text \<open>A read or a realpath that fails carries the path it was for; a path not there is an answer.\<close>

definition readInput :: "'w gate_deps \<Rightarrow> string \<Rightarrow> Repo_Files.thrown + string option" where
  "readInput d path = (case gd_read d path of Inr t \<Rightarrow> Inr t | Inl e \<Rightarrow> Inl (UnreadableInputError path e))"

definition realpathInput :: "'w gate_deps \<Rightarrow> string \<Rightarrow> Repo_Files.thrown + string" where
  "realpathInput d path =
     (case gd_realpath d path of
        Inr p \<Rightarrow> Inr p
      | Inl e \<Rightarrow> if isGone e then Inl e else Inl (UnreadableInputError path e))"

definition gate_project :: "'w gate_deps \<Rightarrow> string \<Rightarrow> string \<Rightarrow> project" where
  "gate_project d file rootDir =
     (gd_project d)\<lparr>p_composeFile := file, p_envFile := p_join (gd_project d) rootDir ''.env'',
       p_testEnvFile := p_join (gd_project d) rootDir ''.env.test'', p_read := readInput d,
       p_realpath := realpathInput d, p_platform := gd_platform d\<rparr>"

definition checked :: "'w gate_deps \<Rightarrow> string \<Rightarrow> string \<Rightarrow> json \<Rightarrow> json \<Rightarrow> 'w gate \<Rightarrow> (gate_exit \<times> 'w gate) option" where
  "checked d file rootDir config controlled g =
     (case checkCompose config (gate_project d file rootDir) RULE_IDS of
        None \<Rightarrow> None
      | Some (Inl (UnreadableInputError path cause)) \<Rightarrow>
          refuse [''check-compose: cannot read '' @ path @ '', a file the rules check'',
                  Repo_Files.messageOf cause] g
      | Some (Inl e) \<Rightarrow> Some (Throws e, g)
      | Some (Inr ps) \<Rightarrow>
          (let problems = ps @ checkInterpolation config controlled INTERPOLATED
           in if problems \<noteq> [] then
                refuse ((''check-compose: '' @ file) # map (\<lambda>p. ''  '' @ p) problems) g
              else Some (Exit 0, g\<lparr>ga_out := ga_out g @ [''check-compose: clean'']\<rparr>)))"

definition empty_env_hint :: string where
  "empty_env_hint = ''  (create an empty file and pass its path as --env-file)''"

text \<open>The two renders of the stack and the rules.\<close>

definition render_and_check ::
  "'w gate_deps \<Rightarrow> string \<Rightarrow> string \<Rightarrow> string list \<Rightarrow> 'w gate \<Rightarrow> (gate_exit \<times> 'w gate) option" where
  "render_and_check d file rootDir names g =
     (let join0 = p_join (gd_project d) (gd_scratch d); dockerEnv = dockerEnvOf (gd_env d) (gd_platform d) names
      in go_on (attempt d dockerEnv (''docker compose config failed for '' @ file)
             (renderArgs file (join0 ''empty.env'')) (gd_parse d)
             (\<lambda>ending. repeatable (commandOf (renderArgs file EMPTY_ENV_PLACEHOLDER)) True ending @ [empty_env_hint]) g)
           (\<lambda>config g1.
         let controlEnvFile = join0 ''control.env'';
             g2 = write_file controlEnvFile (controlEnvOf names INTERPOLATED) g1
         in go_on (attempt d dockerEnv
                (''docker compose config failed for '' @ file @ '' with the control values of its variables'')
                (renderArgs file controlEnvFile) (gd_parse d)
                (\<lambda>ending. repeatable (commandOf (renderArgs file CONTROL_ENV_PLACEHOLDER)) True ending
                   @ [''  (pass as --env-file a file with NAME=control for each variable of INTERPOLATED in scripts/compose-rules.mjs)'']) g2)
              (\<lambda>controlled g3. checked d file rootDir config controlled g3)))"

text \<open>The rendering probe that failed: the version of Compose is asked for and told.\<close>

definition probe_failed :: "'w gate_deps \<Rightarrow> environment \<Rightarrow> string list \<Rightarrow> 'w gate \<Rightarrow> (gate_exit \<times> 'w gate) option" where
  "probe_failed d dockerEnv problems g =
     go_on (attempt d dockerEnv ''docker compose version failed after the rendering probe failed'' VERSION_ARGS
          (\<lambda>stdout. Some (trim stdout)) (repeatable (commandOf VERSION_ARGS) False)
          (err_lines (''check-compose: the rendering probe failed'' # map (\<lambda>p. ''  '' @ p) problems) g))
        (\<lambda>version. refuse [''  docker compose version: '' @ version])"

definition gate_on :: "'w gate_deps \<Rightarrow> string \<Rightarrow> string \<Rightarrow> 'w gate \<Rightarrow> (gate_exit \<times> 'w gate) option" where
  "gate_on d file rootDir g0 =
     (let join0 = p_join (gd_project d) (gd_scratch d);
          emptyEnvFile = join0 ''empty.env''; probeFile = join0 ''probe.yaml'';
          g = write_file (join0 RENDERING_PROBE_SOURCE) [] (write_file probeFile RENDERING_PROBE (write_file emptyEnvFile [] g0));
          dockerEnv = dockerEnvOf (gd_env d) (gd_platform d) []
      in go_on (attempt d dockerEnv
             ''docker compose config failed for the rendering probe - the Compose CLI itself, not a file of this repository''
             (renderArgs probeFile emptyEnvFile) (gd_parse d)
             (\<lambda>ending. [''  the rendering probe built into the gate failed: docker compose '' @ ending
                @ ''; run '' @ [CHR 96] @ ''docker compose version'' @ [CHR 96]]) g)
           (\<lambda>probe g1.
         if checkRendering probe \<noteq> [] then probe_failed d dockerEnv (checkRendering probe) g1
         else go_on (attempt d dockerEnv (''docker compose config --variables failed for '' @ file)
                (variablesArgs file emptyEnvFile) (gd_parse d)
                (\<lambda>ending. repeatable (commandOf (variablesArgs file EMPTY_ENV_PLACEHOLDER)) True ending @ [empty_env_hint]) g1)
              (\<lambda>variables g2.
           case checkVariables variables INTERPOLATED of
             (names, problems) \<Rightarrow>
               (if problems \<noteq> [] then
                  refuse ((''check-compose: '' @ file) # map (\<lambda>p. ''  '' @ p) problems) g2
                else render_and_check d file rootDir names g2))))"

text \<open>The scratch directory is removed whatever comes.\<close>

definition main_gate :: "'w gate_deps \<Rightarrow> string list \<Rightarrow> 'w \<Rightarrow> (gate_exit \<times> 'w gate) option" where
  "main_gate d argv w =
     (let g = \<lparr>ga_world = w, ga_calls = [], ga_scratch = [], ga_out = [], ga_err = []\<rparr>;
          given = gd_absolute d (case argv of a # _ \<Rightarrow> a | [] \<Rightarrow> p_join (gd_project d) (gd_repoRoot d) ''compose.yaml'')
      in case resolved d given ''the Compose file'' of
           Inl ls \<Rightarrow> refuse ls g
         | Inr file \<Rightarrow>
             (case resolved d (gd_repoRoot d) ''the root of the repository'' of
                Inl ls \<Rightarrow> refuse ls g
              | Inr rootDir \<Rightarrow>
                  (if p_dirname (gd_project d) file \<noteq> rootDir then
                     refuse [''check-compose: '' @ file @ '' is not at the root of the repository - Compose would take ''
                       @ p_dirname (gd_project d) file
                       @ '' as the project directory; check the root compose.yaml (node scripts/check-compose.mjs), which includes the files of infra/''] g
                   else if stackChangingIn (gd_env d) (gd_platform d) \<noteq> [] then
                     refuse (map (\<lambda>name. ''check-compose: '' @ name
                       @ '' is set in the environment of the gate - docker compose up from this shell would bring up another stack than the one checked; unset it and run the gate again (its value is not printed)'')
                       (stackChangingIn (gd_env d) (gd_platform d))) g
                   else map_option (\<lambda>(e, g1). (e, g1\<lparr>ga_scratch := []\<rparr>)) (gate_on d file rootDir g))))"

section \<open>What the exit code 0 says\<close>

lemma go_on_Some:
  "go_on r k = Some x \<longleftrightarrow>
     (\<exists>g. r = (None, g) \<and> x = (Exit 1, g)) \<or> (\<exists>v g. r = (Some v, g) \<and> k v g = Some x)"
  by (cases r; cases "fst r") (auto simp: go_on_def)

lemma go_on_zero: "go_on r k = Some (Exit 0, h) \<longleftrightarrow> (\<exists>v g. r = (Some v, g) \<and> k v g = Some (Exit 0, h))"
  by (auto simp: go_on_Some)

lemma refuse_zero [simp]: "refuse ls g \<noteq> Some (Exit 0, h)"
  by (simp add: refuse_def)

lemma attempt_ok:
  assumes "attempt d e what args read_as lines g = (Some v, h)"
  shows "ga_calls h = ga_calls g @ [(args, e)] \<and> ga_err h = ga_err g \<and> ga_out h = ga_out g \<and>
    (\<exists>stdout. fst (gd_compose d args e (ga_world g)) = Inr stdout \<and> read_as stdout = Some v)"
  using assms by (auto simp: attempt_def Let_def split: prod.splits sum.splits option.splits if_splits)

lemma write_file_simps [simp]:
  "ga_calls (write_file p c g) = ga_calls g" "ga_err (write_file p c g) = ga_err g"
  "ga_out (write_file p c g) = ga_out g"
  by (simp_all add: write_file_def)

lemma checked_zero:
  assumes "checked d file rootDir config controlled g = Some (Exit 0, h)"
  shows "checkCompose config (gate_project d file rootDir) RULE_IDS = Some (Inr []) \<and>
    checkInterpolation config controlled INTERPOLATED = [] \<and> ga_calls h = ga_calls g \<and> ga_err h = ga_err g \<and>
    ga_out h = ga_out g @ [''check-compose: clean'']"
  using assms
  by (auto simp: checked_def Let_def split: option.splits sum.splits Repo_Files.thrown.splits if_splits)

lemma render_zero:
  assumes "render_and_check d file rootDir names g = Some (Exit 0, h)"
  shows "\<exists>config controlled.
    checkCompose config (gate_project d file rootDir) RULE_IDS = Some (Inr []) \<and>
    checkInterpolation config controlled INTERPOLATED = [] \<and>
    ga_calls h = ga_calls g @
      [(renderArgs file (p_join (gd_project d) (gd_scratch d) ''empty.env''), dockerEnvOf (gd_env d) (gd_platform d) names),
       (renderArgs file (p_join (gd_project d) (gd_scratch d) ''control.env''), dockerEnvOf (gd_env d) (gd_platform d) names)] \<and>
    ga_err h = ga_err g \<and> ga_out h = ga_out g @ [''check-compose: clean'']"
  using assms unfolding render_and_check_def Let_def go_on_zero
  by (elim exE conjE) (drule attempt_ok checked_zero, drule attempt_ok checked_zero, drule attempt_ok checked_zero, auto)

lemma gate_on_zero:
  assumes "gate_on d file rootDir g = Some (Exit 0, h)"
  shows "\<exists>variables names config controlled.
    checkVariables variables INTERPOLATED = (names, []) \<and>
    checkCompose config (gate_project d file rootDir) RULE_IDS = Some (Inr []) \<and>
    checkInterpolation config controlled INTERPOLATED = [] \<and>
    ga_calls h = ga_calls g @
      [(renderArgs (p_join (gd_project d) (gd_scratch d) ''probe.yaml'') (p_join (gd_project d) (gd_scratch d) ''empty.env''),
          dockerEnvOf (gd_env d) (gd_platform d) []),
       (variablesArgs file (p_join (gd_project d) (gd_scratch d) ''empty.env''), dockerEnvOf (gd_env d) (gd_platform d) []),
       (renderArgs file (p_join (gd_project d) (gd_scratch d) ''empty.env''), dockerEnvOf (gd_env d) (gd_platform d) names),
       (renderArgs file (p_join (gd_project d) (gd_scratch d) ''control.env''), dockerEnvOf (gd_env d) (gd_platform d) names)] \<and>
    ga_err h = ga_err g \<and> ga_out h = ga_out g @ [''check-compose: clean'']"
proof -
  let ?join = "p_join (gd_project d) (gd_scratch d)"
  let ?g0 = "write_file (?join RENDERING_PROBE_SOURCE) [] (write_file (?join ''probe.yaml'') RENDERING_PROBE
    (write_file (?join ''empty.env'') [] g))"
  from assms obtain probe g1 where a1: "attempt d (dockerEnvOf (gd_env d) (gd_platform d) [])
      ''docker compose config failed for the rendering probe - the Compose CLI itself, not a file of this repository''
      (renderArgs (?join ''probe.yaml'') (?join ''empty.env'')) (gd_parse d)
      (\<lambda>ending. [''  the rendering probe built into the gate failed: docker compose '' @ ending
                @ ''; run '' @ [CHR 96] @ ''docker compose version'' @ [CHR 96]]) ?g0 = (Some probe, g1)"
    and rest: "(if checkRendering probe \<noteq> [] then
        probe_failed d (dockerEnvOf (gd_env d) (gd_platform d) []) (checkRendering probe) g1
      else go_on (attempt d (dockerEnvOf (gd_env d) (gd_platform d) [])
             (''docker compose config --variables failed for '' @ file)
             (variablesArgs file (?join ''empty.env'')) (gd_parse d)
             (\<lambda>ending. repeatable (commandOf (variablesArgs file EMPTY_ENV_PLACEHOLDER)) True ending @ [empty_env_hint]) g1)
           (\<lambda>variables g2. case checkVariables variables INTERPOLATED of (names, problems) \<Rightarrow>
              (if problems \<noteq> [] then refuse ((''check-compose: '' @ file) # map (\<lambda>p. ''  '' @ p) problems) g2
               else render_and_check d file rootDir names g2))) = Some (Exit 0, h)"
    unfolding gate_on_def Let_def go_on_zero by blast
  have "probe_failed d e ps u \<noteq> Some (Exit 0, h)" for e ps u by (simp add: probe_failed_def go_on_zero)
  with rest have "checkRendering probe = []" by (auto split: if_splits)
  with rest obtain variables g2 where a2: "attempt d (dockerEnvOf (gd_env d) (gd_platform d) [])
             (''docker compose config --variables failed for '' @ file)
             (variablesArgs file (?join ''empty.env'')) (gd_parse d)
             (\<lambda>ending. repeatable (commandOf (variablesArgs file EMPTY_ENV_PLACEHOLDER)) True ending @ [empty_env_hint]) g1
      = (Some variables, g2)"
    and vars: "(case checkVariables variables INTERPOLATED of (names, problems) \<Rightarrow>
              (if problems \<noteq> [] then refuse ((''check-compose: '' @ file) # map (\<lambda>p. ''  '' @ p) problems) g2
               else render_and_check d file rootDir names g2)) = Some (Exit 0, h)"
    by (auto simp: go_on_zero)
  obtain names problems where cv: "checkVariables variables INTERPOLATED = (names, problems)" by fastforce
  with vars have clean: "problems = []" and ren: "render_and_check d file rootDir names g2 = Some (Exit 0, h)"
    by (auto split: if_splits)
  from render_zero [OF ren] obtain config controlled where
    "checkCompose config (gate_project d file rootDir) RULE_IDS = Some (Inr [])"
    "checkInterpolation config controlled INTERPOLATED = []"
    "ga_calls h = ga_calls g2 @
      [(renderArgs file (?join ''empty.env''), dockerEnvOf (gd_env d) (gd_platform d) names),
       (renderArgs file (?join ''control.env''), dockerEnvOf (gd_env d) (gd_platform d) names)]"
    "ga_err h = ga_err g2" "ga_out h = ga_out g2 @ [''check-compose: clean'']" by blast
  with attempt_ok [OF a1] attempt_ok [OF a2] cv clean show ?thesis
    by (intro exI [of _ variables] exI [of _ names] exI [of _ config] exI [of _ controlled]) simp
qed

definition given_file :: "'w gate_deps \<Rightarrow> string list \<Rightarrow> string" where
  "given_file d argv =
     gd_absolute d (case argv of a # _ \<Rightarrow> a | [] \<Rightarrow> p_join (gd_project d) (gd_repoRoot d) ''compose.yaml'')"


section \<open>Nothing docker printed is repeated\<close>

text \<open>
  What the gate may learn from a call: of one that ran and failed, how it ended; of one that never
  started, its message, which is Node's; of an answer, the JSON it is, or how long it was.
\<close>

definition seen :: "'w gate_deps \<Rightarrow> docker_error + string \<Rightarrow>
    (string option \<times> ending option \<times> string option) + (json option \<times> nat option)" where
  "seen d r =
     (case r of
        Inl e \<Rightarrow> Inl (if de_code e = Some ''ENOENT'' then Some ''ENOENT'' else None, endingOf e,
          if endingOf e = None then Some (de_message e) else None)
      | Inr stdout \<Rightarrow> Inr (gd_parse d stdout, if gd_parse d stdout = None then Some (gd_byteLength d stdout) else None))"

text \<open>The same gate on another docker.\<close>

definition on_docker :: "(string list \<Rightarrow> environment \<Rightarrow> ('w, docker_error, string) io) \<Rightarrow> 'w gate_deps \<Rightarrow> 'w gate_deps" where
  "on_docker compose d = d\<lparr>gd_compose := compose\<rparr>"

lemma on_docker_simps [simp]:
  "gd_compose (on_docker c d) = c" "gd_read (on_docker c d) = gd_read d" "gd_realpath (on_docker c d) = gd_realpath d"
  "gd_env (on_docker c d) = gd_env d" "gd_platform (on_docker c d) = gd_platform d" "gd_parse (on_docker c d) = gd_parse d"
  "gd_byteLength (on_docker c d) = gd_byteLength d" "gd_project (on_docker c d) = gd_project d"
  "gd_absolute (on_docker c d) = gd_absolute d" "gd_repoRoot (on_docker c d) = gd_repoRoot d"
  "gd_scratch (on_docker c d) = gd_scratch d" "resolved (on_docker c d) = resolved d"
  by (simp_all add: on_docker_def resolved_def fun_eq_iff)

lemma on_docker_project [simp]: "gate_project (on_docker c d) = gate_project d"
  by (simp add: gate_project_def readInput_def realpathInput_def fun_eq_iff)

lemma on_docker_checked [simp]: "checked (on_docker c d) = checked d"
  by (simp add: checked_def fun_eq_iff)

definition alike ::
  "'w gate_deps \<Rightarrow> (string list \<Rightarrow> environment \<Rightarrow> ('w, docker_error, string) io) \<Rightarrow>
     (string list \<Rightarrow> environment \<Rightarrow> ('w, docker_error, string) io) \<Rightarrow> bool" where
  "alike d c c' \<longleftrightarrow>
     (\<forall>args env w. snd (c args env w) = snd (c' args env w) \<and>
        (if args = VERSION_ARGS then fst (c args env w) = fst (c' args env w)
         else seen d (fst (c args env w)) = seen d (fst (c' args env w))))"

lemma attempt_alike:
  assumes "alike d c c'" and "args \<noteq> VERSION_ARGS"
  shows "attempt (on_docker c d) e what args (gd_parse d) lines g = attempt (on_docker c' d) e what args (gd_parse d) lines g"
proof -
  obtain r w where r: "c args e (ga_world g) = (r, w)" by fastforce
  obtain r' where r': "c' args e (ga_world g) = (r', w)"
    using assms(1) r unfolding alike_def by (metis prod.collapse snd_conv)
  have seen: "seen d r = seen d r'" using assms r r' unfolding alike_def by (metis fst_conv)
  show ?thesis
  proof (cases r)
    case (Inl x)
    with seen obtain y where y: "r' = Inl y" by (cases r') (auto simp: seen_def)
    with Inl seen have "(de_code x = Some ''ENOENT'') = (de_code y = Some ''ENOENT'')" "endingOf x = endingOf y"
      "endingOf x = None \<longrightarrow> de_message x = de_message y"
      by (auto simp: seen_def split: if_splits)
    then have "composeFailureOf x lines = composeFailureOf y lines"
      by (auto simp: composeFailureOf_def split: option.splits)
    with \<open>(de_code x = Some ''ENOENT'') = (de_code y = Some ''ENOENT'')\<close> Inl y r r' show ?thesis
      by (simp add: attempt_def Let_def)
  next
    case (Inr s)
    with seen obtain t where t: "r' = Inr t" by (cases r') (auto simp: seen_def)
    with Inr seen r r' show ?thesis
      by (auto simp: attempt_def seen_def Let_def split: option.splits if_splits)
  qed
qed

lemma attempt_version:
  assumes "alike d c c'"
  shows "attempt (on_docker c d) e what VERSION_ARGS read_as lines g = attempt (on_docker c' d) e what VERSION_ARGS read_as lines g"
proof -
  have "c VERSION_ARGS e (ga_world g) = c' VERSION_ARGS e (ga_world g)"
    using assms unfolding alike_def by (metis prod_eq_iff)
  then show ?thesis by (auto simp: attempt_def Let_def split: prod.split sum.split option.split)
qed

lemma not_version [simp]: "renderArgs f e \<noteq> VERSION_ARGS" "variablesArgs f e \<noteq> VERSION_ARGS"
  by (simp_all add: renderArgs_def variablesArgs_def configArgs_def VERSION_ARGS_def)

lemma attempts_alike:
  assumes "alike d c c'"
  shows "attempt (on_docker c d) e what (renderArgs f x) (gd_parse d) =
      attempt (on_docker c' d) e what (renderArgs f x) (gd_parse d)"
    and "attempt (on_docker c d) e what (variablesArgs f x) (gd_parse d) =
      attempt (on_docker c' d) e what (variablesArgs f x) (gd_parse d)"
    and "attempt (on_docker c d) e what VERSION_ARGS read_as = attempt (on_docker c' d) e what VERSION_ARGS read_as"
  by (intro ext attempt_alike [OF assms] attempt_version [OF assms] not_version)+

lemma render_alike:
  assumes "alike d c c'"
  shows "render_and_check (on_docker c d) = render_and_check (on_docker c' d)"
  unfolding fun_eq_iff render_and_check_def Let_def on_docker_simps attempts_alike [OF assms] on_docker_checked
  by simp

lemma gate_on_alike:
  assumes "alike d c c'"
  shows "gate_on (on_docker c d) = gate_on (on_docker c' d)"
  unfolding fun_eq_iff gate_on_def Let_def on_docker_simps attempts_alike [OF assms] render_alike [OF assms]
    probe_failed_def
  by simp


text \<open>A docker that fails every call but the one for its version.\<close>

definition failing_docker :: "string \<Rightarrow> string list \<Rightarrow> environment \<Rightarrow> (unit, docker_error, string) io" where
  "failing_docker message args env w =
     (if args = VERSION_ARGS then Inr ''2.0'' else
      Inl \<lparr>de_code = None, de_status = Some 1, de_signal = None, de_message = message\<rparr>, w)"

text \<open>A docker that answers each call with a token, and the JSON each token is read as.\<close>

definition clean_docker :: "string list \<Rightarrow> environment \<Rightarrow> (unit, docker_error, string) io" where
  "clean_docker args env w =
     (Inr (if ''--variables'' \<in> set args then ''V'' else if ''/t/probe.yaml'' \<in> set args then ''P'' else ''C''), w)"

definition probe_answer :: json where
  "probe_answer =
     Obj [(''services'', Obj [(''probe'', Obj [(''volumes'', Arr [Obj [(''bind'', Obj [(''create_host_path'', Bool False)])]])])])]"

definition clean_gate_deps :: "unit gate_deps" where
  "clean_gate_deps =
     \<lparr>gd_compose = clean_docker, gd_read = p_read clean_project,
      gd_realpath = (\<lambda>f. if f = ''/r'' then Inr ''/p'' else p_realpath clean_project f),
      gd_env = [(''PATH'', Some ''/bin''), (''COMPOSE_ANSI'', Some ''never''), (''WEB_PORT'', Some ''1'')],
      gd_platform = ''linux'',
      gd_parse = (\<lambda>t. if t = ''P'' then Some probe_answer else if t = ''V'' then Some (Obj [(''WEB_PORT'',
        Obj [(''Required'', Bool False), (''DefaultValue'', Str ''3000'')])]) else if t = ''C'' then Some clean_config else None),
      gd_byteLength = length, gd_project = clean_project, gd_absolute = (\<lambda>f. f), gd_repoRoot = ''/r'',
      gd_scratch = ''/t''\<rparr>"

lemma same_render: "checkInterpolation v v allowed = []"
proof -
  have "path_problems ls ls allowed path = []" if "path \<in> fst ` set ls" for ls path
  proof -
    from that obtain x where "map_of ls path = Some x" by (metis map_of_eq_None_iff not_None_eq)
    then show ?thesis by (simp add: path_problems_def same_leaf_def)
  qed
  then show ?thesis by (auto simp: checkInterpolation_def Let_def)
qed

lemma clean_gate_rules:
  "checkCompose clean_config (gate_project clean_gate_deps ''/p/compose.yaml'' ''/p'') RULE_IDS = Some (Inr [])"
proof -
  have "gate_project clean_gate_deps ''/p/compose.yaml'' ''/p'' =
      clean_project\<lparr>p_realpath := realpathInput clean_gate_deps\<rparr>"
    by (simp add: gate_project_def clean_gate_deps_def clean_project_def readInput_def fun_eq_iff)
  moreover have "checkCompose clean_config (clean_project\<lparr>p_realpath := realpathInput clean_gate_deps\<rparr>) RULE_IDS =
      Some (Inr [])"
    by code_simp
  ultimately show ?thesis by (simp only:)
qed

lemma clean_answers:
  "checkRendering probe_answer = []"
  "checkVariables (Obj [(''WEB_PORT'', Obj [(''Required'', Bool False), (''DefaultValue'', Str ''3000'')])]) INTERPOLATED =
     ([''WEB_PORT''], [])"
  "stackChangingIn (gd_env clean_gate_deps) (gd_platform clean_gate_deps) = []"
  by code_simp+

lemma clean_attempts:
  "attempt clean_gate_deps e what (renderArgs ''/t/probe.yaml'' ''/t/empty.env'') (gd_parse clean_gate_deps) lines g =
     (Some probe_answer, g\<lparr>ga_calls := ga_calls g @ [(renderArgs ''/t/probe.yaml'' ''/t/empty.env'', e)]\<rparr>)"
  "attempt clean_gate_deps e what (variablesArgs ''/p/compose.yaml'' ''/t/empty.env'') (gd_parse clean_gate_deps) lines g =
     (Some (Obj [(''WEB_PORT'', Obj [(''Required'', Bool False), (''DefaultValue'', Str ''3000'')])]),
      g\<lparr>ga_calls := ga_calls g @ [(variablesArgs ''/p/compose.yaml'' ''/t/empty.env'', e)]\<rparr>)"
  "attempt clean_gate_deps e what (renderArgs ''/p/compose.yaml'' ''/t/empty.env'') (gd_parse clean_gate_deps) lines g =
     (Some clean_config, g\<lparr>ga_calls := ga_calls g @ [(renderArgs ''/p/compose.yaml'' ''/t/empty.env'', e)]\<rparr>)"
  "attempt clean_gate_deps e what (renderArgs ''/p/compose.yaml'' ''/t/control.env'') (gd_parse clean_gate_deps) lines g =
     (Some clean_config, g\<lparr>ga_calls := ga_calls g @ [(renderArgs ''/p/compose.yaml'' ''/t/control.env'', e)]\<rparr>)"
  by (simp_all add: attempt_def clean_gate_deps_def clean_docker_def renderArgs_def variablesArgs_def configArgs_def)

lemma clean_paths:
  "gd_project clean_gate_deps = clean_project" "gd_scratch clean_gate_deps = ''/t''"
  "p_join clean_project a b = a @ ''/'' @ b" "p_dirname clean_project ''/p/compose.yaml'' = ''/p''"
  "gd_absolute clean_gate_deps f = f"
  "resolved clean_gate_deps ''/p/compose.yaml'' what = Inr ''/p/compose.yaml''"
  "resolved clean_gate_deps (gd_repoRoot clean_gate_deps) what = Inr ''/p''"
  by (simp_all add: clean_gate_deps_def clean_project_def resolved_def canonical_def)

lemma clean_gate_run:
  "\<exists>g. main_gate clean_gate_deps [''/p/compose.yaml''] () = Some (Exit 0, g)"
proof -
  have "\<exists>g'. render_and_check clean_gate_deps ''/p/compose.yaml'' ''/p'' names g = Some (Exit 0, g')" for names g
    by (simp add: render_and_check_def clean_paths clean_attempts go_on_def checked_def clean_gate_rules same_render Let_def)
  then have "\<exists>g'. gate_on clean_gate_deps ''/p/compose.yaml'' ''/p'' g = Some (Exit 0, g')" for g
    by (simp add: gate_on_def clean_paths clean_attempts go_on_def clean_answers RENDERING_PROBE_SOURCE_def Let_def)
  then obtain g' where "gate_on clean_gate_deps ''/p/compose.yaml'' ''/p''
      \<lparr>ga_world = (), ga_calls = [], ga_scratch = [], ga_out = [], ga_err = []\<rparr> = Some (Exit 0, g')" by blast
  then show ?thesis
    by (simp add: main_gate_def Let_def clean_paths clean_answers)
qed



end
