(* ===== verification/Drift_Signs.thy ===== *)
theory Drift_Signs
  imports Repo_Files "HOL-Library.Char_ord" "HOL-Library.List_Lexorder" "HOL-Library.Multiset"
begin

text \<open>
  What the gate of the migrations reads (scripts/check-schema-drift.mjs): the signs in the output of
  drizzle-kit, how a run of it ended and what it came to, the listing of the migrations folder and
  what changed between two listings.
\<close>

section \<open>The signs of the output\<close>

definition DRIZZLE_KIT_VERSION :: string where
  "DRIZZLE_KIT_VERSION = ''0.28.1''"

definition COPY_PREFIX :: string where
  "COPY_PREFIX = ''schema-drift-''"

definition STALE_COPY_MS :: int where
  "STALE_COPY_MS = 30 * 60000"

definition DRIZZLE_KIT_TIMEOUT_MS :: nat where
  "DRIZZLE_KIT_TIMEOUT_MS = 60000"

definition MAX_BUFFER :: nat where
  "MAX_BUFFER = 16 * 1024 * 1024"

definition letter :: "char \<Rightarrow> bool" where
  "letter c = (let n = (of_char c :: nat) in (65 \<le> n \<and> n \<le> 90) \<or> (97 \<le> n \<and> n \<le> 122))"

definition word_char :: "char \<Rightarrow> bool" where
  "word_char c \<longleftrightarrow> letter c \<or> is_digit c \<or> c = CHR ''_''"

definition dot_char :: "char \<Rightarrow> bool" where
  "dot_char c \<longleftrightarrow> c \<noteq> CHR 10 \<and> c \<noteq> CHR 13"

text \<open>\<open>ESC [ ... letter\<close>, taken out everywhere: an escape that does not end stays.\<close>

definition escape_end :: "string \<Rightarrow> string option" where
  "escape_end s =
     (case dropWhile (\<lambda>c. is_digit c \<or> c = CHR '';'' \<or> c = CHR ''?'') s of
        [] \<Rightarrow> None
      | c # rest \<Rightarrow> if letter c then Some rest else None)"

lemma escape_end_shorter: "escape_end s = Some rest \<Longrightarrow> length rest < length s"
proof -
  assume "escape_end s = Some rest"
  then obtain c where "dropWhile (\<lambda>c. is_digit c \<or> c = CHR '';'' \<or> c = CHR ''?'') s = c # rest"
    by (auto simp: escape_end_def split: list.splits if_splits)
  then show ?thesis
    using length_dropWhile_le [of "\<lambda>c. is_digit c \<or> c = CHR '';'' \<or> c = CHR ''?''" s] by simp
qed

function unescape :: "string \<Rightarrow> string" where
  "unescape [] = []"
| "unescape (c # cs) =
     (if c = CHR 27 \<and> cs \<noteq> [] \<and> hd cs = CHR ''['' then
        (case escape_end (tl cs) of Some rest \<Rightarrow> unescape rest | None \<Rightarrow> c # unescape cs)
      else c # unescape cs)"
  by pat_completeness auto
termination
  by (relation "measure length") (auto dest!: escape_end_shorter)

text \<open>\<open>split(/\r?\n/)\<close>: one carriage return before a line feed goes with it.\<close>

definition without_cr :: "string \<Rightarrow> string" where
  "without_cr l = (if l \<noteq> [] \<and> last l = CHR 13 then butlast l else l)"

definition output_lines :: "string \<Rightarrow> string list" where
  "output_lines t =
     (let ls = split_on (CHR 10) t in map unescape (map without_cr (butlast ls) @ [last ls]))"

text \<open>The first part of a line after \<open>prefix\<close>; and every way to cut a line in two around a text.\<close>

definition after_text :: "string \<Rightarrow> string \<Rightarrow> string option" where
  "after_text t l = (if starts_with t l then Some (drop (length t) l) else None)"

definition cuts :: "string \<Rightarrow> string \<Rightarrow> (string \<times> string) list" where
  "cuts t l =
     concat (map (\<lambda>i. case after_text t (drop i l) of Some rest \<Rightarrow> [(take i l, rest)] | None \<Rightarrow> []) [0 ..< Suc (length l)])"

datatype sign = Clean_sign | Wrote_sign | Rename_question | Collision | Malformed | Fine_sign

definition word_end :: "string option \<Rightarrow> bool" where
  "word_end rest = (case rest of None \<Rightarrow> False | Some [] \<Rightarrow> True | Some (c # _) \<Rightarrow> \<not> word_char c)"

definition dots :: "string \<Rightarrow> bool" where
  "dots s \<longleftrightarrow> s \<noteq> [] \<and> list_all dot_char s"

definition pointed :: "string \<Rightarrow> bool" where
  "pointed l =
     (case after_text ''['' l of
        None \<Rightarrow> False
      | Some rest \<Rightarrow> list_ex (\<lambda>(a, b). dots a \<and>
            list_ex (\<lambda>(parent, end). dots parent \<and> end = []) (cuts '' which is a collision.'' b))
          (cuts ''] are pointing to a parent snapshot: '' rest))"

text \<open>Each sign against one whole line.\<close>

fun has_sign :: "sign \<Rightarrow> string \<Rightarrow> bool" where
  "has_sign Clean_sign l = word_end (after_text ''No schema changes, nothing to migrate'' l)"
| "has_sign Wrote_sign l =
     (case after_text ''['' l of
        None \<Rightarrow> False
      | Some rest \<Rightarrow> starts_with ''] Your SQL migration file '' (dropWhile (\<lambda>c. c \<noteq> CHR '']'') rest))"
| "has_sign Rename_question l =
     (case after_text ''Is '' l of
        None \<Rightarrow> False
      | Some rest \<Rightarrow> list_ex (\<lambda>(a, b). dots a \<and> length b \<ge> 2 \<and> last b = CHR ''?'' \<and> list_all (\<lambda>c. \<not> is_space c) b)
          (cuts '' created or renamed from another '' rest))"
| "has_sign Collision l = (pointed l \<or> (case after_text ''Error: '' l of Some rest \<Rightarrow> pointed rest | None \<Rightarrow> False))"
| "has_sign Malformed l =
     list_ex (\<lambda>(a, b). a \<noteq> [] \<and> \<not> is_space (hd a) \<and> list_all dot_char (tl a) \<and> b = []) (cuts '' data is malformed'' l)"
| "has_sign Fine_sign l = word_end (after_text (''Everything'' @ [CHR 39] @ ''s fine'') l)"

definition signsIn :: "string \<Rightarrow> sign \<Rightarrow> bool" where
  "signsIn output s = list_ex (has_sign s) (output_lines output)"

section \<open>What a run came to\<close>

text \<open>How drizzle-kit is started; what \<open>spawnSync\<close> gives, and the run as the classifiers read it.\<close>

record spawn_spec =
  ss_file :: string
  ss_args :: "string list"
  ss_cwd :: string
  ss_stdio :: "string list"
  ss_timeout :: nat

definition TSX :: string where
  "TSX = ''tsx''"

definition DRIZZLE_KIT_BIN :: string where
  "DRIZZLE_KIT_BIN = ''./node_modules/drizzle-kit/bin.cjs''"

definition DRIZZLE_KIT_RUNS :: nat where
  "DRIZZLE_KIT_RUNS = 2"

definition drizzleKitSpec :: "string \<Rightarrow> string \<Rightarrow> string list \<Rightarrow> spawn_spec" where
  "drizzleKitSpec execPath cwd args =
     \<lparr>ss_file = execPath, ss_args = [''--import'', TSX, DRIZZLE_KIT_BIN] @ args, ss_cwd = cwd,
      ss_stdio = [''ignore'', ''pipe'', ''pipe''], ss_timeout = DRIZZLE_KIT_TIMEOUT_MS\<rparr>"

record spawn_result =
  sr_status :: "int option"
  sr_signal :: "string option"
  sr_stdout :: string
  sr_stderr :: string
  sr_error :: "thrown option"

record ended_run =
  er_output :: string
  er_status :: "int option"
  er_signal :: "string option"
  er_timedOut :: bool

datatype generate_outcome = Clean | Wrote | Rename | Snapshot_collision | Unfinished

datatype check_outcome = Fine | Inconsistent | Check_unfinished

definition timedOut :: "spawn_result \<Rightarrow> bool" where
  "timedOut run = (case sr_error run of Some e \<Rightarrow> codeOf e = Some ''ETIMEDOUT'' | None \<Rightarrow> False)"

definition ended :: "spawn_result \<Rightarrow> ended_run" where
  "ended run =
     (let joint = (if sr_stdout run = [] \<or> sr_stderr run = [] \<or> last (sr_stdout run) = CHR 10 then [] else [CHR 10])
      in \<lparr>er_output = sr_stdout run @ joint @ sr_stderr run, er_status = sr_status run,
          er_signal = sr_signal run, er_timedOut = timedOut run\<rparr>)"

definition classifyGenerate :: "ended_run \<Rightarrow> generate_outcome" where
  "classifyGenerate r =
     (let has = signsIn (er_output r)
      in if er_timedOut r \<or> er_signal r \<noteq> None then Unfinished
         else if has Collision then Snapshot_collision
         else if has Rename_question then Rename
         else if er_status r \<noteq> Some 0 then Unfinished
         else if has Wrote_sign then Wrote
         else if has Clean_sign then Clean
         else Unfinished)"

definition classifyCheck :: "ended_run \<Rightarrow> check_outcome" where
  "classifyCheck r =
     (let has = signsIn (er_output r)
      in if er_timedOut r \<or> er_signal r \<noteq> None then Check_unfinished
         else if er_status r = Some 0 \<and> has Fine_sign then Fine
         else if er_status r = Some 1 \<and> (has Collision \<or> has Malformed) then Inconsistent
         else Check_unfinished)"

definition drift_name :: string where
  "drift_name = ''check-schema-drift''"

definition said :: "string \<Rightarrow> string" where
  "said m = drift_name @ '': '' @ m"

definition spawnFailure :: "spawn_result \<Rightarrow> string \<Rightarrow> string option" where
  "spawnFailure run command =
     (case sr_error run of
        None \<Rightarrow> None
      | Some e \<Rightarrow>
          (if timedOut run then None
           else if codeOf e = Some ''ENOBUFS'' then
             Some (''drizzle-kit '' @ command @ '' printed more than '' @ show_nat MAX_BUFFER
               @ '' bytes - the check did not take place'')
           else Some (''cannot start drizzle-kit '' @ command @ '': '' @ messageOf e)))"

definition unfinishedWhy :: "spawn_result \<Rightarrow> string" where
  "unfinishedWhy run =
     (if timedOut run then ''stopped at the limit of '' @ show_nat DRIZZLE_KIT_TIMEOUT_MS @ '' ms''
      else (case sr_signal run of
              Some signal \<Rightarrow> ''killed by '' @ signal
            | None \<Rightarrow>
                (if sr_status run \<noteq> Some 0 then
                   ''exit code '' @ (case sr_status run of Some n \<Rightarrow> show_int n | None \<Rightarrow> ''null'')
                 else ''none of its closing lines printed'')))"

section \<open>The folder and its copy\<close>

datatype dir_entry = File string string | Directory string "dir_entry list"

text \<open>Every file under a directory by its path, with the hash of its content.\<close>

type_synonym listing = "(string \<times> string) list"

fun files_walk :: "(string \<Rightarrow> string) \<Rightarrow> string \<Rightarrow> dir_entry \<Rightarrow> listing" where
  "files_walk hash prefix (File name content) = [(prefix @ name, hash content)]"
| "files_walk hash prefix (Directory name entries) = concat (map (files_walk hash (prefix @ name @ ''/'')) entries)"

definition filesOf :: "(string \<Rightarrow> string) \<Rightarrow> dir_entry list \<Rightarrow> listing" where
  "filesOf hash entries = concat (map (files_walk hash []) entries)"

definition appeared_or_changed :: "listing \<Rightarrow> string \<times> string \<Rightarrow> string list" where
  "appeared_or_changed was = (\<lambda>(path, hash).
     case map_of was path of
       None \<Rightarrow> [''+ '' @ path]
     | Some h \<Rightarrow> if h \<noteq> hash then [''~ '' @ path] else [])"

definition changesOf :: "listing \<Rightarrow> listing \<Rightarrow> string list" where
  "changesOf was now =
     sort_key (drop 2)
       (concat (map (appeared_or_changed was) now)
        @ concat (map (\<lambda>(path, _). if map_of now path = None then [''- '' @ path] else []) was))"

section \<open>What changed in the copy\<close>

lemma appeared_or_changed_iff:
  assumes "distinct (map fst now)"
  shows "x \<in> set (concat (map (appeared_or_changed was) now)) \<longleftrightarrow>
    (\<exists>p. (x = ''+ '' @ p \<and> map_of was p = None \<and> map_of now p \<noteq> None) \<or>
         (x = ''~ '' @ p \<and> (\<exists>h k. map_of was p = Some h \<and> map_of now p = Some k \<and> h \<noteq> k)))"
proof -
  have now: "(p, k) \<in> set now \<longleftrightarrow> map_of now p = Some k" for p k using assms by simp
  have one: "x \<in> set (appeared_or_changed was (p, k)) \<longleftrightarrow>
      (map_of was p = None \<and> x = ''+ '' @ p) \<or> (\<exists>h. map_of was p = Some h \<and> h \<noteq> k \<and> x = ''~ '' @ p)" for p k
    by (cases "map_of was p") (auto simp: appeared_or_changed_def)
  have "x \<in> set (concat (map (appeared_or_changed was) now)) \<longleftrightarrow>
      (\<exists>p k. (p, k) \<in> set now \<and> x \<in> set (appeared_or_changed was (p, k)))"
    by (auto simp del: map_of_eq_Some_iff)
  also have "\<dots> \<longleftrightarrow> (\<exists>p k. map_of now p = Some k \<and> x \<in> set (appeared_or_changed was (p, k)))"
    by (simp only: now)
  finally show ?thesis unfolding one by blast
qed

lemma gone_iff:
  "x \<in> set (concat (map (\<lambda>(path, _). if map_of now path = None then [''- '' @ path] else []) was)) \<longleftrightarrow>
   (\<exists>p. x = ''- '' @ p \<and> map_of was p \<noteq> None \<and> map_of now p = None)"
proof -
  have "x \<in> set (concat (map (\<lambda>(path, _). if map_of now path = None then [''- '' @ path] else []) was)) \<longleftrightarrow>
      (\<exists>p \<in> fst ` set was. map_of now p = None \<and> x = ''- '' @ p)" by force
  then show ?thesis by (auto simp: map_of_eq_None_iff)
qed

lemma changes_iff:
  assumes "distinct (map fst now)"
  shows "x \<in> set (changesOf was now) \<longleftrightarrow>
    (\<exists>p. (x = ''+ '' @ p \<and> map_of was p = None \<and> map_of now p \<noteq> None) \<or>
         (x = ''~ '' @ p \<and> (\<exists>h k. map_of was p = Some h \<and> map_of now p = Some k \<and> h \<noteq> k)) \<or>
         (x = ''- '' @ p \<and> map_of was p \<noteq> None \<and> map_of now p = None))"
  unfolding changesOf_def set_sort set_append Un_iff appeared_or_changed_iff [OF assms] gone_iff by blast

lemma changes_Nil:
  assumes "distinct (map fst now)"
  shows "changesOf was now = [] \<longleftrightarrow> map_of was = map_of now"
proof
  assume none: "changesOf was now = []"
  have "map_of was p = map_of now p" for p
    using changes_iff [OF assms, of "''+ '' @ p" was] changes_iff [OF assms, of "''~ '' @ p" was]
      changes_iff [OF assms, of "''- '' @ p" was] none
    by (cases "map_of was p"; cases "map_of now p") auto
  then show "map_of was = map_of now" by blast
next
  assume "map_of was = map_of now"
  then have "x \<notin> set (changesOf was now)" for x by (auto simp: changes_iff [OF assms])
  then show "changesOf was now = []" by (metis list.set_intros(1) neq_Nil_conv)
qed

end
