(* ===== verification/Io_Wp.thy ===== *)
theory Io_Wp
  imports Prelude
begin

text \<open>
  Weakest preconditions of sequential code that may throw (\<open>Prelude.io\<close>): what must hold of the world
  before a call for one condition to hold of its answer and another of what it throws.  There is one
  equation per combinator, so that a proof about a composed call is a computation; a call that is a
  parameter is met by its rule, a loop by an invariant.
\<close>

named_theorems wp_simps \<open>the condition before each combinator\<close>

definition wp :: "('w, 'e, 'a) io \<Rightarrow> ('a \<Rightarrow> 'w \<Rightarrow> bool) \<Rightarrow> ('e \<Rightarrow> 'w \<Rightarrow> bool) \<Rightarrow> 'w \<Rightarrow> bool" where
  "wp m Q E w = (case m w of (Inr v, w1) \<Rightarrow> Q v w1 | (Inl e, w1) \<Rightarrow> E e w1)"

lemma wp_return [wp_simps]: "wp (io_return v) Q E w = Q v w"
  by (simp add: wp_def io_return_def)

lemma wp_throw [wp_simps]: "wp (io_throw e) Q E w = E e w"
  by (simp add: wp_def io_throw_def)

lemma wp_bind [wp_simps]: "wp (io_bind m f) Q E w = wp m (\<lambda>v. wp (f v) Q E) E w"
  by (simp add: wp_def io_bind_def split: prod.splits sum.splits)

lemma wp_catch [wp_simps]: "wp (io_catch m h) Q E w = wp m Q (\<lambda>e. wp (h e) Q E) w"
  by (simp add: wp_def io_catch_def split: prod.splits sum.splits)

lemma wp_finally [wp_simps]:
  "wp (io_finally m f) Q E w = wp m (\<lambda>v. wp f (\<lambda>_. Q v) E) (\<lambda>e. wp f (\<lambda>_. E e) E) w"
  by (simp add: wp_def io_finally_def split: prod.splits sum.splits)

lemma wp_if [wp_simps]: "wp (if b then m else n) Q E w = (if b then wp m Q E w else wp n Q E w)"
  by simp

lemma wp_chain:
  assumes "wp m P F w" and "\<And>v u. P v u \<Longrightarrow> Q v u" and "\<And>e u. F e u \<Longrightarrow> E e u"
  shows "wp m Q E w"
  using assms by (auto simp: wp_def split: prod.splits sum.splits)

lemma wp_conj:
  assumes "wp m P F w" and "wp m Q E w"
  shows "wp m (\<lambda>v u. P v u \<and> Q v u) (\<lambda>e u. F e u \<and> E e u) w"
  using assms by (auto simp: wp_def split: prod.splits sum.splits)

text \<open>What is known of a run is what the condition says of it.\<close>

lemma wp_run: "wp m Q E w \<Longrightarrow> m w = (r, w1) \<Longrightarrow> (case r of Inr v \<Rightarrow> Q v w1 | Inl e \<Rightarrow> E e w1)"
  by (simp add: wp_def split: sum.splits)

text \<open>A call for each element, one after the other.\<close>

fun io_each :: "('a \<Rightarrow> ('w, 'e, unit) io) \<Rightarrow> 'a list \<Rightarrow> ('w, 'e, unit) io" where
  "io_each f [] = io_return ()"
| "io_each f (x # xs) = io_bind (f x) (\<lambda>_. io_each f xs)"

lemma wp_each:
  assumes "I w" and "\<And>x u. x \<in> set xs \<Longrightarrow> I u \<Longrightarrow> wp (f x) (\<lambda>_. I) (\<lambda>_. I) u"
  shows "wp (io_each f xs) (\<lambda>_. I) (\<lambda>_. I) w"
  using assms
proof (induction xs arbitrary: w)
  case (Cons x xs)
  from Cons.prems(2) [of x w] Cons.prems(1) have "wp (f x) (\<lambda>_. I) (\<lambda>_. I) w" by simp
  then have "wp (f x) (\<lambda>_. wp (io_each f xs) (\<lambda>_. I) (\<lambda>_. I)) (\<lambda>_. I) w"
    by (rule wp_chain) (use Cons in auto)
  then show ?case by (simp add: wp_simps)
qed (simp add: wp_simps)

end
