(* ===== verification/Schema_Drift.thy ===== *)
theory Schema_Drift
  imports Drift_Signs Io_Wp
begin

text \<open>
  The gate of the schema and its migrations (scripts/check-schema-drift.mjs): drizzle-kit generates
  into a copy of the folder, what changed there is compared, and drizzle-kit checks the folder.  The
  disk, the clock and the runs of drizzle-kit are parameters that answer or throw; the order of the
  steps, the copies that are removed, what is told and the exit code are the code's.  The console
  is taken not to throw.
\<close>

section \<open>The run\<close>

text \<open>The version of a \<open>package.json\<close>, from its text; and the path \<open>--out\<close> names the copy by.\<close>

definition versionOf :: "(string \<Rightarrow> thrown + json) \<Rightarrow> string \<Rightarrow> thrown + string" where
  "versionOf parse text =
     and_then (parse text) (\<lambda>parsed.
       case jget parsed ''version'' of
         Some (Str v) \<Rightarrow> Inr v
       | _ \<Rightarrow> Inl (Error_Thrown None ''its package.json holds no version'' None))"

definition separator :: "char \<Rightarrow> bool" where
  "separator c \<longleftrightarrow> c = CHR ''/'' \<or> c = CHR 92"

definition win32_isAbsolute :: "string \<Rightarrow> bool" where
  "win32_isAbsolute p =
     (case p of
        [] \<Rightarrow> False
      | c # _ \<Rightarrow> separator c \<or> (length p > 2 \<and> letter c \<and> p ! 1 = CHR '':'' \<and> separator (p ! 2)))"

definition outOf :: "(string \<Rightarrow> string \<Rightarrow> string) \<Rightarrow> string \<Rightarrow> string \<Rightarrow> string option" where
  "outOf relativeOf cwd copy = (let path = relativeOf cwd copy in if win32_isAbsolute path then None else Some path)"

text \<open>
  The disk, the clock and drizzle-kit; each may throw.  \<open>dd_package\<close> reads the \<open>package.json\<close> of
  drizzle-kit, \<open>dd_copy\<close> copies the migrations into the directory, \<open>dd_files\<close> lists it (\<open>filesOf\<close>).
\<close>

record 'w drift_deps =
  dd_package :: "('w, thrown, string) io"
  dd_parse :: "string \<Rightarrow> thrown + json"
  dd_mkdir :: "('w, thrown, unit) io"
  dd_now :: "('w, thrown, int) io"
  dd_entries :: "('w, thrown, (string \<times> bool) list) io"
  dd_mtime :: "string \<Rightarrow> ('w, thrown, int) io"
  dd_removeDir :: "string \<Rightarrow> ('w, thrown, unit) io"
  dd_mkdtemp :: "('w, thrown, string) io"
  dd_relative :: "string \<Rightarrow> string \<Rightarrow> string"
  dd_copy :: "string \<Rightarrow> ('w, thrown, unit) io"
  dd_files :: "string \<Rightarrow> ('w, thrown, listing) io"
  dd_generate :: "spawn_spec \<Rightarrow> ('w, thrown, spawn_result) io"
  dd_check :: "spawn_spec \<Rightarrow> ('w, thrown, spawn_result) io"
  dd_execPath :: string
  dd_dbDir :: string
  dd_tempRoot :: string
  dd_join :: "string \<Rightarrow> string \<Rightarrow> string"

text \<open>The calls that were answered, with their answers, and the directories asked to be removed.\<close>

datatype drift_call =
    Package_read string
  | Made_root
  | Told_time int
  | Entries_of "(string \<times> bool) list"
  | Mtime_of string int
  | Removing string
  | Removed string
  | Made_copy string
  | Copied_into string
  | Listed string listing
  | Ran spawn_spec spawn_result

fun is_run :: "drift_call \<Rightarrow> bool" where
  "is_run (Ran _ _) = True"
| "is_run _ = False"

record 'w drift =
  dr_world :: 'w
  dr_trace :: "drift_call list"
  dr_out :: "string list"
  dr_err :: "string list"

type_synonym ('w, 'a) drift_io = "('w drift, thrown, 'a) io"

definition on_disk :: "('a \<Rightarrow> drift_call) \<Rightarrow> ('w, thrown, 'a) io \<Rightarrow> ('w, 'a) drift_io" where
  "on_disk call m s =
     (case m (dr_world s) of
        (Inr v, w) \<Rightarrow> (Inr v, s\<lparr>dr_world := w, dr_trace := dr_trace s @ [call v]\<rparr>)
      | (Inl e, w) \<Rightarrow> (Inl e, s\<lparr>dr_world := w\<rparr>))"

definition tell :: "string list \<Rightarrow> ('w, unit) drift_io" where
  "tell ls s = (Inr (), s\<lparr>dr_err := dr_err s @ ls\<rparr>)"

definition print :: "string list \<Rightarrow> ('w, unit) drift_io" where
  "print ls s = (Inr (), s\<lparr>dr_out := dr_out s @ ls\<rparr>)"

definition remove_dir :: "'w drift_deps \<Rightarrow> string \<Rightarrow> ('w, unit) drift_io" where
  "remove_dir d dir s =
     on_disk (\<lambda>_. Removed dir) (dd_removeDir d dir) (s\<lparr>dr_trace := dr_trace s @ [Removing dir]\<rparr>)"

definition trim_end :: "string \<Rightarrow> string" where
  "trim_end s = rev (dropWhile is_space (rev s))"

definition echo_output :: "string \<Rightarrow> ('w, unit) drift_io" where
  "echo_output output = print (if trim output \<noteq> [] then [trim_end output] else [])"

text \<open>A refusal: its lines, and the exit code.\<close>

definition refused :: "string list \<Rightarrow> 'a \<Rightarrow> ('w, 'a) drift_io" where
  "refused ls code = io_bind (tell ls) (\<lambda>_. io_return code)"

text \<open>A step in a \<open>try\<close> of its own: what it throws is told, and ends the run with a code.\<close>

definition or_refuse ::
  "('w, 'a) drift_io \<Rightarrow> (thrown \<Rightarrow> string list) \<Rightarrow> 'b \<Rightarrow> ('a \<Rightarrow> ('w, 'b) drift_io) \<Rightarrow> ('w, 'b) drift_io" where
  "or_refuse m lines code k s =
     (case m s of (Inl e, s1) \<Rightarrow> refused (lines e) code s1 | (Inr v, s1) \<Rightarrow> k v s1)"

definition GENERATE_COMMAND :: string where
  "GENERATE_COMMAND = ''pnpm db:generate --name <epic>''"

definition hint_of :: "generate_outcome \<Rightarrow> string" where
  "hint_of outcome =
     (case outcome of
        Wrote \<Rightarrow> ''the schema changed without its migration: run '' @ GENERATE_COMMAND @ '', then commit the migration''
      | Clean \<Rightarrow> ''drizzle-kit generate said there were no schema changes, yet changed the copy of the migrations folder (listed above) - the folder is not what generate keeps: run ''
          @ GENERATE_COMMAND @ '', look at what it changes in packages/db/migrations and commit it''
      | Rename \<Rightarrow> ''drizzle-kit generate asks whether a column or a table was created or renamed: run ''
          @ GENERATE_COMMAND @ '' locally, answer it and commit the migration''
      | Snapshot_collision \<Rightarrow> ''two migrations point to the same parent snapshot - two branches each added one: rebase on main, delete the migration of this branch and run ''
          @ GENERATE_COMMAND @ '' again, then commit it''
      | Unfinished \<Rightarrow> ''drizzle-kit generate did not finish - the check did not take place: run it from packages/db and read its output above'')"

definition HINT_check_failed :: string where
  "HINT_check_failed =
     ''drizzle-kit check finds the migrations folder inconsistent (output above): fix the folder - after a rebase, regenerate the migration of this branch with ''
     @ GENERATE_COMMAND"

definition HINT_check_unfinished :: string where
  "HINT_check_unfinished =
     ''drizzle-kit check did not finish - the check did not take place: run pnpm db:check from packages/db and read its output above''"

definition generate_args :: "string \<Rightarrow> string list" where
  "generate_args outArg =
     [''generate'', ''--dialect'', ''postgresql'', ''--schema'', ''./src/schema/index.ts'', ''--out'', outArg]"

definition run_kit ::
  "'w drift_deps \<Rightarrow> (spawn_spec \<Rightarrow> ('w, thrown, spawn_result) io) \<Rightarrow> string list \<Rightarrow> ('w, spawn_result) drift_io" where
  "run_kit d spawn args = (let spec = drizzleKitSpec (dd_execPath d) (dd_dbDir d) args in on_disk (Ran spec) (spawn spec))"

definition installedVersion :: "'w drift_deps \<Rightarrow> ('w, string) drift_io" where
  "installedVersion d =
     io_bind (on_disk Package_read (dd_package d)) (\<lambda>text.
       case versionOf (dd_parse d) text of Inl e \<Rightarrow> io_throw e | Inr v \<Rightarrow> io_return v)"

text \<open>Once generate ran to one of its ends: the copy is compared, whatever generate said.\<close>

definition compare_copy ::
  "'w drift_deps \<Rightarrow> string \<Rightarrow> listing \<Rightarrow> generate_outcome \<Rightarrow> ('w, nat option) drift_io" where
  "compare_copy d target was outcome =
     or_refuse (on_disk (Listed target) (dd_files d target))
       (\<lambda>e. [said (''cannot read the copy '' @ target @ '': '' @ messageOf e)]) (Some 2)
       (\<lambda>now. let changes = changesOf was now in
          if outcome = Clean \<and> changes = [] then io_return None
          else refused
            ((if changes \<noteq> [] then
                said ''generate changed the copy of the migrations folder (the tree is untouched):'' # map (\<lambda>c. ''  '' @ c) changes
              else []) @ [said (hint_of outcome)]) (Some 1))"

definition after_generate ::
  "'w drift_deps \<Rightarrow> string \<Rightarrow> listing \<Rightarrow> spawn_result \<Rightarrow> ('w, nat option) drift_io" where
  "after_generate d target was generate =
     io_bind (echo_output (er_output (ended generate))) (\<lambda>_.
       case spawnFailure generate ''generate'' of
         Some failure \<Rightarrow> refused [said failure] (Some 2)
       | None \<Rightarrow>
           (let outcome = classifyGenerate (ended generate)
            in if outcome = Unfinished then refused [said (unfinishedWhy generate), hint_of Unfinished] (Some 2)
               else compare_copy d target was outcome))"

definition generateInCopy :: "'w drift_deps \<Rightarrow> string \<Rightarrow> ('w, nat option) drift_io" where
  "generateInCopy d copy =
     (let target = dd_join d copy ''migrations''
      in case outOf (dd_relative d) (dd_dbDir d) target of
           None \<Rightarrow> refused [said (''the temporary copy '' @ target @ '' has no path relative to '' @ dd_dbDir d
             @ '' (another drive), and drizzle-kit '' @ DRIZZLE_KIT_VERSION
             @ '' reads --out relative to its working directory - the check did not take place'')] (Some 2)
         | Some outArg \<Rightarrow>
             or_refuse (io_bind (on_disk (\<lambda>_. Copied_into target) (dd_copy d target)) (\<lambda>_. on_disk (Listed target) (dd_files d target)))
               (\<lambda>e. [said (''cannot copy the migrations folder of '' @ dd_dbDir d @ '': '' @ messageOf e)]) (Some 2)
               (\<lambda>was. io_bind (run_kit d (dd_generate d) (generate_args outArg)) (after_generate d target was)))"

section \<open>Copies left behind\<close>

definition remove_stale :: "'w drift_deps \<Rightarrow> int \<Rightarrow> string \<times> bool \<Rightarrow> ('w, unit) drift_io" where
  "remove_stale d time entry =
     (case entry of (name, isDirectory) \<Rightarrow>
        if \<not> isDirectory \<or> \<not> starts_with COPY_PREFIX name then io_return ()
        else
          (let dir = dd_join d (dd_tempRoot d) name
           in io_catch
                (io_bind (on_disk (Mtime_of dir) (dd_mtime d dir)) (\<lambda>mtime.
                   if time - mtime > STALE_COPY_MS then remove_dir d dir else io_return ()))
                (\<lambda>e. if isGone e then io_return ()
                     else tell [said (''cannot remove the copy left behind '' @ dir @ '': '' @ messageOf e)])))"

definition removeStaleCopies :: "'w drift_deps \<Rightarrow> ('w, unit) drift_io" where
  "removeStaleCopies d =
     io_bind (on_disk Told_time (dd_now d)) (\<lambda>time.
       or_refuse (on_disk Entries_of (dd_entries d))
         (\<lambda>e. [said (''cannot list the copies left behind in '' @ dd_tempRoot d @ '': '' @ messageOf e)]) ()
         (io_each (remove_stale d time)))"

section \<open>The gate\<close>

definition after_check :: "spawn_result \<Rightarrow> ('w, nat) drift_io" where
  "after_check check =
     io_bind (echo_output (er_output (ended check))) (\<lambda>_.
       case spawnFailure check ''check'' of
         Some failure \<Rightarrow> refused [said failure] 2
       | None \<Rightarrow>
           (case classifyCheck (ended check) of
              Check_unfinished \<Rightarrow>
                refused [said (''drizzle-kit check: '' @ unfinishedWhy check), HINT_check_unfinished] 2
            | Inconsistent \<Rightarrow> refused [said HINT_check_failed] 1
            | Fine \<Rightarrow> io_bind (print [said ''clean'']) (\<lambda>_. io_return 0)))"

text \<open>The copy is removed whatever generate came to; a removal that fails is told.\<close>

definition with_copy :: "'w drift_deps \<Rightarrow> string \<Rightarrow> ('w, nat option) drift_io" where
  "with_copy d copy =
     io_finally (generateInCopy d copy)
       (io_catch (remove_dir d copy)
         (\<lambda>e. tell [said (''cannot remove the temporary copy '' @ copy @ '': '' @ messageOf e)]))"

definition drift_main :: "'w drift_deps \<Rightarrow> string list \<Rightarrow> ('w, nat) drift_io" where
  "drift_main d argv =
     (if argv \<noteq> [] then refused [said (''takes no arguments, got '' @ join_str '' '' argv)] 2
      else
        or_refuse (installedVersion d)
          (\<lambda>e. [if isGone e then said ''drizzle-kit is not installed in packages/db - run pnpm install''
               else said (''cannot read the version of drizzle-kit: '' @ messageOf e)]) 2
          (\<lambda>version.
            if version \<noteq> DRIZZLE_KIT_VERSION then
              refused [said (''drizzle-kit '' @ version @ '' is installed, the signs of its output are recorded for ''
                @ DRIZZLE_KIT_VERSION @ '' - record test/schema-drift-fixture.ts again from the new version, check the signs of scripts/check-schema-drift.mjs against it and set DRIZZLE_KIT_VERSION'')] 2
            else
              or_refuse
                (io_bind (on_disk (\<lambda>_. Made_root) (dd_mkdir d)) (\<lambda>_. io_bind (removeStaleCopies d) (\<lambda>_. on_disk Made_copy (dd_mkdtemp d))))
                (\<lambda>e. [said (''cannot make a temporary directory in '' @ dd_tempRoot d @ '': '' @ messageOf e)]) 2
                (\<lambda>copy. io_bind (with_copy d copy) (\<lambda>code.
                   case code of
                     Some n \<Rightarrow> io_return n
                   | None \<Rightarrow> io_bind (run_kit d (dd_check d) [''check'']) after_check))))"

text \<open>The exit code of the script: anything thrown ends it with 2.\<close>

definition runEntry :: "'w drift_deps \<Rightarrow> thrown + bool \<Rightarrow> string list \<Rightarrow> ('w, nat option) drift_io" where
  "runEntry d isEntryOf argv =
     io_catch
       (case isEntryOf of
          Inl e \<Rightarrow> io_throw e
        | Inr entry \<Rightarrow> if entry then io_bind (drift_main d argv) (\<lambda>code. io_return (Some code)) else io_return None)
       (\<lambda>e. refused [said (''the check did not take place: '' @ messageOf e)] (Some 2))"

section \<open>Rules of the steps\<close>

lemma wp_on_disk:
  assumes "\<And>v w. Q v (s\<lparr>dr_world := w, dr_trace := dr_trace s @ [call v]\<rparr>)"
    and "\<And>e w. E e (s\<lparr>dr_world := w\<rparr>)"
  shows "wp (on_disk call m) Q E s"
  using assms by (simp add: wp_def on_disk_def split: prod.splits sum.splits)

lemma wp_tell [wp_simps]: "wp (tell ls) Q E s = Q () (s\<lparr>dr_err := dr_err s @ ls\<rparr>)"
  by (simp add: wp_def tell_def)

lemma wp_print [wp_simps]: "wp (print ls) Q E s = Q () (s\<lparr>dr_out := dr_out s @ ls\<rparr>)"
  by (simp add: wp_def print_def)

lemma wp_echo [wp_simps]:
  "wp (echo_output t) Q E s = Q () (s\<lparr>dr_out := dr_out s @ (if trim t \<noteq> [] then [trim_end t] else [])\<rparr>)"
  by (simp add: wp_simps echo_output_def)

lemma wp_refused [wp_simps]: "wp (refused ls code) Q E s = Q code (s\<lparr>dr_err := dr_err s @ ls\<rparr>)"
  by (simp add: refused_def wp_simps)

lemma wp_or_refuse [wp_simps]:
  "wp (or_refuse m ls code k) Q E s = wp m (\<lambda>v. wp (k v) Q E) (\<lambda>e u. Q code (u\<lparr>dr_err := dr_err u @ ls e\<rparr>)) s"
  by (simp add: wp_def or_refuse_def refused_def tell_def io_bind_def io_return_def split: prod.splits sum.splits)

lemma wp_remove_dir:
  assumes "\<And>w. Q () (s\<lparr>dr_world := w, dr_trace := dr_trace s @ [Removing dir, Removed dir]\<rparr>)"
    and "\<And>e w. E e (s\<lparr>dr_trace := dr_trace s @ [Removing dir], dr_world := w\<rparr>)"
  shows "wp (remove_dir d dir) Q E s"
  using assms by (simp add: wp_def remove_dir_def on_disk_def split: prod.splits sum.splits)

section \<open>What the gate may remove\<close>

definition may_remove :: "'w drift_deps \<Rightarrow> string \<Rightarrow> drift_call list \<Rightarrow> bool" where
  "may_remove d dir xs \<longleftrightarrow>
     Made_copy dir \<in> set xs \<or>
     (\<exists>es time t name. Told_time time \<in> set xs \<and> Entries_of es \<in> set xs \<and> (name, True) \<in> set es \<and>
        starts_with COPY_PREFIX name \<and> dir = dd_join d (dd_tempRoot d) name \<and>
        Mtime_of dir t \<in> set xs \<and> time - t > STALE_COPY_MS)"

definition removals_ok :: "'w drift_deps \<Rightarrow> drift_call list \<Rightarrow> bool" where
  "removals_ok d t \<longleftrightarrow> (\<forall>xs dir ys. t = xs @ Removing dir # ys \<longrightarrow> may_remove d dir xs)"

lemma removals_ok_Nil [simp]: "removals_ok d []"
  by (simp add: removals_ok_def)

lemma removals_ok_snoc:
  "removals_ok d (t @ [c]) \<longleftrightarrow> removals_ok d t \<and> (\<forall>dir. c = Removing dir \<longrightarrow> may_remove d dir t)"
proof -
  have split: "t @ [c] = xs @ Removing dir # ys \<longleftrightarrow>
      (ys = [] \<and> xs = t \<and> c = Removing dir) \<or> (\<exists>zs. ys = zs @ [c] \<and> t = xs @ Removing dir # zs)" for xs dir ys
    by (cases ys rule: rev_cases) auto
  show ?thesis unfolding removals_ok_def split
    by (intro iffI conjI allI impI; (elim conjE disjE exE)?; simp)
qed

fun allowed_from :: "'w drift_deps \<Rightarrow> drift_call list \<Rightarrow> drift_call list \<Rightarrow> bool" where
  "allowed_from d t [] = True"
| "allowed_from d t (c # cs) = ((\<forall>dir. c = Removing dir \<longrightarrow> may_remove d dir t) \<and> allowed_from d (t @ [c]) cs)"

lemma removals_ok_append [simp]: "removals_ok d (t @ cs) \<longleftrightarrow> removals_ok d t \<and> allowed_from d t cs"
proof (induction cs arbitrary: t)
  case (Cons c cs)
  from Cons.IH [of "t @ [c]"] show ?case by (simp add: removals_ok_snoc)
qed simp

text \<open>Before the copy is made: nothing but stale copies goes, and drizzle-kit is not run.\<close>

definition before_copy :: "'w drift_deps \<Rightarrow> string \<Rightarrow> drift_call list \<Rightarrow> bool" where
  "before_copy d pkg t \<longleftrightarrow>
     removals_ok d t \<and> (\<forall>copy. Made_copy copy \<notin> set t) \<and> list_all (\<lambda>c. \<not> is_run c) t \<and> Package_read pkg \<in> set t"

lemma remove_stale_ok:
  assumes "before_copy d pkg (dr_trace s) \<and> Told_time time \<in> set (dr_trace s) \<and> Entries_of es \<in> set (dr_trace s)"
    (is "?I s") and "x \<in> set es"
  shows "wp (remove_stale d time x) (\<lambda>_. ?I) (\<lambda>_. ?I) s"
proof -
  obtain name b where x: "x = (name, b)" by (metis surj_pair)
  have "may_remove d (dd_join d (dd_tempRoot d) name) (dr_trace s @ [Mtime_of (dd_join d (dd_tempRoot d) name) t])"
    if "b" "starts_with COPY_PREFIX name" "time - t > STALE_COPY_MS" for t
    unfolding may_remove_def using assms that x by auto
  then show ?thesis using assms x
    by (auto simp: remove_stale_def before_copy_def wp_simps Let_def intro!: wp_on_disk wp_remove_dir)
qed

lemma removeStaleCopies_ok:
  assumes "before_copy d pkg (dr_trace s)"
  shows "wp (removeStaleCopies d) (\<lambda>_ u. before_copy d pkg (dr_trace u)) (\<lambda>_ u. before_copy d pkg (dr_trace u)) s"
proof -
  have "wp (io_each (remove_stale d time) es) (\<lambda>_ u. before_copy d pkg (dr_trace u)) (\<lambda>_ u. before_copy d pkg (dr_trace u)) u"
    if "before_copy d pkg (dr_trace u)" "Told_time time \<in> set (dr_trace u)" "Entries_of es \<in> set (dr_trace u)" for time es u
    by (rule wp_chain [OF wp_each [OF _ remove_stale_ok]]) (use that in auto)
  with assms show ?thesis
    by (auto simp: removeStaleCopies_def wp_simps before_copy_def intro!: wp_on_disk)
qed

section \<open>What generate in the copy came to\<close>

text \<open>The calls of a generate whose copy was compared.\<close>

definition generate_calls ::
  "'w drift_deps \<Rightarrow> string \<Rightarrow> string \<Rightarrow> listing \<Rightarrow> spawn_result \<Rightarrow> listing \<Rightarrow> drift_call list" where
  "generate_calls d copy outArg was g now =
     (let target = dd_join d copy ''migrations''
      in [Copied_into target, Listed target was,
          Ran (drizzleKitSpec (dd_execPath d) (dd_dbDir d) (generate_args outArg)) g, Listed target now])"

definition generate_verdict ::
  "'w drift_deps \<Rightarrow> string \<Rightarrow> drift_call list \<Rightarrow> nat option \<Rightarrow> drift_call list \<Rightarrow> bool" where
  "generate_verdict d copy t code u \<longleftrightarrow>
     (case code of
        Some n \<Rightarrow>
          n = 2 \<or> n = 1 \<and> (\<exists>outArg was g now. u = t @ generate_calls d copy outArg was g now \<and>
            (changesOf was now \<noteq> [] \<or> classifyGenerate (ended g) \<in> {Wrote, Rename, Snapshot_collision}))
      | None \<Rightarrow>
          (\<exists>outArg was g now. u = t @ generate_calls d copy outArg was g now \<and>
            changesOf was now = [] \<and> classifyGenerate (ended g) = Clean \<and> sr_error g = None))"

lemma clean_whole:
  assumes "spawnFailure g c = None" and "classifyGenerate (ended g) = Clean"
  shows "sr_error g = None"
proof -
  have "\<not> timedOut g" using assms(2) by (auto simp: classifyGenerate_def ended_def Let_def)
  then show ?thesis using assms(1) by (auto simp: spawnFailure_def split: option.splits if_splits)
qed

lemma generate_outcome_cases:
  "c = Unfinished \<or> c = Clean \<or> c \<in> {Wrote, Rename, Snapshot_collision}"
  by (cases c) simp_all

lemma after_generate_wp:
  "wp (after_generate d target was g) (\<lambda>code u.
     case code of
       Some n \<Rightarrow>
         n = 2 \<or> n = 1 \<and> (\<exists>now. dr_trace u = dr_trace s @ [Listed target now] \<and>
           (changesOf was now \<noteq> [] \<or> classifyGenerate (ended g) \<in> {Wrote, Rename, Snapshot_collision}))
     | None \<Rightarrow>
         (\<exists>now. dr_trace u = dr_trace s @ [Listed target now] \<and> changesOf was now = [] \<and>
           classifyGenerate (ended g) = Clean \<and> sr_error g = None)) (\<lambda>_ _. False) s"
proof (cases "spawnFailure g ''generate''")
  case None
  consider "classifyGenerate (ended g) = Unfinished" | "classifyGenerate (ended g) = Clean" "sr_error g = None"
    | "classifyGenerate (ended g) \<in> {Wrote, Rename, Snapshot_collision}"
    using generate_outcome_cases [of "classifyGenerate (ended g)"] clean_whole [OF None] by (elim disjE) (simp_all only: simp_thms)
  then show ?thesis
    by cases (auto simp: None after_generate_def compare_copy_def wp_simps Let_def intro!: wp_on_disk)
qed (simp add: after_generate_def wp_simps)

lemma generateInCopy_wp:
  "wp (generateInCopy d copy) (\<lambda>code u. generate_verdict d copy (dr_trace s) code (dr_trace u)) (\<lambda>_ _. True) s"
proof (cases "outOf (dd_relative d) (dd_dbDir d) (dd_join d copy ''migrations'')")
  case None
  then show ?thesis by (simp add: generateInCopy_def wp_simps generate_verdict_def)
next
  case (Some outArg)
  show ?thesis
    unfolding generateInCopy_def Let_def Some option.case wp_simps run_kit_def
    by (intro wp_on_disk TrueI wp_chain [OF after_generate_wp])
      (auto simp: generate_verdict_def generate_calls_def Let_def split: option.splits)
qed

text \<open>The copy is asked to be removed whatever generate came to.\<close>

lemma with_copy_wp:
  "wp (with_copy d copy) (\<lambda>code u. \<exists>mid gone. generate_verdict d copy (dr_trace s) code mid \<and>
     dr_trace u = mid @ Removing copy # gone \<and> set gone \<subseteq> {Removed copy}) (\<lambda>_ _. True) s"
  unfolding with_copy_def wp_simps
proof (rule wp_chain [OF generateInCopy_wp])
  fix code and u :: "'a drift"
  assume v: "generate_verdict d copy (dr_trace s) code (dr_trace u)"
  show "wp (remove_dir d copy) (\<lambda>_ u. \<exists>mid gone. generate_verdict d copy (dr_trace s) code mid \<and>
      dr_trace u = mid @ Removing copy # gone \<and> set gone \<subseteq> {Removed copy})
     (\<lambda>e u. \<exists>mid gone. generate_verdict d copy (dr_trace s) code mid \<and>
        dr_trace (u\<lparr>dr_err := dr_err u @ [said (''cannot remove the temporary copy '' @ copy @ '': '' @ messageOf e)]\<rparr>) =
          mid @ Removing copy # gone \<and> set gone \<subseteq> {Removed copy}) u"
    by (rule wp_remove_dir; rule exI [of _ "dr_trace u"])
      (use v in \<open>auto intro: exI [of _ "[Removed copy]"] exI [of _ "[]"]\<close>)
qed (simp add: wp_def split: prod.splits sum.splits)

lemma after_check_wp:
  "wp (after_check c) (\<lambda>n u. dr_trace u = dr_trace s \<and>
     (n = 0 \<and> classifyCheck (ended c) = Fine \<and> sr_error c = None \<or>
      n = 1 \<and> classifyCheck (ended c) = Inconsistent \<or> n = 2)) (\<lambda>_ _. False) s"
proof -
  have "sr_error c = None" if "spawnFailure c ''check'' = None" "classifyCheck (ended c) = Fine"
  proof -
    have "\<not> timedOut c" using that(2) by (auto simp: classifyCheck_def ended_def Let_def)
    then show ?thesis using that(1) by (auto simp: spawnFailure_def split: option.splits if_splits)
  qed
  then show ?thesis
    by (auto simp: after_check_def wp_simps split: option.splits check_outcome.splits)
qed

section \<open>The verdict\<close>

text \<open>A run that came to compare the copy, with what it did after the copy was asked to be removed.\<close>

definition drift_run ::
  "'w drift_deps \<Rightarrow> drift_call list \<Rightarrow> listing \<Rightarrow> spawn_result \<Rightarrow> listing \<Rightarrow> drift_call list \<Rightarrow> bool" where
  "drift_run d t was g now rest \<longleftrightarrow>
     (\<exists>pkg before copy outArg gone.
        versionOf (dd_parse d) pkg = Inr DRIZZLE_KIT_VERSION \<and> Package_read pkg \<in> set before \<and>
        list_all (\<lambda>c. \<not> is_run c) before \<and> set gone \<subseteq> {Removed copy} \<and>
        t = before @ Made_copy copy # generate_calls d copy outArg was g now @ Removing copy # gone @ rest)"

definition drift_verdict :: "'w drift_deps \<Rightarrow> nat \<Rightarrow> drift_call list \<Rightarrow> bool" where
  "drift_verdict d n t \<longleftrightarrow>
     n = 2 \<or>
     n = 1 \<and> (\<exists>was g now rest. drift_run d t was g now rest \<and>
       (rest = [] \<and> (changesOf was now \<noteq> [] \<or> classifyGenerate (ended g) \<in> {Wrote, Rename, Snapshot_collision}) \<or>
        (\<exists>c. rest = [Ran (drizzleKitSpec (dd_execPath d) (dd_dbDir d) [''check'']) c] \<and>
           classifyCheck (ended c) = Inconsistent))) \<or>
     n = 0 \<and> (\<exists>was g now c.
       drift_run d t was g now [Ran (drizzleKitSpec (dd_execPath d) (dd_dbDir d) [''check'']) c] \<and>
       changesOf was now = [] \<and> classifyGenerate (ended g) = Clean \<and> sr_error g = None \<and>
       classifyCheck (ended c) = Fine \<and> sr_error c = None)"

lemma copied_wp:
  assumes "before_copy d pkg t" and "versionOf (dd_parse d) pkg = Inr DRIZZLE_KIT_VERSION"
    and "dr_trace s = t @ [Made_copy copy]"
  shows "wp (io_bind (with_copy d copy) (\<lambda>code.
       case code of Some n \<Rightarrow> io_return n | None \<Rightarrow> io_bind (run_kit d (dd_check d) [''check'']) after_check))
     (\<lambda>n u. drift_verdict d n (dr_trace u)) (\<lambda>_ _. True) s"
  unfolding wp_simps
proof (rule wp_chain [OF with_copy_wp])
  fix code and u :: "'a drift"
  assume "\<exists>mid gone. generate_verdict d copy (dr_trace s) code mid \<and>
     dr_trace u = mid @ Removing copy # gone \<and> set gone \<subseteq> {Removed copy}"
  then obtain mid gone where v: "generate_verdict d copy (dr_trace s) code mid"
    and u: "dr_trace u = mid @ Removing copy # gone" "set gone \<subseteq> {Removed copy}" by blast
  have run: "drift_run d (mid @ Removing copy # gone @ rest) was g now rest"
    if "mid = dr_trace s @ generate_calls d copy outArg was g now" for outArg was g now rest
    unfolding drift_run_def
    by (rule exI [of _ pkg], rule exI [of _ t], rule exI [of _ copy], rule exI [of _ outArg], rule exI [of _ gone])
      (use assms u that in \<open>simp add: before_copy_def\<close>)
  show "wp (case code of None \<Rightarrow> io_bind (run_kit d (dd_check d) [''check'']) after_check | Some n \<Rightarrow> io_return n)
     (\<lambda>n u. drift_verdict d n (dr_trace u)) (\<lambda>_ _. True) u"
  proof (cases code)
    case None
    with v obtain outArg was g now where c: "mid = dr_trace s @ generate_calls d copy outArg was g now"
      "changesOf was now = []" "classifyGenerate (ended g) = Clean" "sr_error g = None"
      by (auto simp: generate_verdict_def)
    have "wp (after_check r) (\<lambda>n u. drift_verdict d n (dr_trace u)) (\<lambda>_ _. True) w"
      if w: "dr_trace w = dr_trace u @ [Ran (drizzleKitSpec (dd_execPath d) (dd_dbDir d) [''check'']) r]" for r and w :: "'a drift"
    proof (rule wp_chain [OF after_check_wp])
      fix n :: nat and v :: "'a drift"
      assume n: "dr_trace v = dr_trace w \<and> (n = 0 \<and> classifyCheck (ended r) = Fine \<and> sr_error r = None \<or>
        n = 1 \<and> classifyCheck (ended r) = Inconsistent \<or> n = 2)"
      have "drift_run d (dr_trace v) was g now [Ran (drizzleKitSpec (dd_execPath d) (dd_dbDir d) [''check'']) r]"
        using run [OF c(1), of "[Ran (drizzleKitSpec (dd_execPath d) (dd_dbDir d) [''check'']) r]"] n w u by simp
      with n c(2-4) show "drift_verdict d n (dr_trace v)" unfolding drift_verdict_def by blast
    qed simp
    then show ?thesis
      unfolding None option.case wp_simps run_kit_def Let_def by (intro wp_on_disk TrueI) simp
  next
    case (Some n)
    consider "n = 2" | outArg was g now where "n = 1" "mid = dr_trace s @ generate_calls d copy outArg was g now"
      "changesOf was now \<noteq> [] \<or> classifyGenerate (ended g) \<in> {Wrote, Rename, Snapshot_collision}"
      using v unfolding generate_verdict_def Some option.case by blast
    then have "drift_verdict d n (dr_trace u)"
    proof cases
      case 2
      from run [OF 2(2), of "[]"] u have "drift_run d (dr_trace u) was g now []" by simp
      with 2(1,3) show ?thesis unfolding drift_verdict_def by blast
    qed (simp add: drift_verdict_def)
    then show ?thesis by (simp add: Some wp_simps)
  qed
qed simp

lemma stale_then_copy:
  assumes "versionOf (dd_parse d) pkg = Inr DRIZZLE_KIT_VERSION" and "before_copy d pkg (dr_trace u)"
    and "\<And>e v. E e v"
  shows "wp (removeStaleCopies d) (\<lambda>_. wp (on_disk Made_copy (dd_mkdtemp d)) (\<lambda>copy. wp (with_copy d copy) (\<lambda>code. wp
      (case code of Some n \<Rightarrow> io_return n | None \<Rightarrow> io_bind (run_kit d (dd_check d) [''check'']) after_check)
      (\<lambda>n u. drift_verdict d n (dr_trace u)) (\<lambda>_ _. True)) (\<lambda>_ _. True)) E) E u"
proof (rule wp_chain [OF removeStaleCopies_ok [OF assms(2)]])
  fix w :: "'a drift"
  assume "before_copy d pkg (dr_trace w)"
  then show "wp (on_disk Made_copy (dd_mkdtemp d)) (\<lambda>copy. wp (with_copy d copy) (\<lambda>code. wp
      (case code of Some n \<Rightarrow> io_return n | None \<Rightarrow> io_bind (run_kit d (dd_check d) [''check'']) after_check)
      (\<lambda>n u. drift_verdict d n (dr_trace u)) (\<lambda>_ _. True)) (\<lambda>_ _. True)) E w"
    by (intro wp_on_disk assms(3) copied_wp [OF _ assms(1), unfolded wp_bind]) simp_all
qed (rule assms(3))

lemma before_copy_start: "before_copy d pkg [Package_read pkg, Made_root]"
  using removals_ok_append [of d "[]" "[Package_read pkg, Made_root]"] by (simp add: before_copy_def)

lemma drift_main_wp:
  assumes "dr_trace s = []"
  shows "wp (drift_main d argv) (\<lambda>n u. (n \<noteq> 2 \<longrightarrow> argv = []) \<and> drift_verdict d n (dr_trace u)) (\<lambda>_ _. True) s"
proof (cases "argv = []")
  case True
  have two: "drift_verdict d 2 t" for t by (simp add: drift_verdict_def)
  show ?thesis
    unfolding drift_main_def installedVersion_def wp_or_refuse wp_bind wp_if if_not_P [OF not_not [THEN iffD2, OF True]]
    by (auto simp: wp_refused wp_throw wp_return True two assms intro!: wp_on_disk split: sum.splits)
      (rule stale_then_copy, assumption, simp_all add: before_copy_start)
qed (simp add: drift_main_def wp_simps drift_verdict_def)

text \<open>Every copy a run makes is asked to be removed, and nothing else that is not stale.\<close>

definition own_copy :: "'w drift_deps \<Rightarrow> string \<Rightarrow> drift_call list \<Rightarrow> bool" where
  "own_copy d copy t \<longleftrightarrow> removals_ok d t \<and> Made_copy copy \<in> set t \<and> (\<forall>c. Made_copy c \<in> set t \<longrightarrow> c = copy)"

definition copies_gone :: "'w drift_deps \<Rightarrow> drift_call list \<Rightarrow> bool" where
  "copies_gone d t \<longleftrightarrow> removals_ok d t \<and> (\<forall>copy. Made_copy copy \<in> set t \<longrightarrow> Removing copy \<in> set t)"

lemma copies_gone_run: "copies_gone d (t @ [Ran x y]) \<longleftrightarrow> copies_gone d t"
  by (simp add: copies_gone_def)

fun calm :: "drift_call \<Rightarrow> bool" where
  "calm (Removing _) = False"
| "calm (Made_copy _) = False"
| "calm _ = True"

lemma own_copy_calm:
  assumes "own_copy d copy t" and "list_all calm cs"
  shows "own_copy d copy (t @ cs)"
proof -
  have "allowed_from d t cs" using assms(2) by (induction cs arbitrary: t) auto
  moreover have "Made_copy c \<notin> set cs" for c using assms(2) by (auto simp: list_all_iff)
  ultimately show ?thesis using assms(1) by (auto simp: own_copy_def)
qed

lemma compare_copy_keeps:
  assumes "own_copy d copy (dr_trace s)"
  shows "wp (compare_copy d target was outcome) (\<lambda>_ u. own_copy d copy (dr_trace u)) (\<lambda>_ u. own_copy d copy (dr_trace u)) s"
  using own_copy_calm [OF assms] assms
  by (simp add: compare_copy_def wp_simps Let_def wp_on_disk)

lemma after_generate_keeps:
  assumes "own_copy d copy (dr_trace s)"
  shows "wp (after_generate d target was g) (\<lambda>_ u. own_copy d copy (dr_trace u)) (\<lambda>_ u. own_copy d copy (dr_trace u)) s"
  using assms
  by (simp add: after_generate_def wp_simps Let_def compare_copy_keeps split: option.splits)

lemma generateInCopy_keeps:
  assumes "own_copy d copy (dr_trace s)"
  shows "wp (generateInCopy d copy) (\<lambda>_ u. own_copy d copy (dr_trace u)) (\<lambda>_ u. own_copy d copy (dr_trace u)) s"
proof (cases "outOf (dd_relative d) (dd_dbDir d) (dd_join d copy ''migrations'')")
  case (Some outArg)
  show ?thesis
    unfolding generateInCopy_def Let_def Some option.case wp_simps run_kit_def
    by (intro wp_on_disk after_generate_keeps) (simp_all add: assms own_copy_calm)
qed (simp add: generateInCopy_def wp_simps assms)

lemma with_copy_keeps:
  assumes "own_copy d copy (dr_trace s)"
  shows "wp (with_copy d copy) (\<lambda>_ u. copies_gone d (dr_trace u)) (\<lambda>_ u. copies_gone d (dr_trace u)) s"
proof -
  have "copies_gone d (t @ [Removing copy])" "copies_gone d (t @ [Removing copy, Removed copy])"
    if "own_copy d copy t" for t
    using that by (auto simp: own_copy_def copies_gone_def may_remove_def)
  then show ?thesis unfolding with_copy_def wp_simps
    by (intro wp_chain [OF generateInCopy_keeps [OF assms]] wp_remove_dir) auto
qed

lemma after_check_keeps:
  "copies_gone d (dr_trace s) \<Longrightarrow>
   wp (after_check c) (\<lambda>_ u. copies_gone d (dr_trace u)) (\<lambda>_ u. copies_gone d (dr_trace u)) s"
  by (rule wp_chain [OF after_check_wp]) auto

lemma before_copy_gone: "before_copy d pkg t \<Longrightarrow> copies_gone d t" "before_copy d pkg t \<Longrightarrow> own_copy d copy (t @ [Made_copy copy])"
  by (auto simp: before_copy_def copies_gone_def own_copy_def)

lemma drift_main_keeps:
  assumes "dr_trace s = []"
  shows "wp (drift_main d argv) (\<lambda>_ u. copies_gone d (dr_trace u)) (\<lambda>_ u. copies_gone d (dr_trace u)) s"
proof -
  let ?Q = "\<lambda>_ u. copies_gone d (dr_trace u)"
  have nil: "copies_gone d []" "copies_gone d [Package_read v]" for v
    using removals_ok_append [of d "[]" "[Package_read v]"] by (simp_all add: copies_gone_def)
  have after: "wp (case code of Some n \<Rightarrow> io_return n | None \<Rightarrow> io_bind (run_kit d (dd_check d) [''check'']) after_check) ?Q ?Q u"
    if "copies_gone d (dr_trace u)" for code u
    using that by (auto simp: wp_simps run_kit_def Let_def copies_gone_run intro!: wp_on_disk after_check_keeps split: option.splits)
  have "wp (removeStaleCopies d) (\<lambda>_. wp (on_disk Made_copy (dd_mkdtemp d)) (\<lambda>copy. wp (with_copy d copy) (\<lambda>code. wp
      (case code of Some n \<Rightarrow> io_return n | None \<Rightarrow> io_bind (run_kit d (dd_check d) [''check'']) after_check) ?Q ?Q) ?Q) E) E u"
    if "\<exists>pkg. before_copy d pkg (dr_trace u)" "\<And>e v. copies_gone d (dr_trace v) \<Longrightarrow> E e v" for E u
  proof -
    from that(1) obtain pkg where "before_copy d pkg (dr_trace u)" by blast
    then show ?thesis
      by (rule wp_chain [OF removeStaleCopies_ok])
        (auto intro!: wp_on_disk that(2) wp_chain [OF with_copy_keeps] after before_copy_gone dest: before_copy_gone(1))
  qed
  moreover have "\<exists>pkg. before_copy d pkg [Package_read v, Made_root]" for v using before_copy_start by blast
  ultimately show ?thesis
    unfolding drift_main_def installedVersion_def wp_or_refuse wp_bind wp_if
    by (auto simp: wp_refused wp_throw wp_return assms nil before_copy_gone [OF before_copy_start] intro!: wp_on_disk split: sum.splits)
qed

section \<open>A clean run\<close>

text \<open>A clean run next to a copy left behind and to a copy of a run going on.\<close>

definition quiet_result :: "string \<Rightarrow> spawn_result" where
  "quiet_result line = \<lparr>sr_status = Some 0, sr_signal = None, sr_stdout = line @ [CHR 10], sr_stderr = [], sr_error = None\<rparr>"

definition fine_line :: string where
  "fine_line = ''Everything'' @ [CHR 39] @ ''s fine''"

definition quiet_drift :: "unit drift_deps" where
  "quiet_drift =
     \<lparr>dd_package = io_return ''p'', dd_parse = (\<lambda>_. Inr (Obj [(''version'', Str ''0.28.1'')])),
      dd_mkdir = io_return (), dd_now = io_return 9000000,
      dd_entries = io_return [(''schema-drift-old'', True), (''schema-drift-new'', True), (''other'', True)],
      dd_mtime = (\<lambda>dir. io_return (if dir = ''/c/schema-drift-new'' then 8999999 else 5)),
      dd_removeDir = (\<lambda>_. io_return ()), dd_mkdtemp = io_return ''/c/schema-drift-x'', dd_relative = (\<lambda>_ _. ''c/x''),
      dd_copy = (\<lambda>_. io_return ()), dd_files = (\<lambda>_. io_return [(''0001.sql'', ''h'')]),
      dd_generate = (\<lambda>_. io_return (quiet_result ''No schema changes, nothing to migrate'')),
      dd_check = (\<lambda>_. io_return (quiet_result fine_line)),
      dd_execPath = ''node'', dd_dbDir = ''/db'', dd_tempRoot = ''/c'', dd_join = (\<lambda>a b. a @ ''/'' @ b)\<rparr>"

definition drift_start :: "unit drift" where
  "drift_start = \<lparr>dr_world = (), dr_trace = [], dr_out = [], dr_err = []\<rparr>"

lemma quiet_generate: "classifyGenerate (ended (quiet_result ''No schema changes, nothing to migrate'')) = Clean"
  by code_simp

lemma quiet_check: "classifyCheck (ended (quiet_result fine_line)) = Fine"
  by code_simp

lemma quiet_spawn: "spawnFailure (quiet_result l) c = None"
  by (simp add: spawnFailure_def quiet_result_def)

lemma quiet_changes: "changesOf [(''0001.sql'', ''h'')] [(''0001.sql'', ''h'')] = []"
  by code_simp

lemma quiet_out: "outOf (\<lambda>_ _. ''c/x'') c x = Some ''c/x''"
  by (simp add: outOf_def win32_isAbsolute_def separator_def Let_def)

lemma quiet_version: "installedVersion quiet_drift s = (Inr ''0.28.1'', s\<lparr>dr_trace := dr_trace s @ [Package_read ''p'']\<rparr>)"
  by (simp add: installedVersion_def on_disk_def io_simps versionOf_def and_then_def jget_def quiet_drift_def)

lemma quiet_stale: "removeStaleCopies quiet_drift s = (Inr (), s\<lparr>dr_trace := dr_trace s @
    [Told_time 9000000, Entries_of [(''schema-drift-old'', True), (''schema-drift-new'', True), (''other'', True)],
      Mtime_of ''/c/schema-drift-old'' 5, Removing ''/c/schema-drift-old'', Removed ''/c/schema-drift-old'',
      Mtime_of ''/c/schema-drift-new'' 8999999]\<rparr>)"
  by (simp add: removeStaleCopies_def remove_stale_def remove_dir_def on_disk_def or_refuse_def io_simps COPY_PREFIX_def
      STALE_COPY_MS_def starts_with_def quiet_drift_def Let_def)

definition quiet_calls :: "drift_call list" where
  "quiet_calls =
     generate_calls quiet_drift ''/c/schema-drift-x'' ''c/x'' [(''0001.sql'', ''h'')]
       (quiet_result ''No schema changes, nothing to migrate'') [(''0001.sql'', ''h'')]"

lemma quiet_copy:
  "\<exists>out. generateInCopy quiet_drift ''/c/schema-drift-x'' s = (Inr None, s\<lparr>dr_trace := dr_trace s @ quiet_calls, dr_out := out\<rparr>)"
proof -
  have out: "outOf (dd_relative quiet_drift) c x = Some ''c/x''" for c x
    using quiet_out by (simp add: quiet_drift_def)
  have disk: "dd_copy quiet_drift t = io_return ()" "dd_files quiet_drift t = io_return [(''0001.sql'', ''h'')]"
    "dd_generate quiet_drift spec = io_return (quiet_result ''No schema changes, nothing to migrate'')" for t spec
    by (simp_all add: quiet_drift_def)
  show ?thesis
    unfolding generateInCopy_def Let_def out option.case disk run_kit_def after_generate_def quiet_spawn quiet_generate
      compare_copy_def quiet_changes quiet_calls_def generate_calls_def
    by (cases s) (simp add: on_disk_def or_refuse_def io_simps echo_output_def print_def exI quiet_spawn quiet_generate quiet_changes)
qed

lemma quiet_checked: "\<exists>out. after_check (quiet_result fine_line) s = (Inr 0, s\<lparr>dr_out := out\<rparr>)"
  unfolding after_check_def
  by (cases s) (simp add: io_simps echo_output_def print_def quiet_spawn quiet_check)

lemma quiet_drift_runs:
  "fst (runEntry quiet_drift (Inr True) [] drift_start) = Inr (Some 0)"
  "dr_trace (snd (runEntry quiet_drift (Inr True) [] drift_start)) =
     [Package_read ''p'', Made_root, Told_time 9000000,
      Entries_of [(''schema-drift-old'', True), (''schema-drift-new'', True), (''other'', True)],
      Mtime_of ''/c/schema-drift-old'' 5, Removing ''/c/schema-drift-old'', Removed ''/c/schema-drift-old'',
      Mtime_of ''/c/schema-drift-new'' 8999999, Made_copy ''/c/schema-drift-x''] @ quiet_calls @
     [Removing ''/c/schema-drift-x'', Removed ''/c/schema-drift-x'',
      Ran (drizzleKitSpec ''node'' ''/db'' [''check'']) (quiet_result fine_line)]"
proof -
  obtain f where f: "generateInCopy quiet_drift ''/c/schema-drift-x'' s =
      (Inr None, s\<lparr>dr_trace := dr_trace s @ quiet_calls, dr_out := f s\<rparr>)" for s
    using quiet_copy by metis
  obtain h where h: "after_check (quiet_result fine_line) s = (Inr 0, s\<lparr>dr_out := h s\<rparr>)" for s :: "unit drift"
    using quiet_checked by metis
  have disk: "dd_mkdir quiet_drift = io_return ()" "dd_mkdtemp quiet_drift = io_return ''/c/schema-drift-x''"
    "dd_removeDir quiet_drift dir = io_return ()" "dd_execPath quiet_drift = ''node''" "dd_dbDir quiet_drift = ''/db''"
    "dd_check quiet_drift spec = io_return (quiet_result fine_line)" for dir spec
    by (simp_all add: quiet_drift_def)
  have run: "\<exists>out. runEntry quiet_drift (Inr True) [] drift_start = (Inr (Some 0), \<lparr>dr_world = (), dr_trace =
     [Package_read ''p'', Made_root, Told_time 9000000,
      Entries_of [(''schema-drift-old'', True), (''schema-drift-new'', True), (''other'', True)],
      Mtime_of ''/c/schema-drift-old'' 5, Removing ''/c/schema-drift-old'', Removed ''/c/schema-drift-old'',
      Mtime_of ''/c/schema-drift-new'' 8999999, Made_copy ''/c/schema-drift-x''] @ quiet_calls @
     [Removing ''/c/schema-drift-x'', Removed ''/c/schema-drift-x'',
      Ran (drizzleKitSpec ''node'' ''/db'' [''check'']) (quiet_result fine_line)],
     dr_out = out, dr_err = []\<rparr>)"
    unfolding runEntry_def drift_main_def run_kit_def with_copy_def remove_dir_def disk Let_def
    by (simp add: or_refuse_def quiet_version quiet_stale f h io_simps on_disk_def drift_start_def DRIZZLE_KIT_VERSION_def)
  then show "fst (runEntry quiet_drift (Inr True) [] drift_start) = Inr (Some 0)"
    "dr_trace (snd (runEntry quiet_drift (Inr True) [] drift_start)) =
     [Package_read ''p'', Made_root, Told_time 9000000,
      Entries_of [(''schema-drift-old'', True), (''schema-drift-new'', True), (''other'', True)],
      Mtime_of ''/c/schema-drift-old'' 5, Removing ''/c/schema-drift-old'', Removed ''/c/schema-drift-old'',
      Mtime_of ''/c/schema-drift-new'' 8999999, Made_copy ''/c/schema-drift-x''] @ quiet_calls @
     [Removing ''/c/schema-drift-x'', Removed ''/c/schema-drift-x'',
      Ran (drizzleKitSpec ''node'' ''/db'' [''check'']) (quiet_result fine_line)]"
    by auto
qed

section \<open>Properties\<close>

text \<open>
  C7: the code of the gate says what was found and never less.  It is 0 only when the installed
  drizzle-kit is the recorded one, generate ran into a fresh copy, ended with its clean line and left
  every file of the copy as it was, and check ended with its own line after that; it is 1 only when
  generate changed the copy, wrote a migration, asked about a rename or met a collision, or check
  found the folder inconsistent; drizzle-kit is run nothing but these once or twice; and whatever is
  thrown ends the run with 2.
\<close>

theorem drift_verdict_is_earned:
  assumes "runEntry d isEntryOf argv s = (r, u)" and "dr_trace s = []"
  shows "(r = Inr None \<and> isEntryOf = Inr False \<and> u = s) \<or> r = Inr (Some 2) \<or>
    (argv = [] \<and> (\<exists>pkg before copy outArg was g now gone rest.
       versionOf (dd_parse d) pkg = Inr DRIZZLE_KIT_VERSION \<and> Package_read pkg \<in> set before \<and>
       list_all (\<lambda>c. \<not> is_run c) before \<and> set gone \<subseteq> {Removed copy} \<and>
       dr_trace u = before @ Made_copy copy # generate_calls d copy outArg was g now @ Removing copy # gone @ rest \<and>
       ((r = Inr (Some 1) \<and> rest = [] \<and>
           (changesOf was now \<noteq> [] \<or> classifyGenerate (ended g) \<in> {Wrote, Rename, Snapshot_collision})) \<or>
        (\<exists>c. rest = [Ran (drizzleKitSpec (dd_execPath d) (dd_dbDir d) [''check'']) c] \<and>
           ((r = Inr (Some 1) \<and> classifyCheck (ended c) = Inconsistent) \<or>
            (r = Inr (Some 0) \<and> changesOf was now = [] \<and> classifyGenerate (ended g) = Clean \<and>
             sr_error g = None \<and> classifyCheck (ended c) = Fine \<and> sr_error c = None))))))"
proof -
  have "wp (runEntry d isEntryOf argv) (\<lambda>code v. code = Some 2 \<or> (code = None \<and> isEntryOf = Inr False \<and> v = s) \<or>
      (argv = [] \<and> (\<exists>n. code = Some n \<and> n \<noteq> 2 \<and> drift_verdict d n (dr_trace v)))) (\<lambda>_ _. False) s"
    unfolding runEntry_def wp_simps
    by (auto simp: wp_simps split: sum.splits intro!: wp_chain [OF drift_main_wp [OF assms(2)]])
  from wp_run [OF this assms(1)] consider "r = Inr None" "isEntryOf = Inr False" "u = s" | "r = Inr (Some 2)"
    | n where "r = Inr (Some n)" "argv = []" "n \<noteq> 2" "drift_verdict d n (dr_trace u)"
    by (auto split: sum.splits)
  then show ?thesis
  proof cases
    case 3
    from 3(3, 4) obtain was g now rest where run: "drift_run d (dr_trace u) was g now rest"
      and n: "(n = 1 \<and> rest = [] \<and>
           (changesOf was now \<noteq> [] \<or> classifyGenerate (ended g) \<in> {Wrote, Rename, Snapshot_collision})) \<or>
        (\<exists>c. rest = [Ran (drizzleKitSpec (dd_execPath d) (dd_dbDir d) [''check'']) c] \<and>
           ((n = 1 \<and> classifyCheck (ended c) = Inconsistent) \<or>
            (n = 0 \<and> changesOf was now = [] \<and> classifyGenerate (ended g) = Clean \<and>
             sr_error g = None \<and> classifyCheck (ended c) = Fine \<and> sr_error c = None)))"
      unfolding drift_verdict_def by blast
    from run obtain pkg before copy outArg gone where t: "versionOf (dd_parse d) pkg = Inr DRIZZLE_KIT_VERSION"
      "Package_read pkg \<in> set before" "list_all (\<lambda>c. \<not> is_run c) before" "set gone \<subseteq> {Removed copy}"
      "dr_trace u = before @ Made_copy copy # generate_calls d copy outArg was g now @ Removing copy # gone @ rest"
      unfolding drift_run_def by blast
    show ?thesis
      unfolding 3(1) sum.inject option.inject
      by (rule disjI2, rule disjI2, rule conjI [OF 3(2)], rule exI [of _ pkg], rule exI [of _ before],
          rule exI [of _ copy], rule exI [of _ outArg], rule exI [of _ was], rule exI [of _ g], rule exI [of _ now],
          rule exI [of _ gone], rule exI [of _ rest], intro conjI t n)
  qed simp_all
qed

theorem drift_verdict_is_earned_witness:
  "fst (runEntry quiet_drift (Inr True) [] drift_start) = Inr (Some 0) \<and>
   (\<exists>was g now c. changesOf was now = [] \<and> classifyGenerate (ended g) = Clean \<and> classifyCheck (ended c) = Fine \<and>
      Ran (drizzleKitSpec ''node'' ''/db'' [''check'']) c \<in> set (dr_trace (snd (runEntry quiet_drift (Inr True) [] drift_start))))"
proof -
  have paths: "dd_execPath quiet_drift = ''node''" "dd_dbDir quiet_drift = ''/db''" by (simp_all add: quiet_drift_def)
  have start: "dr_trace drift_start = []" by (simp add: drift_start_def)
  from drift_verdict_is_earned [OF surjective_pairing start, where d = quiet_drift and isEntryOf = "Inr True" and argv = "[]"]
  show ?thesis unfolding quiet_drift_runs(1) paths by auto
qed

text \<open>
  C32: the gate removes no directory that is not its own: what it asks to be removed is the copy this
  run made, or a directory it had listed under the root of the copies, with their prefix, last written
  more than half an hour before the time it had read; and the copy a run made is always asked to be
  removed, whatever generate, the disk or drizzle-kit did in between.
\<close>

theorem only_its_own_copies_are_removed:
  assumes "runEntry d isEntryOf argv s = (r, u)" and "dr_trace s = []"
  shows "(\<forall>xs dir ys. dr_trace u = xs @ Removing dir # ys \<longrightarrow>
      Made_copy dir \<in> set xs \<or>
      (\<exists>es time t name. Told_time time \<in> set xs \<and> Entries_of es \<in> set xs \<and> (name, True) \<in> set es \<and>
         starts_with COPY_PREFIX name \<and> dir = dd_join d (dd_tempRoot d) name \<and>
         Mtime_of dir t \<in> set xs \<and> time - t > STALE_COPY_MS)) \<and>
    (\<forall>copy. Made_copy copy \<in> set (dr_trace u) \<longrightarrow> Removing copy \<in> set (dr_trace u))"
proof -
  have "copies_gone d []" by (simp add: copies_gone_def)
  then have "wp (runEntry d isEntryOf argv) (\<lambda>_ v. copies_gone d (dr_trace v)) (\<lambda>_ v. copies_gone d (dr_trace v)) s"
    unfolding runEntry_def wp_simps
    by (auto simp: wp_simps assms(2) split: sum.splits intro!: wp_chain [OF drift_main_keeps [OF assms(2)]])
  from wp_run [OF this assms(1)] have "copies_gone d (dr_trace u)" by (simp split: sum.splits)
  then show ?thesis unfolding copies_gone_def removals_ok_def may_remove_def by blast
qed

theorem only_its_own_copies_are_removed_witness:
  "Made_copy ''/c/schema-drift-x'' \<in> set (dr_trace (snd (runEntry quiet_drift (Inr True) [] drift_start))) \<and>
   Removing ''/c/schema-drift-x'' \<in> set (dr_trace (snd (runEntry quiet_drift (Inr True) [] drift_start))) \<and>
   Removing ''/c/schema-drift-old'' \<in> set (dr_trace (snd (runEntry quiet_drift (Inr True) [] drift_start))) \<and>
   Removing ''/c/schema-drift-new'' \<notin> set (dr_trace (snd (runEntry quiet_drift (Inr True) [] drift_start)))"
proof -
  have start: "dr_trace drift_start = []" by (simp add: drift_start_def)
  have made: "Made_copy ''/c/schema-drift-x'' \<in> set (dr_trace (snd (runEntry quiet_drift (Inr True) [] drift_start)))"
    unfolding quiet_drift_runs(2) by simp
  with only_its_own_copies_are_removed [OF surjective_pairing start,
      where d = quiet_drift and isEntryOf = "Inr True" and argv = "[]"]
  have "Removing ''/c/schema-drift-x'' \<in> set (dr_trace (snd (runEntry quiet_drift (Inr True) [] drift_start)))"
    by blast
  with made show ?thesis unfolding quiet_drift_runs(2) by (simp add: quiet_calls_def generate_calls_def Let_def)
qed

end
