(* ===== verification/Spec2Isabelle.thy ===== *)
theory Spec2Isabelle
  imports Job_Ids Budget_Core Idea Heartbeat Usage_Logger Deadline Contracts Budget_Guard
    Connection_Failure Redis_Clients Shutdown Queue_Factory Redact_Walk Failures Migration_Lock
    Db_Cli App_Setting Queue_Switches Define_Job Dlq Schedules Worker_Runtime Probe_Db
    Api_Errors Request_Log Api_App Socket_Answer System_Status Define_Route Error_Serializer
    Config Healthcheck
    Basic_Auth Api_Client Web_Status Tracker_Inv Compose_Rules Smoke_Run
    Worker_Process Api_Process Compose_Gate Schema_Drift
begin

text \<open>
  A verification development of the shorts factory: a worker that runs queued jobs, an api that
  reports on it, the packages both share, and a dashboard.  This theory imports all the others and
  says what they hold.

  \<^bold>\<open>The program and how its parts interact.\<close>
  The worker (\<open>apps/worker\<close>) processes the jobs of a fixed set of Redis queues, stamps its liveness
  into Redis, copies jobs that failed for good into a dead letter queue, keeps the queues paused or
  running as a setting in Postgres says, and refuses paid work when the spend recorded in Postgres
  has reached a cap.  The api (\<open>apps/api\<close>) answers one public and one protected page about all of this.
  Both read one configuration (\<open>packages/config\<close>), share the domain rules (\<open>packages/core\<close>), the
  repositories and tools of the database (\<open>packages/db\<close>), the plumbing of Redis, logging and shutdown
  (\<open>packages/runtime\<close>) and the shapes of the api's answers (\<open>packages/contracts\<close>).

  \<^bold>\<open>How the code is modelled.\<close>
  A function is a HOL function of the same name.  A thrown value is a value of \<open>Domain_Errors.thrown\<close>,
  and a call that may throw returns a sum with it on the left.  A JavaScript number is a rational or
  one of the values that are not finite (\<open>Prelude.jsnum\<close>), so comparisons with \<open>NaN\<close> and the
  infinities are what they are in the program.  Asynchronous code is a machine over the events the
  event loop delivers: a state, a step function, and theorems over every sequence of events.  Code
  that calls several collaborators in a row is a function on an explicit world.  Where the program
  shares or mutates objects, the model has a store of addresses (\<open>Redact_Walk\<close>,
  \<open>Error_Serializer\<close>).  Libraries - the database driver, the queue library, the server library, the
  schema library - are parameters; what the code relies on is a named contract, and every property
  that assumes one has a witness with a concrete instance.

  \<^bold>\<open>The theories.\<close>
  Shared: \<open>Prelude\<close> (numbers, json values, lists, association lists, sequential code on a world),
  \<open>Js_Text\<close> (how numbers are read and printed, \<open>trim\<close>, fixed decimals), \<open>Zod_Schemas\<close> (schemas as
  terms and what a value must be to be accepted).

  Domain (\<open>packages/core/src\<close>): \<open>Domain_Errors\<close> (errors.ts, error-code.ts, provider.ts, enums.ts),
  \<open>Job_Ids\<close> (job-ids.ts; ids are injective), \<open>Budget_Core\<close> (budget.ts, redis-keys.ts), \<open>Queue_Names\<close>
  (queues.ts), \<open>Idea\<close> (idea.ts; the lifecycle terminates and publishes only through an approval),
  \<open>Heartbeat\<close> (heartbeat.ts), with the schemas of usage.ts and content-dna.ts in \<open>Usage_Log\<close> and
  \<open>Contracts\<close>.

  Contracts (\<open>packages/contracts/src\<close>): \<open>Contracts\<close>.

  Configuration (\<open>packages/config/src\<close>): \<open>Config\<close> (env-file.ts, schema.ts, load-env.ts, limits.ts,
  index.ts, redis-url.ts; a configuration that loads is within its bounds, and the healthcheck reads
  the url the worker reads).

  Database (\<open>packages/db/src\<close>): \<open>Usage_Log\<close> and \<open>Usage_Logger\<close> (repos/api-usage-log.ts,
  usage-logger.ts; sums refine the totals, prices are rounded within bounds), \<open>Budget_Guard\<close>
  (budget.ts with lib/budget.ts of worker and api), \<open>App_Setting\<close> (repos/app-setting.ts, seed.ts),
  \<open>Failures\<close> (failures.ts, cleanup.ts), \<open>Migration_Lock\<close> (migration-lock.ts, migrate.ts, catalog.ts;
  migrations run under the lock, and the session is left as it was found), \<open>Db_Cli\<close> (cli/run.ts),
  \<open>Probe_Db\<close> (probe.ts, client.ts, lib/probe-dbs.ts of the api; every call ends).

  Runtime (\<open>packages/runtime/src\<close>): \<open>Connection_Failure\<close> (connection-failure.ts, client-errors.ts),
  \<open>Redis_Clients\<close> (redis.ts, redis-stage.ts), \<open>Queue_Factory\<close> (queues.ts), \<open>Shutdown\<close> (shutdown.ts; the
  process exits, with a truthful code), \<open>Deadline\<close> (deadline.ts, and single-flight.ts of the api),
  \<open>Redact_Walk\<close> (redact-command-args.ts) and \<open>Error_Serializer\<close> (logger.ts; what a line may hold).

  Worker (\<open>apps/worker/src\<close>): \<open>Define_Job\<close> (lib/define-job.ts, lib/job-policy.ts, the two jobs),
  \<open>Dlq\<close> (lib/dlq.ts), \<open>Queue_Switches\<close> (lib/queue-switches.ts), \<open>Schedules\<close> (schedules.ts),
  \<open>Worker_Runtime\<close> (runtime.ts; a start is all or nothing, a stop closes everything),
  \<open>Healthcheck\<close> (cli/healthcheck-run.ts, cli/healthcheck.ts).

  Api (\<open>apps/api/src\<close>): \<open>Api_Errors\<close> (lib/error-text.ts, error-response.ts, error-mapping.ts,
  mapped-error.ts, socket-errors.ts), \<open>Request_Log\<close> (lib/request-log.ts, request-state.ts), \<open>Api_App\<close>
  (app.ts, plugins/auth.ts, closing.ts, error-handler.ts), \<open>Socket_Answer\<close> (answerClientError of
  plugins/error-handler.ts), \<open>System_Status\<close> (lib/system-status.ts, health.ts, heartbeat.ts,
  queue-stats.ts and the two routes), \<open>Define_Route\<close> (lib/define-route.ts, routes/index.ts).

  Processes (\<open>apps/worker/src\<close>, \<open>apps/api/src\<close>): \<open>Stop_Driver\<close> (the interface of a process that drives
  the stop of \<open>Shutdown\<close>: what every such process may conclude from its exit code, proved once in a
  locale that each process interprets), \<open>Smoke_Run\<close> (cli/smoke-run.ts, cli/smoke.ts; the check leaves
  with 0 only when the job was seen to complete, and it always ends), \<open>Worker_Process\<close> (bootstrap.ts;
  0 means that the runtime was drained and closed, and a failed start ends the process with 1),
  \<open>Api_Process\<close> (compose-app.ts, server.ts; whatever was opened is closed, in the order of the plan).

  Client and dashboard (\<open>packages/api-client/src\<close>, \<open>apps/web/src\<close>): \<open>Basic_Auth\<close> (the credentials of
  client.ts, lib/basic-auth.ts, middleware.ts; the header a client builds is read back, and a page is
  handed on only to who sent the password), \<open>Api_Client\<close> (client.ts, errors.ts; what the api answers
  with a failure reaches the caller as that failure), \<open>Web_Status\<close> (lib/api.server.ts, format-status.ts,
  auto-refresh.ts; an outage is never drawn as data).

  Gates and tracker of the repository (\<open>scripts\<close>): \<open>Repo_Files\<close> (lib/files.mjs, lib/paths.mjs),
  \<open>Compose_Graph\<close> (lib/yaml-doc.mjs, json.mjs, compose-graph.mjs; the walk ends and reads exactly the
  admitted closure), \<open>Compose_Service\<close> and \<open>Compose_Rules\<close> (compose-rules.mjs; what a stack found clean
  is known to be), \<open>Tracker_Task\<close> (lib/tracker-task.mjs and the estimates and dependencies of tasks.mjs),
  \<open>Tracker_Doc\<close> (lib/markdown.mjs, tracker-doc.mjs; the link of a task lands on its section),
  \<open>Drift_Signs\<close> and \<open>Schema_Drift\<close> (check-schema-drift.mjs; the code of the gate is earned, and only its
  own copies are removed; \<open>Io_Wp\<close> has the weakest preconditions its proofs compute with),
  \<open>Tracker_Words\<close>, \<open>Tracker_Status\<close> (the rendered page of tasks.mjs), \<open>Tracker_Cycle\<close> and \<open>Tracker\<close> (the
  commands of tasks.mjs), \<open>Tracker_Inv\<close> (no sequence of commands makes the tracker stuck).

  \<^bold>\<open>What the groups of lemmas show.\<close>
  Type and contract lemmas: every answer of the api has the shape its contract declares, for every
  error, every failed section and every refused socket.  Invariants by induction over events: at most
  one call in flight, one answer per socket, one line per request, queues handed out are live, the
  session's settings and the lock are given back.  Safety: work runs under the lock, paid work runs
  below the cap, requests are served only to who may ask, no private text leaves in an answer or a
  log line.  Liveness and termination: the shutdown exits and probe calls end, with the timers'
  firing as events; loops are structural or have a measure.  Round trips and refinement: ids, the
  framing of a written response, sums of a log against the totals of its rows.

  \<^bold>\<open>Bounds and fuel.\<close>
  \<open>Schedules.listSchedulerIds\<close> reads pages with fuel: the count of schedulers held, plus one, is enough,
  as each page that is not the last is full.  \<open>Js_Text\<close> scales a number by at most 330 powers of ten,
  beyond the exponents of a double.  The walks of the log redaction and of an error's causes stop at
  the depth 8 the code itself has.

  \<^bold>\<open>Not modelled.\<close>
  Rounding of binary floating point: numbers are exact rationals, so the places where the code rounds
  on purpose are modelled and accidental rounding is not.  The declarations of tables
  (\<open>packages/db/src/schema\<close>), the composition root and entry points of the processes beyond what is
  named above, the view components of the dashboard, and the test support code.  Of the repository's scripts, the
  probe of an image and the search for a search list.
\<close>

end
